(* ===== verification/Prelude.thy ===== *)
theory Prelude
  imports Complex_Main "HOL-Library.AList" "HOL-Library.Char_ord"
    "HOL-Library.List_Lexorder" "HOL-Library.Sublist"
begin

text \<open>
  Shared vocabulary of the development: Python values and dictionaries, the string
  operations of Python's standard library that the service uses, fallible results, and
  SQL tables as lists of rows. Each component theory builds on the lemmas collected here.

  Strings are lists of characters and are taken to be ASCII. A Python float is an exact
  rational. A point in time is an integer number of microseconds: the service stores UTC
  ISO-8601 texts, whose text order is the order of the instants they denote.
\<close>

named_theorems row_simps \<open>how row updates act on fields and keys\<close>
named_theorems op_defs \<open>the definitions of the operations on the stores\<close>

section \<open>Python values and dictionaries\<close>

datatype pyval =
    VNone
  | VBool bool
  | VInt int
  | VFloat rat
  | VStr string
  | VList "pyval list"
  | VDict "(string \<times> pyval) list"

type_synonym pydict = "(string \<times> pyval) list"
type_synonym timestamp = int

text \<open>
  A JSON text is represented by the value it parses to; \<open>None\<close> stands for a text that
  \<open>json.loads\<close> rejects with \<open>JSONDecodeError\<close>.
\<close>

type_synonym json_text = "pyval option"

text \<open>\<open>d.get(k)\<close>: the value stored under a key, \<open>VNone\<close> when there is none.\<close>

definition dict_get :: "pydict \<Rightarrow> string \<Rightarrow> pyval" where
  "dict_get d k = (case map_of d k of None \<Rightarrow> VNone | Some v \<Rightarrow> v)"

text \<open>
  \<open>d[k] = v\<close> keeps the position of an existing key and appends a new one, as
  \<open>AList.update\<close> does.
\<close>

abbreviation dict_set :: "string \<Rightarrow> 'v \<Rightarrow> (string \<times> 'v) list \<Rightarrow> (string \<times> 'v) list" where
  "dict_set \<equiv> AList.update"

text \<open>\<open>bool(v)\<close>: Python's truth value testing.\<close>

fun truthy :: "pyval \<Rightarrow> bool" where
  "truthy VNone = False"
| "truthy (VBool b) = b"
| "truthy (VInt i) = (i \<noteq> 0)"
| "truthy (VFloat f) = (f \<noteq> 0)"
| "truthy (VStr s) = (s \<noteq> [])"
| "truthy (VList vs) = (vs \<noteq> [])"
| "truthy (VDict d) = (d \<noteq> [])"

text \<open>\<open>a or b\<close> on values, and on optional texts (\<open>None\<close> and the empty text are false).\<close>

definition py_or :: "pyval \<Rightarrow> pyval \<Rightarrow> pyval" where
  "py_or a b = (if truthy a then a else b)"

fun is_dict :: "pyval \<Rightarrow> bool" where
  "is_dict (VDict _) = True"
| "is_dict _ = False"

fun dict_of :: "pyval \<Rightarrow> pydict" where
  "dict_of (VDict d) = d"
| "dict_of _ = []"

text \<open>\<open>v == n\<close> for an integer \<open>n\<close>: Python compares numbers across their types.\<close>

fun eq_int :: "pyval \<Rightarrow> int \<Rightarrow> bool" where
  "eq_int (VInt i) n = (i = n)"
| "eq_int (VBool b) n = ((if b then 1 else 0) = n)"
| "eq_int (VFloat f) n = (f = of_int n)"
| "eq_int _ n = False"

text \<open>\<open>isinstance(v, int)\<close> holds of booleans too; the integer it then denotes.\<close>

fun as_int :: "pyval \<Rightarrow> int option" where
  "as_int (VInt i) = Some i"
| "as_int (VBool b) = Some (if b then 1 else 0)"
| "as_int _ = None"

lemma eq_int_as_int: "as_int v = Some i \<Longrightarrow> eq_int v n \<longleftrightarrow> i = n"
  by (cases v) auto

lemma dict_get_simps [simp]:
  "dict_get [] k = VNone"
  "dict_get ((k', v) # d) k = (if k = k' then v else dict_get d k)"
  by (simp_all add: dict_get_def)

lemma dict_get_update: "dict_get (dict_set k v d) k' = (if k' = k then v else dict_get d k')"
  by (simp add: dict_get_def update_conv)

lemma map_of_dict_set [simp]:
  "map_of (dict_set k v d) k' = (if k' = k then Some v else map_of d k')"
  by (simp add: update_conv')

lemma keys_dict_set: "fst ` set (dict_set k v d) = insert k (fst ` set d)"
  by (simp add: dom_update)

section \<open>Strings\<close>

definition is_space :: "char \<Rightarrow> bool" where
  "is_space c = (let n = of_char c :: nat in n = 32 \<or> (9 \<le> n \<and> n \<le> 13) \<or> (28 \<le> n \<and> n \<le> 31))"

definition lstrip_by :: "(char \<Rightarrow> bool) \<Rightarrow> string \<Rightarrow> string" where
  "lstrip_by p s = dropWhile p s"

definition strip_by :: "(char \<Rightarrow> bool) \<Rightarrow> string \<Rightarrow> string" where
  "strip_by p s = rev (dropWhile p (rev (dropWhile p s)))"

abbreviation strip :: "string \<Rightarrow> string" where
  "strip \<equiv> strip_by is_space"

definition starts_with :: "string \<Rightarrow> string \<Rightarrow> bool" where
  "starts_with p s = (take (length p) s = p)"

definition ends_with :: "string \<Rightarrow> string \<Rightarrow> bool" where
  "ends_with p s = starts_with (rev p) (rev s)"

definition to_lower :: "char \<Rightarrow> char" where
  "to_lower c = (let n = of_char c :: nat in if 65 \<le> n \<and> n \<le> 90 then char_of (n + 32) else c)"

definition lower :: "string \<Rightarrow> string" where
  "lower s = map to_lower s"

definition is_digit :: "char \<Rightarrow> bool" where
  "is_digit c = (let n = of_char c :: nat in 48 \<le> n \<and> n \<le> 57)"

definition is_alnum :: "char \<Rightarrow> bool" where
  "is_alnum c = (let n = of_char c :: nat in
     (48 \<le> n \<and> n \<le> 57) \<or> (65 \<le> n \<and> n \<le> 90) \<or> (97 \<le> n \<and> n \<le> 122))"

text \<open>\<open>s.split(c)\<close> for a one-character separator: never empty.\<close>

fun split_on :: "char \<Rightarrow> string \<Rightarrow> string list" where
  "split_on c [] = [[]]"
| "split_on c (x # xs) =
     (if x = c then [] # split_on c xs
      else (case split_on c xs of [] \<Rightarrow> [[x]] | y # ys \<Rightarrow> (x # y) # ys))"

fun join_on :: "char \<Rightarrow> string list \<Rightarrow> string" where
  "join_on c [] = []"
| "join_on c [x] = x"
| "join_on c (x # y # ys) = x @ c # join_on c (y # ys)"

text \<open>\<open>s.partition(c)\<close>: the text before and after the first occurrence.\<close>

definition partition_on :: "char \<Rightarrow> string \<Rightarrow> string \<times> string" where
  "partition_on c s = (takeWhile (\<lambda>x. x \<noteq> c) s, drop 1 (dropWhile (\<lambda>x. x \<noteq> c) s))"

text \<open>\<open>int(s)\<close> on a text of decimal digits, and \<open>str(n)\<close>.\<close>

definition digit_val :: "char \<Rightarrow> nat" where
  "digit_val c = of_char c - 48"

definition nat_of_digits :: "string \<Rightarrow> nat" where
  "nat_of_digits s = foldl (\<lambda>acc c. 10 * acc + digit_val c) 0 s"

definition all_digits :: "string \<Rightarrow> bool" where
  "all_digits s = (s \<noteq> [] \<and> list_all is_digit s)"

fun show_nat :: "nat \<Rightarrow> string" where
  "show_nat n = (if n < 10 then [char_of (48 + n)]
                 else show_nat (n div 10) @ [char_of (48 + n mod 10)])"

declare show_nat.simps [simp del]

definition show_int :: "int \<Rightarrow> string" where
  "show_int i = (if i < 0 then CHR ''-'' # show_nat (nat (- i)) else show_nat (nat i))"

lemma split_on_nonempty [simp]: "split_on c s \<noteq> []"
  by (induction s) (auto split: list.splits)

lemma join_split: "join_on c (split_on c s) = s"
proof (induction s)
  case Nil
  then show ?case by simp
next
  case (Cons x xs)
  obtain y ys where "split_on c xs = y # ys"
    by (meson split_on_nonempty neq_Nil_conv)
  with Cons show ?case by (cases ys) auto
qed

lemma split_on_no_sep: "p \<in> set (split_on c s) \<Longrightarrow> c \<notin> set p"
proof (induction s arbitrary: p)
  case (Cons x xs)
  then show ?case
    by (cases "split_on c xs") (auto split: if_splits)
qed simp

lemma dropWhile_not_hd: "dropWhile p s = x # xs \<Longrightarrow> \<not> p x"
  by (metis dropWhile_eq_Cons_conv)

lemma set_strip_by: "set (strip_by p s) \<subseteq> set s"
  unfolding strip_by_def by (metis set_dropWhileD set_rev subsetI)

lemma dropWhile_not_first: "s = [] \<or> \<not> p (hd s) \<Longrightarrow> dropWhile p s = s"
  by (cases s) auto

lemma strip_by_clean:
  assumes "k \<noteq> []" "\<not> p (hd k)" "\<not> p (last k)" "list_all p a" "list_all p b"
  shows "strip_by p (a @ k @ b) = k"
proof -
  have "dropWhile p (a @ k @ b) = k @ b"
    using assms by (simp add: list_all_iff dropWhile_not_first)
  moreover have "dropWhile p (rev (k @ b)) = rev k"
    using assms dropWhile_append2 [of "rev b" p "rev k"]
    by (simp add: list_all_iff dropWhile_not_first hd_rev)
  ultimately show ?thesis by (simp add: strip_by_def)
qed

lemma split_on_sep_free: "c \<notin> set s \<Longrightarrow> split_on c s = [s]"
  by (induction s) auto

lemma split_on_append: "c \<notin> set s \<Longrightarrow> split_on c (s @ c # t) = s # split_on c t"
  by (induction s) auto

lemma split_join: "ks \<noteq> [] \<Longrightarrow> list_all (\<lambda>k. c \<notin> set k) ks \<Longrightarrow> split_on c (join_on c ks) = ks"
  by (induction c ks rule: join_on.induct) (simp_all add: split_on_sep_free split_on_append)

lemma partition_on_append:
  "c \<notin> set a \<Longrightarrow> partition_on c (a @ c # b) = (a, b)"
  by (simp add: partition_on_def takeWhile_append takeWhile_eq_all_conv dropWhile_append)

lemma digit_char: "n < 10 \<Longrightarrow> is_digit (char_of (48 + n)) \<and> digit_val (char_of (48 + n)) = n"
  by (simp add: is_digit_def digit_val_def Let_def)

lemma nat_of_digits_snoc: "nat_of_digits (s @ [c]) = 10 * nat_of_digits s + digit_val c"
  by (simp add: nat_of_digits_def)

lemma nat_of_digits_show: "nat_of_digits (show_nat n) = n"
proof (induction n rule: show_nat.induct)
  case (1 n)
  show ?case
  proof (cases "n < 10")
    case True
    then show ?thesis
      using digit_char [of n] by (simp add: show_nat.simps [of n] nat_of_digits_def)
  next
    case False
    then show ?thesis
      using 1 digit_char [of "n mod 10"] by (simp add: show_nat.simps [of n] nat_of_digits_snoc)
  qed
qed

lemma show_nat_digits: "all_digits (show_nat n)"
proof (induction n rule: show_nat.induct)
  case (1 n)
  then show ?case
    using digit_char [of n] digit_char [of "n mod 10"]
    by (cases "n < 10") (simp_all add: show_nat.simps [of n] all_digits_def)
qed

lemma show_nat_inject: "show_nat m = show_nat n \<longleftrightarrow> m = n"
  by (metis nat_of_digits_show)

section \<open>Fallible results\<close>

text \<open>A result is \<open>Inl\<close> of an error or \<open>Inr\<close> of a value; \<open>bind_r\<close> stops at the first error.\<close>

definition bind_r :: "'e + 'a \<Rightarrow> ('a \<Rightarrow> 'e + 'b) \<Rightarrow> 'e + 'b" where
  "bind_r m f = (case m of Inl e \<Rightarrow> Inl e | Inr x \<Rightarrow> f x)"

definition check :: "bool \<Rightarrow> 'e \<Rightarrow> 'e + unit" where
  "check b e = (if b then Inr () else Inl e)"

lemma bind_r_simps [simp]: "bind_r (Inl e) f = Inl e" "bind_r (Inr x) f = f x"
  by (simp_all add: bind_r_def)

lemma bind_r_Inr: "bind_r m f = Inr y \<longleftrightarrow> (\<exists>x. m = Inr x \<and> f x = Inr y)"
  by (cases m) auto

lemma bind_r_Inl: "bind_r m f = Inl e \<longleftrightarrow> m = Inl e \<or> (\<exists>x. m = Inr x \<and> f x = Inl e)"
  by (cases m) auto

lemma check_Inr [simp]: "check b e = Inr u \<longleftrightarrow> b"
  by (simp add: check_def)

lemma check_Inl [simp]: "check b e = Inl e' \<longleftrightarrow> \<not> b \<and> e' = e"
  by (auto simp: check_def)

text \<open>A loop that stops at the first error, collecting the results in order.\<close>

fun map_r :: "('a \<Rightarrow> 'e + 'b) \<Rightarrow> 'a list \<Rightarrow> 'e + 'b list" where
  "map_r f [] = Inr []"
| "map_r f (x # xs) = bind_r (f x) (\<lambda>y. bind_r (map_r f xs) (\<lambda>ys. Inr (y # ys)))"

lemma map_r_Inr: "map_r f xs = Inr ys \<Longrightarrow> list_all2 (\<lambda>x y. f x = Inr y) xs ys"
  by (induction xs arbitrary: ys) (auto simp: bind_r_Inr)

lemma map_r_Inr_length: "map_r f xs = Inr ys \<Longrightarrow> length ys = length xs"
  by (drule map_r_Inr) (simp add: list_all2_lengthD)

lemma map_r_Inr_set: "map_r f xs = Inr ys \<Longrightarrow> y \<in> set ys \<Longrightarrow> \<exists>x \<in> set xs. f x = Inr y"
  by (induction xs arbitrary: ys) (auto simp: bind_r_Inr)

section \<open>Tables of rows\<close>

text \<open>
  A table is the list of its rows in insertion order. \<open>tbl_find\<close> is a SELECT on the
  primary key, \<open>tbl_modify\<close> an UPDATE of the row with that key, \<open>tbl_insert\<close> an INSERT,
  which the primary key refuses when the key is taken.
\<close>

definition tbl_find :: "('r \<Rightarrow> 'k) \<Rightarrow> 'r list \<Rightarrow> 'k \<Rightarrow> 'r option" where
  "tbl_find key t k = List.find (\<lambda>r. key r = k) t"

definition tbl_modify :: "('r \<Rightarrow> 'k) \<Rightarrow> 'k \<Rightarrow> ('r \<Rightarrow> 'r) \<Rightarrow> 'r list \<Rightarrow> 'r list" where
  "tbl_modify key k f t = map (\<lambda>r. if key r = k then f r else r) t"

definition tbl_insert :: "('r \<Rightarrow> 'k) \<Rightarrow> 'r \<Rightarrow> 'r list \<Rightarrow> 'r list option" where
  "tbl_insert key r t = (if key r \<in> set (map key t) then None else Some (t @ [r]))"

text \<open>
  What the operations of a store rely on, whatever the rows are. \<open>find\<close>, \<open>modify\<close> and
  \<open>insert\<close> are the calls; a modifier must not write the key.
\<close>

locale row_store =
  fixes key :: "'r \<Rightarrow> 'k"
    and find :: "'r list \<Rightarrow> 'k \<Rightarrow> 'r option"
    and modify :: "'k \<Rightarrow> ('r \<Rightarrow> 'r) \<Rightarrow> 'r list \<Rightarrow> 'r list"
    and insert :: "'r \<Rightarrow> 'r list \<Rightarrow> 'r list option"
  assumes find_member: "find t k = Some r \<Longrightarrow> r \<in> set t \<and> key r = k"
    and find_complete: "r \<in> set t \<Longrightarrow> \<exists>r'. find t (key r) = Some r'"
    and find_modify: "(\<And>r. key (f r) = key r) \<Longrightarrow>
      find (modify k f t) k' = (if k' = k then map_option f (find t k) else find t k')"
    and keys_modify: "(\<And>r. key (f r) = key r) \<Longrightarrow> map key (modify k f t) = map key t"
    and member_modify: "r \<in> set (modify k f t) \<Longrightarrow>
      (r \<in> set t \<and> key r \<noteq> k) \<or> (\<exists>r0 \<in> set t. key r0 = k \<and> r = f r0)"
    and insert_Some: "insert r t = Some t' \<longleftrightarrow> key r \<notin> set (map key t) \<and> t' = t @ [r]"
    and find_append: "find (t @ [r]) k =
      (case find t k of Some r' \<Rightarrow> Some r' | None \<Rightarrow> if key r = k then Some r else None)"
begin

definition keys_distinct :: "'r list \<Rightarrow> bool" where
  "keys_distinct t = distinct (map key t)"

lemma modify_distinct:
  "(\<And>r. key (f r) = key r) \<Longrightarrow> keys_distinct (modify k f t) = keys_distinct t"
  by (simp add: keys_distinct_def keys_modify)

lemma insert_distinct: "insert r t = Some t' \<Longrightarrow> keys_distinct t \<Longrightarrow> keys_distinct t'"
  by (auto simp: insert_Some keys_distinct_def)

lemma modify_preserves:
  assumes "\<And>r. r \<in> set t \<Longrightarrow> P r" and "\<And>r. r \<in> set t \<Longrightarrow> key r = k \<Longrightarrow> P r \<Longrightarrow> P (f r)"
    and "r \<in> set (modify k f t)"
  shows "P r"
  using member_modify [OF assms(3)] assms(1,2) by auto

lemma find_distinct:
  assumes "keys_distinct t" and "r \<in> set t"
  shows "find t (key r) = Some r"
proof -
  obtain r' where r': "find t (key r) = Some r'"
    using find_complete assms(2) by blast
  then have "r' \<in> set t" "key r' = key r" using find_member by blast+
  with assms have "r' = r"
    by (auto simp: keys_distinct_def distinct_map inj_on_def)
  with r' show ?thesis by simp
qed

lemma key_unique:
  "keys_distinct t \<Longrightarrow> r \<in> set t \<Longrightarrow> s \<in> set t \<Longrightarrow> key r = key s \<Longrightarrow> r = s"
  by (metis find_distinct option.inject)

lemma find_inserted:
  "insert r t = Some t' \<Longrightarrow> find t' (key r) = Some r"
  by (auto simp: insert_Some find_append image_iff split: option.splits dest!: find_member)

lemma find_after_insert:
  "insert r t = Some t' \<Longrightarrow> k \<noteq> key r \<Longrightarrow> find t' k = find t k"
  by (auto simp: insert_Some find_append split: option.splits)

end

lemma tbl_find_modify:
  "(\<And>r. key (f r) = key r) \<Longrightarrow>
   tbl_find key (tbl_modify key k f t) k' =
     (if k' = k then map_option f (tbl_find key t k) else tbl_find key t k')"
  by (induction t) (auto simp: tbl_find_def tbl_modify_def)

lemma tbl_find_Some: "tbl_find key t k = Some r \<Longrightarrow> r \<in> set t \<and> key r = k"
  by (auto simp: tbl_find_def find_Some_iff)

lemma tbl_find_complete: "r \<in> set t \<Longrightarrow> \<exists>r'. tbl_find key t (key r) = Some r'"
  by (induction t) (auto simp: tbl_find_def)

lemma tbl_keys_modify:
  "(\<And>r. key (f r) = key r) \<Longrightarrow> map key (tbl_modify key k f t) = map key t"
  by (simp add: tbl_modify_def)

lemma tbl_member_modify:
  "r \<in> set (tbl_modify key k f t) \<Longrightarrow>
   (r \<in> set t \<and> key r \<noteq> k) \<or> (\<exists>r0 \<in> set t. key r0 = k \<and> r = f r0)"
  by (auto simp: tbl_modify_def split: if_splits)

lemma tbl_modify_other: "s \<in> set t \<Longrightarrow> key s \<noteq> k \<Longrightarrow> s \<in> set (tbl_modify key k f t)"
  by (auto simp: tbl_modify_def intro: rev_image_eqI)

lemma tbl_insert_Some:
  "tbl_insert key r t = Some t' \<longleftrightarrow> key r \<notin> set (map key t) \<and> t' = t @ [r]"
  by (auto simp: tbl_insert_def)

lemma tbl_find_append: "tbl_find key (t @ [r]) k =
   (case tbl_find key t k of Some r' \<Rightarrow> Some r' | None \<Rightarrow> if key r = k then Some r else None)"
  by (induction t) (auto simp: tbl_find_def)

lemma tbl_find_None: "tbl_find key t k = None \<longleftrightarrow> k \<notin> set (map key t)"
  by (auto simp: tbl_find_def find_None_iff)

lemmas tbl_laws = tbl_find_Some tbl_find_complete tbl_find_modify tbl_keys_modify
  tbl_member_modify tbl_insert_Some tbl_find_append

text \<open>Every keyed table satisfies the contract; each store interprets it on its own rows.\<close>

lemma row_store_tbl: "row_store key (tbl_find key) (tbl_modify key) (tbl_insert key)"
  by unfold_locales
    (simp_all only: tbl_find_modify tbl_keys_modify tbl_insert_Some tbl_find_append,
      (erule tbl_find_Some tbl_find_complete tbl_member_modify)+)

section \<open>Status machines\<close>

text \<open>
  The job table and the LoRA fetch table both guard their status column by a transition
  table. \<open>allowed\<close> is that table; \<open>terminal\<close> are the statuses without an exit; \<open>rank\<close>
  grows with every transition, which is why no run can come back.
\<close>

locale status_machine =
  fixes allowed :: "'s \<Rightarrow> 's \<Rightarrow> bool"
    and terminal :: "'s \<Rightarrow> bool"
    and rank :: "'s \<Rightarrow> nat"
    and top :: nat
  assumes terminal_iff: "terminal s \<longleftrightarrow> (\<forall>t. \<not> allowed s t)"
    and rank_grows: "allowed s t \<Longrightarrow> rank s < rank t"
    and rank_bound: "rank s \<le> top"
begin

lemma run_rank: "(allowed ^^ n) s t \<Longrightarrow> rank s + n \<le> rank t"
proof (induction n arbitrary: t)
  case (Suc n)
  then obtain u where u: "(allowed ^^ n) s u" "allowed u t" by auto
  with Suc.IH have "rank s + n \<le> rank u" by blast
  moreover from u(2) have "rank u < rank t" by (rule rank_grows)
  ultimately show ?case by simp
qed simp

lemma run_bounded: "(allowed ^^ n) s t \<Longrightarrow> n \<le> top"
  using run_rank [of n s t] rank_bound [of t] by linarith

lemma no_return: "allowed\<^sup>+\<^sup>+ s t \<Longrightarrow> rank s < rank t"
  by (induction rule: tranclp_induct) (auto dest: rank_grows)

lemma terminal_final: "terminal s \<Longrightarrow> allowed\<^sup>*\<^sup>* s t \<Longrightarrow> t = s"
  by (erule converse_rtranclpE) (auto simp: terminal_iff)

lemma reaches_terminal: "\<exists>t. allowed\<^sup>*\<^sup>* s t \<and> terminal t"
proof (induction "top - rank s" arbitrary: s rule: less_induct)
  case less
  show ?case
  proof (cases "terminal s")
    case False
    then obtain t where t: "allowed s t" by (auto simp: terminal_iff)
    then have "top - rank t < top - rank s"
      using rank_grows [OF t] rank_bound [of t] by linarith
    from less(1) [OF this] t show ?thesis
      by (meson converse_rtranclp_into_rtranclp)
  qed auto
qed

end

end
