(* ===== verification/Job_Store.thy ===== *)
theory Job_Store
  imports Prelude
begin

text \<open>
  \<open>app/queue/jobs.py\<close>: the \<open>jobs\<close> and \<open>webhook_deliveries\<close> tables, the transition table
  that guards a job's status, and every operation of the module. An operation takes the
  table and the time \<open>now\<close> that \<open>_now()\<close> reads; one that can raise returns a sum, and a
  raise leaves the table as it was (\<open>JobStore.write\<close> rolls back). JSON columns hold the
  values they encode; a NULL \<open>output_keys\<close> and an empty list read back alike.
\<close>

section \<open>Statuses and their transitions\<close>

datatype job_status = Queued | Running | Completed | Failed | Abandoned
datatype job_mode = Sync | Async
datatype webhook_delivery_status = DPending | DSucceeded | DFailed | DSuppressed
datatype webhook_attempt_status = APending | ADelivering | ASucceeded | AFailed

text \<open>
  The errors of a guarded store: \<open>InvalidTransitionError\<close>, \<open>JobNotFoundError\<close> (or
  \<open>LoraFetchNotFoundError\<close>), SQLite's \<open>IntegrityError\<close>, a failed \<open>assert\<close>.
\<close>

datatype 's store_error =
    InvalidTransitionError 's 's
  | NotFoundError string
  | IntegrityError
  | AssertionError

fun allowed_transitions :: "job_status \<Rightarrow> job_status list" where
  "allowed_transitions Queued = [Running, Failed, Abandoned]"
| "allowed_transitions Running = [Completed, Failed, Abandoned]"
| "allowed_transitions Completed = []"
| "allowed_transitions Failed = []"
| "allowed_transitions Abandoned = []"

definition assert_allowed :: "job_status \<Rightarrow> job_status \<Rightarrow> job_status store_error + unit" where
  "assert_allowed current target =
     (if target \<notin> set (allowed_transitions current)
      then Inl (InvalidTransitionError current target) else Inr ())"

abbreviation terminal_status :: "job_status \<Rightarrow> bool" where
  "terminal_status s \<equiv> s \<in> {Completed, Failed, Abandoned}"

fun status_rank :: "job_status \<Rightarrow> nat" where
  "status_rank Queued = 0"
| "status_rank Running = 1"
| "status_rank _ = 2"

interpretation job_machine: status_machine
  "\<lambda>s t. t \<in> set (allowed_transitions s)" terminal_status status_rank 2
proof
  fix s t :: job_status
  show "terminal_status s \<longleftrightarrow> (\<forall>t. t \<notin> set (allowed_transitions s))"
    by (cases s) auto
  show "t \<in> set (allowed_transitions s) \<Longrightarrow> status_rank s < status_rank t"
    by (cases s) auto
  show "status_rank s \<le> 2" by (cases s) auto
qed

section \<open>Rows\<close>

record job =
  j_id :: string
  j_model_name :: string
  j_input_json :: json_text
  j_mode :: job_mode
  j_status :: job_status
  j_result_json :: "pyval option"
  j_error_code :: "string option"
  j_error_message :: "string option"
  j_created_at :: timestamp
  j_updated_at :: timestamp
  j_client_id :: "string option"
  j_prompt_id :: "string option"
  j_output_keys :: "string list"
  j_response_delivered :: bool
  j_initial_response_delivered :: bool
  j_webhook_url :: "string option"
  j_webhook_headers :: "(string \<times> string) list option"
  j_webhook_delivery_status :: "webhook_delivery_status option"
  j_webhook_handover :: bool
  j_fetched_at :: "timestamp option"

record attempt =
  a_id :: string
  a_job_id :: string
  a_attempt_n :: int
  a_status :: webhook_attempt_status
  a_status_code :: "int option"
  a_response_body_snippet :: "string option"
  a_error :: "string option"
  a_error_code :: "string option"
  a_next_retry_at :: "timestamp option"
  a_created_at :: timestamp
  a_completed_at :: "timestamp option"

type_synonym jobs = "job list"
type_synonym job_error = "job_status store_error"

abbreviation job_find :: "jobs \<Rightarrow> string \<Rightarrow> job option" where
  "job_find \<equiv> tbl_find j_id"

abbreviation job_modify :: "string \<Rightarrow> (job \<Rightarrow> job) \<Rightarrow> jobs \<Rightarrow> jobs" where
  "job_modify \<equiv> tbl_modify j_id"

interpretation jt: row_store j_id job_find job_modify "tbl_insert j_id"
  by (rule row_store_tbl)

interpretation att: row_store a_id "tbl_find a_id" "tbl_modify a_id" "tbl_insert a_id"
  by (rule row_store_tbl)

section \<open>Operations on jobs\<close>

text \<open>
  The INSERT stores \<open>webhook_delivery_status\<close> NULL and RETURNING reads the row then; the
  UPDATE that follows makes it \<open>pending\<close> in the table only. \<open>job_id\<close> is the fresh
  \<open>gen_\<close> ksuid; a taken one violates the primary key.
\<close>

definition create_queued ::
  "jobs \<Rightarrow> string \<Rightarrow> timestamp \<Rightarrow> string \<Rightarrow> json_text \<Rightarrow> job_mode \<Rightarrow> string option \<Rightarrow>
   (string \<times> string) list option \<Rightarrow> job_error + (jobs \<times> job)" where
  "create_queued t job_id now model_name input_json mode webhook_url webhook_headers =
     (let row = \<lparr>j_id = job_id, j_model_name = model_name, j_input_json = input_json,
                 j_mode = mode, j_status = Queued, j_result_json = None,
                 j_error_code = None, j_error_message = None,
                 j_created_at = now, j_updated_at = now,
                 j_client_id = None, j_prompt_id = None, j_output_keys = [],
                 j_response_delivered = False, j_initial_response_delivered = False,
                 j_webhook_url = webhook_url,
                 j_webhook_headers =
                   (if webhook_headers = Some [] then None else webhook_headers),
                 j_webhook_delivery_status = None, j_webhook_handover = False,
                 j_fetched_at = None\<rparr>
      in case tbl_insert j_id row t of
           None \<Rightarrow> Inl IntegrityError
         | Some t' \<Rightarrow>
             Inr (if webhook_url \<noteq> None
                  then job_modify job_id (j_webhook_delivery_status_update (\<lambda>_. Some DPending)) t'
                  else t', row))"

definition get_by_id :: "jobs \<Rightarrow> string \<Rightarrow> job option" where
  "get_by_id t job_id = job_find t job_id"

definition fetch_status :: "jobs \<Rightarrow> string \<Rightarrow> job_error + job_status" where
  "fetch_status t job_id =
     (case job_find t job_id of None \<Rightarrow> Inl (NotFoundError job_id) | Some j \<Rightarrow> Inr (j_status j))"

text \<open>
  The shape the four status setters share: read the status, check the transition, update
  the row, and read it back under an \<open>assert\<close>.
\<close>

definition guarded_update ::
  "jobs \<Rightarrow> string \<Rightarrow> job_status \<Rightarrow> (job \<Rightarrow> job) \<Rightarrow> job_error + (jobs \<times> job)" where
  "guarded_update t job_id target f =
     bind_r (fetch_status t job_id) (\<lambda>current.
     bind_r (assert_allowed current target) (\<lambda>_.
       (let t' = job_modify job_id f t
        in case get_by_id t' job_id of None \<Rightarrow> Inl AssertionError | Some j \<Rightarrow> Inr (t', j))))"

definition running_row :: "string \<Rightarrow> string \<Rightarrow> timestamp \<Rightarrow> job \<Rightarrow> job" where
  "running_row prompt_id client_id now j = j\<lparr>j_status := Running,
     j_prompt_id := Some prompt_id, j_client_id := Some client_id, j_updated_at := now\<rparr>"

definition completed_row :: "string list \<Rightarrow> pyval \<Rightarrow> timestamp \<Rightarrow> job \<Rightarrow> job" where
  "completed_row output_keys result_json now j = j\<lparr>j_status := Completed,
     j_output_keys := output_keys, j_result_json := Some result_json, j_updated_at := now\<rparr>"

definition failed_row :: "string \<Rightarrow> string \<Rightarrow> timestamp \<Rightarrow> job \<Rightarrow> job" where
  "failed_row error_code error_message now j = j\<lparr>j_status := Failed,
     j_error_code := Some error_code, j_error_message := Some error_message,
     j_updated_at := now\<rparr>"

definition abandoned_row :: "string \<Rightarrow> timestamp \<Rightarrow> job \<Rightarrow> job" where
  "abandoned_row error_code now j = j\<lparr>j_status := Abandoned,
     j_error_code := Some error_code, j_updated_at := now\<rparr>"

definition set_running ::
  "jobs \<Rightarrow> string \<Rightarrow> string \<Rightarrow> string \<Rightarrow> timestamp \<Rightarrow> job_error + (jobs \<times> job)" where
  "set_running t job_id prompt_id client_id now =
     guarded_update t job_id Running (running_row prompt_id client_id now)"

definition set_completed ::
  "jobs \<Rightarrow> string \<Rightarrow> string list \<Rightarrow> pyval \<Rightarrow> timestamp \<Rightarrow> job_error + (jobs \<times> job)" where
  "set_completed t job_id output_keys result_json now =
     guarded_update t job_id Completed (completed_row output_keys result_json now)"

definition set_failed ::
  "jobs \<Rightarrow> string \<Rightarrow> string \<Rightarrow> string \<Rightarrow> timestamp \<Rightarrow> job_error + (jobs \<times> job)" where
  "set_failed t job_id error_code error_message now =
     guarded_update t job_id Failed (failed_row error_code error_message now)"

definition set_abandoned ::
  "jobs \<Rightarrow> string \<Rightarrow> string \<Rightarrow> timestamp \<Rightarrow> job_error + (jobs \<times> job)" where
  "set_abandoned t job_id error_code now =
     guarded_update t job_id Abandoned (abandoned_row error_code now)"

definition count_active :: "jobs \<Rightarrow> nat" where
  "count_active t = length (filter (\<lambda>j. j_status j \<in> {Queued, Running}) t)"

text \<open>GROUP BY: a status that no row has is absent from the result.\<close>

definition count_by_status :: "jobs \<Rightarrow> job_status \<Rightarrow> nat option" where
  "count_by_status t s =
     (let n = length (filter (\<lambda>j. j_status j = s) t) in if n = 0 then None else Some n)"

definition scan_non_terminal :: "jobs \<Rightarrow> jobs" where
  "scan_non_terminal t = sort_key j_created_at (filter (\<lambda>j. j_status j \<in> {Queued, Running}) t)"

definition set_fetched :: "jobs \<Rightarrow> string \<Rightarrow> timestamp \<Rightarrow> jobs" where
  "set_fetched t job_id now =
     job_modify job_id (\<lambda>j. if j_fetched_at j = None then j\<lparr>j_fetched_at := Some now\<rparr> else j) t"

definition mark_initial_response_delivered :: "jobs \<Rightarrow> string \<Rightarrow> timestamp \<Rightarrow> jobs" where
  "mark_initial_response_delivered t job_id now =
     job_modify job_id (\<lambda>j. if j_mode j = Async
       then j\<lparr>j_initial_response_delivered := True, j_webhook_handover := True,
              j_updated_at := now\<rparr> else j) t"

definition mark_response_delivered :: "jobs \<Rightarrow> string \<Rightarrow> timestamp \<Rightarrow> jobs" where
  "mark_response_delivered t job_id now =
     job_modify job_id (\<lambda>j. if j_mode j = Sync
       then j\<lparr>j_response_delivered := True, j_webhook_handover := True,
              j_updated_at := now\<rparr> else j) t"

definition mark_async_with_handover :: "jobs \<Rightarrow> string \<Rightarrow> timestamp \<Rightarrow> jobs" where
  "mark_async_with_handover t job_id now =
     job_modify job_id (\<lambda>j. j\<lparr>j_mode := Async, j_webhook_handover := True, j_updated_at := now\<rparr>) t"

definition mark_handover :: "jobs \<Rightarrow> string \<Rightarrow> timestamp \<Rightarrow> jobs" where
  "mark_handover t job_id now =
     job_modify job_id (\<lambda>j. j\<lparr>j_webhook_handover := True, j_updated_at := now\<rparr>) t"

definition webhook_candidate :: "job \<Rightarrow> bool" where
  "webhook_candidate j \<longleftrightarrow> j_webhook_url j \<noteq> None \<and> j_webhook_handover j \<and>
     j_status j \<in> {Completed, Failed, Abandoned} \<and>
     (j_webhook_delivery_status j = Some DPending \<or> j_webhook_delivery_status j = None)"

definition scan_webhook_candidates :: "jobs \<Rightarrow> jobs" where
  "scan_webhook_candidates t = sort_key j_updated_at (filter webhook_candidate t)"

definition set_webhook_delivery_status ::
  "jobs \<Rightarrow> string \<Rightarrow> webhook_delivery_status \<Rightarrow> timestamp \<Rightarrow> jobs" where
  "set_webhook_delivery_status t job_id status now =
     job_modify job_id (\<lambda>j. j\<lparr>j_webhook_delivery_status := Some status, j_updated_at := now\<rparr>) t"

section \<open>Operations on delivery attempts\<close>

text \<open>ORDER BY attempt_n, ties in insertion order; the latest is the head of the DESC order.\<close>

definition list_attempts_for_job :: "attempt list \<Rightarrow> string \<Rightarrow> attempt list" where
  "list_attempts_for_job ds job_id = sort_key a_attempt_n (filter (\<lambda>a. a_job_id a = job_id) ds)"

definition get_latest_attempt :: "attempt list \<Rightarrow> string \<Rightarrow> attempt option" where
  "get_latest_attempt ds job_id =
     (case sort_key (\<lambda>a. - a_attempt_n a) (filter (\<lambda>a. a_job_id a = job_id) ds) of
        [] \<Rightarrow> None | a # _ \<Rightarrow> Some a)"

text \<open>The schema's \<open>CHECK (attempt_n BETWEEN 1 AND 5)\<close> is part of the INSERT.\<close>

definition create_attempt ::
  "attempt list \<Rightarrow> string \<Rightarrow> timestamp \<Rightarrow> string \<Rightarrow> int \<Rightarrow> timestamp option \<Rightarrow>
   job_error + (attempt list \<times> attempt)" where
  "create_attempt ds attempt_id now job_id attempt_n next_retry_at =
     (let row = \<lparr>a_id = attempt_id, a_job_id = job_id, a_attempt_n = attempt_n,
                 a_status = APending, a_status_code = None,
                 a_response_body_snippet = None, a_error = None, a_error_code = None,
                 a_next_retry_at = next_retry_at, a_created_at = now,
                 a_completed_at = None\<rparr>
      in if attempt_n < 1 \<or> 5 < attempt_n then Inl IntegrityError
         else case tbl_insert a_id row ds of
                None \<Rightarrow> Inl IntegrityError | Some ds' \<Rightarrow> Inr (ds', row))"

definition set_attempt_delivering :: "attempt list \<Rightarrow> string \<Rightarrow> attempt list" where
  "set_attempt_delivering ds attempt_id =
     tbl_modify a_id attempt_id (a_status_update (\<lambda>_. ADelivering)) ds"

definition complete_attempt ::
  "attempt list \<Rightarrow> string \<Rightarrow> webhook_attempt_status \<Rightarrow> int option \<Rightarrow> string option \<Rightarrow>
   string option \<Rightarrow> string option \<Rightarrow> timestamp option \<Rightarrow> timestamp \<Rightarrow> attempt list" where
  "complete_attempt ds attempt_id status status_code snippet error error_code next_retry_at now =
     tbl_modify a_id attempt_id (\<lambda>a. a\<lparr>a_status := status, a_status_code := status_code,
       a_response_body_snippet := snippet, a_error := error, a_error_code := error_code,
       a_next_retry_at := next_retry_at, a_completed_at := Some now\<rparr>) ds"

lemmas job_row_defs = running_row_def completed_row_def failed_row_def abandoned_row_def

lemma row_ids [row_simps, simp]:
  "j_id (running_row p c n j) = j_id j" "j_id (completed_row k r n j) = j_id j"
  "j_id (failed_row e m n j) = j_id j" "j_id (abandoned_row e n j) = j_id j"
  by (simp_all add: job_row_defs)

lemma row_statuses [row_simps, simp]:
  "j_status (running_row p c n j) = Running" "j_status (completed_row k r n j) = Completed"
  "j_status (failed_row e m n j) = Failed" "j_status (abandoned_row e n j) = Abandoned"
  by (simp_all add: job_row_defs)


section \<open>What the guarded setters do\<close>

lemma guarded_update_eq:
  assumes "\<And>j. j_id (f j) = j_id j"
  shows "guarded_update t i target f =
    (case job_find t i of
       None \<Rightarrow> Inl (NotFoundError i)
     | Some j \<Rightarrow>
         if target \<in> set (allowed_transitions (j_status j))
         then Inr (job_modify i f t, f j)
         else Inl (InvalidTransitionError (j_status j) target))"
  using assms
  by (auto simp: guarded_update_def fetch_status_def assert_allowed_def get_by_id_def
      jt.find_modify split: option.splits)

lemmas setter_defs [op_defs] =
  set_running_def set_completed_def set_failed_def set_abandoned_def

lemma setter_Inr:
  assumes "guarded_update t i target f = Inr (t', j')" and "\<And>j. j_id (f j) = j_id j"
  obtains j where "job_find t i = Some j" "target \<in> set (allowed_transitions (j_status j))"
    "t' = job_modify i f t" "j' = f j"
  using assms(1) by (auto simp: guarded_update_eq [OF assms(2)] split: option.splits if_splits)

lemma allowed_transitions_target [simp]:
  "Running \<in> set (allowed_transitions s) \<longleftrightarrow> s = Queued"
  "Completed \<in> set (allowed_transitions s) \<longleftrightarrow> s = Running"
  "Failed \<in> set (allowed_transitions s) \<longleftrightarrow> s \<in> {Queued, Running}"
  "Abandoned \<in> set (allowed_transitions s) \<longleftrightarrow> s \<in> {Queued, Running}"
  by (cases s; simp)+

lemma not_terminal: "\<not> terminal_status s \<longleftrightarrow> s \<in> {Queued, Running}"
  by (cases s) auto

lemma set_failed_eq:
  "set_failed t i c m now =
    (case job_find t i of
       None \<Rightarrow> Inl (NotFoundError i)
     | Some j \<Rightarrow>
         if terminal_status (j_status j) then Inl (InvalidTransitionError (j_status j) Failed)
         else Inr (job_modify i (failed_row c m now) t, failed_row c m now j))"
  using not_terminal by (auto simp: set_failed_def guarded_update_eq split: option.splits)

lemma create_queued_Inr:
  assumes "create_queued t i now m inp md url hs = Inr (t', j)"
  shows "i \<notin> set (map j_id t)" and "j_id j = i" and "j_status j = Queued"
    and "\<exists>r. t' = t @ [r] \<and> j_id r = i \<and> r = j\<lparr>j_webhook_delivery_status :=
           (if url = None then None else Some DPending)\<rparr>"
    and "j_mode j = md" and "j_input_json j = inp" and "j_webhook_url j = url"
  using assms
  by (auto simp: create_queued_def tbl_insert_def tbl_modify_def Let_def
      split: option.splits if_splits intro!: map_idI)

section \<open>Every change the table can go through\<close>

text \<open>
  The module's operations are the only writers of the \<open>jobs\<close> table, and each runs under
  the store's write lock; a run of the service is an interleaving of their calls, by the
  workers, the request handlers, the dispatcher and boot recovery, with any arguments.
\<close>

inductive job_step :: "jobs \<Rightarrow> jobs \<Rightarrow> bool" where
  step_create: "create_queued t i now m inp md url hs = Inr (t', j) \<Longrightarrow> job_step t t'"
| step_running: "set_running t i p c now = Inr (t', j) \<Longrightarrow> job_step t t'"
| step_completed: "set_completed t i ks r now = Inr (t', j) \<Longrightarrow> job_step t t'"
| step_failed: "set_failed t i c m now = Inr (t', j) \<Longrightarrow> job_step t t'"
| step_abandoned: "set_abandoned t i c now = Inr (t', j) \<Longrightarrow> job_step t t'"
| step_fetched: "job_step t (set_fetched t i now)"
| step_initial: "job_step t (mark_initial_response_delivered t i now)"
| step_response: "job_step t (mark_response_delivered t i now)"
| step_async: "job_step t (mark_async_with_handover t i now)"
| step_handover: "job_step t (mark_handover t i now)"
| step_webhook: "job_step t (set_webhook_delivery_status t i st now)"

inductive job_reachable :: "jobs \<Rightarrow> bool" where
  reach_init: "job_reachable []"
| reach_step: "job_reachable t \<Longrightarrow> job_step t t' \<Longrightarrow> job_reachable t'"

inductive_cases job_step_elim: "job_step t t'"

text \<open>Which columns a row's status determines.\<close>

fun status_ok :: "job_status \<Rightarrow> job \<Rightarrow> bool" where
  "status_ok Queued j = (j_prompt_id j = None \<and> j_client_id j = None \<and> j_output_keys j = [] \<and>
     j_result_json j = None \<and> j_error_code j = None \<and> j_error_message j = None)"
| "status_ok Running j = (j_prompt_id j \<noteq> None \<and> j_client_id j \<noteq> None \<and> j_output_keys j = [] \<and>
     j_result_json j = None \<and> j_error_code j = None \<and> j_error_message j = None)"
| "status_ok Completed j = (j_prompt_id j \<noteq> None \<and> j_client_id j \<noteq> None \<and>
     j_result_json j \<noteq> None \<and> j_error_code j = None \<and> j_error_message j = None)"
| "status_ok Failed j = (j_output_keys j = [] \<and> j_result_json j = None \<and>
     j_error_code j \<noteq> None \<and> j_error_message j \<noteq> None)"
| "status_ok Abandoned j = (j_output_keys j = [] \<and> j_result_json j = None \<and>
     j_error_code j \<noteq> None)"

definition delivery_flags_ok :: "job \<Rightarrow> bool" where
  "delivery_flags_ok j \<longleftrightarrow>
     (j_initial_response_delivered j \<longrightarrow> j_mode j = Async \<and> j_webhook_handover j) \<and>
     (j_response_delivered j \<longrightarrow> j_webhook_handover j)"

definition job_ok :: "job \<Rightarrow> bool" where
  "job_ok j \<longleftrightarrow> status_ok (j_status j) j \<and> delivery_flags_ok j"

definition jobs_ok :: "jobs \<Rightarrow> bool" where
  "jobs_ok t \<longleftrightarrow> jt.keys_distinct t \<and> (\<forall>j \<in> set t. job_ok j)"

text \<open>How a row may differ from an earlier version of itself.\<close>

definition job_frame :: "job \<Rightarrow> job \<Rightarrow> bool" where
  "job_frame j j' \<longleftrightarrow>
     j_id j' = j_id j \<and> j_model_name j' = j_model_name j \<and> j_input_json j' = j_input_json j \<and>
     j_created_at j' = j_created_at j \<and> j_webhook_url j' = j_webhook_url j \<and>
     j_webhook_headers j' = j_webhook_headers j \<and>
     (j_mode j = Async \<longrightarrow> j_mode j' = Async) \<and>
     (j_webhook_handover j \<longrightarrow> j_webhook_handover j') \<and>
     (j_fetched_at j \<noteq> None \<longrightarrow> j_fetched_at j' = j_fetched_at j) \<and>
     (terminal_status (j_status j) \<longrightarrow>
        j_status j' = j_status j \<and> j_result_json j' = j_result_json j \<and>
        j_output_keys j' = j_output_keys j \<and> j_error_code j' = j_error_code j \<and>
        j_error_message j' = j_error_message j)"

definition job_evolves :: "job \<Rightarrow> job \<Rightarrow> bool" where
  "job_evolves j j' \<longleftrightarrow>
     (\<lambda>s u. u \<in> set (allowed_transitions s))\<^sup>*\<^sup>* (j_status j) (j_status j') \<and>
     job_frame j j'"

lemma job_evolves_refl [simp]: "job_evolves j j"
  by (simp add: job_evolves_def job_frame_def)

lemma job_frame_trans: "job_frame a b \<Longrightarrow> job_frame b c \<Longrightarrow> job_frame a c"
  unfolding job_frame_def by (elim conjE, intro conjI; metis)

lemma job_evolves_trans: "job_evolves a b \<Longrightarrow> job_evolves b c \<Longrightarrow> job_evolves a c"
  unfolding job_evolves_def by (blast intro: rtranclp_trans job_frame_trans)

text \<open>Every step but a creation rewrites one row, keeping its key.\<close>

inductive row_change :: "job \<Rightarrow> job \<Rightarrow> bool" where
  to_running: "j_status j = Queued \<Longrightarrow> row_change j (running_row p c now j)"
| to_completed: "j_status j = Running \<Longrightarrow> row_change j (completed_row ks r now j)"
| to_failed: "j_status j \<in> {Queued, Running} \<Longrightarrow> row_change j (failed_row c m now j)"
| to_abandoned: "j_status j \<in> {Queued, Running} \<Longrightarrow> row_change j (abandoned_row c now j)"
| fetched: "j_fetched_at j = None \<Longrightarrow> row_change j (j\<lparr>j_fetched_at := Some now\<rparr>)"
| initial: "j_mode j = Async \<Longrightarrow> row_change j (j\<lparr>j_initial_response_delivered := True,
     j_webhook_handover := True, j_updated_at := now\<rparr>)"
| response: "j_mode j = Sync \<Longrightarrow> row_change j (j\<lparr>j_response_delivered := True,
     j_webhook_handover := True, j_updated_at := now\<rparr>)"
| async: "row_change j (j\<lparr>j_mode := Async, j_webhook_handover := True, j_updated_at := now\<rparr>)"
| handover: "row_change j (j\<lparr>j_webhook_handover := True, j_updated_at := now\<rparr>)"
| webhook: "row_change j (j\<lparr>j_webhook_delivery_status := st, j_updated_at := now\<rparr>)"
| unchanged: "row_change j j"

lemma job_evolvesI:
  assumes "j_status j' = j_status j \<or> j_status j' \<in> set (allowed_transitions (j_status j))"
    and "j_id j' = j_id j" "j_model_name j' = j_model_name j" "j_input_json j' = j_input_json j"
    and "j_created_at j' = j_created_at j" "j_webhook_url j' = j_webhook_url j"
    and "j_webhook_headers j' = j_webhook_headers j"
    and "j_mode j = Async \<Longrightarrow> j_mode j' = Async"
    and "j_webhook_handover j \<Longrightarrow> j_webhook_handover j'"
    and "j_fetched_at j \<noteq> None \<Longrightarrow> j_fetched_at j' = j_fetched_at j"
    and "terminal_status (j_status j) \<Longrightarrow>
        j_status j' = j_status j \<and> j_result_json j' = j_result_json j \<and>
        j_output_keys j' = j_output_keys j \<and> j_error_code j' = j_error_code j \<and>
        j_error_message j' = j_error_message j"
  shows "job_evolves j j'"
  using assms by (auto simp: job_evolves_def job_frame_def)

lemma row_change_evolves: "row_change j j' \<Longrightarrow> job_evolves j j'"
  by (induction rule: row_change.induct; rule job_evolvesI) (auto simp: job_row_defs)

lemma status_ok_other_fields [row_simps, simp]:
  "status_ok s (j\<lparr>j_fetched_at := x\<rparr>) = status_ok s j"
  "status_ok s (j\<lparr>j_initial_response_delivered := b\<rparr>) = status_ok s j"
  "status_ok s (j\<lparr>j_response_delivered := b\<rparr>) = status_ok s j"
  "status_ok s (j\<lparr>j_webhook_handover := b\<rparr>) = status_ok s j"
  "status_ok s (j\<lparr>j_updated_at := n\<rparr>) = status_ok s j"
  "status_ok s (j\<lparr>j_mode := md\<rparr>) = status_ok s j"
  "status_ok s (j\<lparr>j_webhook_delivery_status := w\<rparr>) = status_ok s j"
  by (cases s; simp)+

lemma row_change_ok: "row_change j j' \<Longrightarrow> job_ok j \<Longrightarrow> job_ok j'"
  by (induction rule: row_change.induct)
    (auto simp: job_ok_def delivery_flags_ok_def job_row_defs)

lemma job_step_cases:
  assumes "job_step t t'"
  obtains (create) r where "t' = t @ [r]" "j_id r \<notin> set (map j_id t)" "job_ok r"
      "j_status r = Queued"
  | (modify) i f where "t' = job_modify i f t" "\<And>j. j_id (f j) = j_id j"
      "\<And>j. job_find t i = Some j \<Longrightarrow> row_change j (f j)"
  using assms
proof (cases rule: job_step.cases)
  case (step_create i now m inp md url hs j)
  from create_queued_Inr [OF this] obtain r where r: "t' = t @ [r]" "j_id r = i"
      "i \<notin> set (map j_id t)" "r = j\<lparr>j_webhook_delivery_status :=
           (if url = None then None else Some DPending)\<rparr>" by blast
  have "job_ok j \<and> j_status j = Queued"
    using step_create
    by (auto simp: create_queued_def Let_def job_ok_def delivery_flags_ok_def
        split: option.splits)
  then have "job_ok r" "j_status r = Queued"
    using r(4) by (auto simp: job_ok_def delivery_flags_ok_def)
  with r show thesis using create by blast
next
  case (step_running i p c now j)
  then show thesis unfolding set_running_def
    by (auto elim!: setter_Inr intro!: modify row_change.intros)
next
  case (step_completed i ks r now j)
  then show thesis unfolding set_completed_def
    by (auto elim!: setter_Inr intro!: modify row_change.intros)
next
  case (step_failed i c m now j)
  then show thesis unfolding set_failed_def
    by (elim setter_Inr) (auto intro!: modify row_change.to_failed)
next
  case (step_abandoned i c now j)
  then show thesis unfolding set_abandoned_def
    by (elim setter_Inr) (auto intro!: modify row_change.to_abandoned)
next
  case (step_fetched i now)
  then show thesis unfolding set_fetched_def
    by (intro modify [of i "\<lambda>j. if j_fetched_at j = None then j\<lparr>j_fetched_at := Some now\<rparr> else j"])
      (auto intro: row_change.intros)
next
  case (step_initial i now)
  then show thesis unfolding mark_initial_response_delivered_def
    by (rule modify) (auto intro: row_change.intros)
next
  case (step_response i now)
  then show thesis unfolding mark_response_delivered_def
    by (rule modify) (auto intro: row_change.intros job_mode.exhaust)
next
  case (step_async i now)
  then show thesis unfolding mark_async_with_handover_def
    by (rule modify) (auto intro: row_change.intros)
next
  case (step_handover i now)
  then show thesis unfolding mark_handover_def
    by (rule modify) (auto intro: row_change.intros)
next
  case (step_webhook i st now)
  then show thesis unfolding set_webhook_delivery_status_def
    by (rule modify) (auto intro: row_change.intros)
qed

lemma job_step_evolves:
  assumes "job_step t t'" and "job_find t k = Some j"
  shows "\<exists>j'. job_find t' k = Some j' \<and> job_evolves j j'"
  using assms(1)
proof (cases rule: job_step_cases)
  case (create r)
  with assms(2) show ?thesis by (simp add: jt.find_append)
next
  case (modify i f)
  then have "job_find t' k = (if k = i then map_option f (job_find t i) else job_find t k)"
    by (simp add: jt.find_modify)
  with modify(3) assms(2) show ?thesis
    by (auto dest: row_change_evolves)
qed

lemma job_run_evolves:
  "job_step\<^sup>*\<^sup>* t t' \<Longrightarrow> job_find t k = Some j \<Longrightarrow>
   \<exists>j'. job_find t' k = Some j' \<and> job_evolves j j'"
proof (induction rule: rtranclp_induct)
  case (step u v)
  then show ?case by (meson job_step_evolves job_evolves_trans)
qed auto

lemma job_step_ok:
  assumes "job_step t t'" and "jobs_ok t"
  shows "jobs_ok t'"
  using assms(1)
proof (cases rule: job_step_cases)
  case (create r)
  with assms(2) show ?thesis by (auto simp: jobs_ok_def jt.keys_distinct_def)
next
  case (modify i f)
  have "job_ok r" if "r \<in> set t'" for r
  proof (rule jt.modify_preserves [of t job_ok i f])
    show "r \<in> set (job_modify i f t)" using that modify(1) by simp
    show "job_ok j" if "j \<in> set t" for j using assms(2) that by (simp add: jobs_ok_def)
    fix j assume j: "j \<in> set t" "j_id j = i" "job_ok j"
    with assms(2) have "job_find t i = Some j"
      using jt.find_distinct by (auto simp: jobs_ok_def)
    with modify(3) j(3) show "job_ok (f j)" by (blast intro: row_change_ok)
  qed
  with modify assms(2) show ?thesis by (simp add: jobs_ok_def jt.modify_distinct)
qed

lemma jobs_ok_Nil: "jobs_ok []"
  by (simp add: jobs_ok_def jt.keys_distinct_def)

lemma reachable_jobs_ok: "job_reachable t \<Longrightarrow> jobs_ok t"
  by (induction rule: job_reachable.induct) (blast intro: jobs_ok_Nil job_step_ok)+

section \<open>Properties\<close>

text \<open>A small table for the witnesses: one queued job, taken through a run.\<close>

definition demo_created :: "jobs" where
  "demo_created = (case create_queued [] ''gen_1'' 10 ''m'' (Some (VDict [])) Sync
     (Some ''https://h/w'') None of Inr (t, _) \<Rightarrow> t | Inl _ \<Rightarrow> [])"

definition demo_failed :: "jobs" where
  "demo_failed = (case set_failed demo_created ''gen_1'' ''comfy_error'' ''boom'' 20 of
     Inr (t, _) \<Rightarrow> t | Inl _ \<Rightarrow> [])"

lemmas demo_defs = demo_created_def demo_failed_def create_queued_def set_failed_eq
  tbl_insert_def tbl_modify_def tbl_find_def failed_row_def Let_def

lemma demo_reachable: "job_reachable demo_created" "job_reachable demo_failed"
proof -
  have c: "\<exists>j. create_queued [] ''gen_1'' 10 ''m'' (Some (VDict [])) Sync (Some ''https://h/w'') None
      = Inr (demo_created, j)"
    by (simp add: demo_defs)
  then show r: "job_reachable demo_created"
    by (blast intro: reach_init reach_step step_create)
  have "\<exists>j. set_failed demo_created ''gen_1'' ''comfy_error'' ''boom'' 20 = Inr (demo_failed, j)"
    by (simp add: demo_defs)
  with r show "job_reachable demo_failed"
    by (blast intro: reach_step step_failed)
qed

text \<open>
  C7: a job that has reached \<open>completed\<close>, \<open>failed\<close> or \<open>abandoned\<close> keeps its status, its
  result, its output keys and its error through every later interleaving of store
  operations; in any status the job is never removed, its identity, model, input, webhook
  target and headers never change, \<open>async\<close> mode and the hand-over barrier are never
  taken back, and the first fetch time is never overwritten.
\<close>

theorem terminal_jobs_are_final:
  assumes "job_step\<^sup>*\<^sup>* t t'" and "get_by_id t i = Some j"
  shows "\<exists>j'. get_by_id t' i = Some j' \<and>
    (terminal_status (j_status j) \<longrightarrow> j_status j' = j_status j \<and>
       j_result_json j' = j_result_json j \<and> j_output_keys j' = j_output_keys j \<and>
       j_error_code j' = j_error_code j \<and> j_error_message j' = j_error_message j) \<and>
    j_id j' = j_id j \<and> j_model_name j' = j_model_name j \<and> j_input_json j' = j_input_json j \<and>
    j_webhook_url j' = j_webhook_url j \<and> j_webhook_headers j' = j_webhook_headers j \<and>
    (j_mode j = Async \<longrightarrow> j_mode j' = Async) \<and>
    (j_webhook_handover j \<longrightarrow> j_webhook_handover j') \<and>
    (j_fetched_at j \<noteq> None \<longrightarrow> j_fetched_at j' = j_fetched_at j)"
proof -
  obtain j' where "job_find t' i = Some j'" "job_evolves j j'"
    using job_run_evolves [OF assms(1)] assms(2) by (auto simp: get_by_id_def)
  then show ?thesis by (auto simp: get_by_id_def job_evolves_def job_frame_def)
qed

theorem terminal_jobs_are_final_witness:
  "\<exists>j'. get_by_id (set_fetched demo_failed ''gen_1'' 30) ''gen_1'' = Some j' \<and>
     j_status j' = Failed \<and> j_error_code j' = Some ''comfy_error''"
proof -
  have run: "job_step\<^sup>*\<^sup>* demo_failed (set_fetched demo_failed ''gen_1'' 30)"
    by (rule r_into_rtranclp) (rule step_fetched)
  have "\<exists>j. get_by_id demo_failed ''gen_1'' = Some j \<and> j_status j = Failed \<and>
      j_error_code j = Some ''comfy_error''"
    by (simp add: demo_defs get_by_id_def)
  then obtain j where j: "get_by_id demo_failed ''gen_1'' = Some j" "j_status j = Failed"
      "j_error_code j = Some ''comfy_error''" by blast
  from terminal_jobs_are_final [OF run j(1)] j(2,3) show ?thesis by auto
qed

text \<open>
  C14: in every table the service can reach, ids are unique (a row is what \<open>get_by_id\<close>
  returns for its id) and the columns agree with the status: a queued job has no prompt,
  result or error; a running one has its prompt and client ids and no result; a completed
  one has a result and no error; a failed one has an error code and message and no result
  or output; and a delivered response always comes with the hand-over barrier set.
\<close>

theorem reachable_rows_consistent:
  assumes "job_reachable t" and "j \<in> set t"
  shows "get_by_id t (j_id j) = Some j \<and> status_ok (j_status j) j \<and> delivery_flags_ok j"
  using reachable_jobs_ok [OF assms(1)] assms(2)
  by (auto simp: jobs_ok_def job_ok_def get_by_id_def jt.find_distinct)

theorem reachable_rows_consistent_witness:
  "\<exists>j \<in> set demo_failed. get_by_id demo_failed (j_id j) = Some j \<and> status_ok Failed j"
proof -
  have "\<exists>j \<in> set demo_failed. j_status j = Failed" by (simp add: demo_defs)
  then obtain j where "j \<in> set demo_failed" "j_status j = Failed" by blast
  with reachable_rows_consistent [OF demo_reachable(2)] show ?thesis by force
qed

text \<open>
  every branch of the four status setters. On an unknown id each raises
  \<open>JobNotFoundError\<close>; from a status the transition table does not allow it raises
  \<open>InvalidTransitionError\<close> naming both statuses; otherwise it updates that one row and
  returns it. \<open>set_running\<close> needs \<open>queued\<close>, \<open>set_completed\<close> needs \<open>running\<close>, and
  \<open>set_failed\<close> and \<open>set_abandoned\<close> need one of the two. The final \<open>assert\<close> never fails.
\<close>

theorem status_setter_outcomes:
  "set_running t i p c now = (case get_by_id t i of None \<Rightarrow> Inl (NotFoundError i) | Some j \<Rightarrow>
     if j_status j = Queued then Inr (job_modify i (running_row p c now) t, running_row p c now j)
     else Inl (InvalidTransitionError (j_status j) Running)) \<and>
   set_completed t i ks r now = (case get_by_id t i of None \<Rightarrow> Inl (NotFoundError i) | Some j \<Rightarrow>
     if j_status j = Running
     then Inr (job_modify i (completed_row ks r now) t, completed_row ks r now j)
     else Inl (InvalidTransitionError (j_status j) Completed)) \<and>
   set_failed t i ec em now = (case get_by_id t i of None \<Rightarrow> Inl (NotFoundError i) | Some j \<Rightarrow>
     if j_status j \<in> {Queued, Running}
     then Inr (job_modify i (failed_row ec em now) t, failed_row ec em now j)
     else Inl (InvalidTransitionError (j_status j) Failed)) \<and>
   set_abandoned t i ec now = (case get_by_id t i of None \<Rightarrow> Inl (NotFoundError i) | Some j \<Rightarrow>
     if j_status j \<in> {Queued, Running}
     then Inr (job_modify i (abandoned_row ec now) t, abandoned_row ec now j)
     else Inl (InvalidTransitionError (j_status j) Abandoned))"
  by (cases "job_find t i") (simp_all add: op_defs guarded_update_eq get_by_id_def)

text \<open>
  a created job is stored under its fresh id, \<open>queued\<close>, with delivery \<open>pending\<close>
  exactly when a webhook is given; the other rows are untouched and the active count grows
  by one. The \<open>Job\<close> object handed back still carries the NULL delivery status that
  RETURNING read before the second UPDATE.
\<close>

theorem create_queued_stores_row:
  assumes "create_queued t i now m inp md url hs = Inr (t', j)"
  shows "get_by_id t i = None \<and> j_webhook_delivery_status j = None \<and>
    get_by_id t' i = Some (j\<lparr>j_webhook_delivery_status :=
      (if url = None then None else Some DPending)\<rparr>) \<and>
    j_status j = Queued \<and> j_mode j = md \<and> j_input_json j = inp \<and>
    (\<forall>k. k \<noteq> i \<longrightarrow> get_by_id t' k = get_by_id t k) \<and> count_active t' = Suc (count_active t)"
proof -
  note c = create_queued_Inr [OF assms]
  have "j_webhook_delivery_status j = None"
    using assms by (auto simp: create_queued_def Let_def split: option.splits)
  moreover have "get_by_id t i = None"
    using c(1) by (auto simp: get_by_id_def tbl_find_None)
  ultimately show ?thesis
    using c by (auto simp: get_by_id_def jt.find_append count_active_def split: option.splits)
qed

theorem create_queued_stores_row_witness:
  "\<exists>t' j. create_queued demo_failed ''gen_2'' 40 ''m'' None Async None None = Inr (t', j) \<and>
     get_by_id t' ''gen_2'' = Some j \<and> count_active t' = 1"
proof -
  obtain t' j where c:
    "create_queued demo_failed ''gen_2'' 40 ''m'' None Async None None = Inr (t', j)"
    by (simp add: demo_defs)
  have "count_active demo_failed = 0" by (simp add: demo_defs count_active_def)
  with create_queued_stores_row [OF c] c show ?thesis by auto
qed

text \<open>
  the disconnect watcher and the response flush race for the row, and the store
  settles it: once the watcher has flipped the job to \<open>async\<close>, the flush of the sync
  response changes nothing, so the webhook is not suppressed; the flush of an async
  \<open>202\<close> then takes effect. A second fetch never moves the first fetch time.
\<close>

theorem disconnect_beats_response_flush:
  "mark_response_delivered (mark_async_with_handover t i a) i b = mark_async_with_handover t i a \<and>
   set_fetched (set_fetched t i a) i b = set_fetched t i a \<and>
   (get_by_id t i = Some j \<longrightarrow>
     get_by_id (mark_initial_response_delivered (mark_async_with_handover t i a) i b) i =
       Some (j\<lparr>j_mode := Async, j_webhook_handover := True, j_initial_response_delivered := True,
              j_updated_at := b\<rparr>))"
  by (auto simp: mark_response_delivered_def mark_async_with_handover_def set_fetched_def
      mark_initial_response_delivered_def get_by_id_def jt.find_modify) (auto simp: tbl_modify_def)

theorem disconnect_beats_response_flush_witness:
  "\<exists>j. get_by_id (mark_initial_response_delivered
      (mark_async_with_handover demo_created ''gen_1'' 11) ''gen_1'' 12) ''gen_1'' = Some j \<and>
    j_mode j = Async"
proof -
  obtain j where "get_by_id demo_created ''gen_1'' = Some j"
    by (simp add: demo_defs get_by_id_def)
  with disconnect_beats_response_flush [of demo_created "''gen_1''" 11 12 j] show ?thesis by simp
qed

end
