(* ===== verification/Recovery.thy ===== *)
theory Recovery
  imports Job_Store "HOL-Library.Multiset"
begin

text \<open>
  Boot recovery of jobs (\<open>app/queue/recovery.py\<close>) and the orphan reaper
  (\<open>app/queue/reaper.py\<close>).
\<close>

section \<open>Boot recovery\<close>

text \<open>
  \<open>recover_loop\<close> is the body of the loop over the scanned rows: the table, the jobs put
  on the in-memory queue, and the two counters. A scanned row is \<open>queued\<close> or \<open>running\<close>;
  the last case of the source's \<open>if/elif\<close> does nothing. \<open>enqueue_recovery\<close> blocks while
  the queue is full and the worker, which is already consuming, drains it; the model lists
  the jobs in the order they are put.
\<close>

fun recover_loop ::
  "jobs \<Rightarrow> job list \<Rightarrow> job list \<Rightarrow> nat \<Rightarrow> nat \<Rightarrow> timestamp \<Rightarrow>
   job_error + (jobs \<times> job list \<times> nat \<times> nat)" where
  "recover_loop t q [] requeued failed_restart now = Inr (t, q, requeued, failed_restart)"
| "recover_loop t q (j # js) requeued failed_restart now =
     (if j_status j = Running then
        bind_r (set_failed t (j_id j) ''service_restarted'' ''process restart mid-generation'' now)
          (\<lambda>(t', _). recover_loop (mark_handover t' (j_id j) now) q js requeued
             (failed_restart + 1) now)
      else if j_status j = Queued then
        recover_loop t (q @ [j]) js (requeued + 1) failed_restart now
      else recover_loop t q js requeued failed_restart now)"

definition recover_jobs ::
  "jobs \<Rightarrow> job list \<Rightarrow> timestamp \<Rightarrow> job_error + (jobs \<times> job list \<times> nat \<times> nat)" where
  "recover_jobs t q now = recover_loop t q (scan_non_terminal t) 0 0 now"

definition restarted_row :: "timestamp \<Rightarrow> job \<Rightarrow> job" where
  "restarted_row now j = (failed_row ''service_restarted'' ''process restart mid-generation'' now j)
     \<lparr>j_webhook_handover := True, j_updated_at := now\<rparr>"

lemma restarted_row_fields [row_simps, simp]:
  "j_id (restarted_row now j) = j_id j" "j_status (restarted_row now j) = Failed"
  "j_webhook_handover (restarted_row now j)"
  "j_error_code (restarted_row now j) = Some ''service_restarted''"
  by (simp_all add: restarted_row_def failed_row_def)

lemma fail_and_hand_over:
  "mark_handover (job_modify i (failed_row ''service_restarted''
     ''process restart mid-generation'' now) t) i now = job_modify i (restarted_row now) t"
  by (auto simp: mark_handover_def tbl_modify_def restarted_row_def)

lemma recover_loop_Inr:
  assumes "jt.keys_distinct t" and "distinct (map j_id js)"
    and "\<And>j. j \<in> set js \<Longrightarrow> j \<in> set t"
  shows "recover_loop t q js a b now =
    Inr (map (\<lambda>j. if j_status j = Running \<and> j_id j \<in> j_id ` set js then restarted_row now j else j) t,
         q @ filter (\<lambda>j. j_status j = Queued) js,
         a + length (filter (\<lambda>j. j_status j = Queued) js),
         b + length (filter (\<lambda>j. j_status j = Running) js))"
  using assms
proof (induction js arbitrary: t q a b)
  case Nil
  then show ?case by simp
next
  case (Cons j js)
  have uniq: "r = j" if "r \<in> set t" "j_id r = j_id j" for r
    by (rule jt.key_unique [OF Cons.prems(1) that(1) _ that(2)]) (simp add: Cons.prems(3))
  show ?case
  proof (cases "j_status j = Running")
    case True
    let ?t = "job_modify (j_id j) (restarted_row now) t"
    have "job_find t (j_id j) = Some j"
      using Cons.prems jt.find_distinct by simp
    with True have step: "set_failed t (j_id j) ''service_restarted''
        ''process restart mid-generation'' now =
        Inr (job_modify (j_id j) (failed_row ''service_restarted''
          ''process restart mid-generation'' now) t,
          failed_row ''service_restarted'' ''process restart mid-generation'' now j)"
      by (simp add: set_failed_eq)
    have mem: "s \<in> set ?t" if "s \<in> set js" for s
    proof -
      have "j_id s \<noteq> j_id j" using Cons.prems(2) that by (auto simp: image_iff)
      with Cons.prems(3) [of s] that show ?thesis by (simp add: tbl_modify_other)
    qed
    have rows: "map (\<lambda>r. if j_status r = Running \<and> j_id r \<in> j_id ` set js
          then restarted_row now r else r) ?t =
        map (\<lambda>r. if j_status r = Running \<and> j_id r \<in> j_id ` set (j # js)
          then restarted_row now r else r) t"
      using uniq True by (auto simp: tbl_modify_def)
    have "recover_loop ?t q js a (b + 1) now =
      Inr (map (\<lambda>r. if j_status r = Running \<and> j_id r \<in> j_id ` set js then restarted_row now r else r) ?t,
         q @ filter (\<lambda>j. j_status j = Queued) js,
         a + length (filter (\<lambda>j. j_status j = Queued) js),
         b + 1 + length (filter (\<lambda>j. j_status j = Running) js))"
      using Cons.prems mem by (intro Cons.IH) (auto simp: jt.modify_distinct)
    with rows True step show ?thesis by (simp add: fail_and_hand_over)
  next
    case False
    have rows: "map (\<lambda>r. if j_status r = Running \<and> j_id r \<in> j_id ` set js
          then restarted_row now r else r) t =
        map (\<lambda>r. if j_status r = Running \<and> j_id r \<in> j_id ` set (j # js)
          then restarted_row now r else r) t"
      using uniq False by auto
    have "recover_loop t q' js a' b now =
      Inr (map (\<lambda>r. if j_status r = Running \<and> j_id r \<in> j_id ` set js then restarted_row now r else r) t,
         q' @ filter (\<lambda>j. j_status j = Queued) js,
         a' + length (filter (\<lambda>j. j_status j = Queued) js),
         b + length (filter (\<lambda>j. j_status j = Running) js))" for q' a'
      using Cons.prems by (intro Cons.IH) auto
    with rows False show ?thesis by simp
  qed
qed

lemma scan_non_terminal_props:
  "set (scan_non_terminal t) = {j \<in> set t. j_status j \<in> {Queued, Running}}"
  "length (scan_non_terminal t) = count_active t"
  "sorted (map j_created_at (scan_non_terminal t))"
  "jt.keys_distinct t \<Longrightarrow> distinct (map j_id (scan_non_terminal t))"
  by (auto simp: scan_non_terminal_def count_active_def jt.keys_distinct_def distinct_map
      intro: inj_on_subset)

lemma recover_jobs_eq:
  assumes "jt.keys_distinct t"
  shows "recover_jobs t q now =
    Inr (map (\<lambda>j. if j_status j = Running then restarted_row now j else j) t,
         q @ sort_key j_created_at (filter (\<lambda>j. j_status j = Queued) t),
         length (filter (\<lambda>j. j_status j = Queued) t),
         length (filter (\<lambda>j. j_status j = Running) t))"
proof -
  have rows: "map (\<lambda>j. if j_status j = Running \<and> j_id j \<in> j_id ` set (scan_non_terminal t)
      then restarted_row now j else j) t =
    map (\<lambda>j. if j_status j = Running then restarted_row now j else j) t"
    by (auto simp: scan_non_terminal_props)
  have fs: "filter (\<lambda>j. j_status j = s) (scan_non_terminal t) =
      sort_key j_created_at (filter (\<lambda>j. j_status j = s) t)" if "s \<in> {Queued, Running}" for s
    using that by (auto simp: scan_non_terminal_def filter_sort conj_commute
        intro: arg_cong [where f = "sort_key j_created_at"] filter_cong)
  show ?thesis
    using recover_loop_Inr [OF assms scan_non_terminal_props(4) [OF assms], of q 0 0 now]
    by (simp add: recover_jobs_def rows fs scan_non_terminal_props(1))
qed

section \<open>The orphan reaper\<close>

text \<open>
  \<open>delete_ok bucket key\<close> is the outcome of \<open>s3.delete_object\<close>: a failure is logged and
  the pass goes on. The result lists the objects deleted, in order; the source returns
  their number. The jobs table is only read.
\<close>

definition reap_keys :: "job \<Rightarrow> (string \<times> string) list" where
  "reap_keys j = map (partition_on (CHR ''/'')) (j_output_keys j)"

definition reap_rows :: "jobs \<Rightarrow> timestamp \<Rightarrow> jobs" where
  "reap_rows t cutoff =
     filter (\<lambda>j. j_status j = Completed \<and> j_fetched_at j = None \<and> j_updated_at j < cutoff) t"

definition reap_once ::
  "jobs \<Rightarrow> timestamp \<Rightarrow> int \<Rightarrow> (string \<Rightarrow> string \<Rightarrow> bool) \<Rightarrow> (string \<times> string) list" where
  "reap_once t now ttl_seconds delete_ok =
     (let cutoff = now - ttl_seconds * 1000000 in
      filter (\<lambda>(bucket, key). delete_ok bucket key) (concat (map reap_keys (reap_rows t cutoff))))"

section \<open>Properties\<close>

text \<open>
  C23: boot recovery never raises on a reachable table. Every job left \<open>running\<close> becomes
  \<open>failed\<close> with code \<open>service_restarted\<close> and the webhook hand-over barrier set; no job
  stays \<open>running\<close>; every other row is untouched; the \<open>queued\<close> jobs go to the end of the
  in-memory queue, each exactly once and oldest first; and the two counters are exact.
\<close>

theorem boot_recovery_complete:
  assumes "job_reachable t"
  shows "\<exists>t' q'. recover_jobs t q now = Inr (t', q @ q',
      length (filter (\<lambda>j. j_status j = Queued) t), length (filter (\<lambda>j. j_status j = Running) t)) \<and>
    (\<forall>j \<in> set t'. j_status j \<noteq> Running) \<and>
    (\<forall>i j. get_by_id t i = Some j \<longrightarrow> get_by_id t' i =
       Some (if j_status j = Running
             then j\<lparr>j_status := Failed, j_error_code := Some ''service_restarted'',
                    j_error_message := Some ''process restart mid-generation'',
                    j_webhook_handover := True, j_updated_at := now\<rparr> else j)) \<and>
    sorted (map j_created_at q') \<and> mset q' = mset (filter (\<lambda>j. j_status j = Queued) t)"
proof -
  let ?f = "\<lambda>j. if j_status j = Running then restarted_row now j else j"
  have "find (\<lambda>j. j_id j = i) (map ?f t) = map_option ?f (find (\<lambda>j. j_id j = i) t)" for i
    by (induction t) auto
  then have "get_by_id (map ?f t) i = map_option ?f (get_by_id t i)" for i
    by (simp add: get_by_id_def tbl_find_def)
  moreover have "jt.keys_distinct t"
    using reachable_jobs_ok [OF assms] by (simp add: jobs_ok_def)
  ultimately show ?thesis
    by (auto simp: recover_jobs_eq restarted_row_def failed_row_def)
qed

theorem boot_recovery_complete_witness:
  "\<exists>t' q'. recover_jobs demo_created [] 50 = Inr (t', q', 1, 0) \<and>
     map j_id q' = [''gen_1''] \<and> sorted (map j_created_at q')"
proof -
  have q: "filter (\<lambda>j. j_status j = Queued) demo_created = demo_created"
    "filter (\<lambda>j. j_status j = Running) demo_created = []" "map j_id demo_created = [''gen_1'']"
    by (simp_all add: demo_defs)
  obtain t' q' where r: "recover_jobs demo_created [] 50 = Inr (t', q', 1, 0)"
    "sorted (map j_created_at q')" "mset q' = mset demo_created"
    using boot_recovery_complete [OF demo_reachable(1), of "[]" 50] q(1,2)
      arg_cong [OF q(3), of length] by auto
  from r(3) have "mset (map j_id q') = mset [''gen_1'']" using q(3) by (metis mset_map)
  then have "mset (map j_id q') = {#''gen_1''#}" by (simp only: mset.simps)
  then have "map j_id q' = [''gen_1'']" by (simp only: mset_single_iff)
  with r show ?thesis by (intro exI conjI)
qed

text \<open>
  a reaper pass deletes an object only when some job that completed, was never fetched
  through the gateway, and was last updated before the cut-off lists it among its output
  keys: \<open>bucket/key\<close> is that entry, or the whole entry is the bucket when it has no slash.
\<close>

theorem reaper_deletes_only_orphans:
  assumes "(b, k) \<in> set (reap_once t now ttl delete_ok)"
  shows "delete_ok b k \<and> (\<exists>j \<in> set t. j_status j = Completed \<and> j_fetched_at j = None \<and>
    j_updated_at j < now - ttl * 1000000 \<and>
    (b @ CHR ''/'' # k \<in> set (j_output_keys j) \<or> (k = [] \<and> b \<in> set (j_output_keys j))))"
proof -
  have entry: "b @ CHR ''/'' # k = e \<or> (k = [] \<and> b = e)"
    if "partition_on (CHR ''/'') e = (b, k)" for e
  proof (cases "CHR ''/'' \<in> set e")
    case True
    then obtain xs ys where "e = xs @ CHR ''/'' # ys" "CHR ''/'' \<notin> set xs"
      by (metis split_list_first)
    with that show ?thesis by (simp add: partition_on_append)
  next
    case False
    then have "takeWhile (\<lambda>x. x \<noteq> CHR ''/'') e = e" "dropWhile (\<lambda>x. x \<noteq> CHR ''/'') e = []"
      by (auto simp: takeWhile_eq_all_conv dropWhile_eq_Nil_conv)
    with that show ?thesis by (simp add: partition_on_def)
  qed
  from assms obtain j e where "j \<in> set t" "j_status j = Completed" "j_fetched_at j = None"
    "j_updated_at j < now - ttl * 1000000" "e \<in> set (j_output_keys j)"
    "partition_on (CHR ''/'') e = (b, k)" "delete_ok b k"
    by (auto simp: reap_once_def reap_rows_def reap_keys_def Let_def)
  with entry [of e] show ?thesis by blast
qed

definition demo_orphan :: job where
  "demo_orphan = (hd demo_created)\<lparr>j_status := Completed, j_output_keys := [''img/a/0.png'']\<rparr>"

theorem reaper_deletes_only_orphans_witness:
  "reap_once [demo_orphan] 90000000 60 (\<lambda>_ _. True) = [(''img'', ''a/0.png'')] \<and>
   (\<exists>j \<in> set [demo_orphan]. ''img/a/0.png'' \<in> set (j_output_keys j))"
proof -
  have r: "reap_once [demo_orphan] 90000000 60 (\<lambda>_ _. True) = [(''img'', ''a/0.png'')]"
    by (simp add: demo_orphan_def demo_defs reap_once_def reap_rows_def reap_keys_def
        partition_on_def)
  with reaper_deletes_only_orphans [of "''img''" "''a/0.png''" "[demo_orphan]" 90000000 60 "\<lambda>_ _. True"]
  show ?thesis by (auto simp: demo_orphan_def)
qed

end
