(* ===== verification/Url.thy ===== *)
theory Url
  imports Prelude
begin

text \<open>
  What the service uses of Python's \<open>urllib.parse\<close> and of \<open>int(text)\<close>, on ASCII texts:
  \<open>urlparse\<close> with its accessors, \<open>parse_qs\<close>, and the environment reads
  \<open>os.environ.get\<close>. The URL validators of the service are built on these.
\<close>

section \<open>urlparse\<close>

record parsed_url =
  u_scheme :: string
  u_netloc :: string
  u_path :: string
  u_query :: string

definition is_alpha :: "char \<Rightarrow> bool" where
  "is_alpha c \<longleftrightarrow> is_alnum c \<and> \<not> is_digit c"

definition scheme_char :: "char \<Rightarrow> bool" where
  "scheme_char c \<longleftrightarrow> is_alnum c \<or> c \<in> {CHR ''+'', CHR ''-'', CHR ''.''}"

definition c0_or_space :: "char \<Rightarrow> bool" where
  "c0_or_space c \<longleftrightarrow> (of_char c :: nat) \<le> 32"

definition clean_url :: "string \<Rightarrow> string" where
  "clean_url s = filter (\<lambda>c. (of_char c :: nat) \<notin> {9, 10, 13}) (dropWhile c0_or_space s)"

text \<open>The scheme is lower-cased; a text that does not start with one is all rest.\<close>

definition split_scheme :: "string \<Rightarrow> string \<times> string" where
  "split_scheme s =
     (let (pre, post) = partition_on (CHR '':'') s in
      if CHR '':'' \<in> set s \<and> pre \<noteq> [] \<and> is_alpha (hd pre) \<and> list_all scheme_char pre
      then (lower pre, post) else ([], s))"

definition netloc_end :: "char \<Rightarrow> bool" where
  "netloc_end c \<longleftrightarrow> c \<in> {CHR ''/'', CHR ''?'', CHR ''#''}"

definition split_netloc :: "string \<Rightarrow> string \<times> string" where
  "split_netloc s =
     (if starts_with ''//'' s
      then (takeWhile (\<lambda>c. \<not> netloc_end c) (drop 2 s), dropWhile (\<lambda>c. \<not> netloc_end c) (drop 2 s))
      else ([], s))"

text \<open>\<open>;params\<close> are cut from the last segment of the path (schemes of the web family).\<close>

definition rpartition_on :: "char \<Rightarrow> string \<Rightarrow> string \<times> string" where
  "rpartition_on c s = (if c \<in> set s
     then (rev (drop 1 (dropWhile (\<lambda>x. x \<noteq> c) (rev s))), rev (takeWhile (\<lambda>x. x \<noteq> c) (rev s)))
     else ([], s))"

definition strip_params :: "string \<Rightarrow> string" where
  "strip_params p =
     (let (dir, last_seg) = rpartition_on (CHR ''/'') p;
          seg = takeWhile (\<lambda>c. c \<noteq> CHR '';'') last_seg
      in if CHR ''/'' \<in> set p then dir @ ''/'' @ seg else seg)"

definition uses_params :: "string \<Rightarrow> bool" where
  "uses_params scheme \<longleftrightarrow> scheme \<in> {'''', ''ftp'', ''hdl'', ''prospero'', ''http'', ''imap'',
     ''https'', ''shttp'', ''rtsp'', ''rtsps'', ''rtspu'', ''sip'', ''sips'', ''mms'', ''sftp'', ''tel''}"

text \<open>
  \<open>bracket_ok\<close> is the standard library's test that a bracketed netloc is an IP literal;
  unbalanced brackets, or a bracketed text that is none, raise \<open>ValueError\<close>.
\<close>

definition urlparse :: "(string \<Rightarrow> bool) \<Rightarrow> string \<Rightarrow> parsed_url option" where
  "urlparse bracket_ok url =
     (let (scheme, rest) = split_scheme (clean_url url);
          (netloc, rest) = split_netloc rest;
          opened = CHR ''['' \<in> set netloc; closed = CHR '']'' \<in> set netloc;
          no_frag = takeWhile (\<lambda>c. c \<noteq> CHR ''#'') rest;
          (path, query) = partition_on (CHR ''?'') no_frag
      in if opened \<noteq> closed \<or> (opened \<and> \<not> bracket_ok netloc) then None
         else Some \<lparr>u_scheme = scheme, u_netloc = netloc,
                    u_path = (if uses_params scheme \<and> CHR '';'' \<in> set path then strip_params path else path),
                    u_query = query\<rparr>)"

text \<open>\<open>username is None and password is None\<close> iff the netloc has no \<open>@\<close>.\<close>

definition has_userinfo :: "parsed_url \<Rightarrow> bool" where
  "has_userinfo u \<longleftrightarrow> CHR ''@'' \<in> set (u_netloc u)"

definition host_port :: "parsed_url \<Rightarrow> string \<times> string" where
  "host_port u =
     (let hostinfo = snd (rpartition_on (CHR ''@'') (u_netloc u)) in
      if CHR ''['' \<in> set hostinfo then
        (let (host, after) = partition_on (CHR '']'') (snd (partition_on (CHR ''['') hostinfo))
         in (host, snd (partition_on (CHR '':'') after)))
      else partition_on (CHR '':'') hostinfo)"

text \<open>\<open>hostname\<close>, lower-cased up to a zone; the empty text stands for \<open>None\<close>.\<close>

definition hostname :: "parsed_url \<Rightarrow> string" where
  "hostname u = (let h = fst (host_port u) in
     lower (takeWhile (\<lambda>c. c \<noteq> CHR ''%'') h) @ dropWhile (\<lambda>c. c \<noteq> CHR ''%'') h)"

text \<open>\<open>port\<close>: \<open>Inl ()\<close> is the \<open>ValueError\<close> of a port that is no number up to 65535.\<close>

definition port :: "parsed_url \<Rightarrow> unit + nat option" where
  "port u = (let p = snd (host_port u) in
     if p = [] then Inr None
     else if \<not> all_digits p then Inl ()
     else if nat_of_digits p > 65535 then Inl () else Inr (Some (nat_of_digits p)))"

section \<open>parse\_qs\<close>

definition hex_val :: "char \<Rightarrow> nat option" where
  "hex_val c = (let n = of_char c :: nat in
     if 48 \<le> n \<and> n \<le> 57 then Some (n - 48)
     else if 65 \<le> n \<and> n \<le> 70 then Some (n - 55)
     else if 97 \<le> n \<and> n \<le> 102 then Some (n - 87) else None)"

fun unquote :: "string \<Rightarrow> string" where
  "unquote (c # x # y # s) =
     (if c = CHR ''%'' then
        (case (hex_val x, hex_val y) of
           (Some a, Some b) \<Rightarrow> char_of (16 * a + b) # unquote s
         | _ \<Rightarrow> c # unquote (x # y # s))
      else c # unquote (x # y # s))"
| "unquote s = s"

definition unquote_plus :: "string \<Rightarrow> string" where
  "unquote_plus s = unquote (map (\<lambda>c. if c = CHR ''+'' then CHR '' '' else c) s)"

text \<open>The pairs with a non-empty value, in order (\<open>keep_blank_values=False\<close>).\<close>

definition parse_qsl :: "string \<Rightarrow> (string \<times> string) list" where
  "parse_qsl q =
     map (\<lambda>p. let (n, v) = partition_on (CHR ''='') p in (unquote_plus n, unquote_plus v))
       (filter (\<lambda>p. snd (partition_on (CHR ''='') p) \<noteq> []) (split_on (CHR ''&'') q))"

definition parse_qs_get :: "string \<Rightarrow> string \<Rightarrow> string list" where
  "parse_qs_get q k = map snd (filter (\<lambda>(n, _). n = k) (parse_qsl q))"

section \<open>int(text)\<close>

text \<open>
  Surrounding white space, one sign, and single underscores between digits are allowed.
\<close>

fun digits_underscore :: "bool \<Rightarrow> string \<Rightarrow> string option" where
  "digits_underscore prev [] = (if prev then Some [] else None)"
| "digits_underscore prev (c # s) =
     (if is_digit c then map_option ((#) c) (digits_underscore True s)
      else if c = CHR ''_'' \<and> prev then digits_underscore False s
      else None)"

definition py_int :: "string \<Rightarrow> int option" where
  "py_int s =
     (let t = strip s;
          neg = starts_with ''-'' t;
          body = (if neg \<or> starts_with ''+'' t then drop 1 t else t)
      in map_option (\<lambda>d. (if neg then - 1 else 1) * int (nat_of_digits d))
           (digits_underscore False body))"

text \<open>\<open>int(v)\<close> of a configuration value; \<open>None\<close> when it raises.\<close>

fun int_of :: "pyval \<Rightarrow> int option" where
  "int_of (VInt i) = Some i"
| "int_of (VBool b) = Some (if b then 1 else 0)"
| "int_of (VFloat f) = Some (if 0 \<le> f then \<lfloor>f\<rfloor> else \<lceil>f\<rceil>)"
| "int_of (VStr s) = py_int s"
| "int_of _ = None"

text \<open>
  \<open>float(text)\<close> for decimal notation with an optional exponent; the words for infinities and
  NaN are outside the model.
\<close>

definition digits_or_none :: "string \<Rightarrow> string option" where
  "digits_or_none s = (if s = [] then Some [] else digits_underscore False s)"

definition py_float :: "string \<Rightarrow> rat option" where
  "py_float s =
     (let t = strip s;
          neg = starts_with ''-'' t;
          body = (if neg \<or> starts_with ''+'' t then drop 1 t else t);
          mant = takeWhile (\<lambda>c. c \<noteq> CHR ''e'' \<and> c \<noteq> CHR ''E'') body;
          expo = drop 1 (dropWhile (\<lambda>c. c \<noteq> CHR ''e'' \<and> c \<noteq> CHR ''E'') body);
          (whole, frac) = partition_on (CHR ''.'') mant
      in if whole = [] \<and> frac = [] then None else
         (case (digits_or_none whole, digits_or_none frac,
                if mant = body then Some 0 else py_int expo) of
            (Some w, Some f, Some e) \<Rightarrow>
              (let m = of_nat (nat_of_digits (w @ f)) / 10 ^ length f;
                   scaled = (if 0 \<le> e then m * 10 ^ nat e else m / 10 ^ nat (- e))
               in Some (if neg then - scaled else scaled))
          | _ \<Rightarrow> None))"

text \<open>\<open>float(v)\<close> of a configuration value.\<close>

fun float_of :: "pyval \<Rightarrow> rat option" where
  "float_of (VInt i) = Some (of_int i)"
| "float_of (VFloat f) = Some f"
| "float_of (VBool b) = Some (if b then 1 else 0)"
| "float_of (VStr s) = py_float s"
| "float_of _ = None"

section \<open>base64\<close>

definition b64_val :: "char \<Rightarrow> nat option" where
  "b64_val c = (let n = of_char c :: nat in
     if 65 \<le> n \<and> n \<le> 90 then Some (n - 65)
     else if 97 \<le> n \<and> n \<le> 122 then Some (n - 71)
     else if 48 \<le> n \<and> n \<le> 57 then Some (n + 4)
     else if n = 43 then Some 62 else if n = 47 then Some 63 else None)"

text \<open>\<open>b64decode(s, validate=True)\<close>: \<open>None\<close> is the \<open>ValueError\<close>; bytes are characters.\<close>

fun b64_decode :: "string \<Rightarrow> string option" where
  "b64_decode [] = Some []"
| "b64_decode (a # b # c # d # rest) =
     (case (b64_val a, b64_val b) of
        (Some x, Some y) \<Rightarrow>
          (let b1 = char_of (4 * x + y div 16) in
           if c = CHR ''='' then (if d = CHR ''='' \<and> rest = [] then Some [b1] else None)
           else (case b64_val c of None \<Rightarrow> None | Some z \<Rightarrow>
             (let b2 = char_of (16 * (y mod 16) + z div 4) in
              if d = CHR ''='' then (if rest = [] then Some [b1, b2] else None)
              else (case b64_val d of None \<Rightarrow> None | Some v \<Rightarrow>
                map_option (\<lambda>t. b1 # b2 # char_of (64 * (z mod 4) + v) # t) (b64_decode rest)))))
      | _ \<Rightarrow> None)"
| "b64_decode _ = None"

definition b64_char :: "nat \<Rightarrow> char" where
  "b64_char v = (if v < 26 then char_of (v + 65) else if v < 52 then char_of (v + 71)
     else if v < 62 then char_of (v - 4) else if v = 62 then CHR ''+'' else CHR ''/'')"

fun b64_encode :: "string \<Rightarrow> string" where
  "b64_encode [] = []"
| "b64_encode [a] = (let x = of_char a :: nat in
     [b64_char (x div 4), b64_char (16 * (x mod 4)), CHR ''='', CHR ''=''])"
| "b64_encode [a, b] = (let x = of_char a :: nat; y = of_char b :: nat in
     [b64_char (x div 4), b64_char (16 * (x mod 4) + y div 16), b64_char (4 * (y mod 16)), CHR ''=''])"
| "b64_encode (a # b # c # rest) = (let x = of_char a :: nat; y = of_char b :: nat; z = of_char c :: nat in
     b64_char (x div 4) # b64_char (16 * (x mod 4) + y div 16) #
     b64_char (4 * (y mod 16) + z div 64) # b64_char (z mod 64) # b64_encode rest)"

section \<open>The environment\<close>

type_synonym environ = "string \<Rightarrow> string option"

definition getenv :: "environ \<Rightarrow> string \<Rightarrow> string \<Rightarrow> string" where
  "getenv env k d = (case env k of None \<Rightarrow> d | Some v \<Rightarrow> v)"

text \<open>\<open>[p.strip() for p in raw.split(",") if p.strip()]\<close>.\<close>

definition comma_list :: "string \<Rightarrow> string list" where
  "comma_list raw = filter (\<lambda>p. p \<noteq> []) (map strip (split_on (CHR '','') raw))"

lemmas url_eval = urlparse_def clean_url_def split_scheme_def split_netloc_def starts_with_def
  partition_on_def rpartition_on_def scheme_char_def is_alpha_def is_alnum_def is_digit_def
  lower_def to_lower_def netloc_end_def uses_params_def strip_params_def hostname_def
  host_port_def port_def has_userinfo_def all_digits_def nat_of_digits_def digit_val_def
  c0_or_space_def comma_list_def strip_by_def is_space_def char_of_def bit_0 Let_def

lemma comma_list_nonempty: "p \<in> set (comma_list raw) \<Longrightarrow> p \<noteq> []"
  by (simp add: comma_list_def)

lemma dropWhile_hd_not: "dropWhile p s \<noteq> [] \<Longrightarrow> \<not> p (hd (dropWhile p s))"
  by (rule hd_dropWhile)

lemma strip_by_edges:
  assumes "strip_by p s \<noteq> []"
  shows "\<not> p (hd (strip_by p s)) \<and> \<not> p (last (strip_by p s))"
proof -
  let ?d = "dropWhile p s"
  have ne: "dropWhile p (rev ?d) \<noteq> []" and d: "?d \<noteq> []"
    using assms unfolding strip_by_def by fastforce+
  have "\<not> p (last (strip_by p s))"
    using hd_dropWhile [of p "rev ?d"] ne by (simp add: strip_by_def last_rev)
  moreover have "hd (strip_by p s) = hd ?d"
  proof -
    obtain xs where "rev ?d = xs @ dropWhile p (rev ?d)"
      by (metis takeWhile_dropWhile_id)
    then have "?d = rev (dropWhile p (rev ?d)) @ rev xs" by (metis rev_append rev_rev_ident)
    with ne have "hd ?d = hd (rev (dropWhile p (rev ?d)))" by (metis hd_append2 rev_is_Nil_conv)
    then show ?thesis by (simp add: strip_by_def)
  qed
  ultimately show ?thesis using hd_dropWhile [of p s] d by simp
qed

lemma show_nat_no: "\<not> is_digit c \<Longrightarrow> c \<notin> set (show_nat n)"
  using show_nat_digits [of n] by (auto simp: all_digits_def list_all_iff)

lemma digits_underscore_digits:
  "list_all is_digit s \<Longrightarrow> s \<noteq> [] \<or> b \<Longrightarrow> digits_underscore b s = Some s"
  by (induction s arbitrary: b) auto

end
