(* ===== verification/Webhook.thy ===== *)
theory Webhook
  imports Job_Store Url
begin

text \<open>
  \<open>app/webhooks/\<close>: signing, the retry schedule and the dispatcher. \<open>process_one\<close> is one
  delivery pass over one job: it reads the latest attempt, opens the next one, checks the
  target against the outbound policy, signs, posts, and records the outcome on the attempt
  and on the job. The job and attempt tables are the state; an exception (caught by
  \<open>asyncio.gather(return_exceptions=True)\<close>) keeps the writes made before it.
\<close>

section \<open>Signing and the retry schedule\<close>

text \<open>\<open>hmac\<close> stands for HMAC-SHA256 in hexadecimal: secret, then message.\<close>

definition sign_payload :: "(string \<Rightarrow> string \<Rightarrow> string) \<Rightarrow> nat \<Rightarrow> string \<Rightarrow> string \<Rightarrow> string" where
  "sign_payload hmac ts body secret = hmac secret (show_nat ts @ ''.'' @ body)"

definition build_signature_header :: "nat \<Rightarrow> string \<Rightarrow> string" where
  "build_signature_header ts digest_hex = ''t='' @ show_nat ts @ '',v1='' @ digest_hex"

definition schedule_s :: "int list" where
  "schedule_s = [15, 60, 300, 900, 3600]"

text \<open>
  Attempt numbers start at 1; the delay after attempt \<open>n\<close> is entry \<open>n\<close> of the tuple,
  which counts from 0. (A negative index would count from the end; attempt numbers are
  positive.)
\<close>

definition next_retry_at :: "int \<Rightarrow> timestamp \<Rightarrow> timestamp option" where
  "next_retry_at attempt_n now =
     (if int (length schedule_s) \<le> attempt_n then None
      else Some (now + 1000000 * schedule_s ! nat attempt_n))"

section \<open>The outbound policy\<close>

text \<open>What \<open>ipaddress\<close> says of one address of the resolver's answer.\<close>

record ip_flags =
  ip_private :: bool
  ip_loopback :: bool
  ip_link_local :: bool
  ip_multicast :: bool
  ip_reserved :: bool
  ip_unspecified :: bool
  ip_global :: bool

text \<open>
  \<open>resolve h\<close>: \<open>None\<close> when \<open>getaddrinfo\<close> raises \<open>OSError\<close>; an entry is \<open>None\<close> when
  \<open>ip_address\<close> rejects it.
\<close>

type_synonym resolver = "string \<Rightarrow> ip_flags option list option"

definition public_entry :: "ip_flags option \<Rightarrow> bool" where
  "public_entry e = (case e of None \<Rightarrow> False
     | Some ip \<Rightarrow> \<not> (ip_private ip \<or> ip_loopback ip \<or> ip_link_local ip \<or> ip_multicast ip \<or>
                     ip_reserved ip \<or> ip_unspecified ip))"

definition host_resolves_public :: "resolver \<Rightarrow> string \<Rightarrow> bool" where
  "host_resolves_public resolve host = (case resolve host of
     None \<Rightarrow> False
   | Some infos \<Rightarrow> infos \<noteq> [] \<and> list_all public_entry infos)"

text \<open>\<open>None\<close> when \<open>urlparse\<close> raises \<open>ValueError\<close>.\<close>

definition toctou_allows :: "environ \<Rightarrow> (string \<Rightarrow> bool) \<Rightarrow> resolver \<Rightarrow> string \<Rightarrow> bool option" where
  "toctou_allows env bracket_ok resolve url =
     (case urlparse bracket_ok url of None \<Rightarrow> None | Some parsed \<Rightarrow>
       (let imagegen_env = lower (getenv env ''IMAGEGEN_ENV'' ''dev'');
            allow_any = lower (getenv env ''WEBHOOK_ALLOW_ANY_HOST'' ''false'') = ''true'';
            allowed_hosts = map lower (comma_list (getenv env ''WEBHOOK_ALLOWED_HOSTS'' ''''));
            host = lower (hostname parsed);
            allow_private = lower (getenv env ''WEBHOOK_ALLOW_PRIVATE'' ''false'') = ''true''
        in Some (
          if imagegen_env = ''prod'' \<and> u_scheme parsed \<noteq> ''https'' then False
          else if imagegen_env \<noteq> ''prod'' \<and> u_scheme parsed \<notin> {''http'', ''https''} then False
          else if allow_any \<and> imagegen_env = ''dev'' then True
          else if allowed_hosts = [] then False
          else if host \<notin> set allowed_hosts then False
          else if allow_private \<and> imagegen_env = ''dev'' then True
          else if host = [] then False
          else host_resolves_public resolve host)))"

definition first_signing_secret :: "environ \<Rightarrow> string option" where
  "first_signing_secret env = (case comma_list (getenv env ''WEBHOOK_SIGNING_SECRETS'' '''') of
     [] \<Rightarrow> None | p # _ \<Rightarrow> Some p)"

section \<open>Payload and headers\<close>

fun status_text :: "job_status \<Rightarrow> string" where
  "status_text Queued = ''queued''"
| "status_text Running = ''running''"
| "status_text Completed = ''completed''"
| "status_text Failed = ''failed''"
| "status_text Abandoned = ''abandoned''"

text \<open>\<open>x or d\<close> for an optional text: \<open>None\<close> and the empty text fall back.\<close>

definition text_or :: "string option \<Rightarrow> string \<Rightarrow> string" where
  "text_or x d = (case x of None \<Rightarrow> d | Some s \<Rightarrow> if s = [] then d else s)"

definition build_payload :: "job \<Rightarrow> nat \<Rightarrow> string \<times> pyval" where
  "build_payload j created =
     (if j_status j = Completed then
        (let parsed = (case j_result_json j of None \<Rightarrow> [] | Some v \<Rightarrow> dict_of v);
             data = (case map_of parsed ''data'' of None \<Rightarrow> VList [] | Some v \<Rightarrow> v)
         in (''job.completed'',
             VDict [(''event'', VStr ''job.completed''),
                    (''job'', VDict [(''id'', VStr (j_id j)),
                                     (''status'', VStr (status_text (j_status j))),
                                     (''created'', VInt (int created)), (''data'', data)])]))
      else
        (let event = ''job.'' @ status_text (j_status j)
         in (event,
             VDict [(''event'', VStr event),
                    (''job'', VDict [(''id'', VStr (j_id j)),
                                     (''status'', VStr (status_text (j_status j))),
                                     (''error'', VDict
                                       [(''code'', VStr (text_or (j_error_code j) (status_text (j_status j)))),
                                        (''message'', VStr (text_or (j_error_message j) ''''))])])])))"

definition reserved_delivery_header :: "string \<Rightarrow> bool" where
  "reserved_delivery_header k \<longleftrightarrow> starts_with ''x-imagegen-'' (lower k) \<or>
     lower k \<in> {''content-type'', ''host'', ''authorization'', ''user-agent''}"

definition service_headers :: "string \<Rightarrow> string \<Rightarrow> string \<Rightarrow> nat \<Rightarrow> string \<Rightarrow> (string \<times> string) list" where
  "service_headers event job_id delivery_id ts sig =
     [(''Content-Type'', ''application/json''), (''User-Agent'', ''image-gen-service/0.1''),
      (''X-ImageGen-Event'', event), (''X-ImageGen-Job-Id'', job_id),
      (''X-ImageGen-Delivery-Id'', delivery_id), (''X-ImageGen-Timestamp'', show_nat ts),
      (''X-ImageGen-Signature'', build_signature_header ts sig)]"

fun add_headers :: "(string \<times> string) list \<Rightarrow> (string \<times> string) list \<Rightarrow> (string \<times> string) list" where
  "add_headers hs [] = hs"
| "add_headers hs ((k, v) # rest) =
     (if reserved_delivery_header k then add_headers hs rest
      else add_headers (dict_set k v hs) rest)"

section \<open>One delivery\<close>

text \<open>
  What a pass meets outside the store: the environment variables, the resolver, the clock
  when it starts and after the POST, fresh ids, the HMAC and JSON encoders, and the answer
  of the receiver: a transport error (\<open>httpx.HTTPError\<close>), any other exception of the
  client, or a response with its status code and text.
\<close>

datatype post_result = HTTPError string | ClientException | Response int string

record delivery_world =
  dw_env :: environ
  dw_bracket_ok :: "string \<Rightarrow> bool"
  dw_resolve :: resolver
  dw_now :: timestamp
  dw_later :: timestamp
  dw_attempt_id :: string
  dw_delivery_id :: string
  dw_unix_time :: nat
  dw_hmac :: "string \<Rightarrow> string \<Rightarrow> string"
  dw_dumps :: "pyval \<Rightarrow> string"
  dw_post :: post_result

datatype post_request =
  Post (post_url: string) (post_body: string) (post_headers: "(string \<times> string) list")

text \<open>
  How a pass ends: it returned (with the POST it made, if any) or an exception left it.
\<close>

datatype pass_end = Returned "post_request option" | Raised "post_request option"

type_synonym webhook_db = "jobs \<times> attempt list"

text \<open>The guard on the latest attempt: \<open>None\<close> when the pass returns there.\<close>

definition settle_latest :: "webhook_db \<Rightarrow> job \<Rightarrow> timestamp \<Rightarrow> attempt option \<Rightarrow> webhook_db \<times> bool" where
  "settle_latest db j now latest = (case latest of
     None \<Rightarrow> (db, True)
   | Some a \<Rightarrow>
       if a_status a \<in> {APending, ADelivering} then
         (case a_next_retry_at a of
            None \<Rightarrow> ((fst db, complete_attempt (snd db) (a_id a) AFailed (a_status_code a)
                      (a_response_body_snippet a) (a_error a)
                      (Some (text_or (a_error_code a) ''webhook_dispatcher_restart'')) None now), True)
          | Some due \<Rightarrow> (db, \<not> now < due))
       else if a_status a = ASucceeded then
         ((set_webhook_delivery_status (fst db) (j_id j) DSucceeded now, snd db), False)
       else (case a_next_retry_at a of
               Some due \<Rightarrow> (db, \<not> now < due) | None \<Rightarrow> (db, True)))"

text \<open>Closing the attempt and writing the job's delivery status, in that order.\<close>

definition close_delivery ::
  "webhook_db \<Rightarrow> job \<Rightarrow> string \<Rightarrow> webhook_attempt_status \<Rightarrow> int option \<Rightarrow> string option \<Rightarrow>
   string option \<Rightarrow> string option \<Rightarrow> timestamp option \<Rightarrow> webhook_delivery_status \<Rightarrow> timestamp \<Rightarrow>
   webhook_db" where
  "close_delivery db j aid st code snippet err err_code retry_at delivery now =
     (set_webhook_delivery_status (fst db) (j_id j) delivery now,
      complete_attempt (snd db) aid st code snippet err err_code retry_at now)"

definition build_request :: "delivery_world \<Rightarrow> job \<Rightarrow> string \<Rightarrow> string \<Rightarrow> post_request" where
  "build_request w j url secret =
     (let (event, payload) = build_payload j (dw_unix_time w);
          body = dw_dumps w payload;
          sig = sign_payload (dw_hmac w) (dw_unix_time w) body secret;
          headers = service_headers event (j_id j) (dw_delivery_id w) (dw_unix_time w) sig;
          custom = (case j_webhook_headers j of None \<Rightarrow> [] | Some hs \<Rightarrow> hs)
      in Post url body (add_headers headers custom))"

definition record_answer ::
  "webhook_db \<Rightarrow> job \<Rightarrow> string \<Rightarrow> int \<Rightarrow> post_result \<Rightarrow> timestamp \<Rightarrow> webhook_db option" where
  "record_answer db j aid attempt_n answer later = (case answer of
     ClientException \<Rightarrow> None
   | HTTPError msg \<Rightarrow>
       (let retry_at = next_retry_at attempt_n later in
        Some (close_delivery db j aid AFailed None None (Some msg) None retry_at
                (if retry_at \<noteq> None then DPending else DFailed) later))
   | Response code body \<Rightarrow>
       if 200 \<le> code \<and> code < 300 then
         Some (close_delivery db j aid ASucceeded (Some code) (Some (take 256 body)) None None None
                 DSucceeded later)
       else
         (let retryable = (code = 429 \<or> (500 \<le> code \<and> code \<le> 599));
              retry_at = (if retryable then next_retry_at attempt_n later else None)
          in Some (close_delivery db j aid AFailed (Some code) (Some (take 256 body)) None
                (if 300 \<le> code \<and> code \<le> 399 then Some ''webhook_redirect'' else None) retry_at
                (if retry_at \<noteq> None then DPending else DFailed) later)))"

definition attempt_delivery :: "delivery_world \<Rightarrow> webhook_db \<Rightarrow> job \<Rightarrow> string \<Rightarrow> attempt option \<Rightarrow>
    webhook_db \<times> pass_end" where
  "attempt_delivery w db j url latest =
     (let attempt_n = (case latest of None \<Rightarrow> 1 | Some a \<Rightarrow> a_attempt_n a + 1);
          aid = dw_attempt_id w; now = dw_now w
      in case create_attempt (snd db) aid now (j_id j) attempt_n None of
           Inl _ \<Rightarrow> (db, Raised None)
         | Inr (ds, _) \<Rightarrow>
             (let db1 = (fst db, set_attempt_delivering ds aid) in
              case toctou_allows (dw_env w) (dw_bracket_ok w) (dw_resolve w) url of
                None \<Rightarrow> (db1, Raised None)
              | Some False \<Rightarrow> (close_delivery db1 j aid AFailed None None None
                  (Some ''webhook_ssrf_blocked'') None DFailed now, Returned None)
              | Some True \<Rightarrow>
                  (case first_signing_secret (dw_env w) of
                     None \<Rightarrow> (close_delivery db1 j aid AFailed None None None
                       (Some ''webhook_signing_error'') None DFailed now, Returned None)
                   | Some secret \<Rightarrow>
                       (let req = build_request w j url secret in
                        case record_answer db1 j aid attempt_n (dw_post w) (dw_later w) of
                          None \<Rightarrow> (db1, Raised (Some req))
                        | Some db2 \<Rightarrow> (db2, Returned (Some req))))))"

definition process_one :: "delivery_world \<Rightarrow> webhook_db \<Rightarrow> job \<Rightarrow> webhook_db \<times> pass_end" where
  "process_one w db j = (case j_webhook_url j of
     None \<Rightarrow> (db, Returned None)
   | Some url \<Rightarrow>
       if j_mode j = Sync \<and> j_response_delivered j then
         ((set_webhook_delivery_status (fst db) (j_id j) DSuppressed (dw_now w), snd db), Returned None)
       else
         (let latest = get_latest_attempt (snd db) (j_id j);
              (db1, go) = settle_latest db j (dw_now w) latest
          in if go then attempt_delivery w db1 j url latest else (db1, Returned None)))"

text \<open>
  \<open>_tick\<close>: every candidate of one scan is processed, each with its own surroundings; the
  passes touch different rows, so the model runs them one after another.
\<close>

fun process_all :: "webhook_db \<Rightarrow> (delivery_world \<times> job) list \<Rightarrow> webhook_db" where
  "process_all db [] = db"
| "process_all db ((w, j) # rest) = process_all (fst (process_one w db j)) rest"

definition tick :: "(nat \<Rightarrow> delivery_world) \<Rightarrow> webhook_db \<Rightarrow> webhook_db" where
  "tick world db =
     (let js = scan_webhook_candidates (fst db)
      in process_all db (zip (map world [0..<length js]) js))"

section \<open>Attempts of a job\<close>

abbreviation attempts_of :: "attempt list \<Rightarrow> string \<Rightarrow> attempt list" where
  "attempts_of ds i \<equiv> filter (\<lambda>a. a_job_id a = i) ds"

text \<open>The attempts of every job are numbered 1, 2, ... in insertion order, at most to 5.\<close>

definition attempts_ok :: "attempt list \<Rightarrow> bool" where
  "attempts_ok ds \<longleftrightarrow> (\<forall>i. map a_attempt_n (attempts_of ds i) = map int [1..<Suc (length (attempts_of ds i))]
     \<and> length (attempts_of ds i) \<le> 5)"

lemma hd_sort_key_min:
  fixes f :: "'a \<Rightarrow> 'b::linorder"
  assumes "xs \<noteq> []"
  shows "hd (sort_key f xs) \<in> set xs \<and> (\<forall>y \<in> set xs. f (hd (sort_key f xs)) \<le> f y)"
proof -
  obtain y ys where s: "sort_key f xs = y # ys"
    using assms by (metis list.exhaust length_sort list.size(3) length_0_conv)
  have "sorted (map f (sort_key f xs))" by simp
  with s have "\<forall>z \<in> set (y # ys). f y \<le> f z" by auto
  with s show ?thesis by (metis list.sel(1) list.set_intros(1) set_sort)
qed

lemma get_latest_None: "get_latest_attempt ds i = None \<longleftrightarrow> attempts_of ds i = []"
proof -
  have "get_latest_attempt ds i = None \<longleftrightarrow> sort_key (\<lambda>a. - a_attempt_n a) (attempts_of ds i) = []"
    by (simp add: get_latest_attempt_def split: list.splits)
  then show ?thesis by (metis length_0_conv length_sort)
qed

lemma get_latest_Some:
  assumes "get_latest_attempt ds i = Some a"
  shows "a \<in> set ds" and "a_job_id a = i" and "b \<in> set ds \<Longrightarrow> a_job_id b = i \<Longrightarrow> a_attempt_n b \<le> a_attempt_n a"
proof -
  have "attempts_of ds i \<noteq> []" using assms get_latest_None by force
  from hd_sort_key_min [OF this, of "\<lambda>a. - a_attempt_n a"] assms
  show "a \<in> set ds" "a_job_id a = i" "b \<in> set ds \<Longrightarrow> a_job_id b = i \<Longrightarrow> a_attempt_n b \<le> a_attempt_n a"
    by (auto simp: get_latest_attempt_def split: list.splits)
qed

lemma latest_number:
  assumes "attempts_ok ds" and "get_latest_attempt ds i = Some a"
  shows "a_attempt_n a = int (length (attempts_of ds i))" and "attempts_of ds i \<noteq> []"
proof -
  let ?xs = "attempts_of ds i"
  show ne: "?xs \<noteq> []" using assms(2) get_latest_None by force
  have ns: "map a_attempt_n ?xs = map int [1..<Suc (length ?xs)]"
    using assms(1) by (simp add: attempts_ok_def)
  then have set_ns: "a_attempt_n ` set ?xs = int ` {1..<Suc (length ?xs)}"
    by (metis list.set_map set_upt)
  note l = get_latest_Some [OF assms(2)]
  from l(1,2) have "a_attempt_n a \<in> a_attempt_n ` set ?xs" by simp
  with set_ns have "a_attempt_n a \<le> int (length ?xs)" by auto
  moreover have "int (length ?xs) \<in> a_attempt_n ` set ?xs"
    unfolding set_ns using ne by (intro imageI) (simp add: Suc_le_eq del: filter_empty_conv)
  then have "int (length ?xs) \<le> a_attempt_n a" using l(3) by auto
  ultimately show "a_attempt_n a = int (length ?xs)" by simp
qed

lemma next_number:
  assumes "attempts_ok ds"
  shows "(case get_latest_attempt ds i of None \<Rightarrow> 1 | Some a \<Rightarrow> a_attempt_n a + 1)
    = int (Suc (length (attempts_of ds i)))"
proof (cases "get_latest_attempt ds i")
  case None
  moreover from None have "attempts_of ds i = []" by (simp only: get_latest_None)
  ultimately show ?thesis by (simp del: filter_empty_conv)
next
  case (Some a)
  then show ?thesis using latest_number [OF assms] by simp
qed

lemma attempts_modify:
  assumes "\<And>a. a_job_id (f a) = a_job_id a" "\<And>a. a_attempt_n (f a) = a_attempt_n a"
  shows "map a_attempt_n (attempts_of (tbl_modify a_id k f ds) i) = map a_attempt_n (attempts_of ds i)"
  using assms by (induction ds) (auto simp: tbl_modify_def)

lemma attempts_ok_modify:
  assumes "\<And>a. a_job_id (f a) = a_job_id a" "\<And>a. a_attempt_n (f a) = a_attempt_n a"
  shows "attempts_ok (tbl_modify a_id k f ds) = attempts_ok ds"
proof -
  have "length (attempts_of (tbl_modify a_id k f ds) i) = length (attempts_of ds i)" for i
    using arg_cong [OF attempts_modify [OF assms], where f = length] by simp
  then show ?thesis by (simp add: attempts_ok_def attempts_modify [OF assms])
qed

lemma attempts_ok_updates [simp]:
  "attempts_ok (complete_attempt ds aid st c sn e ec r n) = attempts_ok ds"
  "attempts_ok (set_attempt_delivering ds aid) = attempts_ok ds"
  unfolding complete_attempt_def set_attempt_delivering_def by (rule attempts_ok_modify; simp)+

lemma length_attempts_updates [simp]:
  "length (attempts_of (complete_attempt ds aid st c sn e ec r n) i) = length (attempts_of ds i)"
  "length (attempts_of (set_attempt_delivering ds aid) i) = length (attempts_of ds i)"
proof -
  have "length (attempts_of (tbl_modify a_id aid f ds) i) = length (attempts_of ds i)"
    if "\<And>a. a_job_id (f a) = a_job_id a" for f :: "attempt \<Rightarrow> attempt"
    using that by (induction ds) (auto simp: tbl_modify_def)
  then show "length (attempts_of (complete_attempt ds aid st c sn e ec r n) i) = length (attempts_of ds i)"
    "length (attempts_of (set_attempt_delivering ds aid) i) = length (attempts_of ds i)"
    by (simp_all add: complete_attempt_def set_attempt_delivering_def)
qed

lemma create_attempt_Inr:
  assumes "create_attempt ds aid now i n r = Inr (ds', a)"
  shows "1 \<le> n" "n \<le> 5" "ds' = ds @ [a]" "a_attempt_n a = n" "a_job_id a = i" "a_id a = aid"
    "aid \<notin> set (map a_id ds)"
  using assms by (auto simp: create_attempt_def tbl_insert_def Let_def split: if_splits)

lemma create_attempt_ok:
  assumes "attempts_ok ds" and "create_attempt ds aid now i (int (Suc (length (attempts_of ds i)))) r = Inr (ds', a)"
  shows "attempts_ok ds'"
  using create_attempt_Inr [OF assms(2)] assms(1) by (auto simp: attempts_ok_def)

text \<open>The opening of an attempt does not see what \<open>settle_latest\<close> wrote.\<close>

lemma settle_latest_attempts:
  assumes "settle_latest db j now l = (db', go)"
  shows "attempts_ok (snd db') = attempts_ok (snd db)"
    and "length (attempts_of (snd db') i) = length (attempts_of (snd db) i)"
  using assms by (auto simp: settle_latest_def split: option.splits if_splits)

lemma close_delivery_snd [simp]:
  "attempts_ok (snd (close_delivery db j aid st c sn e ec r d n)) = attempts_ok (snd db)"
  by (simp add: close_delivery_def)

lemma record_answer_snd:
  "record_answer db j aid n ans later = Some db' \<Longrightarrow> attempts_ok (snd db') = attempts_ok (snd db)"
  by (auto simp: record_answer_def Let_def split: post_result.splits if_splits)

lemma attempt_delivery_ok:
  assumes "attempts_ok (snd db)"
    and "(case latest of None \<Rightarrow> 1 | Some a \<Rightarrow> a_attempt_n a + 1) =
      int (Suc (length (attempts_of (snd db) (j_id j))))"
  shows "attempts_ok (snd (fst (attempt_delivery w db j url latest)))"
proof (cases "create_attempt (snd db) (dw_attempt_id w) (dw_now w) (j_id j)
    (int (Suc (length (attempts_of (snd db) (j_id j))))) None")
  case (Inl e)
  then show ?thesis using assms by (simp add: attempt_delivery_def)
next
  case (Inr p)
  obtain ds a where p: "p = (ds, a)" by (cases p)
  with Inr have "attempts_ok ds" using assms(1) create_attempt_ok by blast
  with Inr p show ?thesis
    by (auto simp: attempt_delivery_def assms(2) Let_def record_answer_snd
        split: option.splits bool.splits)
qed

lemma process_one_ok: "attempts_ok (snd db) \<Longrightarrow> attempts_ok (snd (fst (process_one w db j)))"
proof (cases "j_webhook_url j")
  case (Some url)
  assume ok: "attempts_ok (snd db)"
  obtain db1 go where s: "settle_latest db j (dw_now w) (get_latest_attempt (snd db) (j_id j)) = (db1, go)"
    by (cases "settle_latest db j (dw_now w) (get_latest_attempt (snd db) (j_id j))")
  have "attempts_ok (snd db1)" using settle_latest_attempts(1) [OF s] ok by simp
  moreover have "attempts_ok (snd (fst (attempt_delivery w db1 j url (get_latest_attempt (snd db) (j_id j)))))"
    using calculation next_number [OF ok, of "j_id j"] settle_latest_attempts(2) [OF s, of "j_id j"]
    by (intro attempt_delivery_ok) simp_all
  ultimately show ?thesis using Some s ok by (simp add: process_one_def)
qed (simp add: process_one_def)

lemma process_all_ok: "attempts_ok (snd db) \<Longrightarrow> attempts_ok (snd (process_all db ps))"
  by (induction db ps rule: process_all.induct) (auto intro: process_one_ok)

section \<open>Headers\<close>

lemma add_headers_member:
  "(k, v) \<in> set (add_headers hs custom) \<Longrightarrow> reserved_delivery_header k \<Longrightarrow> (k, v) \<in> set hs"
proof (induction hs custom rule: add_headers.induct)
  case (2 hs k' v' rest)
  have "(k, v) \<in> set (dict_set k' v' hs) \<Longrightarrow> k \<noteq> k' \<Longrightarrow> (k, v) \<in> set hs"
    by (induction hs) (auto split: if_splits)
  with 2 show ?case by (auto split: if_splits)
qed simp

lemma add_headers_lookup:
  "reserved_delivery_header k \<Longrightarrow> map_of (add_headers hs custom) k = map_of hs k"
  by (induction hs custom rule: add_headers.induct) auto

section \<open>A pass, case by case\<close>

lemma insort_key_map: "insort_key f (g x) (map g xs) = map g (insort_key (\<lambda>x. f (g x)) x xs)"
  by (induction xs) auto

lemma sort_key_map: "sort_key f (map g xs) = map g (sort_key (\<lambda>x. f (g x)) xs)"
  by (induction xs) (auto simp: insort_key_map)

lemma get_latest_modify:
  assumes "\<And>a. a_job_id (f a) = a_job_id a" "\<And>a. a_attempt_n (f a) = a_attempt_n a"
  shows "get_latest_attempt (tbl_modify a_id k f ds) i =
    map_option (\<lambda>a. if a_id a = k then f a else a) (get_latest_attempt ds i)"
proof -
  let ?g = "\<lambda>a. if a_id a = k then f a else a"
  have "attempts_of (map ?g ds) i = map ?g (attempts_of ds i)"
    using assms(1) by (induction ds) auto
  moreover have "a_attempt_n (?g a) = a_attempt_n a" for a using assms(2) by simp
  ultimately show ?thesis
    by (simp add: get_latest_attempt_def tbl_modify_def sort_key_map split: list.splits)
qed

lemma attempt_delivery_posted:
  assumes "attempt_delivery w db j url latest = (db', Returned (Some req)) \<or>
    attempt_delivery w db j url latest = (db', Raised (Some req))"
  shows "toctou_allows (dw_env w) (dw_bracket_ok w) (dw_resolve w) url = Some True"
    and "\<exists>secret. first_signing_secret (dw_env w) = Some secret \<and> req = build_request w j url secret"
  using assms by (auto simp: attempt_delivery_def Let_def split: sum.splits option.splits bool.splits)

lemma process_one_posted:
  assumes "snd (process_one w db j) = Returned (Some req) \<or> snd (process_one w db j) = Raised (Some req)"
  obtains url db1 where "j_webhook_url j = Some url"
    "settle_latest db j (dw_now w) (get_latest_attempt (snd db) (j_id j)) = (db1, True)"
    "process_one w db j = attempt_delivery w db1 j url (get_latest_attempt (snd db) (j_id j))"
    "\<not> (j_mode j = Sync \<and> j_response_delivered j)"
proof (cases "j_webhook_url j")
  case None
  then show thesis using assms by (simp add: process_one_def)
next
  case (Some url)
  obtain db1 go where s: "settle_latest db j (dw_now w) (get_latest_attempt (snd db) (j_id j)) = (db1, go)"
    by (cases "settle_latest db j (dw_now w) (get_latest_attempt (snd db) (j_id j))")
  have "\<not> (j_mode j = Sync \<and> j_response_delivered j)" and go: "go"
    using assms Some s by (auto simp: process_one_def Let_def split: if_splits)
  with Some s show thesis by (intro that [of url db1]) (auto simp: process_one_def)
qed

lemma build_request_fields [simp]:
  "post_url (build_request w j url secret) = url"
  "post_body (build_request w j url secret) = dw_dumps w (snd (build_payload j (dw_unix_time w)))"
  "post_headers (build_request w j url secret) =
     add_headers (service_headers (fst (build_payload j (dw_unix_time w))) (j_id j) (dw_delivery_id w)
        (dw_unix_time w) (dw_hmac w secret (show_nat (dw_unix_time w) @ ''.'' @
          dw_dumps w (snd (build_payload j (dw_unix_time w))))))
       (case j_webhook_headers j of None \<Rightarrow> [] | Some hs \<Rightarrow> hs)"
  by (simp_all add: build_request_def sign_payload_def split_beta Let_def)

lemma toctou_prod:
  assumes "toctou_allows env bo rs url = Some True"
    and "lower (getenv env ''IMAGEGEN_ENV'' ''dev'') = ''prod''"
  obtains u infos where "urlparse bo url = Some u" "u_scheme u = ''https''"
    "lower (hostname u) \<in> set (map lower (comma_list (getenv env ''WEBHOOK_ALLOWED_HOSTS'' '''')))"
    "rs (lower (hostname u)) = Some infos" "infos \<noteq> []" "list_all public_entry infos"
  using assms by (auto simp: toctou_allows_def host_resolves_public_def Let_def
      split: option.splits if_splits)

lemma job_status_after [simp]:
  "get_by_id (set_webhook_delivery_status t i d n) k = (if k = i
     then map_option (\<lambda>j. j\<lparr>j_webhook_delivery_status := Some d, j_updated_at := n\<rparr>) (get_by_id t i)
     else get_by_id t k)"
  by (simp add: set_webhook_delivery_status_def get_by_id_def jt.find_modify)

lemma attempt_after_complete:
  "tbl_find a_id (complete_attempt ds aid st c sn e ec r n) aid = map_option (\<lambda>a. a\<lparr>a_status := st,
     a_status_code := c, a_response_body_snippet := sn, a_error := e, a_error_code := ec,
     a_next_retry_at := r, a_completed_at := Some n\<rparr>) (tbl_find a_id ds aid)"
  by (simp add: complete_attempt_def att.find_modify)

lemma attempt_after_open:
  assumes "create_attempt ds aid now i n None = Inr (ds', a)"
  shows "\<exists>b. tbl_find a_id (set_attempt_delivering ds' aid) aid = Some b \<and> a_attempt_n b = n \<and> a_job_id b = i"
proof -
  note c = create_attempt_Inr [OF assms]
  have "tbl_find a_id ds aid = None" using c(7) by (simp add: tbl_find_None)
  with c have "tbl_find a_id ds' aid = Some a" by (simp add: att.find_append)
  then show ?thesis using c(4,5) by (simp add: set_attempt_delivering_def att.find_modify)
qed

section \<open>Properties\<close>

definition demo_environ :: environ where
  "demo_environ = [''IMAGEGEN_ENV'' \<mapsto> ''Prod'', ''WEBHOOK_ALLOWED_HOSTS'' \<mapsto> '' a.b , h'',
     ''WEBHOOK_SIGNING_SECRETS'' \<mapsto> ''s1,s2'']"

definition public_ip :: ip_flags where
  "public_ip = \<lparr>ip_private = False, ip_loopback = False, ip_link_local = False,
     ip_multicast = False, ip_reserved = False, ip_unspecified = False, ip_global = True\<rparr>"

definition demo_world :: "post_result \<Rightarrow> delivery_world" where
  "demo_world answer = \<lparr>dw_env = demo_environ, dw_bracket_ok = (\<lambda>_. False),
     dw_resolve = (\<lambda>_. Some [Some public_ip]), dw_now = 100, dw_later = 200,
     dw_attempt_id = ''att'', dw_delivery_id = ''del'', dw_unix_time = 7,
     dw_hmac = (\<lambda>k m. k @ ''|'' @ m), dw_dumps = (\<lambda>_. ''{}''), dw_post = answer\<rparr>"

definition demo_candidate :: job where
  "demo_candidate = (hd demo_failed)\<lparr>j_webhook_handover := True, j_mode := Async,
     j_webhook_headers := Some [(''X-ImageGen-Signature'', ''forged''), (''X-App'', ''1'')]\<rparr>"

lemma demo_candidate_fields:
  "j_id demo_candidate = ''gen_1''" "j_webhook_url demo_candidate = Some ''https://h/w''"
  "j_mode demo_candidate = Async" "j_status demo_candidate = Failed"
  "j_webhook_headers demo_candidate = Some [(''X-ImageGen-Signature'', ''forged''), (''X-App'', ''1'')]"
  by (simp_all add: demo_candidate_def demo_defs)

lemma demo_toctou:
  "toctou_allows demo_environ (\<lambda>_. False) (\<lambda>_. Some [Some public_ip]) ''https://h/w'' = Some True"
  by (simp add: toctou_allows_def demo_environ_def getenv_def host_resolves_public_def
      public_entry_def public_ip_def url_eval)

lemma demo_secret: "first_signing_secret demo_environ = Some ''s1''"
  by (simp add: first_signing_secret_def demo_environ_def getenv_def url_eval)

lemma demo_no_attempt: "get_latest_attempt [] i = None"
  by (simp add: get_latest_attempt_def)

lemma demo_pass:
  "process_one (demo_world answer) ([demo_candidate], []) demo_candidate =
     attempt_delivery (demo_world answer) ([demo_candidate], []) demo_candidate ''https://h/w'' None"
  by (simp add: process_one_def demo_candidate_fields demo_no_attempt settle_latest_def)

lemma demo_posts:
  "snd (process_one (demo_world (Response c body)) ([demo_candidate], []) demo_candidate) =
     Returned (Some (build_request (demo_world (Response c body)) demo_candidate ''https://h/w'' ''s1''))"
  unfolding demo_pass
  by (simp add: attempt_delivery_def demo_world_def create_attempt_def tbl_insert_def Let_def
      demo_toctou demo_secret record_answer_def)

text \<open>
  C12: However many passes the dispatcher makes and however they end (a response, a transport
  error, an exception that leaves the pass), starting from an empty
  \<open>webhook_deliveries\<close> table the attempts of every job are numbered 1, 2, 3, ... in the
  order they were made, and there are never more than five of them.
\<close>

theorem webhook_attempts_bounded:
  "length (filter (\<lambda>a. a_job_id a = i) (snd (process_all (t, []) passes))) \<le> 5 \<and>
   map a_attempt_n (filter (\<lambda>a. a_job_id a = i) (snd (process_all (t, []) passes))) =
     map int [1..<Suc (length (filter (\<lambda>a. a_job_id a = i) (snd (process_all (t, []) passes))))]"
proof -
  have "attempts_ok (snd (process_all (t, []) passes))"
    by (rule process_all_ok) (simp add: attempts_ok_def)
  then show ?thesis by (simp add: attempts_ok_def)
qed

text \<open>
  C9: With \<open>IMAGEGEN_ENV=prod\<close>, whenever a pass posts, the target is an \<open>https\<close> URL whose
  host is on \<open>WEBHOOK_ALLOWED_HOSTS\<close>, and at that moment the host resolved to at least one
  address and to public addresses only; no other variable of the environment lifts this.
\<close>

theorem prod_posts_only_to_allowed_public_hosts:
  assumes "snd (process_one w db j) \<in> {Returned (Some req), Raised (Some req)}"
    and "lower (getenv (dw_env w) ''IMAGEGEN_ENV'' ''dev'') = ''prod''"
  shows "j_webhook_url j = Some (post_url req) \<and>
    (\<exists>u infos. urlparse (dw_bracket_ok w) (post_url req) = Some u \<and> u_scheme u = ''https'' \<and>
      lower (hostname u) \<in> set (map lower (comma_list (getenv (dw_env w) ''WEBHOOK_ALLOWED_HOSTS'' ''''))) \<and>
      dw_resolve w (lower (hostname u)) = Some infos \<and> infos \<noteq> [] \<and> list_all public_entry infos)"
proof -
  from assms(1) have "snd (process_one w db j) = Returned (Some req) \<or> snd (process_one w db j) = Raised (Some req)"
    by simp
  then obtain url db1 where url: "j_webhook_url j = Some url"
    and p: "process_one w db j = attempt_delivery w db1 j url (get_latest_attempt (snd db) (j_id j))"
    using process_one_posted by metis
  have "attempt_delivery w db1 j url (get_latest_attempt (snd db) (j_id j)) = (fst (process_one w db j), Returned (Some req)) \<or>
    attempt_delivery w db1 j url (get_latest_attempt (snd db) (j_id j)) = (fst (process_one w db j), Raised (Some req))"
    using assms(1) p by (auto simp: prod_eq_iff)
  note a = attempt_delivery_posted [OF this]
  from a(2) have req: "post_url req = url" by auto
  from toctou_prod [OF a(1) assms(2)] show ?thesis using url req by metis
qed

theorem prod_posts_only_to_allowed_public_hosts_witness:
  "\<exists>u. urlparse (\<lambda>_. False) ''https://h/w'' = Some u \<and> u_scheme u = ''https''"
proof -
  let ?w = "demo_world (Response 200 [])"
  let ?req = "build_request ?w demo_candidate ''https://h/w'' ''s1''"
  have "lower (getenv (dw_env ?w) ''IMAGEGEN_ENV'' ''dev'') = ''prod''"
    by (simp add: demo_world_def demo_environ_def getenv_def url_eval)
  moreover have "snd (process_one ?w ([demo_candidate], []) demo_candidate)
    \<in> {Returned (Some ?req), Raised (Some ?req)}" by (simp add: demo_posts)
  moreover have "post_url ?req = ''https://h/w''"
    by simp
  ultimately show ?thesis
    using prod_posts_only_to_allowed_public_hosts [of ?w "([demo_candidate], [])" demo_candidate ?req]
    by (auto simp: demo_world_def)
qed

text \<open>
  C15: The request a pass posts is signed with the first configured secret over exactly the
  body that is sent, under the timestamp it announces; and for every header the service
  reserves (the \<open>X-ImageGen-*\<close> family, Content-Type, Host, Authorization, User-Agent, in any
  case), the value sent is the service's own or none: a client's \<open>webhook_headers\<close> cannot set it.
\<close>

theorem service_headers_win:
  assumes "snd (process_one w db j) \<in> {Returned (Some req), Raised (Some req)}"
  shows "\<exists>secret event. first_signing_secret (dw_env w) = Some secret \<and>
    event = fst (build_payload j (dw_unix_time w)) \<and>
    post_body req = dw_dumps w (snd (build_payload j (dw_unix_time w))) \<and>
    map_of (post_headers req) ''X-ImageGen-Signature'' = Some (''t='' @ show_nat (dw_unix_time w) @ '',v1='' @
      dw_hmac w secret (show_nat (dw_unix_time w) @ ''.'' @ post_body req)) \<and>
    map_of (post_headers req) ''X-ImageGen-Timestamp'' = Some (show_nat (dw_unix_time w)) \<and>
    (\<forall>k. reserved_delivery_header k \<longrightarrow> map_of (post_headers req) k = map_of (service_headers event (j_id j)
      (dw_delivery_id w) (dw_unix_time w) (dw_hmac w secret (show_nat (dw_unix_time w) @ ''.'' @ post_body req))) k)"
proof -
  from assms have "snd (process_one w db j) = Returned (Some req) \<or> snd (process_one w db j) = Raised (Some req)"
    by simp
  then obtain url db1 where
    p: "process_one w db j = attempt_delivery w db1 j url (get_latest_attempt (snd db) (j_id j))"
    using process_one_posted by metis
  have "attempt_delivery w db1 j url (get_latest_attempt (snd db) (j_id j)) = (fst (process_one w db j), Returned (Some req)) \<or>
    attempt_delivery w db1 j url (get_latest_attempt (snd db) (j_id j)) = (fst (process_one w db j), Raised (Some req))"
    using assms p by (auto simp: prod_eq_iff)
  from attempt_delivery_posted(2) [OF this]
  obtain secret where s: "first_signing_secret (dw_env w) = Some secret" "req = build_request w j url secret"
    by auto
  have r: "reserved_delivery_header ''X-ImageGen-Signature''" "reserved_delivery_header ''X-ImageGen-Timestamp''"
    by (simp_all add: reserved_delivery_header_def url_eval)
  from s show ?thesis
    by (auto simp: add_headers_lookup r build_signature_header_def) (auto simp: service_headers_def build_signature_header_def)
qed

theorem service_headers_win_witness:
  "map_of (post_headers (build_request (demo_world (Response 200 [])) demo_candidate ''https://h/w'' ''s1''))
     ''X-ImageGen-Signature'' = Some ''t=7,v1=s1|7.{}''"
proof -
  let ?w = "demo_world (Response 200 [])"
  let ?req = "build_request ?w demo_candidate ''https://h/w'' ''s1''"
  have "snd (process_one ?w ([demo_candidate], []) demo_candidate)
    \<in> {Returned (Some ?req), Raised (Some ?req)}" by (simp add: demo_posts)
  from service_headers_win [OF this] obtain secret where
    "first_signing_secret (dw_env ?w) = Some secret"
    "map_of (post_headers ?req) ''X-ImageGen-Signature'' = Some (''t='' @ show_nat (dw_unix_time ?w) @
       '',v1='' @ dw_hmac ?w secret (show_nat (dw_unix_time ?w) @ ''.'' @ post_body ?req))"
    by blast
  then show ?thesis
    by (simp add: demo_world_def demo_secret show_nat.simps char_of_def bit_0 del: build_request_fields(3))
qed

section \<open>Outcomes\<close>

text \<open>
  The retry policy as documented per attempt: a transport error, 429 and 5xx are worth a
  retry; after attempts 1 to 4 it follows in one, five, fifteen and sixty minutes.
\<close>

definition transient_answer :: "post_result \<Rightarrow> bool" where
  "transient_answer ans = (case ans of HTTPError _ \<Rightarrow> True | ClientException \<Rightarrow> False
     | Response code _ \<Rightarrow> code = 429 \<or> (500 \<le> code \<and> code \<le> 599))"

definition accepted_answer :: "post_result \<Rightarrow> bool" where
  "accepted_answer ans = (case ans of Response code _ \<Rightarrow> 200 \<le> code \<and> code \<le> 299 | _ \<Rightarrow> False)"

definition outcome_spec :: "post_result \<Rightarrow> nat \<Rightarrow> timestamp \<Rightarrow>
    webhook_attempt_status \<times> webhook_delivery_status \<times> timestamp option" where
  "outcome_spec ans n later =
     (if accepted_answer ans then (ASucceeded, DSucceeded, None)
      else if transient_answer ans \<and> n < 5
      then (AFailed, DPending, Some (later + 60000000 * [1, 5, 15, 60] ! (n - 1)))
      else (AFailed, DFailed, None))"

lemma schedule_spec:
  "1 \<le> n \<Longrightarrow> next_retry_at (int n) later =
     (if n < 5 then Some (later + 60000000 * [1, 5, 15, 60] ! (n - 1)) else None)"
proof -
  assume "1 \<le> n"
  then consider "n = 1" | "n = 2" | "n = 3" | "n = 4" | "5 \<le> n" by linarith
  then show ?thesis by cases (simp_all add: next_retry_at_def schedule_s_def)
qed

lemma record_answer_outcome:
  assumes "record_answer db j aid (int n) ans later = Some db'" and "1 \<le> n"
    and "tbl_find a_id (snd db) aid = Some a" and "get_by_id (fst db) (j_id j) = Some j0"
    and "outcome_spec ans n later = (st, delivery, retry)"
  shows "\<exists>a'. tbl_find a_id (snd db') aid = Some a' \<and> a_job_id a' = a_job_id a \<and>
      a_attempt_n a' = a_attempt_n a \<and> a_status a' = st \<and> a_next_retry_at a' = retry"
    and "map_option j_webhook_delivery_status (get_by_id (fst db') (j_id j)) = Some (Some delivery)"
proof -
  have "(\<exists>a'. tbl_find a_id (snd db') aid = Some a' \<and> a_job_id a' = a_job_id a \<and>
      a_attempt_n a' = a_attempt_n a \<and> a_status a' = st \<and> a_next_retry_at a' = retry) \<and>
    map_option j_webhook_delivery_status (get_by_id (fst db') (j_id j)) = Some (Some delivery)"
  proof (cases ans)
    case (HTTPError m)
    with assms show ?thesis
      by (auto simp: record_answer_def close_delivery_def schedule_spec attempt_after_complete
          outcome_spec_def accepted_answer_def transient_answer_def split: if_splits)
  next
    case ClientException
    with assms show ?thesis by (simp add: record_answer_def)
  next
    case (Response code body)
    with assms show ?thesis
      by (auto simp: record_answer_def close_delivery_def schedule_spec attempt_after_complete
          outcome_spec_def accepted_answer_def transient_answer_def split: if_splits)
  qed
  then show "\<exists>a'. tbl_find a_id (snd db') aid = Some a' \<and> a_job_id a' = a_job_id a \<and>
      a_attempt_n a' = a_attempt_n a \<and> a_status a' = st \<and> a_next_retry_at a' = retry"
    "map_option j_webhook_delivery_status (get_by_id (fst db') (j_id j)) = Some (Some delivery)"
    by blast+
qed

lemma attempt_delivery_returned:
  assumes "attempt_delivery w db j url latest = (db', Returned (Some req))"
  obtains ds a where
    "create_attempt (snd db) (dw_attempt_id w) (dw_now w) (j_id j)
       (case latest of None \<Rightarrow> 1 | Some a \<Rightarrow> a_attempt_n a + 1) None = Inr (ds, a)"
    "record_answer (fst db, set_attempt_delivering ds (dw_attempt_id w)) j (dw_attempt_id w)
       (case latest of None \<Rightarrow> 1 | Some a \<Rightarrow> a_attempt_n a + 1) (dw_post w) (dw_later w) = Some db'"
  using assms by (auto simp: attempt_delivery_def Let_def split: sum.splits option.splits bool.splits)

lemma settle_latest_jobs:
  "settle_latest db j now l = (db', True) \<Longrightarrow> fst db' = fst db"
  by (auto simp: settle_latest_def split: option.splits if_splits)

lemma pass_outcome:
  assumes "attempts_ok (snd db)" and "get_by_id (fst db) (j_id j) = Some j0"
    and "snd (process_one w db j) = Returned (Some req)"
    and "n = Suc (length (filter (\<lambda>a. a_job_id a = j_id j) (snd db)))"
    and "outcome_spec (dw_post w) n (dw_later w) = (st, delivery, retry)"
  shows "(\<exists>a. tbl_find a_id (snd (fst (process_one w db j))) (dw_attempt_id w) = Some a \<and>
      a_job_id a = j_id j \<and> a_attempt_n a = int n \<and> a_status a = st \<and> a_next_retry_at a = retry) \<and>
    map_option j_webhook_delivery_status (get_by_id (fst (fst (process_one w db j))) (j_id j)) =
      Some (Some delivery)"
proof -
  let ?l = "get_latest_attempt (snd db) (j_id j)"
  obtain url db1 where s: "settle_latest db j (dw_now w) ?l = (db1, True)"
    and p: "process_one w db j = attempt_delivery w db1 j url ?l"
    using process_one_posted [of w db j req] assms(3) by metis
  have "attempt_delivery w db1 j url ?l = (fst (process_one w db j), Returned (Some req))"
    using assms(3) p by (simp add: prod_eq_iff)
  from attempt_delivery_returned [OF this] obtain ds a where
    c: "create_attempt (snd db1) (dw_attempt_id w) (dw_now w) (j_id j) (int n) None = Inr (ds, a)"
    and r: "record_answer (fst db1, set_attempt_delivering ds (dw_attempt_id w)) j (dw_attempt_id w) (int n)
      (dw_post w) (dw_later w) = Some (fst (process_one w db j))"
    using next_number [OF assms(1), of "j_id j"] assms(4) by metis
  obtain b where b: "tbl_find a_id (set_attempt_delivering ds (dw_attempt_id w)) (dw_attempt_id w) = Some b"
    "a_attempt_n b = int n" "a_job_id b = j_id j"
    using attempt_after_open [OF c] by blast
  have "get_by_id (fst db1) (j_id j) = Some j0" using settle_latest_jobs [OF s] assms(2) by simp
  with record_answer_outcome [OF r _ _ _ assms(5)] b assms(4) show ?thesis by fastforce
qed



section \<open>What later passes do\<close>



lemma attempts_of_modify_other:
  assumes "\<And>a. a_job_id (f a) = a_job_id a"
    and "\<And>a. a \<in> set ds \<Longrightarrow> a_id a = k \<Longrightarrow> a_job_id a \<noteq> i"
  shows "attempts_of (tbl_modify a_id k f ds) i = attempts_of ds i"
  using assms by (induction ds) (auto simp: tbl_modify_def)

lemma settle_latest_frame:
  assumes "att.keys_distinct (snd db)" and "settle_latest db j now (get_latest_attempt (snd db) (j_id j)) = (db', go)"
  shows "att.keys_distinct (snd db')" and "map a_id (snd db') = map a_id (snd db)"
    and "j_id j \<noteq> i \<Longrightarrow> attempts_of (snd db') i = attempts_of (snd db) i"
proof -
  consider "snd db' = snd db"
    | a where "get_latest_attempt (snd db) (j_id j) = Some a" "snd db' = complete_attempt (snd db) (a_id a) AFailed
        (a_status_code a) (a_response_body_snippet a) (a_error a)
        (Some (text_or (a_error_code a) ''webhook_dispatcher_restart'')) None now"
    using assms(2) by (auto simp: settle_latest_def split: option.splits if_splits)
  then have "att.keys_distinct (snd db') \<and> map a_id (snd db') = map a_id (snd db) \<and>
    (j_id j \<noteq> i \<longrightarrow> attempts_of (snd db') i = attempts_of (snd db) i)"
  proof cases
    case 1
    then show ?thesis using assms(1) by simp
  next
    case 2
    note a = get_latest_Some [OF 2(1)]
    have "a_job_id b = j_id j" if "b \<in> set (snd db)" "a_id b = a_id a" for b
      using att.key_unique [OF assms(1) that(1) a(1) that(2)] a(2) by simp
    then show ?thesis unfolding 2(2) complete_attempt_def
      using assms(1) by (auto simp: att.modify_distinct att.keys_modify intro!: attempts_of_modify_other)
  qed
  then show "att.keys_distinct (snd db')" "map a_id (snd db') = map a_id (snd db)"
    "j_id j \<noteq> i \<Longrightarrow> attempts_of (snd db') i = attempts_of (snd db) i" by blast+
qed

text \<open>What a pass may do to the attempts after it opened one: leave it open or close it.\<close>

definition open_or_closed :: "attempt list \<Rightarrow> string \<Rightarrow> attempt list \<Rightarrow> bool" where
  "open_or_closed ds aid ds' \<longleftrightarrow> ds' = ds \<or>
     (\<exists>st code sn e ec r n. ds' = complete_attempt ds aid st code sn e ec r n)"

lemma open_or_closedI [intro, simp]:
  "open_or_closed ds aid ds" "open_or_closed ds aid (complete_attempt ds aid st code sn e ec r n)"
  unfolding open_or_closed_def by blast+

lemma record_answer_closes:
  "record_answer db j aid n ans later = Some db' \<Longrightarrow> open_or_closed (snd db) aid (snd db')"
  by (cases ans) (auto simp: record_answer_def close_delivery_def Let_def split: if_splits)

lemma attempt_delivery_opens:
  assumes "create_attempt (snd db) (dw_attempt_id w) (dw_now w) (j_id j)
    (case l of None \<Rightarrow> 1 | Some a \<Rightarrow> a_attempt_n a + 1) None = Inr (ds, a)"
  shows "open_or_closed (set_attempt_delivering ds (dw_attempt_id w)) (dw_attempt_id w)
    (snd (fst (attempt_delivery w db j url l)))"
  using assms
  by (auto simp: attempt_delivery_def Let_def close_delivery_def dest: record_answer_closes
      split: option.splits bool.splits)

lemma attempt_delivery_frame:
  assumes "att.keys_distinct (snd db)"
  shows "att.keys_distinct (snd (fst (attempt_delivery w db j url l)))"
    and "j_id j \<noteq> i \<Longrightarrow> attempts_of (snd (fst (attempt_delivery w db j url l))) i = attempts_of (snd db) i"
proof -
  let ?aid = "dw_attempt_id w"
  let ?P = "\<lambda>ds. att.keys_distinct ds \<and> (\<forall>a \<in> set ds. a_id a = ?aid \<longrightarrow> a_job_id a = j_id j) \<and>
    (j_id j \<noteq> i \<longrightarrow> attempts_of ds i = attempts_of (snd db) i)"
  have upd: "?P (tbl_modify a_id ?aid f ds)" if "?P ds" "\<And>a. a_job_id (f a) = a_job_id a" "\<And>a. a_id (f a) = a_id a" for ds f
    using that by (auto simp: att.modify_distinct attempts_of_modify_other dest!: att.member_modify)
  have c: "?P (complete_attempt ds ?aid st code sn e ec r n)" if "?P ds" for ds st code sn e ec r n
    unfolding complete_attempt_def using that by (rule upd) simp_all
  have "att.keys_distinct (snd (fst (attempt_delivery w db j url l))) \<and>
    (j_id j \<noteq> i \<longrightarrow> attempts_of (snd (fst (attempt_delivery w db j url l))) i = attempts_of (snd db) i)"
  proof (cases "create_attempt (snd db) ?aid (dw_now w) (j_id j) (case l of None \<Rightarrow> 1 | Some a \<Rightarrow> a_attempt_n a + 1) None")
    case (Inl e)
    then show ?thesis using assms by (simp add: attempt_delivery_def)
  next
    case (Inr p)
    obtain ds a where p: "p = (ds, a)" by (cases p)
    note ca = create_attempt_Inr [OF Inr [unfolded p]]
    have "?P ds" using ca assms by (auto simp: att.keys_distinct_def image_iff)
    then have P1: "?P (set_attempt_delivering ds ?aid)"
      unfolding set_attempt_delivering_def by (rule upd) simp_all
    from attempt_delivery_opens [OF Inr [unfolded p], of url] show ?thesis unfolding open_or_closed_def
    proof (elim disjE exE)
      assume e: "snd (fst (attempt_delivery w db j url l)) = set_attempt_delivering ds ?aid"
      show ?thesis unfolding e using P1 by blast
    next
      fix st code sn er ec r n
      assume e: "snd (fst (attempt_delivery w db j url l)) =
        complete_attempt (set_attempt_delivering ds ?aid) ?aid st code sn er ec r n"
      show ?thesis unfolding e using c [OF P1] by blast
    qed
  qed
  then show "att.keys_distinct (snd (fst (attempt_delivery w db j url l)))"
    "j_id j \<noteq> i \<Longrightarrow> attempts_of (snd (fst (attempt_delivery w db j url l))) i = attempts_of (snd db) i"
    by blast+
qed

lemma process_one_cases:
  obtains "snd (fst (process_one w db j)) = snd db"
    | db1 where "settle_latest db j (dw_now w) (get_latest_attempt (snd db) (j_id j)) = (db1, False)"
        "process_one w db j = (db1, Returned None)"
    | url db1 where "settle_latest db j (dw_now w) (get_latest_attempt (snd db) (j_id j)) = (db1, True)"
        "process_one w db j = attempt_delivery w db1 j url (get_latest_attempt (snd db) (j_id j))"
proof (cases "j_webhook_url j = None \<or> (j_mode j = Sync \<and> j_response_delivered j)")
  case True
  then show ?thesis using that(1) by (auto simp: process_one_def split: option.splits)
next
  case False
  then obtain url where "j_webhook_url j = Some url" by auto
  moreover obtain db1 go where s: "settle_latest db j (dw_now w) (get_latest_attempt (snd db) (j_id j)) = (db1, go)"
    by (cases "settle_latest db j (dw_now w) (get_latest_attempt (snd db) (j_id j))")
  ultimately have "process_one w db j = (if go then attempt_delivery w db1 j url (get_latest_attempt (snd db) (j_id j))
      else (db1, Returned None))"
    using False by (auto simp: process_one_def)
  with s that(2,3) show ?thesis by (cases go) simp_all
qed

lemma process_one_frame:
  assumes "att.keys_distinct (snd db)"
  shows "att.keys_distinct (snd (fst (process_one w db j)))"
    and "j_id j \<noteq> i \<Longrightarrow> attempts_of (snd (fst (process_one w db j))) i = attempts_of (snd db) i"
proof -
  have "att.keys_distinct (snd (fst (process_one w db j))) \<and>
    (j_id j \<noteq> i \<longrightarrow> attempts_of (snd (fst (process_one w db j))) i = attempts_of (snd db) i)"
  proof (cases rule: process_one_cases [of w db j])
    case 1
    then show ?thesis using assms by simp
  next
    case (2 db1)
    then show ?thesis using settle_latest_frame [OF assms 2(1)] by simp
  next
    case (3 url db1)
    note s = settle_latest_frame [OF assms 3(1)]
    then show ?thesis using 3(2) attempt_delivery_frame [OF s(1)] by simp
  qed
  then show "att.keys_distinct (snd (fst (process_one w db j)))"
    "j_id j \<noteq> i \<Longrightarrow> attempts_of (snd (fst (process_one w db j))) i = attempts_of (snd db) i"
    by blast+
qed

text \<open>The attempts of a job once one of them was accepted.\<close>

definition accepted_on_top :: "webhook_db \<Rightarrow> string \<Rightarrow> bool" where
  "accepted_on_top db i \<longleftrightarrow> att.keys_distinct (snd db) \<and>
     (\<exists>a. get_latest_attempt (snd db) i = Some a \<and> a_status a = ASucceeded)"

lemma latest_of_attempts: "attempts_of ds i = attempts_of ds' i \<Longrightarrow> get_latest_attempt ds i = get_latest_attempt ds' i"
  by (simp add: get_latest_attempt_def)

lemma accepted_stays:
  assumes "accepted_on_top db i"
  shows "accepted_on_top (fst (process_one w db j)) i"
    and "attempts_of (snd (fst (process_one w db j))) i = attempts_of (snd db) i"
proof -
  have d: "att.keys_distinct (snd db)" using assms by (simp add: accepted_on_top_def)
  have *: "attempts_of (snd (fst (process_one w db j))) i = attempts_of (snd db) i"
  proof (cases "j_id j = i")
    case True
    then obtain a where "get_latest_attempt (snd db) (j_id j) = Some a" "a_status a = ASucceeded"
      using assms by (auto simp: accepted_on_top_def)
    then have "settle_latest db j (dw_now w) (get_latest_attempt (snd db) (j_id j)) =
      ((set_webhook_delivery_status (fst db) (j_id j) DSucceeded (dw_now w), snd db), False)"
      by (simp add: settle_latest_def)
    then show ?thesis by (cases rule: process_one_cases [of w db j]) auto
  next
    case False
    with process_one_frame(2) [OF d] show ?thesis by blast
  qed
  then show "attempts_of (snd (fst (process_one w db j))) i = attempts_of (snd db) i" .
  from * show "accepted_on_top (fst (process_one w db j)) i"
    using assms process_one_frame(1) [OF d, of w j] latest_of_attempts [OF *]
    by (simp add: accepted_on_top_def)
qed

lemma accepted_forever:
  "accepted_on_top db i \<Longrightarrow> attempts_of (snd (process_all db ps)) i = attempts_of (snd db) i"
  by (induction db ps rule: process_all.induct) (simp_all add: accepted_stays)

text \<open>The row with the greatest number is the latest.\<close>

lemma latest_is_top:
  assumes "attempts_ok ds" and "tbl_find a_id ds aid = Some a" and "a_job_id a = i"
    and "a_attempt_n a = int (length (attempts_of ds i))"
  shows "get_latest_attempt ds i = Some a"
proof -
  have a: "a \<in> set ds" using tbl_find_Some [OF assms(2)] by simp
  then have ne: "attempts_of ds i \<noteq> []" using assms(3) by (auto simp: filter_empty_conv)
  then obtain b where b: "get_latest_attempt ds i = Some b" using get_latest_None by fastforce
  have "distinct (map a_attempt_n (attempts_of ds i))"
    using assms(1) by (simp add: attempts_ok_def distinct_map del: upt_Suc)
  moreover have "a_attempt_n b = a_attempt_n a" using latest_number(1) [OF assms(1) b] assms(4) by simp
  ultimately have "b = a"
    using a assms(3) get_latest_Some(1,2) [OF b] by (auto simp: distinct_map inj_on_def)
  with b show ?thesis by simp
qed

lemma record_answer_length:
  "record_answer db j aid n ans later = Some db' \<Longrightarrow>
   length (attempts_of (snd db') i) = length (attempts_of (snd db) i)"
  by (cases ans) (auto simp: record_answer_def close_delivery_def Let_def split: if_splits)

lemma pass_opens_latest:
  assumes "attempts_ok (snd db)" and "att.keys_distinct (snd db)" and "snd (process_one w db j) = Returned (Some req)"
    and "tbl_find a_id (snd (fst (process_one w db j))) (dw_attempt_id w) = Some a" and "a_job_id a = j_id j"
    and "a_attempt_n a = int (Suc (length (attempts_of (snd db) (j_id j))))"
  shows "get_latest_attempt (snd (fst (process_one w db j))) (j_id j) = Some a"
proof -
  let ?ds = "snd (fst (process_one w db j))"
  have ok: "attempts_ok ?ds" using process_one_ok assms(1) by blast
  obtain url db1 where s: "settle_latest db j (dw_now w) (get_latest_attempt (snd db) (j_id j)) = (db1, True)"
    and p: "process_one w db j = attempt_delivery w db1 j url (get_latest_attempt (snd db) (j_id j))"
    using process_one_posted [of w db j req] assms(3) by metis
  have "attempt_delivery w db1 j url (get_latest_attempt (snd db) (j_id j)) = (fst (process_one w db j), Returned (Some req))"
    using assms(3) p by (simp add: prod_eq_iff)
  from attempt_delivery_returned [OF this] obtain ds b n where
    c: "create_attempt (snd db1) (dw_attempt_id w) (dw_now w) (j_id j) n None = Inr (ds, b)"
    and r: "record_answer (fst db1, set_attempt_delivering ds (dw_attempt_id w)) j (dw_attempt_id w) n
      (dw_post w) (dw_later w) = Some (fst (process_one w db j))" by metis
  have "length (attempts_of ?ds (j_id j)) = Suc (length (attempts_of (snd db1) (j_id j)))"
    using record_answer_length [OF r] create_attempt_Inr(3,5) [OF c] by simp
  then have "a_attempt_n a = int (length (attempts_of ?ds (j_id j)))"
    using assms(6) settle_latest_attempts(2) [OF s] by simp
  from latest_is_top [OF ok assms(4,5) this] show ?thesis .
qed

text \<open>
  A retry waits: after a pass whose delivery is to be retried at \<open>due\<close>, every pass over
  the job at an earlier time leaves both tables untouched and posts nothing.
\<close>

theorem retry_waits_until_due:
  assumes "attempts_ok (snd db)" and "att.keys_distinct (snd db)" and "get_by_id (fst db) (j_id j) = Some j0"
    and "process_one w db j = (db', Returned (Some req))"
    and "outcome_spec (dw_post w) (Suc (length (filter (\<lambda>a. a_job_id a = j_id j) (snd db)))) (dw_later w) =
      (AFailed, delivery, Some due)"
    and "dw_now w' < due"
  shows "process_one w' db' j = (db', Returned None)"
proof -
  have r: "snd (process_one w db j) = Returned (Some req)" using assms(4) by simp
  obtain url where u: "j_webhook_url j = Some url" "\<not> (j_mode j = Sync \<and> j_response_delivered j)"
    using process_one_posted [of w db j req] r by metis
  from pass_outcome [OF assms(1,3) r refl assms(5)] obtain a where
    a: "tbl_find a_id (snd db') (dw_attempt_id w) = Some a" "a_job_id a = j_id j" "a_status a = AFailed"
    "a_attempt_n a = int (Suc (length (attempts_of (snd db) (j_id j))))" "a_next_retry_at a = Some due"
    using assms(4) by auto
  have "get_latest_attempt (snd db') (j_id j) = Some a"
    using pass_opens_latest [OF assms(1,2) r _ a(2,4)] a(1) assms(4) by simp
  with u a(3,5) assms(6) show ?thesis by (auto simp: process_one_def settle_latest_def)
qed

text \<open>
  Once the receiver accepted a delivery (2xx) of a job, no later sequence of passes, over
  this or other jobs and in whatever surroundings, makes another attempt for that job or
  touches its attempts: a job is delivered successfully at most once.
\<close>

theorem accepted_delivery_is_final:
  assumes "attempts_ok (snd db)" and "att.keys_distinct (snd db)" and "get_by_id (fst db) (j_id j) = Some j0"
    and "process_one w db j = (db', Returned (Some req))" and "accepted_answer (dw_post w)"
  shows "filter (\<lambda>a. a_job_id a = j_id j) (snd (process_all db' passes)) =
    filter (\<lambda>a. a_job_id a = j_id j) (snd db')"
proof -
  have r: "snd (process_one w db j) = Returned (Some req)" using assms(4) by simp
  have "outcome_spec (dw_post w) (Suc (length (attempts_of (snd db) (j_id j)))) (dw_later w) = (ASucceeded, DSucceeded, None)"
    using assms(5) by (simp add: outcome_spec_def)
  from pass_outcome [OF assms(1,3) r refl this] obtain a where
    a: "tbl_find a_id (snd db') (dw_attempt_id w) = Some a" "a_job_id a = j_id j" "a_status a = ASucceeded"
    "a_attempt_n a = int (Suc (length (attempts_of (snd db) (j_id j))))"
    using assms(4) by auto
  have "get_latest_attempt (snd db') (j_id j) = Some a"
    using pass_opens_latest [OF assms(1,2) r _ a(2,4)] a(1) assms(4) by simp
  moreover have "att.keys_distinct (snd db')" using process_one_frame(1) [OF assms(2), of w j] assms(4) by simp
  ultimately have "accepted_on_top db' (j_id j)" using a(3) by (simp add: accepted_on_top_def)
  then show ?thesis by (rule accepted_forever)
qed

lemma demo_pass_pair:
  "process_one (demo_world (Response c body)) ([demo_candidate], []) demo_candidate =
    (fst (process_one (demo_world (Response c body)) ([demo_candidate], []) demo_candidate),
     Returned (Some (build_request (demo_world (Response c body)) demo_candidate ''https://h/w'' ''s1'')))"
  by (simp add: prod_eq_iff demo_posts)

lemma demo_pre:
  "attempts_ok (snd ([demo_candidate], []))" "att.keys_distinct (snd ([demo_candidate], []))"
  "get_by_id (fst ([demo_candidate], [])) (j_id demo_candidate) = Some demo_candidate"
  by (simp_all add: attempts_ok_def att.keys_distinct_def get_by_id_def tbl_find_def)

lemma demo_one_attempt:
  "length (attempts_of (snd (fst (process_one (demo_world (Response 200 [])) ([demo_candidate], [])
     demo_candidate))) ''gen_1'') = 1"
  unfolding demo_pass
  by (simp add: demo_world_def demo_candidate_fields attempt_delivery_def create_attempt_def tbl_insert_def
      demo_toctou demo_secret record_answer_def close_delivery_def complete_attempt_def
      set_attempt_delivering_def tbl_modify_def Let_def)

theorem accepted_delivery_is_final_witness:
  "length (filter (\<lambda>a. a_job_id a = ''gen_1'') (snd (process_all
     (fst (process_one (demo_world (Response 200 [])) ([demo_candidate], []) demo_candidate))
     [(demo_world (Response 200 []), demo_candidate)]))) = 1"
proof -
  let ?db = "fst (process_one (demo_world (Response 200 [])) ([demo_candidate], []) demo_candidate)"
  let ?ps = "[(demo_world (Response 200 []), demo_candidate)]"
  have "accepted_answer (dw_post (demo_world (Response 200 [])))"
    by (simp add: demo_world_def accepted_answer_def)
  from accepted_delivery_is_final [OF demo_pre demo_pass_pair [of 200 "[]"] this, of ?ps]
  have "attempts_of (snd (process_all ?db ?ps)) ''gen_1'' = attempts_of (snd ?db) ''gen_1''"
    by (simp only: demo_candidate_fields)
  then show ?thesis by (simp only: demo_one_attempt)
qed

theorem retry_waits_until_due_witness:
  "snd (process_one (demo_world (Response 200 []))
     (fst (process_one (demo_world (Response 503 [])) ([demo_candidate], []) demo_candidate))
     demo_candidate) = Returned None"
  using retry_waits_until_due [OF demo_pre demo_pass_pair [of 503 "[]"], of DPending 60000200
      "demo_world (Response 200 [])"]
  by (simp add: outcome_spec_def accepted_answer_def transient_answer_def demo_world_def)

definition last_attempt :: attempt where
  "last_attempt = \<lparr>a_id = ''a5'', a_job_id = ''gen_1'', a_attempt_n = 5, a_status = ADelivering,
     a_status_code = None, a_response_body_snippet = None, a_error = None, a_error_code = None,
     a_next_retry_at = None, a_created_at = 5, a_completed_at = None\<rparr>"

lemma settle_wedged:
  assumes "get_latest_attempt ds (j_id j) = Some a" and "a_attempt_n a = 5"
    and "a_status a \<in> {APending, ADelivering, AFailed}" and "a_next_retry_at a = None"
  shows "\<exists>ds' a'. settle_latest (t, ds) j now (Some a) = ((t, ds'), True) \<and>
    get_latest_attempt ds' (j_id j) = Some a' \<and> a_attempt_n a' = 5 \<and>
    a_status a' \<in> {APending, ADelivering, AFailed} \<and> a_next_retry_at a' = None"
proof (cases "a_status a = AFailed")
  case True
  then show ?thesis using assms by (auto simp: settle_latest_def)
next
  case False
  then show ?thesis
    using assms by (auto simp: settle_latest_def complete_attempt_def get_latest_modify)
qed

lemma wedged_pass:
  assumes "get_latest_attempt ds (j_id j) = Some a" and "a_attempt_n a = 5"
    and "a_status a \<in> {APending, ADelivering, AFailed}" and "a_next_retry_at a = None"
    and "j_webhook_url j = Some url" and "\<not> (j_mode j = Sync \<and> j_response_delivered j)"
  shows "\<exists>ds' a'. process_one w (t, ds) j = ((t, ds'), Raised None) \<and>
    get_latest_attempt ds' (j_id j) = Some a' \<and> a_attempt_n a' = 5 \<and>
    a_status a' \<in> {APending, ADelivering, AFailed} \<and> a_next_retry_at a' = None"
proof -
  from settle_wedged [OF assms(1-4)] obtain ds' a' where
    s: "settle_latest (t, ds) j (dw_now w) (Some a) = ((t, ds'), True)"
    "get_latest_attempt ds' (j_id j) = Some a'" "a_attempt_n a' = 5"
    "a_status a' \<in> {APending, ADelivering, AFailed}" "a_next_retry_at a' = None" by metis
  have "process_one w (t, ds) j = attempt_delivery w (t, ds') j url (Some a)"
    using assms(1,5,6) s(1) by (auto simp: process_one_def)
  then have "process_one w (t, ds) j = ((t, ds'), Raised None)"
    using assms(2) by (simp add: attempt_delivery_def create_attempt_def)
  with s(2-5) show ?thesis by blast
qed

text \<open>
  A fifth attempt that was interrupted (left \<open>pending\<close> or \<open>delivering\<close> by a crash or by
  an exception of the HTTP client) is never resolved: every later pass opens attempt number
  6, which the CHECK constraint of the table refuses, so the pass ends in an
  \<open>IntegrityError\<close>; the job's row, with its pending delivery status, never changes and
  stays a candidate of every scan.
\<close>

theorem interrupted_last_attempt_wedges:
  assumes "get_latest_attempt ds (j_id j) = Some a" and "a_attempt_n a = 5"
    and "a_status a \<in> {APending, ADelivering}" and "a_next_retry_at a = None"
    and "j_webhook_url j = Some url" and "\<not> (j_mode j = Sync \<and> j_response_delivered j)"
  shows "fst (process_all (t, ds) (map (\<lambda>w. (w, j)) ws)) = t \<and>
    snd (process_one w (process_all (t, ds) (map (\<lambda>w. (w, j)) ws)) j) = Raised None"
proof -
  have st: "a_status a \<in> {APending, ADelivering, AFailed}" using assms(3) by blast
  show ?thesis using assms(1,2) st assms(4)
  proof (induction ws arbitrary: ds a)
    case Nil
    from wedged_pass [OF Nil assms(5,6), of w t] show ?case by auto
  next
    case (Cons v ws)
    from wedged_pass [OF Cons.prems assms(5,6), of v t] Cons.IH show ?case by fastforce
  qed
qed

theorem interrupted_last_attempt_wedges_witness:
  "fst (process_all ([demo_candidate], [last_attempt])
     (map (\<lambda>w. (w, demo_candidate)) [demo_world (Response 200 [])])) = [demo_candidate]"
proof -
  have "get_latest_attempt [last_attempt] (j_id demo_candidate) = Some last_attempt"
    by (simp add: get_latest_attempt_def last_attempt_def demo_candidate_fields)
  moreover have "a_attempt_n last_attempt = 5" "a_status last_attempt \<in> {APending, ADelivering}"
    "a_next_retry_at last_attempt = None" by (simp_all add: last_attempt_def)
  moreover have "j_webhook_url demo_candidate = Some ''https://h/w''"
    "\<not> (j_mode demo_candidate = Sync \<and> j_response_delivered demo_candidate)"
    by (simp_all add: demo_candidate_fields)
  ultimately show ?thesis
    using interrupted_last_attempt_wedges [of "[last_attempt]" demo_candidate last_attempt "''https://h/w''"
        "[demo_candidate]" "[demo_world (Response 200 [])]"] by blast
qed

end
