(* ===== verification/Workflow_Graph.thy ===== *)
theory Workflow_Graph
  imports Prelude
begin

text \<open>
  \<open>app/registry/workflows.py\<close>: a ComfyUI prompt graph, the anchors declared in its node
  titles, and the injectors that write a job's parameters into a copy of the template.
  A graph maps node ids to nodes in document order; a link to output \<open>s\<close> of node \<open>i\<close> is the
  two-element list \<open>[i, s]\<close> among a node's inputs. The injectors mutate the graph in place;
  the model returns the new graph, and an exception as a value of \<open>workflow_error\<close> (the
  half-patched copy is dropped by the caller). Also \<open>ModelConfig\<close> of \<open>app/backends/base.py\<close>.
\<close>

section \<open>Model configuration\<close>

record model_config =
  mc_name :: string
  mc_backend :: string
  mc_workflow_path :: string
  mc_checkpoint :: string
  mc_vae :: "string option"
  mc_vram_estimate_gb :: rat
  mc_clip_l :: "string option"
  mc_t5xxl :: "string option"
  mc_dual_clip_type :: "string option"
  mc_clip_loader_type :: "string option"
  mc_family :: string
  mc_prediction :: string
  mc_capabilities :: pydict
  mc_defaults :: pydict
  mc_limits :: pydict
  mc_wan_t5_encoder :: "string option"
  mc_wan_clip_vision :: "string option"
  mc_wan_unet_low :: "string option"
  mc_skip_asset_validation :: bool
  mc_default_loras :: "pydict list"
  mc_workflow_with_audio :: "string option"
  mc_mmaudio_vae :: "string option"
  mc_mmaudio_synchformer :: "string option"
  mc_mmaudio_clip :: "string option"
  mc_mmaudio_diffusion :: "string option"
  mc_ltxv_text_encoder :: "string option"

text \<open>An optional path that is \<open>None\<close> or empty is false.\<close>

definition path_set :: "string option \<Rightarrow> string option" where
  "path_set p = (case p of None \<Rightarrow> None | Some s \<Rightarrow> if s = [] then None else Some s)"

section \<open>Graphs\<close>

type_synonym node = pydict
type_synonym graph = "(string \<times> node) list"

text \<open>
  The exceptions: \<open>WorkflowValidationError\<close> with the reason (\<open>AnchorProblems\<close> lists the missing
  and the duplicated anchors), \<open>KeyError\<close> of \<open>find_anchor\<close>, \<open>AttributeError\<close> on a \<open>_meta\<close> that
  is no object, \<open>NotImplementedError\<close>.
\<close>

datatype workflow_error =
    WorkflowValidationError string
  | AnchorProblems "string list" "(string \<times> string list) list"
  | AnchorNotFound string
  | AttributeError
  | NotImplementedError

record lora_ref =
  lr_name :: string
  lr_weight :: rat

definition required_anchors_sdxl :: "string list" where
  "required_anchors_sdxl = [''%MODEL_SOURCE%'', ''%CLIP_SOURCE%'', ''%LORA_INSERT%'',
     ''%POSITIVE_PROMPT%'', ''%NEGATIVE_PROMPT%'', ''%KSAMPLER%'', ''%OUTPUT%'']"

definition required_anchors_flux :: "string list" where
  "required_anchors_flux = [''%MODEL_SOURCE%'', ''%CLIP_SOURCE%'', ''%LORA_INSERT%'',
     ''%POSITIVE_PROMPT%'', ''%NEGATIVE_PROMPT%'', ''%KSAMPLER%'', ''%OUTPUT%'']"

definition base_anchors_wan22 :: "string list" where
  "base_anchors_wan22 = [''%WAN_T5%'', ''%WAN_POSITIVE%'', ''%WAN_NEGATIVE%'', ''%WAN_DIMS%'',
     ''%WAN_MODEL%'', ''%WAN_SHIFT%'', ''%WAN_MODEL_LOW%'', ''%WAN_SHIFT_LOW%'', ''%WAN_VAE%'',
     ''%WAN_SAMPLER%'', ''%WAN_NAG_SAMPLER%'', ''%WAN_DECODE%'', ''%VIDEO_OUTPUT%'']"

definition wan_max_loras :: nat where
  "wan_max_loras = 5"

definition required_anchors_for_video_task :: "string \<Rightarrow> workflow_error + string list" where
  "required_anchors_for_video_task task =
     (if task = ''i2v'' then Inr (base_anchors_wan22 @ [''%INIT_IMAGE%''])
      else if task = ''t2v'' then Inr base_anchors_wan22
      else Inl (WorkflowValidationError ''unknown video_task''))"

definition mmaudio_anchors_wan22 :: "string list" where
  "mmaudio_anchors_wan22 = [''%MMAUDIO_FEATURE_UTILS%'', ''%MMAUDIO_DIFFUSION%'', ''%MMAUDIO_SAMPLER%'']"

definition required_anchors_for_wan22_audio_task :: "string \<Rightarrow> workflow_error + string list" where
  "required_anchors_for_wan22_audio_task task =
     bind_r (required_anchors_for_video_task task) (\<lambda>as. Inr (as @ mmaudio_anchors_wan22))"

definition required_anchors_ltxv :: "string list" where
  "required_anchors_ltxv = [''%LTXV_CHECKPOINT%'', ''%LTXV_TEXT_ENCODER%'', ''%LTXV_VIDEO_VAE%'',
     ''%LTXV_POSITIVE%'', ''%LTXV_NEGATIVE%'', ''%LTXV_SEED%'', ''%LTXV_FRAMES%'',
     ''%LTXV_OUTPUT%'', ''%INIT_IMAGE%'']"

definition required_anchors_for_ltxv_task :: "string \<Rightarrow> workflow_error + string list" where
  "required_anchors_for_ltxv_task task =
     (if task \<in> {''t2v'', ''i2v''} then Inr required_anchors_ltxv
      else Inl (WorkflowValidationError ''unknown video_task''))"

definition required_anchors_for_family :: "string \<Rightarrow> string list" where
  "required_anchors_for_family family =
     (if family = ''flux'' then required_anchors_flux else required_anchors_sdxl)"

text \<open>What reading the file gives.\<close>

datatype file_read = FileMissing | FileUnreadable | FileText json_text

text \<open>
  \<open>load_workflow\<close> only asks for an object; a node that is no object fails with
  \<open>AttributeError\<close> in the first \<open>node.get\<close> over the graph, here already when it is loaded.
\<close>

definition load_workflow :: "file_read \<Rightarrow> workflow_error + graph" where
  "load_workflow r = (case r of
     FileMissing \<Rightarrow> Inl (WorkflowValidationError ''workflow file not found'')
   | FileUnreadable \<Rightarrow> Inl (WorkflowValidationError ''workflow file unreadable'')
   | FileText None \<Rightarrow> Inl (WorkflowValidationError ''workflow is not valid JSON'')
   | FileText (Some v) \<Rightarrow>
       (case v of
          VDict d \<Rightarrow> map_r (\<lambda>(i, n). if is_dict n then Inr (i, dict_of n) else Inl AttributeError) d
        | _ \<Rightarrow> Inl (WorkflowValidationError ''workflow must be an object'')))"

section \<open>Anchors\<close>

definition is_anchor :: "string \<Rightarrow> bool" where
  "is_anchor p \<longleftrightarrow> starts_with ''%'' p \<and> ends_with ''%'' p"

definition title_anchors :: "node \<Rightarrow> workflow_error + string list" where
  "title_anchors n =
     (let meta = py_or (dict_get n ''_meta'') (VDict []) in
      if \<not> is_dict meta then Inl AttributeError
      else (case dict_get (dict_of meta) ''title'' of
              VStr title \<Rightarrow> Inr (filter is_anchor (map strip (split_on (CHR '','') title)))
            | _ \<Rightarrow> Inr []))"

definition anchor_owners :: "graph \<Rightarrow> workflow_error + (string \<times> string) list" where
  "anchor_owners g = bind_r
     (map_r (\<lambda>(i, n). bind_r (title_anchors n) (\<lambda>as. Inr (map (\<lambda>a. (a, i)) as))) g)
     (\<lambda>oss. Inr (concat oss))"

definition owners_of :: "(string \<times> string) list \<Rightarrow> string \<Rightarrow> string list" where
  "owners_of os a = map snd (filter (\<lambda>p. fst p = a) os)"

definition validate_anchors :: "graph \<Rightarrow> string list \<Rightarrow> workflow_error + unit" where
  "validate_anchors g required = bind_r (anchor_owners g) (\<lambda>os.
     let missing = filter (\<lambda>a. owners_of os a = []) required;
         duplicated = map (\<lambda>a. (a, owners_of os a)) (filter (\<lambda>a. 1 < length (owners_of os a)) required)
     in if missing \<noteq> [] \<or> duplicated \<noteq> [] then Inl (AnchorProblems missing duplicated) else Inr ())"

fun find_anchor :: "graph \<Rightarrow> string \<Rightarrow> workflow_error + string" where
  "find_anchor [] a = Inl (AnchorNotFound a)"
| "find_anchor ((i, n) # g) a = bind_r (title_anchors n) (\<lambda>as.
     if a \<in> set as then Inr i else find_anchor g a)"

text \<open>The two ways a caller treats \<open>KeyError\<close>: re-raised as invalid, or the anchor is optional.\<close>

definition require_anchor :: "string \<Rightarrow> graph \<Rightarrow> string \<Rightarrow> workflow_error + string" where
  "require_anchor who g a = (case find_anchor g a of
     Inl (AnchorNotFound _) \<Rightarrow> Inl (WorkflowValidationError who) | r \<Rightarrow> r)"

definition optional_anchor :: "graph \<Rightarrow> string \<Rightarrow> workflow_error + string option" where
  "optional_anchor g a = (case find_anchor g a of
     Inl (AnchorNotFound _) \<Rightarrow> Inr None | Inl e \<Rightarrow> Inl e | Inr i \<Rightarrow> Inr (Some i))"

section \<open>Nodes and their inputs\<close>

text \<open>\<open>Path(ref).name\<close>: the last component that is not empty and not a dot.\<close>

definition basename :: "string \<Rightarrow> string" where
  "basename p = (case rev (filter (\<lambda>c. c \<noteq> [] \<and> c \<noteq> ''.'') (split_on (CHR ''/'') p)) of
     [] \<Rightarrow> [] | c # _ \<Rightarrow> c)"

definition node_at :: "graph \<Rightarrow> string \<Rightarrow> node" where
  "node_at g i = (case map_of g i of None \<Rightarrow> [] | Some n \<Rightarrow> n)"

definition class_of :: "graph \<Rightarrow> string \<Rightarrow> pyval" where
  "class_of g i = dict_get (node_at g i) ''class_type''"

definition node_inputs :: "node \<Rightarrow> pydict option" where
  "node_inputs n = (case dict_get n ''inputs'' of VDict ins \<Rightarrow> Some ins | _ \<Rightarrow> None)"

definition get_inputs :: "string \<Rightarrow> graph \<Rightarrow> string \<Rightarrow> workflow_error + pydict" where
  "get_inputs who g i = (case node_inputs (node_at g i) of
     None \<Rightarrow> Inl (WorkflowValidationError who) | Some ins \<Rightarrow> Inr ins)"

definition set_inputs :: "pydict \<Rightarrow> node \<Rightarrow> node" where
  "set_inputs ins n = dict_set ''inputs'' (VDict ins) n"

definition put_inputs :: "graph \<Rightarrow> string \<Rightarrow> pydict \<Rightarrow> graph" where
  "put_inputs g i ins = map (\<lambda>(k, n). (k, if k = i then set_inputs ins n else n)) g"

text \<open>Fetch a node's inputs, which must be an object, and write some of them.\<close>

definition patch_inputs :: "string \<Rightarrow> (pydict \<Rightarrow> pydict) \<Rightarrow> string \<Rightarrow> graph \<Rightarrow> workflow_error + graph" where
  "patch_inputs who f i g = bind_r (get_inputs who g i) (\<lambda>ins. Inr (put_inputs g i (f ins)))"

definition set_str :: "string \<Rightarrow> string \<Rightarrow> pydict \<Rightarrow> pydict" where
  "set_str k s = dict_set k (VStr s)"

section \<open>Image models\<close>

definition set_vae_loaders :: "string \<Rightarrow> graph \<Rightarrow> graph" where
  "set_vae_loaders vae_name g = map (\<lambda>(i, n).
     (i, case node_inputs n of
           Some ins \<Rightarrow> if dict_get n ''class_type'' = VStr ''VAELoader'' \<and> ''vae_name'' \<in> fst ` set ins
                       then set_inputs (set_str ''vae_name'' vae_name ins) n else n
         | None \<Rightarrow> n)) g"

definition inject_checkpoint :: "graph \<Rightarrow> string \<Rightarrow> string \<Rightarrow> workflow_error + graph" where
  "inject_checkpoint g m ckpt_name = bind_r (get_inputs ''inject_model_source'' g m) (\<lambda>ins.
     if class_of g m = VStr ''CheckpointLoaderSimple''
     then Inr (put_inputs g m (set_str ''ckpt_name'' ckpt_name ins))
     else if class_of g m = VStr ''UnetLoaderGGUF''
     then Inr (put_inputs g m (set_str ''unet_name'' ckpt_name ins))
     else Inl (WorkflowValidationError ''inject_model_source: unsupported model source class''))"

definition inject_clip :: "graph \<Rightarrow> string \<Rightarrow> model_config \<Rightarrow> workflow_error + graph" where
  "inject_clip g c cfg = bind_r (get_inputs ''inject_model_source'' g c) (\<lambda>ins.
     if class_of g c = VStr ''DualCLIPLoader'' then
       (case (path_set (mc_clip_l cfg), path_set (mc_t5xxl cfg)) of
          (Some clip_l, Some t5xxl) \<Rightarrow>
            (let ins = set_str ''clip_name2'' (basename t5xxl) (set_str ''clip_name1'' (basename clip_l) ins)
             in Inr (put_inputs g c (case path_set (mc_dual_clip_type cfg) of
                  None \<Rightarrow> ins | Some ty \<Rightarrow> set_str ''type'' ty ins)))
        | _ \<Rightarrow> Inl (WorkflowValidationError ''DualCLIPLoader requires clip_l and t5xxl''))
     else if class_of g c = VStr ''CLIPLoader'' then
       (case path_set (mc_clip_l cfg) of
          None \<Rightarrow> Inl (WorkflowValidationError ''CLIPLoader requires clip_l'')
        | Some clip_l \<Rightarrow>
            (let te_type = strip (case mc_clip_loader_type cfg of None \<Rightarrow> [] | Some t \<Rightarrow> t) in
             if te_type = [] then Inl (WorkflowValidationError ''CLIPLoader requires clip_loader_type'')
             else Inr (put_inputs g c (set_str ''type'' te_type (set_str ''clip_name'' (basename clip_l) ins)))))
     else Inr g)"

definition inject_model_source :: "graph \<Rightarrow> model_config \<Rightarrow> workflow_error + graph" where
  "inject_model_source g cfg =
     bind_r (require_anchor ''inject_model_source'' g ''%MODEL_SOURCE%'') (\<lambda>m.
     bind_r (require_anchor ''inject_model_source'' g ''%CLIP_SOURCE%'') (\<lambda>c.
     bind_r (inject_checkpoint g m (basename (mc_checkpoint cfg))) (\<lambda>g.
     bind_r (inject_clip g c cfg) (\<lambda>g.
     Inr (case path_set (mc_vae cfg) of None \<Rightarrow> g | Some vae \<Rightarrow> set_vae_loaders (basename vae) g)))))"

definition inject_vpred :: "graph \<Rightarrow> model_config \<Rightarrow> workflow_error + graph" where
  "inject_vpred g cfg = (if mc_prediction cfg = ''vpred'' then Inl NotImplementedError else Inr g)"

section \<open>The LoRA chain\<close>

abbreviation link :: "string \<Rightarrow> int \<Rightarrow> pyval" where
  "link i s \<equiv> VList [VStr i, VInt s]"

text \<open>Is a value a two-element list \<open>[source_id, s]\<close> with \<open>s == slot\<close>?\<close>

fun links_to :: "string \<Rightarrow> int \<Rightarrow> pyval \<Rightarrow> bool" where
  "links_to src slot (VList [a, b]) \<longleftrightarrow> a = VStr src \<and> eq_int b slot"
| "links_to src slot _ \<longleftrightarrow> False"

definition rewrite_value :: "string \<Rightarrow> int \<Rightarrow> string \<Rightarrow> int \<Rightarrow> pyval \<Rightarrow> pyval" where
  "rewrite_value src slot new_id new_slot v = (if links_to src slot v then link new_id new_slot else v)"

definition rewrite_node :: "(pyval \<Rightarrow> pyval) \<Rightarrow> node \<Rightarrow> node" where
  "rewrite_node f n = (case node_inputs n of
     Some ins \<Rightarrow> set_inputs (map (\<lambda>(k, v). (k, f v)) ins) n | None \<Rightarrow> n)"

definition rewrite_inputs :: "graph \<Rightarrow> string \<Rightarrow> int \<Rightarrow> string \<Rightarrow> int \<Rightarrow> string list \<Rightarrow> graph" where
  "rewrite_inputs g src slot new_id new_slot skip_ids =
     map (\<lambda>(i, n). (i, if i \<in> set skip_ids then n
                       else rewrite_node (rewrite_value src slot new_id new_slot) n)) g"

fun slot_from :: "string \<Rightarrow> pyval \<Rightarrow> int option" where
  "slot_from src (VList [a, b]) = (if a = VStr src then as_int b else None)"
| "slot_from src _ = None"

definition infer_output_slot :: "graph \<Rightarrow> string \<Rightarrow> int \<Rightarrow> int" where
  "infer_output_slot g src fallback =
     (let seen = remdups (concat (map (\<lambda>(i, n). case node_inputs n of
            None \<Rightarrow> [] | Some ins \<Rightarrow> List.map_filter (\<lambda>(k, v). slot_from src v) ins) g))
      in case seen of [s] \<Rightarrow> s | _ \<Rightarrow> fallback)"

text \<open>One more than the greatest numeric id, \<open>first\<close> when there is none.\<close>

definition next_node_id :: "nat \<Rightarrow> graph \<Rightarrow> nat" where
  "next_node_id first g =
     (let int_keys = map nat_of_digits (filter all_digits (map fst g))
      in if int_keys = [] then first else foldr max int_keys 0 + 1)"

definition lora_node :: "lora_ref \<Rightarrow> pyval \<Rightarrow> pyval \<Rightarrow> node" where
  "lora_node l model clip =
     [(''class_type'', VStr ''LoraLoader''),
      (''inputs'', VDict [(''lora_name'', VStr (lr_name l @ ''.safetensors'')),
                          (''strength_model'', VFloat (lr_weight l)),
                          (''strength_clip'', VFloat (lr_weight l)),
                          (''model'', model), (''clip'', clip)]),
      (''_meta'', VDict [(''title'', VStr (''lora:'' @ lr_name l))])]"

fun add_lora_nodes :: "nat \<Rightarrow> pyval \<Rightarrow> pyval \<Rightarrow> lora_ref list \<Rightarrow> graph \<Rightarrow> graph \<times> string list" where
  "add_lora_nodes next_id model clip [] g = (g, [])"
| "add_lora_nodes next_id model clip (l # ls) g =
     (let i = show_nat next_id;
          (g', ids) = add_lora_nodes (next_id + 1) (link i 0) (link i 1) ls
                        (dict_set i (lora_node l model clip) g)
      in (g', i # ids))"

definition inject_loras :: "graph \<Rightarrow> lora_ref list \<Rightarrow> workflow_error + graph" where
  "inject_loras g loras =
     (if loras = [] then Inr g else
      bind_r (require_anchor ''inject_loras'' g ''%MODEL_SOURCE%'') (\<lambda>m.
      bind_r (require_anchor ''inject_loras'' g ''%CLIP_SOURCE%'') (\<lambda>c.
        let ms = infer_output_slot g m 0;
            cs = infer_output_slot g c 1;
            (g1, ids) = add_lora_nodes (next_node_id 1 g) (link m ms) (link c cs) loras g;
            g2 = rewrite_inputs g1 m ms (last ids) 0 ids
        in Inr (rewrite_inputs g2 c cs (last ids) 1 ids))))"

section \<open>Shape\<close>

text \<open>Two graphs with the same ids in the same order that differ in node inputs only.\<close>

definition same_shape :: "graph \<Rightarrow> graph \<Rightarrow> bool" where
  "same_shape g g' \<longleftrightarrow> list_all2 (\<lambda>p q. fst q = fst p \<and>
     (\<forall>k. k \<noteq> ''inputs'' \<longrightarrow> map_of (snd q) k = map_of (snd p) k)) g g'"

lemma same_shape_refl [simp]: "same_shape g g"
  by (simp add: same_shape_def list.rel_refl)

lemma same_shape_trans [trans]: "same_shape g h \<Longrightarrow> same_shape h k \<Longrightarrow> same_shape g k"
  unfolding same_shape_def by (erule (1) list_all2_trans [rotated]) simp

lemma same_shape_ids: "same_shape g g' \<Longrightarrow> map fst g' = map fst g"
  unfolding same_shape_def by (induction rule: list_all2_induct) auto

lemma title_anchors_cong: "map_of n ''_meta'' = map_of n' ''_meta'' \<Longrightarrow> title_anchors n = title_anchors n'"
  by (simp add: title_anchors_def dict_get_def)

lemma same_shape_find: "same_shape g g' \<Longrightarrow> find_anchor g' a = find_anchor g a"
  unfolding same_shape_def
proof (induction rule: list_all2_induct)
  case (Cons p g q g')
  obtain i n where p: "p = (i, n)" by (cases p)
  obtain n' where q: "q = (i, n')" using Cons p by (cases q) auto
  have "title_anchors n' = title_anchors n" using Cons p q by (intro title_anchors_cong) simp
  with Cons p q show ?case by (simp cong: if_cong)
qed simp

lemma same_shape_class: "same_shape g g' \<Longrightarrow> class_of g' i = class_of g i"
  unfolding same_shape_def class_of_def node_at_def
  by (induction rule: list_all2_induct) (auto simp: dict_get_def)

lemma same_shape_optional: "same_shape g g' \<Longrightarrow> optional_anchor g' a = optional_anchor g a"
  by (simp add: optional_anchor_def same_shape_find)

lemma same_shape_map:
  assumes "\<And>i n k. k \<noteq> ''inputs'' \<Longrightarrow> map_of (f i n) k = map_of n k"
  shows "same_shape g (map (\<lambda>(i, n). (i, f i n)) g)"
  using assms by (auto simp: same_shape_def list_all2_conv_all_nth split_beta)

lemma set_inputs_other [simp]: "k \<noteq> ''inputs'' \<Longrightarrow> map_of (set_inputs ins n) k = map_of n k"
  by (simp add: set_inputs_def)

lemma set_inputs_inputs [simp]: "node_inputs (set_inputs ins n) = Some ins"
  by (simp add: set_inputs_def node_inputs_def dict_get_def)

lemma set_inputs_twice [simp]: "set_inputs ins (set_inputs ins' n) = set_inputs ins n"
  by (simp add: set_inputs_def)

lemma put_inputs_shape [simp]: "same_shape g (put_inputs g i ins)"
  unfolding put_inputs_def by (rule same_shape_map) simp

lemma patch_inputs_shape: "patch_inputs who f i g = Inr g' \<Longrightarrow> same_shape g g'"
  by (auto simp: patch_inputs_def bind_r_Inr)

lemma inject_model_source_shape: "inject_model_source g cfg = Inr g' \<Longrightarrow> same_shape g g'"
proof -
  assume "inject_model_source g cfg = Inr g'"
  then obtain m c g1 g2 where
    1: "inject_checkpoint g m (basename (mc_checkpoint cfg)) = Inr g1" and
    2: "inject_clip g1 c cfg = Inr g2" and
    3: "g' = (case path_set (mc_vae cfg) of None \<Rightarrow> g2 | Some vae \<Rightarrow> set_vae_loaders (basename vae) g2)"
    by (auto simp: inject_model_source_def bind_r_Inr)
  from 1 have "same_shape g g1" by (auto simp: inject_checkpoint_def bind_r_Inr split: if_splits)
  also from 2 have "same_shape g1 g2"
    by (auto simp: inject_clip_def bind_r_Inr Let_def split: if_splits option.splits)
  also have "same_shape g2 (set_vae_loaders v g2)" for v
    unfolding set_vae_loaders_def by (rule same_shape_map) (auto split: option.splits)
  then have "same_shape g2 g'" using 3 by (auto split: option.splits)
  finally show ?thesis .
qed

section \<open>Fresh ids\<close>

lemma foldr_max_ge: "(x::nat) \<in> set xs \<Longrightarrow> x \<le> foldr max xs 0"
  by (induction xs) (auto simp: le_max_iff_disj)

lemma next_node_id_fresh:
  assumes "next_node_id first g \<le> k"
  shows "show_nat k \<notin> fst ` set g"
proof
  assume "show_nat k \<in> fst ` set g"
  then have "k \<in> set (map nat_of_digits (filter all_digits (map fst g)))"
    by (force simp: show_nat_digits nat_of_digits_show image_iff intro: rev_bexI)
  then have "map nat_of_digits (filter all_digits (map fst g)) \<noteq> []"
    and "k \<le> foldr max (map nat_of_digits (filter all_digits (map fst g))) 0"
    by (fastforce simp del: filter_empty_conv, intro foldr_max_ge)
  then have "k < next_node_id first g"
    by (simp add: next_node_id_def Let_def del: filter_empty_conv)
  with assms show False by simp
qed

lemma dict_set_fresh: "k \<notin> fst ` set d \<Longrightarrow> dict_set k v d = d @ [(k, v)]"
  by (induction d) auto

section \<open>The chain\<close>

text \<open>The nodes of the chain in order, and the link its end offers.\<close>

fun lora_chain :: "nat \<Rightarrow> pyval \<Rightarrow> pyval \<Rightarrow> lora_ref list \<Rightarrow> graph" where
  "lora_chain k model clip [] = []"
| "lora_chain k model clip (l # ls) =
     (show_nat k, lora_node l model clip) # lora_chain (k + 1) (link (show_nat k) 0) (link (show_nat k) 1) ls"

lemma lora_chain_ids: "map fst (lora_chain k model clip ls) = map show_nat [k..<k + length ls]"
  by (induction k model clip ls rule: lora_chain.induct) (simp_all add: upt_conv_Cons del: upt_Suc)

lemma add_lora_nodes_chain:
  assumes "\<And>j. k \<le> j \<Longrightarrow> show_nat j \<notin> fst ` set g"
  shows "add_lora_nodes k model clip ls g =
    (g @ lora_chain k model clip ls, map show_nat [k..<k + length ls])"
  using assms
proof (induction ls arbitrary: k model clip g)
  case (Cons l ls)
  let ?g = "g @ [(show_nat k, lora_node l model clip)]"
  have "dict_set (show_nat k) (lora_node l model clip) g = ?g"
    using Cons.prems [of k] by (simp add: dict_set_fresh)
  moreover have "show_nat j \<notin> fst ` set ?g" if "k + 1 \<le> j" for j
    using Cons.prems [of j] that by (auto simp: show_nat_inject)
  ultimately show ?case using Cons.IH [of "k + 1" ?g] by (simp add: upt_conv_Cons Let_def del: upt_Suc)
qed simp

text \<open>Following the input \<open>inp\<close> back from a link to output \<open>out\<close> of a LoRA node, \<open>k\<close> times.\<close>

fun walk_back :: "string \<Rightarrow> int \<Rightarrow> string \<Rightarrow> nat \<Rightarrow> graph \<Rightarrow> pyval \<Rightarrow> pyval list \<times> pyval" where
  "walk_back inp out cls 0 g v = ([], v)"
| "walk_back inp out cls (Suc k) g v = (case v of
     VList [VStr i, VInt s] \<Rightarrow>
       if s = out \<and> class_of g i = VStr cls then
         (case node_inputs (node_at g i) of
            Some ins \<Rightarrow> (let (names, e) = walk_back inp out cls k g (dict_get ins inp)
                        in (dict_get ins ''lora_name'' # names, e))
          | None \<Rightarrow> ([], v))
       else ([], v)
   | _ \<Rightarrow> ([], v))"

lemma node_at_append: "i \<notin> fst ` set g \<Longrightarrow> node_at (g @ h) i = node_at h i"
  by (simp add: node_at_def map_add_def map_of_append split: option.splits)
    (metis map_of_eq_None_iff not_Some_eq)

lemma lora_node_fields [simp]:
  "dict_get (lora_node l m c) ''class_type'' = VStr ''LoraLoader''"
  "node_inputs (lora_node l m c) = Some [(''lora_name'', VStr (lr_name l @ ''.safetensors'')),
     (''strength_model'', VFloat (lr_weight l)), (''strength_clip'', VFloat (lr_weight l)),
     (''model'', m), (''clip'', c)]"
  by (simp_all add: lora_node_def node_inputs_def dict_get_def)

lemma lora_chain_node:
  "n < length ls \<Longrightarrow> node_at (lora_chain k model clip ls) (show_nat (k + n)) =
     lora_node (ls ! n) (if n = 0 then model else link (show_nat (k + n - 1)) 0)
       (if n = 0 then clip else link (show_nat (k + n - 1)) 1)"
proof (induction ls arbitrary: k model clip n)
  case (Cons l ls)
  show ?case
  proof (cases n)
    case 0
    then show ?thesis by (simp add: node_at_def)
  next
    case (Suc n')
    have "node_at (lora_chain k model clip (l # ls)) (show_nat (k + n)) =
      node_at (lora_chain (k + 1) (link (show_nat k) 0) (link (show_nat k) 1) ls) (show_nat ((k + 1) + n'))"
      using Suc by (simp add: node_at_def show_nat_inject)
    then show ?thesis using Cons.IH [of n' "k + 1"] Cons.prems Suc by (cases n') simp_all
  qed
qed simp



lemma walk_model_step:
  assumes "node_at g (show_nat (k + n)) = lora_node l (if n = 0 then model else link (show_nat (k + n - 1)) 0) c"
  shows "walk_back ''model'' 0 ''LoraLoader'' (Suc n) g (link (show_nat (k + n)) 0) =
    (let (names, e) = walk_back ''model'' 0 ''LoraLoader'' n g
        (if n = 0 then model else link (show_nat (k + n - 1)) 0)
     in (VStr (lr_name l @ ''.safetensors'') # names, e))"
  using assms by (simp add: class_of_def)

lemma walk_clip_step:
  assumes "node_at g (show_nat (k + n)) = lora_node l m (if n = 0 then clip else link (show_nat (k + n - 1)) 1)"
  shows "walk_back ''clip'' 1 ''LoraLoader'' (Suc n) g (link (show_nat (k + n)) 1) =
    (let (names, e) = walk_back ''clip'' 1 ''LoraLoader'' n g
        (if n = 0 then clip else link (show_nat (k + n - 1)) 1)
     in (VStr (lr_name l @ ''.safetensors'') # names, e))"
  using assms by (simp add: class_of_def)

lemma walk_lora_chain:
  assumes "\<And>n. n < length ls \<Longrightarrow> node_at g (show_nat (k + n)) =
     lora_node (ls ! n) (if n = 0 then model else link (show_nat (k + n - 1)) 0)
       (if n = 0 then clip else link (show_nat (k + n - 1)) 1)"
    and "n < length ls"
  shows "walk_back ''model'' 0 ''LoraLoader'' (Suc n) g (link (show_nat (k + n)) 0) =
      (rev (map (\<lambda>l. VStr (lr_name l @ ''.safetensors'')) (take (Suc n) ls)), model)"
    and "walk_back ''clip'' 1 ''LoraLoader'' (Suc n) g (link (show_nat (k + n)) 1) =
      (rev (map (\<lambda>l. VStr (lr_name l @ ''.safetensors'')) (take (Suc n) ls)), clip)"
  using assms(2)
proof (induction n)
  case 0
  { case 1 then show ?case using walk_model_step [OF assms(1) [OF 1]] by (simp add: take_Suc_conv_app_nth) }
  { case 2 then show ?case using walk_clip_step [OF assms(1) [OF 2]] by (simp add: take_Suc_conv_app_nth) }
next
  case (Suc n)
  { case 1
    then have "walk_back ''model'' 0 ''LoraLoader'' (Suc n) g (link (show_nat (k + n)) 0) =
      (rev (map (\<lambda>l. VStr (lr_name l @ ''.safetensors'')) (take (Suc n) ls)), model)" by (intro Suc.IH(1)) simp
    with walk_model_step [OF assms(1) [OF 1]] 1 show ?case
      by (simp add: take_Suc_conv_app_nth [of "Suc n"] del: walk_back.simps) }
  { case 2
    then have "walk_back ''clip'' 1 ''LoraLoader'' (Suc n) g (link (show_nat (k + n)) 1) =
      (rev (map (\<lambda>l. VStr (lr_name l @ ''.safetensors'')) (take (Suc n) ls)), clip)" by (intro Suc.IH(2)) simp
    with walk_clip_step [OF assms(1) [OF 2]] 2 show ?case
      by (simp add: take_Suc_conv_app_nth [of "Suc n"] del: walk_back.simps) }
qed

section \<open>Rewriting\<close>

lemma rewrite_node_twice: "rewrite_node f (rewrite_node h n) = rewrite_node (\<lambda>v. f (h v)) n"
  by (auto simp: rewrite_node_def comp_def case_prod_beta' split: option.splits)

lemma rewrite_node_inputs:
  "node_inputs (rewrite_node f n) = map_option (map (\<lambda>(k, v). (k, f v))) (node_inputs n)"
  by (simp add: rewrite_node_def split: option.splits)

lemma rewrite_inputs_append:
  "rewrite_inputs (g @ h) src slot i s ids = rewrite_inputs g src slot i s ids @ rewrite_inputs h src slot i s ids"
  by (simp add: rewrite_inputs_def)

lemma rewrite_inputs_skipped:
  "set (map fst h) \<subseteq> set ids \<Longrightarrow> rewrite_inputs h src slot i s ids = h"
  by (induction h) (auto simp: rewrite_inputs_def)

text \<open>What the injection makes of a value: links to the two sources go to the end of the chain.\<close>

definition rethread :: "string \<Rightarrow> int \<Rightarrow> string \<Rightarrow> int \<Rightarrow> string \<Rightarrow> pyval \<Rightarrow> pyval" where
  "rethread m ms c cs end v =
     (if links_to m ms v then link end 0 else if links_to c cs v then link end 1 else v)"

lemma rewrite_inputs_unskipped:
  assumes "fst ` set g \<inter> set ids = {}"
  shows "rewrite_inputs g src slot i s ids = map (\<lambda>(k, n). (k, rewrite_node (rewrite_value src slot i s) n)) g"
proof -
  have "i \<notin> set ids" if "(i, n) \<in> set g" for i n using that assms by force
  then show ?thesis by (auto simp: rewrite_inputs_def)
qed

lemma inject_loras_result:
  assumes "inject_loras g loras = Inr g'" and "loras \<noteq> []"
    and "find_anchor g ''%MODEL_SOURCE%'' = Inr m" and "find_anchor g ''%CLIP_SOURCE%'' = Inr c"
    and "c \<in> fst ` set g"
  defines "k \<equiv> next_node_id 1 g" and "ms \<equiv> infer_output_slot g m 0" and "cs \<equiv> infer_output_slot g c 1"
  defines "final \<equiv> show_nat (k + length loras - 1)"
  shows "g' = map (\<lambda>(i, n). (i, rewrite_node (rethread m ms c cs final) n)) g
     @ lora_chain k (link m ms) (link c cs) loras"
proof -
  let ?ids = "map show_nat [k..<k + length loras]"
  let ?chain = "lora_chain k (link m ms) (link c cs) loras"
  have fresh: "\<And>j. k \<le> j \<Longrightarrow> show_nat j \<notin> fst ` set g"
    unfolding k_def by (rule next_node_id_fresh)
  have last: "last ?ids = final" using assms(2) by (simp add: final_def last_map)
  have chain: "set (map fst ?chain) \<subseteq> set ?ids" by (simp only: lora_chain_ids)
  have "x \<notin> fst ` set g" if "x \<in> set ?ids" for x
  proof -
    from that have "x \<in> show_nat ` {k..<k + length loras}" by simp
    then obtain j where "x = show_nat j" "j \<in> {k..<k + length loras}" by (rule imageE)
    with fresh [of j] show ?thesis by simp
  qed
  then have apart: "fst ` set g \<inter> set ?ids = {}" by blast
  have added: "add_lora_nodes k (link m ms) (link c cs) loras g = (g @ ?chain, ?ids)"
    using fresh by (rule add_lora_nodes_chain)
  have "g' = rewrite_inputs (rewrite_inputs (g @ ?chain) m ms (last ?ids) 0 ?ids) c cs (last ?ids) 1 ?ids"
    using assms(1-4) added by (simp add: inject_loras_def require_anchor_def Let_def k_def ms_def cs_def)
  also have "\<dots> = rewrite_inputs (rewrite_inputs g m ms final 0 ?ids) c cs final 1 ?ids @ ?chain"
    by (simp only: last rewrite_inputs_append rewrite_inputs_skipped [OF chain])
  also have "rewrite_inputs (rewrite_inputs g m ms final 0 ?ids) c cs final 1 ?ids =
    map (\<lambda>(i, n). (i, rewrite_node (\<lambda>v. rewrite_value c cs final 1 (rewrite_value m ms final 0 v)) n)) g"
  proof -
    let ?h = "map (\<lambda>(i, n). (i, rewrite_node (rewrite_value m ms final 0) n)) g"
    have "map fst ?h = map fst g" by (induction g) auto
    then have "fst ` set ?h = fst ` set g" by (metis list.set_map)
    then have "fst ` set ?h \<inter> set ?ids = {}" using apart by simp
    from rewrite_inputs_unskipped [OF this, of c cs final 1] show ?thesis
      unfolding rewrite_inputs_unskipped [OF apart]
      by (simp add: split_beta comp_def rewrite_node_twice del: set_map set_upt)
  qed
  also have "(\<lambda>v. rewrite_value c cs final 1 (rewrite_value m ms final 0 v)) = rethread m ms c cs final"
  proof
    fix v
    have "k \<le> k + length loras - 1" using assms(2) by (cases loras) auto
    then have "c \<noteq> final" using fresh assms(5) unfolding final_def by metis
    then show "rewrite_value c cs final 1 (rewrite_value m ms final 0 v) = rethread m ms c cs final v"
      by (simp add: rewrite_value_def rethread_def)
  qed
  finally show ?thesis .
qed

section \<open>Properties\<close>

lemma find_anchor_member: "find_anchor g a = Inr i \<Longrightarrow> i \<in> fst ` set g"
  by (induction g) (auto simp: bind_r_Inr split: if_splits)

lemma node_at_prefix: "i \<in> fst ` set g \<Longrightarrow> node_at (g @ h) i = node_at g i"
  by (cases "map_of g i") (auto simp: node_at_def map_of_eq_None_iff)

lemma node_at_map: "i \<in> fst ` set g \<Longrightarrow> node_at (map (\<lambda>(k, n). (k, f n)) g) i = f (node_at g i)"
  by (induction g) (auto simp: node_at_def)

text \<open>
  LoRA injection threads the chain: when it succeeds, the template's nodes keep their ids
  and are followed by one fresh node per LoRA; from the end of the chain, the \<open>model\<close> inputs
  lead back through exactly the requested LoRAs, last to first, to the model source's output,
  and the \<open>clip\<close> inputs through the same LoRAs to the clip source's output.
\<close>

theorem inject_loras_threads_chain:
  assumes "inject_loras g loras = Inr g'" and "loras \<noteq> []"
    and "find_anchor g ''%MODEL_SOURCE%'' = Inr m" and "find_anchor g ''%CLIP_SOURCE%'' = Inr c"
  shows "\<exists>ids. map fst g' = map fst g @ ids \<and> length ids = length loras \<and> distinct ids \<and>
    set ids \<inter> fst ` set g = {} \<and>
    walk_back ''model'' 0 ''LoraLoader'' (length loras) g' (link (last ids) 0) =
      (rev (map (\<lambda>l. VStr (lr_name l @ ''.safetensors'')) loras), link m (infer_output_slot g m 0)) \<and>
    walk_back ''clip'' 1 ''LoraLoader'' (length loras) g' (link (last ids) 1) =
      (rev (map (\<lambda>l. VStr (lr_name l @ ''.safetensors'')) loras), link c (infer_output_slot g c 1))"
proof -
  let ?k = "next_node_id 1 g" and ?n = "length loras - 1"
  let ?ids = "map show_nat [?k..<?k + length loras]"
  let ?c = "lora_chain ?k (link m (infer_output_slot g m 0)) (link c (infer_output_slot g c 1)) loras"
  let ?f = "rewrite_node (rethread m (infer_output_slot g m 0) c (infer_output_slot g c 1)
    (show_nat (?k + length loras - 1)))"
  have g': "g' = map (\<lambda>(i, n). (i, ?f n)) g @ ?c"
    by (rule inject_loras_result [OF assms find_anchor_member [OF assms(4)]])
  have ids: "map fst (map (\<lambda>(i, n). (i, ?f n)) g) = map fst g" by (induction g) auto
  then have dom: "fst ` set (map (\<lambda>(i, n). (i, ?f n)) g) = fst ` set g" by (metis list.set_map)
  have n: "?n < length loras" "Suc ?n = length loras" using assms(2) by (cases loras; simp)+
  have "show_nat (?k + j) \<notin> fst ` set g" for j by (rule next_node_id_fresh [of 1]) simp
  then have "node_at g' (show_nat (?k + j)) = node_at ?c (show_nat (?k + j))" for j
    unfolding g' by (intro node_at_append) (simp only: dom not_False_eq_True)
  then have node: "node_at g' (show_nat (?k + j)) = lora_node (loras ! j)
      (if j = 0 then link m (infer_output_slot g m 0) else link (show_nat (?k + j - 1)) 0)
      (if j = 0 then link c (infer_output_slot g c 1) else link (show_nat (?k + j - 1)) 1)"
    if "j < length loras" for j using lora_chain_node [OF that] by simp
  note walks = walk_lora_chain [of loras g' ?k, OF node n(1)]
  have "last ?ids = show_nat (?k + ?n)" using assms(2) by (cases loras) (simp_all add: last_map)
  moreover have "distinct ?ids" by (auto simp: distinct_map inj_on_def show_nat_inject)
  moreover have "set ?ids \<inter> fst ` set g = {}"
  proof -
    have "x \<notin> fst ` set g" if "x \<in> show_nat ` {?k..<?k + length loras}" for x
      using that next_node_id_fresh [of 1 g] by (elim imageE) simp
    then show ?thesis by auto
  qed
  moreover have "map fst g' = map fst g @ ?ids" unfolding g' by (simp only: map_append ids lora_chain_ids)
  ultimately show ?thesis using walks n(2) by (intro exI [of _ ?ids]) (simp del: walk_back.simps)
qed


lemma anchor_owners_Cons: "anchor_owners ((i, n) # g) = bind_r (title_anchors n) (\<lambda>as.
    bind_r (anchor_owners g) (\<lambda>os. Inr (map (\<lambda>a. (a, i)) as @ os)))"
  by (cases "title_anchors n") (auto simp: anchor_owners_def bind_r_def split: sum.splits)

lemma same_shape_validate:
  assumes "same_shape g g'"
  shows "validate_anchors g' required = validate_anchors g required"
proof -
  have "anchor_owners g' = anchor_owners g" using assms unfolding same_shape_def
  proof (induction rule: list_all2_induct)
    case (Cons p g q g')
    obtain i n where p: "p = (i, n)" by (cases p)
    obtain n' where q: "q = (i, n')" using Cons p by (cases q) auto
    have "title_anchors n' = title_anchors n" using Cons p q by (intro title_anchors_cong) simp
    with Cons p q show ?case by (simp add: anchor_owners_Cons)
  qed simp
  then show ?thesis by (simp add: validate_anchors_def)
qed

lemma owners_of_append: "owners_of (map (\<lambda>a. (a, i)) as @ os) a = replicate (count_list as a) i @ owners_of os a"
  by (induction as) (auto simp: owners_of_def)

lemma owners_find:
  "anchor_owners g = Inr os \<Longrightarrow> owners_of os a = i # rest \<Longrightarrow> find_anchor g a = Inr i"
proof (induction g arbitrary: os rest)
  case Nil
  then show ?case by (simp add: anchor_owners_def owners_of_def)
next
  case (Cons p g)
  obtain k n where p: "p = (k, n)" by (cases p)
  from Cons.prems(1) p obtain as os' where as: "title_anchors n = Inr as" "anchor_owners g = Inr os'"
    "os = map (\<lambda>a. (a, k)) as @ os'" by (auto simp: anchor_owners_Cons bind_r_Inr)
  show ?case
  proof (cases "a \<in> set as")
    case True
    then obtain m where "count_list as a = Suc m" by (metis count_list_0_iff not0_implies_Suc)
    with Cons.prems(2) as p True show ?thesis by (simp add: owners_of_append)
  next
    case False
    with Cons.prems(2) as have "owners_of os' a = i # rest" by (simp add: owners_of_append)
    with Cons.IH [OF as(2)] as(1) p False show ?thesis by simp
  qed
qed

lemma owners_complete:
  "anchor_owners g = Inr os \<Longrightarrow> (k, n) \<in> set g \<Longrightarrow>
   \<exists>as. title_anchors n = Inr as \<and> (a \<in> set as \<longrightarrow> k \<in> set (owners_of os a))"
proof (induction g arbitrary: os)
  case (Cons p g)
  obtain i m where p: "p = (i, m)" by (cases p)
  from Cons.prems(1) p obtain as os' where as: "title_anchors m = Inr as" "anchor_owners g = Inr os'"
    "os = map (\<lambda>a. (a, i)) as @ os'" by (auto simp: anchor_owners_Cons bind_r_Inr)
  show ?case
  proof (cases "(k, n) = p")
    case True
    with as p show ?thesis by (auto simp: owners_of_append count_list_0_iff)
  next
    case False
    with Cons.prems(2) have "(k, n) \<in> set g" by simp
    from Cons.IH [OF as(2) this] as(3) show ?thesis by (auto simp: owners_of_append)
  qed
qed simp

lemma validate_owner:
  assumes "validate_anchors g required = Inr ()" and "a \<in> set required"
  obtains os i where "anchor_owners g = Inr os" "owners_of os a = [i]"
proof -
  obtain os where os: "anchor_owners g = Inr os"
    and ok: "filter (\<lambda>a. owners_of os a = []) required = []"
      "filter (\<lambda>a. 1 < length (owners_of os a)) required = []"
    using assms(1) by (auto simp: validate_anchors_def bind_r_Inr Let_def simp del: filter_empty_conv split: if_splits)
  then obtain i where "owners_of os a = [i]"
    using assms(2) by (cases "owners_of os a") (auto simp: filter_empty_conv)
  with os that show thesis by blast
qed

lemma validate_find:
  "validate_anchors g required = Inr () \<Longrightarrow> a \<in> set required \<Longrightarrow> \<exists>i. find_anchor g a = Inr i"
  by (meson validate_owner owners_find)

text \<open>
  A template that passes validation has each required anchor exactly once: \<open>find_anchor\<close>
  then returns its node, and no other node of the graph declares it.
\<close>

theorem validated_anchors_are_unique:
  assumes "validate_anchors g required = Inr ()" and "a \<in> set required"
  shows "\<exists>i. find_anchor g a = Inr i \<and> i \<in> fst ` set g \<and>
    (\<forall>k n. (k, n) \<in> set g \<longrightarrow> (\<exists>as. title_anchors n = Inr as \<and> (a \<in> set as \<longrightarrow> k = i)))"
proof -
  from assms obtain os i where os: "anchor_owners g = Inr os" and i: "owners_of os a = [i]"
    by (rule validate_owner)
  from owners_find [OF os i] have "find_anchor g a = Inr i" .
  with find_anchor_member [OF this] owners_complete [OF os, of _ _ a] i show ?thesis by fastforce
qed

section \<open>A small template\<close>

definition demo_graph :: graph where
  "demo_graph =
     [(''4'', [(''class_type'', VStr ''CheckpointLoaderSimple''),
               (''inputs'', VDict [(''ckpt_name'', VStr ''old'')]),
               (''_meta'', VDict [(''title'', VStr ''%MODEL_SOURCE%, %CLIP_SOURCE%'')])]),
      (''5'', [(''class_type'', VStr ''KSampler''),
               (''inputs'', VDict [(''model'', VList [VStr ''4'', VInt 0]), (''clip'', VList [VStr ''4'', VInt 1]),
                                   (''vae'', VList [VStr ''4'', VInt 2])])])]"

definition demo_loras :: "lora_ref list" where
  "demo_loras = [\<lparr>lr_name = ''a'', lr_weight = 1\<rparr>, \<lparr>lr_name = ''b'', lr_weight = 2\<rparr>]"

lemma demo_titles:
  "title_anchors [(''class_type'', VStr ''CheckpointLoaderSimple''),
     (''inputs'', VDict [(''ckpt_name'', VStr ''old'')]),
     (''_meta'', VDict [(''title'', VStr ''%MODEL_SOURCE%, %CLIP_SOURCE%'')])] =
   Inr [''%MODEL_SOURCE%'', ''%CLIP_SOURCE%'']"
  "title_anchors [(''class_type'', c), (''inputs'', ins)] = Inr []"
  by (simp_all add: title_anchors_def py_or_def is_anchor_def starts_with_def ends_with_def
      strip_by_def is_space_def Let_def)

lemma demo_anchors:
  "find_anchor demo_graph ''%MODEL_SOURCE%'' = Inr ''4''" "find_anchor demo_graph ''%CLIP_SOURCE%'' = Inr ''4''"
  by (simp_all add: demo_graph_def demo_titles)

lemma demo_injected: "\<exists>g'. inject_loras demo_graph demo_loras = Inr g'"
  by (simp add: inject_loras_def require_anchor_def demo_anchors Let_def demo_loras_def split_beta)

theorem inject_loras_threads_chain_witness:
  "\<exists>g' end. inject_loras demo_graph demo_loras = Inr g' \<and>
     fst (walk_back ''model'' 0 ''LoraLoader'' 2 g' (link end 0)) = [VStr ''b.safetensors'', VStr ''a.safetensors'']"
proof -
  obtain g' where g': "inject_loras demo_graph demo_loras = Inr g'" using demo_injected by blast
  have "demo_loras \<noteq> []" by (simp add: demo_loras_def)
  from inject_loras_threads_chain [OF g' this demo_anchors] obtain ids where
    "walk_back ''model'' 0 ''LoraLoader'' (length demo_loras) g' (link (last ids) 0) =
       (rev (map (\<lambda>l. VStr (lr_name l @ ''.safetensors'')) demo_loras),
        link ''4'' (infer_output_slot demo_graph ''4'' 0))" by blast
  then have "fst (walk_back ''model'' 0 ''LoraLoader'' 2 g' (link (last ids) 0)) =
    [VStr ''b.safetensors'', VStr ''a.safetensors'']"
    by (simp add: demo_loras_def eval_nat_numeral del: walk_back.simps)
  with g' show ?thesis by blast
qed


theorem validated_anchors_are_unique_witness:
  "find_anchor demo_graph ''%CLIP_SOURCE%'' = Inr ''4''"
proof -
  have "validate_anchors demo_graph [''%CLIP_SOURCE%''] = Inr ()"
    by (simp add: validate_anchors_def anchor_owners_def demo_graph_def demo_titles owners_of_def Let_def)
  from validated_anchors_are_unique [OF this, of "''%CLIP_SOURCE%''"] show ?thesis
    by (auto simp: demo_anchors)
qed

end
