(* ===== verification/Video_Graph.thy ===== *)
theory Video_Graph
  imports Workflow_Graph
begin

text \<open>
  The video half of \<open>app/registry/workflows.py\<close> and \<open>app/registry/wan_advanced.py\<close>: the
  injectors for WAN 2.2 graphs (core ComfyUI nodes and the legacy wrapper's nodes), for
  MMAudio and for LTX Video graphs.
\<close>

section \<open>WAN weights\<close>

fun contains_text :: "string \<Rightarrow> string \<Rightarrow> bool" where
  "contains_text p [] \<longleftrightarrow> p = []"
| "contains_text p (c # s) \<longleftrightarrow> starts_with p (c # s) \<or> contains_text p s"

definition infer_wan_video_vae_precision :: "string \<Rightarrow> string option" where
  "infer_wan_video_vae_precision vae_basename =
     (let n = lower vae_basename in
      if contains_text ''fp32'' n then Some ''fp32''
      else if contains_text ''bf16'' n then Some ''bf16''
      else if contains_text ''fp16'' n then Some ''fp16'' else None)"

definition inject_wan_unet :: "string \<Rightarrow> graph \<Rightarrow> string \<Rightarrow> workflow_error + graph" where
  "inject_wan_unet file g i = patch_inputs ''inject_video_weights''
     (set_str (if class_of g i = VStr ''UNETLoader'' then ''unet_name'' else ''model'') (basename file)) i g"

definition inject_wan_vae :: "model_config \<Rightarrow> graph \<Rightarrow> string \<Rightarrow> workflow_error + graph" where
  "inject_wan_vae cfg g i = (case path_set (mc_vae cfg) of
     None \<Rightarrow> Inl (WorkflowValidationError ''inject_video_weights: vae'')
   | Some vae \<Rightarrow>
       (let name = basename vae; cls = class_of g i in
        patch_inputs ''inject_video_weights: vae'' (\<lambda>ins.
          if cls = VStr ''VAELoader'' then set_str ''vae_name'' name ins
          else (let ins = set_str ''model_name'' name ins in
                if cls = VStr ''WanVideoVAELoader'' then
                  (case infer_wan_video_vae_precision name of
                     None \<Rightarrow> ins | Some p \<Rightarrow> set_str ''precision'' p ins)
                else ins)) i g))"

definition inject_wan_t5 :: "model_config \<Rightarrow> graph \<Rightarrow> string \<Rightarrow> workflow_error + graph" where
  "inject_wan_t5 cfg g i = (case path_set (mc_wan_t5_encoder cfg) of
     None \<Rightarrow> Inl (WorkflowValidationError ''inject_video_weights: t5'')
   | Some t5 \<Rightarrow> patch_inputs ''inject_video_weights: t5''
       (set_str (if class_of g i = VStr ''CLIPLoader'' then ''clip_name'' else ''model_name'') (basename t5)) i g)"

definition inject_video_weights :: "graph \<Rightarrow> model_config \<Rightarrow> workflow_error + graph" where
  "inject_video_weights g cfg =
     bind_r (require_anchor ''inject_video_weights'' g ''%WAN_MODEL%'') (\<lambda>model_id.
     bind_r (require_anchor ''inject_video_weights'' g ''%WAN_VAE%'') (\<lambda>vae_id.
     bind_r (require_anchor ''inject_video_weights'' g ''%WAN_T5%'') (\<lambda>t5_id.
     bind_r (inject_wan_unet (mc_checkpoint cfg) g model_id) (\<lambda>g.
     bind_r (optional_anchor g ''%WAN_MODEL_LOW%'') (\<lambda>low.
     bind_r (case low of None \<Rightarrow> Inr g | Some low_id \<Rightarrow>
       (case path_set (mc_wan_unet_low cfg) of
          None \<Rightarrow> Inl (WorkflowValidationError ''inject_video_weights: wan_unet_low is unset'')
        | Some low_path \<Rightarrow> inject_wan_unet low_path g low_id)) (\<lambda>g.
     bind_r (inject_wan_vae cfg g vae_id) (\<lambda>g.
     bind_r (inject_wan_t5 cfg g t5_id) (\<lambda>g.
     bind_r (optional_anchor g ''%WAN_CLIP_VISION%'') (\<lambda>clip.
       case clip of None \<Rightarrow> Inr g | Some clip_id \<Rightarrow>
         patch_inputs ''inject_video_weights'' (\<lambda>ins. case path_set (mc_wan_clip_vision cfg) of
           None \<Rightarrow> ins | Some cv \<Rightarrow> set_str ''clip_name'' (basename cv) ins) clip_id g)))))))))"

section \<open>MMAudio\<close>

definition inject_mmaudio_weights :: "graph \<Rightarrow> model_config \<Rightarrow> workflow_error + graph" where
  "inject_mmaudio_weights g cfg = bind_r (optional_anchor g ''%MMAUDIO_FEATURE_UTILS%'') (\<lambda>fu.
     case fu of None \<Rightarrow> Inr g | Some fu_id \<Rightarrow>
       (case (path_set (mc_mmaudio_vae cfg), path_set (mc_mmaudio_synchformer cfg),
              path_set (mc_mmaudio_clip cfg), path_set (mc_mmaudio_diffusion cfg)) of
          (Some vae, Some sync, Some clip, Some diff) \<Rightarrow>
            bind_r (require_anchor ''inject_mmaudio_weights'' g ''%MMAUDIO_DIFFUSION%'') (\<lambda>md_id.
            bind_r (patch_inputs ''inject_mmaudio_weights'' (\<lambda>ins. set_str ''clip_model'' (basename clip)
               (set_str ''synchformer_model'' (basename sync) (set_str ''vae_model'' (basename vae) ins))) fu_id g)
              (patch_inputs ''inject_mmaudio_weights'' (set_str ''mmaudio_model'' (basename diff)) md_id))
        | _ \<Rightarrow> Inl (WorkflowValidationError ''model_cfg missing mmaudio_* asset paths'')))"

section \<open>LoRAs of WAN graphs\<close>

text \<open>The legacy multi-slot node; an idle one is disconnected from its loaders.\<close>

text \<open>\<open>str(v)\<close> of a text, an integer or a boolean.\<close>

fun id_text :: "pyval \<Rightarrow> string option" where
  "id_text (VStr s) = Some s"
| "id_text (VInt i) = Some ((if i < 0 then ''-'' else []) @ show_nat (nat \<bar>i\<bar>))"
| "id_text (VBool b) = Some (if b then ''True'' else ''False'')"
| "id_text _ = None"

definition disconnect_wan_model_loader_lora :: "string \<Rightarrow> graph \<Rightarrow> graph" where
  "disconnect_wan_model_loader_lora multi_id g = map (\<lambda>(i, n).
     (i, if dict_get n ''class_type'' \<noteq> VStr ''WanVideoModelLoader'' then n
         else (case node_inputs n of None \<Rightarrow> n
               | Some ins \<Rightarrow>
                   (case dict_get ins ''lora'' of
                      VList (src # _ # _) \<Rightarrow>
                        (if id_text src = Some multi_id
                         then set_inputs (filter (\<lambda>(k, _). k \<noteq> ''lora'') ins) n else n)
                    | _ \<Rightarrow> n)))) g"

definition slot_names :: "nat \<Rightarrow> string \<times> string" where
  "slot_names i = (''lora_'' @ show_nat i, ''strength_'' @ show_nat i)"

definition set_slot :: "nat \<Rightarrow> string \<Rightarrow> rat \<Rightarrow> pydict \<Rightarrow> pydict" where
  "set_slot i name w ins = dict_set (snd (slot_names i)) (VFloat w) (set_str (fst (slot_names i)) name ins)"

definition inject_wan_lora_multi ::
  "graph \<Rightarrow> lora_ref list \<Rightarrow> bool option \<Rightarrow> bool option \<Rightarrow> workflow_error + graph" where
  "inject_wan_lora_multi g loras merge_loras low_mem_load =
     bind_r (optional_anchor g ''%WAN_LORA_MULTI%'') (\<lambda>anchor.
     case anchor of
       None \<Rightarrow> if loras \<noteq> [] then Inl (WorkflowValidationError ''%WAN_LORA_MULTI% anchor missing'') else Inr g
     | Some i \<Rightarrow> bind_r (patch_inputs ''inject_wan_lora_multi'' (\<lambda>ins.
         let ins = fold (\<lambda>k. set_slot k ''none'' 1) [0..<wan_max_loras] ins;
             ins = fold (\<lambda>(k, l). set_slot k (lr_name l @ ''.safetensors'') (lr_weight l))
                     (zip [0..<wan_max_loras] loras) ins;
             ins = (case merge_loras of None \<Rightarrow> ins | Some b \<Rightarrow> dict_set ''merge_loras'' (VBool b) ins)
         in (case low_mem_load of None \<Rightarrow> ins | Some b \<Rightarrow> dict_set ''low_mem_load'' (VBool b) ins)) i g)
         (\<lambda>g. Inr (if loras = [] then disconnect_wan_model_loader_lora i g else g)))"

definition wan_lora_node :: "lora_ref \<Rightarrow> pyval \<Rightarrow> node" where
  "wan_lora_node l model =
     [(''class_type'', VStr ''LoraLoaderModelOnly''),
      (''inputs'', VDict [(''model'', model), (''lora_name'', VStr (lr_name l @ ''.safetensors'')),
                          (''strength_model'', VFloat (lr_weight l))]),
      (''_meta'', VDict [(''title'', VStr (''wan_lora:'' @ lr_name l))])]"

fun add_wan_lora_nodes :: "nat \<Rightarrow> pyval \<Rightarrow> lora_ref list \<Rightarrow> graph \<Rightarrow> graph \<times> pyval" where
  "add_wan_lora_nodes next_id model [] g = (g, model)"
| "add_wan_lora_nodes next_id model (l # ls) g =
     (let i = show_nat next_id in
      add_wan_lora_nodes (next_id + 1) (link i 0) ls (dict_set i (wan_lora_node l model) g))"

definition inject_wan_core_loras_between ::
  "graph \<Rightarrow> lora_ref list \<Rightarrow> string \<Rightarrow> string \<Rightarrow> workflow_error + graph" where
  "inject_wan_core_loras_between g loras model_anchor shift_anchor =
     (if loras = [] then Inr g else
      bind_r (require_anchor ''inject_wan_core_loras'' g model_anchor) (\<lambda>model_id.
      bind_r (require_anchor ''inject_wan_core_loras'' g shift_anchor) (\<lambda>shift_id.
        let (g1, prev) = add_wan_lora_nodes (next_node_id 100 g) (link model_id 0) (take wan_max_loras loras) g
        in Inr (case node_inputs (node_at g1 shift_id) of
                  None \<Rightarrow> g1 | Some ins \<Rightarrow> put_inputs g1 shift_id (dict_set ''model'' prev ins)))))"

text \<open>Two experts: the second LoRA goes to the low-noise path, all others to the high path.\<close>

definition inject_wan_core_loras :: "graph \<Rightarrow> lora_ref list \<Rightarrow> workflow_error + graph" where
  "inject_wan_core_loras g loras =
     (if loras = [] then Inr g else
      bind_r (optional_anchor g ''%WAN_MODEL_LOW%'') (\<lambda>low.
      bind_r (case low of None \<Rightarrow> Inr None | Some _ \<Rightarrow> optional_anchor g ''%WAN_SHIFT_LOW%'') (\<lambda>shift_low.
      if low = None \<or> shift_low = None
      then inject_wan_core_loras_between g loras ''%WAN_MODEL%'' ''%WAN_SHIFT%''
      else
        (let high = (if 2 \<le> length loras then hd loras # drop 2 loras else loras);
             low_loras = (if 2 \<le> length loras then [loras ! 1] else [])
         in bind_r (inject_wan_core_loras_between g high ''%WAN_MODEL%'' ''%WAN_SHIFT%'') (\<lambda>g.
            inject_wan_core_loras_between g low_loras ''%WAN_MODEL_LOW%'' ''%WAN_SHIFT_LOW%'')))))"

section \<open>Init image\<close>

text \<open>
  The node's \<open>inputs\<close> are created when absent; a value that is no object makes the item
  assignment fail (\<open>TypeError\<close>, here with the other attribute errors).
\<close>

definition inject_init_image :: "graph \<Rightarrow> string \<Rightarrow> workflow_error + graph" where
  "inject_init_image g filename = bind_r (optional_anchor g ''%INIT_IMAGE%'') (\<lambda>anchor.
     case anchor of None \<Rightarrow> Inr g
     | Some i \<Rightarrow>
         (case map_of (node_at g i) ''inputs'' of
            None \<Rightarrow> Inr (put_inputs g i [(''image'', VStr filename)])
          | Some (VDict ins) \<Rightarrow> Inr (put_inputs g i (set_str ''image'' filename ins))
          | Some _ \<Rightarrow> Inl AttributeError))"

section \<open>LTX Video\<close>

definition ltxv_audio_vae_filename :: string where
  "ltxv_audio_vae_filename = ''LTX23_audio_vae_bf16.safetensors''"

definition set_ltxv_audio_vaes :: "graph \<Rightarrow> graph" where
  "set_ltxv_audio_vaes g = map (\<lambda>(i, n).
     (i, if dict_get n ''class_type'' = VStr ''LTXVAudioVAELoader'' then
           (case node_inputs n of None \<Rightarrow> n
            | Some ins \<Rightarrow> set_inputs (set_str ''ckpt_name'' ltxv_audio_vae_filename ins) n)
         else n)) g"

definition inject_ltxv_weights :: "graph \<Rightarrow> model_config \<Rightarrow> workflow_error + graph" where
  "inject_ltxv_weights g cfg =
     (let ckpt = basename (mc_checkpoint cfg) in
      bind_r (require_anchor ''inject_ltxv_weights'' g ''%LTXV_CHECKPOINT%'') (\<lambda>ckpt_id.
      bind_r (patch_inputs ''inject_ltxv_weights'' (set_str ''ckpt_name'' ckpt) ckpt_id g) (\<lambda>g.
      bind_r (require_anchor ''inject_ltxv_weights'' g ''%LTXV_TEXT_ENCODER%'') (\<lambda>te_id.
      bind_r (patch_inputs ''inject_ltxv_weights'' (\<lambda>ins.
        let ins = set_str ''ckpt_name'' ckpt ins in
        case path_set (mc_ltxv_text_encoder cfg) of None \<Rightarrow> ins
        | Some te \<Rightarrow> set_str ''text_encoder'' (basename te) ins) te_id g) (\<lambda>g.
      Inr (set_ltxv_audio_vaes g))))))"

definition patch_anchor :: "string \<Rightarrow> string \<Rightarrow> (pydict \<Rightarrow> pydict) \<Rightarrow> graph \<Rightarrow> workflow_error + graph" where
  "patch_anchor who a f g = bind_r (require_anchor who g a) (\<lambda>i. patch_inputs who f i g)"

definition inject_ltxv_video_vae :: "graph \<Rightarrow> string \<Rightarrow> workflow_error + graph" where
  "inject_ltxv_video_vae g vae_name =
     patch_anchor ''inject_ltxv_video_vae'' ''%LTXV_VIDEO_VAE%'' (set_str ''vae_name'' vae_name) g"

definition inject_ltxv_seed :: "graph \<Rightarrow> int \<Rightarrow> workflow_error + graph" where
  "inject_ltxv_seed g actual_seed = patch_anchor ''inject_ltxv_seed'' ''%LTXV_SEED%''
     (dict_set ''seed'' (VInt (actual_seed mod 1125899906842624))) g"

definition inject_ltxv_frames :: "graph \<Rightarrow> int \<Rightarrow> workflow_error + graph" where
  "inject_ltxv_frames g frames =
     patch_anchor ''inject_ltxv_frames'' ''%LTXV_FRAMES%'' (dict_set ''value'' (VInt frames)) g"

section \<open>Optional WAN knobs\<close>

text \<open>
  \<open>WanVideoAdvancedOptions\<close>: a group is the dictionary \<open>model_dump(exclude_none=True)\<close> gives.
\<close>

record wan_advanced =
  wa_encode :: "pydict option"
  wa_clip_encode :: "pydict option"
  wa_decode :: "pydict option"
  wa_block_swap :: "pydict option"
  wa_export :: "pydict option"
  wa_merge_loras :: "bool option"
  wa_low_mem_load :: "bool option"

definition merge_non_none :: "pydict \<Rightarrow> pydict \<Rightarrow> pydict" where
  "merge_non_none patch dst = fold (\<lambda>(k, v) d. if v \<noteq> VNone then dict_set k v d else d) patch dst"

definition patch_if_class :: "string \<Rightarrow> string \<Rightarrow> pydict \<Rightarrow> graph \<Rightarrow> workflow_error + graph" where
  "patch_if_class a cls patch g = bind_r (require_anchor ''apply_wan_advanced_patches'' g a) (\<lambda>i.
     if class_of g i = VStr cls then patch_inputs ''apply_wan_advanced_patches'' (merge_non_none patch) i g
     else Inr g)"

definition patch_if_anchor :: "string \<Rightarrow> pydict \<Rightarrow> graph \<Rightarrow> workflow_error + graph" where
  "patch_if_anchor a patch g = bind_r (optional_anchor g a) (\<lambda>anchor.
     case anchor of None \<Rightarrow> Inr g
     | Some i \<Rightarrow> patch_inputs ''apply_wan_advanced_patches'' (merge_non_none patch) i g)"

definition when_some :: "'o option \<Rightarrow> ('o \<Rightarrow> graph \<Rightarrow> workflow_error + graph) \<Rightarrow> graph \<Rightarrow> workflow_error + graph" where
  "when_some opt f g = (case opt of None \<Rightarrow> Inr g | Some p \<Rightarrow> f p g)"

definition apply_wan_advanced_patches ::
  "graph \<Rightarrow> wan_advanced option \<Rightarrow> string \<Rightarrow> workflow_error + graph" where
  "apply_wan_advanced_patches g adv video_task = (case adv of
     None \<Rightarrow> Inr g
   | Some opts \<Rightarrow>
       bind_r (if video_task = ''i2v''
               then when_some (wa_encode opts) (patch_if_class ''%WAN_DIMS%'' ''WanVideoImageToVideoEncode'') g
               else Inr g) (\<lambda>g.
       bind_r (if video_task = ''i2v''
               then when_some (wa_clip_encode opts) (patch_if_anchor ''%WAN_CLIP_ENCODE%'') g
               else Inr g) (\<lambda>g.
       bind_r (when_some (wa_decode opts) (patch_if_class ''%WAN_DECODE%'' ''WanVideoDecode'') g) (\<lambda>g.
       bind_r (when_some (wa_block_swap opts) (patch_if_anchor ''%WAN_BLOCK_SWAP%'') g) (\<lambda>g.
       when_some (wa_export opts) (\<lambda>p. patch_anchor ''apply_wan_advanced_patches'' ''%VIDEO_OUTPUT%'' (merge_non_none p))
         g)))))"

section \<open>The chain between loader and sampling node\<close>

fun wan_chain :: "nat \<Rightarrow> pyval \<Rightarrow> lora_ref list \<Rightarrow> graph" where
  "wan_chain k model [] = []"
| "wan_chain k model (l # ls) = (show_nat k, wan_lora_node l model) # wan_chain (k + 1) (link (show_nat k) 0) ls"

lemma wan_chain_ids: "map fst (wan_chain k model ls) = map show_nat [k..<k + length ls]"
  by (induction k model ls rule: wan_chain.induct) (simp_all add: upt_conv_Cons del: upt_Suc)

lemma add_wan_lora_nodes_chain:
  assumes "\<And>j. k \<le> j \<Longrightarrow> show_nat j \<notin> fst ` set g"
  shows "add_wan_lora_nodes k model ls g = (g @ wan_chain k model ls,
    if ls = [] then model else link (show_nat (k + length ls - 1)) 0)"
  using assms
proof (induction ls arbitrary: k model g)
  case (Cons l ls)
  let ?g = "g @ [(show_nat k, wan_lora_node l model)]"
  have "dict_set (show_nat k) (wan_lora_node l model) g = ?g"
    using Cons.prems [of k] by (simp add: dict_set_fresh)
  moreover have "show_nat j \<notin> fst ` set ?g" if "k + 1 \<le> j" for j
    using Cons.prems [of j] that by (auto simp: show_nat_inject)
  ultimately show ?case using Cons.IH [of "k + 1" ?g] by (cases ls) (simp_all add: Let_def)
qed simp

lemma wan_lora_node_fields [simp]:
  "dict_get (wan_lora_node l m) ''class_type'' = VStr ''LoraLoaderModelOnly''"
  "node_inputs (wan_lora_node l m) = Some [(''model'', m), (''lora_name'', VStr (lr_name l @ ''.safetensors'')),
     (''strength_model'', VFloat (lr_weight l))]"
  by (simp_all add: wan_lora_node_def node_inputs_def)

lemma wan_chain_node:
  "n < length ls \<Longrightarrow> node_at (wan_chain k model ls) (show_nat (k + n)) =
     wan_lora_node (ls ! n) (if n = 0 then model else link (show_nat (k + n - 1)) 0)"
proof (induction ls arbitrary: k model n)
  case (Cons l ls)
  show ?case
  proof (cases n)
    case (Suc n')
    have "node_at (wan_chain k model (l # ls)) (show_nat (k + n)) =
      node_at (wan_chain (k + 1) (link (show_nat k) 0) ls) (show_nat ((k + 1) + n'))"
      using Suc by (simp add: node_at_def show_nat_inject)
    then show ?thesis using Cons.IH [of n' "k + 1"] Cons.prems Suc by (cases n') simp_all
  qed (simp add: node_at_def)
qed simp

abbreviation wan_walk :: "nat \<Rightarrow> graph \<Rightarrow> pyval \<Rightarrow> pyval list \<times> pyval" where
  "wan_walk \<equiv> walk_back ''model'' 0 ''LoraLoaderModelOnly''"

definition lora_files :: "lora_ref list \<Rightarrow> pyval list" where
  "lora_files ls = map (\<lambda>l. VStr (lr_name l @ ''.safetensors'')) ls"

lemma walk_wan_chain:
  assumes "\<And>n. n < length ls \<Longrightarrow> node_at g (show_nat (k + n)) =
     wan_lora_node (ls ! n) (if n = 0 then model else link (show_nat (k + n - 1)) 0)"
    and "n < length ls"
  shows "wan_walk (Suc n) g (link (show_nat (k + n)) 0) = (rev (lora_files (take (Suc n) ls)), model)"
  using assms(2)
proof (induction n)
  case 0
  then show ?case using assms(1) [of 0]
    by (simp add: class_of_def take_Suc_conv_app_nth lora_files_def)
next
  case (Suc n)
  have "wan_walk (Suc n) g (link (show_nat (k + n)) 0) = (rev (lora_files (take (Suc n) ls)), model)"
    using Suc by simp
  then show ?case using assms(1) [OF Suc.prems] Suc.prems
    by (subst walk_back.simps)
      (simp add: class_of_def take_Suc_conv_app_nth [of "Suc n"] lora_files_def del: walk_back.simps)
qed

lemma node_at_put: "node_at (put_inputs g i ins) j =
    (if j = i \<and> i \<in> fst ` set g then set_inputs ins (node_at g i) else node_at g j)"
proof -
  have "map_of (put_inputs g i ins) j = map_option (\<lambda>n. if j = i then set_inputs ins n else n) (map_of g j)"
    by (induction g) (auto simp: put_inputs_def)
  moreover have "i \<in> fst ` set g \<longleftrightarrow> map_of g i \<noteq> None" by (metis map_of_eq_None_iff)
  ultimately show ?thesis by (auto simp: node_at_def split: option.splits)
qed

lemma find_anchor_append: "find_anchor g a = Inr i \<Longrightarrow> find_anchor (g @ h) a = Inr i"
proof (induction g)
  case (Cons p g)
  then show ?case by (cases p, cases "title_anchors (snd p)") (auto split: if_splits)
qed simp

lemma between_result:
  assumes "inject_wan_core_loras_between g loras ma sa = Inr g'" and "loras \<noteq> []"
    and "find_anchor g ma = Inr m" and "find_anchor g sa = Inr s" and "node_inputs (node_at g s) = Some ins"
  defines "k \<equiv> next_node_id 100 g" and "ls \<equiv> take wan_max_loras loras"
  shows "g' = put_inputs (g @ wan_chain k (link m 0) ls) s
    (dict_set ''model'' (link (show_nat (k + length ls - 1)) 0) ins)"
proof -
  have fresh: "\<And>j. k \<le> j \<Longrightarrow> show_nat j \<notin> fst ` set g"
    unfolding k_def by (rule next_node_id_fresh)
  have "ls \<noteq> []" using assms(2) by (simp add: ls_def wan_max_loras_def)
  with add_wan_lora_nodes_chain [of k g "link m 0" ls] fresh
  have "add_wan_lora_nodes k (link m 0) ls g = (g @ wan_chain k (link m 0) ls, link (show_nat (k + length ls - 1)) 0)"
    by simp
  with assms(1-5) node_at_prefix [OF find_anchor_member [OF assms(4)], of "wan_chain k (link m 0) ls"]
  show ?thesis
    by (simp add: inject_wan_core_loras_between_def require_anchor_def Let_def k_def ls_def split_beta)
qed

lemma between_nodes:
  assumes "inject_wan_core_loras_between g loras ma sa = Inr g'" and "loras \<noteq> []"
    and "find_anchor g ma = Inr m" and "find_anchor g sa = Inr s" and "node_inputs (node_at g s) = Some ins"
  defines "k \<equiv> next_node_id 100 g" and "ls \<equiv> take wan_max_loras loras"
  shows "node_at g' s = set_inputs (dict_set ''model'' (link (show_nat (k + length ls - 1)) 0) ins) (node_at g s)"
    and "i \<in> fst ` set g \<Longrightarrow> i \<noteq> s \<Longrightarrow> node_at g' i = node_at g i"
    and "n < length ls \<Longrightarrow> node_at g' (show_nat (k + n)) =
      wan_lora_node (ls ! n) (if n = 0 then link m 0 else link (show_nat (k + n - 1)) 0)"
    and "n < length ls \<Longrightarrow> show_nat (k + n) \<in> fst ` set g'"
    and "find_anchor g a = Inr i \<Longrightarrow> find_anchor g' a = Inr i"
    and "fst ` set g \<subseteq> fst ` set g'"
proof -
  let ?chain = "wan_chain k (link m 0) ls"
  note g' = between_result [OF assms(1-5), folded k_def ls_def]
  have s: "s \<in> fst ` set g" using find_anchor_member [OF assms(4)] .
  have dom: "fst ` set g' = fst ` set (g @ ?chain)"
    using same_shape_ids [OF put_inputs_shape [of "g @ ?chain" s]] unfolding g' by (metis list.set_map)
  show "node_at g' s = set_inputs (dict_set ''model'' (link (show_nat (k + length ls - 1)) 0) ins) (node_at g s)"
    unfolding g' using s by (simp add: node_at_put node_at_prefix image_Un)
  show "i \<in> fst ` set g \<Longrightarrow> i \<noteq> s \<Longrightarrow> node_at g' i = node_at g i"
    unfolding g' by (simp add: node_at_put node_at_prefix)
  have fresh: "show_nat (k + n) \<notin> fst ` set g" for n
    unfolding k_def by (rule next_node_id_fresh [of 100]) simp
  then have "show_nat (k + n) \<noteq> s" using s by metis
  then show "n < length ls \<Longrightarrow> node_at g' (show_nat (k + n)) =
      wan_lora_node (ls ! n) (if n = 0 then link m 0 else link (show_nat (k + n - 1)) 0)"
    unfolding g' using wan_chain_node [of n ls k "link m 0"] node_at_append [OF fresh]
    by (simp add: node_at_put)
  show "show_nat (k + n) \<in> fst ` set g'" if "n < length ls"
  proof -
    have "show_nat (k + n) \<in> set (map fst ?chain)" using that by (simp add: wan_chain_ids)
    then show ?thesis by (simp add: dom image_Un)
  qed
  show "find_anchor g a = Inr i \<Longrightarrow> find_anchor g' a = Inr i"
    unfolding g' by (simp add: same_shape_find [OF put_inputs_shape] find_anchor_append)
  show "fst ` set g \<subseteq> fst ` set g'" by (simp add: dom image_Un)
qed

text \<open>
  On a two-expert WAN graph, with at least two LoRAs, the second LoRA feeds the low-noise
  sampling node and all others, in order and at most five of them, the high-noise one: from
  the \<open>model\<close> input of each sampling node the links lead back through exactly these LoRAs to
  the loader of that expert.
\<close>

theorem wan_dual_expert_loras:
  assumes "inject_wan_core_loras g loras = Inr g'" and "loras = l0 # l1 # rest"
    and "find_anchor g ''%WAN_MODEL%'' = Inr m" and "find_anchor g ''%WAN_SHIFT%'' = Inr s"
    and "find_anchor g ''%WAN_MODEL_LOW%'' = Inr m2" and "find_anchor g ''%WAN_SHIFT_LOW%'' = Inr s2"
    and "s \<noteq> s2" and "node_inputs (node_at g s) = Some ins" and "node_inputs (node_at g s2) = Some ins2"
  shows "\<exists>v v2. node_inputs (node_at g' s) = Some (dict_set ''model'' v ins) \<and>
    node_inputs (node_at g' s2) = Some (dict_set ''model'' v2 ins2) \<and>
    wan_walk (Suc (min 4 (length rest))) g' v = (rev (lora_files (l0 # take 4 rest)), link m 0) \<and>
    wan_walk 1 g' v2 = (lora_files [l1], link m2 0)"
proof -
  let ?high = "l0 # rest"
  have o: "optional_anchor g ''%WAN_MODEL_LOW%'' = Inr (Some m2)" "optional_anchor g ''%WAN_SHIFT_LOW%'' = Inr (Some s2)"
    using assms(5,6) by (simp_all add: optional_anchor_def)
  obtain g1 where 1: "inject_wan_core_loras_between g ?high ''%WAN_MODEL%'' ''%WAN_SHIFT%'' = Inr g1"
    and 2: "inject_wan_core_loras_between g1 [l1] ''%WAN_MODEL_LOW%'' ''%WAN_SHIFT_LOW%'' = Inr g'"
    using assms(1,2) o by (auto simp: inject_wan_core_loras_def bind_r_Inr Let_def)
  define k where "k = next_node_id 100 g"
  define k2 where "k2 = next_node_id 100 g1"
  define ls where "ls = take wan_max_loras ?high"
  have ls: "ls = l0 # take 4 rest" by (simp add: ls_def wan_max_loras_def eval_nat_numeral)
  note b1 = between_nodes [OF 1 _ assms(3,4,8), folded k_def ls_def, simplified]
  have s1: "s \<in> fst ` set g1" using b1(6) find_anchor_member [OF assms(4)] by blast
  have s2: "s2 \<in> fst ` set g" using find_anchor_member [OF assms(6)] .
  have ins2: "node_inputs (node_at g1 s2) = Some ins2"
    using b1(2) [OF s2] assms(7,9) by simp
  note b2 = between_nodes [OF 2 _ b1(5) [OF assms(5)] b1(5) [OF assms(6)] ins2, folded k2_def, simplified]
  have "node_at g' s = node_at g1 s" by (rule b2(2) [OF s1 assms(7)])
  then have v: "node_inputs (node_at g' s) = Some (dict_set ''model'' (link (show_nat (k + length ls - 1)) 0) ins)"
    using b1(1) by simp
  have v2: "node_inputs (node_at g' s2) = Some (dict_set ''model'' (link (show_nat k2) 0) ins2)"
    using b2(1) by (simp add: wan_max_loras_def)
  have "node_at g' (show_nat (k + n)) = wan_lora_node (ls ! n) (if n = 0 then link m 0 else link (show_nat (k + n - 1)) 0)"
    if "n < length ls" for n
  proof -
    have "show_nat (k + n) \<notin> fst ` set g" unfolding k_def by (rule next_node_id_fresh [of 100]) simp
    then have "show_nat (k + n) \<noteq> s2" using s2 by metis
    then show ?thesis using b2(2) [OF b1(4) [OF that]] b1(3) [OF that] by simp
  qed
  note w = walk_wan_chain [of ls g' k "link m 0" "length ls - 1", OF this]
  have take_min: "take (min (length rest) 4) rest = take 4 rest" by (cases "length rest \<le> 4") auto
  have "wan_walk (Suc (min 4 (length rest))) g' (link (show_nat (k + length ls - 1)) 0) =
    (rev (lora_files (l0 # take 4 rest)), link m 0)"
    using w ls arg_cong [OF take_min, of "\<lambda>xs. rev (lora_files (l0 # xs))"]
    by (simp add: min.commute del: walk_back.simps)
  moreover have "wan_walk 1 g' (link (show_nat k2) 0) = (lora_files [l1], link m2 0)"
    using walk_wan_chain [of "[l1]" g' k2 "link m2 0" 0] b2(3) [of 0]
    by (simp add: wan_max_loras_def lora_files_def del: walk_back.simps)
  ultimately show ?thesis using v v2 by blast
qed

definition demo_wan_graph :: graph where
  "demo_wan_graph =
     [(''1'', [(''class_type'', VStr ''UNETLoader''), (''inputs'', VDict []),
               (''_meta'', VDict [(''title'', VStr ''%WAN_MODEL%'')])]),
      (''2'', [(''class_type'', VStr ''ModelSamplingSD3''), (''inputs'', VDict [(''model'', link ''1'' 0)]),
               (''_meta'', VDict [(''title'', VStr ''%WAN_SHIFT%'')])]),
      (''3'', [(''class_type'', VStr ''UNETLoader''), (''inputs'', VDict []),
               (''_meta'', VDict [(''title'', VStr ''%WAN_MODEL_LOW%'')])]),
      (''4'', [(''class_type'', VStr ''ModelSamplingSD3''), (''inputs'', VDict [(''model'', link ''3'' 0)]),
               (''_meta'', VDict [(''title'', VStr ''%WAN_SHIFT_LOW%'')])])]"

lemma demo_wan_title: "title_anchors [(''class_type'', c), (''inputs'', ins), (''_meta'', VDict [(''title'', VStr t)])] =
    Inr (filter is_anchor (map strip (split_on (CHR '','') t)))"
  by (simp add: title_anchors_def py_or_def)

lemma demo_wan_anchors:
  "find_anchor demo_wan_graph ''%WAN_MODEL%'' = Inr ''1''" "find_anchor demo_wan_graph ''%WAN_SHIFT%'' = Inr ''2''"
  "find_anchor demo_wan_graph ''%WAN_MODEL_LOW%'' = Inr ''3''" "find_anchor demo_wan_graph ''%WAN_SHIFT_LOW%'' = Inr ''4''"
  by (simp_all add: demo_wan_graph_def demo_wan_title is_anchor_def starts_with_def ends_with_def
      strip_by_def is_space_def Let_def)

lemma demo_wan_inputs:
  "node_inputs (node_at demo_wan_graph ''2'') = Some [(''model'', link ''1'' 0)]"
  "node_inputs (node_at demo_wan_graph ''4'') = Some [(''model'', link ''3'' 0)]"
  by (simp_all add: demo_wan_graph_def node_at_def node_inputs_def)

lemma between_total:
  assumes "loras \<noteq> []" and "find_anchor g ma = Inr m" and "find_anchor g sa = Inr s"
  shows "\<exists>g'. inject_wan_core_loras_between g loras ma sa = Inr g'"
  using assms by (simp add: inject_wan_core_loras_between_def require_anchor_def Let_def split_beta)

theorem wan_dual_expert_loras_witness:
  "\<exists>g' v2. inject_wan_core_loras demo_wan_graph demo_loras = Inr g' \<and>
     wan_walk 1 g' v2 = ([VStr ''b.safetensors''], link ''3'' 0)"
proof -
  let ?a = "\<lparr>lr_name = ''a'', lr_weight = 1\<rparr>" and ?b = "\<lparr>lr_name = ''b'', lr_weight = 2\<rparr>"
  note d = demo_wan_anchors demo_wan_inputs
  obtain g1 where 1: "inject_wan_core_loras_between demo_wan_graph [?a] ''%WAN_MODEL%'' ''%WAN_SHIFT%'' = Inr g1"
    using between_total d by blast
  note b = between_nodes(5) [OF 1 _ d(1,2,5)]
  obtain g' where "inject_wan_core_loras_between g1 [?b] ''%WAN_MODEL_LOW%'' ''%WAN_SHIFT_LOW%'' = Inr g'"
    using between_total [OF _ b [OF _ d(3)] b [OF _ d(4)]] by blast
  with 1 have g': "inject_wan_core_loras demo_wan_graph demo_loras = Inr g'"
    by (simp add: inject_wan_core_loras_def demo_loras_def optional_anchor_def d)
  from wan_dual_expert_loras [OF this _ d(1-4) _ d(5,6), of ?a ?b "[]"] g' show ?thesis
    by (auto simp: demo_loras_def lora_files_def)
qed

section \<open>Injectors keep the shape\<close>

lemma patch_anchor_shape: "patch_anchor who a f g = Inr g' \<Longrightarrow> same_shape g g'"
  by (auto simp: patch_anchor_def bind_r_Inr dest: patch_inputs_shape)

lemma inject_wan_unet_shape: "inject_wan_unet file g i = Inr g' \<Longrightarrow> same_shape g g'"
  by (auto simp: inject_wan_unet_def dest: patch_inputs_shape)

lemma inject_wan_vae_shape: "inject_wan_vae cfg g i = Inr g' \<Longrightarrow> same_shape g g'"
  by (auto simp: inject_wan_vae_def Let_def dest: patch_inputs_shape split: option.splits)

lemma inject_wan_t5_shape: "inject_wan_t5 cfg g i = Inr g' \<Longrightarrow> same_shape g g'"
  by (auto simp: inject_wan_t5_def dest: patch_inputs_shape split: option.splits)

lemma inject_video_weights_shape: "inject_video_weights g cfg = Inr g' \<Longrightarrow> same_shape g g'"
proof -
  assume "inject_video_weights g cfg = Inr g'"
  then obtain m v t g1 low g2 g3 g4 clip where
    s: "inject_wan_unet (mc_checkpoint cfg) g m = Inr g1"
    "(case low of None \<Rightarrow> Inr g1 | Some low_id \<Rightarrow>
       (case path_set (mc_wan_unet_low cfg) of
          None \<Rightarrow> Inl (WorkflowValidationError ''inject_video_weights: wan_unet_low is unset'')
        | Some low_path \<Rightarrow> inject_wan_unet low_path g1 low_id)) = Inr g2"
    "inject_wan_vae cfg g2 v = Inr g3" "inject_wan_t5 cfg g3 t = Inr g4"
    "(case clip of None \<Rightarrow> Inr g4 | Some clip_id \<Rightarrow>
         patch_inputs ''inject_video_weights'' (\<lambda>ins. case path_set (mc_wan_clip_vision cfg) of
           None \<Rightarrow> ins | Some cv \<Rightarrow> set_str ''clip_name'' (basename cv) ins) clip_id g4) = Inr g'"
    unfolding inject_video_weights_def bind_r_Inr by blast
  have "same_shape g g1" using s(1) by (rule inject_wan_unet_shape)
  also have "same_shape g1 g2" using s(2) by (auto split: option.splits dest: inject_wan_unet_shape)
  also have "same_shape g2 g3" using s(3) by (rule inject_wan_vae_shape)
  also have "same_shape g3 g4" using s(4) by (rule inject_wan_t5_shape)
  also have "same_shape g4 g'" using s(5) by (auto split: option.splits dest: patch_inputs_shape)
  finally show ?thesis .
qed

lemma inject_mmaudio_weights_shape: "inject_mmaudio_weights g cfg = Inr g' \<Longrightarrow> same_shape g g'"
  by (clarsimp simp: inject_mmaudio_weights_def bind_r_Inr)
    (auto split: option.splits simp: bind_r_Inr dest!: patch_inputs_shape intro: same_shape_trans)

lemma disconnect_shape: "same_shape g (disconnect_wan_model_loader_lora i g)"
  unfolding disconnect_wan_model_loader_lora_def
  by (rule same_shape_map) (auto split: option.splits pyval.splits list.splits)

lemma inject_wan_lora_multi_shape: "inject_wan_lora_multi g loras ml lm = Inr g' \<Longrightarrow> same_shape g g'"
  by (auto simp: inject_wan_lora_multi_def bind_r_Inr split: option.splits if_splits
      dest!: patch_inputs_shape intro: same_shape_trans [OF _ disconnect_shape])

lemma inject_init_image_shape: "inject_init_image g f = Inr g' \<Longrightarrow> same_shape g g'"
  by (clarsimp simp: inject_init_image_def bind_r_Inr) (auto split: option.splits pyval.splits)

lemma set_ltxv_audio_vaes_shape: "same_shape g (set_ltxv_audio_vaes g)"
  unfolding set_ltxv_audio_vaes_def by (rule same_shape_map) (auto split: option.splits)

lemma inject_ltxv_weights_shape: "inject_ltxv_weights g cfg = Inr g' \<Longrightarrow> same_shape g g'"
  by (auto simp: inject_ltxv_weights_def Let_def bind_r_Inr dest!: patch_inputs_shape
      intro: same_shape_trans set_ltxv_audio_vaes_shape)

lemma wan_knobs_shape:
  "patch_if_class a cls p g = Inr g' \<Longrightarrow> same_shape g g'"
  "patch_if_anchor a p g = Inr g' \<Longrightarrow> same_shape g g'"
  by (auto simp: patch_if_class_def patch_if_anchor_def bind_r_Inr split: if_splits option.splits
      dest: patch_inputs_shape)

lemma when_some_shape:
  assumes "when_some opt f g = Inr g'" and "\<And>p. f p g = Inr g' \<Longrightarrow> same_shape g g'"
  shows "same_shape g g'"
  using assms by (cases opt) (auto simp: when_some_def)

lemma if_shape: "(if b then F g else Inr g) = Inr g' \<Longrightarrow> (F g = Inr g' \<Longrightarrow> same_shape g g') \<Longrightarrow> same_shape g g'"
  by (auto split: if_splits)

lemma apply_wan_advanced_patches_shape:
  assumes "apply_wan_advanced_patches g adv task = Inr g'"
  shows "same_shape g g'"
proof (cases adv)
  case None
  then show ?thesis using assms by (simp add: apply_wan_advanced_patches_def)
next
  case (Some opts)
  with assms obtain g1 g2 g3 g4 where s:
    "(if task = ''i2v'' then when_some (wa_encode opts) (patch_if_class ''%WAN_DIMS%'' ''WanVideoImageToVideoEncode'') g
      else Inr g) = Inr g1"
    "(if task = ''i2v'' then when_some (wa_clip_encode opts) (patch_if_anchor ''%WAN_CLIP_ENCODE%'') g1
      else Inr g1) = Inr g2"
    "when_some (wa_decode opts) (patch_if_class ''%WAN_DECODE%'' ''WanVideoDecode'') g2 = Inr g3"
    "when_some (wa_block_swap opts) (patch_if_anchor ''%WAN_BLOCK_SWAP%'') g3 = Inr g4"
    "when_some (wa_export opts)
      (\<lambda>p. patch_anchor ''apply_wan_advanced_patches'' ''%VIDEO_OUTPUT%'' (merge_non_none p)) g4 = Inr g'"
    unfolding apply_wan_advanced_patches_def by (auto simp: bind_r_Inr)
  have "same_shape g g1" using s(1) by (rule if_shape) (erule when_some_shape, erule wan_knobs_shape)
  also have "same_shape g1 g2" using s(2) by (rule if_shape) (erule when_some_shape, erule wan_knobs_shape)
  also have "same_shape g2 g3" using s(3) by (rule when_some_shape) (erule wan_knobs_shape)
  also have "same_shape g3 g4" using s(4) by (rule when_some_shape) (erule wan_knobs_shape)
  also have "same_shape g4 g'" using s(5) by (rule when_some_shape) (erule patch_anchor_shape)
  finally show ?thesis .
qed

text \<open>
  No injector other than the LoRA chains touches the structure of a graph: whichever of
  them succeeds, the nodes keep their ids, their order and their classes, and every anchor is
  still found on the node it was on, so the injectors can be applied in any order.
\<close>

theorem injectors_keep_anchors:
  assumes "inject_model_source g cfg = Inr g' \<or> inject_video_weights g cfg = Inr g' \<or>
    inject_mmaudio_weights g cfg = Inr g' \<or> inject_wan_lora_multi g loras merge low_mem = Inr g' \<or>
    apply_wan_advanced_patches g adv task = Inr g' \<or> inject_init_image g file = Inr g' \<or>
    inject_ltxv_weights g cfg = Inr g' \<or> inject_ltxv_video_vae g file = Inr g' \<or>
    inject_ltxv_seed g seed = Inr g' \<or> inject_ltxv_frames g frames = Inr g'"
  shows "map fst g' = map fst g \<and> find_anchor g' a = find_anchor g a \<and> class_of g' i = class_of g i \<and>
    validate_anchors g' required = validate_anchors g required"
proof -
  have s: "same_shape g g'"
    using assms by (elim disjE)
      (auto simp: inject_ltxv_video_vae_def inject_ltxv_seed_def inject_ltxv_frames_def
        dest: inject_model_source_shape inject_video_weights_shape inject_mmaudio_weights_shape
          inject_wan_lora_multi_shape apply_wan_advanced_patches_shape inject_init_image_shape
          inject_ltxv_weights_shape patch_anchor_shape)
  show ?thesis
    by (simp add: same_shape_ids [OF s] same_shape_find [OF s] same_shape_class [OF s]
        same_shape_validate [OF s])
qed

theorem injectors_keep_anchors_witness:
  "\<exists>g'. inject_init_image demo_wan_graph ''i.png'' = Inr g' \<and> find_anchor g' ''%WAN_SHIFT%'' = Inr ''2''"
proof -
  have i: "inject_init_image demo_wan_graph ''i.png'' = Inr demo_wan_graph"
    by (simp add: inject_init_image_def optional_anchor_def demo_wan_graph_def demo_wan_title
        is_anchor_def starts_with_def ends_with_def strip_by_def is_space_def Let_def)
  then have "find_anchor demo_wan_graph ''%WAN_SHIFT%'' = find_anchor demo_wan_graph ''%WAN_SHIFT%''"
    using injectors_keep_anchors by blast
  with i demo_wan_anchors show ?thesis by simp
qed

end
