(* ===== verification/Registry.thy ===== *)
theory Registry
  imports Video_Graph Url
begin

text \<open>
  \<open>app/registry/models.py\<close> and \<open>presets.py\<close>: loading and validating the model and preset
  registries. The YAML documents arrive parsed; a value whose type is not the one the
  configuration declares is outside the model (\<open>OutsideModel\<close>; Python would carry it on or
  raise another exception). The sampler and scheduler tables are those of
  \<open>app/validation.py\<close>.
\<close>

section \<open>Tables\<close>

definition allowed_samplers :: "string set" where
  "allowed_samplers = {''euler'', ''euler_ancestral'', ''heun'', ''dpm_2'', ''dpm_2_ancestral'', ''lms'',
     ''dpmpp_2s_ancestral'', ''dpmpp_sde'', ''dpmpp_2m'', ''dpmpp_2m_sde'', ''dpmpp_3m_sde'',
     ''ddim'', ''uni_pc''}"

definition allowed_schedulers :: "string set" where
  "allowed_schedulers = {''normal'', ''karras'', ''exponential'', ''sgm_uniform'', ''simple'', ''ddim_uniform''}"

definition allowed_samplers_by_family :: "string \<Rightarrow> string set option" where
  "allowed_samplers_by_family = [''sdxl'' \<mapsto> allowed_samplers,
     ''flux'' \<mapsto> {''euler'', ''euler_ancestral'', ''dpmpp_2m'', ''dpmpp_2m_sde''},
     ''qwen'' \<mapsto> {''euler'', ''euler_ancestral'', ''dpmpp_2m'', ''dpmpp_2m_sde''}]"

definition allowed_schedulers_by_family :: "string \<Rightarrow> string set option" where
  "allowed_schedulers_by_family = [''sdxl'' \<mapsto> allowed_schedulers,
     ''flux'' \<mapsto> {''simple'', ''karras'', ''normal''}, ''qwen'' \<mapsto> {''simple'', ''karras'', ''normal''}]"

definition allowed_families :: "string set" where
  "allowed_families = {''sdxl'', ''flux'', ''qwen'', ''wan22'', ''ltxv''}"

section \<open>Entries\<close>

text \<open>
  \<open>RegistryValidationError\<close> (and its preset twin) by stage, \<open>KeyError\<close> of a missing field,
  and values outside the model.
\<close>

datatype registry_error =
    RegistryValidationError string
  | MissingKey string
  | OutsideModel

definition str_field :: "pydict \<Rightarrow> string \<Rightarrow> registry_error + string" where
  "str_field d k = (case map_of d k of
     None \<Rightarrow> Inl (MissingKey k) | Some (VStr s) \<Rightarrow> Inr s | Some _ \<Rightarrow> Inl OutsideModel)"

definition opt_field :: "pydict \<Rightarrow> string \<Rightarrow> registry_error + string option" where
  "opt_field d k = (case dict_get d k of
     VNone \<Rightarrow> Inr None | VStr s \<Rightarrow> Inr (Some s) | _ \<Rightarrow> Inl OutsideModel)"

definition str_field_or :: "string \<Rightarrow> pydict \<Rightarrow> string \<Rightarrow> registry_error + string" where
  "str_field_or dflt d k = (case map_of d k of
     None \<Rightarrow> Inr dflt | Some (VStr s) \<Rightarrow> Inr s | Some _ \<Rightarrow> Inl OutsideModel)"

definition dict_field :: "pydict \<Rightarrow> string \<Rightarrow> registry_error + pydict" where
  "dict_field d k = (case py_or (dict_get d k) (VDict []) of VDict x \<Rightarrow> Inr x | _ \<Rightarrow> Inl OutsideModel)"

fun as_number :: "pyval \<Rightarrow> rat option" where
  "as_number (VInt i) = Some (of_int i)"
| "as_number (VFloat f) = Some f"
| "as_number (VBool b) = Some (if b then 1 else 0)"
| "as_number _ = None"

definition number_field :: "pydict \<Rightarrow> string \<Rightarrow> registry_error + rat" where
  "number_field d k = (case map_of d k of None \<Rightarrow> Inl (MissingKey k)
     | Some v \<Rightarrow> (case as_number v of None \<Rightarrow> Inl OutsideModel | Some r \<Rightarrow> Inr r))"

definition dict_list_field :: "pydict \<Rightarrow> string \<Rightarrow> registry_error + pydict list" where
  "dict_list_field d k = (case py_or (dict_get d k) (VList []) of
     VList xs \<Rightarrow> map_r (\<lambda>v. if is_dict v then Inr (dict_of v) else Inl OutsideModel) xs
   | _ \<Rightarrow> Inl OutsideModel)"

definition parse_entry :: "pydict \<Rightarrow> registry_error + model_config" where
  "parse_entry raw =
     bind_r (str_field raw ''name'') (\<lambda>name.
     bind_r (str_field_or ''comfyui'' raw ''backend'') (\<lambda>backend.
     bind_r (str_field raw ''workflow'') (\<lambda>workflow.
     bind_r (str_field raw ''checkpoint'') (\<lambda>checkpoint.
     bind_r (opt_field raw ''vae'') (\<lambda>vae.
     bind_r (opt_field raw ''clip_l'') (\<lambda>clip_l.
     bind_r (opt_field raw ''t5xxl'') (\<lambda>t5xxl.
     bind_r (opt_field raw ''dual_clip_type'') (\<lambda>dual_clip_type.
     bind_r (opt_field raw ''clip_loader_type'') (\<lambda>clip_loader_type.
     bind_r (str_field_or ''sdxl'' raw ''family'') (\<lambda>family.
     bind_r (number_field raw ''vram_estimate_gb'') (\<lambda>vram.
     bind_r (str_field_or ''eps'' raw ''prediction'') (\<lambda>prediction.
     bind_r (dict_field raw ''capabilities'') (\<lambda>capabilities.
     bind_r (dict_field raw ''defaults'') (\<lambda>defs.
     bind_r (dict_field raw ''limits'') (\<lambda>limits.
     bind_r (opt_field raw ''wan_t5_encoder'') (\<lambda>wan_t5_encoder.
     bind_r (opt_field raw ''wan_clip_vision'') (\<lambda>wan_clip_vision.
     bind_r (opt_field raw ''wan_unet_low'') (\<lambda>wan_unet_low.
     bind_r (dict_list_field raw ''default_loras'') (\<lambda>default_loras.
     bind_r (opt_field raw ''workflow_with_audio'') (\<lambda>workflow_with_audio.
     bind_r (opt_field raw ''mmaudio_vae'') (\<lambda>mmaudio_vae.
     bind_r (opt_field raw ''mmaudio_synchformer'') (\<lambda>mmaudio_synchformer.
     bind_r (opt_field raw ''mmaudio_clip'') (\<lambda>mmaudio_clip.
     bind_r (opt_field raw ''mmaudio_diffusion'') (\<lambda>mmaudio_diffusion.
     bind_r (opt_field raw ''ltxv_text_encoder'') (\<lambda>ltxv_text_encoder.
     Inr \<lparr>mc_name = name, mc_backend = backend, mc_workflow_path = workflow, mc_checkpoint = checkpoint,
          mc_vae = vae, mc_vram_estimate_gb = vram, mc_clip_l = clip_l, mc_t5xxl = t5xxl,
          mc_dual_clip_type = dual_clip_type, mc_clip_loader_type = clip_loader_type,
          mc_family = family, mc_prediction = prediction, mc_capabilities = capabilities,
          mc_defaults = defs, mc_limits = limits, mc_wan_t5_encoder = wan_t5_encoder,
          mc_wan_clip_vision = wan_clip_vision, mc_wan_unet_low = wan_unet_low,
          mc_skip_asset_validation = truthy (dict_get raw ''skip_asset_validation''),
          mc_default_loras = default_loras, mc_workflow_with_audio = workflow_with_audio,
          mc_mmaudio_vae = mmaudio_vae, mc_mmaudio_synchformer = mmaudio_synchformer,
          mc_mmaudio_clip = mmaudio_clip, mc_mmaudio_diffusion = mmaudio_diffusion,
          mc_ltxv_text_encoder = ltxv_text_encoder\<rparr>)))))))))))))))))))))))))"

section \<open>Checks\<close>

text \<open>What the loader sees of the disk, by paths relative to the models and workflows roots.\<close>

record disk =
  dk_model_exists :: "string \<Rightarrow> bool"
  dk_workflow_exists :: "string \<Rightarrow> bool"
  dk_workflow_is_file :: "string \<Rightarrow> bool"
  dk_workflow_read :: "string \<Rightarrow> file_read"

abbreviation stage :: "bool \<Rightarrow> string \<Rightarrow> registry_error + unit" where
  "stage b s \<equiv> check b (RegistryValidationError s)"

text \<open>Checks in sequence: the first failure is the outcome.\<close>

fun all_checks :: "('e + unit) list \<Rightarrow> 'e + unit" where
  "all_checks [] = Inr ()"
| "all_checks (c # cs) = bind_r c (\<lambda>_. all_checks cs)"

definition sampler_known :: "string set option \<Rightarrow> pyval \<Rightarrow> bool" where
  "sampler_known allowed v \<longleftrightarrow> v = VNone \<or>
     (\<exists>s \<in> (case allowed of None \<Rightarrow> {} | Some a \<Rightarrow> a). v = VStr s)"

definition video_task_ok :: "model_config \<Rightarrow> bool" where
  "video_task_ok cfg \<longleftrightarrow> dict_get (mc_capabilities cfg) ''video_task'' \<in> {VStr ''t2v'', VStr ''i2v''}"

definition field_checks :: "model_config \<Rightarrow> (registry_error + unit) list" where
  "field_checks cfg =
     (let image_family = mc_family cfg \<notin> {''wan22'', ''ltxv''};
          wan = mc_family cfg = ''wan22''; ltxv = mc_family cfg = ''ltxv''
      in [stage (mc_backend cfg = ''comfyui'') ''unknown_backend'',
          stage (mc_prediction cfg \<in> {''eps'', ''vpred''}) ''unknown_prediction'',
          stage (mc_family cfg \<in> allowed_families) ''unknown_family'',
          stage (mc_prediction cfg \<noteq> ''vpred'') ''vpred_deferred'',
          stage (\<not> image_family \<or> sampler_known (allowed_samplers_by_family (mc_family cfg))
                   (dict_get (mc_defaults cfg) ''sampler'')) ''unknown_sampler'',
          stage (\<not> image_family \<or> sampler_known (allowed_schedulers_by_family (mc_family cfg))
                   (dict_get (mc_defaults cfg) ''scheduler'')) ''unknown_scheduler'',
          stage (\<not> wan \<or> video_task_ok cfg) ''wan22_video_task'',
          stage (\<not> wan \<or> path_set (mc_wan_t5_encoder cfg) \<noteq> None) ''wan22_t5_missing'',
          stage (\<not> (wan \<and> dict_get (mc_capabilities cfg) ''video_task'' = VStr ''i2v'' \<and>
                    path_set (mc_wan_clip_vision cfg) = None)) ''wan22_clip_missing'',
          stage (\<not> wan \<or> path_set (mc_vae cfg) \<noteq> None) ''wan22_vae_missing'',
          stage (\<not> ltxv \<or> video_task_ok cfg) ''ltxv_video_task'',
          stage (\<not> ltxv \<or> path_set (mc_ltxv_text_encoder cfg) \<noteq> None) ''ltxv_text_encoder_missing''])"

definition asset_check :: "disk \<Rightarrow> model_config \<Rightarrow> string option \<Rightarrow> string \<Rightarrow> registry_error + unit" where
  "asset_check dk cfg p s = stage (case p of None \<Rightarrow> True
     | Some path \<Rightarrow> mc_skip_asset_validation cfg \<or> dk_model_exists dk path) s"

definition asset_checks :: "disk \<Rightarrow> model_config \<Rightarrow> (registry_error + unit) list" where
  "asset_checks dk cfg =
     [asset_check dk cfg (Some (mc_checkpoint cfg)) ''checkpoint_missing'',
      asset_check dk cfg (mc_vae cfg) ''vae_missing'',
      asset_check dk cfg (mc_clip_l cfg) ''clip_l_missing'',
      asset_check dk cfg (mc_t5xxl cfg) ''t5xxl_missing'',
      asset_check dk cfg (mc_wan_t5_encoder cfg) ''wan_t5_missing'',
      asset_check dk cfg (mc_wan_clip_vision cfg) ''wan_clip_missing'',
      asset_check dk cfg (mc_wan_unet_low cfg) ''wan_unet_low_missing'',
      asset_check dk cfg (mc_ltxv_text_encoder cfg) ''ltxv_te_missing'']"

definition mmaudio_checks :: "disk \<Rightarrow> model_config \<Rightarrow> (registry_error + unit) list" where
  "mmaudio_checks dk cfg =
     (if mc_workflow_with_audio cfg = None then []
      else concat (map (\<lambda>p. [stage (path_set p \<noteq> None) ''mmaudio_config_incomplete'',
                             asset_check dk cfg p ''mmaudio_asset_missing''])
             [mc_mmaudio_vae cfg, mc_mmaudio_synchformer cfg, mc_mmaudio_clip cfg, mc_mmaudio_diffusion cfg]))"

text \<open>
  \<open>except WorkflowValidationError\<close> turns into the stage; another exception passes (here
  \<open>OutsideModel\<close>: an anchor title or a node of the wrong type).
\<close>

definition as_stage :: "string \<Rightarrow> workflow_error + 'a \<Rightarrow> registry_error + 'a" where
  "as_stage s r = (case r of
     Inr x \<Rightarrow> Inr x
   | Inl (WorkflowValidationError _) \<Rightarrow> Inl (RegistryValidationError s)
   | Inl (AnchorProblems _ _) \<Rightarrow> Inl (RegistryValidationError s)
   | Inl _ \<Rightarrow> Inl OutsideModel)"

text \<open>\<open>str(vt)\<close> of the declared video task.\<close>

definition task_text :: "model_config \<Rightarrow> string" where
  "task_text cfg = (case dict_get (mc_capabilities cfg) ''video_task'' of VStr s \<Rightarrow> s | _ \<Rightarrow> ''None'')"

definition has_anchor :: "string \<Rightarrow> graph \<Rightarrow> string \<Rightarrow> registry_error + bool" where
  "has_anchor s g a = bind_r (as_stage s (optional_anchor g a)) (\<lambda>i. Inr (i \<noteq> None))"

definition workflow_check :: "disk \<Rightarrow> model_config \<Rightarrow> registry_error + graph" where
  "workflow_check dk cfg =
     bind_r (stage (dk_workflow_exists dk (mc_workflow_path cfg)) ''workflow_missing'') (\<lambda>_.
     bind_r (as_stage ''anchors_missing'' (load_workflow (dk_workflow_read dk (mc_workflow_path cfg)))) (\<lambda>g.
     if mc_family cfg = ''wan22'' then
       bind_r (as_stage ''anchors_missing''
         (bind_r (required_anchors_for_video_task (task_text cfg)) (validate_anchors g))) (\<lambda>_.
       bind_r (has_anchor ''anchors_missing'' g ''%WAN_MODEL_LOW%'') (\<lambda>need_low.
       bind_r (stage (\<not> (need_low \<and> path_set (mc_wan_unet_low cfg) = None)) ''wan22_wan_unet_low_missing'') (\<lambda>_.
       bind_r (stage (\<not> (path_set (mc_wan_unet_low cfg) \<noteq> None \<and> \<not> need_low)) ''wan22_wan_unet_low_unused'') (\<lambda>_.
       Inr g))))
     else if mc_family cfg = ''ltxv'' then
       bind_r (as_stage ''anchors_missing''
         (bind_r (required_anchors_for_ltxv_task (task_text cfg)) (validate_anchors g))) (\<lambda>_. Inr g)
     else bind_r (as_stage ''anchors_missing'' (validate_anchors g (required_anchors_for_family (mc_family cfg))))
       (\<lambda>_. Inr g)))"

definition audio_check :: "disk \<Rightarrow> model_config \<Rightarrow> graph \<Rightarrow> registry_error + unit" where
  "audio_check dk cfg g = (case path_set (mc_workflow_with_audio cfg) of
     None \<Rightarrow> Inr ()
   | Some audio \<Rightarrow>
       bind_r (stage (dk_workflow_is_file dk audio) ''workflow_audio_missing'') (\<lambda>_.
       bind_r (as_stage ''anchors_audio_missing'' (load_workflow (dk_workflow_read dk audio))) (\<lambda>ag.
       bind_r (as_stage ''anchors_audio_missing''
         (bind_r (required_anchors_for_wan22_audio_task (task_text cfg)) (validate_anchors ag))) (\<lambda>_.
       if mc_family cfg = ''wan22'' then
         bind_r (has_anchor ''anchors_audio_missing'' ag ''%WAN_MODEL_LOW%'') (\<lambda>audio_need_low.
         bind_r (has_anchor ''anchors_audio_missing'' g ''%WAN_MODEL_LOW%'') (\<lambda>silent_need_low.
         stage (audio_need_low = silent_need_low) ''wan22_audio_low_mismatch''))
       else Inr ()))))"

definition validate_entry :: "disk \<Rightarrow> rat \<Rightarrow> model_config \<Rightarrow> registry_error + unit" where
  "validate_entry dk vram_budget_gb cfg =
     bind_r (all_checks (field_checks cfg)) (\<lambda>_.
     bind_r (all_checks (asset_checks dk cfg)) (\<lambda>_.
     bind_r (all_checks (mmaudio_checks dk cfg)) (\<lambda>_.
     bind_r (workflow_check dk cfg) (\<lambda>g.
     bind_r (audio_check dk cfg g) (\<lambda>_.
     stage (\<not> vram_budget_gb < mc_vram_estimate_gb cfg) ''vram_over_budget'')))))"

section \<open>Loading\<close>

type_synonym registry = "(string \<times> model_config) list"

fun load_entries :: "disk \<Rightarrow> rat \<Rightarrow> pydict list \<Rightarrow> registry \<Rightarrow> registry_error + registry" where
  "load_entries dk budget [] models = Inr models"
| "load_entries dk budget (raw # rest) models =
     bind_r (parse_entry raw) (\<lambda>cfg.
     bind_r (stage (mc_name cfg \<notin> fst ` set models) ''duplicate_name'') (\<lambda>_.
     bind_r (validate_entry dk budget cfg) (\<lambda>_.
     load_entries dk budget rest (dict_set (mc_name cfg) cfg models))))"

datatype yaml_read = YamlMissing | YamlInvalid | YamlDoc pyval

definition load_registry :: "yaml_read \<Rightarrow> disk \<Rightarrow> rat \<Rightarrow> registry_error + registry" where
  "load_registry yaml dk vram_budget_gb = (case yaml of
     YamlMissing \<Rightarrow> Inl (RegistryValidationError ''yaml_missing'')
   | YamlInvalid \<Rightarrow> Inl (RegistryValidationError ''yaml_invalid'')
   | YamlDoc v \<Rightarrow>
       (case py_or v (VDict []) of
          VDict doc \<Rightarrow>
            bind_r (dict_list_field doc ''models'') (\<lambda>entries.
            bind_r (stage (entries \<noteq> []) ''empty_registry'') (\<lambda>_.
            load_entries dk vram_budget_gb entries []))
        | _ \<Rightarrow> Inl OutsideModel))"

definition registry_get :: "registry \<Rightarrow> string \<Rightarrow> model_config option" where
  "registry_get models name = map_of models name"

definition registry_names :: "registry \<Rightarrow> string list" where
  "registry_names models = map fst models"

section \<open>Presets\<close>

record preset_lora =
  pl_name :: string
  pl_weight :: rat

record preset_config =
  pc_id :: string
  pc_version :: string
  pc_asset_type :: string
  pc_status :: string
  pc_confirmed :: bool
  pc_description :: string
  pc_model :: string
  pc_loras :: "preset_lora list"
  pc_generation_defaults :: pydict
  pc_supported_asset_types :: "pyval list"
  pc_variables_schema :: "pyval list"

text \<open>\<open>str(raw[k])\<close> of a text, an integer or a boolean, and \<open>str(raw.get(k, d))\<close>.\<close>

definition text_field :: "pydict \<Rightarrow> string \<Rightarrow> registry_error + string" where
  "text_field d k = (case map_of d k of None \<Rightarrow> Inl (MissingKey k)
     | Some v \<Rightarrow> (case id_text v of None \<Rightarrow> Inl OutsideModel | Some s \<Rightarrow> Inr s))"

definition text_field_or :: "string \<Rightarrow> pydict \<Rightarrow> string \<Rightarrow> registry_error + string" where
  "text_field_or dflt d k = (if map_of d k = None then Inr dflt else text_field d k)"

definition list_field :: "pydict \<Rightarrow> string \<Rightarrow> registry_error + pyval list" where
  "list_field d k = (case py_or (dict_get d k) (VList []) of VList xs \<Rightarrow> Inr xs | _ \<Rightarrow> Inl OutsideModel)"

definition parse_preset :: "pydict \<Rightarrow> registry_error + preset_config" where
  "parse_preset raw =
     bind_r (dict_field raw ''bundle'') (\<lambda>bundle.
     bind_r (dict_list_field bundle ''loras'') (\<lambda>loras_raw.
     bind_r (map_r (\<lambda>l. bind_r (text_field l ''name'') (\<lambda>n. bind_r (number_field l ''weight'') (\<lambda>w.
       Inr \<lparr>pl_name = n, pl_weight = w\<rparr>))) loras_raw) (\<lambda>loras.
     bind_r (text_field raw ''id'') (\<lambda>i.
     bind_r (text_field raw ''version'') (\<lambda>version.
     bind_r (text_field raw ''asset_type'') (\<lambda>asset_type.
     bind_r (text_field_or ''draft'' raw ''status'') (\<lambda>status.
     bind_r (text_field_or '''' raw ''description'') (\<lambda>description.
     bind_r (text_field bundle ''model'') (\<lambda>model.
     bind_r (dict_field raw ''generation_defaults'') (\<lambda>gd.
     bind_r (list_field raw ''supported_asset_types'') (\<lambda>sat.
     bind_r (list_field raw ''variables_schema'') (\<lambda>vs.
     Inr \<lparr>pc_id = i, pc_version = version, pc_asset_type = asset_type, pc_status = status,
          pc_confirmed = truthy (dict_get raw ''confirmed''), pc_description = description,
          pc_model = model, pc_loras = loras, pc_generation_defaults = gd,
          pc_supported_asset_types = sat, pc_variables_schema = vs\<rparr>))))))))))))"

text \<open>\<open>^[A-Za-z0-9_][A-Za-z0-9_/\-.]*$\<close>, matched in full.\<close>

definition lora_name_ok :: "string \<Rightarrow> bool" where
  "lora_name_ok s = (case s of [] \<Rightarrow> False
     | c # cs \<Rightarrow> (is_alnum c \<or> c = CHR ''_'') \<and>
         list_all (\<lambda>c. is_alnum c \<or> c \<in> {CHR ''_'', CHR ''/'', CHR ''-'', CHR ''.''}) cs)"

definition preset_checks :: "string list \<Rightarrow> preset_config \<Rightarrow> (registry_error + unit) list" where
  "preset_checks known_models p =
     [stage (pc_status p \<in> {''draft'', ''approved'', ''deprecated''}) ''preset_unknown_status'',
      stage (pc_model p \<in> set known_models) ''preset_unknown_model'',
      stage (list_all (\<lambda>l. lora_name_ok (pl_name l)) (pc_loras p)) ''preset_lora_name_invalid'',
      stage (\<not> pc_confirmed p \<or> strip (pc_description p) \<noteq> []) ''preset_confirmed_missing_description'',
      stage (\<not> pc_confirmed p \<or> {''size'', ''steps'', ''cfg''} \<subseteq> fst ` set (pc_generation_defaults p))
        ''preset_confirmed_missing_defaults'']"

type_synonym preset_registry = "(string \<times> preset_config) list"

fun load_presets :: "string list \<Rightarrow> pydict list \<Rightarrow> preset_registry \<Rightarrow> registry_error + preset_registry" where
  "load_presets known_models [] parsed = Inr parsed"
| "load_presets known_models (raw # rest) parsed =
     bind_r (parse_preset raw) (\<lambda>p.
     bind_r (stage (pc_id p \<notin> fst ` set parsed) ''preset_duplicate_id'') (\<lambda>_.
     bind_r (all_checks (preset_checks known_models p)) (\<lambda>_.
     load_presets known_models rest (dict_set (pc_id p) p parsed))))"

definition load_preset_registry :: "yaml_read \<Rightarrow> registry \<Rightarrow> registry_error + preset_registry" where
  "load_preset_registry yaml models = (case yaml of
     YamlMissing \<Rightarrow> Inl (RegistryValidationError ''preset_yaml_missing'')
   | YamlInvalid \<Rightarrow> Inl (RegistryValidationError ''preset_yaml_invalid'')
   | YamlDoc v \<Rightarrow>
       (case py_or v (VDict []) of
          VDict doc \<Rightarrow>
            bind_r (dict_list_field doc ''presets'') (\<lambda>entries.
            bind_r (stage (entries \<noteq> []) ''preset_empty_registry'') (\<lambda>_.
            load_presets (registry_names models) entries []))
        | _ \<Rightarrow> Inl OutsideModel))"

definition confirmed_for_model :: "preset_registry \<Rightarrow> string \<Rightarrow> preset_config list" where
  "confirmed_for_model ps model_name =
     filter (\<lambda>p. pc_model p = model_name) (filter pc_confirmed (map snd ps))"

section \<open>What a load guarantees\<close>

lemma all_checks_Inr: "all_checks cs = Inr () \<longleftrightarrow> list_all (\<lambda>c. c = Inr ()) cs"
  by (induction cs) (auto simp: bind_r_Inr)

lemma load_entries_step:
  assumes "load_entries dk budget (raw # rest) models = Inr r"
  obtains c where "parse_entry raw = Inr c" "validate_entry dk budget c = Inr ()"
    "mc_name c \<notin> fst ` set models" "load_entries dk budget rest (models @ [(mc_name c, c)]) = Inr r"
proof -
  from assms obtain c where c: "parse_entry raw = Inr c" "mc_name c \<notin> fst ` set models"
    "validate_entry dk budget c = Inr ()" "load_entries dk budget rest (dict_set (mc_name c) c models) = Inr r"
    by (auto simp: bind_r_Inr)
  with dict_set_fresh [OF c(2)] that show thesis by simp
qed

lemma load_entries_inv:
  assumes "load_entries dk budget es models = Inr r"
    and "distinct (map fst models)" and "\<And>k c. (k, c) \<in> set models \<Longrightarrow> P k c"
    and "\<And>raw c. parse_entry raw = Inr c \<Longrightarrow> validate_entry dk budget c = Inr () \<Longrightarrow> P (mc_name c) c"
  shows "distinct (map fst r) \<and> length r = length models + length es \<and> (\<forall>(k, c) \<in> set r. P k c)"
  using assms(1-3)
proof (induction es arbitrary: models)
  case (Cons raw rest)
  from Cons.prems(1) obtain c where c: "parse_entry raw = Inr c" "validate_entry dk budget c = Inr ()"
    "mc_name c \<notin> fst ` set models" "load_entries dk budget rest (models @ [(mc_name c, c)]) = Inr r"
    by (rule load_entries_step)
  have "distinct (map fst (models @ [(mc_name c, c)]))" using Cons.prems(2) c(3) by simp
  moreover have "P k d" if "(k, d) \<in> set (models @ [(mc_name c, c)])" for k d
    using that Cons.prems(3) assms(4) [OF c(1,2)] by auto
  ultimately show ?case using Cons.IH [OF c(4)] by simp
qed auto

lemma as_stage_Inr [simp]: "as_stage s r = Inr x \<longleftrightarrow> r = Inr x"
  by (auto simp: as_stage_def split: sum.splits workflow_error.splits)

text \<open>The anchors a model's workflow must declare.\<close>

definition required_anchors_of :: "model_config \<Rightarrow> workflow_error + string list" where
  "required_anchors_of cfg =
     (if mc_family cfg = ''wan22'' then required_anchors_for_video_task (task_text cfg)
      else if mc_family cfg = ''ltxv'' then required_anchors_for_ltxv_task (task_text cfg)
      else Inr (required_anchors_for_family (mc_family cfg)))"

lemma workflow_check_anchors:
  assumes "workflow_check dk cfg = Inr g"
  shows "\<exists>req. load_workflow (dk_workflow_read dk (mc_workflow_path cfg)) = Inr g \<and>
    required_anchors_of cfg = Inr req \<and> validate_anchors g req = Inr ()"
proof -
  consider "mc_family cfg = ''wan22''" | "mc_family cfg \<noteq> ''wan22''" "mc_family cfg = ''ltxv''"
    | "mc_family cfg \<noteq> ''wan22''" "mc_family cfg \<noteq> ''ltxv''" by blast
  then show ?thesis
    using assms by cases (auto simp: workflow_check_def required_anchors_of_def bind_r_Inr)
qed

lemma workflow_check_low:
  assumes "workflow_check dk cfg = Inr g" and "mc_family cfg = ''wan22''"
  shows "path_set (mc_wan_unet_low cfg) \<noteq> None"
proof -
  from assms obtain req b where req: "required_anchors_for_video_task (task_text cfg) = Inr req"
    "validate_anchors g req = Inr ()" and b: "has_anchor ''anchors_missing'' g ''%WAN_MODEL_LOW%'' = Inr b"
    and ok: "\<not> (b \<and> path_set (mc_wan_unet_low cfg) = None)"
    by (auto simp: workflow_check_def bind_r_Inr)
  have "''%WAN_MODEL_LOW%'' \<in> set req"
    using req(1) by (auto simp: required_anchors_for_video_task_def base_anchors_wan22_def split: if_splits)
  then obtain i where "find_anchor g ''%WAN_MODEL_LOW%'' = Inr i"
    using validate_find [OF req(2)] by blast
  then have b using b by (simp add: has_anchor_def optional_anchor_def as_stage_def)
  with ok show ?thesis by simp
qed

definition entry_good :: "disk \<Rightarrow> rat \<Rightarrow> string \<Rightarrow> model_config \<Rightarrow> bool" where
  "entry_good dk budget k c \<longleftrightarrow> k = mc_name c \<and> mc_family c \<in> allowed_families \<and>
     mc_prediction c = ''eps'' \<and> mc_vram_estimate_gb c \<le> budget \<and>
     (mc_skip_asset_validation c \<or> dk_model_exists dk (mc_checkpoint c)) \<and>
     (\<exists>g req. load_workflow (dk_workflow_read dk (mc_workflow_path c)) = Inr g \<and>
        required_anchors_of c = Inr req \<and> (\<forall>a \<in> set req. \<exists>i. find_anchor g a = Inr i)) \<and>
     (mc_family c = ''wan22'' \<longrightarrow> path_set (mc_wan_unet_low c) \<noteq> None \<and> path_set (mc_vae c) \<noteq> None \<and>
        path_set (mc_wan_t5_encoder c) \<noteq> None)"

lemma validate_entry_good:
  assumes "validate_entry dk budget c = Inr ()"
  shows "entry_good dk budget (mc_name c) c"
proof -
  from assms obtain g where f: "all_checks (field_checks c) = Inr ()" and a: "all_checks (asset_checks dk c) = Inr ()"
    and g: "workflow_check dk c = Inr g" and v: "mc_vram_estimate_gb c \<le> budget"
    by (auto simp: validate_entry_def bind_r_Inr)
  from workflow_check_anchors [OF g] obtain req where
    "load_workflow (dk_workflow_read dk (mc_workflow_path c)) = Inr g"
    "required_anchors_of c = Inr req" "validate_anchors g req = Inr ()" by blast
  moreover from f [unfolded all_checks_Inr] have "mc_family c \<in> allowed_families" "mc_prediction c = ''eps''"
    "mc_family c = ''wan22'' \<Longrightarrow> path_set (mc_vae c) \<noteq> None \<and> path_set (mc_wan_t5_encoder c) \<noteq> None"
    by (auto simp: field_checks_def Let_def)
  moreover from a [unfolded all_checks_Inr] have "mc_skip_asset_validation c \<or> dk_model_exists dk (mc_checkpoint c)"
    by (auto simp: asset_checks_def asset_check_def)
  ultimately show ?thesis
    using workflow_check_low [OF g] v validate_find unfolding entry_good_def by blast
qed

text \<open>
  C26: A model registry that loads is usable: it has at least one model and as many as the
  document has entries, under distinct names; every model is of a known family, is not
  v-prediction, fits the VRAM budget, has its checkpoint on disk (unless asset checks are off)
  and a workflow in which every anchor its pipeline needs is found. A WAN model has its VAE,
  text encoder and also the second (low-noise) UNET: without \<open>wan_unet_low\<close> it is refused,
  since \<open>%WAN_MODEL_LOW%\<close> is among the anchors every WAN workflow must declare.
\<close>

theorem load_registry_sound:
  assumes "load_registry (YamlDoc doc) dk budget = Inr models"
  shows "models \<noteq> [] \<and> distinct (registry_names models) \<and>
    (\<exists>es. dict_list_field (dict_of doc) ''models'' = Inr es \<and> length models = length es) \<and>
    (\<forall>k c. registry_get models k = Some c \<longrightarrow> k = mc_name c \<and> mc_family c \<in> allowed_families \<and>
       mc_prediction c = ''eps'' \<and> mc_vram_estimate_gb c \<le> budget \<and>
       (mc_skip_asset_validation c \<or> dk_model_exists dk (mc_checkpoint c)) \<and>
       (\<exists>g req. load_workflow (dk_workflow_read dk (mc_workflow_path c)) = Inr g \<and>
          required_anchors_of c = Inr req \<and> (\<forall>a \<in> set req. \<exists>i. find_anchor g a = Inr i)) \<and>
       (mc_family c = ''wan22'' \<longrightarrow> path_set (mc_wan_unet_low c) \<noteq> None \<and> path_set (mc_vae c) \<noteq> None \<and>
          path_set (mc_wan_t5_encoder c) \<noteq> None))"
proof -
  obtain d where d: "py_or doc (VDict []) = VDict d"
    using assms by (auto simp: load_registry_def split: pyval.splits)
  with assms obtain es where es: "dict_list_field d ''models'' = Inr es" "es \<noteq> []"
    "load_entries dk budget es [] = Inr models"
    by (auto simp: load_registry_def bind_r_Inr)
  have inv: "distinct (map fst models) \<and> length models = length ([] :: registry) + length es \<and>
    (\<forall>(k, c) \<in> set models. entry_good dk budget k c)"
    using es(3) by (rule load_entries_inv) (simp_all add: validate_entry_good)
  have "dict_of doc = d"
  proof (cases "truthy doc")
    case True
    then show ?thesis using d by (simp add: py_or_def)
  next
    case False
    then show ?thesis using d es by (simp add: py_or_def dict_list_field_def)
  qed
  with inv es have "models \<noteq> [] \<and> distinct (registry_names models) \<and>
    (\<exists>es. dict_list_field (dict_of doc) ''models'' = Inr es \<and> length models = length es)"
    by (auto simp: registry_names_def)
  moreover have "entry_good dk budget k c" if "registry_get models k = Some c" for k c
    using inv map_of_SomeD [of models k c] that by (auto simp: registry_get_def)
  ultimately show ?thesis unfolding entry_good_def by blast
qed

definition demo_title :: string where
  "demo_title = ''%MODEL_SOURCE%,%CLIP_SOURCE%,%LORA_INSERT%,%POSITIVE_PROMPT%,%NEGATIVE_PROMPT%,%KSAMPLER%,%OUTPUT%''"

definition demo_disk :: disk where
  "demo_disk = \<lparr>dk_model_exists = (\<lambda>p. p = ''c.safetensors''), dk_workflow_exists = (\<lambda>_. True),
     dk_workflow_is_file = (\<lambda>_. True), dk_workflow_read = (\<lambda>_. FileText (Some (VDict
       [(''1'', VDict [(''_meta'', VDict [(''title'', VStr demo_title)])])])))\<rparr>"

definition demo_entry :: pydict where
  "demo_entry = [(''name'', VStr ''m''), (''workflow'', VStr ''w.json''),
     (''checkpoint'', VStr ''c.safetensors''), (''vram_estimate_gb'', VInt 5)]"

lemma demo_title_anchors: "title_anchors [(''_meta'', VDict [(''title'', VStr demo_title)])] = Inr required_anchors_sdxl"
  by (simp add: title_anchors_def py_or_def demo_title_def required_anchors_sdxl_def is_anchor_def
      starts_with_def ends_with_def strip_by_def is_space_def Let_def)

lemma demo_validate_anchors:
  "validate_anchors [(''1'', [(''_meta'', VDict [(''title'', VStr demo_title)])])] required_anchors_sdxl = Inr ()"
  by (simp add: validate_anchors_def anchor_owners_def demo_title_anchors owners_of_def Let_def)
    (simp add: required_anchors_sdxl_def)

lemma demo_parse_entry: "\<exists>c. parse_entry demo_entry = Inr c \<and> mc_name c = ''m'' \<and> mc_family c = ''sdxl'' \<and>
    mc_backend c = ''comfyui'' \<and> mc_prediction c = ''eps'' \<and> mc_defaults c = [] \<and> mc_checkpoint c = ''c.safetensors'' \<and>
    mc_workflow_path c = ''w.json'' \<and> mc_vae c = None \<and> mc_clip_l c = None \<and> mc_t5xxl c = None \<and>
    mc_wan_t5_encoder c = None \<and> mc_wan_clip_vision c = None \<and> mc_wan_unet_low c = None \<and>
    mc_ltxv_text_encoder c = None \<and> mc_workflow_with_audio c = None \<and> mc_vram_estimate_gb c = 5"
  by (simp add: parse_entry_def demo_entry_def str_field_def str_field_or_def opt_field_def dict_field_def
      number_field_def dict_list_field_def py_or_def)

lemma demo_registry: "\<exists>r. load_registry (YamlDoc (VDict [(''models'', VList [VDict demo_entry])])) demo_disk 12 = Inr r"
proof -
  from demo_parse_entry obtain c where c: "parse_entry demo_entry = Inr c" "mc_name c = ''m''" "mc_family c = ''sdxl''"
    "mc_backend c = ''comfyui''" "mc_prediction c = ''eps''" "mc_defaults c = []" "mc_checkpoint c = ''c.safetensors''"
    "mc_workflow_path c = ''w.json''" "mc_vae c = None" "mc_clip_l c = None" "mc_t5xxl c = None"
    "mc_wan_t5_encoder c = None" "mc_wan_clip_vision c = None" "mc_wan_unet_low c = None"
    "mc_ltxv_text_encoder c = None" "mc_workflow_with_audio c = None" "mc_vram_estimate_gb c = 5" by blast
  have "workflow_check demo_disk c = Inr [(''1'', [(''_meta'', VDict [(''title'', VStr demo_title)])])]"
    by (simp add: workflow_check_def c demo_disk_def load_workflow_def required_anchors_for_family_def
        demo_validate_anchors as_stage_def check_def)
  then have "validate_entry demo_disk 12 c = Inr ()"
    by (simp add: validate_entry_def field_checks_def asset_checks_def asset_check_def mmaudio_checks_def
        audio_check_def path_set_def sampler_known_def allowed_families_def c demo_disk_def check_def Let_def)
  with c(1) show ?thesis
    by (simp add: load_registry_def py_or_def dict_list_field_def check_def)
qed

theorem load_registry_sound_witness:
  "\<exists>r. load_registry (YamlDoc (VDict [(''models'', VList [VDict demo_entry])])) demo_disk 12 = Inr r \<and>
     length r = 1"
proof -
  from demo_registry obtain r where
    r: "load_registry (YamlDoc (VDict [(''models'', VList [VDict demo_entry])])) demo_disk 12 = Inr r" by blast
  from load_registry_sound [OF r] have "length r = 1"
    by (auto simp: dict_list_field_def py_or_def)
  with r show ?thesis by blast
qed

lemma load_presets_inv:
  assumes "load_presets known es parsed = Inr r"
    and "distinct (map fst parsed)" and "\<And>k p. (k, p) \<in> set parsed \<Longrightarrow> P k p"
    and "\<And>raw p. parse_preset raw = Inr p \<Longrightarrow> all_checks (preset_checks known p) = Inr () \<Longrightarrow> P (pc_id p) p"
  shows "distinct (map fst r) \<and> length r = length parsed + length es \<and> (\<forall>(k, p) \<in> set r. P k p)"
  using assms(1-3)
proof (induction es arbitrary: parsed)
  case (Cons raw rest)
  from Cons.prems(1) obtain p where p: "parse_preset raw = Inr p" "pc_id p \<notin> fst ` set parsed"
    "all_checks (preset_checks known p) = Inr ()"
    "load_presets known rest (dict_set (pc_id p) p parsed) = Inr r"
    by (auto simp: bind_r_Inr)
  have r: "load_presets known rest (parsed @ [(pc_id p, p)]) = Inr r" using p(4) dict_set_fresh [OF p(2)] by simp
  have "distinct (map fst (parsed @ [(pc_id p, p)]))" using Cons.prems(2) p(2) by simp
  moreover have "P k d" if "(k, d) \<in> set (parsed @ [(pc_id p, p)])" for k d
    using that Cons.prems(3) assms(4) [OF p(1,3)] by auto
  ultimately show ?case using Cons.IH [OF r] by simp
qed auto

text \<open>
  A preset registry that loads is consistent with the models it was loaded against:
  preset ids are distinct, each preset names a registered model, a known status and LoRA
  names of the permitted form, and a confirmed preset, which is what the API offers for a
  model, has a description and the defaults \<open>size\<close>, \<open>steps\<close> and \<open>cfg\<close>.
\<close>

theorem load_preset_registry_sound:
  assumes "load_preset_registry yaml models = Inr ps"
  shows "ps \<noteq> [] \<and> distinct (map fst ps) \<and>
    (\<forall>k p. (k, p) \<in> set ps \<longrightarrow> k = pc_id p \<and> registry_get models (pc_model p) \<noteq> None \<and>
       pc_status p \<in> {''draft'', ''approved'', ''deprecated''} \<and> list_all (\<lambda>l. lora_name_ok (pl_name l)) (pc_loras p)) \<and>
    (\<forall>m p. p \<in> set (confirmed_for_model ps m) \<longrightarrow> pc_model p = m \<and> strip (pc_description p) \<noteq> [] \<and>
       {''size'', ''steps'', ''cfg''} \<subseteq> fst ` set (pc_generation_defaults p))"
proof -
  from assms obtain doc es where es: "dict_list_field doc ''presets'' = Inr es" "es \<noteq> []"
    "load_presets (registry_names models) es [] = Inr ps"
    by (auto simp: load_preset_registry_def bind_r_Inr split: yaml_read.splits pyval.splits)
  let ?P = "\<lambda>k p. k = pc_id p \<and> list_all (\<lambda>c. c = Inr ()) (preset_checks (registry_names models) p)"
  have inv: "distinct (map fst ps) \<and> length ps = length ([] :: preset_registry) + length es \<and> (\<forall>(k, p) \<in> set ps. ?P k p)"
    using es(3) by (rule load_presets_inv) (simp_all only: all_checks_Inr, simp_all)
  then have c: "\<And>k p. (k, p) \<in> set ps \<Longrightarrow> ?P k p" by auto
  have "ps \<noteq> []" using inv es(2) by auto
  moreover have "k = pc_id p \<and> registry_get models (pc_model p) \<noteq> None \<and>
       pc_status p \<in> {''draft'', ''approved'', ''deprecated''} \<and> list_all (\<lambda>l. lora_name_ok (pl_name l)) (pc_loras p)"
    if "(k, p) \<in> set ps" for k p
  proof -
    from c [OF that] have s: "k = pc_id p" "pc_status p \<in> {''draft'', ''approved'', ''deprecated''}"
      "pc_model p \<in> set (registry_names models)" "list_all (\<lambda>l. lora_name_ok (pl_name l)) (pc_loras p)"
      by (simp_all add: preset_checks_def)
    then have "registry_get models (pc_model p) \<noteq> None"
      by (simp add: registry_get_def registry_names_def map_of_eq_None_iff)
    with s show ?thesis by blast
  qed
  moreover have "pc_model p = m \<and> strip (pc_description p) \<noteq> [] \<and>
       {''size'', ''steps'', ''cfg''} \<subseteq> fst ` set (pc_generation_defaults p)"
    if "p \<in> set (confirmed_for_model ps m)" for m p
  proof -
    from that obtain k where "(k, p) \<in> set ps" "pc_confirmed p" "pc_model p = m"
      by (auto simp: confirmed_for_model_def)
    with c [OF this(1)] show ?thesis by (auto simp: preset_checks_def)
  qed
  ultimately show ?thesis using inv by blast
qed

definition demo_preset :: pydict where
  "demo_preset = [(''id'', VStr ''p''), (''version'', VInt 1), (''asset_type'', VStr ''icon''),
     (''bundle'', VDict [(''model'', VStr ''m'')])]"

theorem load_preset_registry_sound_witness:
  "\<exists>c ps. load_preset_registry (YamlDoc (VDict [(''presets'', VList [VDict demo_preset])])) [(''m'', c)] = Inr ps \<and>
     ps \<noteq> []"
proof -
  have "\<exists>ps. load_preset_registry (YamlDoc (VDict [(''presets'', VList [VDict demo_preset])])) [(''m'', c)] = Inr ps" for c
    by (simp add: load_preset_registry_def py_or_def dict_list_field_def check_def demo_preset_def parse_preset_def
        dict_field_def text_field_def text_field_or_def list_field_def preset_checks_def registry_names_def)
  then show ?thesis using load_preset_registry_sound by blast
qed

end
