(* ===== verification/Civitai_Url.thy ===== *)
theory Civitai_Url
  imports Url Registry
begin

text \<open>
  \<open>app/loras/civitai_url.py\<close> and \<open>_validate_download_url\<close> of \<open>app/loras/civitai.py\<close>: which
  URLs an administrator may paste, which download URLs of Civitai's metadata may be requested,
  and the file name a download gets.
\<close>

section \<open>The URLs\<close>

definition allowed_hosts :: "string list" where
  "allowed_hosts = [''civitai.com'', ''civitai.red'']"

record parsed_civitai_url =
  pc_host :: string
  pc_model_id :: "int option"
  pc_version_id :: int

text \<open>What both validators ask before the host; \<open>Inl\<close> is the \<open>ValueError\<close>'s text.\<close>

definition plain_https_host :: "(string \<Rightarrow> bool) \<Rightarrow> string \<Rightarrow> string + parsed_url \<times> string" where
  "plain_https_host bracket_ok url = (case urlparse bracket_ok url of
     None \<Rightarrow> Inl ''invalid url''
   | Some parsed \<Rightarrow>
       if u_scheme parsed \<noteq> ''https'' then Inl ''scheme must be https''
       else if has_userinfo parsed then Inl ''url must not contain userinfo''
       else (case port parsed of
               Inl _ \<Rightarrow> Inl ''invalid port in url''
             | Inr (Some _) \<Rightarrow> Inl ''url must not specify a port''
             | Inr None \<Rightarrow> Inr (parsed, lower (hostname parsed))))"

text \<open>\<open>^/models/(\d+)(?:/[^/?#]*)?$\<close> and \<open>^/api/download/models/(\d+)$\<close>.\<close>

definition models_path :: "string \<Rightarrow> string option" where
  "models_path path =
     (if starts_with ''/models/'' path then
        (let rest = drop 8 path; digits = takeWhile is_digit rest; tail = dropWhile is_digit rest
         in if digits \<noteq> [] \<and> (tail = [] \<or> (hd tail = CHR ''/'' \<and>
               list_all (\<lambda>c. c \<notin> {CHR ''/'', CHR ''?'', CHR ''#''}) (tl tail)))
            then Some digits else None)
      else None)"

definition api_download_path :: "string \<Rightarrow> string option" where
  "api_download_path path =
     (if starts_with ''/api/download/models/'' path \<and> all_digits (drop 21 path)
      then Some (drop 21 path) else None)"

definition parse_civitai_url :: "(string \<Rightarrow> bool) \<Rightarrow> string \<Rightarrow> string + parsed_civitai_url" where
  "parse_civitai_url bracket_ok url =
     (if url = [] then Inl ''url must be a non-empty string''
      else bind_r (plain_https_host bracket_ok url) (\<lambda>(parsed, host).
        if host \<notin> set allowed_hosts then Inl ''host not in allowlist''
        else (case api_download_path (u_path parsed) of
          Some vid \<Rightarrow> Inr \<lparr>pc_host = host, pc_model_id = None, pc_version_id = int (nat_of_digits vid)\<rparr>
        | None \<Rightarrow>
            (case models_path (u_path parsed) of
               None \<Rightarrow> Inl ''unsupported civitai path''
             | Some mid \<Rightarrow>
                 (case parse_qs_get (u_query parsed) ''modelVersionId'' of
                    [] \<Rightarrow> Inl ''version_id required''
                  | [v] \<Rightarrow> (case py_int v of
                      None \<Rightarrow> Inl ''modelVersionId must be an integer''
                    | Some vid \<Rightarrow> Inr \<lparr>pc_host = host, pc_model_id = Some (int (nat_of_digits mid)),
                                       pc_version_id = vid\<rparr>)
                  | _ \<Rightarrow> Inl ''modelVersionId must appear exactly once'')))))"

definition download_suffixes :: "string list" where
  "download_suffixes = [''.civitai.com'', ''.civitai.red'']"

definition validate_download_url :: "(string \<Rightarrow> bool) \<Rightarrow> string \<Rightarrow> string + unit" where
  "validate_download_url bracket_ok url =
     bind_r (plain_https_host bracket_ok url) (\<lambda>(parsed, host).
       if host \<in> set allowed_hosts then Inr ()
       else if list_ex (\<lambda>suffix. ends_with suffix host) download_suffixes then Inr ()
       else Inl ''downloadUrl host is not in the Civitai allowlist'')"

section \<open>The file name\<close>

definition slug_char :: "char \<Rightarrow> bool" where
  "slug_char c \<longleftrightarrow> is_alnum c \<or> c \<in> {CHR ''_'', CHR ''.'', CHR ''-''}"

text \<open>\<open>re.sub\<close> of each maximal run of characters with \<open>p\<close> by one underscore.\<close>

fun sub_runs :: "(char \<Rightarrow> bool) \<Rightarrow> bool \<Rightarrow> string \<Rightarrow> string" where
  "sub_runs p inside [] = []"
| "sub_runs p inside (c # s) =
     (if p c then (if inside then sub_runs p True s else CHR ''_'' # sub_runs p True s)
      else c # sub_runs p False s)"

definition sanitize_slug :: "string \<Rightarrow> string" where
  "sanitize_slug filename =
     (let filename = (if ends_with ''.safetensors'' filename
                      then take (length filename - 12) filename else filename);
          cleaned = sub_runs (\<lambda>c. \<not> slug_char c) False filename;
          cleaned = sub_runs (\<lambda>c. c = CHR ''_'') False cleaned;
          cleaned = strip_by (\<lambda>c. c \<in> {CHR ''_'', CHR ''.''}) cleaned
      in if cleaned = [] then ''unnamed'' else cleaned)"

text \<open>\<open>civitai/<slug>_<version_id>\<close>, the name requests refer to.\<close>

definition canonical_name :: "string \<Rightarrow> int \<Rightarrow> string" where
  "canonical_name filename version_id = ''civitai/'' @ sanitize_slug filename @ ''_'' @ show_int version_id"

section \<open>The authority of an accepted URL\<close>

text \<open>
  \<open>ValueError\<close>-free bracketed netlocs hold an IPv6 address or an \<open>IPvFuture\<close> literal, and so a
  colon or a leading \<open>v\<close> between the brackets.
\<close>

definition brackets_are_ips :: "(string \<Rightarrow> bool) \<Rightarrow> bool" where
  "brackets_are_ips bracket_ok \<longleftrightarrow> (\<forall>n. bracket_ok n \<longrightarrow>
     (let inner = fst (partition_on (CHR '']'') (snd (partition_on (CHR ''['') n)))
      in CHR '':'' \<in> set inner \<or> (\<exists>s. inner = CHR ''v'' # s)))"

lemma urlparse_brackets:
  assumes "urlparse bracket_ok url = Some u" and "CHR ''['' \<in> set (u_netloc u)"
  shows "bracket_ok (u_netloc u)"
  using assms by (auto simp: urlparse_def Let_def split: prod.splits if_splits)

lemma not_in_rpartition: "c \<notin> set s \<Longrightarrow> rpartition_on c s = ([], s)"
  by (simp add: rpartition_on_def)

lemma partition_on_join: "fst (partition_on c s) @ (if c \<in> set s then [c] else []) @ snd (partition_on c s) = s"
proof (cases "c \<in> set s")
  case True
  then have "dropWhile (\<lambda>x. x \<noteq> c) s \<noteq> []" "hd (dropWhile (\<lambda>x. x \<noteq> c) s) = c"
    using dropWhile_eq_Nil_conv [of "\<lambda>x. x \<noteq> c" s] hd_dropWhile [of "\<lambda>x. x \<noteq> c" s] by auto
  then have "c # drop 1 (dropWhile (\<lambda>x. x \<noteq> c) s) = dropWhile (\<lambda>x. x \<noteq> c) s"
    by (cases "dropWhile (\<lambda>x. x \<noteq> c) s") auto
  with True show ?thesis by (simp add: partition_on_def)
next
  case False
  then have gone: "dropWhile (\<lambda>x. x \<noteq> c) s = []" by auto
  show ?thesis using False by (auto simp: partition_on_def gone)
qed

lemma to_lower_idem [simp]: "to_lower (to_lower c) = to_lower c"
  by (auto simp: to_lower_def Let_def)

lemma lower_simps [simp]:
  "lower (lower s) = lower s" "lower (s @ t) = lower s @ lower t" "lower [] = []" "lower (c # s) = to_lower c # lower s"
  by (simp_all add: lower_def comp_def)

lemma lower_hostname: "lower (hostname u) = lower (fst (host_port u))"
proof -
  have "lower (lower (takeWhile p s) @ dropWhile p s) = lower s" for p s
    by (metis lower_simps(1,2) takeWhile_dropWhile_id)
  then show ?thesis by (simp add: hostname_def Let_def del: lower_simps(1,2))
qed

lemma plain_https_hostD:
  assumes "plain_https_host bracket_ok url = Inr (u, host)"
  shows "urlparse bracket_ok url = Some u" and "u_scheme u = ''https''" and "port u = Inr None"
    and "host = lower (hostname u)" and "snd (rpartition_on (CHR ''@'') (u_netloc u)) = u_netloc u"
  using assms by (auto simp: plain_https_host_def has_userinfo_def not_in_rpartition
      split: option.splits sum.splits if_splits)

text \<open>
  Without userinfo and port, the authority is the host itself, up to an empty port and
  lower-casing.
\<close>

lemma plain_netloc_unbracketed:
  assumes "plain_https_host bracket_ok url = Inr (u, host)" and "CHR ''['' \<notin> set (u_netloc u)"
  shows "lower (u_netloc u) \<in> {host, host @ '':''}"
proof -
  note d = plain_https_hostD [OF assms(1)]
  have hp: "host_port u = partition_on (CHR '':'') (u_netloc u)" using assms(2) by (simp add: host_port_def d(5))
  moreover from this d(3) have "snd (partition_on (CHR '':'') (u_netloc u)) = []"
    by (auto simp: port_def Let_def split: if_splits)
  ultimately have parts: "fst (host_port u) @ (if CHR '':'' \<in> set (u_netloc u) then '':'' else []) = u_netloc u"
    using partition_on_join [of "CHR '':''" "u_netloc u"] by (simp split: if_splits)
  have "lower (u_netloc u) = lower (fst (host_port u)) @ lower (if CHR '':'' \<in> set (u_netloc u) then '':'' else [])"
    by (subst parts [symmetric]) (rule lower_simps(2))
  then have "lower (u_netloc u) = host @ lower (if CHR '':'' \<in> set (u_netloc u) then '':'' else [])"
    by (simp add: d(4) lower_hostname)
  then show ?thesis by (simp add: to_lower_def)
qed

lemma plain_netloc:
  assumes "plain_https_host bracket_ok url = Inr (u, host)" and "brackets_are_ips bracket_ok"
    and "CHR '':'' \<notin> set host" and "\<And>s. host \<noteq> CHR ''v'' # s"
  shows "lower (u_netloc u) \<in> {host, host @ '':''}"
proof (cases "CHR ''['' \<in> set (u_netloc u)")
  case True
  note d = plain_https_hostD [OF assms(1)]
  let ?inner = "fst (partition_on (CHR '']'') (snd (partition_on (CHR ''['') (u_netloc u))))"
  have inner: "host = lower ?inner"
    using d(4) True by (simp add: lower_hostname host_port_def d(5) split: prod.split)
  from assms(2) urlparse_brackets [OF d(1) True] consider "CHR '':'' \<in> set ?inner" | s where "?inner = CHR ''v'' # s"
    by (auto simp: brackets_are_ips_def Let_def)
  then show ?thesis
  proof cases
    case 1
    then have "to_lower (CHR '':'') \<in> set host" unfolding inner lower_def by (simp only: set_map imageI)
    then show ?thesis using assms(3) by (simp add: to_lower_def)
  next
    case (2 s)
    then have "host = to_lower (CHR ''v'') # lower s" unfolding inner by simp
    then show ?thesis using assms(4) by (simp add: to_lower_def)
  qed
qed (rule plain_netloc_unbracketed [OF assms(1)])

lemma urlparse_netloc_chars:
  assumes "urlparse bracket_ok url = Some u"
  shows "set (u_netloc u) \<subseteq> set url"
proof -
  have clean: "set (clean_url s) \<subseteq> set s" for s
    using set_dropWhileD [of _ c0_or_space s] by (auto simp: clean_url_def)
  have post: "set (snd (partition_on c s)) \<subseteq> set s" for c s
    by (auto simp: partition_on_def dest!: in_set_dropD set_dropWhileD)
  have rest: "set (snd (split_scheme s)) \<subseteq> set s" for s
    using post by (auto simp: split_scheme_def Let_def split_beta)
  have netloc: "set (fst (split_netloc s)) \<subseteq> set s" for s
    by (auto simp: split_netloc_def dest!: set_takeWhileD in_set_dropD)
  have "u_netloc u = fst (split_netloc (snd (split_scheme (clean_url url))))"
    using assms by (auto simp: urlparse_def Let_def split: prod.splits if_splits)
  with netloc rest clean show ?thesis by (metis subset_trans)
qed

text \<open>
  A pasted URL that is accepted names one of the two Civitai hosts and nothing else: it is
  HTTPS, and its whole authority is \<open>civitai.com\<close> or \<open>civitai.red\<close>, in any case, with at most an
  empty port; no user, port, bracket or longer host can be smuggled in.
\<close>

theorem fetch_url_authority:
  assumes "parse_civitai_url bracket_ok url = Inr p" and "brackets_are_ips bracket_ok"
  shows "\<exists>u. urlparse bracket_ok url = Some u \<and> u_scheme u = ''https'' \<and>
    pc_host p \<in> {''civitai.com'', ''civitai.red''} \<and> lower (u_netloc u) \<in> {pc_host p, pc_host p @ '':''}"
proof -
  from assms(1) obtain u where u: "plain_https_host bracket_ok url = Inr (u, pc_host p)"
    and host: "pc_host p \<in> {''civitai.com'', ''civitai.red''}"
    by (auto simp: parse_civitai_url_def bind_r_Inr allowed_hosts_def
        split: if_splits option.splits list.splits)
  from host have h: "CHR '':'' \<notin> set (pc_host p)" "\<And>s. pc_host p \<noteq> CHR ''v'' # s" by auto
  show ?thesis using plain_https_hostD(1,2) [OF u] plain_netloc [OF u assms(2) h] host by blast
qed

text \<open>
  A download URL that is let through and has no brackets goes to Civitai over HTTPS: its whole
  authority is one of the two hosts or a proper subdomain of one.
\<close>

lemma download_url_authority:
  assumes "validate_download_url bracket_ok url = Inr ()" and "CHR ''['' \<notin> set url"
  shows "\<exists>u host. urlparse bracket_ok url = Some u \<and> u_scheme u = ''https'' \<and>
    lower (u_netloc u) \<in> {host, host @ '':''} \<and>
    (host \<in> {''civitai.com'', ''civitai.red''} \<or> suffix ''.civitai.com'' host \<or> suffix ''.civitai.red'' host)"
proof -
  have ends: "ends_with x h \<Longrightarrow> suffix x h" for x h
    unfolding ends_with_def starts_with_def suffix_to_prefix by (metis take_is_prefix)
  from assms(1) obtain u host where u: "plain_https_host bracket_ok url = Inr (u, host)"
    and host: "host \<in> {''civitai.com'', ''civitai.red''} \<or> suffix ''.civitai.com'' host \<or> suffix ''.civitai.red'' host"
    by (auto simp: validate_download_url_def bind_r_Inr allowed_hosts_def download_suffixes_def
        split: if_splits dest!: ends)
  have "CHR ''['' \<notin> set (u_netloc u)"
    using urlparse_netloc_chars [OF plain_https_hostD(1) [OF u]] assms(2) by blast
  from plain_netloc_unbracketed [OF u this] plain_https_hostD(1,2) [OF u] host show ?thesis by blast
qed

section \<open>The name of a download\<close>

lemma sub_runs_chars: "c \<in> set (sub_runs p inside s) \<Longrightarrow> c = CHR ''_'' \<or> (c \<in> set s \<and> \<not> p c)"
  by (induction p inside s rule: sub_runs.induct) (auto split: if_splits)

lemma sanitize_slug_safe:
  "sanitize_slug filename \<noteq> [] \<and> list_all slug_char (sanitize_slug filename) \<and>
   hd (sanitize_slug filename) \<notin> {CHR ''_'', CHR ''.''} \<and> last (sanitize_slug filename) \<notin> {CHR ''_'', CHR ''.''}"
proof -
  define base where "base = (if ends_with ''.safetensors'' filename
                      then take (length filename - 12) filename else filename)"
  define joined where "joined = sub_runs (\<lambda>c. c = CHR ''_'') False (sub_runs (\<lambda>c. \<not> slug_char c) False base)"
  define trimmed where "trimmed = strip_by (\<lambda>c. c \<in> {CHR ''_'', CHR ''.''}) joined"
  have slug: "sanitize_slug filename = (if trimmed = [] then ''unnamed'' else trimmed)"
    by (simp add: sanitize_slug_def trimmed_def joined_def base_def Let_def)
  have "slug_char c" if "c \<in> set joined" for c
    using that by (auto simp: joined_def slug_char_def dest!: sub_runs_chars)
  then have "list_all slug_char trimmed"
    using set_strip_by unfolding trimmed_def list_all_iff by fast
  moreover have "hd trimmed \<notin> {CHR ''_'', CHR ''.''} \<and> last trimmed \<notin> {CHR ''_'', CHR ''.''}" if "trimmed \<noteq> []"
    using strip_by_edges that unfolding trimmed_def by blast
  ultimately show ?thesis unfolding slug by (auto simp: slug_char_def is_alnum_def)
qed

lemma show_int_chars: "list_all (\<lambda>c. is_digit c \<or> c = CHR ''-'') (show_int i)" "show_int i \<noteq> []"
  using show_nat_digits by (auto simp: show_int_def all_digits_def list_all_iff)

lemma minus_no_digit: "CHR ''-'' \<notin> set (show_nat n)"
  by (rule show_nat_no) (simp add: is_digit_def)

lemma show_int_inject: "show_int i = show_int j \<longleftrightarrow> i = j"
proof
  assume eq: "show_int i = show_int j"
  have "hd (show_nat n) \<noteq> CHR ''-''" for n
    using minus_no_digit [of n] show_nat_digits [of n] by (metis all_digits_def list.set_sel(1))
  then show "i = j" using eq
    by (auto simp: show_int_def show_nat_inject split: if_splits) (metis list.sel(1))+
qed simp

lemma underscore_free: "CHR ''_'' \<notin> set (show_int i)"
  using show_int_chars(1) [of i] by (auto simp: list_all_iff is_digit_def)

text \<open>
  Whatever Civitai calls a file, its download gets a name that a request can reference and
  that stays inside \<open>civitai/\<close>: the canonical name satisfies the pattern of LoRA names, its last
  segment is not empty, holds no slash and does not start with a dot; and the names of
  different versions are different.
\<close>

theorem canonical_names_safe:
  "lora_name_ok (canonical_name filename v) \<and>
   (\<exists>c base. canonical_name filename v = ''civitai/'' @ c # base \<and> CHR ''/'' \<notin> set (c # base) \<and> c \<noteq> CHR ''.'') \<and>
   (canonical_name filename v = canonical_name filename' v' \<longrightarrow> v = v')"
proof (intro conjI impI)
  let ?slug = "sanitize_slug filename"
  note safe = sanitize_slug_safe [of filename]
  have digit: "is_digit c \<Longrightarrow> is_alnum c" for c by (simp add: is_digit_def is_alnum_def Let_def)
  have chars: "\<forall>c \<in> set (?slug @ ''_'' @ show_int v). is_alnum c \<or> c \<in> {CHR ''_'', CHR ''-'', CHR ''.''}"
    using safe show_int_chars(1) [of v] digit by (auto simp: list_all_iff slug_char_def)
  then show "lora_name_ok (canonical_name filename v)"
    by (auto simp: lora_name_ok_def canonical_name_def list_all_iff is_alnum_def)
  obtain c cs where slug: "?slug = c # cs" using safe by (cases ?slug) auto
  then have "c \<noteq> CHR ''.''" using safe by simp
  moreover have "\<not> is_alnum (CHR ''/'')" by (simp add: is_alnum_def)
  then have "CHR ''/'' \<notin> set (?slug @ ''_'' @ show_int v)"
    using bspec [OF chars, of "CHR ''/''"] by auto
  then have "CHR ''/'' \<notin> set (c # cs @ ''_'' @ show_int v)" by (simp add: slug)
  moreover have "canonical_name filename v = ''civitai/'' @ c # cs @ ''_'' @ show_int v"
    by (simp add: canonical_name_def slug)
  ultimately show "\<exists>c base. canonical_name filename v = ''civitai/'' @ c # base \<and> CHR ''/'' \<notin> set (c # base) \<and> c \<noteq> CHR ''.''"
    by blast
  assume "canonical_name filename v = canonical_name filename' v'"
  then have "?slug @ CHR ''_'' # show_int v = sanitize_slug filename' @ CHR ''_'' # show_int v'"
    by (simp add: canonical_name_def)
  then have "rev (show_int v) @ CHR ''_'' # rev ?slug = rev (show_int v') @ CHR ''_'' # rev (sanitize_slug filename')"
    by (metis rev_append rev.simps(2) append.assoc append_Cons append_Nil)
  then have "takeWhile (\<lambda>c. c \<noteq> CHR ''_'') (rev (show_int v) @ CHR ''_'' # rev ?slug) =
      takeWhile (\<lambda>c. c \<noteq> CHR ''_'') (rev (show_int v') @ CHR ''_'' # rev (sanitize_slug filename'))"
    by simp
  then have "rev (show_int v) = rev (show_int v')"
    using underscore_free by (subst (asm) (1 2) takeWhile_append2) auto
  then show "v = v'" by (simp add: show_int_inject)
qed

theorem canonical_names_safe_witness:
  "canonical_name ''../a b.safetensors'' 7 = canonical_name ''../a/b.safetensors'' 7 \<and>
   lora_name_ok (canonical_name ''../a b.safetensors'' 7)"
proof
  show "canonical_name ''../a b.safetensors'' 7 = canonical_name ''../a/b.safetensors'' 7" by code_simp
  show "lora_name_ok (canonical_name ''../a b.safetensors'' 7)"
    using canonical_names_safe [of "''../a b.safetensors''" 7 "''../a/b.safetensors''" 7] by blast
qed

section \<open>Examples\<close>

theorem fetch_url_authority_witness:
  "\<exists>p. parse_civitai_url (\<lambda>_. False) ''https://Civitai.com/models/12?modelVersionId=34'' = Inr p \<and>
     pc_host p \<in> {''civitai.com'', ''civitai.red''}"
proof -
  have p: "parse_civitai_url (\<lambda>_. False) ''https://Civitai.com/models/12?modelVersionId=34'' =
      Inr \<lparr>pc_host = ''civitai.com'', pc_model_id = Some 12, pc_version_id = 34\<rparr>"
    by code_simp
  have "brackets_are_ips (\<lambda>_. False)" by (simp add: brackets_are_ips_def)
  from fetch_url_authority [OF p this] p show ?thesis by blast
qed

end
