(* ===== verification/Fetch_Store.thy ===== *)
theory Fetch_Store
  imports Job_Store
begin

text \<open>
  \<open>app/queue/fetches.py\<close> and \<open>app/queue/fetches_recovery.py\<close>: the \<open>lora_fetches\<close> table
  of asynchronous Civitai downloads, its transition table, the partial unique index that
  admits one active row per version, and the boot-time hand-over of interrupted fetches.
\<close>

section \<open>Statuses and rows\<close>

datatype lora_fetch_status = FPending | FDownloading | FVerifying | FDone | FFailed

fun fetch_transitions :: "lora_fetch_status \<Rightarrow> lora_fetch_status list" where
  "fetch_transitions FPending = [FDownloading, FFailed]"
| "fetch_transitions FDownloading = [FVerifying, FFailed]"
| "fetch_transitions FVerifying = [FDone, FFailed]"
| "fetch_transitions FDone = []"
| "fetch_transitions FFailed = []"

definition non_terminal_fetch :: "lora_fetch_status \<Rightarrow> bool" where
  "non_terminal_fetch s \<longleftrightarrow> s \<in> {FPending, FDownloading, FVerifying}"

fun fetch_rank :: "lora_fetch_status \<Rightarrow> nat" where
  "fetch_rank FPending = 0"
| "fetch_rank FDownloading = 1"
| "fetch_rank FVerifying = 2"
| "fetch_rank _ = 3"

interpretation fetch_machine: status_machine
  "\<lambda>s t. t \<in> set (fetch_transitions s)" "\<lambda>s. \<not> non_terminal_fetch s" fetch_rank 3
proof
  fix s t :: lora_fetch_status
  show "\<not> non_terminal_fetch s \<longleftrightarrow> (\<forall>t. t \<notin> set (fetch_transitions s))"
    by (cases s) (auto simp: non_terminal_fetch_def)
  show "t \<in> set (fetch_transitions s) \<Longrightarrow> fetch_rank s < fetch_rank t"
    by (cases s) auto
  show "fetch_rank s \<le> 3" by (cases s) auto
qed

record lora_fetch =
  f_id :: string
  f_url :: string
  f_civitai_model_id :: "int option"
  f_civitai_version_id :: int
  f_status :: lora_fetch_status
  f_progress_bytes :: int
  f_total_bytes :: "int option"
  f_dest_name :: "string option"
  f_error_code :: "string option"
  f_error_message :: "string option"
  f_handover :: bool
  f_created_at :: timestamp
  f_updated_at :: timestamp

type_synonym fetches = "lora_fetch list"
type_synonym fetch_error = "lora_fetch_status store_error"

abbreviation fetch_find :: "fetches \<Rightarrow> string \<Rightarrow> lora_fetch option" where
  "fetch_find \<equiv> tbl_find f_id"

abbreviation fetch_modify :: "string \<Rightarrow> (lora_fetch \<Rightarrow> lora_fetch) \<Rightarrow> fetches \<Rightarrow> fetches" where
  "fetch_modify \<equiv> tbl_modify f_id"

interpretation ft: row_store f_id fetch_find fetch_modify "tbl_insert f_id"
  by (rule row_store_tbl)

abbreviation active_fetch :: "lora_fetch \<Rightarrow> bool" where
  "active_fetch r \<equiv> non_terminal_fetch (f_status r)"

section \<open>Operations\<close>

text \<open>
  \<open>uq_lora_fetches_active_version\<close> (migration 003) refuses a second active row for a
  version: the INSERT raises \<open>IntegrityError\<close>.
\<close>

definition create_pending ::
  "fetches \<Rightarrow> string \<Rightarrow> timestamp \<Rightarrow> string \<Rightarrow> int option \<Rightarrow> int \<Rightarrow>
   fetch_error + (fetches \<times> lora_fetch)" where
  "create_pending t request_id now url civitai_model_id civitai_version_id =
     (let row = \<lparr>f_id = request_id, f_url = url, f_civitai_model_id = civitai_model_id,
                 f_civitai_version_id = civitai_version_id, f_status = FPending,
                 f_progress_bytes = 0, f_total_bytes = None, f_dest_name = None,
                 f_error_code = None, f_error_message = None, f_handover = False,
                 f_created_at = now, f_updated_at = now\<rparr>
      in if list_ex (\<lambda>r. active_fetch r \<and> f_civitai_version_id r = civitai_version_id) t
         then Inl IntegrityError
         else case tbl_insert f_id row t of
                None \<Rightarrow> Inl IntegrityError | Some t' \<Rightarrow> Inr (t', row))"

definition get_fetch_by_id :: "fetches \<Rightarrow> string \<Rightarrow> lora_fetch option" where
  "get_fetch_by_id t request_id = fetch_find t request_id"

definition find_active_by_version :: "fetches \<Rightarrow> int \<Rightarrow> lora_fetch option" where
  "find_active_by_version t v =
     List.find (\<lambda>r. f_civitai_version_id r = v \<and> active_fetch r) t"

definition read_fetch_status :: "fetches \<Rightarrow> string \<Rightarrow> fetch_error + lora_fetch_status" where
  "read_fetch_status t request_id =
     (case fetch_find t request_id of
        None \<Rightarrow> Inl (NotFoundError request_id) | Some r \<Rightarrow> Inr (f_status r))"

definition assert_fetch_allowed :: "lora_fetch_status \<Rightarrow> lora_fetch_status \<Rightarrow> fetch_error + unit" where
  "assert_fetch_allowed current target =
     (if target \<notin> set (fetch_transitions current)
      then Inl (InvalidTransitionError current target) else Inr ())"

definition set_status :: "fetches \<Rightarrow> string \<Rightarrow> lora_fetch_status \<Rightarrow> timestamp \<Rightarrow> fetch_error + fetches" where
  "set_status t request_id target now =
     bind_r (read_fetch_status t request_id) (\<lambda>current.
     bind_r (assert_fetch_allowed current target) (\<lambda>_.
       Inr (fetch_modify request_id (\<lambda>r. r\<lparr>f_status := target, f_updated_at := now\<rparr>) t)))"

definition set_total_bytes :: "fetches \<Rightarrow> string \<Rightarrow> int \<Rightarrow> timestamp \<Rightarrow> fetches" where
  "set_total_bytes t request_id total_bytes now =
     fetch_modify request_id (\<lambda>r. r\<lparr>f_total_bytes := Some total_bytes, f_updated_at := now\<rparr>) t"

definition set_progress :: "fetches \<Rightarrow> string \<Rightarrow> int \<Rightarrow> timestamp \<Rightarrow> fetches" where
  "set_progress t request_id progress now =
     fetch_modify request_id (\<lambda>r. r\<lparr>f_progress_bytes := progress, f_updated_at := now\<rparr>) t"

definition set_dest_name :: "fetches \<Rightarrow> string \<Rightarrow> string \<Rightarrow> timestamp \<Rightarrow> fetches" where
  "set_dest_name t request_id dest_name now =
     fetch_modify request_id (\<lambda>r. r\<lparr>f_dest_name := Some dest_name, f_updated_at := now\<rparr>) t"

definition failed_fetch_row :: "string \<Rightarrow> string \<Rightarrow> bool \<Rightarrow> timestamp \<Rightarrow> lora_fetch \<Rightarrow> lora_fetch" where
  "failed_fetch_row error_code error_message handover now r = r\<lparr>f_status := FFailed,
     f_error_code := Some error_code, f_error_message := Some error_message,
     f_handover := handover, f_updated_at := now\<rparr>"

definition set_fetch_failed ::
  "fetches \<Rightarrow> string \<Rightarrow> string \<Rightarrow> string \<Rightarrow> bool \<Rightarrow> timestamp \<Rightarrow> fetch_error + fetches" where
  "set_fetch_failed t request_id error_code error_message handover now =
     bind_r (read_fetch_status t request_id) (\<lambda>current.
     bind_r (assert_fetch_allowed current FFailed) (\<lambda>_.
       Inr (fetch_modify request_id (failed_fetch_row error_code error_message handover now) t)))"

definition scan_active_fetches :: "fetches \<Rightarrow> fetches" where
  "scan_active_fetches t = sort_key f_updated_at (filter active_fetch t)"

section \<open>Boot-time recovery\<close>

text \<open>
  \<open>files\<close> are the \<open>*.safetensors.tmp\<close> files \<open>rglob\<close> finds under \<open>civitai/\<close>, \<open>None\<close> when
  that directory is absent; \<open>unlink_ok\<close> says whether removing one succeeds. The result is
  the table, the files left behind and the two counters of \<open>FetchRecoveryStats\<close>.
\<close>

fun hand_over_rows :: "fetches \<Rightarrow> lora_fetch list \<Rightarrow> timestamp \<Rightarrow> fetch_error + fetches" where
  "hand_over_rows t [] now = Inr t"
| "hand_over_rows t (r # rs) now =
     bind_r (set_fetch_failed t (f_id r) ''service_restarted''
       ''fetcher interrupted by service restart'' True now) (\<lambda>t'. hand_over_rows t' rs now)"

definition recover_fetches ::
  "fetches \<Rightarrow> string list option \<Rightarrow> (string \<Rightarrow> bool) \<Rightarrow> timestamp \<Rightarrow>
   fetch_error + (fetches \<times> string list \<times> nat \<times> nat)" where
  "recover_fetches t files unlink_ok now =
     (let rows = scan_active_fetches t in
      bind_r (hand_over_rows t rows now) (\<lambda>t'.
        (case files of
           None \<Rightarrow> Inr (t', [], length rows, 0)
         | Some fs \<Rightarrow> Inr (t', filter (\<lambda>f. \<not> unlink_ok f) fs, length rows,
                           length (filter unlink_ok fs)))))"

section \<open>What the setters do\<close>

lemma failed_fetch_row_id [row_simps, simp]: "f_id (failed_fetch_row c m h n r) = f_id r"
  by (simp add: failed_fetch_row_def)

lemma fetch_transition_failed [simp]:
  "FFailed \<in> set (fetch_transitions s) \<longleftrightarrow> non_terminal_fetch s"
  by (cases s) (auto simp: non_terminal_fetch_def)

lemma set_status_eq:
  "set_status t i target now =
    (case fetch_find t i of
       None \<Rightarrow> Inl (NotFoundError i)
     | Some r \<Rightarrow>
         if target \<in> set (fetch_transitions (f_status r))
         then Inr (fetch_modify i (\<lambda>r. r\<lparr>f_status := target, f_updated_at := now\<rparr>) t)
         else Inl (InvalidTransitionError (f_status r) target))"
  by (auto simp: set_status_def read_fetch_status_def assert_fetch_allowed_def split: option.splits)

lemma set_fetch_failed_eq:
  "set_fetch_failed t i c m h now =
    (case fetch_find t i of
       None \<Rightarrow> Inl (NotFoundError i)
     | Some r \<Rightarrow>
         if active_fetch r then Inr (fetch_modify i (failed_fetch_row c m h now) t)
         else Inl (InvalidTransitionError (f_status r) FFailed))"
  by (auto simp: set_fetch_failed_def read_fetch_status_def assert_fetch_allowed_def
      split: option.splits)

section \<open>Every change the table can go through\<close>

inductive fetch_step :: "fetches \<Rightarrow> fetches \<Rightarrow> bool" where
  fstep_create: "create_pending t i now url mid vid = Inr (t', r) \<Longrightarrow> fetch_step t t'"
| fstep_status: "set_status t i s now = Inr t' \<Longrightarrow> fetch_step t t'"
| fstep_failed: "set_fetch_failed t i c m h now = Inr t' \<Longrightarrow> fetch_step t t'"
| fstep_total: "fetch_step t (set_total_bytes t i n now)"
| fstep_progress: "fetch_step t (set_progress t i n now)"
| fstep_dest: "fetch_step t (set_dest_name t i d now)"

definition active_versions :: "fetches \<Rightarrow> int list" where
  "active_versions t = map f_civitai_version_id (filter active_fetch t)"

definition fetches_ok :: "fetches \<Rightarrow> bool" where
  "fetches_ok t \<longleftrightarrow> ft.keys_distinct t \<and> distinct (active_versions t)"

lemma active_versions_append:
  "active_versions (t @ [r]) = active_versions t @ (if active_fetch r then [f_civitai_version_id r] else [])"
  by (simp add: active_versions_def)

text \<open>A rewrite of rows that activates none and keeps versions only removes active versions.\<close>

lemma active_versions_modify:
  assumes "\<And>r. f_civitai_version_id (f r) = f_civitai_version_id r"
    and "\<And>r. r \<in> set t \<Longrightarrow> f_id r = i \<Longrightarrow> active_fetch (f r) \<Longrightarrow> active_fetch r"
  shows "subseq (active_versions (fetch_modify i f t)) (active_versions t)"
  using assms(2)
proof (induction t)
  case (Cons r t)
  then have "subseq (active_versions (fetch_modify i f t)) (active_versions t)" by simp
  with Cons.prems [of r] assms(1) show ?case
    by (auto simp: active_versions_def tbl_modify_def)
qed (simp add: active_versions_def tbl_modify_def)

lemma distinct_subseq: "subseq xs ys \<Longrightarrow> distinct ys \<Longrightarrow> distinct xs"
  by (auto simp: subseq_conv_nths)

lemma fetch_modify_ok:
  assumes "fetches_ok t" and "\<And>r. f_id (f r) = f_id r"
    and "\<And>r. f_civitai_version_id (f r) = f_civitai_version_id r"
    and "\<And>r. fetch_find t i = Some r \<Longrightarrow> active_fetch (f r) \<Longrightarrow> active_fetch r"
  shows "fetches_ok (fetch_modify i f t)"
proof -
  have "active_fetch r" if "r \<in> set t" "f_id r = i" "active_fetch (f r)" for r
    using assms(1,4) ft.find_distinct that by (auto simp: fetches_ok_def)
  then have "subseq (active_versions (fetch_modify i f t)) (active_versions t)"
    using assms(3) by (intro active_versions_modify)
  with assms(1,2) show ?thesis
    by (auto simp: fetches_ok_def ft.modify_distinct intro: distinct_subseq)
qed

lemma fetch_transition_active:
  "u \<in> set (fetch_transitions s) \<Longrightarrow> non_terminal_fetch s"
  by (cases s) (auto simp: non_terminal_fetch_def)

lemma fetch_step_ok: "fetch_step t t' \<Longrightarrow> fetches_ok t \<Longrightarrow> fetches_ok t'"
proof (induction rule: fetch_step.induct)
  case (fstep_create t i now url mid vid t' r)
  then have "ft.keys_distinct t'" and t': "t' = t @ [r]"
    by (auto simp: create_pending_def Let_def ft.insert_Some fetches_ok_def ft.keys_distinct_def
        split: if_splits option.splits)
  moreover from fstep_create have "vid \<notin> set (active_versions t)" "f_civitai_version_id r = vid"
    by (auto simp: create_pending_def Let_def active_versions_def list_ex_iff
        split: if_splits option.splits)
  ultimately show ?case
    using fstep_create by (auto simp: fetches_ok_def active_versions_append)
next
  case (fstep_status t i s now t')
  then show ?case
    by (auto simp: set_status_eq dest: fetch_transition_active intro!: fetch_modify_ok
        split: option.splits if_splits)
next
  case (fstep_failed t i c m h now t')
  then show ?case
    by (auto simp: set_fetch_failed_eq failed_fetch_row_def intro!: fetch_modify_ok
        split: option.splits if_splits)
qed (auto simp: set_total_bytes_def set_progress_def set_dest_name_def intro!: fetch_modify_ok)

lemma fetch_run_ok: "fetch_step\<^sup>*\<^sup>* t t' \<Longrightarrow> fetches_ok t \<Longrightarrow> fetches_ok t'"
  by (induction rule: rtranclp_induct) (auto intro: fetch_step_ok)


section \<open>What recovery does\<close>

lemma hand_over_rows_Inr:
  assumes "ft.keys_distinct t" and "distinct (map f_id rs)"
    and "\<And>r. r \<in> set rs \<Longrightarrow> r \<in> set t \<and> active_fetch r"
  shows "hand_over_rows t rs now = Inr (map (\<lambda>r. if f_id r \<in> f_id ` set rs
    then failed_fetch_row ''service_restarted'' ''fetcher interrupted by service restart'' True now r
    else r) t)"
  using assms
proof (induction rs arbitrary: t)
  case Nil
  then show ?case by simp
next
  case (Cons r rs)
  let ?f = "failed_fetch_row ''service_restarted'' ''fetcher interrupted by service restart'' True now"
  let ?t = "fetch_modify (f_id r) ?f t"
  have "fetch_find t (f_id r) = Some r" "active_fetch r"
    using Cons.prems ft.find_distinct by auto
  then have step: "set_fetch_failed t (f_id r) ''service_restarted''
      ''fetcher interrupted by service restart'' True now = Inr ?t"
    by (simp add: set_fetch_failed_eq)
  have "s \<in> set ?t \<and> active_fetch s" if "s \<in> set rs" for s
  proof -
    have "f_id s \<noteq> f_id r" using Cons.prems(2) that by (auto simp: image_iff)
    with Cons.prems(3) [of s] that show ?thesis by (simp add: tbl_modify_other)
  qed
  then have "hand_over_rows ?t rs now = Inr (map (\<lambda>q. if f_id q \<in> f_id ` set rs then ?f q else q) ?t)"
    using Cons.prems by (intro Cons.IH) (auto simp: ft.modify_distinct)
  moreover have "map (\<lambda>q. if f_id q \<in> f_id ` set rs then ?f q else q) ?t =
      map (\<lambda>q. if f_id q \<in> f_id ` set (r # rs) then ?f q else q) t"
    using Cons.prems(2) by (auto simp: tbl_modify_def)
  ultimately show ?case by (simp add: step)
qed

lemma scan_active_fetches_props:
  "set (scan_active_fetches t) = {r \<in> set t. active_fetch r}"
  "length (scan_active_fetches t) = length (filter active_fetch t)"
  "ft.keys_distinct t \<Longrightarrow> distinct (map f_id (scan_active_fetches t))"
  by (auto simp: scan_active_fetches_def ft.keys_distinct_def distinct_map intro: inj_on_subset)

lemma hand_over_all:
  assumes "ft.keys_distinct t"
  shows "hand_over_rows t (scan_active_fetches t) now = Inr (map (\<lambda>r. if active_fetch r
    then failed_fetch_row ''service_restarted'' ''fetcher interrupted by service restart'' True now r
    else r) t)"
proof -
  have "f_id r \<in> f_id ` set (scan_active_fetches t) \<longleftrightarrow> active_fetch r" if "r \<in> set t" for r
  proof -
    have "q = r" if "q \<in> set t" "f_id r = f_id q" for q
      using ft.key_unique [OF assms that(1) \<open>r \<in> set t\<close>] that(2) by simp
    with that show ?thesis by (auto simp: scan_active_fetches_props)
  qed
  then show ?thesis
    using hand_over_rows_Inr [OF assms, of "scan_active_fetches t" now]
    by (simp add: scan_active_fetches_props assms cong: map_cong)
qed

section \<open>Properties\<close>

definition demo_fetches :: fetches where
  "demo_fetches = (case create_pending [] ''f1'' 1 ''u'' None 7 of Inl _ \<Rightarrow> [] | Inr (t, _) \<Rightarrow>
     (case create_pending t ''f2'' 2 ''v'' (Some 3) 8 of Inl _ \<Rightarrow> [] | Inr (t, _) \<Rightarrow>
     (case set_status t ''f2'' FDownloading 3 of Inl _ \<Rightarrow> [] | Inr t \<Rightarrow> t)))"

lemmas demo_fetch_defs = demo_fetches_def create_pending_def set_status_eq tbl_insert_def
  tbl_modify_def tbl_find_def Let_def non_terminal_fetch_def

lemma demo_fetches_run: "fetch_step\<^sup>*\<^sup>* [] demo_fetches"
proof -
  obtain t1 r1 where 1: "create_pending [] ''f1'' 1 ''u'' None 7 = Inr (t1, r1)"
    by (simp add: demo_fetch_defs)
  moreover then obtain t2 r2 where 2: "create_pending t1 ''f2'' 2 ''v'' (Some 3) 8 = Inr (t2, r2)"
    by (auto simp: demo_fetch_defs)
  moreover then obtain t3 where 3: "set_status t2 ''f2'' FDownloading 3 = Inr t3"
    using 1 by (auto simp: demo_fetch_defs)
  ultimately have "demo_fetches = t3" by (simp add: demo_fetches_def)
  with 1 2 3 show ?thesis
    by (meson fstep_create fstep_status r_into_rtranclp rtranclp.rtrancl_into_rtrancl)
qed

text \<open>
  C17: whatever the interleaving of requests and fetch tasks, no two active fetches are for
  the same Civitai version: \<open>find_active_by_version\<close> returns the one there is, and a
  second \<open>create_pending\<close> for that version is refused with \<open>IntegrityError\<close>.
\<close>

theorem one_active_fetch_per_version:
  assumes "fetch_step\<^sup>*\<^sup>* [] t" and "r \<in> set t" and "active_fetch r"
  shows "find_active_by_version t (f_civitai_version_id r) = Some r \<and>
    create_pending t i now url mid (f_civitai_version_id r) = Inl IntegrityError"
proof -
  have ok: "fetches_ok t"
    using fetch_run_ok [OF assms(1)]
    by (simp add: fetches_ok_def ft.keys_distinct_def active_versions_def)
  obtain r' where r': "find_active_by_version t (f_civitai_version_id r) = Some r'"
    using assms(2,3) by (cases "find_active_by_version t (f_civitai_version_id r)")
      (auto simp: find_active_by_version_def find_None_iff)
  then have "r' \<in> set t" "active_fetch r'" "f_civitai_version_id r' = f_civitai_version_id r"
    by (auto simp: find_active_by_version_def find_Some_iff)
  moreover have "inj_on f_civitai_version_id (set (filter active_fetch t))"
    using ok by (simp add: fetches_ok_def active_versions_def distinct_map)
  ultimately have "r' = r" using assms(2,3) by (auto dest!: inj_onD)
  moreover have "list_ex (\<lambda>q. active_fetch q \<and> f_civitai_version_id q = f_civitai_version_id r) t"
    using assms(2,3) by (auto simp: list_ex_iff)
  ultimately show ?thesis using r' by (simp add: create_pending_def)
qed

theorem one_active_fetch_per_version_witness:
  "\<exists>r. find_active_by_version demo_fetches 8 = Some r \<and> f_status r = FDownloading \<and>
     create_pending demo_fetches ''f3'' 9 ''u'' None 8 = Inl IntegrityError"
proof -
  have "\<exists>r \<in> set demo_fetches. f_status r = FDownloading \<and> f_civitai_version_id r = 8"
    by (simp add: demo_fetch_defs)
  then obtain r where r: "r \<in> set demo_fetches" "f_status r = FDownloading"
    "f_civitai_version_id r = 8" by blast
  then have "active_fetch r" by (simp add: non_terminal_fetch_def)
  from one_active_fetch_per_version [OF demo_fetches_run r(1) this] r show ?thesis by auto
qed

text \<open>
  boot recovery of fetches never raises; it leaves no active row: every row that was
  pending, downloading or verifying becomes \<open>failed\<close> with code \<open>service_restarted\<close> and
  \<open>handover\<close> set, every other row is untouched, and the two counters are the number of
  such rows and of the temporary files removed.
\<close>

theorem recover_fetches_hands_over:
  assumes "fetch_step\<^sup>*\<^sup>* [] t"
  shows "\<exists>t' left cleaned. recover_fetches t files unlink_ok now =
      Inr (t', left, length (filter active_fetch t), cleaned) \<and>
    (\<forall>r \<in> set t'. \<not> active_fetch r) \<and>
    t' = map (\<lambda>r. if active_fetch r then r\<lparr>f_status := FFailed,
        f_error_code := Some ''service_restarted'',
        f_error_message := Some ''fetcher interrupted by service restart'',
        f_handover := True, f_updated_at := now\<rparr> else r) t \<and>
    (\<forall>fs. files = Some fs \<longrightarrow> cleaned + length left = length fs \<and> (\<forall>f \<in> set left. \<not> unlink_ok f))"
proof -
  have "fetches_ok t"
    using fetch_run_ok [OF assms]
    by (simp add: fetches_ok_def ft.keys_distinct_def active_versions_def)
  then have "hand_over_rows t (scan_active_fetches t) now = Inr (map (\<lambda>r. if active_fetch r
    then failed_fetch_row ''service_restarted'' ''fetcher interrupted by service restart'' True now r
    else r) t)"
    by (simp add: hand_over_all fetches_ok_def)
  then show ?thesis
    by (auto simp: recover_fetches_def Let_def scan_active_fetches_props failed_fetch_row_def
        non_terminal_fetch_def sum_length_filter_compl split: option.splits)
qed

theorem recover_fetches_hands_over_witness:
  "\<exists>t' left cleaned. recover_fetches demo_fetches (Some [''a.tmp'']) (\<lambda>_. True) 5 =
      Inr (t', left, 2, cleaned) \<and> (\<forall>r \<in> set t'. f_status r = FFailed) \<and> left = []"
proof -
  have two: "length (filter active_fetch demo_fetches) = 2" "length demo_fetches = 2"
    "\<forall>r \<in> set demo_fetches. active_fetch r"
    by (simp_all add: demo_fetch_defs)
  show ?thesis
    using recover_fetches_hands_over [OF demo_fetches_run, of "Some [''a.tmp'']" "\<lambda>_. True" 5] two
    by (auto simp: neq_Nil_conv)
qed

end
