(* ===== verification/Eviction.thy ===== *)
theory Eviction
  imports Job_Store Workflow_Graph
begin

text \<open>
  \<open>app/loras/eviction.py\<close>: making room under \<open>civitai/\<close> for a LoRA that is about to be fetched.
  The state is the list of weight files with their sidecars, in the order of the directory
  walk; the job table is read once before the candidates are collected and again before each
  deletion, and may have changed in between.
\<close>

section \<open>State\<close>

text \<open>
  A regular \<open>.safetensors\<close> file under \<open>civitai/\<close>: its canonical name, its size (\<open>None\<close> if
  \<open>stat\<close> fails), what reading its sidecar gives, and whether unlinking it succeeds.
\<close>

record lora_file =
  lf_name :: string
  lf_size :: "int option"
  lf_sidecar :: file_read
  lf_unlink_ok :: bool

datatype evict_error = InsufficientStorageError int

text \<open>\<open>_directory_size\<close> and \<open>civitai_root.is_dir()\<close>: \<open>None\<close> if there is no such directory.\<close>

definition directory_size :: "lora_file list option \<Rightarrow> int" where
  "directory_size dir = (case dir of None \<Rightarrow> 0
     | Some fs \<Rightarrow> sum_list (map (\<lambda>f. case lf_size f of None \<Rightarrow> 0 | Some n \<Rightarrow> n) fs))"

section \<open>What is protected\<close>

text \<open>The names a stored request references, one entry of \<open>"loras"\<close> at a time.\<close>

definition entry_names :: "pyval \<Rightarrow> string list" where
  "entry_names e = (case e of
     VDict d \<Rightarrow> (case dict_get d ''name'' of VStr name \<Rightarrow> [name] | _ \<Rightarrow> []) | _ \<Rightarrow> [])"

definition request_lora_names :: "json_text \<Rightarrow> string list" where
  "request_lora_names raw = (case raw of
     Some (VDict body) \<Rightarrow> (case dict_get body ''loras'' of VList ls \<Rightarrow> concat (map entry_names ls) | _ \<Rightarrow> [])
   | _ \<Rightarrow> [])"

definition non_terminal_lora_names :: "jobs \<Rightarrow> string set" where
  "non_terminal_lora_names t = set (concat (map (\<lambda>j. request_lora_names (j_input_json j))
     (filter (\<lambda>j. j_status j \<in> {Queued, Running}) t)))"

definition read_sidecar :: "file_read \<Rightarrow> pydict option" where
  "read_sidecar f = (case f of FileText (Some (VDict d)) \<Rightarrow> Some d | _ \<Rightarrow> None)"

text \<open>
  \<open>parse_time\<close> is \<open>datetime.fromisoformat\<close>, naive times taken as UTC; \<open>None\<close> is the
  \<open>ValueError\<close>.
\<close>

definition last_used_dt :: "(string \<Rightarrow> timestamp option) \<Rightarrow> pydict option \<Rightarrow> timestamp option" where
  "last_used_dt parse_time sidecar = (case sidecar of None \<Rightarrow> None
     | Some d \<Rightarrow> (case dict_get d ''last_used'' of VStr raw \<Rightarrow> parse_time raw | _ \<Rightarrow> None))"

section \<open>Eviction\<close>

record candidate =
  c_sort_key :: timestamp
  c_size :: int
  c_name :: string
  c_unlink_ok :: bool

text \<open>\<open>datetime.min\<close>, the key of a file that was never used (microseconds from the epoch).\<close>

definition datetime_min :: timestamp where
  "datetime_min = - 62135596800000000"

definition candidate_of ::
  "(string \<Rightarrow> timestamp option) \<Rightarrow> string set \<Rightarrow> timestamp \<Rightarrow> lora_file \<Rightarrow> candidate option" where
  "candidate_of parse_time protected_by_jobs cutoff f = (case read_sidecar (lf_sidecar f) of
     None \<Rightarrow> None
   | Some sidecar \<Rightarrow>
       if dict_get sidecar ''source'' \<noteq> VStr ''civitai'' then None
       else if lf_name f \<in> protected_by_jobs then None
       else (let last_used = last_used_dt parse_time (Some sidecar);
                 sort_key = (case last_used of None \<Rightarrow> datetime_min | Some t \<Rightarrow> t)
             in if (case last_used of None \<Rightarrow> False | Some t \<Rightarrow> cutoff < t) then None
                else (case lf_size f of None \<Rightarrow> None
                      | Some n \<Rightarrow> Some \<lparr>c_sort_key = sort_key, c_size = n, c_name = lf_name f,
                                        c_unlink_ok = lf_unlink_ok f\<rparr>)))"

text \<open>
  The loop over the candidates. \<open>jobs_at k\<close> is the job table at the \<open>k\<close>-th recheck; the result
  is the number of bytes reclaimed and the candidates deleted, in order. Failing to unlink a
  sidecar changes nothing.
\<close>

fun evict_loop :: "(nat \<Rightarrow> jobs) \<Rightarrow> nat \<Rightarrow> int \<Rightarrow> int \<Rightarrow> candidate list \<Rightarrow> int \<times> candidate list" where
  "evict_loop jobs_at k required reclaimed [] = (reclaimed, [])"
| "evict_loop jobs_at k required reclaimed (c # cs) =
     (if required \<le> reclaimed then (reclaimed, [])
      else if c_name c \<in> non_terminal_lora_names (jobs_at k) then evict_loop jobs_at (k + 1) required reclaimed cs
      else if \<not> c_unlink_ok c then evict_loop jobs_at (k + 1) required reclaimed cs
      else (let (r, ds) = evict_loop jobs_at (k + 1) required (reclaimed + c_size c) cs in (r, c # ds)))"

definition eviction_candidates ::
  "(string \<Rightarrow> timestamp option) \<Rightarrow> jobs \<Rightarrow> timestamp \<Rightarrow> lora_file list \<Rightarrow> candidate list" where
  "eviction_candidates parse_time t cutoff files =
     sort_key c_sort_key (List.map_filter (candidate_of parse_time (non_terminal_lora_names t) cutoff) files)"

text \<open>The answer of \<open>evict_for\<close> and the files it leaves.\<close>

definition evict_for ::
  "(string \<Rightarrow> timestamp option) \<Rightarrow> jobs \<Rightarrow> (nat \<Rightarrow> jobs) \<Rightarrow> timestamp \<Rightarrow> int \<Rightarrow> int \<Rightarrow> int \<Rightarrow>
   lora_file list option \<Rightarrow> (evict_error + int) \<times> lora_file list option" where
  "evict_for parse_time t jobs_at now recent_use_days dir_max_bytes incoming_size dir =
     (let required = incoming_size - (dir_max_bytes - directory_size dir) in
      if required \<le> 0 then (Inr 0, dir)
      else (case dir of None \<Rightarrow> (Inl (InsufficientStorageError required), dir)
        | Some files \<Rightarrow>
            (let cutoff = now - recent_use_days * 86400000000;
                 (reclaimed, deleted) = evict_loop jobs_at 0 required 0 (eviction_candidates parse_time t cutoff files);
                 left = filter (\<lambda>f. lf_name f \<notin> c_name ` set deleted) files
             in (if reclaimed < required then Inl (InsufficientStorageError required) else Inr reclaimed, Some left))))"

section \<open>The loop\<close>

lemma evict_loop_Cons:
  assumes "evict_loop jobs_at k required acc (c # cs) = (r, ds)"
  obtains "required \<le> acc" "r = acc" "ds = []"
  | "c_name c \<in> non_terminal_lora_names (jobs_at k) \<or> \<not> c_unlink_ok c"
    "evict_loop jobs_at (k + 1) required acc cs = (r, ds)"
  | ds' where "acc < required" "c_name c \<notin> non_terminal_lora_names (jobs_at k)" "c_unlink_ok c"
    "evict_loop jobs_at (k + 1) required (acc + c_size c) cs = (r, ds')" "ds = c # ds'"
  using assms by (auto split: if_splits prod.splits)

declare evict_loop.simps(2) [simp del]

lemma evict_loop_sound:
  "evict_loop jobs_at k required acc cs = (r, ds) \<Longrightarrow>
   set ds \<subseteq> set cs \<and> (distinct (map c_name cs) \<longrightarrow> distinct (map c_name ds)) \<and>
   r = acc + sum_list (map c_size ds) \<and>
   (\<forall>c \<in> set ds. c_unlink_ok c \<and> (\<exists>i. c_name c \<notin> non_terminal_lora_names (jobs_at i)))"
proof (induction cs arbitrary: k acc ds)
  case (Cons c cs)
  from Cons.prems show ?case
  proof (cases rule: evict_loop_Cons)
    case 2
    with Cons.IH [OF 2(2)] show ?thesis by auto
  next
    case (3 ds')
    from Cons.IH [OF 3(4)] 3 show ?thesis by auto
  qed simp
qed simp

lemma evict_loop_minimal:
  "evict_loop jobs_at k required acc cs = (r, ds) \<Longrightarrow> ds \<noteq> [] \<Longrightarrow> r - c_size (last ds) < required"
proof (induction cs arbitrary: k acc ds)
  case (Cons c cs)
  from Cons.prems(1) show ?case
  proof (cases rule: evict_loop_Cons)
    case 2
    from Cons.IH [OF 2(2) Cons.prems(2)] show ?thesis .
  next
    case (3 ds')
    from Cons.IH [OF 3(4)] evict_loop_sound [OF 3(4)] 3 show ?thesis by (cases "ds' = []") auto
  qed (use Cons.prems(2) in simp)
qed simp

lemma evict_loop_oldest_first:
  "evict_loop jobs_at k required acc cs = (r, ds) \<Longrightarrow> sorted (map c_sort_key cs) \<Longrightarrow>
   c \<in> set ds \<Longrightarrow> g \<in> set cs \<Longrightarrow> g \<notin> set ds \<Longrightarrow> c_sort_key g < c_sort_key c \<Longrightarrow>
   \<not> c_unlink_ok g \<or> (\<exists>i. c_name g \<in> non_terminal_lora_names (jobs_at i))"
proof (induction cs arbitrary: k acc ds)
  case (Cons x cs)
  have sorted: "sorted (map c_sort_key cs)" using Cons.prems(2) by simp
  from Cons.prems(1) show ?case
  proof (cases rule: evict_loop_Cons)
    case 2
    then show ?thesis using Cons.IH [OF 2(2) sorted Cons.prems(3) _ Cons.prems(5,6)] Cons.prems(4) by auto
  next
    case (3 ds')
    then have g: "g \<in> set cs" "g \<notin> set ds'" using Cons.prems(4,5) by auto
    then have "c \<noteq> x" using Cons.prems(2,6) by fastforce
    then have "c \<in> set ds'" using 3 Cons.prems(3) by auto
    from Cons.IH [OF 3(4) sorted this g Cons.prems(6)] show ?thesis .
  qed (use Cons.prems(3) in simp)
qed simp

section \<open>Candidates and files\<close>

lemma candidate_of_Some:
  assumes "candidate_of parse_time names cutoff f = Some c"
  shows "c_name c = lf_name f \<and> c_unlink_ok c = lf_unlink_ok f \<and> lf_size f = Some (c_size c) \<and> lf_name f \<notin> names \<and>
    (\<exists>d. read_sidecar (lf_sidecar f) = Some d \<and> dict_get d ''source'' = VStr ''civitai'' \<and>
      (case last_used_dt parse_time (Some d) of None \<Rightarrow> c_sort_key c = datetime_min
       | Some u \<Rightarrow> u \<le> cutoff \<and> c_sort_key c = u))"
  using assms by (auto simp: candidate_of_def Let_def split: option.splits if_splits)

lemma eviction_candidates_set:
  "c \<in> set (eviction_candidates parse_time t cutoff files) \<longleftrightarrow>
     (\<exists>f \<in> set files. candidate_of parse_time (non_terminal_lora_names t) cutoff f = Some c)"
  by (auto simp: eviction_candidates_def List.map_filter_def intro!: image_eqI)

lemma map_filter_distinct:
  assumes "\<And>x y. x \<in> set xs \<Longrightarrow> f x = Some y \<Longrightarrow> k y = h x" and "distinct (map h xs)"
  shows "distinct (map k (List.map_filter f xs))"
  using assms
proof (induction xs)
  case (Cons x xs)
  have "k y \<notin> k ` set (List.map_filter f xs)" if y: "f x = Some y" for y
  proof
    assume "k y \<in> k ` set (List.map_filter f xs)"
    then obtain x' y' where "x' \<in> set xs" "f x' = Some y'" "k y' = k y"
      by (auto simp: List.map_filter_def)
    with Cons.prems y have "h x = h x'" by (metis list.set_intros)
    with Cons.prems(2) \<open>x' \<in> set xs\<close> show False by auto
  qed
  with Cons show ?case by (auto simp: List.map_filter_simps split: option.splits)
qed (simp add: List.map_filter_simps)

lemma eviction_candidates_distinct:
  assumes "distinct (map lf_name files)"
  shows "distinct (map c_name (eviction_candidates parse_time t cutoff files))"
proof -
  let ?cs = "List.map_filter (candidate_of parse_time (non_terminal_lora_names t) cutoff) files"
  have "distinct (map c_name ?cs)"
    by (rule map_filter_distinct [OF _ assms]) (blast dest: candidate_of_Some)
  then show ?thesis unfolding eviction_candidates_def
    by (simp add: distinct_map inj_on_def)
qed

text \<open>One call that had to delete: its loop and what is left.\<close>

lemma evict_for_run:
  assumes "evict_for parse_time t jobs_at now days dir_max incoming (Some files) = (r, Some left)"
  obtains "incoming - (dir_max - directory_size (Some files)) \<le> 0" "r = Inr 0" "left = files"
  | reclaimed ds where "0 < incoming - (dir_max - directory_size (Some files))"
      "evict_loop jobs_at 0 (incoming - (dir_max - directory_size (Some files))) 0
         (eviction_candidates parse_time t (now - days * 86400000000) files) = (reclaimed, ds)"
      "left = filter (\<lambda>f. lf_name f \<notin> c_name ` set ds) files"
      "r = (if reclaimed < incoming - (dir_max - directory_size (Some files))
            then Inl (InsufficientStorageError (incoming - (dir_max - directory_size (Some files)))) else Inr reclaimed)"
  using assms by (auto simp: evict_for_def Let_def split: prod.splits if_splits)

lemma deleted_is_candidate:
  assumes "distinct (map lf_name files)" and "f \<in> set files" and "lf_name f \<in> c_name ` set ds"
    and "set ds \<subseteq> set (eviction_candidates parse_time t cutoff files)"
  shows "\<exists>c \<in> set ds. candidate_of parse_time (non_terminal_lora_names t) cutoff f = Some c"
proof -
  from assms(3) obtain c where c: "c \<in> set ds" "c_name c = lf_name f" by auto
  with assms(4) have "c \<in> set (eviction_candidates parse_time t cutoff files)" by blast
  then obtain f' where f': "f' \<in> set files" "candidate_of parse_time (non_terminal_lora_names t) cutoff f' = Some c"
    by (auto simp: eviction_candidates_set)
  with candidate_of_Some [OF f'(2)] c have "lf_name f' = lf_name f" by simp
  with assms(1,2) f'(1) have "f' = f" by (auto simp: distinct_map inj_on_def)
  with c f' show ?thesis by auto
qed

section \<open>Properties\<close>

lemma deleted_file:
  assumes "evict_for parse_time t jobs_at now days dir_max incoming (Some files) = (r, Some left)"
    and "distinct (map lf_name files)" and "f \<in> set files" and "f \<notin> set left"
  obtains required reclaimed ds c where
    "evict_loop jobs_at 0 required 0 (eviction_candidates parse_time t (now - days * 86400000000) files) = (reclaimed, ds)"
    "c \<in> set ds" "candidate_of parse_time (non_terminal_lora_names t) (now - days * 86400000000) f = Some c"
    "left = filter (\<lambda>f. lf_name f \<notin> c_name ` set ds) files"
proof (rule evict_for_run [OF assms(1)])
  fix reclaimed ds
  assume run: "evict_loop jobs_at 0 (incoming - (dir_max - directory_size (Some files))) 0
      (eviction_candidates parse_time t (now - days * 86400000000) files) = (reclaimed, ds)"
    and l: "left = filter (\<lambda>f. lf_name f \<notin> c_name ` set ds) files"
  then have "lf_name f \<in> c_name ` set ds" using assms(3,4) by auto
  from deleted_is_candidate [OF assms(2,3) this] evict_loop_sound [OF run]
  obtain c where "c \<in> set ds" "candidate_of parse_time (non_terminal_lora_names t) (now - days * 86400000000) f = Some c"
    by blast
  with run l show thesis by (rule_tac that)
qed (use assms(3,4) in auto)


lemma sum_filter_complement:
  "sum_list (map f (filter p xs)) = sum_list (map f xs) - (sum_list (map f (filter (\<lambda>x. \<not> p x) xs)) :: int)"
  by (induction xs) auto

abbreviation known_size :: "lora_file \<Rightarrow> int" where
  "known_size f \<equiv> (case lf_size f of None \<Rightarrow> 0 | Some n \<Rightarrow> n)"

lemma deleted_size:
  assumes "distinct (map lf_name files)" and "distinct (map c_name ds)"
    and "set ds \<subseteq> set (eviction_candidates parse_time t cutoff files)"
  shows "sum_list (map known_size (filter (\<lambda>f. lf_name f \<in> c_name ` set ds) files)) = sum_list (map c_size ds)"
proof -
  let ?gone = "filter (\<lambda>f. lf_name f \<in> c_name ` set ds) files"
  define file_of where "file_of c = (THE f. f \<in> set files \<and> lf_name f = c_name c)" for c :: candidate
  have file_of: "file_of c = f" if "f \<in> set files" "lf_name f = c_name c" for c f
    unfolding file_of_def by (rule the_equality) (use that assms(1) in \<open>auto simp: distinct_map inj_on_def\<close>)
  have of_c: "\<exists>f \<in> set files. lf_name f = c_name c \<and> known_size f = c_size c" if "c \<in> set ds" for c
  proof -
    from that assms(3) have "c \<in> set (eviction_candidates parse_time t cutoff files)" by blast
    then obtain f where f: "f \<in> set files" "candidate_of parse_time (non_terminal_lora_names t) cutoff f = Some c"
      by (auto simp: eviction_candidates_set)
    from candidate_of_Some [OF f(2)] f(1) show ?thesis by (intro bexI [of _ f]) auto
  qed
  have names: "inj_on c_name (set ds)" "distinct ds" using assms(2) by (auto simp: distinct_map)
  have file_name: "lf_name (file_of c) = c_name c \<and> file_of c \<in> set files \<and> known_size (file_of c) = c_size c"
    if "c \<in> set ds" for c
    using of_c [OF that] file_of by metis
  have inj: "inj_on file_of (set ds)"
    by (rule inj_onI) (metis file_name inj_onD [OF names(1)])
  have img: "file_of ` set ds = set ?gone"
  proof
    show "file_of ` set ds \<subseteq> set ?gone" using file_name by auto
    show "set ?gone \<subseteq> file_of ` set ds" using file_of by (force simp: image_iff)
  qed
  have "distinct ?gone" using assms(1) by (simp add: distinct_map)
  then have "sum_list (map known_size ?gone) = sum known_size (file_of ` set ds)"
    by (simp add: img sum_list_distinct_conv_sum_set)
  also have "\<dots> = sum (\<lambda>c. known_size (file_of c)) (set ds)" by (rule sum.reindex_cong [OF inj]) auto
  also have "\<dots> = sum c_size (set ds)" using file_name by (intro sum.cong) auto
  finally show ?thesis using names by (simp add: sum_list_distinct_conv_sum_set)
qed

text \<open>
  A successful eviction has made room and reports exactly what it freed: afterwards the
  directory and the incoming file together fit into the limit, and the answer is the size of
  what was deleted, which is no more than needed: without one of the deleted files it would
  not have been enough.
\<close>

theorem eviction_makes_room:
  assumes "evict_for parse_time t jobs_at now days dir_max incoming (Some files) = (Inr freed, Some left)"
    and "distinct (map lf_name files)"
  shows "directory_size (Some left) + incoming \<le> dir_max \<and>
    freed = directory_size (Some files) - directory_size (Some left) \<and>
    (left = files \<or> (\<exists>f \<in> set files. f \<notin> set left \<and>
       dir_max < directory_size (Some left) + known_size f + incoming))"
proof (rule evict_for_run [OF assms(1)])
  fix reclaimed ds
  let ?required = "incoming - (dir_max - directory_size (Some files))"
  assume run: "evict_loop jobs_at 0 ?required 0 (eviction_candidates parse_time t (now - days * 86400000000) files) = (reclaimed, ds)"
    and l: "left = filter (\<lambda>f. lf_name f \<notin> c_name ` set ds) files"
    and pos: "0 < ?required"
    and r: "Inr freed = (if reclaimed < ?required then Inl (InsufficientStorageError ?required) else Inr reclaimed)"
  from r have freed: "freed = reclaimed" "?required \<le> reclaimed" by (auto split: if_splits)
  from evict_loop_sound [OF run] eviction_candidates_distinct [OF assms(2)]
  have ds: "set ds \<subseteq> set (eviction_candidates parse_time t (now - days * 86400000000) files)"
    "distinct (map c_name ds)" "reclaimed = sum_list (map c_size ds)" by auto
  have sz: "directory_size (Some left) = directory_size (Some files) - reclaimed"
    using deleted_size [OF assms(2) ds(2,1)] ds(3)
    by (simp add: directory_size_def l sum_filter_complement [of _ "\<lambda>f. lf_name f \<notin> c_name ` set ds"])
  have "ds \<noteq> []" using ds(3) freed pos by auto
  then have last: "last ds \<in> set ds" "reclaimed - c_size (last ds) < ?required"
    using evict_loop_minimal [OF run] by auto
  then have "last ds \<in> set (eviction_candidates parse_time t (now - days * 86400000000) files)" using ds(1) by blast
  then obtain f where f: "f \<in> set files"
    "candidate_of parse_time (non_terminal_lora_names t) (now - days * 86400000000) f = Some (last ds)"
    by (auto simp: eviction_candidates_set)
  from candidate_of_Some [OF f(2)] have "f \<notin> set left" "known_size f = c_size (last ds)"
    using imageI [OF last(1), of c_name] by (auto simp: l)
  then have "\<exists>f \<in> set files. f \<notin> set left \<and> dir_max < directory_size (Some left) + known_size f + incoming"
    using f(1) last(2) sz by (intro bexI [of _ f]) auto
  with freed sz show ?thesis by simp
qed (use assms in auto)

text \<open>
  Least recently used first: when an eligible file survives although one that was used
  later is deleted, it survives because a job came to reference it or it could not be deleted.
\<close>

theorem eviction_oldest_first:
  assumes "evict_for parse_time t jobs_at now days dir_max incoming (Some files) = (r, Some left)"
    and "distinct (map lf_name files)" and "f \<in> set files" and "f \<notin> set left" and "g \<in> set left"
    and "candidate_of parse_time (non_terminal_lora_names t) (now - days * 86400000000) f = Some cf"
    and "candidate_of parse_time (non_terminal_lora_names t) (now - days * 86400000000) g = Some cg"
    and "c_sort_key cg < c_sort_key cf"
  shows "\<not> lf_unlink_ok g \<or> (\<exists>i. lf_name g \<in> non_terminal_lora_names (jobs_at i))"
proof -
  obtain required reclaimed ds c where
    run: "evict_loop jobs_at 0 required 0 (eviction_candidates parse_time t (now - days * 86400000000) files) = (reclaimed, ds)"
    and c: "c \<in> set ds" "candidate_of parse_time (non_terminal_lora_names t) (now - days * 86400000000) f = Some c"
    and l: "left = filter (\<lambda>f. lf_name f \<notin> c_name ` set ds) files"
    by (rule deleted_file [OF assms(1-4)])
  have g: "c_name cg = lf_name g" "c_unlink_ok cg = lf_unlink_ok g" using candidate_of_Some [OF assms(7)] by auto
  have "cg \<in> set (eviction_candidates parse_time t (now - days * 86400000000) files)"
    using assms(5,7) l by (auto simp: eviction_candidates_set)
  moreover have "cg \<notin> set ds"
  proof
    assume "cg \<in> set ds"
    from imageI [OF this, of c_name] show False using assms(5) l g(1) by simp
  qed
  moreover have "sorted (map c_sort_key (eviction_candidates parse_time t (now - days * 86400000000) files))"
    by (simp add: eviction_candidates_def)
  moreover have "c_sort_key cg < c_sort_key c" using assms(6,8) c(2) by simp
  ultimately have "\<not> c_unlink_ok cg \<or> (\<exists>i. c_name cg \<in> non_terminal_lora_names (jobs_at i))"
    using evict_loop_oldest_first [OF run _ c(1)] by blast
  then show ?thesis by (simp only: g)
qed

section \<open>Examples\<close>

definition demo_lora :: "string \<Rightarrow> int \<Rightarrow> string \<Rightarrow> lora_file" where
  "demo_lora name sz used = \<lparr>lf_name = name, lf_size = Some sz, lf_sidecar = FileText (Some (VDict
     [(''source'', VStr ''civitai''), (''last_used'', VStr used)])), lf_unlink_ok = True\<rparr>"

definition demo_time :: "string \<Rightarrow> timestamp option" where
  "demo_time s = (if s = ''old'' then Some 5 else if s = ''older'' then Some 3 else None)"

definition demo_dir :: "lora_file list" where
  "demo_dir = [demo_lora ''civitai/a'' 10 ''old'', (demo_lora ''civitai/b'' 10 ''older'') \<lparr>lf_unlink_ok := False\<rparr>,
     (demo_lora ''civitai/c'' 10 ''old'')\<lparr>lf_sidecar := FileMissing\<rparr>]"

definition demo_evict :: "(evict_error + int) \<times> lora_file list option" where
  "demo_evict = evict_for demo_time [] (\<lambda>_. []) 9 0 30 5 (Some demo_dir)"

lemma demo_evict_eval: "demo_evict = (Inr 10, Some (tl demo_dir))"
  by code_simp

lemmas demo_eviction_run = demo_evict_eval [unfolded demo_evict_def]

lemma demo_dir_distinct: "distinct (map lf_name demo_dir)"
  by (simp add: demo_dir_def demo_lora_def)


theorem eviction_makes_room_witness: "directory_size (Some (tl demo_dir)) + 5 \<le> 30"
  using eviction_makes_room [OF demo_eviction_run demo_dir_distinct] by blast

theorem eviction_oldest_first_witness: "\<not> lf_unlink_ok (demo_dir ! 1)"
proof -
  have f: "hd demo_dir \<in> set demo_dir" "hd demo_dir \<notin> set (tl demo_dir)" "demo_dir ! 1 \<in> set (tl demo_dir)"
    by (simp_all add: demo_dir_def demo_lora_def)
  have c: "candidate_of demo_time (non_terminal_lora_names []) (9 - 0 * 86400000000) (hd demo_dir) =
      Some \<lparr>c_sort_key = 5, c_size = 10, c_name = ''civitai/a'', c_unlink_ok = True\<rparr>"
    "candidate_of demo_time (non_terminal_lora_names []) (9 - 0 * 86400000000) (demo_dir ! 1) =
      Some \<lparr>c_sort_key = 3, c_size = 10, c_name = ''civitai/b'', c_unlink_ok = False\<rparr>"
    by code_simp+
  from eviction_oldest_first [OF demo_eviction_run demo_dir_distinct f c] show ?thesis
    by (simp add: non_terminal_lora_names_def)
qed

end
