(* ===== verification/Civitai_Fetch.thy ===== *)
theory Civitai_Fetch
  imports Civitai_Url Fetch_Store Eviction
begin

text \<open>
  \<open>app/loras/civitai.py\<close>: one background fetch, from its pending row to a verified weight file
  with a sidecar, or to a failed row. The state is the table of fetches, the files under
  \<open>civitai/\<close> by canonical name, and the download requests sent. What Civitai answers, what a
  download streams, the disk and the clock are the \<open>fetch_world\<close>; SHA-256 is a parameter.
\<close>

section \<open>State and answers\<close>

text \<open>
  An answer of the metadata API: a status with the body (\<open>None\<close>: no JSON), a transport failure
  (\<open>TimeoutException\<close>, \<open>ConnectError\<close>, \<open>RemoteProtocolError\<close>), or any other exception.
\<close>

datatype http_answer = HttpStatus int json_text | HttpTransport | HttpOther

datatype stream_error =
    DownloadTooLarge
  | SlowDownload
  | MidStreamDiskFull
  | HttpStatusError int
  | TransportError
  | OverallTimeout
  | WriteError bool
  | OtherError

text \<open>
  A chunk with the seconds since the start and the free bytes of the disk when it has been
  written. A download answers with an error status, fails, or streams chunks, after which an
  exception may end it.
\<close>

record chunk =
  ch_bytes :: string
  ch_elapsed :: rat
  ch_free :: int

datatype download = DownloadRefused stream_error | DownloadStream "chunk list" "stream_error option"

record fetch_world =
  fw_metadata :: "nat \<Rightarrow> http_answer"
  fw_bracket_ok :: "string \<Rightarrow> bool"
  fw_free_bytes :: int
  fw_file_max_bytes :: int
  fw_dir_max_bytes :: int
  fw_recent_use_days :: int
  fw_listing :: "lora_file list option"
  fw_sidecar_unlink_ok :: "string \<Rightarrow> bool"
  fw_parse_time :: "string \<Rightarrow> timestamp option"
  fw_jobs :: jobs
  fw_jobs_at :: "nat \<Rightarrow> jobs"
  fw_download :: "string \<Rightarrow> download"
  fw_sha256 :: "string \<Rightarrow> string"
  fw_sidecar_write_ok :: bool
  fw_rename_ok :: bool
  fw_now :: timestamp
  fw_now_text :: string

record fetcher =
  ft_rows :: fetches
  ft_weights :: "string \<Rightarrow> string option"
  ft_sidecars :: "string \<Rightarrow> pydict option"
  ft_tmp :: "string \<Rightarrow> string option"
  ft_requests :: "string list"

section \<open>Metadata\<close>

definition metadata_retryable :: "http_answer \<Rightarrow> bool" where
  "metadata_retryable a = (case a of HttpStatus c _ \<Rightarrow> 500 \<le> c \<and> c < 600 | HttpTransport \<Rightarrow> True | HttpOther \<Rightarrow> False)"

text \<open>The answer of the last attempt made, with \<open>n\<close> retries left (\<open>stop_after_attempt(3)\<close>).\<close>

fun fetch_metadata :: "nat \<Rightarrow> (nat \<Rightarrow> http_answer) \<Rightarrow> nat \<Rightarrow> http_answer" where
  "fetch_metadata 0 answers k = answers k"
| "fetch_metadata (Suc n) answers k =
     (if metadata_retryable (answers k) then fetch_metadata n answers (k + 1) else answers k)"

definition metadata_error_code :: "int \<Rightarrow> string" where
  "metadata_error_code c = (if c \<in> {401, 403} then ''civitai_auth''
     else if c = 404 then ''civitai_version_not_found'' else ''civitai_unavailable'')"

text \<open>
  \<open>Inl True\<close> is the \<open>ValueError\<close> the caller handles, \<open>Inl False\<close> the \<open>AttributeError\<close> of a
  body that is no object.
\<close>

definition primary_ok :: "pydict \<Rightarrow> bool" where
  "primary_ok f \<longleftrightarrow>
     (case dict_get f ''name'' of VStr n \<Rightarrow> ends_with ''.safetensors'' n | _ \<Rightarrow> False) \<and>
     (case dict_get f ''downloadUrl'' of VStr u \<Rightarrow> u \<noteq> [] | _ \<Rightarrow> False) \<and>
     (case dict_get f ''hashes'' of
        VDict h \<Rightarrow> (case dict_get h ''SHA256'' of VStr sha \<Rightarrow> sha \<noteq> [] | _ \<Rightarrow> False) | _ \<Rightarrow> False)"

definition pick_primary_file :: "pyval \<Rightarrow> bool + pydict" where
  "pick_primary_file metadata = (case metadata of
     VDict m \<Rightarrow>
       (case dict_get m ''files'' of
          VList files \<Rightarrow>
            (case List.find (\<lambda>f. is_dict f \<and> truthy (dict_get (dict_of f) ''primary'')) files of
               None \<Rightarrow> Inl True
             | Some f \<Rightarrow> if primary_ok (dict_of f) then Inr (dict_of f) else Inl True)
        | _ \<Rightarrow> Inl True)
   | _ \<Rightarrow> Inl False)"

definition str_of :: "pyval \<Rightarrow> string" where
  "str_of v = (case v of VStr s \<Rightarrow> s | _ \<Rightarrow> [])"

definition expected_sha :: "pydict \<Rightarrow> string" where
  "expected_sha entry = lower (str_of (dict_get (dict_of (dict_get entry ''hashes'')) ''SHA256''))"

text \<open>
  \<open>int(entry.get("sizeKB", 0) * 1024)\<close>: a text is repeated 1024 times, and an integer text of
  more than 4300 digits is refused; \<open>None\<close> is the exception.
\<close>

definition expected_size :: "pydict \<Rightarrow> int option" where
  "expected_size entry = (case map_of entry ''sizeKB'' of
     None \<Rightarrow> Some 0
   | Some v \<Rightarrow> (case v of
       VInt i \<Rightarrow> Some (i * 1024)
     | VBool b \<Rightarrow> Some (if b then 1024 else 0)
     | VFloat f \<Rightarrow> int_of (VFloat (f * 1024))
     | VStr s \<Rightarrow> (if 4300 < 1024 * length (filter is_digit s) then None else py_int (concat (replicate 1024 s)))
     | _ \<Rightarrow> None))"

section \<open>Streaming\<close>

record progress =
  pr_bytes :: string
  pr_last_update :: int
  pr_last_disk :: int
  pr_rows :: fetches

definition written :: "progress \<Rightarrow> int" where
  "written p = int (length (pr_bytes p))"

text \<open>One chunk: the size cap, the write, the throughput floor, the disk probe, the progress row.\<close>

definition stream_step :: "fetch_world \<Rightarrow> string \<Rightarrow> int \<Rightarrow> chunk \<Rightarrow> progress \<Rightarrow> progress \<times> stream_error option" where
  "stream_step w i expected c p =
     (if ch_bytes c = [] then (p, None)
      else if fw_file_max_bytes w \<noteq> 0 \<and> fw_file_max_bytes w < written p + int (length (ch_bytes c))
      then (p, Some DownloadTooLarge)
      else (let p = p\<lparr>pr_bytes := pr_bytes p @ ch_bytes c\<rparr>;
                recheck = 16777216 \<le> written p - pr_last_disk p
            in if 30 < ch_elapsed c \<and> of_int (written p) / ch_elapsed c < 10240 then (p, Some SlowDownload)
               else (let p = (if recheck then p\<lparr>pr_last_disk := written p\<rparr> else p)
                     in if recheck \<and> ch_free c < max 0 (expected - written p) * 2 then (p, Some MidStreamDiskFull)
                        else if 4194304 \<le> written p - pr_last_update p
                        then (p\<lparr>pr_rows := set_progress (pr_rows p) i (written p) (fw_now w),
                                pr_last_update := written p\<rparr>, None)
                        else (p, None))))"

fun stream_chunks :: "fetch_world \<Rightarrow> string \<Rightarrow> int \<Rightarrow> chunk list \<Rightarrow> progress \<Rightarrow> progress \<times> stream_error option" where
  "stream_chunks w i expected [] p = (p, None)"
| "stream_chunks w i expected (c # cs) p = (case stream_step w i expected c p of
     (p', None) \<Rightarrow> stream_chunks w i expected cs p' | (p', Some e) \<Rightarrow> (p', Some e))"

text \<open>The partial file is created once the answer's status is good.\<close>

definition stream_download ::
  "fetch_world \<Rightarrow> string \<Rightarrow> string \<Rightarrow> string \<Rightarrow> int \<Rightarrow> fetcher \<Rightarrow> (stream_error + string) \<times> fetcher" where
  "stream_download w i name url expected s =
     (let s = s\<lparr>ft_requests := ft_requests s @ [url]\<rparr> in
      case fw_download w url of
        DownloadRefused e \<Rightarrow> (Inl e, s)
      | DownloadStream cs failure \<Rightarrow>
          (let (p, e) = stream_chunks w i expected cs
                 \<lparr>pr_bytes = [], pr_last_update = 0, pr_last_disk = 0, pr_rows = ft_rows s\<rparr>;
               s = s\<lparr>ft_rows := pr_rows p, ft_tmp := (ft_tmp s)(name \<mapsto> pr_bytes p)\<rparr>
           in case e of Some e \<Rightarrow> (Inl e, s)
              | None \<Rightarrow>
                  (case failure of Some e \<Rightarrow> (Inl e, s)
                   | None \<Rightarrow> (Inr (fw_sha256 w (pr_bytes p)),
                       s\<lparr>ft_rows := set_progress (ft_rows s) i (written p) (fw_now w)\<rparr>))))"

section \<open>The fetch\<close>

definition sidecar_payload :: "fetch_world \<Rightarrow> lora_fetch \<Rightarrow> string \<Rightarrow> string \<Rightarrow> pydict \<Rightarrow> pydict" where
  "sidecar_payload w row name sha metadata =
     [(''name'', VStr name), (''filename'', VStr (name @ ''.safetensors'')), (''sha256'', VStr sha),
      (''source'', VStr ''civitai''),
      (''civitai_model_id'', case f_civitai_model_id row of None \<Rightarrow> VNone | Some i \<Rightarrow> VInt i),
      (''civitai_version_id'', VInt (f_civitai_version_id row)),
      (''base_model_hint'', case dict_get metadata ''baseModel'' of VStr s \<Rightarrow> VStr s | _ \<Rightarrow> VNone),
      (''trigger_words'', VList (case dict_get metadata ''trainedWords'' of
         VList ws \<Rightarrow> filter (\<lambda>v. case v of VStr _ \<Rightarrow> True | _ \<Rightarrow> False) ws | _ \<Rightarrow> [])),
      (''fetched_at'', VStr (fw_now_text w)), (''last_used'', VNone)]"

text \<open>
  A step returns whether an exception left it, and the state. \<open>fail_fetch\<close> is \<open>set_failed\<close>
  followed by a return.
\<close>

type_synonym fetch_step_fun = "fetcher \<Rightarrow> bool \<times> fetcher"

definition fail_fetch :: "fetch_world \<Rightarrow> lora_fetch \<Rightarrow> string \<Rightarrow> fetch_step_fun" where
  "fail_fetch w row code s = (case set_fetch_failed (ft_rows s) (f_id row) code code False (fw_now w) of
     Inl _ \<Rightarrow> (True, s) | Inr t \<Rightarrow> (False, s\<lparr>ft_rows := t\<rparr>))"

definition to_status :: "fetch_world \<Rightarrow> lora_fetch \<Rightarrow> lora_fetch_status \<Rightarrow> fetch_step_fun \<Rightarrow> fetch_step_fun" where
  "to_status w row target k s = (case set_status (ft_rows s) (f_id row) target (fw_now w) of
     Inl _ \<Rightarrow> (True, s) | Inr t \<Rightarrow> k (s\<lparr>ft_rows := t\<rparr>))"

definition finish_step :: fetch_step_fun where
  "finish_step s = (False, s)"

definition write_sidecar :: "fetch_world \<Rightarrow> string \<Rightarrow> pydict \<Rightarrow> fetch_step_fun \<Rightarrow> fetch_step_fun" where
  "write_sidecar w name payload k s =
     (if fw_sidecar_write_ok w then k (s\<lparr>ft_sidecars := (ft_sidecars s)(name \<mapsto> payload)\<rparr>) else (True, s))"

definition name_dest :: "fetch_world \<Rightarrow> lora_fetch \<Rightarrow> string \<Rightarrow> fetcher \<Rightarrow> fetcher" where
  "name_dest w row name s = s\<lparr>ft_rows := set_dest_name (ft_rows s) (f_id row) name (fw_now w)\<rparr>"

text \<open>The file is there already: a missing sidecar is written, and the row is walked to done.\<close>

definition already_there :: "fetch_world \<Rightarrow> lora_fetch \<Rightarrow> string \<Rightarrow> pydict \<Rightarrow> fetch_step_fun" where
  "already_there w row name payload s =
     (let k = (\<lambda>s. to_status w row FVerifying (to_status w row FDone finish_step) (name_dest w row name s))
      in if ft_sidecars s name = None then write_sidecar w name payload k s else k s)"

text \<open>What eviction deletes goes from the files; a sidecar stays when it cannot be unlinked.\<close>

definition apply_eviction :: "fetch_world \<Rightarrow> lora_file list option \<Rightarrow> fetcher \<Rightarrow> fetcher" where
  "apply_eviction w left s =
     (let names = (\<lambda>fs. lf_name ` set (case fs of None \<Rightarrow> [] | Some l \<Rightarrow> l));
          gone = names (fw_listing w) - names left
      in s\<lparr>ft_weights := (\<lambda>n. if n \<in> gone then None else ft_weights s n),
          ft_sidecars := (\<lambda>n. if n \<in> gone \<and> fw_sidecar_unlink_ok w n then None else ft_sidecars s n)\<rparr>)"

definition make_room :: "fetch_world \<Rightarrow> int \<Rightarrow> fetcher \<Rightarrow> bool \<times> fetcher" where
  "make_room w expected s =
     (if fw_free_bytes w < expected * 2 then
        (let (r, left) = evict_for (fw_parse_time w) (fw_jobs w) (fw_jobs_at w) (fw_now w) (fw_recent_use_days w)
               (fw_dir_max_bytes w) (expected * 2) (fw_listing w)
         in (\<not> isl r, apply_eviction w left s))
      else (True, s))"

text \<open>The error code of each exception of the download; \<open>None\<close> if none of the handlers has it.\<close>

definition stream_error_code :: "stream_error \<Rightarrow> string option" where
  "stream_error_code e = (case e of
     DownloadTooLarge \<Rightarrow> Some ''lora_too_large''
   | SlowDownload \<Rightarrow> Some ''civitai_unavailable''
   | MidStreamDiskFull \<Rightarrow> Some ''insufficient_storage''
   | HttpStatusError c \<Rightarrow> Some (if c \<in> {401, 403} then ''civitai_auth'' else ''civitai_unavailable'')
   | TransportError \<Rightarrow> Some ''civitai_unavailable''
   | OverallTimeout \<Rightarrow> Some ''civitai_unavailable''
   | WriteError no_space \<Rightarrow> Some (if no_space then ''insufficient_storage'' else ''internal'')
   | OtherError \<Rightarrow> None)"

definition drop_tmp :: "string \<Rightarrow> fetcher \<Rightarrow> fetcher" where
  "drop_tmp name s = s\<lparr>ft_tmp := (ft_tmp s)(name := None)\<rparr>"

text \<open>\<open>os.replace(tmp, dest)\<close>.\<close>

definition rename_tmp :: "fetch_world \<Rightarrow> string \<Rightarrow> fetch_step_fun \<Rightarrow> fetch_step_fun" where
  "rename_tmp w name k s =
     (if fw_rename_ok w then k (s\<lparr>ft_weights := (ft_weights s)(name := ft_tmp s name),
                                 ft_tmp := (ft_tmp s)(name := None)\<rparr>) else (True, s))"

definition verify_and_place :: "fetch_world \<Rightarrow> lora_fetch \<Rightarrow> string \<Rightarrow> pydict \<Rightarrow> string \<Rightarrow> string \<Rightarrow> fetch_step_fun" where
  "verify_and_place w row name payload sha actual =
     to_status w row FVerifying (\<lambda>s.
       if actual \<noteq> sha then fail_fetch w row ''sha_mismatch'' (drop_tmp name s)
       else write_sidecar w name payload (rename_tmp w name (\<lambda>s.
              to_status w row FDone finish_step (name_dest w row name s))) s)"

definition download_file :: "fetch_world \<Rightarrow> lora_fetch \<Rightarrow> pydict \<Rightarrow> string \<Rightarrow> pydict \<Rightarrow> int \<Rightarrow> fetch_step_fun" where
  "download_file w row entry name payload expected s =
     (let url = str_of (dict_get entry ''downloadUrl'') in
      case validate_download_url (fw_bracket_ok w) url of
        Inl _ \<Rightarrow> fail_fetch w row ''validation_error'' s
      | Inr _ \<Rightarrow>
          (case stream_download w (f_id row) name url expected s of
             (Inl e, s) \<Rightarrow> (case stream_error_code e of
                Some code \<Rightarrow> fail_fetch w row code (drop_tmp name s) | None \<Rightarrow> (True, s))
           | (Inr actual, s) \<Rightarrow> verify_and_place w row name payload (expected_sha entry) actual s))"

definition fetch_file :: "fetch_world \<Rightarrow> lora_fetch \<Rightarrow> pyval \<Rightarrow> fetch_step_fun" where
  "fetch_file w row metadata s = (case pick_primary_file metadata of
     Inl handled \<Rightarrow> (if handled then fail_fetch w row ''validation_error'' s else (True, s))
   | Inr entry \<Rightarrow>
      (case expected_size entry of None \<Rightarrow> (True, s)
       | Some expected \<Rightarrow>
          if fw_file_max_bytes w < expected then fail_fetch w row ''lora_too_large'' s
          else (let s = (if 0 < expected
                         then s\<lparr>ft_rows := set_total_bytes (ft_rows s) (f_id row) expected (fw_now w)\<rparr> else s);
                    name = canonical_name (str_of (dict_get entry ''name'')) (f_civitai_version_id row);
                    payload = sidecar_payload w row name (expected_sha entry) (dict_of metadata)
                in if ft_weights s name \<noteq> None then already_there w row name payload s
                   else (let (fits, s) = make_room w expected s in
                     if fits then download_file w row entry name payload expected s
                     else fail_fetch w row ''insufficient_storage'' s))))"

definition fetch_answer :: "fetch_world \<Rightarrow> lora_fetch \<Rightarrow> fetch_step_fun" where
  "fetch_answer w row s = (case fetch_metadata 2 (fw_metadata w) 0 of
     HttpTransport \<Rightarrow> fail_fetch w row ''civitai_unavailable'' s
   | HttpOther \<Rightarrow> (True, s)
   | HttpStatus c body \<Rightarrow>
       if \<not> (200 \<le> c \<and> c < 300) then fail_fetch w row (metadata_error_code c) s
       else (case body of None \<Rightarrow> (True, s) | Some metadata \<Rightarrow> fetch_file w row metadata s))"

definition fetch :: "fetch_world \<Rightarrow> lora_fetch \<Rightarrow> fetch_step_fun" where
  "fetch w row = to_status w row FDownloading (fetch_answer w row)"

text \<open>
  \<open>_run\<close>: an exception of the fetch fails the row with \<open>internal\<close>; a cancellation, which can come
  between any two steps, fails it with a hand-over. The flag says that the task itself dies.
\<close>

definition run_fetch :: "fetch_world \<Rightarrow> string \<Rightarrow> fetch_step_fun" where
  "run_fetch w request_id s = (case get_fetch_by_id (ft_rows s) request_id of
     None \<Rightarrow> (False, s)
   | Some row \<Rightarrow> (case fetch w row s of
       (False, s) \<Rightarrow> (False, s) | (True, s) \<Rightarrow> fail_fetch w row ''internal'' s))"

definition cancel_fetch :: "fetch_world \<Rightarrow> string \<Rightarrow> fetch_step_fun" where
  "cancel_fetch w request_id s =
     (case set_fetch_failed (ft_rows s) request_id ''service_restarted''
             ''fetcher cancelled during shutdown'' True (fw_now w) of
        Inl _ \<Rightarrow> (True, s) | Inr t \<Rightarrow> (False, s\<lparr>ft_rows := t\<rparr>))"

section \<open>Every fetch settles its row\<close>

definition row_in :: "string \<Rightarrow> lora_fetch_status \<Rightarrow> fetcher \<Rightarrow> bool" where
  "row_in i st s \<longleftrightarrow> map_option f_status (fetch_find (ft_rows s) i) = Some st"

text \<open>A step that returns leaves a terminal row; one that raises leaves an active row.\<close>

definition settles :: "string \<Rightarrow> bool \<times> fetcher \<Rightarrow> bool" where
  "settles i r \<longleftrightarrow> (if fst r then \<exists>st. non_terminal_fetch st \<and> row_in i st (snd r)
     else row_in i FDone (snd r) \<or> row_in i FFailed (snd r))"

lemma row_in_updates [simp]:
  "row_in i st (s\<lparr>ft_weights := a\<rparr>) = row_in i st s" "row_in i st (s\<lparr>ft_sidecars := b\<rparr>) = row_in i st s"
  "row_in i st (s\<lparr>ft_tmp := c\<rparr>) = row_in i st s" "row_in i st (s\<lparr>ft_requests := d\<rparr>) = row_in i st s"
  by (simp_all add: row_in_def)

lemma row_in_modify:
  "(\<And>r. f_id (f r) = f_id r) \<Longrightarrow> (\<And>r. f_status (f r) = f_status r) \<Longrightarrow>
   row_in i st (s\<lparr>ft_rows := fetch_modify j f (ft_rows s)\<rparr>) = row_in i st s"
  by (auto simp: row_in_def ft.find_modify option.map_comp comp_def)

lemma row_in_setters [simp]:
  "row_in i st (s\<lparr>ft_rows := set_total_bytes (ft_rows s) j n now\<rparr>) = row_in i st s"
  "row_in i st (s\<lparr>ft_rows := set_progress (ft_rows s) j n now\<rparr>) = row_in i st s"
  "row_in i st (name_dest w row name s) = row_in i st s"
  by (simp_all add: set_total_bytes_def set_progress_def set_dest_name_def name_dest_def row_in_modify)

lemma raised_settles: "non_terminal_fetch st \<Longrightarrow> row_in i st s \<Longrightarrow> settles i (True, s)"
  by (auto simp: settles_def)

lemma fail_fetch_fails:
  assumes "non_terminal_fetch st" and "row_in (f_id row) st s"
  shows "\<exists>s'. fail_fetch w row code s = (False, s') \<and> row_in (f_id row) FFailed s'"
proof -
  from assms(2) obtain r where "fetch_find (ft_rows s) (f_id row) = Some r" "f_status r = st" by (auto simp: row_in_def)
  with assms(1) show ?thesis
    by (auto simp: fail_fetch_def set_fetch_failed_eq row_in_def ft.find_modify failed_fetch_row_def)
qed

lemma fail_fetch_settles: "non_terminal_fetch st \<Longrightarrow> row_in (f_id row) st s \<Longrightarrow> settles (f_id row) (fail_fetch w row code s)"
  using fail_fetch_fails [of st row s w code] by (auto simp: settles_def)

lemma to_status_settles:
  assumes "row_in (f_id row) st s" and "target \<in> set (fetch_transitions st)"
    and "\<And>s. row_in (f_id row) target s \<Longrightarrow> settles (f_id row) (k s)"
  shows "settles (f_id row) (to_status w row target k s)"
proof -
  from assms(1) obtain r where "fetch_find (ft_rows s) (f_id row) = Some r" "f_status r = st" by (auto simp: row_in_def)
  with assms(2) have "\<exists>t. set_status (ft_rows s) (f_id row) target (fw_now w) = Inr t \<and>
      row_in (f_id row) target (s\<lparr>ft_rows := t\<rparr>)"
    by (auto simp: set_status_eq row_in_def ft.find_modify)
  with assms(3) show ?thesis by (auto simp: to_status_def)
qed

lemma done_settles: "row_in i FDone s \<Longrightarrow> settles i (finish_step s)"
  by (simp add: settles_def finish_step_def)

lemma non_terminal_simps [simp]:
  "non_terminal_fetch FPending" "non_terminal_fetch FDownloading" "non_terminal_fetch FVerifying"
  by (simp_all add: non_terminal_fetch_def)

lemma write_sidecar_settles:
  assumes "non_terminal_fetch st" and "row_in i st s" and "\<And>s. row_in i st s \<Longrightarrow> settles i (k s)"
  shows "settles i (write_sidecar w name payload k s)"
  using assms by (auto simp: write_sidecar_def intro: raised_settles)

lemma already_there_settles:
  assumes "row_in (f_id row) FDownloading s"
  shows "settles (f_id row) (already_there w row name payload s)"
proof -
  let ?k = "\<lambda>s. to_status w row FVerifying (to_status w row FDone finish_step) (name_dest w row name s)"
  have "settles (f_id row) (?k s)" if "row_in (f_id row) FDownloading s" for s
    by (rule to_status_settles [where st = FDownloading], simp add: that, simp,
        rule to_status_settles [where st = FVerifying], assumption, simp, rule done_settles)
  with assms show ?thesis
    by (auto simp: already_there_def Let_def intro!: write_sidecar_settles [where st = FDownloading])
qed

lemma row_in_eviction [simp]: "row_in i st (apply_eviction w left s) = row_in i st s"
  by (simp add: apply_eviction_def Let_def)

lemma verify_settles:
  assumes "row_in (f_id row) FDownloading s"
  shows "settles (f_id row) (verify_and_place w row name payload sha actual s)"
  unfolding verify_and_place_def
proof (rule to_status_settles [OF assms])
  fix s
  assume v: "row_in (f_id row) FVerifying s"
  have "settles (f_id row) (to_status w row FDone finish_step (name_dest w row name s))"
    if "row_in (f_id row) FVerifying s" for s
    using that by (intro to_status_settles [where st = FVerifying] done_settles) simp_all
  then have "settles (f_id row) (rename_tmp w name (\<lambda>s. to_status w row FDone finish_step (name_dest w row name s)) s)"
    if "row_in (f_id row) FVerifying s" for s
    using that by (auto simp: rename_tmp_def intro: raised_settles [where st = FVerifying])
  with v show "settles (f_id row) (if actual \<noteq> sha then fail_fetch w row ''sha_mismatch'' (drop_tmp name s)
       else write_sidecar w name payload (rename_tmp w name (\<lambda>s.
              to_status w row FDone finish_step (name_dest w row name s))) s)"
    by (auto simp: drop_tmp_def intro!: write_sidecar_settles [where st = FVerifying] fail_fetch_settles [where st = FVerifying])
qed simp

abbreviation status_of :: "fetches \<Rightarrow> string \<Rightarrow> lora_fetch_status option" where
  "status_of t k \<equiv> map_option f_status (fetch_find t k)"

lemma status_of_progress [simp]: "status_of (set_progress t i n now) k = status_of t k"
  by (auto simp: set_progress_def ft.find_modify option.map_comp comp_def)

lemma stream_step_rows: "stream_step w i expected c p = (p', e) \<Longrightarrow> status_of (pr_rows p') k = status_of (pr_rows p) k"
  by (auto simp: stream_step_def Let_def split: if_splits)

lemma stream_chunks_rows:
  "stream_chunks w i expected cs p = (p', e) \<Longrightarrow> status_of (pr_rows p') k = status_of (pr_rows p) k"
proof (induction cs arbitrary: p)
  case (Cons c cs)
  obtain p1 e1 where step: "stream_step w i expected c p = (p1, e1)" by fastforce
  with Cons stream_step_rows [OF step] show ?case by (auto split: option.splits)
qed simp

lemma stream_download_rows:
  assumes "stream_download w i name url expected s = (r, s')"
  shows "row_in k st s' = row_in k st s"
proof (cases "fw_download w url")
  case (DownloadStream cs failure)
  obtain p e where p: "stream_chunks w i expected cs
      \<lparr>pr_bytes = [], pr_last_update = 0, pr_last_disk = 0, pr_rows = ft_rows s\<rparr> = (p, e)" by fastforce
  from assms p DownloadStream have "ft_rows s' \<in> {pr_rows p, set_progress (pr_rows p) i (written p) (fw_now w)}"
    by (auto simp: stream_download_def Let_def split: option.splits)
  then have "status_of (ft_rows s') k = status_of (pr_rows p) k" using status_of_progress by (elim insertE) simp_all
  with stream_chunks_rows [OF p, of k] show ?thesis by (simp add: row_in_def)
qed (use assms in \<open>auto simp: stream_download_def\<close>)

lemma download_settles:
  assumes "row_in (f_id row) FDownloading s"
  shows "settles (f_id row) (download_file w row entry name payload expected s)"
proof -
  obtain r s' where d: "stream_download w (f_id row) name (str_of (dict_get entry ''downloadUrl'')) expected s = (r, s')"
    by fastforce
  from stream_download_rows [OF this] assms have row: "row_in (f_id row) FDownloading s'" by simp
  with assms d show ?thesis
    by (auto simp: download_file_def drop_tmp_def Let_def
        intro!: verify_settles fail_fetch_settles [where st = FDownloading] raised_settles [where st = FDownloading]
        split: sum.split option.split)
qed

lemma fetch_file_settles:
  assumes "row_in (f_id row) FDownloading s"
  shows "settles (f_id row) (fetch_file w row metadata s)"
proof -
  have fail: "settles (f_id row) (fail_fetch w row code s)" "settles (f_id row) (True, s)"
    if "row_in (f_id row) FDownloading s" for code s
    using that by (auto intro: fail_fetch_settles [where st = FDownloading] raised_settles [where st = FDownloading])
  have room: "settles (f_id row) (case make_room w expected s of (fits, s) \<Rightarrow>
      if fits then download_file w row entry name payload expected s else fail_fetch w row ''insufficient_storage'' s)"
    if "row_in (f_id row) FDownloading s" for s expected entry name payload
    using that by (auto simp: make_room_def Let_def split: prod.split intro!: fail download_settles)
  show ?thesis unfolding fetch_file_def Let_def
    using assms by (auto split: sum.split option.split intro!: fail room already_there_settles)
qed

lemma fetch_settles:
  assumes "row_in (f_id row) FPending s"
  shows "settles (f_id row) (fetch w row s)"
  unfolding fetch_def
  by (rule to_status_settles [OF assms])
    (auto simp: fetch_answer_def split: http_answer.split option.split
      intro!: fetch_file_settles fail_fetch_settles [where st = FDownloading] raised_settles [where st = FDownloading])

section \<open>What ends up on the disk\<close>

lemma fail_fetch_files [simp]:
  "ft_weights (snd (fail_fetch w row code s)) = ft_weights s"
  "ft_sidecars (snd (fail_fetch w row code s)) = ft_sidecars s"
  "ft_requests (snd (fail_fetch w row code s)) = ft_requests s"
  by (simp_all add: fail_fetch_def split: sum.split)

lemma set_files [simp]:
  "ft_weights (name_dest w row name s) = ft_weights s" "ft_sidecars (name_dest w row name s) = ft_sidecars s"
  "ft_requests (name_dest w row name s) = ft_requests s"
  "ft_weights (drop_tmp name s) = ft_weights s" "ft_sidecars (drop_tmp name s) = ft_sidecars s"
  "ft_requests (drop_tmp name s) = ft_requests s" "ft_requests (apply_eviction w left s) = ft_requests s"
  by (simp_all add: name_dest_def drop_tmp_def apply_eviction_def Let_def)

lemma to_done_files [simp]:
  "ft_weights (snd (to_status w row target finish_step s)) = ft_weights s"
  "ft_sidecars (snd (to_status w row target finish_step s)) = ft_sidecars s"
  "ft_requests (snd (to_status w row target finish_step s)) = ft_requests s"
  by (simp_all add: to_status_def finish_step_def split: sum.split)

lemma to_status_elim:
  "P (True, s) \<Longrightarrow> (\<And>t. P (k (s\<lparr>ft_rows := t\<rparr>))) \<Longrightarrow> P (to_status w row target k s)"
  by (simp add: to_status_def split: sum.split)

text \<open>The stream: what is written is within the cap, and is what the hash is taken of.\<close>

lemma stream_step_bounded:
  assumes "stream_step w i expected c p = (p', e)" and "fw_file_max_bytes w \<noteq> 0 \<Longrightarrow> written p \<le> fw_file_max_bytes w"
    and "fw_file_max_bytes w \<noteq> 0"
  shows "written p' \<le> fw_file_max_bytes w"
  using assms by (auto simp: stream_step_def Let_def written_def split: if_splits)

lemma stream_chunks_bounded:
  "stream_chunks w i expected cs p = (p', e) \<Longrightarrow> fw_file_max_bytes w \<noteq> 0 \<Longrightarrow> written p \<le> fw_file_max_bytes w \<Longrightarrow>
   written p' \<le> fw_file_max_bytes w"
proof (induction cs arbitrary: p)
  case (Cons c cs)
  obtain p1 e1 where step: "stream_step w i expected c p = (p1, e1)" by fastforce
  with Cons stream_step_bounded [OF step] show ?case by (auto split: option.splits)
qed simp

lemma stream_download_bytes:
  assumes "stream_download w i name url expected s = (r, s')" and "0 \<le> fw_file_max_bytes w"
  shows "ft_weights s' = ft_weights s \<and> ft_sidecars s' = ft_sidecars s \<and> ft_requests s' = ft_requests s @ [url] \<and>
    (\<forall>h. r = Inr h \<longrightarrow> (\<exists>bytes. ft_tmp s' name = Some bytes \<and> h = fw_sha256 w bytes \<and>
       (fw_file_max_bytes w \<noteq> 0 \<longrightarrow> int (length bytes) \<le> fw_file_max_bytes w)))"
proof (cases "fw_download w url")
  case (DownloadStream cs failure)
  let ?p0 = "\<lparr>pr_bytes = [], pr_last_update = 0, pr_last_disk = 0, pr_rows = ft_rows s\<rparr>"
  obtain p e where p: "stream_chunks w i expected cs ?p0 = (p, e)" by fastforce
  have "fw_file_max_bytes w \<noteq> 0 \<longrightarrow> written p \<le> fw_file_max_bytes w"
    using stream_chunks_bounded [OF p] assms(2) by (simp add: written_def)
  with assms(1) p DownloadStream show ?thesis
    by (auto simp: stream_download_def Let_def written_def split: option.splits)
qed (use assms in \<open>auto simp: stream_download_def\<close>)

text \<open>Where a new file may come from, and what its sidecar then says.\<close>

definition placed :: "fetch_world \<Rightarrow> string \<Rightarrow> string \<Rightarrow> fetcher \<Rightarrow> fetcher \<Rightarrow> bool" where
  "placed w name sha s s' \<longleftrightarrow> (\<forall>n bytes. ft_weights s' n = Some bytes \<and> ft_weights s n \<noteq> Some bytes \<longrightarrow>
     n = name \<and> fw_sha256 w bytes = sha \<and> (fw_file_max_bytes w \<noteq> 0 \<longrightarrow> int (length bytes) \<le> fw_file_max_bytes w) \<and>
     (\<exists>d. ft_sidecars s' n = Some d \<and> dict_get d ''sha256'' = VStr sha))"

lemma placed_same: "ft_weights s' = ft_weights s \<Longrightarrow> placed w name sha s s'"
  by (simp add: placed_def)

lemma placed_later: "ft_weights s1 = ft_weights s \<Longrightarrow> placed w name sha s1 s' \<Longrightarrow> placed w name sha s s'"
  unfolding placed_def by (simp only:)

lemma placed_evicted: "placed w name sha (apply_eviction w left s) s' \<Longrightarrow> placed w name sha s s'"
  unfolding placed_def apply_eviction_def Let_def by (fastforce split: if_splits)

lemma payload_sha: "dict_get (sidecar_payload w row name sha metadata) ''sha256'' = VStr sha"
  by (simp add: sidecar_payload_def)

lemma verify_placed:
  assumes "ft_tmp s name = Some bytes" and "fw_sha256 w bytes = actual" and "dict_get payload ''sha256'' = VStr sha"
    and "fw_file_max_bytes w \<noteq> 0 \<Longrightarrow> int (length bytes) \<le> fw_file_max_bytes w"
  shows "placed w name sha s (snd (verify_and_place w row name payload sha actual s))"
proof -
  have final: "ft_weights (snd (to_status w row FDone finish_step (name_dest w row name s))) = ft_weights s"
    "ft_sidecars (snd (to_status w row FDone finish_step (name_dest w row name s))) = ft_sidecars s" for s
    by simp_all
  show ?thesis unfolding verify_and_place_def
    by (rule to_status_elim [where P = "\<lambda>r. placed w name sha s (snd r)"])
      (use assms in \<open>auto simp: placed_def write_sidecar_def rename_tmp_def final\<close>)
qed

lemma download_placed:
  assumes "0 \<le> fw_file_max_bytes w" and "dict_get payload ''sha256'' = VStr (expected_sha entry)"
  shows "placed w name (expected_sha entry) s (snd (download_file w row entry name payload expected s))"
proof -
  obtain r s' where d: "stream_download w (f_id row) name (str_of (dict_get entry ''downloadUrl'')) expected s = (r, s')"
    by fastforce
  note bytes = stream_download_bytes [OF d assms(1)]
  show ?thesis
  proof (cases r)
    case (Inr h)
    with bytes obtain b where "ft_tmp s' name = Some b" "fw_sha256 w b = h"
      "fw_file_max_bytes w \<noteq> 0 \<longrightarrow> int (length b) \<le> fw_file_max_bytes w" by auto
    then have "placed w name (expected_sha entry) s' (snd (verify_and_place w row name payload (expected_sha entry) h s'))"
      by (intro verify_placed assms(2)) auto
    then have "placed w name (expected_sha entry) s (snd (verify_and_place w row name payload (expected_sha entry) h s'))"
      by (rule placed_later [rotated]) (simp add: bytes)
    with d Inr show ?thesis
      by (cases "validate_download_url (fw_bracket_ok w) (str_of (dict_get entry ''downloadUrl''))")
        (simp_all add: download_file_def Let_def placed_same)
  next
    case (Inl e)
    have "placed w n (expected_sha entry) s (snd (case stream_error_code e of
        Some code \<Rightarrow> fail_fetch w row code (drop_tmp name s') | None \<Rightarrow> (True, s')))" for n
      using bytes by (cases "stream_error_code e") (simp_all add: placed_same)
    with d Inl show ?thesis
      by (cases "validate_download_url (fw_bracket_ok w) (str_of (dict_get entry ''downloadUrl''))")
        (simp_all add: download_file_def Let_def placed_same)
  qed
qed

lemma fetch_file_placed:
  assumes "0 \<le> fw_file_max_bytes w"
  shows "ft_weights (snd (fetch_file w row metadata s)) = ft_weights s \<or>
    (\<exists>entry. pick_primary_file metadata = Inr entry \<and>
      placed w (canonical_name (str_of (dict_get entry ''name'')) (f_civitai_version_id row)) (expected_sha entry)
        s (snd (fetch_file w row metadata s)))"
proof (cases "pick_primary_file metadata")
  case (Inr entry)
  let ?name = "canonical_name (str_of (dict_get entry ''name'')) (f_civitai_version_id row)"
  let ?payload = "sidecar_payload w row ?name (expected_sha entry) (dict_of metadata)"
  have there: "ft_weights (snd (already_there w row ?name ?payload s)) = ft_weights s" for s
  proof -
    have k: "ft_weights (snd (to_status w row FVerifying (to_status w row FDone finish_step) s)) = ft_weights s" for s
      by (rule to_status_elim) simp_all
    show ?thesis by (simp add: already_there_def Let_def write_sidecar_def k)
  qed
  have room: "placed w ?name (expected_sha entry) s (snd (case make_room w expected s of (fits, s) \<Rightarrow>
      if fits then download_file w row entry ?name ?payload expected s else fail_fetch w row ''insufficient_storage'' s))"
    for s expected
  proof -
    obtain fits s1 where m: "make_room w expected s = (fits, s1)" by fastforce
    have "placed w ?name (expected_sha entry) s1 (snd (if fits then download_file w row entry ?name ?payload expected s1
        else fail_fetch w row ''insufficient_storage'' s1))"
      by (cases fits) (simp_all add: download_placed assms payload_sha placed_same)
    moreover have "s1 = s \<or> (\<exists>left. s1 = apply_eviction w left s)"
      using m by (auto simp: make_room_def Let_def split: if_splits prod.splits)
    ultimately have "placed w ?name (expected_sha entry) s (snd (if fits then download_file w row entry ?name ?payload expected s1
        else fail_fetch w row ''insufficient_storage'' s1))"
      by (metis placed_evicted)
    then show ?thesis by (simp only: m prod.case)
  qed
  have "placed w ?name (expected_sha entry) s (snd (fetch_file w row metadata s))"
    unfolding fetch_file_def Inr Let_def
    by (auto intro: placed_same room placed_later [OF _ room] simp: there split: option.split)
  with Inr show ?thesis by blast
qed (simp add: fetch_file_def)

text \<open>
  C35: Only verified bytes reach the LoRA directory: after a fetch, every weight file is either
  one that was there before or the file of this version, whose SHA-256 is the one Civitai's
  metadata states for the primary file, whose size respects the cap, and whose sidecar
  records that hash.
\<close>

theorem fetched_bytes_verified:
  assumes "get_fetch_by_id (ft_rows s) i = Some row" and "run_fetch w i s = (dies, s')" and "0 \<le> fw_file_max_bytes w"
    and "ft_weights s' n = Some bytes" and "ft_weights s n \<noteq> Some bytes"
  shows "\<exists>c metadata entry. fetch_metadata 2 (fw_metadata w) 0 = HttpStatus c (Some metadata) \<and>
    pick_primary_file metadata = Inr entry \<and>
    n = canonical_name (str_of (dict_get entry ''name'')) (f_civitai_version_id row) \<and>
    fw_sha256 w bytes = expected_sha entry \<and>
    (fw_file_max_bytes w \<noteq> 0 \<longrightarrow> int (length bytes) \<le> fw_file_max_bytes w) \<and>
    (\<exists>d. ft_sidecars s' n = Some d \<and> dict_get d ''sha256'' = VStr (expected_sha entry))"
proof -
  have files: "ft_weights s' = ft_weights (snd (fetch w row s))" "ft_sidecars s' = ft_sidecars (snd (fetch w row s))"
    using assms(1,2) by (auto simp: run_fetch_def split: prod.splits bool.splits)
      (metis fail_fetch_files(1,2) snd_conv)+
  let ?delivered = "\<lambda>s'. ft_weights s' = ft_weights s \<or>
    (\<exists>c metadata entry. fetch_metadata 2 (fw_metadata w) 0 = HttpStatus c (Some metadata) \<and>
      pick_primary_file metadata = Inr entry \<and>
      placed w (canonical_name (str_of (dict_get entry ''name'')) (f_civitai_version_id row)) (expected_sha entry) s s')"
  have "?delivered (snd (fetch_answer w row (s\<lparr>ft_rows := t\<rparr>)))" for t
  proof (cases "\<exists>c metadata. fetch_metadata 2 (fw_metadata w) 0 = HttpStatus c (Some metadata)")
    case True
    then obtain c metadata where m: "fetch_metadata 2 (fw_metadata w) 0 = HttpStatus c (Some metadata)" by blast
    have same: "ft_weights (s\<lparr>ft_rows := t\<rparr>) = ft_weights s" by simp
    note file_placed = fetch_file_placed [OF assms(3), of row metadata "s\<lparr>ft_rows := t\<rparr>"]
    have "?delivered (snd (fetch_file w row metadata (s\<lparr>ft_rows := t\<rparr>)))"
      using file_placed placed_later [OF same] same m by metis
    then show ?thesis by (auto simp: fetch_answer_def m)
  next
    case False
    then show ?thesis by (auto simp: fetch_answer_def split: http_answer.split option.split)
  qed
  then have "?delivered (snd (fetch w row s))"
    unfolding fetch_def by (intro to_status_elim [where P = "\<lambda>r. ?delivered (snd r)"]) auto
  with assms(4,5) show ?thesis unfolding files placed_def by metis
qed
text \<open>A step that returns with the row done has put the files there and named them in the row.\<close>

definition named :: "string \<Rightarrow> string \<Rightarrow> fetcher \<Rightarrow> bool" where
  "named i name s \<longleftrightarrow> (\<forall>r. fetch_find (ft_rows s) i = Some r \<longrightarrow> f_dest_name r = Some name)"

definition delivers :: "string \<Rightarrow> bool \<times> fetcher \<Rightarrow> bool" where
  "delivers i r \<longleftrightarrow> (\<not> fst r \<and> row_in i FDone (snd r) \<longrightarrow>
     (\<exists>name. named i name (snd r) \<and> ft_weights (snd r) name \<noteq> None \<and> ft_sidecars (snd r) name \<noteq> None))"

lemma raised_delivers [simp]: "delivers i (True, s)"
  by (simp add: delivers_def)

lemma fail_fetch_delivers [simp]: "delivers (f_id row) (fail_fetch w row code s)"
  by (auto simp: delivers_def fail_fetch_def set_fetch_failed_eq row_in_def ft.find_modify failed_fetch_row_def
      split: sum.splits option.splits if_splits)

lemma named_name_dest: "named (f_id row) name (name_dest w row name s)"
  by (auto simp: named_def name_dest_def set_dest_name_def ft.find_modify)

lemma to_status_named:
  assumes "named (f_id row) name s" and "\<And>t. named (f_id row) name (s\<lparr>ft_rows := t\<rparr>) \<Longrightarrow> delivers (f_id row) (k (s\<lparr>ft_rows := t\<rparr>))"
  shows "delivers (f_id row) (to_status w row target k s)"
proof (cases "set_status (ft_rows s) (f_id row) target (fw_now w)")
  case (Inr t)
  then have "named (f_id row) name (s\<lparr>ft_rows := t\<rparr>)"
    using assms(1) by (auto simp: set_status_eq named_def ft.find_modify split: option.splits if_splits)
  with assms(2) Inr show ?thesis by (simp add: to_status_def)
qed (simp add: to_status_def)

lemma finish_delivers:
  "named i name s \<Longrightarrow> ft_weights s name \<noteq> None \<Longrightarrow> ft_sidecars s name \<noteq> None \<Longrightarrow> delivers i (finish_step s)"
  by (auto simp: delivers_def finish_step_def)

lemma done_delivers:
  assumes "ft_weights s name \<noteq> None" and "ft_sidecars s name \<noteq> None"
  shows "delivers (f_id row) (to_status w row FDone finish_step (name_dest w row name s))"
  by (rule to_status_named [OF named_name_dest]) (use assms in \<open>auto intro: finish_delivers\<close>)

lemma already_there_delivers:
  assumes "ft_weights s name \<noteq> None"
  shows "delivers (f_id row) (already_there w row name payload s)"
proof -
  have k: "delivers (f_id row) (to_status w row FVerifying (to_status w row FDone finish_step) (name_dest w row name s))"
    if "ft_weights s name \<noteq> None" "ft_sidecars s name \<noteq> None" for s
    by (rule to_status_named [OF named_name_dest], rule to_status_named, assumption)
      (use that in \<open>auto intro: finish_delivers\<close>)
  show ?thesis
    using assms by (auto simp: already_there_def Let_def write_sidecar_def intro!: k)
qed

lemma verify_delivers:
  assumes "ft_tmp s name \<noteq> None"
  shows "delivers (f_id row) (verify_and_place w row name payload sha actual s)"
  unfolding verify_and_place_def
  by (rule to_status_elim) (use assms in \<open>auto simp: write_sidecar_def rename_tmp_def intro!: done_delivers\<close>)

lemma download_delivers:
  assumes "0 \<le> fw_file_max_bytes w"
  shows "delivers (f_id row) (download_file w row entry name payload expected s)"
proof -
  obtain r s' where d: "stream_download w (f_id row) name (str_of (dict_get entry ''downloadUrl'')) expected s = (r, s')"
    by fastforce
  have "ft_tmp s' name \<noteq> None" if "r = Inr h" for h
    using stream_download_bytes [OF d assms] that by auto
  with d show ?thesis
    by (auto simp: download_file_def Let_def intro!: verify_delivers split: sum.split option.split)
qed

lemma fetch_file_delivers:
  assumes "0 \<le> fw_file_max_bytes w"
  shows "delivers (f_id row) (fetch_file w row metadata s)"
  unfolding fetch_file_def Let_def
  by (auto split: sum.split option.split prod.split intro!: already_there_delivers download_delivers assms)

lemma fetch_delivers: "0 \<le> fw_file_max_bytes w \<Longrightarrow> delivers (f_id row) (fetch w row s)"
  unfolding fetch_def
  by (rule to_status_elim) (auto simp: fetch_answer_def fetch_file_delivers split: http_answer.split option.split)

text \<open>
  A row is done only when the LoRA is usable: its \<open>dest_name\<close> names a weight file that is in
  place together with its sidecar.
\<close>

theorem done_means_delivered:
  assumes "get_fetch_by_id (ft_rows s) i = Some row" and "f_status row = FPending" and "0 \<le> fw_file_max_bytes w"
    and "run_fetch w i s = (dies, s')" and "get_fetch_by_id (ft_rows s') i = Some row'" and "f_status row' = FDone"
  shows "\<exists>name. f_dest_name row' = Some name \<and> ft_weights s' name \<noteq> None \<and> ft_sidecars s' name \<noteq> None"
proof -
  have id: "f_id row = i" using assms(1) ft.find_member by (simp add: get_fetch_by_id_def)
  obtain raised s1 where f: "fetch w row s = (raised, s1)" by fastforce
  have "delivers i (dies, s')"
    using assms(1,4) f fetch_delivers [OF assms(3), of row s] fail_fetch_delivers [of row w "''internal''" s1]
    by (cases raised) (auto simp: run_fetch_def id)
  moreover have "\<not> dies"
  proof -
    have "row_in (f_id row) FPending s" using assms(1,2) id by (simp add: row_in_def get_fetch_by_id_def)
    from fetch_settles [OF this, of w] f have settled: "settles i (raised, s1)" by (simp add: id)
    show ?thesis
    proof (cases raised)
      case True
      with settled obtain st where st: "non_terminal_fetch st" "row_in (f_id row) st s1" by (auto simp: settles_def id)
      from fail_fetch_fails [OF st, of w "''internal''"] assms(1,4) f True show ?thesis
        by (auto simp: run_fetch_def)
    qed (use assms(1,4) f in \<open>auto simp: run_fetch_def\<close>)
  qed
  moreover have "row_in i FDone s'" using assms(5,6) by (simp add: row_in_def get_fetch_by_id_def)
  ultimately show ?thesis using assms(5) by (auto simp: delivers_def named_def get_fetch_by_id_def)
qed

section \<open>Requests and the quota\<close>

definition requests_ok :: "fetch_world \<Rightarrow> fetcher \<Rightarrow> bool \<times> fetcher \<Rightarrow> bool" where
  "requests_ok w s r \<longleftrightarrow> (\<forall>url \<in> set (ft_requests (snd r)).
     url \<in> set (ft_requests s) \<or> validate_download_url (fw_bracket_ok w) url = Inr ())"

lemma requests_same: "ft_requests (snd r) = ft_requests s \<Longrightarrow> requests_ok w s r"
  by (simp add: requests_ok_def)

lemma already_there_requests: "ft_requests (snd (already_there w row name payload s)) = ft_requests s"
proof -
  have "ft_requests (snd (to_status w row FVerifying (to_status w row FDone finish_step) s)) = ft_requests s" for s
    by (rule to_status_elim) simp_all
  then show ?thesis by (simp add: already_there_def Let_def write_sidecar_def)
qed

lemma verify_requests: "ft_requests (snd (verify_and_place w row name payload sha actual s)) = ft_requests s"
  unfolding verify_and_place_def
  by (rule to_status_elim) (simp_all add: write_sidecar_def rename_tmp_def)

lemma download_requests: "requests_ok w s (download_file w row entry name payload expected s)"
proof (cases "validate_download_url (fw_bracket_ok w) (str_of (dict_get entry ''downloadUrl''))")
  case (Inr u)
  obtain r s' where d: "stream_download w (f_id row) name (str_of (dict_get entry ''downloadUrl'')) expected s = (r, s')"
    by fastforce
  then have "ft_requests s' = ft_requests s @ [str_of (dict_get entry ''downloadUrl'')]"
    by (auto simp: stream_download_def Let_def split: download.splits prod.splits option.splits)
  with Inr d show ?thesis
    by (auto simp: download_file_def Let_def requests_ok_def verify_requests split: sum.splits option.splits)
qed (simp add: download_file_def requests_same)

lemma fetch_file_requests: "requests_ok w s (fetch_file w row metadata s)"
proof -
  have room: "requests_ok w s (case make_room w expected s1 of (fits, s) \<Rightarrow>
      if fits then download_file w row entry name payload expected s else fail_fetch w row ''insufficient_storage'' s)"
    if "ft_requests s1 = ft_requests s" for s1 expected entry name payload
  proof -
    obtain fits s2 where m: "make_room w expected s1 = (fits, s2)" by fastforce
    then have "ft_requests s2 = ft_requests s" using that by (auto simp: make_room_def Let_def split: if_splits prod.splits)
    moreover from this have "requests_ok w s (download_file w row entry name payload expected s2)"
      using download_requests [of w s2 row entry name payload expected] by (simp add: requests_ok_def)
    ultimately show ?thesis by (simp add: m requests_same)
  qed
  show ?thesis unfolding fetch_file_def Let_def
    by (auto split: sum.split option.split intro!: room simp: requests_same already_there_requests)
qed

lemma fetch_requests: "requests_ok w s (fetch w row s)"
proof -
  have "requests_ok w s (fetch_answer w row (s\<lparr>ft_rows := t\<rparr>))" for t
    using fetch_file_requests [of w "s\<lparr>ft_rows := t\<rparr>" row]
    by (auto simp: fetch_answer_def requests_ok_def split: http_answer.split option.split)
  then show ?thesis unfolding fetch_def by (intro to_status_elim [where P = "requests_ok w s"]) (auto simp: requests_same)
qed

text \<open>
  The fetcher cannot be steered to another host: whatever the metadata says, every download
  it starts (of a URL without brackets) is an HTTPS request whose whole authority is one of the
  two Civitai hosts or a proper subdomain of one, in any case and up to an empty port.
\<close>

theorem downloads_only_from_civitai:
  assumes "run_fetch w i s = (dies, s')" and "url \<in> set (ft_requests s')" and "url \<notin> set (ft_requests s)"
    and "CHR ''['' \<notin> set url"
  shows "\<exists>u host. urlparse (fw_bracket_ok w) url = Some u \<and> u_scheme u = ''https'' \<and>
    lower (u_netloc u) \<in> {host, host @ '':''} \<and>
    (host \<in> {''civitai.com'', ''civitai.red''} \<or> suffix ''.civitai.com'' host \<or> suffix ''.civitai.red'' host)"
proof -
  have "validate_download_url (fw_bracket_ok w) url = Inr ()"
  proof (cases "get_fetch_by_id (ft_rows s) i")
    case (Some row)
    obtain raised s1 where f: "fetch w row s = (raised, s1)" by fastforce
    have "ft_requests s' = ft_requests s1"
      using assms(1) Some f fail_fetch_files(3) [of w row "''internal''" s1] by (cases raised) (auto simp: run_fetch_def)
    with fetch_requests [of w s row] f assms(2,3) show ?thesis by (auto simp: requests_ok_def)
  qed (use assms in \<open>simp add: run_fetch_def\<close>)
  then show ?thesis by (rule download_url_authority [OF _ assms(4)])
qed
lemma quota_fields:
  "fw_metadata (w\<lparr>fw_dir_max_bytes := q\<rparr>) = fw_metadata w" "fw_bracket_ok (w\<lparr>fw_dir_max_bytes := q\<rparr>) = fw_bracket_ok w"
  "fw_file_max_bytes (w\<lparr>fw_dir_max_bytes := q\<rparr>) = fw_file_max_bytes w" "fw_download (w\<lparr>fw_dir_max_bytes := q\<rparr>) = fw_download w"
  "fw_sha256 (w\<lparr>fw_dir_max_bytes := q\<rparr>) = fw_sha256 w" "fw_now (w\<lparr>fw_dir_max_bytes := q\<rparr>) = fw_now w"
  "fw_now_text (w\<lparr>fw_dir_max_bytes := q\<rparr>) = fw_now_text w" "fw_rename_ok (w\<lparr>fw_dir_max_bytes := q\<rparr>) = fw_rename_ok w"
  "fw_sidecar_write_ok (w\<lparr>fw_dir_max_bytes := q\<rparr>) = fw_sidecar_write_ok w"
  by simp_all

lemma quota_irrelevant [simp]:
  "fail_fetch (w\<lparr>fw_dir_max_bytes := q\<rparr>) = fail_fetch w"
  "to_status (w\<lparr>fw_dir_max_bytes := q\<rparr>) = to_status w"
  "write_sidecar (w\<lparr>fw_dir_max_bytes := q\<rparr>) = write_sidecar w"
  "name_dest (w\<lparr>fw_dir_max_bytes := q\<rparr>) = name_dest w"
  "rename_tmp (w\<lparr>fw_dir_max_bytes := q\<rparr>) = rename_tmp w"
  "sidecar_payload (w\<lparr>fw_dir_max_bytes := q\<rparr>) = sidecar_payload w"
  "stream_step (w\<lparr>fw_dir_max_bytes := q\<rparr>) = stream_step w"
  unfolding fail_fetch_def [abs_def] to_status_def [abs_def] write_sidecar_def [abs_def] name_dest_def [abs_def]
    rename_tmp_def [abs_def] sidecar_payload_def [abs_def] stream_step_def [abs_def]
  unfolding quota_fields by (rule refl)+

lemma quota_stream: "stream_chunks (w\<lparr>fw_dir_max_bytes := q\<rparr>) i expected cs p = stream_chunks w i expected cs p"
  by (induction cs arbitrary: p) simp_all

lemma quota_steps [simp]:
  "download_file (w\<lparr>fw_dir_max_bytes := q\<rparr>) row entry name payload expected s = download_file w row entry name payload expected s"
  "already_there (w\<lparr>fw_dir_max_bytes := q\<rparr>) row name payload s = already_there w row name payload s"
  unfolding download_file_def stream_download_def verify_and_place_def already_there_def quota_irrelevant quota_stream
    quota_fields by (rule refl)+

lemma quota_room: "expected * 2 \<le> fw_free_bytes w \<Longrightarrow> make_room (w\<lparr>fw_dir_max_bytes := q\<rparr>) expected s = make_room w expected s"
  by (simp add: make_room_def)

text \<open>
  The storage quota does not bind: while the disk has twice the size cap free, the outcome of
  a fetch is the same for every \<open>LORA_DIR_MAX_SIZE_GB\<close>; the directory is never measured against
  it, and grows past it.
\<close>

theorem quota_not_enforced:
  assumes "2 * fw_file_max_bytes w \<le> fw_free_bytes w"
  shows "run_fetch (w\<lparr>fw_dir_max_bytes := q\<rparr>) i s = run_fetch w i s"
proof -
  have room: "make_room (w\<lparr>fw_dir_max_bytes := q\<rparr>) expected s = make_room w expected s"
    if "\<not> fw_file_max_bytes w < expected" for expected s
    using that assms by (intro quota_room) simp
  have ff: "fetch_file (w\<lparr>fw_dir_max_bytes := q\<rparr>) row metadata s = fetch_file w row metadata s" for row metadata s
    unfolding fetch_file_def Let_def quota_irrelevant quota_steps quota_fields
    by (auto simp: room split: sum.split option.split)
  have "fetch_answer (w\<lparr>fw_dir_max_bytes := q\<rparr>) row = fetch_answer w row" for row
    unfolding fetch_answer_def [abs_def] quota_irrelevant quota_fields ff by (rule refl)
  then have f: "fetch (w\<lparr>fw_dir_max_bytes := q\<rparr>) row = fetch w row" for row
    by (simp add: fetch_def)
  show ?thesis unfolding run_fetch_def f quota_irrelevant by (rule refl)
qed

section \<open>An example fetch\<close>

definition demo_metadata :: pyval where
  "demo_metadata = VDict [(''files'', VList [VDict [(''primary'', VBool True), (''name'', VStr ''My LoRA.safetensors''),
     (''sizeKB'', VInt 1), (''downloadUrl'', VStr ''https://civitai.com/d/1''),
     (''hashes'', VDict [(''SHA256'', VStr ''AB'')])]])]"

definition demo_fetch_world :: fetch_world where
  "demo_fetch_world = \<lparr>fw_metadata = (\<lambda>k. if k = 0 then HttpTransport else HttpStatus 200 (Some demo_metadata)),
     fw_bracket_ok = (\<lambda>_. False), fw_free_bytes = 4000, fw_file_max_bytes = 2000, fw_dir_max_bytes = 0,
     fw_recent_use_days = 7, fw_listing = None, fw_sidecar_unlink_ok = (\<lambda>_. True), fw_parse_time = (\<lambda>_. None),
     fw_jobs = [], fw_jobs_at = (\<lambda>_. []),
     fw_download = (\<lambda>_. DownloadStream [\<lparr>ch_bytes = ''xyz'', ch_elapsed = 1, ch_free = 4000\<rparr>] None),
     fw_sha256 = (\<lambda>b. if b = ''xyz'' then ''ab'' else ''cd''), fw_sidecar_write_ok = True, fw_rename_ok = True,
     fw_now = 9, fw_now_text = ''now''\<rparr>"

definition demo_fetcher :: fetcher where
  "demo_fetcher = \<lparr>ft_rows = (case create_pending [] ''lfetch_1'' 1 ''u'' None 34 of Inr (t, _) \<Rightarrow> t | Inl _ \<Rightarrow> []),
     ft_weights = (\<lambda>_. None), ft_sidecars = (\<lambda>_. None), ft_tmp = (\<lambda>_. None), ft_requests = []\<rparr>"

lemma demo_pending: "\<exists>row. get_fetch_by_id (ft_rows demo_fetcher) ''lfetch_1'' = Some row \<and> f_status row = FPending \<and>
    f_civitai_version_id row = 34"
  by (simp add: demo_fetcher_def get_fetch_by_id_def create_pending_def tbl_insert_def tbl_find_def Let_def)

lemma demo_fetched: "case run_fetch demo_fetch_world ''lfetch_1'' demo_fetcher of (dies, s') \<Rightarrow>
    map_option f_status (get_fetch_by_id (ft_rows s') ''lfetch_1'') = Some FDone \<and>
    ft_weights s' ''civitai/My_LoRA_34'' = Some ''xyz'' \<and> ft_requests s' = [''https://civitai.com/d/1'']"
  by code_simp

lemma demo_max: "0 \<le> fw_file_max_bytes demo_fetch_world"
  by (simp add: demo_fetch_world_def)


theorem fetched_bytes_verified_witness:
  "case run_fetch demo_fetch_world ''lfetch_1'' demo_fetcher of (dies, s') \<Rightarrow>
     \<exists>d. ft_sidecars s' ''civitai/My_LoRA_34'' = Some d \<and> dict_get d ''sha256'' = VStr (fw_sha256 demo_fetch_world ''xyz'')"
proof -
  obtain row where row: "get_fetch_by_id (ft_rows demo_fetcher) ''lfetch_1'' = Some row" using demo_pending by blast
  obtain dies s' where r: "run_fetch demo_fetch_world ''lfetch_1'' demo_fetcher = (dies, s')" by fastforce
  then have w: "ft_weights s' ''civitai/My_LoRA_34'' = Some ''xyz''" using demo_fetched by simp
  have "ft_weights demo_fetcher ''civitai/My_LoRA_34'' \<noteq> Some ''xyz''" by (simp add: demo_fetcher_def)
  from fetched_bytes_verified [OF row r demo_max w this] show ?thesis by (auto simp: r)
qed

theorem done_means_delivered_witness:
  "case run_fetch demo_fetch_world ''lfetch_1'' demo_fetcher of (dies, s') \<Rightarrow>
     \<exists>name. ft_weights s' name \<noteq> None \<and> ft_sidecars s' name \<noteq> None"
proof -
  obtain row where row: "get_fetch_by_id (ft_rows demo_fetcher) ''lfetch_1'' = Some row" "f_status row = FPending"
    using demo_pending by blast
  obtain dies s' where r: "run_fetch demo_fetch_world ''lfetch_1'' demo_fetcher = (dies, s')" by fastforce
  then obtain row' where row': "get_fetch_by_id (ft_rows s') ''lfetch_1'' = Some row'" "f_status row' = FDone"
    using demo_fetched by auto
  from done_means_delivered [OF row demo_max r row'] show ?thesis by (auto simp: r)
qed

theorem downloads_only_from_civitai_witness:
  "\<exists>u. urlparse (\<lambda>_. False) ''https://civitai.com/d/1'' = Some u \<and> u_scheme u = ''https''"
proof -
  obtain dies s' where r: "run_fetch demo_fetch_world ''lfetch_1'' demo_fetcher = (dies, s')" by fastforce
  then have "''https://civitai.com/d/1'' \<in> set (ft_requests s')" using demo_fetched by simp
  moreover have "''https://civitai.com/d/1'' \<notin> set (ft_requests demo_fetcher)" by (simp add: demo_fetcher_def)
  moreover have "CHR ''['' \<notin> set ''https://civitai.com/d/1''" by simp
  ultimately have "\<exists>u host. urlparse (fw_bracket_ok demo_fetch_world) ''https://civitai.com/d/1'' = Some u \<and> u_scheme u = ''https''"
    using downloads_only_from_civitai [OF r] by blast
  then show ?thesis by (simp add: demo_fetch_world_def)
qed

theorem quota_not_enforced_witness:
  "run_fetch (demo_fetch_world\<lparr>fw_dir_max_bytes := 1\<rparr>) ''lfetch_1'' demo_fetcher = run_fetch demo_fetch_world ''lfetch_1'' demo_fetcher"
  by (rule quota_not_enforced) (simp add: demo_fetch_world_def)

end
