(* ===== verification/Validation.thy ===== *)
theory Validation
  imports Registry Job_Store
begin

text \<open>
  \<open>app/validation.py\<close>: the request models and \<open>resolve_and_validate\<close>, which merges a
  request with its model's defaults, enforces the model's limits and resolves LoRA files,
  for images and videos; and the debounced \<open>last_used\<close> updates of LoRA sidecars. Parsing a
  JSON body into a request is Pydantic's; the constraints its field declarations impose are
  \<open>request_ok\<close> and \<open>video_request_ok\<close>.
\<close>

section \<open>Requests\<close>

datatype response_format = UrlFormat | B64Json

record lora_spec =
  ls_name :: string
  ls_weight :: rat

record webhook_spec =
  ws_url :: string
  ws_headers :: "(string \<times> string) list option"

record generate_request =
  gr_model :: string
  gr_prompt :: string
  gr_negative_prompt :: "string option"
  gr_size :: string
  gr_n :: int
  gr_steps :: "int option"
  gr_cfg :: rat
  gr_seed :: int
  gr_sampler :: "string option"
  gr_scheduler :: "string option"
  gr_response_format :: response_format
  gr_transparent_background :: bool
  gr_mode :: job_mode
  gr_timeout_s :: "rat option"
  gr_loras :: "lora_spec list option"
  gr_init_image :: "string option"
  gr_webhook :: "webhook_spec option"

record video_request =
  vr_model :: string
  vr_prompt :: string
  vr_negative_prompt :: "string option"
  vr_size :: string
  vr_frames :: int
  vr_fps :: rat
  vr_steps :: "int option"
  vr_cfg :: "rat option"
  vr_shift :: "rat option"
  vr_seed :: int
  vr_scheduler :: "string option"
  vr_riflex_freq_index :: int
  vr_force_offload :: bool
  vr_generate_audio :: bool
  vr_response_format :: response_format
  vr_mode :: job_mode
  vr_timeout_s :: "rat option"
  vr_webhook :: "webhook_spec option"
  vr_init_image :: "string option"
  vr_loras :: "lora_spec list option"
  vr_wan_advanced :: "wan_advanced option"

definition len_between :: "nat \<Rightarrow> nat \<Rightarrow> string \<Rightarrow> bool" where
  "len_between lo hi s \<longleftrightarrow> lo \<le> length s \<and> length s \<le> hi"

text \<open>\<open>^\d{3,4}x\d{3,4}$\<close>.\<close>

definition size_pattern :: "string \<Rightarrow> bool" where
  "size_pattern s = (let (w, h) = partition_on (CHR ''x'') s in
     len_between 3 4 w \<and> len_between 3 4 h \<and> list_all is_digit w \<and> list_all is_digit h)"

definition lora_specs_ok :: "nat \<Rightarrow> lora_spec list option \<Rightarrow> bool" where
  "lora_specs_ok limit specs = (case specs of None \<Rightarrow> True
     | Some ls \<Rightarrow> length ls \<le> limit \<and> list_all (\<lambda>l. lora_name_ok (ls_name l) \<and> length (ls_name l) \<le> 256) ls)"

definition webhook_spec_ok :: "webhook_spec option \<Rightarrow> bool" where
  "webhook_spec_ok ws = (case ws of None \<Rightarrow> True
     | Some s \<Rightarrow> len_between 1 2048 (ws_url s) \<and>
         (case ws_headers s of None \<Rightarrow> True | Some hs \<Rightarrow> length hs \<le> 10 \<and> distinct (map fst hs)))"

definition opt_all :: "('a \<Rightarrow> bool) \<Rightarrow> 'a option \<Rightarrow> bool" where
  "opt_all p x = (case x of None \<Rightarrow> True | Some v \<Rightarrow> p v)"

definition request_ok :: "generate_request \<Rightarrow> bool" where
  "request_ok r \<longleftrightarrow> len_between 1 8000 (gr_prompt r) \<and> opt_all (len_between 0 2000) (gr_negative_prompt r) \<and>
     size_pattern (gr_size r) \<and> 1 \<le> gr_n r \<and> opt_all (\<lambda>s. 1 \<le> s) (gr_steps r) \<and>
     0 \<le> gr_cfg r \<and> gr_cfg r \<le> 30 \<and> - 1 \<le> gr_seed r \<and> gr_seed r \<le> 2 ^ 53 \<and>
     opt_all (\<lambda>s. s \<noteq> []) (gr_sampler r) \<and> opt_all (\<lambda>s. s \<noteq> []) (gr_scheduler r) \<and>
     opt_all (\<lambda>t. 1 \<le> t \<and> t \<le> 3600) (gr_timeout_s r) \<and> lora_specs_ok 20 (gr_loras r) \<and>
     webhook_spec_ok (gr_webhook r)"

definition video_request_ok :: "video_request \<Rightarrow> bool" where
  "video_request_ok r \<longleftrightarrow> len_between 1 8000 (vr_prompt r) \<and> opt_all (len_between 0 2000) (vr_negative_prompt r) \<and>
     size_pattern (vr_size r) \<and> 5 \<le> vr_frames r \<and> vr_frames r \<le> 10000 \<and> 1 \<le> vr_fps r \<and> vr_fps r \<le> 120 \<and>
     opt_all (\<lambda>s. 1 \<le> s) (vr_steps r) \<and> opt_all (\<lambda>c. 0 \<le> c \<and> c \<le> 30) (vr_cfg r) \<and>
     opt_all (\<lambda>c. 0 \<le> c \<and> c \<le> 1000) (vr_shift r) \<and> - 1 \<le> vr_seed r \<and> vr_seed r \<le> 2 ^ 53 \<and>
     opt_all (len_between 1 64) (vr_scheduler r) \<and> 0 \<le> vr_riflex_freq_index r \<and> vr_riflex_freq_index r \<le> 1000 \<and>
     opt_all (\<lambda>t. 1 \<le> t \<and> t \<le> 7200) (vr_timeout_s r) \<and> lora_specs_ok wan_max_loras (vr_loras r) \<and>
     webhook_spec_ok (vr_webhook r)"

record validated_job =
  vj_model :: model_config
  vj_prompt :: string
  vj_negative_prompt :: string
  vj_size :: string
  vj_width :: int
  vj_height :: int
  vj_n :: int
  vj_steps :: int
  vj_cfg :: rat
  vj_seed :: int
  vj_sampler :: string
  vj_scheduler :: string
  vj_response_format :: response_format
  vj_transparent_background :: bool
  vj_mode :: job_mode
  vj_timeout_s :: "rat option"
  vj_webhook_url :: "string option"
  vj_webhook_headers :: "(string \<times> string) list option"
  vj_loras :: "lora_ref list"
  vj_init_image_bytes :: "string option"

record validated_video_job =
  vv_model :: model_config
  vv_prompt :: string
  vv_negative_prompt :: string
  vv_size :: string
  vv_width :: int
  vv_height :: int
  vv_frames :: int
  vv_fps :: rat
  vv_steps :: int
  vv_cfg :: rat
  vv_shift :: rat
  vv_seed :: int
  vv_scheduler :: string
  vv_riflex_freq_index :: int
  vv_force_offload :: bool
  vv_generate_audio :: bool
  vv_resolved_workflow_path :: string
  vv_response_format :: response_format
  vv_mode :: job_mode
  vv_timeout_s :: "rat option"
  vv_webhook_url :: "string option"
  vv_webhook_headers :: "(string \<times> string) list option"
  vv_init_image_bytes :: "string option"
  vv_loras :: "lora_ref list"
  vv_wan_advanced :: "wan_advanced option"

section \<open>Errors and surroundings\<close>

text \<open>
  \<open>ValidationFailureError\<close> with its code and reason; \<open>Uncaught\<close> is any other exception (a
  \<open>ValueError\<close> of \<open>urlparse\<close>, a configuration value of the wrong type).
\<close>

datatype validation_error = ValidationFailure string string | Uncaught

abbreviation invalid :: "string \<Rightarrow> validation_error" where
  "invalid reason \<equiv> ValidationFailure ''validation_error'' reason"

text \<open>
  \<open>vw_resolve n\<close>: the components of the real path of \<open>n.safetensors\<close> under the LoRA root,
  symbolic links followed; \<open>vw_root\<close>: those of the root.
\<close>

record validation_world =
  vw_env :: environ
  vw_bracket_ok :: "string \<Rightarrow> bool"
  vw_async_enabled :: bool
  vw_root :: "string list"
  vw_resolve :: "string \<Rightarrow> string list"
  vw_is_file :: "string list \<Rightarrow> bool"

section \<open>Steps shared by images and videos\<close>

definition normalize_wan_num_frames :: "int \<Rightarrow> int" where
  "normalize_wan_num_frames raw =
     (if raw < 5 then 5
      else (let rem = (raw - 1) mod 4 in if rem = 0 then raw else raw + (4 - rem)))"

definition normalize_ltxv_num_frames :: "int \<Rightarrow> int" where
  "normalize_ltxv_num_frames raw =
     (if raw < 9 then 9
      else (let rem = (raw - 1) mod 8 in if rem = 0 then raw else raw + (8 - rem)))"

text \<open>\<open>None\<close>: the \<open>ValueError\<close> of the unpacking or of \<open>int\<close>.\<close>

definition parse_size :: "string \<Rightarrow> (int \<times> int) option" where
  "parse_size txt =
     (let s = lower txt; (w, h) = partition_on (CHR ''x'') s
      in if CHR ''x'' \<notin> set s then None
         else (case (py_int w, py_int h) of (Some a, Some b) \<Rightarrow> Some (a, b) | _ \<Rightarrow> None))"

definition vram_budget_gb :: "environ \<Rightarrow> rat" where
  "vram_budget_gb env = (case env ''VRAM_BUDGET_GB'' of None \<Rightarrow> 12
     | Some raw \<Rightarrow> (case py_float raw of None \<Rightarrow> 12 | Some b \<Rightarrow> b))"

definition lora_vram_overhead_gb :: rat where
  "lora_vram_overhead_gb = 64 / 1000"

definition contained :: "validation_world \<Rightarrow> string \<Rightarrow> bool" where
  "contained w name \<longleftrightarrow> prefix (vw_root w) (vw_resolve w name)"

definition resolve_lora :: "validation_world \<Rightarrow> string \<Rightarrow> rat \<Rightarrow> validation_error + lora_ref" where
  "resolve_lora w name weight =
     (if \<not> contained w name then Inl (invalid ''lora name escapes loras root'')
      else if \<not> vw_is_file w (vw_resolve w name) then Inl (ValidationFailure ''lora_missing'' name)
      else Inr \<lparr>lr_name = name, lr_weight = weight\<rparr>)"

definition resolve_loras_for_job ::
  "validation_world \<Rightarrow> lora_spec list option \<Rightarrow> validation_error + lora_ref list" where
  "resolve_loras_for_job w specs = (case specs of None \<Rightarrow> Inr []
     | Some ls \<Rightarrow> map_r (\<lambda>l. resolve_lora w (ls_name l) (ls_weight l)) ls)"

definition resolve_default_loras ::
  "validation_world \<Rightarrow> pydict list \<Rightarrow> validation_error + lora_ref list" where
  "resolve_default_loras w ds = map_r (\<lambda>d.
     case (map_option id_text (map_of d ''name''), map_option float_of (map_of d ''weight'')) of
       (Some (Some name), Some (Some weight)) \<Rightarrow> resolve_lora w name weight
     | _ \<Rightarrow> Inl Uncaught) ds"

definition reserved_webhook_header :: "string \<Rightarrow> bool" where
  "reserved_webhook_header k \<longleftrightarrow>
     lower k \<in> {''host'', ''authorization'', ''content-type'', ''user-agent''} \<or> starts_with ''x-imagegen-'' (lower k)"

text \<open>
  \<open>re.match\<close> of \<open>^[A-Za-z0-9\-_]{1,64}$\<close>: \<open>$\<close> also matches before a newline that ends the text.
\<close>

definition header_key_pattern :: "string \<Rightarrow> bool" where
  "header_key_pattern k =
     (let body = (if k \<noteq> [] \<and> last k = CHR 0x0A then butlast k else k)
      in len_between 1 64 body \<and> list_all (\<lambda>c. is_alnum c \<or> c = CHR ''-'' \<or> c = CHR ''_'') body)"

definition check_header :: "string \<times> string \<Rightarrow> validation_error + (string \<times> string)" where
  "check_header kv = (case kv of (k, v) \<Rightarrow>
     if reserved_webhook_header k then Inl (invalid ''webhook.headers key is reserved'')
     else if \<not> header_key_pattern k then Inl (invalid ''webhook.headers key has invalid characters'')
     else if 256 < length v then Inl (invalid ''webhook.headers value length invalid'')
     else Inr (k, v))"

definition check_webhook :: "validation_world \<Rightarrow> webhook_spec option \<Rightarrow>
    validation_error + string option \<times> (string \<times> string) list option" where
  "check_webhook w spec = (case spec of None \<Rightarrow> Inr (None, None)
   | Some s \<Rightarrow>
       (case urlparse (vw_bracket_ok w) (ws_url s) of None \<Rightarrow> Inl Uncaught
        | Some parsed \<Rightarrow>
            if u_scheme parsed \<notin> {''http'', ''https''} then Inl (invalid ''webhook.url must use http or https'')
            else if hostname parsed = [] then Inl (invalid ''webhook.url must include a host'')
            else (case ws_headers s of
                    None \<Rightarrow> Inr (Some (ws_url s), None)
                  | Some hs \<Rightarrow>
                      if hs = [] then Inr (Some (ws_url s), None)
                      else bind_r (map_r check_header hs) (\<lambda>hs. Inr (Some (ws_url s), Some hs)))))"

definition decode_init_image :: "string option \<Rightarrow> validation_error + string option" where
  "decode_init_image img = (case img of None \<Rightarrow> Inr None
   | Some s \<Rightarrow>
       if s = [] then Inr None
       else (let b64 = (if starts_with ''data:image'' s \<and> CHR '','' \<in> set s
                        then snd (partition_on (CHR '','') s) else s)
             in case b64_decode b64 of None \<Rightarrow> Inl (invalid ''init_image must be a valid base64 string'')
                | Some bytes \<Rightarrow> Inr (Some bytes)))"

definition int_limit :: "pydict \<Rightarrow> string \<Rightarrow> int \<Rightarrow> validation_error + int" where
  "int_limit d k dflt = (case map_of d k of None \<Rightarrow> Inr dflt
     | Some v \<Rightarrow> (case int_of v of None \<Rightarrow> Inl Uncaught | Some i \<Rightarrow> Inr i))"

definition float_default :: "pydict \<Rightarrow> string \<Rightarrow> rat \<Rightarrow> validation_error + rat" where
  "float_default d k dflt = (case map_of d k of None \<Rightarrow> Inr dflt
     | Some v \<Rightarrow> (case float_of v of None \<Rightarrow> Inl Uncaught | Some r \<Rightarrow> Inr r))"

definition require_v :: "bool \<Rightarrow> validation_error \<Rightarrow> validation_error + unit" where
  "require_v b e = check b e"

definition size_or_default :: "string \<Rightarrow> pydict \<Rightarrow> string \<Rightarrow> validation_error + string" where
  "size_or_default sz defs dflt =
     (if sz \<noteq> [] then Inr sz
      else (case py_or (dict_get defs ''size'') (VStr dflt) of VStr s \<Rightarrow> Inr s | _ \<Rightarrow> Inl Uncaught))"

definition check_size :: "string \<Rightarrow> pydict \<Rightarrow> int \<Rightarrow> validation_error + int \<times> int" where
  "check_size sz limits dflt = (case parse_size sz of
     None \<Rightarrow> Inl (invalid ''size malformed'')
   | Some (width, height) \<Rightarrow>
       bind_r (int_limit limits ''size_max_pixels'' dflt) (\<lambda>size_max_pixels.
       bind_r (require_v (\<not> size_max_pixels < width * height) (invalid ''size exceeds size_max_pixels'')) (\<lambda>_.
       Inr (width, height))))"

definition check_vram :: "validation_world \<Rightarrow> model_config \<Rightarrow> lora_ref list \<Rightarrow> validation_error + unit" where
  "check_vram w m loras = require_v
     (\<not> vram_budget_gb (vw_env w) < mc_vram_estimate_gb m + lora_vram_overhead_gb * of_nat (length loras))
     (ValidationFailure ''vram_budget_exceeded'' ''estimated vram exceeds budget'')"

definition check_async :: "validation_world \<Rightarrow> job_mode \<Rightarrow> validation_error + unit" where
  "check_async w mode = require_v (\<not> (mode = Async \<and> \<not> vw_async_enabled w))
     (ValidationFailure ''async_not_enabled'' ''mode=async requires ASYNC_MODE_ENABLED=true'')"

section \<open>Images\<close>

text \<open>\<open>req.x or defaults.get(k, d)\<close>, which must then be in the family's set.\<close>

definition pick_option :: "string option \<Rightarrow> pydict \<Rightarrow> string \<Rightarrow> string \<Rightarrow> string set \<Rightarrow> validation_error + string" where
  "pick_option x defs k dflt allowed =
     (let from_model = (case map_of defs k of None \<Rightarrow> VStr dflt | Some v \<Rightarrow> v);
          v = (case x of None \<Rightarrow> from_model | Some s \<Rightarrow> (if s \<noteq> [] then VStr s else from_model))
      in case v of
           VStr s \<Rightarrow> (if s \<in> allowed then Inr s else Inl (invalid (k @ '' not in allowed set'')))
         | VList _ \<Rightarrow> Inl Uncaught | VDict _ \<Rightarrow> Inl Uncaught
         | _ \<Rightarrow> Inl (invalid (k @ '' not in allowed set'')))"

definition family_set :: "(string \<Rightarrow> string set option) \<Rightarrow> string set \<Rightarrow> string \<Rightarrow> string set" where
  "family_set by_family all_of family = (case by_family family of None \<Rightarrow> all_of | Some s \<Rightarrow> s)"

definition resolve_and_validate ::
  "validation_world \<Rightarrow> registry \<Rightarrow> generate_request \<Rightarrow> validation_error + validated_job" where
  "resolve_and_validate w reg req = (case registry_get reg (gr_model req) of
     None \<Rightarrow> Inl (invalid ''unknown model'')
   | Some model \<Rightarrow>
      (let defs = mc_defaults model; limits = mc_limits model in
       bind_r (size_or_default (gr_size req) defs ''1024x1024'') (\<lambda>sz.
       bind_r (case gr_steps req of Some s \<Rightarrow> Inr s | None \<Rightarrow>
          (case map_of defs ''steps'' of None \<Rightarrow> Inr 28
           | Some v \<Rightarrow> (case as_int v of None \<Rightarrow> Inl Uncaught | Some s \<Rightarrow> Inr s))) (\<lambda>steps.
       bind_r (case gr_negative_prompt req of Some p \<Rightarrow> Inr p | None \<Rightarrow>
          (case map_of defs ''negative_prompt'' of None \<Rightarrow> Inr []
           | Some (VStr p) \<Rightarrow> Inr p | Some _ \<Rightarrow> Inl Uncaught)) (\<lambda>negative_prompt.
       bind_r (pick_option (gr_sampler req) defs ''sampler'' ''euler_ancestral''
          (family_set allowed_samplers_by_family allowed_samplers (mc_family model))) (\<lambda>sampler.
       bind_r (pick_option (gr_scheduler req) defs ''scheduler'' ''karras''
          (family_set allowed_schedulers_by_family allowed_schedulers (mc_family model))) (\<lambda>scheduler.
       bind_r (check_size sz limits 1048576) (\<lambda>(width, height).
       bind_r (int_limit limits ''n_max'' 1) (\<lambda>n_max.
       bind_r (require_v (\<not> n_max < gr_n req) (invalid ''n exceeds n_max'')) (\<lambda>_.
       bind_r (int_limit limits ''steps_max'' 50) (\<lambda>steps_max.
       bind_r (require_v (\<not> steps_max < steps) (invalid ''steps exceeds steps_max'')) (\<lambda>_.
       bind_r (check_async w (gr_mode req)) (\<lambda>_.
       bind_r (check_webhook w (gr_webhook req)) (\<lambda>(webhook_url, webhook_headers).
       bind_r (resolve_loras_for_job w (gr_loras req)) (\<lambda>loras.
       bind_r (check_vram w model loras) (\<lambda>_.
       bind_r (decode_init_image (gr_init_image req)) (\<lambda>init_image_bytes.
       Inr \<lparr>vj_model = model, vj_prompt = gr_prompt req, vj_negative_prompt = negative_prompt,
            vj_size = sz, vj_width = width, vj_height = height, vj_n = gr_n req, vj_steps = steps,
            vj_cfg = gr_cfg req, vj_seed = gr_seed req, vj_sampler = sampler, vj_scheduler = scheduler,
            vj_response_format = gr_response_format req,
            vj_transparent_background = gr_transparent_background req, vj_mode = gr_mode req,
            vj_timeout_s = gr_timeout_s req, vj_webhook_url = webhook_url,
            vj_webhook_headers = webhook_headers, vj_loras = loras,
            vj_init_image_bytes = init_image_bytes\<rparr>)))))))))))))))))"

section \<open>Videos\<close>

text \<open>\<open>^[A-Za-z0-9_.+\-]{1,64}$\<close>, matched in full.\<close>

definition wan_scheduler_pattern :: "string \<Rightarrow> bool" where
  "wan_scheduler_pattern s \<longleftrightarrow> len_between 1 64 s \<and>
     list_all (\<lambda>c. is_alnum c \<or> c \<in> {CHR ''_'', CHR ''.'', CHR ''+'', CHR ''-''}) s"

definition text_default :: "pydict \<Rightarrow> string \<Rightarrow> string \<Rightarrow> validation_error + string" where
  "text_default d k dflt = (case map_of d k of None \<Rightarrow> Inr dflt
     | Some v \<Rightarrow> (case id_text v of None \<Rightarrow> Inl Uncaught | Some s \<Rightarrow> Inr s))"

definition normalize_frames :: "string \<Rightarrow> int \<Rightarrow> int" where
  "normalize_frames family raw =
     (if family = ''ltxv'' then normalize_ltxv_num_frames raw else normalize_wan_num_frames raw)"

definition check_video_model :: "model_config \<Rightarrow> string \<Rightarrow> validation_error + unit" where
  "check_video_model model expected_task =
     bind_r (require_v (truthy (dict_get (mc_capabilities model) ''video_gen''))
       (invalid ''model does not support video_gen'')) (\<lambda>_.
     bind_r (require_v (dict_get (mc_capabilities model) ''video_task'' = VStr expected_task)
       (invalid ''model is registered for another video_task'')) (\<lambda>_.
     require_v (mc_family model \<in> {''wan22'', ''ltxv''}) (invalid ''unsupported family'')))"

definition check_video_image :: "model_config \<Rightarrow> string \<Rightarrow> string option \<Rightarrow> validation_error + unit" where
  "check_video_image model expected_task bytes =
     (let present = (bytes \<noteq> None \<and> bytes \<noteq> Some []) in
      bind_r (require_v (\<not> (expected_task = ''i2v'' \<and> \<not> present)) (invalid ''image-to-video requires init_image'')) (\<lambda>_.
      require_v (\<not> (expected_task = ''t2v'' \<and> present \<and> mc_family model \<noteq> ''ltxv''))
        (invalid ''text-to-video does not accept init_image'')))"

definition resolve_video_loras ::
  "validation_world \<Rightarrow> model_config \<Rightarrow> lora_spec list option \<Rightarrow> validation_error + lora_ref list" where
  "resolve_video_loras w model specs =
     bind_r (resolve_loras_for_job w specs) (\<lambda>user.
     bind_r (resolve_default_loras w (mc_default_loras model)) (\<lambda>defs. Inr (defs @ user)))"

definition check_wan_advanced :: "wan_advanced option \<Rightarrow> string \<Rightarrow> validation_error + unit" where
  "check_wan_advanced wa expected_task = require_v (\<not> (expected_task = ''t2v'' \<and>
       (case wa of None \<Rightarrow> False | Some o' \<Rightarrow> wa_encode o' \<noteq> None \<or> wa_clip_encode o' \<noteq> None)))
     (invalid ''wan_advanced.encode and clip_encode apply to image-to-video only'')"

definition choose_workflow :: "model_config \<Rightarrow> bool \<Rightarrow> validation_error + string" where
  "choose_workflow model generate_audio =
     (if generate_audio then
        (case path_set (mc_workflow_with_audio model) of
           None \<Rightarrow> Inl (invalid ''generate_audio requires workflow_with_audio'') | Some p \<Rightarrow> Inr p)
      else Inr (mc_workflow_path model))"

definition resolve_and_validate_video ::
  "validation_world \<Rightarrow> registry \<Rightarrow> string \<Rightarrow> video_request \<Rightarrow> validation_error + validated_video_job" where
  "resolve_and_validate_video w reg expected_task req = (case registry_get reg (vr_model req) of
     None \<Rightarrow> Inl (invalid ''unknown model'')
   | Some model \<Rightarrow>
      (let defs = mc_defaults model; limits = mc_limits model in
       bind_r (check_video_model model expected_task) (\<lambda>_.
       bind_r (size_or_default (vr_size req) defs ''832x480'') (\<lambda>sz.
       bind_r (int_limit limits ''frames_max'' 241) (\<lambda>frames_cap.
       bind_r (require_v (\<not> frames_cap < vr_frames req) (invalid ''frames exceeds frames_max'')) (\<lambda>_.
       bind_r (case vr_steps req of Some s \<Rightarrow> Inr s | None \<Rightarrow> int_limit defs ''steps'' 30) (\<lambda>steps.
       bind_r (int_limit limits ''steps_max'' 50) (\<lambda>steps_max.
       bind_r (require_v (\<not> steps_max < steps) (invalid ''steps exceeds steps_max'')) (\<lambda>_.
       bind_r (case vr_cfg req of Some c \<Rightarrow> Inr c | None \<Rightarrow> float_default defs ''cfg'' 6) (\<lambda>cfg.
       bind_r (case vr_shift req of Some c \<Rightarrow> Inr c | None \<Rightarrow> float_default defs ''shift'' 8) (\<lambda>shift.
       bind_r (case vr_scheduler req of
                 Some s \<Rightarrow> (if s \<noteq> [] then Inr s else text_default defs ''scheduler'' ''simple'')
               | None \<Rightarrow> text_default defs ''scheduler'' ''simple'') (\<lambda>scheduler_raw.
       let scheduler = strip scheduler_raw in
       bind_r (require_v (wan_scheduler_pattern scheduler) (invalid ''scheduler has invalid characters or length'')) (\<lambda>_.
       bind_r (case vr_negative_prompt req of Some p \<Rightarrow> Inr p
               | None \<Rightarrow> text_default defs ''negative_prompt'' '''') (\<lambda>negative_prompt.
       bind_r (check_size sz limits (1920 * 1080)) (\<lambda>(width, height).
       bind_r (check_async w (vr_mode req)) (\<lambda>_.
       bind_r (check_webhook w (vr_webhook req)) (\<lambda>(webhook_url, webhook_headers).
       bind_r (decode_init_image (vr_init_image req)) (\<lambda>init_image_bytes.
       bind_r (check_video_image model expected_task init_image_bytes) (\<lambda>_.
       bind_r (resolve_video_loras w model (vr_loras req)) (\<lambda>loras.
       bind_r (check_wan_advanced (vr_wan_advanced req) expected_task) (\<lambda>_.
       bind_r (check_vram w model loras) (\<lambda>_.
       bind_r (choose_workflow model (vr_generate_audio req)) (\<lambda>resolved_wf.
       Inr \<lparr>vv_model = model, vv_prompt = vr_prompt req, vv_negative_prompt = negative_prompt,
            vv_size = sz, vv_width = width, vv_height = height,
            vv_frames = normalize_frames (mc_family model) (vr_frames req), vv_fps = vr_fps req,
            vv_steps = steps, vv_cfg = cfg, vv_shift = shift, vv_seed = vr_seed req,
            vv_scheduler = scheduler, vv_riflex_freq_index = vr_riflex_freq_index req,
            vv_force_offload = vr_force_offload req, vv_generate_audio = vr_generate_audio req,
            vv_resolved_workflow_path = resolved_wf, vv_response_format = vr_response_format req,
            vv_mode = vr_mode req, vv_timeout_s = vr_timeout_s req, vv_webhook_url = webhook_url,
            vv_webhook_headers = webhook_headers, vv_init_image_bytes = init_image_bytes,
            vv_loras = loras, vv_wan_advanced = vr_wan_advanced req\<rparr>)))))))))))))))))))))))"

section \<open>Sidecars\<close>

text \<open>
  A LoRA's sidecar file \<open>name.json\<close>. Times in it are ISO texts: \<open>parse_time\<close> is
  \<open>datetime.fromisoformat\<close> (naive times are UTC; \<open>None\<close> is the \<open>ValueError\<close>), \<open>show_time\<close>
  its inverse for the current time. A write that fails leaves the file as it was.
\<close>

record sidecar_world =
  sw_parse_time :: "string \<Rightarrow> timestamp option"
  sw_show_time :: "timestamp \<Rightarrow> string"
  sw_env :: environ
  sw_now :: timestamp
  sw_write_ok :: bool

definition debounce_seconds :: "environ \<Rightarrow> int" where
  "debounce_seconds env = (case env ''LORA_LAST_USED_DEBOUNCE_S'' of None \<Rightarrow> 300
     | Some raw \<Rightarrow> (case py_int raw of None \<Rightarrow> 300 | Some n \<Rightarrow> n))"

definition recently_used :: "sidecar_world \<Rightarrow> pydict \<Rightarrow> bool" where
  "recently_used w data = (case dict_get data ''last_used'' of
     VStr prev \<Rightarrow> (case sw_parse_time w prev of None \<Rightarrow> False
       | Some t \<Rightarrow> sw_now w - t < 1000000 * debounce_seconds (sw_env w))
   | _ \<Rightarrow> False)"

definition touch_last_used_sync :: "sidecar_world \<Rightarrow> file_read \<Rightarrow> file_read" where
  "touch_last_used_sync w f = (case f of
     FileText (Some (VDict data)) \<Rightarrow>
       (if recently_used w data \<or> \<not> sw_write_ok w then f
        else FileText (Some (VDict (dict_set ''last_used'' (VStr (sw_show_time w (sw_now w))) data))))
   | _ \<Rightarrow> f)"

definition touch_last_used ::
  "sidecar_world \<Rightarrow> lora_ref list \<Rightarrow> (string \<Rightarrow> file_read) \<Rightarrow> (string \<Rightarrow> file_read)" where
  "touch_last_used w resolved files =
     fold (\<lambda>l fs. fs(lr_name l := touch_last_used_sync w (fs (lr_name l)))) resolved files"

section \<open>Frame counts\<close>

lemma least_congruent:
  fixes n m k :: int
  assumes "n mod k = m mod k" and "n < m + k" and "0 < k"
  shows "n \<le> m"
proof (rule ccontr)
  assume "\<not> n \<le> m"
  then have "(n - m) mod k = n - m" using assms(2,3) by (intro mod_pos_pos_trivial) auto
  moreover have "(n - m) mod k = 0" using assms(1) by (metis mod_diff_cong diff_self mod_0)
  ultimately show False using \<open>\<not> n \<le> m\<close> by simp
qed

lemma round_up_mod:
  fixes raw k :: int
  assumes "1 < k"
  shows "(raw + (k - (raw - 1) mod k)) mod k = 1" and "(raw - 1) mod k = 0 \<Longrightarrow> raw mod k = 1"
proof -
  have r: "raw = 1 + k * ((raw - 1) div k) + (raw - 1) mod k" using mult_div_mod_eq [of k "raw - 1"] by simp
  then have "raw + (k - (raw - 1) mod k) = 1 + k * ((raw - 1) div k + 1)" by (simp add: algebra_simps)
  then show "(raw + (k - (raw - 1) mod k)) mod k = 1" using assms by (simp only: mod_mult_self2) simp
  show "raw mod k = 1" if "(raw - 1) mod k = 0"
  proof -
    have "raw = 1 + k * ((raw - 1) div k)" using r that by simp
    then have "raw mod k = (1 + k * ((raw - 1) div k)) mod k" by simp
    then show ?thesis using assms by (simp only: mod_mult_self2) simp
  qed
qed

lemma wan_frames:
  "normalize_wan_num_frames raw mod 4 = 1" "5 \<le> normalize_wan_num_frames raw" "raw \<le> normalize_wan_num_frames raw"
  "normalize_wan_num_frames raw \<le> max 5 (raw + 3)"
proof -
  show "normalize_wan_num_frames raw mod 4 = 1"
    using round_up_mod [of 4 raw] by (simp add: normalize_wan_num_frames_def Let_def)
  show "5 \<le> normalize_wan_num_frames raw" unfolding normalize_wan_num_frames_def Let_def by presburger
  show "raw \<le> normalize_wan_num_frames raw" unfolding normalize_wan_num_frames_def Let_def by presburger
  have "0 \<le> (raw - 1) mod 4" by simp
  then show "normalize_wan_num_frames raw \<le> max 5 (raw + 3)"
    by (auto simp: normalize_wan_num_frames_def Let_def)
qed

lemma ltxv_frames:
  "normalize_ltxv_num_frames raw mod 8 = 1" "9 \<le> normalize_ltxv_num_frames raw" "raw \<le> normalize_ltxv_num_frames raw"
  "normalize_ltxv_num_frames raw \<le> max 9 (raw + 7)"
proof -
  show "normalize_ltxv_num_frames raw mod 8 = 1"
    using round_up_mod [of 8 raw] by (simp add: normalize_ltxv_num_frames_def Let_def)
  show "9 \<le> normalize_ltxv_num_frames raw" unfolding normalize_ltxv_num_frames_def Let_def by presburger
  show "raw \<le> normalize_ltxv_num_frames raw" unfolding normalize_ltxv_num_frames_def Let_def by presburger
  have "0 \<le> (raw - 1) mod 8" by simp
  then show "normalize_ltxv_num_frames raw \<le> max 9 (raw + 7)"
    by (auto simp: normalize_ltxv_num_frames_def Let_def)
qed

lemma wan_frames_least:
  "m mod 4 = 1 \<Longrightarrow> 5 \<le> m \<Longrightarrow> raw \<le> m \<Longrightarrow> normalize_wan_num_frames raw \<le> m"
  using wan_frames [of raw] by (auto intro!: least_congruent [of _ 4])

lemma ltxv_frames_least:
  "m mod 8 = 1 \<Longrightarrow> 9 \<le> m \<Longrightarrow> raw \<le> m \<Longrightarrow> normalize_ltxv_num_frames raw \<le> m"
  using ltxv_frames [of raw] by (auto intro!: least_congruent [of _ 8])

lemmas frames_least = wan_frames_least ltxv_frames_least

text \<open>
  Frame counts are rounded up, and no further than needed: the count used is the least
  one that the model's VAE accepts (1 modulo 4 from 5 on for WAN, 1 modulo 8 from 9 on for LTX)
  and that is not below the request.
\<close>

theorem frames_rounded_to_least_valid:
  "is_arg_min (\<lambda>m. m) (\<lambda>m. m mod 4 = 1 \<and> 5 \<le> m \<and> raw \<le> m) (normalize_wan_num_frames raw) \<and>
   is_arg_min (\<lambda>m. m) (\<lambda>m. m mod 8 = 1 \<and> 9 \<le> m \<and> raw \<le> m) (normalize_ltxv_num_frames raw)"
  using wan_frames [of raw] ltxv_frames [of raw] frames_least [of _ raw] by (simp add: is_arg_min_linorder)

section \<open>What a validated request satisfies\<close>

lemma resolve_loras_set:
  assumes "resolve_loras_for_job w specs = Inr ls" and "l \<in> set ls"
  shows "contained w (lr_name l) \<and> vw_is_file w (vw_resolve w (lr_name l))"
  using assms by (auto simp: resolve_loras_for_job_def resolve_lora_def split: option.splits if_splits dest!: map_r_Inr_set)

lemma resolve_default_loras_set:
  assumes "resolve_default_loras w ds = Inr ls" and "l \<in> set ls"
  shows "contained w (lr_name l) \<and> vw_is_file w (vw_resolve w (lr_name l))"
  using assms unfolding resolve_default_loras_def
  by (auto simp: resolve_lora_def split: option.splits if_splits dest!: map_r_Inr_set)

lemma check_webhook_Inr:
  assumes "check_webhook w spec = Inr (Some url, hs)"
  shows "\<exists>u. urlparse (vw_bracket_ok w) url = Some u \<and> u_scheme u \<in> {''http'', ''https''} \<and> hostname u \<noteq> []"
    and "\<And>k v ks. hs = Some ks \<Longrightarrow> (k, v) \<in> set ks \<Longrightarrow> \<not> reserved_webhook_header k \<and> length v \<le> 256"
proof -
  from assms obtain s u where s: "spec = Some s" and u: "urlparse (vw_bracket_ok w) (ws_url s) = Some u"
    "u_scheme u \<in> {''http'', ''https''}" "hostname u \<noteq> []"
    and r: "(case ws_headers s of None \<Rightarrow> Inr (Some (ws_url s), None)
      | Some hs \<Rightarrow> if hs = [] then Inr (Some (ws_url s), None)
          else bind_r (map_r check_header hs) (\<lambda>hs. Inr (Some (ws_url s), Some hs))) = Inr (Some url, hs)"
    by (auto simp: check_webhook_def split: option.splits if_splits)
  from r have url: "url = ws_url s" by (auto simp: bind_r_Inr split: option.splits if_splits)
  with u show "\<exists>u. urlparse (vw_bracket_ok w) url = Some u \<and> u_scheme u \<in> {''http'', ''https''} \<and> hostname u \<noteq> []"
    by blast
  fix k v ks
  assume "hs = Some ks" "(k, v) \<in> set ks"
  with r obtain hs0 where "map_r check_header hs0 = Inr ks"
    by (auto simp: bind_r_Inr split: option.splits if_splits)
  from map_r_Inr_set [OF this \<open>(k, v) \<in> set ks\<close>] show "\<not> reserved_webhook_header k \<and> length v \<le> 256"
    by (auto simp: check_header_def split: if_splits)
qed

text \<open>\<open>limits.get(k, d)\<close> as an integer, for configurations in which it is one.\<close>

definition limit_of :: "model_config \<Rightarrow> string \<Rightarrow> int \<Rightarrow> int" where
  "limit_of m k dflt = (case map_of (mc_limits m) k of None \<Rightarrow> dflt
     | Some v \<Rightarrow> (case int_of v of None \<Rightarrow> dflt | Some i \<Rightarrow> i))"

lemma int_limit_of: "int_limit (mc_limits m) k dflt = Inr i \<Longrightarrow> limit_of m k dflt = i"
  by (auto simp: int_limit_def limit_of_def split: option.splits)

lemma check_size_Inr:
  "check_size sz (mc_limits m) dflt = Inr (a, b) \<Longrightarrow>
   parse_size sz = Some (a, b) \<and> a * b \<le> limit_of m ''size_max_pixels'' dflt"
  by (auto simp: check_size_def bind_r_Inr require_v_def not_less split: option.splits dest!: int_limit_of)

lemma pick_option_Inr: "pick_option x defs k dflt allowed = Inr s \<Longrightarrow> s \<in> allowed"
  by (auto simp: pick_option_def Let_def split: pyval.splits if_splits option.splits)

lemma resolve_and_validate_Inr:
  assumes "resolve_and_validate w reg req = Inr v"
  obtains model where "registry_get reg (gr_model req) = Some model" "vj_model v = model"
    "size_or_default (gr_size req) (mc_defaults model) ''1024x1024'' = Inr (vj_size v)"
    "pick_option (gr_sampler req) (mc_defaults model) ''sampler'' ''euler_ancestral''
       (family_set allowed_samplers_by_family allowed_samplers (mc_family model)) = Inr (vj_sampler v)"
    "pick_option (gr_scheduler req) (mc_defaults model) ''scheduler'' ''karras''
       (family_set allowed_schedulers_by_family allowed_schedulers (mc_family model)) = Inr (vj_scheduler v)"
    "check_size (vj_size v) (mc_limits model) 1048576 = Inr (vj_width v, vj_height v)"
    "vj_n v \<le> limit_of model ''n_max'' 1" "vj_steps v \<le> limit_of model ''steps_max'' 50"
    "check_async w (vj_mode v) = Inr ()"
    "check_webhook w (gr_webhook req) = Inr (vj_webhook_url v, vj_webhook_headers v)"
    "resolve_loras_for_job w (gr_loras req) = Inr (vj_loras v)" "check_vram w model (vj_loras v) = Inr ()"
    "vj_cfg v = gr_cfg req" "vj_mode v = gr_mode req"
proof -
  from assms obtain model where m: "registry_get reg (gr_model req) = Some model"
    by (auto simp: resolve_and_validate_def split: option.splits)
  with assms obtain sz steps np sampler scheduler a b n_max steps_max url hs loras img where r:
    "size_or_default (gr_size req) (mc_defaults model) ''1024x1024'' = Inr sz"
    "pick_option (gr_sampler req) (mc_defaults model) ''sampler'' ''euler_ancestral''
       (family_set allowed_samplers_by_family allowed_samplers (mc_family model)) = Inr sampler"
    "pick_option (gr_scheduler req) (mc_defaults model) ''scheduler'' ''karras''
       (family_set allowed_schedulers_by_family allowed_schedulers (mc_family model)) = Inr scheduler"
    "check_size sz (mc_limits model) 1048576 = Inr (a, b)"
    "int_limit (mc_limits model) ''n_max'' 1 = Inr n_max" "\<not> n_max < gr_n req"
    "int_limit (mc_limits model) ''steps_max'' 50 = Inr steps_max" "\<not> steps_max < steps"
    "check_async w (gr_mode req) = Inr ()" "check_webhook w (gr_webhook req) = Inr (url, hs)"
    "resolve_loras_for_job w (gr_loras req) = Inr loras" "check_vram w model loras = Inr ()"
    and v: "v = \<lparr>vj_model = model, vj_prompt = gr_prompt req, vj_negative_prompt = np,
            vj_size = sz, vj_width = a, vj_height = b, vj_n = gr_n req, vj_steps = steps,
            vj_cfg = gr_cfg req, vj_seed = gr_seed req, vj_sampler = sampler, vj_scheduler = scheduler,
            vj_response_format = gr_response_format req,
            vj_transparent_background = gr_transparent_background req, vj_mode = gr_mode req,
            vj_timeout_s = gr_timeout_s req, vj_webhook_url = url,
            vj_webhook_headers = hs, vj_loras = loras, vj_init_image_bytes = img\<rparr>"
    by (auto simp: resolve_and_validate_def Let_def bind_r_Inr split_beta require_v_def)
  from int_limit_of [OF r(5)] int_limit_of [OF r(7)] r(6,8)
  have "gr_n req \<le> limit_of model ''n_max'' 1" "steps \<le> limit_of model ''steps_max'' 50" by simp_all
  with that [OF m] r v show thesis by simp
qed

text \<open>
  C11: An image request that validates stays within its model's limits: the model is the
  registered one, width times height, \<open>n\<close> and \<open>steps\<close> respect \<open>size_max_pixels\<close>, \<open>n_max\<close> and
  \<open>steps_max\<close>, sampler and scheduler are in the family's sets, the VRAM estimate with its LoRAs
  is within the budget, asynchronous mode is enabled if asked for, every LoRA is an existing
  file whose real path is under the LoRA root, and a webhook is an http(s) URL with a host
  whose extra headers leave the service's own names alone.
\<close>

theorem validated_image_within_limits:
  assumes "resolve_and_validate w reg req = Inr v"
  shows "registry_get reg (gr_model req) = Some (vj_model v) \<and>
    vj_width v * vj_height v \<le> limit_of (vj_model v) ''size_max_pixels'' 1048576 \<and>
    vj_n v \<le> limit_of (vj_model v) ''n_max'' 1 \<and> vj_steps v \<le> limit_of (vj_model v) ''steps_max'' 50 \<and>
    vj_sampler v \<in> family_set allowed_samplers_by_family allowed_samplers (mc_family (vj_model v)) \<and>
    vj_scheduler v \<in> family_set allowed_schedulers_by_family allowed_schedulers (mc_family (vj_model v)) \<and>
    mc_vram_estimate_gb (vj_model v) + 64 / 1000 * of_nat (length (vj_loras v)) \<le> vram_budget_gb (vw_env w) \<and>
    (vj_mode v = Async \<longrightarrow> vw_async_enabled w) \<and>
    (\<forall>l \<in> set (vj_loras v). prefix (vw_root w) (vw_resolve w (lr_name l)) \<and> vw_is_file w (vw_resolve w (lr_name l))) \<and>
    (\<forall>url. vj_webhook_url v = Some url \<longrightarrow> (\<exists>u. urlparse (vw_bracket_ok w) url = Some u \<and>
       u_scheme u \<in> {''http'', ''https''} \<and> hostname u \<noteq> []) \<and>
       (\<forall>hs k x. vj_webhook_headers v = Some hs \<longrightarrow> (k, x) \<in> set hs \<longrightarrow> \<not> reserved_webhook_header k))"
proof -
  from assms obtain model where r: "registry_get reg (gr_model req) = Some model" "vj_model v = model"
    "pick_option (gr_sampler req) (mc_defaults model) ''sampler'' ''euler_ancestral''
       (family_set allowed_samplers_by_family allowed_samplers (mc_family model)) = Inr (vj_sampler v)"
    "pick_option (gr_scheduler req) (mc_defaults model) ''scheduler'' ''karras''
       (family_set allowed_schedulers_by_family allowed_schedulers (mc_family model)) = Inr (vj_scheduler v)"
    "check_size (vj_size v) (mc_limits model) 1048576 = Inr (vj_width v, vj_height v)"
    "vj_n v \<le> limit_of model ''n_max'' 1" "vj_steps v \<le> limit_of model ''steps_max'' 50"
    "check_async w (vj_mode v) = Inr ()"
    "check_webhook w (gr_webhook req) = Inr (vj_webhook_url v, vj_webhook_headers v)"
    "resolve_loras_for_job w (gr_loras req) = Inr (vj_loras v)" "check_vram w model (vj_loras v) = Inr ()"
    by (rule resolve_and_validate_Inr)
  have "\<forall>l \<in> set (vj_loras v). prefix (vw_root w) (vw_resolve w (lr_name l)) \<and> vw_is_file w (vw_resolve w (lr_name l))"
    using resolve_loras_set [OF r(10)] by (auto simp: contained_def)
  moreover have "(\<exists>u. urlparse (vw_bracket_ok w) url = Some u \<and>
       u_scheme u \<in> {''http'', ''https''} \<and> hostname u \<noteq> []) \<and>
       (\<forall>hs k x. vj_webhook_headers v = Some hs \<longrightarrow> (k, x) \<in> set hs \<longrightarrow> \<not> reserved_webhook_header k)"
    if "vj_webhook_url v = Some url" for url
    using check_webhook_Inr [OF r(9) [unfolded that]] by blast
  moreover have "vj_mode v = Async \<longrightarrow> vw_async_enabled w" using r(8) by (simp add: check_async_def require_v_def)
  moreover have "mc_vram_estimate_gb model + 64 / 1000 * of_nat (length (vj_loras v)) \<le> vram_budget_gb (vw_env w)"
    using r(11) by (simp add: check_vram_def require_v_def lora_vram_overhead_gb_def)
  ultimately show ?thesis
    using r(1,2,6,7) check_size_Inr [OF r(5)] pick_option_Inr [OF r(3)] pick_option_Inr [OF r(4)] by simp
qed

lemma resolve_and_validate_video_Inr:
  assumes "resolve_and_validate_video w reg task req = Inr v"
  obtains model where "registry_get reg (vr_model req) = Some model" "vv_model v = model"
    "check_video_model model task = Inr ()"
    "vr_frames req \<le> limit_of model ''frames_max'' 241"
    "vv_frames v = normalize_frames (mc_family model) (vr_frames req)"
    "vv_steps v \<le> limit_of model ''steps_max'' 50"
    "wan_scheduler_pattern (vv_scheduler v)"
    "check_size (vv_size v) (mc_limits model) (1920 * 1080) = Inr (vv_width v, vv_height v)"
    "check_async w (vv_mode v) = Inr ()"
    "check_video_image model task (vv_init_image_bytes v) = Inr ()"
    "resolve_video_loras w model (vr_loras req) = Inr (vv_loras v)"
    "check_wan_advanced (vv_wan_advanced v) task = Inr ()"
    "check_vram w model (vv_loras v) = Inr ()"
    "choose_workflow model (vr_generate_audio req) = Inr (vv_resolved_workflow_path v)"
proof -
  from assms obtain model where m: "registry_get reg (vr_model req) = Some model"
    by (auto simp: resolve_and_validate_video_def split: option.splits)
  let ?scheduler = "case vr_scheduler req of
                 Some s \<Rightarrow> (if s \<noteq> [] then Inr s else text_default (mc_defaults model) ''scheduler'' ''simple'')
               | None \<Rightarrow> text_default (mc_defaults model) ''scheduler'' ''simple''"
  from m assms obtain sz cap steps steps_max cfg shift raw np a b url hs img loras path where r:
    "check_video_model model task = Inr ()"
    "int_limit (mc_limits model) ''frames_max'' 241 = Inr cap" "\<not> cap < vr_frames req"
    "int_limit (mc_limits model) ''steps_max'' 50 = Inr steps_max" "\<not> steps_max < steps"
    "wan_scheduler_pattern (strip raw)" "check_size sz (mc_limits model) (1920 * 1080) = Inr (a, b)"
    "check_async w (vr_mode req) = Inr ()" "check_video_image model task img = Inr ()"
    "resolve_video_loras w model (vr_loras req) = Inr loras"
    "check_wan_advanced (vr_wan_advanced req) task = Inr ()" "check_vram w model loras = Inr ()"
    "choose_workflow model (vr_generate_audio req) = Inr path"
    and v: "v = \<lparr>vv_model = model, vv_prompt = vr_prompt req, vv_negative_prompt = np,
            vv_size = sz, vv_width = a, vv_height = b,
            vv_frames = normalize_frames (mc_family model) (vr_frames req), vv_fps = vr_fps req,
            vv_steps = steps, vv_cfg = cfg, vv_shift = shift, vv_seed = vr_seed req,
            vv_scheduler = strip raw, vv_riflex_freq_index = vr_riflex_freq_index req,
            vv_force_offload = vr_force_offload req, vv_generate_audio = vr_generate_audio req,
            vv_resolved_workflow_path = path, vv_response_format = vr_response_format req,
            vv_mode = vr_mode req, vv_timeout_s = vr_timeout_s req, vv_webhook_url = url,
            vv_webhook_headers = hs, vv_init_image_bytes = img,
            vv_loras = loras, vv_wan_advanced = vr_wan_advanced req\<rparr>"
    by (clarsimp simp: resolve_and_validate_video_def Let_def bind_r_Inr split_beta require_v_def)
  from int_limit_of [OF r(2)] int_limit_of [OF r(4)] r(3,5)
  have "vr_frames req \<le> limit_of model ''frames_max'' 241" "steps \<le> limit_of model ''steps_max'' 50" by simp_all
  with that [OF m] r v show thesis by simp
qed


text \<open>
  The frame limit binds the request, not the video: rounding may exceed \<open>frames_max\<close>. It
  never does so exactly if the limit itself is a count the VAE accepts.
\<close>

theorem frame_limit_exact:
  assumes "9 \<le> cap"
  shows "((\<forall>raw. raw \<le> cap \<longrightarrow> normalize_wan_num_frames raw \<le> cap) \<longleftrightarrow> cap mod 4 = 1) \<and>
    ((\<forall>raw. raw \<le> cap \<longrightarrow> normalize_ltxv_num_frames raw \<le> cap) \<longleftrightarrow> cap mod 8 = 1)"
proof -
  have "normalize_wan_num_frames cap \<le> cap \<Longrightarrow> cap mod 4 = 1"
    using wan_frames [of cap] by (metis order_antisym)
  moreover have "normalize_ltxv_num_frames cap \<le> cap \<Longrightarrow> cap mod 8 = 1"
    using ltxv_frames [of cap] by (metis order_antisym)
  ultimately show ?thesis
    using wan_frames_least [of cap] ltxv_frames_least [of cap] assms by auto
qed

theorem frame_limit_exact_witness:
  "\<not> (\<forall>raw. raw \<le> (240::int) \<longrightarrow> normalize_wan_num_frames raw \<le> 240)"
  using frame_limit_exact [of 240] by simp

text \<open>
  Using a LoRA touches nothing but the \<open>last_used\<close> entry of its own sidecar: sidecars of
  other LoRAs, missing or unreadable ones and those that are no JSON object stay as they are.
  Touching is debounced: once written, a sidecar is not written again until the debounce
  interval has passed.
\<close>

theorem sidecar_touch_debounced:
  assumes "sw_parse_time w' (sw_show_time w (sw_now w)) = Some (sw_now w)"
    and "sw_now w' < sw_now w + 1000000 * debounce_seconds (sw_env w')"
    and "f = FileText (Some (VDict data))" and "\<not> recently_used w data" and "sw_write_ok w"
  shows "touch_last_used_sync w f = FileText (Some (VDict (dict_set ''last_used'' (VStr (sw_show_time w (sw_now w))) data))) \<and>
    touch_last_used_sync w' (touch_last_used_sync w f) = touch_last_used_sync w f \<and>
    (\<forall>name. name \<notin> lr_name ` set loras \<longrightarrow> touch_last_used w loras files name = files name) \<and>
    (\<forall>name. (\<forall>d. files name \<noteq> FileText (Some (VDict d))) \<longrightarrow> touch_last_used w loras files name = files name)"
proof -
  have frame: "touch_last_used w ls fs name = fs name" if "name \<notin> lr_name ` set ls" for ls fs name
    using that unfolding touch_last_used_def by (induction ls arbitrary: fs) auto
  have same: "touch_last_used_sync w g = g" if "\<forall>d. g \<noteq> FileText (Some (VDict d))" for g
    using that by (auto simp: touch_last_used_sync_def split: file_read.splits option.splits pyval.splits)
  have other: "touch_last_used w ls fs name = fs name" if "\<forall>d. fs name \<noteq> FileText (Some (VDict d))" for ls fs name
    using that unfolding touch_last_used_def
  proof (induction ls arbitrary: fs)
    case (Cons l ls)
    have "(fs(lr_name l := touch_last_used_sync w (fs (lr_name l)))) name = fs name"
      using same Cons.prems by auto
    with Cons.IH [of "fs(lr_name l := touch_last_used_sync w (fs (lr_name l)))"] Cons.prems show ?case by simp
  qed simp
  show ?thesis using assms frame other
    by (simp add: touch_last_used_sync_def recently_used_def dict_get_update)
qed

section \<open>Examples\<close>

definition demo_model :: "string \<Rightarrow> model_config" where
  "demo_model family = \<lparr>mc_name = ''m'', mc_backend = ''comfyui'', mc_workflow_path = ''w.json'',
     mc_checkpoint = ''c.safetensors'', mc_vae = Some ''v'', mc_vram_estimate_gb = 5, mc_clip_l = None,
     mc_t5xxl = None, mc_dual_clip_type = None, mc_clip_loader_type = None, mc_family = family,
     mc_prediction = ''eps'',
     mc_capabilities = [(''video_gen'', VBool True), (''video_task'', VStr ''t2v'')],
     mc_defaults = [], mc_limits = [], mc_wan_t5_encoder = Some ''t'', mc_wan_clip_vision = None,
     mc_wan_unet_low = Some ''l'', mc_skip_asset_validation = True, mc_default_loras = [],
     mc_workflow_with_audio = None, mc_mmaudio_vae = None, mc_mmaudio_synchformer = None,
     mc_mmaudio_clip = None, mc_mmaudio_diffusion = None, mc_ltxv_text_encoder = None\<rparr>"

definition demo_vworld :: validation_world where
  "demo_vworld = \<lparr>vw_env = (\<lambda>_. None), vw_bracket_ok = (\<lambda>_. False), vw_async_enabled = True,
     vw_root = [''loras''], vw_resolve = (\<lambda>n. [''loras'', n]), vw_is_file = (\<lambda>_. True)\<rparr>"

definition demo_request :: generate_request where
  "demo_request = \<lparr>gr_model = ''m'', gr_prompt = ''p'', gr_negative_prompt = None, gr_size = ''512x512'',
     gr_n = 1, gr_steps = Some 20, gr_cfg = 5, gr_seed = 3, gr_sampler = Some ''euler'',
     gr_scheduler = Some ''normal'', gr_response_format = UrlFormat, gr_transparent_background = True,
     gr_mode = Sync, gr_timeout_s = None, gr_loras = Some [\<lparr>ls_name = ''a'', ls_weight = 1\<rparr>],
     gr_init_image = None, gr_webhook = None\<rparr>"

definition demo_video_request :: video_request where
  "demo_video_request = \<lparr>vr_model = ''m'', vr_prompt = ''p'', vr_negative_prompt = None, vr_size = ''512x512'',
     vr_frames = 80, vr_fps = 16, vr_steps = None, vr_cfg = None, vr_shift = None, vr_seed = 3,
     vr_scheduler = None, vr_riflex_freq_index = 0, vr_force_offload = True, vr_generate_audio = False,
     vr_response_format = UrlFormat, vr_mode = Sync, vr_timeout_s = None, vr_webhook = None,
     vr_init_image = None, vr_loras = None, vr_wan_advanced = None\<rparr>"

lemma demo_parse_size: "parse_size ''512x512'' = Some (512, 512)"
  by (simp add: parse_size_def py_int_def url_eval)

lemma demo_validated: "\<exists>v. resolve_and_validate demo_vworld [(''m'', demo_model ''sdxl'')] demo_request = Inr v"
  by (simp add: resolve_and_validate_def registry_get_def demo_request_def demo_model_def demo_vworld_def
      size_or_default_def pick_option_def family_set_def allowed_samplers_by_family_def allowed_samplers_def
      allowed_schedulers_by_family_def allowed_schedulers_def check_size_def demo_parse_size int_limit_def
      require_v_def check_def check_async_def check_webhook_def resolve_loras_for_job_def resolve_lora_def
      contained_def check_vram_def vram_budget_gb_def lora_vram_overhead_gb_def decode_init_image_def)

theorem validated_image_within_limits_witness:
  "\<exists>v. resolve_and_validate demo_vworld [(''m'', demo_model ''sdxl'')] demo_request = Inr v \<and>
     vj_width v * vj_height v \<le> 1048576"
proof -
  obtain v where v: "resolve_and_validate demo_vworld [(''m'', demo_model ''sdxl'')] demo_request = Inr v"
    using demo_validated by blast
  from validated_image_within_limits [OF v] have "registry_get [(''m'', demo_model ''sdxl'')] ''m'' = Some (vj_model v)"
    and l: "vj_width v * vj_height v \<le> limit_of (vj_model v) ''size_max_pixels'' 1048576"
    by (simp_all add: demo_request_def)
  then have m: "vj_model v = demo_model ''sdxl''" by (simp add: registry_get_def)
  from l have "vj_width v * vj_height v \<le> 1048576" unfolding m by (simp add: limit_of_def demo_model_def)
  with v show ?thesis by blast
qed

lemma demo_video_validated:
  "\<exists>v. resolve_and_validate_video demo_vworld [(''m'', demo_model ''wan22'')] ''t2v'' demo_video_request = Inr v"
  by (simp add: resolve_and_validate_video_def registry_get_def demo_video_request_def demo_model_def demo_vworld_def
      check_video_model_def size_or_default_def check_size_def demo_parse_size int_limit_def float_default_def
      text_default_def wan_scheduler_pattern_def len_between_def require_v_def check_def check_async_def
      check_webhook_def resolve_loras_for_job_def resolve_default_loras_def resolve_video_loras_def
      check_vram_def vram_budget_gb_def lora_vram_overhead_gb_def decode_init_image_def check_video_image_def
      check_wan_advanced_def choose_workflow_def strip_by_def is_space_def is_alnum_def Let_def)


definition demo_sidecar_world :: sidecar_world where
  "demo_sidecar_world = \<lparr>sw_parse_time = (\<lambda>s. if s = ''now'' then Some 7 else None), sw_show_time = (\<lambda>_. ''now''),
     sw_env = (\<lambda>_. None), sw_now = 7, sw_write_ok = True\<rparr>"

theorem sidecar_touch_debounced_witness:
  "touch_last_used_sync demo_sidecar_world (FileText (Some (VDict []))) =
     FileText (Some (VDict [(''last_used'', VStr ''now'')]))"
  using sidecar_touch_debounced [of demo_sidecar_world demo_sidecar_world "FileText (Some (VDict []))" "[]" "[]" "\<lambda>_. FileMissing"]
  by (simp add: demo_sidecar_world_def debounce_seconds_def recently_used_def)

end
