(* ===== verification/Queue_Worker.thy ===== *)
theory Queue_Worker
  imports Validation
begin

text \<open>
  \<open>app/queue/worker.py\<close>: one item of the queue from its stored request to its final row. The
  state is the job table, the name of the last model that completed, the LoRA sidecars and
  the log of calls to the backend and to object storage. What these calls answer, and what
  the clock, the random seed and the parsers give, is the \<open>backend_world\<close>. A pipeline returns
  the \<open>JobResult\<close> or the exception that leaves it, with the writes made on the way.
\<close>

section \<open>State, answers and errors\<close>

text \<open>
  \<open>ComfyUnreachableError\<close>, \<open>ComfyNodeError\<close> and \<open>ComfyTimeoutError\<close> (the backend errors),
  \<open>StorageError\<close>, and any other exception.
\<close>

datatype pipe_error =
    ComfyUnreachable string
  | ComfyNode string
  | ComfyTimeout string
  | StorageErr string
  | Unexpected string

datatype call =
    CUpload string
  | CUnload
  | CHealth
  | CSubmit graph
  | CWait string rat
  | CCancel string
  | CFree
  | CFetch string
  | CPut nat string string string

record worker =
  wk_jobs :: jobs
  wk_last_model :: "string option"
  wk_calls :: "call list"
  wk_sidecars :: "string \<Rightarrow> file_read"
  wk_events :: "(string \<times> string option) list"

text \<open>
  \<open>bw_health\<close>: status and \<open>vram_free_gb\<close> of the health snapshot, \<open>None\<close> if the call fails.
  \<open>bw_running_write_ok\<close>: whether SQLite accepts the write of \<open>set_running\<close>.
\<close>

record backend_world =
  bw_parse_image :: "pyval \<Rightarrow> generate_request option"
  bw_parse_video :: "pyval \<Rightarrow> video_request option"
  bw_vworld :: validation_world
  bw_sidecar :: sidecar_world
  bw_registry :: registry
  bw_read_workflow :: "string \<Rightarrow> file_read"
  bw_random_seed :: int
  bw_upload :: "pipe_error + unit"
  bw_unload :: "pipe_error + bool"
  bw_health :: "(string \<times> pyval) option"
  bw_submit :: "pipe_error + string"
  bw_client_id :: string
  bw_running_write_ok :: bool
  bw_wait :: "pipe_error + unit"
  bw_fetch :: "pipe_error + string list"
  bw_has_fetch_media :: bool
  bw_fetch_media :: "pipe_error + (string \<times> string) list"
  bw_transparent :: "string \<Rightarrow> string option"
  bw_has_blob_upload :: bool
  bw_put :: "nat \<Rightarrow> pipe_error + string \<times> string"
  bw_t_running :: timestamp
  bw_t_end :: timestamp
  bw_duration_ms :: rat
  bw_job_timeout_s :: rat
  bw_public_base_url :: string

record job_result =
  jr_data :: "pyval list"
  jr_duration_ms :: rat
  jr_resolved_seed :: int

section \<open>Steps\<close>

type_synonym ('s, 'a) effect = "'s \<Rightarrow> (pipe_error + 'a) \<times> 's"
type_synonym 'a pipe = "(worker, 'a) effect"

definition return_p :: "'a \<Rightarrow> ('s, 'a) effect" where
  "return_p x = (\<lambda>s. (Inr x, s))"

definition raise_p :: "pipe_error \<Rightarrow> ('s, 'a) effect" where
  "raise_p e = (\<lambda>s. (Inl e, s))"

definition bind_p :: "('s, 'a) effect \<Rightarrow> ('a \<Rightarrow> ('s, 'b) effect) \<Rightarrow> ('s, 'b) effect" where
  "bind_p m f = (\<lambda>s. case m s of (Inl e, s') \<Rightarrow> (Inl e, s') | (Inr x, s') \<Rightarrow> f x s')"

text \<open>\<open>try: m except e: h e\<close>.\<close>

definition on_error :: "('s, 'a) effect \<Rightarrow> (pipe_error \<Rightarrow> ('s, 'a) effect) \<Rightarrow> ('s, 'a) effect" where
  "on_error m h = (\<lambda>s. case m s of (Inl e, s') \<Rightarrow> h e s' | (Inr x, s') \<Rightarrow> (Inr x, s'))"

definition call_p :: "call \<Rightarrow> pipe_error + 'a \<Rightarrow> 'a pipe" where
  "call_p c r = (\<lambda>s. (r, s\<lparr>wk_calls := wk_calls s @ [c]\<rparr>))"

text \<open>A call whose errors are swallowed (\<open>_safe_cancel\<close>, \<open>_safe_free\<close>).\<close>

definition safe_call :: "call \<Rightarrow> unit pipe" where
  "safe_call c = call_p c (Inr ())"

text \<open>\<open>metrics.record_job_event(status=..., error_code=...)\<close>.\<close>

definition note_event :: "string \<Rightarrow> string option \<Rightarrow> worker \<Rightarrow> worker" where
  "note_event status error_code s = s\<lparr>wk_events := wk_events s @ [(status, error_code)]\<rparr>"

text \<open>\<open>await set_failed(...)\<close>, then raise; only in two places without an event.\<close>

definition fail_quietly :: "backend_world \<Rightarrow> job \<Rightarrow> string \<Rightarrow> string \<Rightarrow> pipe_error \<Rightarrow> 'a pipe" where
  "fail_quietly w j code msg e = (\<lambda>s. case set_failed (wk_jobs s) (j_id j) code msg (bw_t_end w) of
     Inl _ \<Rightarrow> (Inl (Unexpected ''set_failed''), s) | Inr (t, _) \<Rightarrow> (Inl e, s\<lparr>wk_jobs := t\<rparr>))"

definition fail_job :: "backend_world \<Rightarrow> job \<Rightarrow> string \<Rightarrow> string \<Rightarrow> pipe_error \<Rightarrow> 'a pipe" where
  "fail_job w j code msg e = (\<lambda>s. case set_failed (wk_jobs s) (j_id j) code msg (bw_t_end w) of
     Inl _ \<Rightarrow> (Inl (Unexpected ''set_failed''), s)
   | Inr (t, _) \<Rightarrow> (Inl e, note_event ''failed'' (Some code) (s\<lparr>wk_jobs := t\<rparr>)))"

definition unreachable_fails :: "backend_world \<Rightarrow> job \<Rightarrow> pipe_error \<Rightarrow> 'a pipe" where
  "unreachable_fails w j e = (case e of
     ComfyUnreachable m \<Rightarrow> fail_job w j ''comfy_unreachable'' m e | _ \<Rightarrow> raise_p e)"

text \<open>A workflow exception that no handler of the pipeline catches.\<close>

definition lift_p :: "workflow_error + 'a \<Rightarrow> 'a pipe" where
  "lift_p r = (case r of Inl _ \<Rightarrow> raise_p (Unexpected ''workflow'') | Inr x \<Rightarrow> return_p x)"

section \<open>Driving the backend\<close>

definition has_swap_headroom :: "(string \<times> pyval) option \<Rightarrow> model_config \<Rightarrow> bool" where
  "has_swap_headroom health m = (case health of
     None \<Rightarrow> False
   | Some (status, free) \<Rightarrow> status = ''ok'' \<and>
       (case float_of free of None \<Rightarrow> False | Some free_gb \<Rightarrow> mc_vram_estimate_gb m + 1 / 2 \<le> free_gb))"

definition swap_guard :: "backend_world \<Rightarrow> job \<Rightarrow> model_config \<Rightarrow> unit pipe" where
  "swap_guard w j m = (\<lambda>s.
     if wk_last_model s \<noteq> None \<and> wk_last_model s \<noteq> Some (mc_name m) then
       bind_p (call_p CUnload (bw_unload w)) (\<lambda>unloaded.
         if unloaded then return_p ()
         else bind_p (safe_call CHealth) (\<lambda>_.
           if has_swap_headroom (bw_health w) m then return_p ()
           else fail_job w j ''vram_budget_exceeded'' ''model swap refused''
                  (ComfyNode ''model swap refused''))) s
     else (Inr (), s))"

definition submit_prompt :: "backend_world \<Rightarrow> job \<Rightarrow> graph \<Rightarrow> string pipe" where
  "submit_prompt w j g = on_error (call_p (CSubmit g) (bw_submit w)) (\<lambda>e. case e of
     ComfyUnreachable m \<Rightarrow> fail_job w j ''comfy_unreachable'' m e
   | ComfyNode m \<Rightarrow> fail_job w j ''comfy_error'' m e
   | _ \<Rightarrow> raise_p e)"

definition mark_running :: "backend_world \<Rightarrow> job \<Rightarrow> string \<Rightarrow> unit pipe" where
  "mark_running w j prompt_id = (\<lambda>s.
     case (if bw_running_write_ok w
           then set_running (wk_jobs s) (j_id j) prompt_id (bw_client_id w) (bw_t_running w)
           else Inl IntegrityError) of
       Inr (t, _) \<Rightarrow> (Inr (), note_event ''running'' None (s\<lparr>wk_jobs := t\<rparr>))
     | Inl _ \<Rightarrow> bind_p (safe_call (CCancel prompt_id)) (\<lambda>_. raise_p (ComfyNode ''set_running failed'')) s)"

definition wait_prompt :: "backend_world \<Rightarrow> job \<Rightarrow> string \<Rightarrow> rat \<Rightarrow> unit pipe" where
  "wait_prompt w j prompt_id timeout_s = on_error (call_p (CWait prompt_id timeout_s) (bw_wait w)) (\<lambda>e. case e of
     ComfyTimeout m \<Rightarrow> bind_p (safe_call (CCancel prompt_id)) (\<lambda>_. bind_p (safe_call CFree) (\<lambda>_.
       fail_job w j ''comfy_timeout'' m e))
   | _ \<Rightarrow> unreachable_fails w j e)"

definition wait_timeout :: "backend_world \<Rightarrow> model_config \<Rightarrow> rat option \<Rightarrow> rat pipe" where
  "wait_timeout w m timeout_s = (case timeout_s of
     Some t \<Rightarrow> return_p t
   | None \<Rightarrow> (case map_of (mc_defaults m) ''job_timeout_s'' of
       None \<Rightarrow> return_p (bw_job_timeout_s w)
     | Some v \<Rightarrow> (case float_of v of None \<Rightarrow> raise_p (Unexpected ''job_timeout_s'') | Some t \<Rightarrow> return_p t)))"

text \<open>Swap guard, submit, \<open>set_running\<close>, wait: the same in the three pipelines.\<close>

definition drive_backend ::
  "backend_world \<Rightarrow> job \<Rightarrow> model_config \<Rightarrow> rat option \<Rightarrow> graph \<Rightarrow> string pipe" where
  "drive_backend w j m timeout_s g =
     bind_p (swap_guard w j m) (\<lambda>_.
     bind_p (submit_prompt w j g) (\<lambda>prompt_id.
     bind_p (mark_running w j prompt_id) (\<lambda>_.
     bind_p (wait_timeout w m timeout_s) (\<lambda>t.
     bind_p (wait_prompt w j prompt_id t) (\<lambda>_.
     return_p prompt_id)))))"

definition upload_init_image ::
  "backend_world \<Rightarrow> job \<Rightarrow> string option \<Rightarrow> string \<Rightarrow> graph \<Rightarrow> graph pipe" where
  "upload_init_image w j bytes filename g = (case bytes of
     None \<Rightarrow> return_p g
   | Some b \<Rightarrow> (if b = [] then return_p g
       else bind_p (on_error (call_p (CUpload filename) (bw_upload w)) (unreachable_fails w j))
              (\<lambda>_. lift_p (inject_init_image g filename))))"

section \<open>Completing a job\<close>

definition result_json :: "job_result \<Rightarrow> pyval" where
  "result_json r = VDict [(''data'', VList (jr_data r)), (''duration_ms'', VFloat (jr_duration_ms r)),
     (''resolved_seed'', VInt (jr_resolved_seed r))]"

definition complete_job ::
  "backend_world \<Rightarrow> job \<Rightarrow> model_config \<Rightarrow> string list \<Rightarrow> job_result \<Rightarrow> job_result pipe" where
  "complete_job w j m output_keys r = (\<lambda>s.
     case set_completed (wk_jobs s) (j_id j) output_keys (result_json r) (bw_t_end w) of
       Inl _ \<Rightarrow> (Inl (Unexpected ''set_completed''), s)
     | Inr (t, _) \<Rightarrow> (Inr r, s\<lparr>wk_jobs := t, wk_last_model := Some (mc_name m)\<rparr>))"

text \<open>The uploads in order, stopping at the first error.\<close>

fun put_all :: "backend_world \<Rightarrow> nat \<Rightarrow> (string \<times> string \<times> string) list \<Rightarrow> string list pipe" where
  "put_all w idx [] = return_p []"
| "put_all w idx ((blob, ext, ctype) # rest) =
     bind_p (call_p (CPut idx ext ctype blob) (bw_put w idx)) (\<lambda>(bucket, key).
     bind_p (put_all w (idx + 1) rest) (\<lambda>keys. return_p ((bucket @ ''/'' @ key) # keys)))"

definition upload_outputs :: "backend_world \<Rightarrow> job \<Rightarrow> (string \<times> string \<times> string) list \<Rightarrow> string list pipe" where
  "upload_outputs w j items = on_error (put_all w 0 items) (\<lambda>e. case e of
     StorageErr m \<Rightarrow> fail_job w j ''storage_error'' m e | _ \<Rightarrow> raise_p e)"

definition response_data ::
  "backend_world \<Rightarrow> job \<Rightarrow> response_format \<Rightarrow> string \<Rightarrow> (string \<times> string) list \<Rightarrow> pyval list" where
  "response_data w j fmt kind blobs = (case fmt of
     B64Json \<Rightarrow> map (\<lambda>(blob, _). VDict [(''b64_json'', VStr (b64_encode blob))]) blobs
   | UrlFormat \<Rightarrow> map (\<lambda>(idx, (_, ext)). VDict [(''url'', VStr (bw_public_base_url w @ ''/v1/'' @ kind @ ''/'' @
       j_id j @ ''/'' @ show_nat idx @ ''.'' @ ext))]) (enumerate 0 blobs))"

definition actual_seed :: "backend_world \<Rightarrow> int \<Rightarrow> int" where
  "actual_seed w seed = (if 0 \<le> seed then seed else bw_random_seed w)"

section \<open>Graph access by key\<close>

text \<open>\<open>graph[i]["inputs"]\<close>: a missing entry is a \<open>KeyError\<close>.\<close>

definition index_inputs :: "graph \<Rightarrow> string \<Rightarrow> workflow_error + pydict" where
  "index_inputs g i = (case map_of (node_at g i) ''inputs'' of
     None \<Rightarrow> Inl (AnchorNotFound ''inputs'') | Some (VDict ins) \<Rightarrow> Inr ins | Some _ \<Rightarrow> Inl AttributeError)"

definition index_patch :: "string \<Rightarrow> (pydict \<Rightarrow> pydict) \<Rightarrow> graph \<Rightarrow> workflow_error + graph" where
  "index_patch i f g = bind_r (index_inputs g i) (\<lambda>ins. Inr (put_inputs g i (f ins)))"

definition anchor_patch :: "string \<Rightarrow> (pydict \<Rightarrow> pydict) \<Rightarrow> graph \<Rightarrow> workflow_error + graph" where
  "anchor_patch a f g = bind_r (find_anchor g a) (\<lambda>i. index_patch i f g)"

text \<open>\<open>try: ... except KeyError: pass\<close>.\<close>

definition pass_key_error :: "graph \<Rightarrow> workflow_error + graph \<Rightarrow> workflow_error + graph" where
  "pass_key_error g r = (case r of Inl (AnchorNotFound _) \<Rightarrow> Inr g | _ \<Rightarrow> r)"

definition set_int :: "string \<Rightarrow> int \<Rightarrow> pydict \<Rightarrow> pydict" where
  "set_int k i = dict_set k (VInt i)"

definition set_num :: "string \<Rightarrow> rat \<Rightarrow> pydict \<Rightarrow> pydict" where
  "set_num k x = dict_set k (VFloat x)"

definition nodes_of_class :: "string \<Rightarrow> graph \<Rightarrow> string list" where
  "nodes_of_class cls g = map fst (filter (\<lambda>(i, n). dict_get n ''class_type'' = VStr cls) g)"

section \<open>Images\<close>

definition image_sampler_inputs :: "validated_job \<Rightarrow> int \<Rightarrow> pydict \<Rightarrow> pydict" where
  "image_sampler_inputs v seed ins = set_str ''scheduler'' (vj_scheduler v) (set_str ''sampler_name'' (vj_sampler v)
     (set_num ''cfg'' (vj_cfg v) (set_int ''steps'' (vj_steps v) (set_int ''seed'' seed ins))))"

definition image_latent_inputs :: "validated_job \<Rightarrow> pydict \<Rightarrow> pydict" where
  "image_latent_inputs v ins = set_int ''batch_size'' (vj_n v)
     (set_int ''height'' (vj_height v) (set_int ''width'' (vj_width v) ins))"

definition image_graph :: "validated_job \<Rightarrow> int \<Rightarrow> graph \<Rightarrow> workflow_error + graph" where
  "image_graph v seed g =
     bind_r (find_anchor g ''%POSITIVE_PROMPT%'') (\<lambda>pos_id.
     bind_r (find_anchor g ''%NEGATIVE_PROMPT%'') (\<lambda>neg_id.
     bind_r (find_anchor g ''%KSAMPLER%'') (\<lambda>ks_id.
     bind_r (index_patch pos_id (set_str ''text'' (vj_prompt v)) g) (\<lambda>g.
     bind_r (index_patch neg_id (set_str ''text'' (vj_negative_prompt v)) g) (\<lambda>g.
     bind_r (index_patch ks_id (image_sampler_inputs v seed) g) (\<lambda>g.
     bind_r (case nodes_of_class ''EmptyLatentImage'' g of [] \<Rightarrow> Inr g
             | nid # _ \<Rightarrow> index_patch nid (image_latent_inputs v) g) (\<lambda>g.
     bind_r (inject_model_source g (vj_model v)) (\<lambda>g.
     bind_r (inject_vpred g (vj_model v)) (\<lambda>g.
     inject_loras g (vj_loras v))))))))))"

definition png_magic :: string where
  "png_magic = [CHR 0x89, CHR ''P'', CHR ''N'', CHR ''G'', CHR 0x0D, CHR 0x0A, CHR 0x1A, CHR 0x0A]"

fun check_images :: "backend_world \<Rightarrow> job \<Rightarrow> bool \<Rightarrow> string list \<Rightarrow> string list pipe" where
  "check_images w j transparent [] = return_p []"
| "check_images w j transparent (png # rest) =
     bind_p (if \<not> starts_with png_magic png
             then fail_job w j ''comfy_error'' ''non-PNG bytes'' (ComfyNode ''non-PNG bytes'')
             else if transparent then
               (case bw_transparent w png of
                  None \<Rightarrow> fail_job w j ''comfy_error'' ''transparent postprocess failed''
                            (ComfyNode ''transparent postprocess failed'')
                | Some processed \<Rightarrow> return_p processed)
             else return_p png) (\<lambda>p.
     bind_p (check_images w j transparent rest) (\<lambda>ps. return_p (p # ps)))"

definition finish_images :: "backend_world \<Rightarrow> job \<Rightarrow> validated_job \<Rightarrow> int \<Rightarrow> string \<Rightarrow> job_result pipe" where
  "finish_images w j v seed prompt_id =
     bind_p (on_error (call_p (CFetch prompt_id) (bw_fetch w)) (unreachable_fails w j)) (\<lambda>images.
     bind_p (if images = [] then fail_job w j ''comfy_error'' ''ComfyUI returned zero outputs''
               (ComfyNode ''ComfyUI returned zero outputs'') else return_p ()) (\<lambda>_.
     bind_p (check_images w j (vj_transparent_background v) images) (\<lambda>images.
     bind_p (upload_outputs w j (map (\<lambda>png. (png, ''png'', ''image/png'')) images)) (\<lambda>keys.
     complete_job w j (vj_model v) keys
       \<lparr>jr_data = response_data w j (vj_response_format v) ''images'' (map (\<lambda>p. (p, ''png'')) images),
        jr_duration_ms = bw_duration_ms w, jr_resolved_seed = seed\<rparr>))))"

text \<open>Re-validation: a Pydantic failure and a validation failure end the job.\<close>

definition touch_sidecars :: "backend_world \<Rightarrow> lora_ref list \<Rightarrow> unit pipe" where
  "touch_sidecars w loras = (\<lambda>s.
     (Inr (), s\<lparr>wk_sidecars := touch_last_used (bw_sidecar w) loras (wk_sidecars s)\<rparr>))"

definition revalidated :: "backend_world \<Rightarrow> job \<Rightarrow> validation_error + 'a \<Rightarrow> 'a pipe" where
  "revalidated w j r = (case r of
     Inl (ValidationFailure code msg) \<Rightarrow> fail_job w j code msg (ComfyNode ''re-validation failed'')
   | Inl Uncaught \<Rightarrow> raise_p (Unexpected ''validation'')
   | Inr v \<Rightarrow> return_p v)"

definition image_pipeline :: "backend_world \<Rightarrow> job \<Rightarrow> pyval \<Rightarrow> job_result pipe" where
  "image_pipeline w j raw = (case bw_parse_image w raw of
     None \<Rightarrow> fail_job w j ''validation_error'' ''re-validation of stored input_json failed''
               (ComfyNode ''re-validation failed'')
   | Some body \<Rightarrow>
       bind_p (revalidated w j (resolve_and_validate (bw_vworld w) (bw_registry w) body)) (\<lambda>v.
       bind_p (touch_sidecars w (vj_loras v)) (\<lambda>_.
       bind_p (lift_p (load_workflow (bw_read_workflow w (mc_workflow_path (vj_model v))))) (\<lambda>g.
       let seed = actual_seed w (vj_seed v) in
       bind_p (lift_p (image_graph v seed g)) (\<lambda>g.
       bind_p (upload_init_image w j (vj_init_image_bytes v) (j_id j @ ''.png'') g) (\<lambda>g.
       bind_p (drive_backend w j (vj_model v) (vj_timeout_s v) g) (\<lambda>prompt_id.
       finish_images w j v seed prompt_id)))))))"

section \<open>LTX videos\<close>

definition media_content_type :: "string \<Rightarrow> string" where
  "media_content_type ext = (case map_of [(''mp4'', ''video/mp4''), (''webm'', ''video/webm''),
       (''gif'', ''image/gif''), (''png'', ''image/png'')] ext of
     None \<Rightarrow> ''application/octet-stream'' | Some t \<Rightarrow> t)"

definition media_ext :: "string \<Rightarrow> string" where
  "media_ext ext = (let e = lstrip_by (\<lambda>c. c = CHR ''.'') (lower ext) in if e = [] then ''mp4'' else e)"

definition finish_media ::
  "backend_world \<Rightarrow> job \<Rightarrow> model_config \<Rightarrow> response_format \<Rightarrow> int \<Rightarrow> string \<Rightarrow> job_result pipe" where
  "finish_media w j m fmt seed prompt_id =
     bind_p (if \<not> bw_has_fetch_media w
             then fail_quietly w j ''comfy_error'' ''backend adapter missing fetch_media_outputs''
                    (ComfyNode ''backend adapter missing fetch_media_outputs'')
             else return_p ()) (\<lambda>_.
     bind_p (on_error (call_p (CFetch prompt_id) (bw_fetch_media w)) (unreachable_fails w j)) (\<lambda>rows.
     bind_p (if rows = [] then fail_job w j ''comfy_error'' ''ComfyUI returned zero media outputs''
               (ComfyNode ''ComfyUI returned zero media outputs'') else return_p ()) (\<lambda>_.
     let blobs = map (\<lambda>(blob, ext). (blob, media_ext ext)) rows;
         items = map (\<lambda>(blob, ext). if bw_has_blob_upload w then (blob, ext, media_content_type ext)
                                 else (blob, ''png'', ''image/png'')) blobs in
     bind_p (upload_outputs w j items) (\<lambda>keys.
     complete_job w j m keys
       \<lparr>jr_data = response_data w j fmt ''videos'' blobs,
        jr_duration_ms = bw_duration_ms w, jr_resolved_seed = seed\<rparr>))))"

definition ltxv_graph :: "validated_video_job \<Rightarrow> int \<Rightarrow> graph \<Rightarrow> workflow_error + graph" where
  "ltxv_graph v seed g =
     bind_r (inject_ltxv_weights g (vv_model v)) (\<lambda>g.
     bind_r (inject_ltxv_video_vae g ''LTX23_video_vae_bf16.safetensors'') (\<lambda>g.
     bind_r (find_anchor g ''%LTXV_POSITIVE%'') (\<lambda>pos_id.
     bind_r (find_anchor g ''%LTXV_NEGATIVE%'') (\<lambda>neg_id.
     bind_r (index_patch pos_id (set_str ''text'' (vv_prompt v)) g) (\<lambda>g.
     bind_r (index_patch neg_id (set_str ''text'' (vv_negative_prompt v)) g) (\<lambda>g.
     bind_r (inject_ltxv_seed g seed) (\<lambda>g.
     bind_r (inject_ltxv_frames g (vv_frames v)) (\<lambda>g.
     pass_key_error g (anchor_patch ''%LTXV_OUTPUT%'' (set_num ''frame_rate'' (vv_fps v)) g)))))))))"

text \<open>\<open>except WorkflowValidationError\<close> fails the job; any other exception passes.\<close>

definition workflow_fails :: "backend_world \<Rightarrow> job \<Rightarrow> workflow_error + 'a \<Rightarrow> 'a pipe" where
  "workflow_fails w j r = (case r of
     Inl (WorkflowValidationError m) \<Rightarrow> fail_job w j ''comfy_error'' m (ComfyNode m)
   | Inl (AnchorProblems _ _) \<Rightarrow> fail_job w j ''comfy_error'' ''anchors'' (ComfyNode ''anchors'')
   | Inl _ \<Rightarrow> raise_p (Unexpected ''workflow'')
   | Inr x \<Rightarrow> return_p x)"

text \<open>The envelope of a video job: the task and the payload object.\<close>

definition envelope_parts :: "pydict \<Rightarrow> (string \<times> pydict) option" where
  "envelope_parts env = (case (dict_get env ''video_task'', dict_get env ''payload'') of
     (VStr task, VDict payload) \<Rightarrow> (if task \<in> {''t2v'', ''i2v''} then Some (task, payload) else None)
   | _ \<Rightarrow> None)"

definition bad_envelope :: "backend_world \<Rightarrow> job \<Rightarrow> 'a pipe" where
  "bad_envelope w j = fail_quietly w j ''validation_error'' ''stored video envelope missing video_task or payload''
     (ComfyNode ''stored video envelope missing video_task or payload'')"

text \<open>Here a Pydantic failure is not caught: it leaves the pipeline as it is.\<close>

definition ltxv_pipeline :: "backend_world \<Rightarrow> job \<Rightarrow> pydict \<Rightarrow> job_result pipe" where
  "ltxv_pipeline w j env = (case envelope_parts env of
     None \<Rightarrow> bad_envelope w j
   | Some (task, payload) \<Rightarrow>
       (case bw_parse_video w (VDict payload) of
          None \<Rightarrow> raise_p (Unexpected ''ValidationError'')
        | Some body \<Rightarrow>
            bind_p (revalidated w j (resolve_and_validate_video (bw_vworld w) (bw_registry w) task body)) (\<lambda>v.
            bind_p (touch_sidecars w (vv_loras v)) (\<lambda>_.
            bind_p (lift_p (load_workflow (bw_read_workflow w (vv_resolved_workflow_path v)))) (\<lambda>g.
            let seed = actual_seed w (vv_seed v) in
            bind_p (workflow_fails w j (ltxv_graph v seed g)) (\<lambda>g.
            bind_p (upload_init_image w j (vv_init_image_bytes v) (j_id j @ ''_init.png'') g) (\<lambda>g.
            bind_p (drive_backend w j (vv_model v) (vv_timeout_s v) g) (\<lambda>prompt_id.
            finish_media w j (vv_model v) (vv_response_format v) seed prompt_id))))))))"

section \<open>WAN videos\<close>

definition core_wan_scheduler :: "string \<Rightarrow> string" where
  "core_wan_scheduler s = (case map_of [(''unipc'', ''simple''), (''dpm++'', ''dpm_fast''), (''flow_dpm'', ''simple'')] s of
     None \<Rightarrow> s | Some t \<Rightarrow> t)"

definition is_core_graph :: "graph \<Rightarrow> bool" where
  "is_core_graph g \<longleftrightarrow> list_ex (\<lambda>(i, n). dict_get n ''class_type'' = VStr ''UNETLoader'') g"

definition wan_weights_graph :: "validated_video_job \<Rightarrow> string \<Rightarrow> bool \<Rightarrow> graph \<Rightarrow> workflow_error + graph" where
  "wan_weights_graph v task core g =
     bind_r (inject_video_weights g (vv_model v)) (\<lambda>g.
     bind_r (inject_mmaudio_weights g (vv_model v)) (\<lambda>g.
     bind_r (if core then inject_wan_core_loras g (vv_loras v)
             else inject_wan_lora_multi g (vv_loras v)
               (case vv_wan_advanced v of None \<Rightarrow> None | Some a \<Rightarrow> wa_merge_loras a)
               (case vv_wan_advanced v of None \<Rightarrow> None | Some a \<Rightarrow> wa_low_mem_load a)) (\<lambda>g.
     apply_wan_advanced_patches g (vv_wan_advanced v) task)))"

definition wan_prompts :: "validated_video_job \<Rightarrow> bool \<Rightarrow> graph \<Rightarrow> workflow_error + graph" where
  "wan_prompts v core g =
     (if core then
        bind_r (find_anchor g ''%WAN_POSITIVE%'') (\<lambda>pos_id.
        bind_r (find_anchor g ''%WAN_NEGATIVE%'') (\<lambda>neg_id.
        bind_r (index_patch pos_id (set_str ''text'' (vv_prompt v)) g)
          (index_patch neg_id (set_str ''text'' (vv_negative_prompt v)))))
      else anchor_patch ''%WAN_PROMPTS%'' (\<lambda>ins. set_str ''negative_prompt'' (vv_negative_prompt v)
             (set_str ''positive_prompt'' (vv_prompt v) ins)) g)"

definition wan_dims :: "validated_video_job \<Rightarrow> graph \<Rightarrow> workflow_error + graph" where
  "wan_dims v g = bind_r (find_anchor g ''%WAN_DIMS%'') (\<lambda>i.
     index_patch i (\<lambda>ins. set_int (if class_of g i = VStr ''WanImageToVideo'' then ''length'' else ''num_frames'')
       (vv_frames v) (set_int ''height'' (vv_height v) (set_int ''width'' (vv_width v) ins))) g)"

definition half_steps :: "validated_video_job \<Rightarrow> int" where
  "half_steps v = max 1 (vv_steps v div 2)"

definition wan_common_sampler :: "validated_video_job \<Rightarrow> int \<Rightarrow> pydict \<Rightarrow> pydict" where
  "wan_common_sampler v seed ins = set_str ''scheduler'' (core_wan_scheduler (vv_scheduler v))
     (set_num ''cfg'' (vv_cfg v) (set_int ''steps'' (vv_steps v) (set_int ''noise_seed'' seed ins)))"

definition wan_sampler :: "validated_video_job \<Rightarrow> int \<Rightarrow> graph \<Rightarrow> workflow_error + graph" where
  "wan_sampler v seed g = bind_r (find_anchor g ''%WAN_SAMPLER%'') (\<lambda>i.
     if class_of g i = VStr ''KSamplerAdvanced'' then
       bind_r (index_patch i (\<lambda>ins. set_str ''return_with_leftover_noise'' ''enable''
         (set_int ''end_at_step'' (half_steps v) (wan_common_sampler v seed ins))) g) (\<lambda>g.
       bind_r (pass_key_error g (anchor_patch ''%WAN_SHIFT%'' (set_num ''shift'' (vv_shift v)) g)) (\<lambda>g.
       pass_key_error g (anchor_patch ''%WAN_NAG_SAMPLER%''
         (\<lambda>ins. set_int ''start_at_step'' (half_steps v) (wan_common_sampler v seed ins)) g)))
     else index_patch i (\<lambda>ins. dict_set ''force_offload'' (VBool (vv_force_offload v))
       (set_int ''riflex_freq_index'' (vv_riflex_freq_index v) (set_str ''scheduler'' (vv_scheduler v)
       (set_num ''shift'' (vv_shift v) (set_num ''cfg'' (vv_cfg v) (set_int ''steps'' (vv_steps v)
       (set_int ''seed'' seed ins))))))) g)"

text \<open>
  MMAudio's sampler. The conversions of the model's defaults come last; when one raises, the
  exception leaves the pipeline.
\<close>

definition wan_audio :: "validated_video_job \<Rightarrow> int \<Rightarrow> graph \<Rightarrow> workflow_error + graph" where
  "wan_audio v seed g = pass_key_error g (bind_r (find_anchor g ''%MMAUDIO_SAMPLER%'') (\<lambda>i.
     bind_r (index_inputs g i) (\<lambda>_.
       let defs = mc_defaults (vv_model v);
           steps = (case map_of defs ''mmaudio_steps'' of None \<Rightarrow> Some 25 | Some x \<Rightarrow> int_of x);
           cfg = (case map_of defs ''mmaudio_cfg'' of None \<Rightarrow> Some (9 / 2) | Some x \<Rightarrow> float_of x);
           duration = (if 0 < vv_fps v then of_int (vv_frames v) / vv_fps v else 8)
       in case (steps, cfg) of
            (Some steps, Some cfg) \<Rightarrow> index_patch i (\<lambda>ins. set_num ''cfg'' cfg (set_int ''steps'' steps
              (dict_set ''force_offload'' (VBool (vv_force_offload v)) (set_int ''seed'' seed
              (set_str ''negative_prompt'' (vv_negative_prompt v) (set_str ''prompt'' (vv_prompt v)
              (set_num ''duration'' duration ins))))))) g
          | _ \<Rightarrow> Inl AttributeError)))"

definition wan_inputs_graph :: "validated_video_job \<Rightarrow> bool \<Rightarrow> int \<Rightarrow> graph \<Rightarrow> workflow_error + graph" where
  "wan_inputs_graph v core seed g =
     bind_r (wan_prompts v core g) (\<lambda>g.
     bind_r (wan_dims v g) (\<lambda>g.
     bind_r (wan_sampler v seed g) (\<lambda>g.
     bind_r (pass_key_error g (anchor_patch ''%VIDEO_OUTPUT%'' (set_num ''frame_rate'' (vv_fps v)) g)) (\<lambda>g.
     wan_audio v seed g))))"

text \<open>From the patched graph to the result.\<close>

definition run_wan_graph :: "backend_world \<Rightarrow> job \<Rightarrow> validated_video_job \<Rightarrow> int \<Rightarrow> graph \<Rightarrow> job_result pipe" where
  "run_wan_graph w j v seed g =
     bind_p (upload_init_image w j (vv_init_image_bytes v) (j_id j @ ''_init.png'') g) (\<lambda>g.
     bind_p (drive_backend w j (vv_model v) (vv_timeout_s v) g) (\<lambda>prompt_id.
     finish_media w j (vv_model v) (vv_response_format v) seed prompt_id))"

definition video_pipeline :: "backend_world \<Rightarrow> job \<Rightarrow> pydict \<Rightarrow> job_result pipe" where
  "video_pipeline w j env = (case envelope_parts env of
     None \<Rightarrow> bad_envelope w j
   | Some (task, payload) \<Rightarrow>
       (case bw_parse_video w (VDict payload) of
          None \<Rightarrow> fail_job w j ''validation_error'' ''re-validation of video payload failed''
                    (ComfyNode ''re-validation failed'')
        | Some body \<Rightarrow>
            bind_p (revalidated w j (resolve_and_validate_video (bw_vworld w) (bw_registry w) task body)) (\<lambda>v.
            bind_p (touch_sidecars w (vv_loras v)) (\<lambda>_.
            bind_p (lift_p (load_workflow (bw_read_workflow w (vv_resolved_workflow_path v)))) (\<lambda>g.
            let seed = actual_seed w (vv_seed v); core = is_core_graph g in
            bind_p (workflow_fails w j (wan_weights_graph v task core g)) (\<lambda>g.
            bind_p (lift_p (wan_inputs_graph v core seed g)) (\<lambda>g.
            run_wan_graph w j v seed g)))))))"

section \<open>One queue item\<close>

text \<open>
  \<open>_run_pipeline\<close>: a stored text that is no JSON fails the job; a video envelope goes to the
  pipeline of its model's family; everything else is an image request.
\<close>

definition run_pipeline :: "backend_world \<Rightarrow> job \<Rightarrow> job_result pipe" where
  "run_pipeline w j = (case j_input_json j of
     None \<Rightarrow> fail_job w j ''validation_error'' ''stored input_json is not valid JSON''
               (ComfyNode ''re-validation failed'')
   | Some (VDict env) \<Rightarrow>
       (if dict_get env ''artifact_kind'' = VStr ''video'' then
          (case py_or (dict_get env ''payload'') (VDict []) of
             VDict payload \<Rightarrow>
               (case (case map_of payload ''model'' of None \<Rightarrow> VStr [] | Some v \<Rightarrow> v) of
                  VStr name \<Rightarrow>
                    (case registry_get (bw_registry w) name of
                       None \<Rightarrow> video_pipeline w j env
                     | Some m \<Rightarrow> if mc_family m = ''ltxv'' then ltxv_pipeline w j env else video_pipeline w j env)
                | VList _ \<Rightarrow> raise_p (Unexpected ''TypeError'')
                | VDict _ \<Rightarrow> raise_p (Unexpected ''TypeError'')
                | _ \<Rightarrow> video_pipeline w j env)
           | _ \<Rightarrow> raise_p (Unexpected ''AttributeError''))
        else image_pipeline w j (VDict env))
   | Some v \<Rightarrow> image_pipeline w j v)"

text \<open>
  What the caller's future gets. \<open>LoopDies\<close>: \<open>set_failed\<close> in the handler of unexpected
  exceptions raises itself, and the exception leaves the worker's loop.
\<close>

datatype item_end = Resolved job_result | Rejected pipe_error | LoopDies

text \<open>\<open>exc.__class__.__name__.lower()\<close>: not the code that the step has recorded.\<close>

definition error_class :: "pipe_error \<Rightarrow> string" where
  "error_class e = (case e of ComfyUnreachable _ \<Rightarrow> ''comfyunreachableerror'' | ComfyNode _ \<Rightarrow> ''comfynodeerror''
     | ComfyTimeout _ \<Rightarrow> ''comfytimeouterror'' | StorageErr _ \<Rightarrow> ''storageerror'' | Unexpected _ \<Rightarrow> ''internal'')"

definition process_item :: "backend_world \<Rightarrow> job \<Rightarrow> worker \<Rightarrow> item_end \<times> worker" where
  "process_item w j s = (case run_pipeline w j s of
     (Inr r, s') \<Rightarrow> (Resolved r, note_event ''completed'' None s')
   | (Inl (Unexpected m), s') \<Rightarrow>
       (case set_failed (wk_jobs s') (j_id j) ''internal'' m (bw_t_end w) of
          Inl _ \<Rightarrow> (LoopDies, s')
        | Inr (t, _) \<Rightarrow> (Rejected (Unexpected m), note_event ''failed'' (Some ''internal'') (s'\<lparr>wk_jobs := t\<rparr>)))
   | (Inl e, s') \<Rightarrow> (Rejected e, note_event ''failed'' (Some (error_class e)) s'))"

section \<open>Reasoning about pipelines\<close>

text \<open>
  \<open>ensures P m Q E\<close>: started in a state with \<open>P\<close>, a result comes with \<open>Q\<close>, an exception with \<open>E\<close>.
\<close>

definition ensures :: "(worker \<Rightarrow> bool) \<Rightarrow> 'a pipe \<Rightarrow> ('a \<Rightarrow> worker \<Rightarrow> bool) \<Rightarrow> (pipe_error \<Rightarrow> worker \<Rightarrow> bool) \<Rightarrow> bool" where
  "ensures P m Q E \<longleftrightarrow> (\<forall>s. P s \<longrightarrow> (case m s of (Inl e, s') \<Rightarrow> E e s' | (Inr x, s') \<Rightarrow> Q x s'))"

lemma ensuresD:
  "ensures P m Q E \<Longrightarrow> P s \<Longrightarrow> (case m s of (Inl e, s') \<Rightarrow> E e s' | (Inr x, s') \<Rightarrow> Q x s')"
  by (simp add: ensures_def)

lemma ensures_bind:
  "ensures P m R E \<Longrightarrow> (\<And>x. ensures (R x) (f x) Q E) \<Longrightarrow> ensures P (bind_p m f) Q E"
  by (fastforce simp: ensures_def bind_p_def split: prod.splits sum.splits)

lemma ensures_return: "(\<And>s. P s \<Longrightarrow> Q x s) \<Longrightarrow> ensures P (return_p x) Q E"
  by (simp add: ensures_def return_p_def)

lemma ensures_raise: "(\<And>s. P s \<Longrightarrow> E e s) \<Longrightarrow> ensures P (raise_p e) Q E"
  by (simp add: ensures_def raise_p_def)

lemma ensures_on_error:
  "ensures P m Q R \<Longrightarrow> (\<And>e. ensures (R e) (h e) Q E) \<Longrightarrow> ensures P (on_error m h) Q E"
  by (fastforce simp: ensures_def on_error_def split: prod.splits sum.splits)

lemma ensures_weaken:
  "ensures P m Q E \<Longrightarrow> (\<And>s. P' s \<Longrightarrow> P s) \<Longrightarrow> (\<And>x s. Q x s \<Longrightarrow> Q' x s) \<Longrightarrow> (\<And>e s. E e s \<Longrightarrow> E' e s) \<Longrightarrow>
   ensures P' m Q' E'"
  by (fastforce simp: ensures_def split: prod.splits sum.splits)

lemma ensures_if:
  "(b \<Longrightarrow> ensures P m Q E) \<Longrightarrow> (\<not> b \<Longrightarrow> ensures P n Q E) \<Longrightarrow> ensures P (if b then m else n) Q E"
  by simp

text \<open>The row of job \<open>i\<close> has status \<open>st\<close>; the rows of other jobs are those of \<open>t0\<close>.\<close>

definition row_is :: "string \<Rightarrow> jobs \<Rightarrow> job_status \<Rightarrow> jobs \<Rightarrow> bool" where
  "row_is i t0 st t \<longleftrightarrow> map_option j_status (job_find t i) = Some st \<and> (\<forall>k. k \<noteq> i \<longrightarrow> job_find t k = job_find t0 k)"

text \<open>The events of an item until its row settles: none while it is queued, then that it runs.\<close>

definition told :: "job_status \<Rightarrow> (string \<times> string option) list" where
  "told st = (if st = Queued then [] else [(''running'', None)])"

definition row_at :: "string \<Rightarrow> worker \<Rightarrow> job_status \<Rightarrow> worker \<Rightarrow> bool" where
  "row_at i s0 st s \<longleftrightarrow> row_is i (wk_jobs s0) st (wk_jobs s) \<and> wk_events s = wk_events s0 @ told st"

definition is_unexpected :: "pipe_error \<Rightarrow> bool" where
  "is_unexpected e \<longleftrightarrow> (\<exists>m. e = Unexpected m)"

text \<open>A failed row: its error code was told, or nothing (\<open>fail_quietly\<close>).\<close>

definition failed_at :: "string \<Rightarrow> worker \<Rightarrow> worker \<Rightarrow> bool" where
  "failed_at i s0 s \<longleftrightarrow> row_is i (wk_jobs s0) Failed (wk_jobs s) \<and> (\<exists>st row. st \<in> {Queued, Running} \<and>
     job_find (wk_jobs s) i = Some row \<and>
     (wk_events s = wk_events s0 @ told st \<or> wk_events s = wk_events s0 @ told st @ [(''failed'', j_error_code row)]))"

text \<open>
  How a pipeline may leave the row: failed, unless the exception is one that the handler of
  unexpected exceptions takes care of.
\<close>

definition left_by :: "string \<Rightarrow> worker \<Rightarrow> pipe_error \<Rightarrow> worker \<Rightarrow> bool" where
  "left_by i s0 e s \<longleftrightarrow> (if is_unexpected e then row_at i s0 Queued s \<or> row_at i s0 Running s
     else failed_at i s0 s)"

lemma note_event_simps [simp]:
  "wk_jobs (note_event st c s) = wk_jobs s" "wk_calls (note_event st c s) = wk_calls s"
  "wk_last_model (note_event st c s) = wk_last_model s" "wk_sidecars (note_event st c s) = wk_sidecars s"
  "wk_events (note_event st c s) = wk_events s @ [(st, c)]"
  by (simp_all add: note_event_def)

lemma row_at_calls [simp]: "row_at i t0 st (s\<lparr>wk_calls := c\<rparr>) = row_at i t0 st s"
  "row_at i t0 st (s\<lparr>wk_sidecars := d\<rparr>) = row_at i t0 st s"
  by (simp_all add: row_at_def)

lemma guarded_row:
  assumes "row_is i t0 st t" and "target \<in> set (allowed_transitions st)"
    and "\<And>j. j_id (f j) = j_id j" and "\<And>j. j_status (f j) = target"
  shows "\<exists>t' r j. guarded_update t i target f = Inr (t', j) \<and> row_is i t0 target t' \<and> job_find t' i = Some (f r)"
proof -
  from assms(1) obtain r where r: "job_find t i = Some r" "j_status r = st"
    by (auto simp: row_is_def)
  then show ?thesis using assms by (auto simp: guarded_update_eq row_is_def jt.find_modify)
qed

lemma failed_write:
  assumes "st \<in> {Queued, Running}" "row_is i t0 st t"
  obtains t' row r where "set_failed t i code msg now = Inr (t', r)" "row_is i t0 Failed t'"
    "job_find t' i = Some row" "j_error_code row = Some code"
proof -
  have "Failed \<in> set (allowed_transitions st)" using assms(1) by auto
  from guarded_row [OF assms(2) this, of "failed_row code msg now"] that show ?thesis
    by (fastforce simp: set_failed_def failed_row_def)
qed

lemma fail_leaves:
  assumes "st \<in> {Queued, Running}" and "\<not> is_unexpected e"
  shows "ensures (row_at (j_id j) t0 st) (fail_job w j code msg e) Q (left_by (j_id j) t0)"
    and "ensures (row_at (j_id j) t0 st) (fail_quietly w j code msg e) Q (left_by (j_id j) t0)"
proof -
  have "(case fail_job w j code msg e s of (Inl e, s') \<Rightarrow> left_by (j_id j) t0 e s' | (Inr x, s') \<Rightarrow> Q x s') \<and>
      (case fail_quietly w j code msg e s of (Inl e, s') \<Rightarrow> left_by (j_id j) t0 e s' | (Inr x, s') \<Rightarrow> Q x s')"
    if row: "row_at (j_id j) t0 st s" for s
  proof -
    from row have "row_is (j_id j) (wk_jobs t0) st (wk_jobs s)" and ev: "wk_events s = wk_events t0 @ told st"
      by (simp_all add: row_at_def)
    from failed_write [OF assms(1) this(1)] obtain t' row r where
      t: "set_failed (wk_jobs s) (j_id j) code msg (bw_t_end w) = Inr (t', r)" "row_is (j_id j) (wk_jobs t0) Failed t'"
      "job_find t' (j_id j) = Some row" "j_error_code row = Some code" by metis
    with assms ev show ?thesis by (auto simp: fail_job_def fail_quietly_def left_by_def failed_at_def)
  qed
  then show "ensures (row_at (j_id j) t0 st) (fail_job w j code msg e) Q (left_by (j_id j) t0)"
    and "ensures (row_at (j_id j) t0 st) (fail_quietly w j code msg e) Q (left_by (j_id j) t0)"
    by (simp_all add: ensures_def)
qed

lemmas fail_job_leaves = fail_leaves

lemma unexpected_leaves:
  "st \<in> {Queued, Running} \<Longrightarrow> ensures (row_at i t0 st) (raise_p (Unexpected m)) Q (left_by i t0)"
  by (rule ensures_raise) (auto simp: left_by_def is_unexpected_def)

lemma call_ensures:
  "ensures (row_at i t0 st) (call_p c r) (\<lambda>x s. r = Inr x \<and> row_at i t0 st s) (\<lambda>e s. r = Inl e \<and> row_at i t0 st s)"
  by (auto simp: ensures_def call_p_def split: sum.splits)

lemma safe_call_ensures: "ensures (row_at i t0 st) (safe_call c) (\<lambda>_. row_at i t0 st) E"
  unfolding safe_call_def by (rule ensures_weaken [OF call_ensures]) auto

lemma lift_leaves:
  "st \<in> {Queued, Running} \<Longrightarrow> ensures (row_at i t0 st) (lift_p r) (\<lambda>_. row_at i t0 st) (left_by i t0)"
  by (cases r) (auto simp: lift_p_def intro: ensures_return unexpected_leaves)

text \<open>
  What the pipelines presuppose of the backend and the storage: which exceptions each call
  raises. Uploading, waiting and fetching do not raise \<open>ComfyNodeError\<close>, unloading raises none
  of the backend's errors, only storage raises \<open>StorageError\<close>, and the write of
  \<open>set_running\<close> succeeds.
\<close>

fun unreachable_or_unexpected :: "pipe_error \<Rightarrow> bool" where
  "unreachable_or_unexpected (ComfyUnreachable _) = True"
| "unreachable_or_unexpected (Unexpected _) = True"
| "unreachable_or_unexpected _ = False"

definition backend_contract :: "backend_world \<Rightarrow> bool" where
  "backend_contract w \<longleftrightarrow> bw_running_write_ok w \<and>
     (\<forall>e. bw_upload w = Inl e \<longrightarrow> unreachable_or_unexpected e) \<and>
     (\<forall>e. bw_unload w = Inl e \<longrightarrow> is_unexpected e) \<and>
     (\<forall>e. bw_submit w = Inl e \<longrightarrow> unreachable_or_unexpected e \<or> (\<exists>m. e = ComfyNode m)) \<and>
     (\<forall>e. bw_wait w = Inl e \<longrightarrow> unreachable_or_unexpected e \<or> (\<exists>m. e = ComfyTimeout m)) \<and>
     (\<forall>e. bw_fetch w = Inl e \<longrightarrow> unreachable_or_unexpected e) \<and>
     (\<forall>e. bw_fetch_media w = Inl e \<longrightarrow> unreachable_or_unexpected e) \<and>
     (\<forall>k e. bw_put w k = Inl e \<longrightarrow> is_unexpected e \<or> (\<exists>m. e = StorageErr m))"

lemma unreachable_leaves:
  assumes "st \<in> {Queued, Running}" and "unreachable_or_unexpected e"
  shows "ensures (row_at (j_id j) t0 st) (unreachable_fails w j e) Q (left_by (j_id j) t0)"
  using assms by (cases e) (auto simp: unreachable_fails_def is_unexpected_def intro: fail_job_leaves unexpected_leaves)

lemma try_unreachable:
  assumes "st \<in> {Queued, Running}" and "\<forall>e. r = Inl e \<longrightarrow> unreachable_or_unexpected e"
  shows "ensures (row_at (j_id j) t0 st) (on_error (call_p c r) (unreachable_fails w j))
    (\<lambda>_. row_at (j_id j) t0 st) (left_by (j_id j) t0)"
proof (rule ensures_on_error)
  show "ensures (row_at (j_id j) t0 st) (call_p c r) (\<lambda>_. row_at (j_id j) t0 st) (\<lambda>e s. r = Inl e \<and> row_at (j_id j) t0 st s)"
    by (rule ensures_weaken [OF call_ensures]) auto
  show "ensures (\<lambda>s. r = Inl e \<and> row_at (j_id j) t0 st s) (unreachable_fails w j e)
      (\<lambda>_. row_at (j_id j) t0 st) (left_by (j_id j) t0)" for e
  proof (cases "r = Inl e")
    case True
    then show ?thesis using assms by (auto intro: ensures_weaken [OF unreachable_leaves])
  qed (simp add: ensures_def)
qed

section \<open>Every step keeps the row accounted for\<close>

lemma on_error_cases:
  assumes "\<And>e. r = Inl e \<Longrightarrow> ensures (row_at i t0 st) (h e) Q E"
    and "\<And>x s. r = Inr x \<Longrightarrow> row_at i t0 st s \<Longrightarrow> Q x s"
  shows "ensures (row_at i t0 st) (on_error (call_p c r) h) Q E"
proof (rule ensures_on_error)
  show "ensures (row_at i t0 st) (call_p c r) Q (\<lambda>e s. r = Inl e \<and> row_at i t0 st s)"
    by (rule ensures_weaken [OF call_ensures]) (use assms(2) in auto)
  show "ensures (\<lambda>s. r = Inl e \<and> row_at i t0 st s) (h e) Q E" for e
    using assms(1) [of e] by (cases "r = Inl e") (auto simp: ensures_def)
qed

lemma swap_guard_keeps:
  assumes "backend_contract w"
  shows "ensures (row_at (j_id j) t0 Queued) (swap_guard w j m) (\<lambda>_. row_at (j_id j) t0 Queued) (left_by (j_id j) t0)"
proof -
  have "ensures (row_at (j_id j) t0 Queued) (bind_p (call_p CUnload (bw_unload w)) (\<lambda>unloaded.
         if unloaded then return_p ()
         else bind_p (safe_call CHealth) (\<lambda>_.
           if has_swap_headroom (bw_health w) m then return_p ()
           else fail_job w j ''vram_budget_exceeded'' ''model swap refused''
                  (ComfyNode ''model swap refused''))))
      (\<lambda>_. row_at (j_id j) t0 Queued) (left_by (j_id j) t0)"
  proof (rule ensures_bind)
    show "ensures (row_at (j_id j) t0 Queued) (call_p CUnload (bw_unload w)) (\<lambda>_. row_at (j_id j) t0 Queued) (left_by (j_id j) t0)"
      by (rule ensures_weaken [OF call_ensures]) (use assms in \<open>auto simp: backend_contract_def left_by_def\<close>)
    show "ensures (row_at (j_id j) t0 Queued) (if unloaded then return_p ()
         else bind_p (safe_call CHealth) (\<lambda>_.
           if has_swap_headroom (bw_health w) m then return_p ()
           else fail_job w j ''vram_budget_exceeded'' ''model swap refused''
                  (ComfyNode ''model swap refused'')))
      (\<lambda>_. row_at (j_id j) t0 Queued) (left_by (j_id j) t0)" for unloaded
      by (intro ensures_if ensures_bind [OF safe_call_ensures] ensures_return fail_job_leaves)
        (auto simp: is_unexpected_def)
  qed
  then show ?thesis by (auto simp: ensures_def swap_guard_def split: prod.splits sum.splits)
qed

lemma submit_prompt_keeps:
  assumes "backend_contract w"
  shows "ensures (row_at (j_id j) t0 Queued) (submit_prompt w j g) (\<lambda>_. row_at (j_id j) t0 Queued) (left_by (j_id j) t0)"
  unfolding submit_prompt_def
proof (rule on_error_cases)
  fix e
  assume "bw_submit w = Inl e"
  with assms have "unreachable_or_unexpected e \<or> (\<exists>m. e = ComfyNode m)" by (auto simp: backend_contract_def)
  then show "ensures (row_at (j_id j) t0 Queued) (case e of
     ComfyUnreachable m \<Rightarrow> fail_job w j ''comfy_unreachable'' m e
   | ComfyNode m \<Rightarrow> fail_job w j ''comfy_error'' m e
   | _ \<Rightarrow> raise_p e) (\<lambda>_. row_at (j_id j) t0 Queued) (left_by (j_id j) t0)"
    by (cases e) (auto simp: is_unexpected_def intro: fail_job_leaves unexpected_leaves)
qed

lemma mark_running_keeps:
  assumes "backend_contract w"
  shows "ensures (row_at (j_id j) t0 Queued) (mark_running w j pid) (\<lambda>_. row_at (j_id j) t0 Running) (left_by (j_id j) t0)"
proof -
  have "Running \<in> set (allowed_transitions Queued)" by simp
  from guarded_row [OF _ this, of "j_id j" "wk_jobs t0" _ "running_row pid (bw_client_id w) (bw_t_running w)"] assms
  show ?thesis
    by (fastforce simp: ensures_def mark_running_def set_running_def running_row_def backend_contract_def row_at_def told_def)
qed

lemma wait_prompt_keeps:
  assumes "backend_contract w"
  shows "ensures (row_at (j_id j) t0 Running) (wait_prompt w j pid t) (\<lambda>_. row_at (j_id j) t0 Running) (left_by (j_id j) t0)"
  unfolding wait_prompt_def
proof (rule on_error_cases)
  fix e
  assume "bw_wait w = Inl e"
  with assms have "unreachable_or_unexpected e \<or> (\<exists>m. e = ComfyTimeout m)" by (auto simp: backend_contract_def)
  then show "ensures (row_at (j_id j) t0 Running) (case e of
     ComfyTimeout m \<Rightarrow> bind_p (safe_call (CCancel pid)) (\<lambda>_. bind_p (safe_call CFree) (\<lambda>_.
       fail_job w j ''comfy_timeout'' m e))
   | _ \<Rightarrow> unreachable_fails w j e) (\<lambda>_. row_at (j_id j) t0 Running) (left_by (j_id j) t0)"
    by (cases e) (auto simp: is_unexpected_def
        intro!: ensures_bind [OF safe_call_ensures] fail_job_leaves unreachable_leaves)
qed

lemma wait_timeout_keeps:
  "ensures (row_at i t0 Running) (wait_timeout w m timeout_s) (\<lambda>_. row_at i t0 Running) (left_by i t0)"
  unfolding wait_timeout_def by (auto split: option.splits intro: ensures_return unexpected_leaves)

lemma drive_backend_keeps:
  assumes "backend_contract w"
  shows "ensures (row_at (j_id j) t0 Queued) (drive_backend w j m timeout_s g) (\<lambda>_. row_at (j_id j) t0 Running) (left_by (j_id j) t0)"
  unfolding drive_backend_def
  by (intro ensures_bind [OF swap_guard_keeps] ensures_bind [OF submit_prompt_keeps] ensures_bind [OF mark_running_keeps]
      ensures_bind [OF wait_timeout_keeps] ensures_bind [OF wait_prompt_keeps] ensures_return assms)

lemma upload_init_image_keeps:
  assumes "backend_contract w"
  shows "ensures (row_at (j_id j) t0 Queued) (upload_init_image w j bytes file g) (\<lambda>_. row_at (j_id j) t0 Queued) (left_by (j_id j) t0)"
proof (cases "bytes = None \<or> bytes = Some []")
  case True
  then show ?thesis by (auto simp: upload_init_image_def intro: ensures_return)
next
  case False
  have "\<forall>e. bw_upload w = Inl e \<longrightarrow> unreachable_or_unexpected e" using assms by (simp add: backend_contract_def)
  then have "ensures (row_at (j_id j) t0 Queued) (bind_p (on_error (call_p (CUpload file) (bw_upload w)) (unreachable_fails w j))
    (\<lambda>_. lift_p (inject_init_image g file))) (\<lambda>_. row_at (j_id j) t0 Queued) (left_by (j_id j) t0)"
    by (intro ensures_bind [OF try_unreachable] lift_leaves) simp_all
  with False show ?thesis by (auto simp: upload_init_image_def split: option.split)
qed

lemma put_all_keeps:
  "ensures (row_at i t0 st) (put_all w idx items) (\<lambda>_. row_at i t0 st) (\<lambda>e s. (\<exists>k. bw_put w k = Inl e) \<and> row_at i t0 st s)"
proof (induction w idx items rule: put_all.induct)
  case (2 w idx blob ext ctype rest)
  have "ensures (row_at i t0 st) (call_p (CPut idx ext ctype blob) (bw_put w idx)) (\<lambda>_. row_at i t0 st)
      (\<lambda>e s. (\<exists>k. bw_put w k = Inl e) \<and> row_at i t0 st s)"
    by (rule ensures_weaken [OF call_ensures]) auto
  then show ?case using 2 by (auto intro!: ensures_bind ensures_return simp: split_beta)
qed (simp add: ensures_return)

lemma upload_outputs_keeps:
  assumes "backend_contract w"
  shows "ensures (row_at (j_id j) t0 Running) (upload_outputs w j items) (\<lambda>_. row_at (j_id j) t0 Running) (left_by (j_id j) t0)"
  unfolding upload_outputs_def
proof (rule ensures_on_error [OF put_all_keeps])
  fix e
  show "ensures (\<lambda>s. (\<exists>k. bw_put w k = Inl e) \<and> row_at (j_id j) t0 Running s)
    (case e of StorageErr m \<Rightarrow> fail_job w j ''storage_error'' m e | _ \<Rightarrow> raise_p e)
    (\<lambda>_. row_at (j_id j) t0 Running) (left_by (j_id j) t0)"
  proof (cases "\<exists>k. bw_put w k = Inl e")
    case True
    then have "is_unexpected e \<or> (\<exists>m. e = StorageErr m)" using assms by (auto simp: backend_contract_def)
    then have "ensures (row_at (j_id j) t0 Running)
      (case e of StorageErr m \<Rightarrow> fail_job w j ''storage_error'' m e | _ \<Rightarrow> raise_p e)
      (\<lambda>_. row_at (j_id j) t0 Running) (left_by (j_id j) t0)"
      by (auto simp: is_unexpected_def intro!: fail_job_leaves unexpected_leaves)
    then show ?thesis by (rule ensures_weaken) auto
  qed (simp add: ensures_def)
qed

text \<open>The result of a completed job is what its row stores.\<close>

definition completed_with :: "string \<Rightarrow> worker \<Rightarrow> job_result \<Rightarrow> worker \<Rightarrow> bool" where
  "completed_with i s0 r s \<longleftrightarrow> row_at i s0 Completed s \<and>
     map_option j_result_json (job_find (wk_jobs s) i) = Some (Some (result_json r))"

lemma complete_job_keeps:
  "ensures (row_at (j_id j) t0 Running) (complete_job w j m keys r) (completed_with (j_id j) t0) (left_by (j_id j) t0)"
proof -
  have "Completed \<in> set (allowed_transitions Running)" by simp
  from guarded_row [OF _ this, of "j_id j" "wk_jobs t0" _ "completed_row keys (result_json r) (bw_t_end w)"] show ?thesis
    by (fastforce simp: ensures_def complete_job_def set_completed_def completed_with_def row_at_def completed_row_def told_def)
qed

lemma check_images_keeps:
  "ensures (row_at (j_id j) t0 Running) (check_images w j tr imgs) (\<lambda>_. row_at (j_id j) t0 Running) (left_by (j_id j) t0)"
proof (induction w j tr imgs rule: check_images.induct)
  case (2 w j tr png rest)
  show ?case unfolding check_images.simps
    by (intro ensures_bind [where R = "\<lambda>_. row_at (j_id j) t0 Running"] ensures_bind [OF 2] ensures_return ensures_if)
      (auto split: option.split simp: is_unexpected_def intro: fail_job_leaves ensures_return)
qed (simp add: ensures_return)

lemma fail_unless:
  "ensures (row_at (j_id j) t0 Running) (if b then fail_job w j c m (ComfyNode m') else return_p ()) (\<lambda>_. row_at (j_id j) t0 Running)
    (left_by (j_id j) t0)"
  "ensures (row_at (j_id j) t0 Running) (if b then fail_quietly w j c m (ComfyNode m') else return_p ()) (\<lambda>_. row_at (j_id j) t0 Running)
    (left_by (j_id j) t0)"
  by (intro ensures_if fail_job_leaves ensures_return; auto simp: is_unexpected_def)+

lemma finish_images_keeps:
  assumes "backend_contract w"
  shows "ensures (row_at (j_id j) t0 Running) (finish_images w j v seed pid) (completed_with (j_id j) t0) (left_by (j_id j) t0)"
  unfolding finish_images_def using assms
  by (intro ensures_bind [OF try_unreachable] ensures_bind [OF fail_unless(1)] ensures_bind [OF fail_unless(2)] ensures_bind [OF check_images_keeps]
      ensures_bind [OF upload_outputs_keeps] complete_job_keeps) (auto simp: backend_contract_def)

lemma finish_media_keeps:
  assumes "backend_contract w"
  shows "ensures (row_at (j_id j) t0 Running) (finish_media w j m fmt seed pid) (completed_with (j_id j) t0) (left_by (j_id j) t0)"
  unfolding finish_media_def Let_def using assms
  by (intro ensures_bind [OF fail_unless(1)] ensures_bind [OF fail_unless(2)] ensures_bind [OF try_unreachable]
      ensures_bind [OF upload_outputs_keeps] complete_job_keeps) (auto simp: backend_contract_def)

lemma touch_sidecars_keeps: "ensures (row_at i t0 st) (touch_sidecars w ls) (\<lambda>_. row_at i t0 st) E"
  by (simp add: ensures_def touch_sidecars_def)

lemma revalidated_keeps:
  "ensures (row_at (j_id j) t0 Queued) (revalidated w j r) (\<lambda>_. row_at (j_id j) t0 Queued) (left_by (j_id j) t0)"
  unfolding revalidated_def
  by (auto split: sum.split validation_error.split simp: is_unexpected_def
      intro: fail_job_leaves unexpected_leaves ensures_return)

lemma workflow_fails_keeps:
  "ensures (row_at (j_id j) t0 Queued) (workflow_fails w j r) (\<lambda>_. row_at (j_id j) t0 Queued) (left_by (j_id j) t0)"
  unfolding workflow_fails_def
  by (auto split: sum.split workflow_error.split simp: is_unexpected_def
      intro: fail_job_leaves unexpected_leaves ensures_return)

lemma fail_node_leaves:
  "ensures (row_at (j_id j) t0 Queued) (fail_job w j c m (ComfyNode m')) Q (left_by (j_id j) t0)"
  "ensures (row_at (j_id j) t0 Queued) (fail_quietly w j c m (ComfyNode m')) Q (left_by (j_id j) t0)"
  by (rule fail_job_leaves; auto simp: is_unexpected_def)+

lemma queued_lift: "ensures (row_at i t0 Queued) (lift_p r) (\<lambda>_. row_at i t0 Queued) (left_by i t0)"
  by (rule lift_leaves) simp

lemma queued_raise: "ensures (row_at i t0 Queued) (raise_p (Unexpected m)) Q (left_by i t0)"
  by (rule unexpected_leaves) simp

lemmas step_keeps = ensures_bind [OF revalidated_keeps] ensures_bind [OF touch_sidecars_keeps]
  ensures_bind [OF queued_lift] ensures_bind [OF workflow_fails_keeps] ensures_bind [OF upload_init_image_keeps]
  ensures_bind [OF drive_backend_keeps] finish_images_keeps finish_media_keeps fail_node_leaves queued_raise

lemma image_pipeline_keeps:
  assumes "backend_contract w"
  shows "ensures (row_at (j_id j) t0 Queued) (image_pipeline w j raw) (completed_with (j_id j) t0) (left_by (j_id j) t0)"
  unfolding image_pipeline_def Let_def
  by (cases "bw_parse_image w raw") (simp_all, intro step_keeps assms, intro step_keeps assms)

lemma ltxv_pipeline_keeps:
  assumes "backend_contract w"
  shows "ensures (row_at (j_id j) t0 Queued) (ltxv_pipeline w j env) (completed_with (j_id j) t0) (left_by (j_id j) t0)"
  unfolding ltxv_pipeline_def bad_envelope_def Let_def
  by (auto split: option.split intro!: step_keeps assms)

lemma video_pipeline_keeps:
  assumes "backend_contract w"
  shows "ensures (row_at (j_id j) t0 Queued) (video_pipeline w j env) (completed_with (j_id j) t0) (left_by (j_id j) t0)"
  unfolding video_pipeline_def run_wan_graph_def bad_envelope_def Let_def
  by (auto split: option.split intro!: step_keeps assms)

lemma run_pipeline_keeps:
  assumes "backend_contract w"
  shows "ensures (row_at (j_id j) t0 Queued) (run_pipeline w j) (completed_with (j_id j) t0) (left_by (j_id j) t0)"
  unfolding run_pipeline_def
  by (auto split: option.split pyval.split
      intro!: step_keeps image_pipeline_keeps ltxv_pipeline_keeps video_pipeline_keeps assms)

section \<open>Properties\<close>

lemma item_ends:
  assumes "backend_contract w" and "job_find (wk_jobs s) (j_id j) = Some row" and "j_status row = Queued"
    and "process_item w j s = (outcome, s')"
  shows "\<exists>row'. job_find (wk_jobs s') (j_id j) = Some row' \<and>
    (\<forall>k. k \<noteq> j_id j \<longrightarrow> job_find (wk_jobs s') k = job_find (wk_jobs s) k) \<and>
    (case outcome of
       Resolved r \<Rightarrow> j_status row' = Completed \<and> j_result_json row' = Some (result_json r) \<and>
         wk_events s' = wk_events s @ [(''running'', None), (''completed'', None)]
     | Rejected e \<Rightarrow> j_status row' = Failed \<and> (\<exists>st. st \<in> {Queued, Running} \<and>
         wk_events s' \<in> (\<lambda>fs. wk_events s @ told st @ fs @ [(''failed'', Some (error_class e))]) `
           (if is_unexpected e then {[]} else {[], [(''failed'', j_error_code row')]}))
     | LoopDies \<Rightarrow> False)"
proof -
  let ?i = "j_id j"
  have "row_at ?i s Queued s" using assms(2,3) by (simp add: row_at_def row_is_def told_def)
  from ensuresD [OF run_pipeline_keeps [OF assms(1)] this] have run: "case run_pipeline w j s of
      (Inl e, s') \<Rightarrow> left_by ?i s e s' | (Inr r, s') \<Rightarrow> completed_with ?i s r s'" .
  obtain r s1 where r: "run_pipeline w j s = (r, s1)" by (cases "run_pipeline w j s")
  show ?thesis
  proof (cases r)
    case (Inr x)
    with r assms(4) have o: "outcome = Resolved x" "s' = note_event ''completed'' None s1" by (simp_all add: process_item_def)
    have "completed_with ?i s x s1" using run r Inr by simp
    then show ?thesis by (auto simp: o completed_with_def row_at_def row_is_def told_def)
  next
    case (Inl e)
    then have left: "left_by ?i s e s1" using run r by simp
    show ?thesis
    proof (cases "is_unexpected e")
      case True
      then obtain m where e: "e = Unexpected m" by (auto simp: is_unexpected_def)
      from left True obtain st where st: "row_at ?i s st s1" "st \<in> {Queued, Running}"
        by (auto simp: left_by_def)
      then have "row_is ?i (wk_jobs s) st (wk_jobs s1)" and ev: "wk_events s1 = wk_events s @ told st"
        by (simp_all add: row_at_def)
      from failed_write [OF st(2) this(1)] obtain t row' k where
        t: "set_failed (wk_jobs s1) ?i ''internal'' m (bw_t_end w) = Inr (t, k)" "row_is ?i (wk_jobs s) Failed t"
        "job_find t ?i = Some row'" by metis
      then have "outcome = Rejected e" "s' = note_event ''failed'' (Some ''internal'') (s1\<lparr>wk_jobs := t\<rparr>)"
        using assms(4) r Inl e by (auto simp: process_item_def)
      with t ev st(2) e show ?thesis by (auto simp: row_is_def told_def error_class_def)
    next
      case False
      with r Inl assms(4) have "outcome = Rejected e" "s' = note_event ''failed'' (Some (error_class e)) s1"
        by (cases e; auto simp: process_item_def is_unexpected_def)+
      with left False show ?thesis by (auto simp: left_by_def failed_at_def row_is_def)
    qed
  qed
qed

lemma item_settles:
  assumes "backend_contract w" and "job_find (wk_jobs s) (j_id j) = Some row" and "j_status row = Queued"
    and "process_item w j s = (outcome, s')"
  shows "(case outcome of
       Resolved r \<Rightarrow> \<exists>row'. job_find (wk_jobs s') (j_id j) = Some row' \<and> j_status row' = Completed \<and>
         j_result_json row' = Some (result_json r)
     | Rejected e \<Rightarrow> \<exists>row'. job_find (wk_jobs s') (j_id j) = Some row' \<and> j_status row' = Failed
     | LoopDies \<Rightarrow> False) \<and>
    (\<forall>k. k \<noteq> j_id j \<longrightarrow> job_find (wk_jobs s') k = job_find (wk_jobs s) k)"
  using item_ends [OF assms] by (auto split: item_end.splits)



text \<open>The log of calls only grows.\<close>

definition extends :: "'a pipe \<Rightarrow> bool" where
  "extends m \<longleftrightarrow> (\<forall>s. prefix (wk_calls s) (wk_calls (snd (m s))))"

lemma extends_bind: "extends m \<Longrightarrow> (\<And>x. extends (f x)) \<Longrightarrow> extends (bind_p m f)"
  unfolding extends_def bind_p_def
  by (auto split: prod.split sum.split) (metis prefix_order.trans snd_conv)+

lemma extends_on_error: "extends m \<Longrightarrow> (\<And>e. extends (h e)) \<Longrightarrow> extends (on_error m h)"
  unfolding extends_def on_error_def
  by (auto split: prod.split sum.split) (metis prefix_order.trans snd_conv)+

lemma extends_basic [simp]:
  "extends (return_p x)" "extends (raise_p e)" "extends (call_p c r)" "extends (safe_call c)"
  "extends (fail_job w j code msg e)"
  by (auto simp: extends_def return_p_def raise_p_def call_p_def safe_call_def fail_job_def split: sum.split)

lemma extends_steps:
  "extends (unreachable_fails w j e)" "extends (submit_prompt w j g)" "extends (mark_running w j pid)"
  "extends (wait_timeout w m t)" "extends (wait_prompt w j pid t')"
proof -
  show u: "extends (unreachable_fails w j e)" for e
    by (auto simp: unreachable_fails_def split: pipe_error.split)
  show "extends (submit_prompt w j g)" unfolding submit_prompt_def
    by (intro extends_on_error) (auto split: pipe_error.split)
  show "extends (wait_timeout w m t)" by (auto simp: wait_timeout_def split: option.split)
  show "extends (wait_prompt w j pid t')" unfolding wait_prompt_def
    by (intro extends_on_error) (auto split: pipe_error.split intro!: extends_bind u)
  have "extends (bind_p (safe_call (CCancel pid)) (\<lambda>_. raise_p (ComfyNode ''set_running failed'')) :: unit pipe)"
    by (intro extends_bind) simp_all
  then show "extends (mark_running w j pid)"
    by (auto simp: mark_running_def extends_def split: sum.split)
qed

definition after_swap :: "backend_world \<Rightarrow> job \<Rightarrow> model_config \<Rightarrow> rat option \<Rightarrow> graph \<Rightarrow> string pipe" where
  "after_swap w j m timeout_s g = bind_p (submit_prompt w j g) (\<lambda>prompt_id.
     bind_p (mark_running w j prompt_id) (\<lambda>_. bind_p (wait_timeout w m timeout_s) (\<lambda>t.
     bind_p (wait_prompt w j prompt_id t) (\<lambda>_. return_p prompt_id))))"

lemma drive_after_swap: "drive_backend w j m ts g = bind_p (swap_guard w j m) (\<lambda>_. after_swap w j m ts g)"
  by (simp add: drive_backend_def after_swap_def)

lemma extends_after_swap: "extends (after_swap w j m ts g)"
  unfolding after_swap_def by (intro extends_bind extends_steps) simp

lemma swap_guard_other:
  assumes "swap_guard w j m s = (r, s1)" and "wk_last_model s = Some old" and "old \<noteq> mc_name m"
  shows "\<exists>cs. wk_calls s1 = wk_calls s @ CUnload # cs \<and> set cs \<subseteq> {CHealth}"
    and "r = Inr () \<Longrightarrow> bw_unload w = Inr True \<or> bw_unload w = Inr False \<and> has_swap_headroom (bw_health w) m"
  using assms by (auto simp: swap_guard_def bind_p_def call_p_def safe_call_def return_p_def fail_job_def
      split: sum.splits if_splits)


section \<open>Invariants of a run\<close>

text \<open>
  A predicate of the worker's state that survives every write and call a pipeline makes, apart
  from the two that drive the prompt (submit and wait) and the write of \<open>set_running\<close>. A pipeline
  then has a property as soon as \<open>drive_backend\<close> has it.
\<close>

fun drives :: "call \<Rightarrow> bool" where
  "drives (CSubmit _) = True"
| "drives (CWait _ _) = True"
| "drives _ = False"

definition keeps :: "(worker \<Rightarrow> bool) \<Rightarrow> 'a pipe \<Rightarrow> bool" where
  "keeps P m \<longleftrightarrow> ensures P m (\<lambda>_. P) (\<lambda>_. P)"

lemma keepsD: "keeps P m \<Longrightarrow> ensures P m (\<lambda>_. P) (\<lambda>_. P)"
  by (simp add: keeps_def)

lemma keeps_bind: "keeps P m \<Longrightarrow> (\<And>x. keeps P (f x)) \<Longrightarrow> keeps P (bind_p m f)"
  unfolding keeps_def by (rule ensures_bind)

lemma keeps_on_error: "keeps P m \<Longrightarrow> (\<And>e. keeps P (h e)) \<Longrightarrow> keeps P (on_error m h)"
  unfolding keeps_def by (rule ensures_on_error)

lemma keeps_if: "(b \<Longrightarrow> keeps P m) \<Longrightarrow> (\<not> b \<Longrightarrow> keeps P m') \<Longrightarrow> keeps P (if b then m else m')"
  by simp

lemma keeps_state_if: "keeps P m \<Longrightarrow> keeps P (\<lambda>s. if c s then m s else (Inr x, s))"
  by (simp add: keeps_def ensures_def)

lemma keeps_basic [simp]: "keeps P (return_p x)" "keeps P (raise_p e)" "keeps P (lift_p r)"
  by (auto simp: keeps_def lift_p_def intro: ensures_return ensures_raise split: sum.split)

locale run_invariant =
  fixes P :: "worker \<Rightarrow> bool" and j :: job
  assumes call: "\<not> drives c \<Longrightarrow> P s \<Longrightarrow> P (s\<lparr>wk_calls := wk_calls s @ [c]\<rparr>)"
    and failed: "set_failed (wk_jobs s) (j_id j) code msg now = Inr (t, r) \<Longrightarrow> P s \<Longrightarrow> P (s\<lparr>wk_jobs := t\<rparr>)"
    and completed: "set_completed (wk_jobs s) (j_id j) keys res now = Inr (t, r) \<Longrightarrow> P s \<Longrightarrow>
      P (s\<lparr>wk_jobs := t, wk_last_model := lm\<rparr>)"
    and sidecars: "P s \<Longrightarrow> P (s\<lparr>wk_sidecars := d\<rparr>)"
    and events: "P s \<Longrightarrow> P (s\<lparr>wk_events := v\<rparr>)"
begin

lemma keeps_call: "\<not> drives c \<Longrightarrow> keeps P (call_p c r)"
  by (auto simp: keeps_def ensures_def call_p_def call split: sum.split)

lemma keeps_safe: "\<not> drives c \<Longrightarrow> keeps P (safe_call c)"
  by (simp add: safe_call_def keeps_call)

lemma keeps_fail [simp]: "keeps P (fail_job w j code msg e)" "keeps P (fail_quietly w j code msg e)"
  by (auto simp: keeps_def ensures_def fail_job_def fail_quietly_def note_event_def failed events split: sum.split)

lemma keeps_fails [simp]:
  "keeps P (unreachable_fails w j e)" "keeps P (revalidated w j v)" "keeps P (workflow_fails w j g)"
  "keeps P (bad_envelope w j)"
  by (auto simp: unreachable_fails_def revalidated_def workflow_fails_def bad_envelope_def
      split: pipe_error.split sum.split validation_error.split workflow_error.split)

lemma keeps_touch: "keeps P (touch_sidecars w ls)"
  by (simp add: keeps_def ensures_def touch_sidecars_def sidecars)

lemma keeps_try: "\<not> drives c \<Longrightarrow> keeps P (on_error (call_p c r) (unreachable_fails w j))"
  by (intro keeps_on_error keeps_call) simp_all

lemma keeps_swap: "keeps P (swap_guard w j m)"
  unfolding swap_guard_def
  by (intro keeps_state_if keeps_bind keeps_if keeps_call keeps_safe) simp_all

lemma keeps_upload: "keeps P (upload_init_image w j bytes file g)"
  by (auto simp: upload_init_image_def intro!: keeps_bind keeps_try split: option.split)

lemma keeps_put: "keeps P (put_all w idx items)"
  by (induction w idx items rule: put_all.induct) (auto intro!: keeps_bind keeps_call)

lemma keeps_outputs: "keeps P (upload_outputs w j items)"
  unfolding upload_outputs_def
  by (intro keeps_on_error keeps_put) (auto split: pipe_error.split)

lemma keeps_complete: "keeps P (complete_job w j m keys r)"
  by (auto simp: keeps_def ensures_def complete_job_def completed split: sum.split)

lemma keeps_check: "keeps P (check_images w j tr imgs)"
  by (induction imgs) (auto intro!: keeps_bind split: option.split)

lemma keeps_finish: "keeps P (finish_images w j v seed pid)" "keeps P (finish_media w j m fmt seed pid)"
  unfolding finish_images_def finish_media_def Let_def
  by (intro keeps_bind keeps_if keeps_try keeps_check keeps_outputs keeps_complete; simp)+

lemma keeps_then:
  "keeps P m \<Longrightarrow> (\<And>x. ensures P (f x) Q E) \<Longrightarrow> (\<And>e s. P s \<Longrightarrow> E e s) \<Longrightarrow> ensures P (bind_p m f) Q E"
  by (rule ensures_bind [where R = "\<lambda>_. P"]) (auto intro: ensures_weaken [OF keepsD])

lemma keeps_fail_stops:
  assumes "\<And>e s. P s \<Longrightarrow> E e s"
  shows "ensures P (fail_job w j code msg e) Q E" "ensures P (fail_quietly w j code msg e) Q E"
  using assms by (auto simp: ensures_def fail_job_def fail_quietly_def note_event_def failed events split: sum.split)

text \<open>From the driving of the backend to the whole pipeline.\<close>

lemma run_with:
  assumes drive: "\<And>m ts g. ensures P (drive_backend w j m ts g) (\<lambda>_. Q) E"
    and fin: "\<And>v seed pid. ensures Q (finish_images w j v seed pid) R E"
      "\<And>m fmt seed pid. ensures Q (finish_media w j m fmt seed pid) R E"
    and err: "\<And>e s. P s \<Longrightarrow> E e s"
  shows "ensures P (run_pipeline w j) R E"
proof -
  note steps = keeps_then [OF keeps_fails(2) _ err] keeps_then [OF keeps_touch _ err] keeps_then [OF keeps_basic(3) _ err]
    keeps_then [OF keeps_fails(3) _ err] keeps_then [OF keeps_upload _ err] keeps_fail_stops [OF err]
    ensures_bind [OF drive] fin ensures_raise [OF err]
  have "ensures P (image_pipeline w j raw) R E" for raw
    unfolding image_pipeline_def Let_def by (auto split: option.split intro!: steps)
  moreover have "ensures P (ltxv_pipeline w j env) R E" for env
    unfolding ltxv_pipeline_def bad_envelope_def Let_def by (auto split: option.split intro!: steps)
  moreover have "ensures P (video_pipeline w j env) R E" for env
    unfolding video_pipeline_def run_wan_graph_def bad_envelope_def Let_def by (auto split: option.split intro!: steps)
  ultimately show ?thesis
    unfolding run_pipeline_def by (auto split: option.split pyval.split intro!: steps)
qed

end
text \<open>No wait has been started yet.\<close>

definition no_wait :: "worker \<Rightarrow> bool" where
  "no_wait s \<longleftrightarrow> (\<forall>p t. CWait p t \<notin> set (wk_calls s))"

text \<open>The prompt \<open>pid\<close> is recorded in the row of the job, or its cancellation was requested.\<close>

definition tracked :: "string \<Rightarrow> string \<Rightarrow> worker \<Rightarrow> bool" where
  "tracked i pid s \<longleftrightarrow> CCancel pid \<in> set (wk_calls s) \<or>
     (\<exists>row. job_find (wk_jobs s) i = Some row \<and> j_prompt_id row = Some pid)"

definition submits_tracked :: "string \<Rightarrow> string \<Rightarrow> worker \<Rightarrow> bool" where
  "submits_tracked i pid s \<longleftrightarrow> (\<exists>g. CSubmit g \<in> set (wk_calls s)) \<longrightarrow> tracked i pid s"

interpretation nw: run_invariant no_wait j for j
  by unfold_locales (auto simp: no_wait_def)

lemma guarded_prompt:
  assumes "guarded_update t0 i target f = Inr (t, r)" and "job_find t0 i = Some row"
    and "\<And>j. j_id (f j) = j_id j" and "\<And>j. j_prompt_id (f j) = j_prompt_id j"
  shows "\<exists>row'. job_find t i = Some row' \<and> j_prompt_id row' = j_prompt_id row"
  using assms by (auto simp: guarded_update_eq jt.find_modify split: if_splits)

interpretation st: run_invariant "submits_tracked (j_id j) pid" j for j pid
proof
  show "submits_tracked (j_id j) pid (s\<lparr>wk_calls := wk_calls s @ [c]\<rparr>)"
    if "\<not> drives c" "submits_tracked (j_id j) pid s" for c s
    using that by (auto simp: submits_tracked_def tracked_def)
  show "submits_tracked (j_id j) pid (s\<lparr>wk_jobs := t\<rparr>)"
    if "set_failed (wk_jobs s) (j_id j) code msg now = Inr (t, r)" "submits_tracked (j_id j) pid s"
    for s code msg now t r
    using that guarded_prompt [of "wk_jobs s" "j_id j" Failed "failed_row code msg now" t r]
    by (fastforce simp: submits_tracked_def tracked_def set_failed_def failed_row_def)
  show "submits_tracked (j_id j) pid (s\<lparr>wk_jobs := t, wk_last_model := lm\<rparr>)"
    if "set_completed (wk_jobs s) (j_id j) keys res now = Inr (t, r)" "submits_tracked (j_id j) pid s"
    for s keys res now t r lm
    using that guarded_prompt [of "wk_jobs s" "j_id j" Completed "completed_row keys res now" t r]
    by (fastforce simp: submits_tracked_def tracked_def set_completed_def completed_row_def)
qed (auto simp: submits_tracked_def tracked_def)

lemma set_running_row:
  assumes "set_running t i pid cid now = Inr (t', r)"
  shows "\<exists>row. job_find t' i = Some row \<and> j_status row = Running \<and> j_prompt_id row = Some pid"
proof -
  have id: "\<And>k. j_id (running_row pid cid now k) = j_id k" by (simp add: running_row_def)
  from assms obtain k where "job_find t i = Some k" "t' = job_modify i (running_row pid cid now) t"
    by (auto simp: set_running_def guarded_update_eq split: option.splits if_splits)
  then show ?thesis using jt.find_modify [of "running_row pid cid now", OF id] by (simp add: running_row_def)
qed

lemma drive_tracks:
  assumes "bw_submit w = Inr pid"
  shows "ensures (submits_tracked (j_id j) pid) (drive_backend w j m ts g) (\<lambda>_. submits_tracked (j_id j) pid)
    (\<lambda>_. submits_tracked (j_id j) pid)"
proof -
  let ?P = "submits_tracked (j_id j) pid"
  have run: "ensures (\<lambda>_. True) (mark_running w j pid) (\<lambda>_. tracked (j_id j) pid) (\<lambda>_. tracked (j_id j) pid)"
    using set_running_row by (fastforce simp: ensures_def mark_running_def tracked_def
        bind_p_def safe_call_def call_p_def raise_p_def split: sum.splits if_splits)
  have imp: "\<And>s. tracked (j_id j) pid s \<Longrightarrow> ?P s" by (simp add: submits_tracked_def)
  have wait: "ensures ?P (bind_p (wait_timeout w m ts) (\<lambda>t. bind_p (wait_prompt w j pid t) (\<lambda>_. return_p pid)))
      (\<lambda>_. ?P) (\<lambda>_. ?P)"
  proof -
    have "keeps ?P (call_p (CWait pid t) (bw_wait w))" for t
      by (auto simp: keeps_def ensures_def call_p_def submits_tracked_def tracked_def split: sum.split)
    then have "keeps ?P (wait_prompt w j pid t)" for t
      unfolding wait_prompt_def
      by (intro keeps_on_error) (auto split: pipe_error.split intro!: keeps_bind st.keeps_safe)
    moreover have "keeps ?P (wait_timeout w m ts)" by (auto simp: wait_timeout_def split: option.split)
    ultimately show ?thesis by (intro keepsD keeps_bind) auto
  qed
  have submit: "submit_prompt w j g = call_p (CSubmit g) (Inr pid)"
    by (simp add: submit_prompt_def assms on_error_def call_p_def)
  have "ensures ?P (bind_p (mark_running w j pid) (\<lambda>_. bind_p (wait_timeout w m ts) (\<lambda>t.
      bind_p (wait_prompt w j pid t) (\<lambda>_. return_p pid)))) (\<lambda>_. ?P) (\<lambda>_. ?P)"
    by (rule ensures_bind [OF ensures_weaken [OF run] wait]) (auto intro: imp)
  moreover have "ensures (\<lambda>_. True) (bind_p (mark_running w j pid) (\<lambda>_. bind_p (wait_timeout w m ts) (\<lambda>t.
      bind_p (wait_prompt w j pid t) (\<lambda>_. return_p pid)))) (\<lambda>_. ?P) (\<lambda>_. ?P)"
    by (rule ensures_bind [OF ensures_weaken [OF run] wait]) (auto intro: imp)
  ultimately have "ensures ?P (after_swap w j m ts g) (\<lambda>_. ?P) (\<lambda>_. ?P)"
    unfolding after_swap_def submit
    by (intro ensures_bind [where R = "\<lambda>x s. x = pid"])
      (auto simp: ensures_def call_p_def)
  then show ?thesis
    unfolding drive_after_swap by (intro ensures_bind [OF keepsD [OF st.keeps_swap]])
qed

text \<open>
  C8: No prompt is lost: whatever happens to a queue item, once a graph was submitted and the
  backend answered with a prompt id, that id is in the job's row, where recovery and
  cancellation find it, or its cancellation was requested.
\<close>

theorem submitted_prompt_tracked:
  assumes "process_item w j s = (outcome, s')" and "bw_submit w = Inr pid"
    and "wk_calls s = []" and "CSubmit g \<in> set (wk_calls s')"
  shows "CCancel pid \<in> set (wk_calls s') \<or>
    (\<exists>row. get_by_id (wk_jobs s') (j_id j) = Some row \<and> j_prompt_id row = Some pid)"
proof -
  let ?P = "submits_tracked (j_id j) pid"
  have "ensures ?P (run_pipeline w j) (\<lambda>_. ?P) (\<lambda>_. ?P)"
    by (rule st.run_with [OF drive_tracks [OF assms(2)] keepsD [OF st.keeps_finish(1)] keepsD [OF st.keeps_finish(2)]])
  moreover have "?P s" using assms(3) by (simp add: submits_tracked_def)
  ultimately have "?P (snd (run_pipeline w j s))" by (auto dest: ensuresD split: prod.splits sum.splits)
  then have "?P s'" using assms(1) st.failed st.events
    by (auto simp: process_item_def note_event_def split: prod.splits sum.splits pipe_error.splits)
  then show ?thesis using assms(4) by (auto simp: submits_tracked_def tracked_def get_by_id_def)
qed

text \<open>The backend reports a node error of a running prompt, on waiting or on fetching.\<close>

definition reports_node_error :: "backend_world \<Rightarrow> string \<Rightarrow> bool" where
  "reports_node_error w msg \<longleftrightarrow> bw_wait w = Inl (ComfyNode msg) \<or>
     (bw_wait w = Inr () \<and> bw_has_fetch_media w \<and> bw_fetch w = Inl (ComfyNode msg) \<and>
      bw_fetch_media w = Inl (ComfyNode msg))"

lemma node_error_strands:
  assumes "reports_node_error w msg"
  shows "ensures no_wait (run_pipeline w j) (\<lambda>_ _. False) (\<lambda>e s. no_wait s \<or> e = ComfyNode msg \<and>
    (\<exists>row. job_find (wk_jobs s) (j_id j) = Some row \<and> j_status row = Running))"
    (is "ensures _ _ _ ?E")
proof -
  let ?run = "\<lambda>s. \<exists>row. job_find (wk_jobs s) (j_id j) = Some row \<and> j_status row = Running"
  let ?R = "\<lambda>s. no_wait s \<and> ?run s"
  have run: "ensures no_wait (mark_running w j pid) (\<lambda>_. ?R) ?E" for pid
    using set_running_row by (fastforce simp: ensures_def mark_running_def no_wait_def
        bind_p_def safe_call_def call_p_def raise_p_def split: sum.splits if_splits)
  have timeout: "ensures ?R (wait_timeout w m ts) (\<lambda>_. ?R) ?E" for m ts
    by (auto simp: wait_timeout_def intro: ensures_return ensures_raise split: option.split)
  have wait: "ensures ?R (wait_prompt w j pid t) (\<lambda>_ s. bw_wait w = Inr () \<and> ?run s) ?E" for pid t
    using assms by (auto simp: reports_node_error_def ensures_def wait_prompt_def on_error_def call_p_def
        unreachable_fails_def raise_p_def)
  have submit: "ensures no_wait (submit_prompt w j g) (\<lambda>_. no_wait) ?E" for g
    unfolding submit_prompt_def
    by (rule ensures_on_error [where R = "\<lambda>_. no_wait"])
      (auto simp: ensures_def call_p_def no_wait_def raise_p_def fail_job_def split: sum.split pipe_error.split)
  have swap: "ensures no_wait (swap_guard w j m) (\<lambda>_. no_wait) ?E" for m
    by (rule ensures_weaken [OF keepsD [OF nw.keeps_swap]]) auto
  have "ensures no_wait (drive_backend w j m ts g) (\<lambda>_ s. bw_wait w = Inr () \<and> ?run s) ?E" for m ts g
    unfolding drive_backend_def
    by (intro ensures_bind [OF swap] ensures_bind [OF submit] ensures_bind [OF run] ensures_bind [OF timeout]
        ensures_bind [OF wait] ensures_return) simp
  then show ?thesis
  proof (rule nw.run_with)
    show "ensures (\<lambda>s. bw_wait w = Inr () \<and> ?run s) (finish_images w j v seed pid) (\<lambda>_ _. False) ?E" for v seed pid
      using assms by (auto simp: reports_node_error_def ensures_def finish_images_def bind_p_def on_error_def call_p_def
          unreachable_fails_def raise_p_def)
    show "ensures (\<lambda>s. bw_wait w = Inr () \<and> ?run s) (finish_media w j m fmt seed pid) (\<lambda>_ _. False) ?E" for m fmt seed pid
      using assms by (auto simp: reports_node_error_def ensures_def finish_media_def bind_p_def on_error_def call_p_def
          unreachable_fails_def raise_p_def return_p_def)
  qed simp
qed

text \<open>
  A failed execution strands the job: when waiting for a submitted prompt or fetching its
  outputs raises \<open>ComfyNodeError\<close>, the caller gets that exception and the row stays running,
  although \<open>_process_one\<close> takes it to be recorded; it keeps its place in the queue's count.
\<close>

theorem node_error_leaves_running:
  assumes "process_item w j s = (outcome, s')" and "reports_node_error w msg"
    and "wk_calls s = []" and "CWait pid t \<in> set (wk_calls s')"
  shows "outcome = Rejected (ComfyNode msg) \<and>
    (\<exists>row. get_by_id (wk_jobs s') (j_id j) = Some row \<and> j_status row = Running) \<and> 0 < count_active (wk_jobs s')"
proof -
  have "no_wait s" using assms(3) by (simp add: no_wait_def)
  note left = ensuresD [OF node_error_strands [OF assms(2)] this, of j]
  obtain r s1 where r: "run_pipeline w j s = (r, s1)" by (cases "run_pipeline w j s")
  with left obtain e where e: "r = Inl e" by (cases r) auto
  have calls: "wk_calls s' = wk_calls s1" using assms(1) r e
    by (auto simp: process_item_def split: pipe_error.splits sum.splits)
  have "\<not> no_wait s1" using assms(4) calls by (auto simp: no_wait_def)
  with left r e obtain row where row: "e = ComfyNode msg" "job_find (wk_jobs s1) (j_id j) = Some row" "j_status row = Running"
    by auto
  then have o: "outcome = Rejected (ComfyNode msg)" "wk_jobs s' = wk_jobs s1" using assms(1) r e by (auto simp: process_item_def)
  have "row \<in> set (wk_jobs s1)" using row(2) by (rule jt.find_member [THEN conjunct1])
  then have "0 < count_active (wk_jobs s1)" using row(3) by (auto simp: count_active_def filter_empty_conv)
  with row o show ?thesis by (simp add: get_by_id_def)
qed

section \<open>An example run\<close>

definition demo_node :: "string \<Rightarrow> string \<Rightarrow> pydict \<Rightarrow> pyval" where
  "demo_node cls title ins = VDict [(''class_type'', VStr cls), (''inputs'', VDict ins),
     (''_meta'', VDict [(''title'', VStr title)])]"

definition demo_graph :: pyval where
  "demo_graph = VDict [
     (''1'', demo_node ''CheckpointLoaderSimple'' ''%MODEL_SOURCE%,%CLIP_SOURCE%'' []),
     (''2'', demo_node ''CLIPTextEncode'' ''%POSITIVE_PROMPT%'' []),
     (''3'', demo_node ''CLIPTextEncode'' ''%NEGATIVE_PROMPT%'' []),
     (''4'', demo_node ''KSampler'' ''%KSAMPLER%'' [(''model'', VList [VStr ''1'', VInt 0])])]"

definition demo_world :: backend_world where
  "demo_world = \<lparr>bw_parse_image = (\<lambda>_. Some (demo_request\<lparr>gr_loras := None\<rparr>)), bw_parse_video = (\<lambda>_. None),
     bw_vworld = demo_vworld, bw_sidecar = demo_sidecar_world, bw_registry = [(''m'', demo_model ''sdxl'')],
     bw_read_workflow = (\<lambda>_. FileText (Some demo_graph)), bw_random_seed = 11, bw_upload = Inr (),
     bw_unload = Inr True, bw_health = None, bw_submit = Inr ''p1'', bw_client_id = ''c1'',
     bw_running_write_ok = True, bw_wait = Inr (), bw_fetch = Inr [png_magic @ ''data''],
     bw_has_fetch_media = True, bw_fetch_media = Inr [], bw_transparent = Some, bw_has_blob_upload = True,
     bw_put = (\<lambda>k. Inr (''b'', show_nat k)), bw_t_running = 20, bw_t_end = 30, bw_duration_ms = 5,
     bw_job_timeout_s = 60, bw_public_base_url = ''https://s''\<rparr>"

definition demo_job :: job where
  "demo_job = hd demo_created"

definition demo_worker :: worker where
  "demo_worker = \<lparr>wk_jobs = demo_created, wk_last_model = Some ''old'', wk_calls = [], wk_sidecars = (\<lambda>_. FileMissing),
     wk_events = []\<rparr>"

fun is_submit :: "call \<Rightarrow> bool" where
  "is_submit (CSubmit _) = True" | "is_submit _ = False"

fun is_wait :: "call \<Rightarrow> bool" where
  "is_wait (CWait _ _) = True" | "is_wait _ = False"

lemma demo_run:
  "case process_item demo_world demo_job demo_worker of (out, s') \<Rightarrow>
     (case out of Resolved r \<Rightarrow> jr_resolved_seed r = 3 | _ \<Rightarrow> False) \<and> list_ex is_submit (wk_calls s') \<and>
     CCancel ''p1'' \<notin> set (wk_calls s')"
  by code_simp

lemma demo_row: "\<exists>row. job_find (wk_jobs demo_worker) (j_id demo_job) = Some row \<and> j_status row = Queued"
  by (simp add: demo_worker_def demo_job_def demo_defs)

lemma demo_calls: "wk_calls demo_worker = []" "wk_last_model demo_worker = Some ''old''"
  by (simp_all add: demo_worker_def)


definition demo_unreachable :: backend_world where
  "demo_unreachable = demo_world\<lparr>bw_submit := Inl (ComfyUnreachable ''down'')\<rparr>"

text \<open>The double count, and the property at the same input.\<close>

lemma failure_counted_twice: "wk_events (snd (process_item demo_unreachable demo_job demo_worker)) =
  [(''failed'', Some ''comfy_unreachable''), (''failed'', Some ''comfyunreachableerror'')]"
  by code_simp



theorem submitted_prompt_tracked_witness:
  "case process_item demo_world demo_job demo_worker of (out, s') \<Rightarrow>
     \<exists>row. get_by_id (wk_jobs s') (j_id demo_job) = Some row \<and> j_prompt_id row = Some ''p1''"
proof -
  obtain out s' where o: "process_item demo_world demo_job demo_worker = (out, s')" by fastforce
  with demo_run have "list_ex is_submit (wk_calls s')" "CCancel ''p1'' \<notin> set (wk_calls s')" by auto
  moreover from this obtain g where "CSubmit g \<in> set (wk_calls s')"
    by (auto simp: list_ex_iff elim!: is_submit.elims)
  moreover have "bw_submit demo_world = Inr ''p1''" by (simp add: demo_world_def)
  ultimately show ?thesis using submitted_prompt_tracked [OF o _ demo_calls(1)] by (auto simp: o)
qed

definition demo_node_error :: backend_world where
  "demo_node_error = demo_world\<lparr>bw_wait := Inl (ComfyNode ''OOM'')\<rparr>"

theorem node_error_leaves_running_witness:
  "case process_item demo_node_error demo_job demo_worker of (out, s') \<Rightarrow>
     out = Rejected (ComfyNode ''OOM'') \<and>
     (\<exists>row. get_by_id (wk_jobs s') (j_id demo_job) = Some row \<and> j_status row = Running)"
proof -
  have w: "case process_item demo_node_error demo_job demo_worker of (out, s') \<Rightarrow> list_ex is_wait (wk_calls s')"
    by code_simp
  obtain out s' where o: "process_item demo_node_error demo_job demo_worker = (out, s')" by fastforce
  with w obtain pid t where "CWait pid t \<in> set (wk_calls s')"
    by (auto simp: list_ex_iff elim!: is_wait.elims)
  moreover have "reports_node_error demo_node_error ''OOM''" by (simp add: reports_node_error_def demo_node_error_def)
  ultimately show ?thesis using node_error_leaves_running [OF o _ demo_calls(1)] by (simp add: o)
qed

end
