(* ===== verification/Comfyui.thy ===== *)
theory Comfyui
  imports Queue_Worker
begin

text \<open>
  \<open>app/backends/comfyui.py\<close>: the adapter that submits prompts to ComfyUI, waits for them over
  a websocket with \<open>/history\<close> polling as the fallback, and collects their outputs. The state is
  the clock, the log of what the adapter did, and the registry of pending prompts. What
  ComfyUI answers and how long it takes is the \<open>comfy_net\<close>. A loop that might not end is a
  \<open>partial_function (option)\<close>, \<open>None\<close> being that it never returns.
\<close>

section \<open>The network, the clock and the adapter\<close>

text \<open>A response; \<open>ht_json\<close> is \<open>None\<close> when \<open>resp.json()\<close> raises \<open>ValueError\<close>.\<close>

record http_response =
  ht_status :: int
  ht_text :: string
  ht_json :: json_text

text \<open>\<open>httpx.ConnectError\<close>, any other \<open>httpx.HTTPError\<close>, or a response.\<close>

datatype http_answer = ConnectError string | TransportError string | Answered http_response

datatype comfy_request =
    PostPrompt graph
  | PostUpload string string
  | GetHistory string
  | GetView pyval pyval pyval
  | GetQueue
  | PostInterrupt
  | PostDelete string
  | PostFree
  | GetStats

datatype comfy_event = EvHttp comfy_request | EvSleep rat | EvConnect | EvWait rat

text \<open>How \<open>asyncio.wait\<close> ends: the future is done, only the reader is, or the time is up.\<close>

datatype wait_end = FutureDone | ReaderDone | TimeIsUp

text \<open>
  Each answer depends on everything that happened before and comes with its duration in
  seconds. \<open>cn_done\<close>: the prompt's future is resolved. \<open>cn_ws_alive\<close>: the connection is open
  and its reader runs. \<open>cn_str\<close> and \<open>cn_repr\<close> are Python's \<open>str\<close> and \<open>repr\<close>.
\<close>

record comfy_net =
  cn_http :: "comfy_event list \<Rightarrow> comfy_request \<Rightarrow> http_answer \<times> rat"
  cn_sleep :: "comfy_event list \<Rightarrow> rat \<Rightarrow> rat"
  cn_connect :: "comfy_event list \<Rightarrow> bool \<times> rat"
  cn_wait :: "comfy_event list \<Rightarrow> rat \<Rightarrow> wait_end \<times> rat"
  cn_ws_alive :: "comfy_event list \<Rightarrow> bool"
  cn_done :: "comfy_event list \<Rightarrow> bool"
  cn_str :: "pyval \<Rightarrow> string"
  cn_repr :: "pyval \<Rightarrow> string"

record comfy =
  cm_time :: rat
  cm_log :: "comfy_event list"
  cm_pending :: "string list"

record adapter =
  ad_poll_interval_s :: rat
  ad_stall_timeout_s :: "rat option"
  ad_progress_interval_s :: rat

text \<open>\<open>__init__\<close>; \<open>env_stall\<close> is \<open>COMFY_STALL_TIMEOUT_S\<close>.\<close>

definition comfy_init :: "int \<Rightarrow> rat option \<Rightarrow> rat \<Rightarrow> string option \<Rightarrow> string + adapter" where
  "comfy_init poll_interval_ms stall progress_interval env_stall =
     (if poll_interval_ms \<le> 0 then Inl ''poll_interval_ms must be > 0''
      else if progress_interval \<le> 0 then Inl ''progress_poll_interval_s must be > 0''
      else let stall = (case (stall, env_stall) of
                   (None, Some e) \<Rightarrow> (if e = [] then None else py_float e) | _ \<Rightarrow> stall)
        in Inr \<lparr>ad_poll_interval_s = of_int poll_interval_ms / 1000,
             ad_stall_timeout_s = (case stall of Some t \<Rightarrow> if 0 < t then Some t else None | None \<Rightarrow> None),
             ad_progress_interval_s = progress_interval\<rparr>)"

section \<open>Effects\<close>

type_synonym 'a comfy_io = "(comfy, 'a) effect"

definition step_by :: "rat \<Rightarrow> comfy_event \<Rightarrow> comfy \<Rightarrow> comfy" where
  "step_by d e s = s\<lparr>cm_time := cm_time s + d, cm_log := cm_log s @ [e]\<rparr>"

definition http :: "comfy_net \<Rightarrow> comfy_request \<Rightarrow> (comfy, http_answer) effect" where
  "http net r = (\<lambda>s. case cn_http net (cm_log s) r of (a, d) \<Rightarrow> (Inr a, step_by d (EvHttp r) s))"

definition sleep :: "comfy_net \<Rightarrow> rat \<Rightarrow> comfy \<Rightarrow> comfy" where
  "sleep net d s = step_by (cn_sleep net (cm_log s) d) (EvSleep d) s"

definition pure_p :: "pipe_error + 'a \<Rightarrow> ('s, 'a) effect" where
  "pure_p r = (\<lambda>s. (r, s))"

section \<open>Python on decoded JSON\<close>

definition resp_json :: "http_response \<Rightarrow> pipe_error + pyval" where
  "resp_json r = (case ht_json r of None \<Rightarrow> Inl (Unexpected ''JSONDecodeError'') | Some v \<Rightarrow> Inr v)"

text \<open>\<open>v.get(k)\<close> and \<open>v.get(k, default)\<close>; only a dictionary has \<open>get\<close>.\<close>

definition py_get :: "pyval \<Rightarrow> string \<Rightarrow> pipe_error + pyval" where
  "py_get v k = (case v of VDict d \<Rightarrow> Inr (dict_get d k) | _ \<Rightarrow> Inl (Unexpected ''AttributeError''))"

definition py_get_default :: "pyval \<Rightarrow> string \<Rightarrow> pyval \<Rightarrow> pipe_error + pyval" where
  "py_get_default v k dflt = (case v of
     VDict d \<Rightarrow> Inr (case map_of d k of None \<Rightarrow> dflt | Some x \<Rightarrow> x) | _ \<Rightarrow> Inl (Unexpected ''AttributeError''))"

text \<open>\<open>v.get(k) or {}\<close>, with the alternative as an argument.\<close>

definition py_get_or :: "pyval \<Rightarrow> string \<Rightarrow> pyval \<Rightarrow> pipe_error + pyval" where
  "py_get_or v k alt = bind_r (py_get v k) (\<lambda>x. Inr (py_or x alt))"

definition py_len :: "pyval \<Rightarrow> pipe_error + nat" where
  "py_len v = (case v of VList xs \<Rightarrow> Inr (length xs) | VDict d \<Rightarrow> Inr (length d) | VStr s \<Rightarrow> Inr (length s)
     | _ \<Rightarrow> Inl (Unexpected ''TypeError''))"

text \<open>Iteration: a dictionary gives its keys, a text its characters.\<close>

definition py_iter :: "pyval \<Rightarrow> pipe_error + pyval list" where
  "py_iter v = (case v of VList xs \<Rightarrow> Inr xs | VDict d \<Rightarrow> Inr (map (\<lambda>(k, _). VStr k) d)
     | VStr s \<Rightarrow> Inr (map (\<lambda>c. VStr [c]) s) | _ \<Rightarrow> Inl (Unexpected ''TypeError''))"

definition py_items :: "pyval \<Rightarrow> pipe_error + (string \<times> pyval) list" where
  "py_items v = (case v of VDict d \<Rightarrow> Inr d | _ \<Rightarrow> Inl (Unexpected ''AttributeError''))"

text \<open>\<open>_raise_if_errored\<close>.\<close>

definition raise_if_errored :: "comfy_net \<Rightarrow> pyval \<Rightarrow> pipe_error + unit" where
  "raise_if_errored net status =
     bind_r (py_get status ''status_str'') (\<lambda>status_str.
       if status_str \<noteq> VNone \<and> status_str \<noteq> VStr ''success''
       then bind_r (py_get_or status ''messages'' (VList [])) (\<lambda>messages.
         Inl (ComfyNode (''ComfyUI terminal error status='' @ cn_repr net status_str @ '': '' @ cn_str net messages)))
       else Inr ())"

section \<open>Submitting\<close>

text \<open>
  What \<open>submit\<close> makes of the answer to \<open>POST /prompt\<close>. A graph of the model is always
  serializable, so the \<open>TypeError\<close> branch has no counterpart.
\<close>

definition prompt_id_of :: "comfy_net \<Rightarrow> http_answer \<Rightarrow> pipe_error + pyval" where
  "prompt_id_of net a = (case a of
     ConnectError m \<Rightarrow> Inl (ComfyUnreachable (''connect /prompt: '' @ m))
   | TransportError m \<Rightarrow> Inl (ComfyUnreachable (''transport /prompt: '' @ m))
   | Answered r \<Rightarrow>
       if 400 \<le> ht_status r then
         bind_r (py_get_or (case ht_json r of None \<Rightarrow> VDict [] | Some v \<Rightarrow> py_or v (VDict [])) ''node_errors'' (VDict []))
           (\<lambda>node_errors. if ht_status r = 400 \<and> truthy node_errors
              then Inl (ComfyNode (''node_errors from /prompt: '' @ cn_str net node_errors))
              else Inl (ComfyUnreachable (''/prompt returned '' @ show_int (ht_status r) @ '': '' @ take 200 (ht_text r))))
       else bind_r (resp_json r) (\<lambda>data. bind_r (py_get_or data ''node_errors'' (VDict [])) (\<lambda>node_errors.
         if truthy node_errors then Inl (ComfyNode (''node_errors from /prompt: '' @ cn_str net node_errors))
         else bind_r (py_get_or data ''prompt_id'' (VStr [])) (\<lambda>prompt_id.
           if truthy prompt_id then Inr prompt_id
           else Inl (ComfyNode (''/prompt response missing prompt_id: '' @ cn_str net data))))))"

definition submit :: "comfy_net \<Rightarrow> graph \<Rightarrow> pyval comfy_io" where
  "submit net g = bind_p (http net (PostPrompt g)) (\<lambda>a. pure_p (prompt_id_of net a))"

definition upload_name_of :: "comfy_net \<Rightarrow> http_answer \<Rightarrow> pipe_error + pyval" where
  "upload_name_of net a = (case a of
     ConnectError m \<Rightarrow> Inl (ComfyUnreachable (''connect /upload/image: '' @ m))
   | TransportError m \<Rightarrow> Inl (ComfyUnreachable (''transport /upload/image: '' @ m))
   | Answered r \<Rightarrow>
       if 400 \<le> ht_status r
       then Inl (ComfyUnreachable (''/upload/image returned '' @ show_int (ht_status r) @ '': '' @ take 200 (ht_text r)))
       else bind_r (resp_json r) (\<lambda>data. bind_r (py_get data ''name'') (\<lambda>name.
         if truthy name then Inr name
         else Inl (ComfyNode (''/upload/image response missing name: '' @ cn_str net data)))))"

definition upload_image :: "comfy_net \<Rightarrow> string \<Rightarrow> string \<Rightarrow> pyval comfy_io" where
  "upload_image net image_bytes filename =
     bind_p (http net (PostUpload filename image_bytes)) (\<lambda>a. pure_p (upload_name_of net a))"

section \<open>Progress\<close>

text \<open>
  \<open>_progress_signature\<close> of a history entry: whether it is completed, its status text, and how
  many messages and outputs it has.
\<close>

definition progress_signature :: "comfy_net \<Rightarrow> pyval \<Rightarrow> pipe_error + string option" where
  "progress_signature net entry =
     (if \<not> truthy entry then Inr None
      else bind_r (py_get_or entry ''status'' (VDict [])) (\<lambda>status.
        bind_r (py_get_or entry ''outputs'' (VDict [])) (\<lambda>outputs.
        bind_r (py_get_or status ''messages'' (VList [])) (\<lambda>messages.
        bind_r (py_get status ''completed'') (\<lambda>completed.
        bind_r (py_get status ''status_str'') (\<lambda>status_str.
        bind_r (py_len messages) (\<lambda>m.
        bind_r (py_len outputs) (\<lambda>n.
          Inr (Some (join_on (CHR ''|'') [cn_str net completed, cn_str net status_str, show_nat m, show_nat n]))))))))))"

text \<open>\<open>_history_progress_signature\<close>.\<close>

definition history_signature :: "comfy_net \<Rightarrow> string \<Rightarrow> string option comfy_io" where
  "history_signature net prompt_id = bind_p (http net (GetHistory prompt_id)) (\<lambda>a. pure_p (case a of
     Answered r \<Rightarrow>
       (if ht_status r \<noteq> 200 then Inr None
        else bind_r (resp_json r) (\<lambda>data. bind_r (py_get (py_or data (VDict [])) prompt_id) (progress_signature net)))
   | _ \<Rightarrow> Inr None))"

text \<open>\<open>_check_progress\<close>.\<close>

definition check_progress :: "comfy_net \<Rightarrow> string \<Rightarrow> string option \<Rightarrow> (bool \<times> string option) comfy_io" where
  "check_progress net prompt_id previous = bind_p (history_signature net prompt_id) (\<lambda>current.
     return_p (case (current, previous) of
       (None, _) \<Rightarrow> (False, previous)
     | (Some c, None) \<Rightarrow> (True, current)
     | (Some c, Some p) \<Rightarrow> (c \<noteq> p, current)))"

section \<open>Polling the history\<close>

text \<open>
  One round of \<open>_poll_until_done\<close> between the deadline check and the sleep. It ends the loop
  (\<open>Inl\<close>, with the outcome) or goes on with the time and the signature of the last progress.
\<close>

definition poll_entry ::
  "comfy_net \<Rightarrow> adapter \<Rightarrow> string \<Rightarrow> rat \<Rightarrow> rat \<Rightarrow> string option \<Rightarrow> pyval \<Rightarrow>
    pipe_error + (unit + rat \<times> string option)" where
  "poll_entry net ad prompt_id now last_at last_sig entry =
     bind_r (if truthy entry
             then bind_r (py_get_or entry ''status'' (VDict [])) (\<lambda>status.
               bind_r (py_get status ''completed'') (\<lambda>c. Inr (if c = VBool True then Some status else None)))
             else Inr None) (\<lambda>completed.
     (case completed of
        Some status \<Rightarrow> bind_r (raise_if_errored net status) (\<lambda>_. Inr (Inl ()))
      | None \<Rightarrow> bind_r (progress_signature net entry) (\<lambda>sig.
          if sig \<noteq> None \<and> sig \<noteq> last_sig then Inr (Inr (now, sig))
          else (case ad_stall_timeout_s ad of
             Some t \<Rightarrow> if t \<le> now - last_at then Inl (ComfyTimeout (''polling for '' @ prompt_id @ '' stalled''))
                       else Inr (Inr (last_at, last_sig))
           | None \<Rightarrow> Inr (Inr (last_at, last_sig))))))"

definition poll_round ::
  "comfy_net \<Rightarrow> adapter \<Rightarrow> string \<Rightarrow> rat \<Rightarrow> string option \<Rightarrow> (unit + rat \<times> string option) comfy_io" where
  "poll_round net ad prompt_id last_at last_sig =
     bind_p (http net (GetHistory prompt_id)) (\<lambda>a. \<lambda>s. pure_p (case a of
       ConnectError m \<Rightarrow> Inl (ComfyUnreachable (''poll /history: '' @ m))
     | TransportError m \<Rightarrow> Inl (ComfyUnreachable (''poll /history: '' @ m))
     | Answered r \<Rightarrow>
         (if ht_status r \<noteq> 200 then Inr (Inr (last_at, last_sig))
          else bind_r (resp_json r) (\<lambda>data. bind_r (py_get data prompt_id)
                 (poll_entry net ad prompt_id (cm_time s) last_at last_sig)))) s)"

text \<open>\<open>asyncio.sleep(min(poll_interval, max(0.01, remaining)))\<close>.\<close>

definition poll_pause :: "adapter \<Rightarrow> rat \<Rightarrow> rat" where
  "poll_pause ad remaining = min (ad_poll_interval_s ad) (max (1 / 100) remaining)"

partial_function (option) poll_loop ::
  "comfy_net \<Rightarrow> adapter \<Rightarrow> string \<Rightarrow> rat \<Rightarrow> rat \<Rightarrow> string option \<Rightarrow> comfy \<Rightarrow> ((pipe_error + unit) \<times> comfy) option" where
  "poll_loop net ad prompt_id deadline last_at last_sig s =
     (if deadline - cm_time s \<le> 0
      then Some (Inl (ComfyTimeout (''polling for '' @ prompt_id @ '' exceeded deadline'')), s)
      else (case poll_round net ad prompt_id last_at last_sig s of
         (Inl e, s') \<Rightarrow> Some (Inl e, s')
       | (Inr (Inl u), s') \<Rightarrow> Some (Inr (), s')
       | (Inr (Inr (last_at', last_sig')), s') \<Rightarrow>
           poll_loop net ad prompt_id deadline last_at' last_sig'
             (sleep net (poll_pause ad (deadline - cm_time s)) s')))"

definition poll_until_done ::
  "comfy_net \<Rightarrow> adapter \<Rightarrow> string \<Rightarrow> rat \<Rightarrow> comfy \<Rightarrow> ((pipe_error + unit) \<times> comfy) option" where
  "poll_until_done net ad prompt_id deadline s = poll_loop net ad prompt_id deadline (cm_time s) None s"

section \<open>The websocket\<close>

text \<open>\<open>_ensure_ws\<close>: a connection whose reader runs is kept; otherwise a new one is opened.\<close>

definition ensure_ws :: "comfy_net \<Rightarrow> comfy \<Rightarrow> bool \<times> comfy" where
  "ensure_ws net s =
     (if cn_ws_alive net (cm_log s) then (True, s)
      else case cn_connect net (cm_log s) of (ok, d) \<Rightarrow> (ok, step_by d EvConnect s))"

fun try_connect :: "comfy_net \<Rightarrow> nat \<Rightarrow> comfy \<Rightarrow> bool \<times> comfy" where
  "try_connect net 0 s = (False, s)"
| "try_connect net (Suc attempts) s = (case ensure_ws net s of
     (True, s) \<Rightarrow> (True, s)
   | (False, s) \<Rightarrow> (if attempts = 0 then (False, s) else try_connect net attempts (sleep net 1 s)))"

text \<open>
  \<open>_ws_reader\<close>: what one message does. It resolves the future of a pending prompt when it says
  that this prompt executes no node any more; an exception ends the reader.
\<close>

datatype ws_message = WsBytes | WsText json_text
datatype reader_step = ReaderIgnores | ReaderResolves string | ReaderDies

definition read_message :: "string list \<Rightarrow> ws_message \<Rightarrow> reader_step" where
  "read_message pending m = (case m of
     WsText (Some (VDict event)) \<Rightarrow>
       (if dict_get event ''type'' \<noteq> VStr ''executing'' then ReaderIgnores
        else (case py_or (dict_get event ''data'') (VDict []) of
           VDict data \<Rightarrow>
             (if dict_get data ''node'' \<noteq> VNone then ReaderIgnores
              else (case dict_get data ''prompt_id'' of
                 VStr p \<Rightarrow> if p \<in> set pending then ReaderResolves p else ReaderIgnores
               | VList xs \<Rightarrow> if xs = [] then ReaderIgnores else ReaderDies
               | VDict d \<Rightarrow> if d = [] then ReaderIgnores else ReaderDies
               | _ \<Rightarrow> ReaderIgnores))
         | _ \<Rightarrow> ReaderDies))
   | WsText (Some _) \<Rightarrow> ReaderDies
   | _ \<Rightarrow> ReaderIgnores)"

text \<open>The futures a run of messages resolves, until the connection closes or the reader dies.\<close>

fun ws_reader :: "string list \<Rightarrow> ws_message list \<Rightarrow> string list" where
  "ws_reader pending [] = []"
| "ws_reader pending (m # ms) = (case read_message pending m of
     ReaderIgnores \<Rightarrow> ws_reader pending ms
   | ReaderResolves p \<Rightarrow> p # ws_reader pending ms
   | ReaderDies \<Rightarrow> [])"

section \<open>Waiting for a prompt\<close>

text \<open>
  One round of phase 2 of \<open>wait_for_completion\<close>: it ends, or falls back to polling, or goes on
  with the reconnects used and the last progress.
\<close>

datatype wait_step =
    WaitEnds "pipe_error + unit"
  | WaitPolls
  | WaitOn nat rat "string option"

definition max_reconnects :: nat where
  "max_reconnects = 1"

definition reader_ended :: "comfy_net \<Rightarrow> nat \<Rightarrow> rat \<Rightarrow> string option \<Rightarrow> comfy \<Rightarrow> wait_step \<times> comfy" where
  "reader_ended net used last_at last_sig s =
     (if max_reconnects \<le> used then (WaitPolls, s)
      else case try_connect net 1 (sleep net 1 s) of
         (True, s) \<Rightarrow> (WaitOn (used + 1) last_at last_sig, s)
       | (False, s) \<Rightarrow> (WaitPolls, s))"

definition no_news ::
  "comfy_net \<Rightarrow> adapter \<Rightarrow> string \<Rightarrow> nat \<Rightarrow> rat \<Rightarrow> string option \<Rightarrow> comfy \<Rightarrow> wait_step \<times> comfy" where
  "no_news net ad prompt_id used last_at last_sig s = (case ad_stall_timeout_s ad of
     None \<Rightarrow> (WaitEnds (Inl (ComfyTimeout (''wait_for_completion('' @ prompt_id @ '') exceeded''))), s)
   | Some t \<Rightarrow> (case check_progress net prompt_id last_sig s of
        (Inl e, s) \<Rightarrow> (WaitEnds (Inl e), s)
      | (Inr (progressed, sig), s) \<Rightarrow>
          (if progressed then (WaitOn used (cm_time s) sig, s)
           else if t \<le> cm_time s - last_at
           then (WaitEnds (Inl (ComfyTimeout (''wait_for_completion('' @ prompt_id @ '') stalled''))), s)
           else (WaitOn used last_at sig, s))))"

definition wait_round ::
  "comfy_net \<Rightarrow> adapter \<Rightarrow> string \<Rightarrow> rat \<Rightarrow> nat \<Rightarrow> rat \<Rightarrow> string option \<Rightarrow> comfy \<Rightarrow> wait_step \<times> comfy" where
  "wait_round net ad prompt_id deadline used last_at last_sig s =
     (let remaining = deadline - cm_time s in
      if remaining \<le> 0
      then (WaitEnds (Inl (ComfyTimeout (''wait_for_completion('' @ prompt_id @ '') exceeded''))), s)
      else let wait_timeout = (if ad_stall_timeout_s ad = None then remaining
                               else min remaining (ad_progress_interval_s ad)) in
        (case cn_wait net (cm_log s) wait_timeout of (how, d) \<Rightarrow>
          let s = step_by d (EvWait wait_timeout) s in
          (case how of
             TimeIsUp \<Rightarrow> no_news net ad prompt_id used last_at last_sig s
           | FutureDone \<Rightarrow> (WaitEnds (Inr ()), s)
           | ReaderDone \<Rightarrow> reader_ended net used last_at last_sig s)))"

partial_function (option) wait_loop ::
  "comfy_net \<Rightarrow> adapter \<Rightarrow> string \<Rightarrow> rat \<Rightarrow> nat \<Rightarrow> rat \<Rightarrow> string option \<Rightarrow> comfy \<Rightarrow>
    ((pipe_error + unit) \<times> comfy) option" where
  "wait_loop net ad prompt_id deadline used last_at last_sig s =
     (if cn_done net (cm_log s) then Some (Inr (), s)
      else (case wait_round net ad prompt_id deadline used last_at last_sig s of
         (WaitEnds r, s') \<Rightarrow> Some (r, s')
       | (WaitPolls, s') \<Rightarrow> poll_until_done net ad prompt_id deadline s'
       | (WaitOn used' last_at' last_sig', s') \<Rightarrow> wait_loop net ad prompt_id deadline used' last_at' last_sig' s'))"

text \<open>
  The body of the \<open>try\<close>; the pending entry is removed when it ends. An exception of the first
  progress request is raised before the \<open>try\<close>.
\<close>

definition wait_body ::
  "comfy_net \<Rightarrow> adapter \<Rightarrow> string \<Rightarrow> rat \<Rightarrow> rat \<Rightarrow> string option \<Rightarrow> comfy \<Rightarrow> ((pipe_error + unit) \<times> comfy) option" where
  "wait_body net ad prompt_id deadline last_at last_sig s =
     (case try_connect net 2 s of
        (False, s) \<Rightarrow> poll_until_done net ad prompt_id deadline s
      | (True, s) \<Rightarrow> wait_loop net ad prompt_id deadline 0 last_at last_sig s)"

definition wait_for_completion ::
  "comfy_net \<Rightarrow> adapter \<Rightarrow> string \<Rightarrow> rat \<Rightarrow> comfy \<Rightarrow> ((pipe_error + unit) \<times> comfy) option" where
  "wait_for_completion net ad prompt_id timeout_s s =
     (let deadline = cm_time s + timeout_s; last_at = cm_time s in
      if prompt_id \<in> set (cm_pending s)
      then Some (Inl (Unexpected ''wait_for_completion already in progress''), s)
      else (case (if ad_stall_timeout_s ad = None then return_p None else history_signature net prompt_id)
              (s\<lparr>cm_pending := prompt_id # cm_pending s\<rparr>) of
         (Inl e, s) \<Rightarrow> Some (Inl e, s)
       | (Inr last_sig, s) \<Rightarrow>
           map_option (\<lambda>(r, s). (r, s\<lparr>cm_pending := removeAll prompt_id (cm_pending s)\<rparr>))
             (wait_body net ad prompt_id deadline last_at last_sig s)))"

section \<open>Outputs\<close>

text \<open>\<open>GET /history/<id>\<close> as both fetch methods read it: the outputs of a successful entry.\<close>

definition history_outputs :: "comfy_net \<Rightarrow> string \<Rightarrow> http_answer \<Rightarrow> pipe_error + pyval" where
  "history_outputs net prompt_id a = (case a of
     Answered r \<Rightarrow>
       (if ht_status r \<noteq> 200 then Inl (ComfyUnreachable (''/history returned '' @ show_int (ht_status r)))
        else bind_r (resp_json r) (\<lambda>data.
          bind_r (py_get_or data prompt_id (VDict [])) (\<lambda>entry.
          bind_r (py_get_or entry ''status'' (VDict [])) (\<lambda>status.
          bind_r (raise_if_errored net status) (\<lambda>_.
          py_get_or entry ''outputs'' (VDict []))))))
   | ConnectError m \<Rightarrow> Inl (ComfyUnreachable (''GET /history: '' @ m))
   | TransportError m \<Rightarrow> Inl (ComfyUnreachable (''GET /history: '' @ m)))"

text \<open>One file through \<open>GET /view\<close>; bytes are the text of the response.\<close>

definition view_bytes :: "http_answer \<Rightarrow> pipe_error + string" where
  "view_bytes a = (case a of
     Answered r \<Rightarrow> (if ht_status r \<noteq> 200 then Inl (ComfyUnreachable (''/view returned '' @ show_int (ht_status r)))
                    else Inr (ht_text r))
   | ConnectError m \<Rightarrow> Inl (ComfyUnreachable (''GET /view: '' @ m))
   | TransportError m \<Rightarrow> Inl (ComfyUnreachable (''GET /view: '' @ m)))"

definition view_params :: "pyval \<Rightarrow> pipe_error + pyval \<times> pyval \<times> pyval" where
  "view_params media =
     bind_r (py_get_default media ''filename'' (VStr [])) (\<lambda>filename.
     bind_r (py_get_default media ''subfolder'' (VStr [])) (\<lambda>subfolder.
     bind_r (py_get_default media ''type'' (VStr ''output'')) (\<lambda>kind.
       Inr (filename, subfolder, kind))))"

definition view :: "comfy_net \<Rightarrow> pyval \<times> pyval \<times> pyval \<Rightarrow> string comfy_io" where
  "view net p = (case p of (filename, subfolder, kind) \<Rightarrow>
     bind_p (http net (GetView filename subfolder kind)) (\<lambda>a. pure_p (view_bytes a)))"

text \<open>A loop that collects a list.\<close>

fun each :: "('a \<Rightarrow> ('s, 'b list) effect) \<Rightarrow> 'a list \<Rightarrow> ('s, 'b list) effect" where
  "each f [] = return_p []"
| "each f (x # xs) = bind_p (f x) (\<lambda>ys. bind_p (each f xs) (\<lambda>zs. return_p (ys @ zs)))"

definition fetch_outputs :: "comfy_net \<Rightarrow> string \<Rightarrow> string list comfy_io" where
  "fetch_outputs net prompt_id =
     bind_p (http net (GetHistory prompt_id)) (\<lambda>a.
     bind_p (pure_p (bind_r (history_outputs net prompt_id a) py_items)) (\<lambda>outputs.
     each (\<lambda>(_, node_output).
       bind_p (pure_p (bind_r (py_get_or node_output ''images'' (VList [])) py_iter))
         (each (\<lambda>image. bind_p (pure_p (view_params image)) (\<lambda>p.
            bind_p (view net p) (\<lambda>bytes. return_p [bytes]))))) outputs))"

text \<open>\<open>Path(fn).suffix.lower().lstrip(".")\<close>: from the last dot of the name, unless it is the first or the last character.\<close>

definition path_suffix :: "string \<Rightarrow> string" where
  "path_suffix fn =
     (let name = basename fn; ext = takeWhile (\<lambda>c. c \<noteq> CHR ''.'') (rev name) in
      if CHR ''.'' \<in> set name \<and> ext \<noteq> [] \<and> length ext + 1 < length name then rev ext else [])"

definition media_suffix :: "string \<Rightarrow> pyval \<Rightarrow> pipe_error + string" where
  "media_suffix bucket_key filename = (case filename of
     VStr fn \<Rightarrow> (let suffix = lower (path_suffix fn) in
       Inr (if suffix = [] then (if bucket_key = ''images'' then ''png'' else ''mp4'') else suffix))
   | _ \<Rightarrow> Inl (Unexpected ''TypeError''))"

definition fetch_media :: "comfy_net \<Rightarrow> string \<Rightarrow> pyval \<Rightarrow> (string \<times> string) list comfy_io" where
  "fetch_media net bucket_key media =
     (if \<not> is_dict media then return_p []
      else bind_p (pure_p (view_params media)) (\<lambda>p.
        bind_p (pure_p (media_suffix bucket_key (fst p))) (\<lambda>suffix.
        bind_p (view net p) (\<lambda>bytes. return_p [(bytes, suffix)]))))"

definition fetch_media_outputs :: "comfy_net \<Rightarrow> string \<Rightarrow> (string \<times> string) list comfy_io" where
  "fetch_media_outputs net prompt_id =
     bind_p (http net (GetHistory prompt_id)) (\<lambda>a.
     bind_p (pure_p (bind_r (history_outputs net prompt_id a) py_items)) (\<lambda>outputs.
     each (\<lambda>(_, node_output).
       if \<not> is_dict node_output then return_p []
       else each (\<lambda>bucket_key.
         bind_p (pure_p (bind_r (py_get_or node_output bucket_key (VList [])) py_iter))
           (each (fetch_media net bucket_key))) [''gifs'', ''videos'', ''images'']) outputs))"

section \<open>Cancelling\<close>

text \<open>\<open>{e[1] for e in ... if len(e) > 1}\<close>.\<close>

definition queue_entry_pid :: "pyval \<Rightarrow> pipe_error + pyval list" where
  "queue_entry_pid e = bind_r (py_len e) (\<lambda>n.
     if n \<le> 1 then Inr []
     else (case e of
        VList xs \<Rightarrow> (case xs ! 1 of VList _ \<Rightarrow> Inl (Unexpected ''TypeError'') | VDict _ \<Rightarrow> Inl (Unexpected ''TypeError'')
                     | v \<Rightarrow> Inr [v])
      | VStr s \<Rightarrow> Inr [VStr [s ! 1]]
      | _ \<Rightarrow> Inl (Unexpected ''KeyError'')))"

definition queue_pids :: "pyval \<Rightarrow> string \<Rightarrow> pipe_error + pyval list" where
  "queue_pids data key = bind_r (py_get_or data key (VList [])) (\<lambda>q. bind_r (py_iter q) (\<lambda>es.
     bind_r (map_r queue_entry_pid es) (\<lambda>pids. Inr (concat pids))))"

definition queue_state :: "http_answer \<Rightarrow> pipe_error + pyval list \<times> pyval list" where
  "queue_state a = (case a of
     Answered r \<Rightarrow>
       (if ht_status r \<noteq> 200
        then Inl (ComfyUnreachable (''/queue returned '' @ show_int (ht_status r) @ '': '' @ take 200 (ht_text r)))
        else bind_r (resp_json r) (\<lambda>data. bind_r (queue_pids data ''queue_running'') (\<lambda>running.
          bind_r (queue_pids data ''queue_pending'') (\<lambda>pending. Inr (running, pending)))))
   | ConnectError m \<Rightarrow> Inl (ComfyUnreachable (''GET /queue: '' @ m))
   | TransportError m \<Rightarrow> Inl (ComfyUnreachable (''GET /queue: '' @ m)))"

text \<open>A request whose response is not looked at.\<close>

definition post_only :: "comfy_net \<Rightarrow> string \<Rightarrow> comfy_request \<Rightarrow> unit comfy_io" where
  "post_only net what r = bind_p (http net r) (\<lambda>a. pure_p (case a of
     Answered _ \<Rightarrow> Inr ()
   | ConnectError m \<Rightarrow> Inl (ComfyUnreachable (what @ m))
   | TransportError m \<Rightarrow> Inl (ComfyUnreachable (what @ m))))"

definition cancel :: "comfy_net \<Rightarrow> string \<Rightarrow> unit comfy_io" where
  "cancel net prompt_id =
     bind_p (http net GetQueue) (\<lambda>a.
     bind_p (pure_p (queue_state a)) (\<lambda>(running, pending).
       if VStr prompt_id \<in> set running then post_only net ''POST /interrupt: '' PostInterrupt
       else if VStr prompt_id \<in> set pending then post_only net ''DELETE /queue: '' (PostDelete prompt_id)
       else return_p ()))"

section \<open>Unloading and health\<close>

text \<open>\<open>devices[0]\<close> of \<open>stats.get("devices") or [{}]\<close>.\<close>

definition first_device :: "pyval \<Rightarrow> pipe_error + pyval" where
  "first_device stats = bind_r (py_get_or stats ''devices'' (VList [VDict []])) (\<lambda>devices. case devices of
     VList (d # _) \<Rightarrow> Inr d
   | VStr (c # _) \<Rightarrow> Inr (VStr [c])
   | VDict _ \<Rightarrow> Inl (Unexpected ''KeyError'')
   | _ \<Rightarrow> Inl (Unexpected ''TypeError''))"

definition vram_free_of :: "http_answer \<Rightarrow> pipe_error + int option" where
  "vram_free_of a = (case a of
     Answered r \<Rightarrow>
       (if ht_status r \<noteq> 200 then Inr None
        else bind_r (resp_json r) (\<lambda>stats. bind_r (first_device (py_or stats (VDict []))) (\<lambda>device.
          bind_r (py_get device ''vram_free'') (\<lambda>free.
            if free = VNone then Inr None
            else (case int_of free of Some n \<Rightarrow> Inr (Some n) | None \<Rightarrow> Inl (Unexpected ''int()''))))))
   | _ \<Rightarrow> Inr None)"

definition read_vram_free :: "comfy_net \<Rightarrow> int option comfy_io" where
  "read_vram_free net = bind_p (http net GetStats) (\<lambda>a. pure_p (vram_free_of a))"

partial_function (option) baseline_loop ::
  "comfy_net \<Rightarrow> rat \<Rightarrow> comfy \<Rightarrow> ((pipe_error + int option) \<times> comfy) option" where
  "baseline_loop net until s =
     (if until \<le> cm_time s then Some (Inr None, s)
      else (case read_vram_free net s of
         (Inl e, s') \<Rightarrow> Some (Inl e, s')
       | (Inr None, s') \<Rightarrow> baseline_loop net until (sleep net (1 / 5) s')
       | (Inr (Some n), s') \<Rightarrow> Some (Inr (Some n), s')))"

partial_function (option) verify_loop ::
  "comfy_net \<Rightarrow> rat \<Rightarrow> int \<Rightarrow> comfy \<Rightarrow> ((pipe_error + bool) \<times> comfy) option" where
  "verify_loop net deadline baseline s =
     (if deadline \<le> cm_time s then Some (Inr False, s)
      else (case read_vram_free net s of
         (Inl e, s') \<Rightarrow> Some (Inl e, s')
       | (Inr None, s') \<Rightarrow> verify_loop net deadline baseline (sleep net (1 / 2) s')
       | (Inr (Some n), s') \<Rightarrow>
           if baseline < n then Some (Inr True, s')
           else verify_loop net deadline baseline (sleep net (1 / 2) s')))"

definition unload_models :: "comfy_net \<Rightarrow> rat \<Rightarrow> comfy \<Rightarrow> ((pipe_error + bool) \<times> comfy) option" where
  "unload_models net verify_timeout_s s =
     (let deadline = cm_time s + verify_timeout_s; until = cm_time s + min 5 (verify_timeout_s / 4) in
      (case baseline_loop net until s of
         None \<Rightarrow> None
       | Some (Inl e, s) \<Rightarrow> Some (Inl e, s)
       | Some (Inr baseline, s) \<Rightarrow>
           (case post_only net ''POST /free: '' PostFree s of
              (Inl e, s) \<Rightarrow> Some (Inl e, s)
            | (Inr _, s) \<Rightarrow> (case baseline of
                None \<Rightarrow> Some (Inr False, s)
              | Some b \<Rightarrow> verify_loop net deadline b s))))"

definition free :: "comfy_net \<Rightarrow> rat \<Rightarrow> comfy \<Rightarrow> ((pipe_error + unit) \<times> comfy) option" where
  "free net verify_timeout_s s =
     map_option (\<lambda>(r, s). (bind_r r (\<lambda>_. Inr ()), s)) (unload_models net verify_timeout_s s)"

text \<open>\<open>health\<close>: the status and, if it is \<open>ok\<close>, the free memory in GB.\<close>

definition health_of :: "http_answer \<Rightarrow> pipe_error + pydict" where
  "health_of a = (case a of
     Answered r \<Rightarrow>
       (if ht_status r \<noteq> 200
        then Inr [(''status'', VStr ''down''), (''reason'', VStr (''/system_stats '' @ show_int (ht_status r)))]
        else bind_r (resp_json r) (\<lambda>stats. bind_r (first_device (py_or stats (VDict []))) (\<lambda>device.
          bind_r (py_get_default device ''vram_free'' (VInt 0)) (\<lambda>free.
            (case free of
               VInt n \<Rightarrow> Inr [(''status'', VStr ''ok''), (''vram_free_gb'', VFloat (of_int n / 1024 ^ 3))]
             | VFloat f \<Rightarrow> Inr [(''status'', VStr ''ok''), (''vram_free_gb'', VFloat (f / 1024 ^ 3))]
             | VBool b \<Rightarrow> Inr [(''status'', VStr ''ok''), (''vram_free_gb'', VFloat ((if b then 1 else 0) / 1024 ^ 3))]
             | _ \<Rightarrow> Inl (Unexpected ''TypeError''))))))
   | ConnectError m \<Rightarrow> Inr [(''status'', VStr ''down''), (''reason'', VStr m)]
   | TransportError m \<Rightarrow> Inr [(''status'', VStr ''down''), (''reason'', VStr m)])"

definition health :: "comfy_net \<Rightarrow> pydict comfy_io" where
  "health net = bind_p (http net GetStats) (\<lambda>a. pure_p (health_of a))"

section \<open>Time passes\<close>

text \<open>
  What the event loop promises: no time runs backwards, \<open>asyncio.sleep\<close> sleeps at least as
  long as it is told, and \<open>asyncio.wait\<close> gives up no earlier than its timeout.
\<close>

definition net_ok :: "comfy_net \<Rightarrow> bool" where
  "net_ok net \<longleftrightarrow> (\<forall>h r. 0 \<le> snd (cn_http net h r)) \<and> (\<forall>h d. d \<le> cn_sleep net h d) \<and>
     (\<forall>h. 0 \<le> snd (cn_connect net h)) \<and>
     (\<forall>h d. 0 \<le> snd (cn_wait net h d) \<and> (fst (cn_wait net h d) = TimeIsUp \<longrightarrow> d \<le> snd (cn_wait net h d)))"

fun is_http :: "comfy_event \<Rightarrow> bool" where
  "is_http (EvHttp _) = True"
| "is_http _ = False"

definition requests :: "comfy \<Rightarrow> nat" where
  "requests s = length (filter is_http (cm_log s))"

text \<open>
  \<open>later k s s'\<close>: \<open>s'\<close> comes after \<open>s\<close>, with at most \<open>k\<close> HTTP requests in between and the same
  pending prompts.
\<close>

definition later :: "nat \<Rightarrow> comfy \<Rightarrow> comfy \<Rightarrow> bool" where
  "later k s s' \<longleftrightarrow> cm_time s \<le> cm_time s' \<and> prefix (cm_log s) (cm_log s') \<and> requests s' \<le> requests s + k \<and>
     cm_pending s' = cm_pending s"

lemma later_refl [simp]: "later k s s"
  by (simp add: later_def)

lemma later_trans: "later m s s1 \<Longrightarrow> later n s1 s2 \<Longrightarrow> m + n \<le> k \<Longrightarrow> later k s s2"
  by (auto simp: later_def dest: prefix_order.trans)

lemma step_by_simps [simp]: "cm_time (step_by d e s) = cm_time s + d" "cm_log (step_by d e s) = cm_log s @ [e]"
  "cm_pending (step_by d e s) = cm_pending s"
  by (simp_all add: step_by_def)

lemma step_by_later: "0 \<le> d \<Longrightarrow> (if is_http e then 1 else 0) \<le> k \<Longrightarrow> later k s (step_by d e s)"
  by (cases e) (auto simp: later_def requests_def)

lemma sleep_later: "net_ok net \<Longrightarrow> 0 \<le> d \<Longrightarrow> later 0 s (sleep net d s)"
  unfolding sleep_def by (rule step_by_later) (auto simp: net_ok_def intro: order_trans)

lemma sleep_time: "net_ok net \<Longrightarrow> cm_time s + d \<le> cm_time (sleep net d s)"
  by (simp add: sleep_def net_ok_def)

lemma http_later: "net_ok net \<Longrightarrow> http net r s = (Inr a, s') \<Longrightarrow> later 1 s s' \<and> a = fst (cn_http net (cm_log s) r)"
  by (auto simp: http_def net_ok_def split: prod.splits intro!: step_by_later) (metis snd_conv)

lemma http_Inl [simp]: "http net r s \<noteq> (Inl e, s')"
  by (auto simp: http_def split: prod.splits)

text \<open>An effect that makes one request and then computes.\<close>

lemma bind_http:
  assumes "net_ok net" "bind_p (http net r) f s = (x, s')" and f: "\<And>a s. snd (f a s) = s"
  shows "later 1 s s' \<and> x = fst (f (fst (cn_http net (cm_log s) r)) s')"
proof -
  obtain a s1 where h: "http net r s = (Inr a, s1)" by (metis http_Inl prod.exhaust sum.exhaust)
  with assms(2) have x: "f a s1 = (x, s')" by (simp add: bind_p_def)
  with f [of a s1] have "s' = s1" by simp
  with x http_later [OF assms(1) h] show ?thesis by simp
qed

lemma poll_round_later:
  assumes "net_ok net" "poll_round net ad pid last_at sig s = (x, s')"
  shows "later 1 s s'"
  using bind_http [OF assms(1) assms(2) [unfolded poll_round_def]] by (simp add: pure_p_def)

lemma history_signature_later: "net_ok net \<Longrightarrow> history_signature net pid s = (x, s') \<Longrightarrow> later 1 s s'"
  unfolding history_signature_def by (drule (1) bind_http) (simp_all add: pure_p_def)

lemma check_progress_later: "net_ok net \<Longrightarrow> check_progress net pid p s = (x, s') \<Longrightarrow> later 1 s s'"
  using history_signature_later [of net pid s]
  by (auto simp: check_progress_def bind_p_def return_p_def split: prod.splits sum.splits)

lemma ensure_ws_later: "net_ok net \<Longrightarrow> ensure_ws net s = (ok, s') \<Longrightarrow> later 0 s s'"
  by (auto simp: ensure_ws_def net_ok_def split: if_splits prod.splits intro!: step_by_later) (metis snd_conv)

lemma try_connect_later: "net_ok net \<Longrightarrow> try_connect net n s = (ok, s') \<Longrightarrow> later 0 s s'"
proof (induction net n s rule: try_connect.induct)
  case (2 net n s)
  obtain ok1 s1 where e: "ensure_ws net s = (ok1, s1)" by fastforce
  note l = ensure_ws_later [OF 2(2) e]
  show ?case
  proof (cases "ok1 \<or> n = 0")
    case False
    with 2 e have "later 0 (sleep net 1 s1) s'" by auto
    moreover have "later 0 s1 (sleep net 1 s1)" using 2(2) by (rule sleep_later) simp
    ultimately have "later 0 s1 s'" by (auto elim: later_trans)
    with l show ?thesis by (rule later_trans) simp
  qed (use 2 e l in \<open>auto split: bool.splits\<close>)
qed simp

section \<open>What an outcome means\<close>

text \<open>The history says that the prompt ended, and well.\<close>

definition history_success :: "string \<Rightarrow> http_answer \<Rightarrow> bool" where
  "history_success pid a \<longleftrightarrow> (\<exists>r data entry st. a = Answered r \<and> ht_status r = 200 \<and> ht_json r = Some (VDict data) \<and>
     dict_get data pid = VDict entry \<and> py_or (dict_get entry ''status'') (VDict []) = VDict st \<and>
     dict_get st ''completed'' = VBool True \<and> dict_get st ''status_str'' \<in> {VNone, VStr ''success''})"

definition reported_done :: "comfy_net \<Rightarrow> string \<Rightarrow> comfy_event list \<Rightarrow> bool" where
  "reported_done net pid h \<longleftrightarrow> cn_done net h \<or> (\<exists>d. fst (cn_wait net h d) = FutureDone) \<or>
     history_success pid (fst (cn_http net h (GetHistory pid)))"

fun is_timeout :: "pipe_error \<Rightarrow> bool" where
  "is_timeout (ComfyTimeout _) = True"
| "is_timeout _ = False"

fun is_storage :: "pipe_error \<Rightarrow> bool" where
  "is_storage (StorageErr _) = True"
| "is_storage _ = False"

text \<open>
  A wait that succeeds was told so at some point of its log; without a stall timeout it times
  out at the deadline and not before; it never raises a storage error.
\<close>

definition justified :: "comfy_net \<Rightarrow> adapter \<Rightarrow> string \<Rightarrow> rat \<Rightarrow> pipe_error + unit \<Rightarrow> comfy \<Rightarrow> bool" where
  "justified net ad pid deadline r s' \<longleftrightarrow> (case r of
     Inr _ \<Rightarrow> \<exists>h. prefix h (cm_log s') \<and> reported_done net pid h
   | Inl e \<Rightarrow> \<not> is_storage e \<and> (is_timeout e \<and> ad_stall_timeout_s ad = None \<longrightarrow> deadline \<le> cm_time s'))"

definition only_unexpected :: "pipe_error + 'a \<Rightarrow> bool" where
  "only_unexpected r \<longleftrightarrow> (\<forall>e. r = Inl e \<longrightarrow> is_unexpected e)"

lemma only_unexpected_simps [simp]: "only_unexpected (Inr x)" "only_unexpected (Inl (Unexpected m))"
  by (simp_all add: only_unexpected_def is_unexpected_def)

lemma only_unexpected_bind: "only_unexpected m \<Longrightarrow> (\<And>x. only_unexpected (f x)) \<Longrightarrow> only_unexpected (bind_r m f)"
  by (auto simp: only_unexpected_def bind_r_def split: sum.splits)

lemma json_unexpected [simp]:
  "only_unexpected (resp_json r)" "only_unexpected (py_get v k)" "only_unexpected (py_get_default v k d)"
  "only_unexpected (py_get_or v k d)" "only_unexpected (py_len v)" "only_unexpected (py_iter v)" "only_unexpected (py_items v)"
  by (auto simp: resp_json_def py_get_def py_get_default_def py_get_or_def py_len_def py_iter_def py_items_def
      split: option.split pyval.split)

lemma signature_unexpected [simp]: "only_unexpected (progress_signature net entry)"
  by (auto simp: progress_signature_def intro!: only_unexpected_bind)

lemma history_signature_unexpected: "history_signature net pid s = (r, s') \<Longrightarrow> only_unexpected r"
  by (auto simp: history_signature_def http_def bind_p_def pure_p_def
      split: prod.splits http_answer.splits sum.splits intro!: only_unexpected_bind)

lemma check_progress_unexpected: "check_progress net pid p s = (r, s') \<Longrightarrow> only_unexpected r"
  using history_signature_unexpected [of net pid s]
  by (auto simp: check_progress_def bind_p_def return_p_def only_unexpected_def split: prod.splits sum.splits)

lemma raise_if_errored_Inr: "raise_if_errored net v = Inr u \<Longrightarrow> \<exists>st. v = VDict st \<and> dict_get st ''status_str'' \<in> {VNone, VStr ''success''}"
  by (auto simp: raise_if_errored_def bind_r_Inr py_get_def split: pyval.splits if_splits)

lemma raise_if_errored_Inl: "raise_if_errored net v = Inl e \<Longrightarrow> is_unexpected e \<or> (\<exists>m. e = ComfyNode m)"
  by (auto simp: raise_if_errored_def bind_r_Inl py_get_def py_get_or_def is_unexpected_def split: pyval.splits if_splits)

lemma poll_entry_Inr:
  assumes "poll_entry net ad pid now la ls entry = Inr (Inl u)"
  shows "\<exists>e st. entry = VDict e \<and> py_or (dict_get e ''status'') (VDict []) = VDict st \<and>
    dict_get st ''completed'' = VBool True \<and> dict_get st ''status_str'' \<in> {VNone, VStr ''success''}"
  using assms
  by (auto simp: poll_entry_def bind_r_Inr py_get_or_def py_get_def split: if_splits option.splits pyval.splits
      dest!: raise_if_errored_Inr)

lemma poll_entry_Inl:
  assumes "poll_entry net ad pid now la ls entry = Inl e"
  shows "is_unexpected e \<or> (\<exists>m. e = ComfyNode m) \<or> (is_timeout e \<and> ad_stall_timeout_s ad \<noteq> None)"
proof -
  have u: "only_unexpected r \<Longrightarrow> r = Inl e \<Longrightarrow> is_unexpected e" for r :: "pipe_error + 'a" by (simp add: only_unexpected_def)
  from assms show ?thesis
    unfolding poll_entry_def bind_r_Inl
    by (fastforce split: if_splits option.splits sum.splits dest: raise_if_errored_Inl
        u [OF signature_unexpected] u [OF json_unexpected(4)] u [OF json_unexpected(2)] simp: bind_r_Inl)
qed

lemma poll_round_outcome:
  assumes "net_ok net" "poll_round net ad pid la ls s = (x, s')"
  shows "x = Inr (Inl u) \<Longrightarrow> reported_done net pid (cm_log s)"
    and "x = Inl e \<Longrightarrow> \<not> is_storage e \<and> (is_timeout e \<longrightarrow> ad_stall_timeout_s ad \<noteq> None)"
proof -
  let ?a = "fst (cn_http net (cm_log s) (GetHistory pid))"
  from bind_http [OF assms(1) assms(2) [unfolded poll_round_def]]
  have x: "x = (case ?a of
       ConnectError m \<Rightarrow> Inl (ComfyUnreachable (''poll /history: '' @ m))
     | TransportError m \<Rightarrow> Inl (ComfyUnreachable (''poll /history: '' @ m))
     | Answered r \<Rightarrow>
         (if ht_status r \<noteq> 200 then Inr (Inr (la, ls))
          else bind_r (resp_json r) (\<lambda>data. bind_r (py_get data pid) (poll_entry net ad pid (cm_time s') la ls))))"
    by (simp add: pure_p_def)
  show "reported_done net pid (cm_log s)" if "x = Inr (Inl u)"
  proof -
    from that x obtain r data d where "?a = Answered r" "ht_status r = 200" "ht_json r = Some data" "data = VDict d"
      and e: "poll_entry net ad pid (cm_time s') la ls (dict_get d pid) = Inr (Inl u)"
      by (auto simp: bind_r_Inr resp_json_def py_get_def split: http_answer.splits if_splits option.splits pyval.splits)
    with poll_entry_Inr [OF e] show ?thesis by (auto simp: reported_done_def history_success_def)
  qed
  show "\<not> is_storage e \<and> (is_timeout e \<longrightarrow> ad_stall_timeout_s ad \<noteq> None)" if "x = Inl e"
  proof -
    have "only_unexpected (resp_json r)" "only_unexpected (py_get d pid)" for r d by simp_all
    then have "(\<exists>m. e = ComfyUnreachable m) \<or> is_unexpected e \<or> (\<exists>m. e = ComfyNode m) \<or>
        (is_timeout e \<and> ad_stall_timeout_s ad \<noteq> None)"
      using that x poll_entry_Inl [of net ad pid "cm_time s'" la ls]
      by (auto simp: bind_r_Inl only_unexpected_def split: http_answer.splits if_splits)
    then show ?thesis by (cases e) (auto simp: is_unexpected_def)
  qed
qed

section \<open>The loops end\<close>

lemma justified_fails [simp]:
  "justified net ad pid deadline (Inl e) s' \<longleftrightarrow>
     \<not> is_storage e \<and> (is_timeout e \<and> ad_stall_timeout_s ad = None \<longrightarrow> deadline \<le> cm_time s')"
  by (simp add: justified_def)

lemma justified_done: "reported_done net pid h \<Longrightarrow> prefix h (cm_log s') \<Longrightarrow> justified net ad pid deadline (Inr u) s'"
  by (auto simp: justified_def)

lemma poll_loop_returns:
  assumes "net_ok net" "0 < ad_poll_interval_s ad"
  shows "deadline - cm_time s \<le> of_nat n * min (ad_poll_interval_s ad) (1 / 100) \<Longrightarrow>
    \<exists>r s'. poll_loop net ad pid deadline last_at sig s = Some (r, s') \<and> later n s s' \<and> justified net ad pid deadline r s'"
proof (induction n arbitrary: last_at sig s)
  case 0
  then show ?case by (simp add: poll_loop.simps)
next
  case (Suc n)
  show ?case
  proof (cases "deadline - cm_time s \<le> 0")
    case False
    obtain x s1 where round: "poll_round net ad pid last_at sig s = (x, s1)" by fastforce
    note l = poll_round_later [OF assms(1) round]
    note out = poll_round_outcome [OF assms(1) round]
    have pre: "prefix (cm_log s) (cm_log s1)" using l by (simp add: later_def)
    consider (fails) e where "x = Inl e" | (ends) "x = Inr (Inl ())" | (on) at' sig' where "x = Inr (Inr (at', sig'))"
      by (metis old.unit.exhaust old.prod.exhaust sum.exhaust)
    then show ?thesis
    proof cases
      case fails
      with round False l out(2) [OF fails] show ?thesis
        by (auto simp: poll_loop.simps [of net ad pid deadline last_at sig s] intro: later_trans [where n = 0])
    next
      case ends
      have "justified net ad pid deadline (Inr ()) s1" using out(1) [OF ends] pre by (rule justified_done)
      with ends round False l show ?thesis
        by (auto simp: poll_loop.simps [of net ad pid deadline last_at sig s] intro: later_trans [where n = 0])
    next
      case on
      let ?d = "poll_pause ad (deadline - cm_time s)" and ?q = "min (ad_poll_interval_s ad) (1 / 100)"
      have d: "?q \<le> ?d" "0 \<le> ?d" using assms(2) False by (auto simp: poll_pause_def)
      have "deadline - cm_time (sleep net ?d s1) \<le> of_nat n * ?q"
        using Suc.prems d(1) sleep_time [OF assms(1), of s1 ?d] l by (simp add: later_def algebra_simps)
      from Suc.IH [OF this, of at' sig'] obtain r s' where
        r: "poll_loop net ad pid deadline at' sig' (sleep net ?d s1) = Some (r, s')" "later n (sleep net ?d s1) s'"
          "justified net ad pid deadline r s'" by blast
      have "later n s1 s'" using sleep_later [OF assms(1) d(2)] r(2) by (rule later_trans) simp
      then have "later (Suc n) s s'" using l by (auto intro: later_trans)
      with r(1,3) round on False show ?thesis by (simp add: poll_loop.simps [of net ad pid deadline last_at sig s])
    qed
  qed (simp add: poll_loop.simps)
qed

lemma nat_ceiling_mult: "0 < q \<Longrightarrow> x \<le> of_nat (nat \<lceil>x / q\<rceil>) * q" for x q :: rat
proof -
  assume q: "0 < q"
  have "x / q \<le> of_int \<lceil>x / q\<rceil>" by simp
  also have "\<dots> \<le> of_nat (nat \<lceil>x / q\<rceil>)" by (simp add: of_nat_nat)
  finally show ?thesis using q by (simp add: field_simps)
qed

text \<open>The rounds that polling may need for a time \<open>T\<close>, and those of the progress checks.\<close>

definition poll_rounds :: "adapter \<Rightarrow> rat \<Rightarrow> nat" where
  "poll_rounds ad t = nat \<lceil>t / min (ad_poll_interval_s ad) (1 / 100)\<rceil>"

definition progress_rounds :: "adapter \<Rightarrow> rat \<Rightarrow> nat" where
  "progress_rounds ad t = nat \<lceil>t / ad_progress_interval_s ad\<rceil>"

definition adapter_ok :: "adapter \<Rightarrow> bool" where
  "adapter_ok ad \<longleftrightarrow> 0 < ad_poll_interval_s ad \<and> 0 < ad_progress_interval_s ad"

lemma comfy_init_ok: "comfy_init p stall i env = Inr ad \<Longrightarrow> adapter_ok ad"
  by (auto simp: comfy_init_def adapter_ok_def Let_def split: if_splits)

lemma poll_until_done_returns:
  assumes "net_ok net" "adapter_ok ad" "deadline - cm_time s \<le> t"
  shows "\<exists>r s'. poll_until_done net ad pid deadline s = Some (r, s') \<and> later (poll_rounds ad t) s s' \<and>
    justified net ad pid deadline r s'"
proof -
  let ?q = "min (ad_poll_interval_s ad) (1 / 100)"
  have "0 < ?q" "0 < ad_poll_interval_s ad" using assms(2) by (auto simp: adapter_ok_def)
  then have "deadline - cm_time s \<le> of_nat (poll_rounds ad t) * ?q"
    unfolding poll_rounds_def using assms(3) nat_ceiling_mult [of ?q t] by (meson order_trans)
  then show ?thesis unfolding poll_until_done_def by (rule poll_loop_returns [OF assms(1) \<open>0 < ad_poll_interval_s ad\<close>])
qed

lemma no_news_cases:
  assumes net: "net_ok net" and run: "no_news net ad pid used la ls s = (x, s1)"
  shows "later 1 s s1" "x = WaitOn used' la' ls' \<Longrightarrow> used' = used" "x \<noteq> WaitPolls"
    "ad_stall_timeout_s ad = None \<longrightarrow> deadline \<le> cm_time s \<Longrightarrow> x = WaitEnds r \<Longrightarrow> justified net ad pid deadline r s1"
proof -
  obtain c s2 where check: "check_progress net pid ls s = (c, s2)" by fastforce
  note l = check_progress_later [OF net check] and u = check_progress_unexpected [OF check]
  have e: "\<not> is_storage e \<and> \<not> is_timeout e" if "c = Inl e" for e
    using u that by (auto simp: only_unexpected_def is_unexpected_def)
  show "later 1 s s1" "x = WaitOn used' la' ls' \<Longrightarrow> used' = used" "x \<noteq> WaitPolls"
    "ad_stall_timeout_s ad = None \<longrightarrow> deadline \<le> cm_time s \<Longrightarrow> x = WaitEnds r \<Longrightarrow> justified net ad pid deadline r s1"
    using run check l e by (auto simp: no_news_def split: option.splits sum.splits if_splits)
qed

lemma reader_ended_cases:
  assumes net: "net_ok net" and run: "reader_ended net used la ls s = (x, s1)"
  shows "later 0 s s1" "x = WaitOn used' la' ls' \<Longrightarrow> used' = used + 1 \<and> used < max_reconnects" "x \<noteq> WaitEnds r"
proof -
  obtain ok s2 where c: "try_connect net 1 (sleep net 1 s) = (ok, s2)" by fastforce
  have "later 0 s (sleep net 1 s)" using net by (rule sleep_later) simp
  with try_connect_later [OF net c] have l: "later 0 s s2" by (auto intro: later_trans)
  show "later 0 s s1" "x = WaitOn used' la' ls' \<Longrightarrow> used' = used + 1 \<and> used < max_reconnects" "x \<noteq> WaitEnds r"
    using run c l by (auto simp: reader_ended_def split: if_splits bool.splits)
qed

text \<open>
  One round of waiting: it ends justified, or falls back to polling, or uses up a reconnect, or
  a progress interval has passed.
\<close>

definition round_ok ::
  "comfy_net \<Rightarrow> adapter \<Rightarrow> string \<Rightarrow> rat \<Rightarrow> nat \<Rightarrow> nat \<Rightarrow> comfy \<Rightarrow> wait_step \<Rightarrow> comfy \<Rightarrow> bool" where
  "round_ok net ad pid deadline n used s x s1 \<longleftrightarrow> later 1 s s1 \<and> (case x of
     WaitEnds r \<Rightarrow> justified net ad pid deadline r s1
   | WaitPolls \<Rightarrow> later 0 s s1
   | WaitOn used' _ _ \<Rightarrow> (used' = used + 1 \<and> used < max_reconnects \<and> later 0 s s1) \<or>
       (used' = used \<and> deadline - cm_time s1 \<le> of_nat n * ad_progress_interval_s ad))"

lemma later_more: "later 0 s s' \<Longrightarrow> later k s s'"
  by (auto simp: later_def)

lemma wait_round_ok:
  assumes net: "net_ok net" and ad: "adapter_ok ad" and round: "wait_round net ad pid deadline used la ls s = (x, s1)"
    and t: "deadline - cm_time s \<le> of_nat (Suc n) * ad_progress_interval_s ad"
  shows "round_ok net ad pid deadline n used s x s1"
proof (cases "deadline - cm_time s \<le> 0")
  case False
  let ?T = "if ad_stall_timeout_s ad = None then deadline - cm_time s
    else min (deadline - cm_time s) (ad_progress_interval_s ad)"
  obtain how d where w: "cn_wait net (cm_log s) ?T = (how, d)" by fastforce
  let ?s = "step_by d (EvWait ?T) s"
  have "0 \<le> snd (cn_wait net (cm_log s) ?T)" "fst (cn_wait net (cm_log s) ?T) = TimeIsUp \<longrightarrow> ?T \<le> snd (cn_wait net (cm_log s) ?T)"
    using net unfolding net_ok_def by blast+
  then have d: "0 \<le> d" "how = TimeIsUp \<Longrightarrow> ?T \<le> d" unfolding w by simp_all
  have l: "later 0 s ?s" using d(1) by (rule step_by_later) simp
  show ?thesis
  proof (cases how)
    case TimeIsUp
    have run: "no_news net ad pid used la ls ?s = (x, s1)"
      using round w TimeIsUp False by (simp add: wait_round_def Let_def)
    note c = no_news_cases [OF net run]
    have "ad_stall_timeout_s ad = None \<longrightarrow> deadline \<le> cm_time ?s" using d(2) [OF TimeIsUp] by (auto simp: algebra_simps)
    note j = c(4) [OF this]
    have "deadline - cm_time ?s \<le> of_nat n * ad_progress_interval_s ad"
    proof (cases "ad_stall_timeout_s ad = None \<or> deadline - cm_time s \<le> ad_progress_interval_s ad")
      case True
      then have "deadline - cm_time ?s \<le> 0" using d(2) [OF TimeIsUp] by (auto split: if_splits)
      also have "0 \<le> of_nat n * ad_progress_interval_s ad" using ad by (simp add: adapter_ok_def)
      finally show ?thesis .
    next
      case False
      then have "ad_progress_interval_s ad \<le> d" using d(2) [OF TimeIsUp] by (auto simp: min_def split: if_splits)
      then show ?thesis using t by (simp add: algebra_simps)
    qed
    moreover have "cm_time ?s \<le> cm_time s1" using c(1) by (simp add: later_def)
    ultimately have "deadline - cm_time s1 \<le> of_nat n * ad_progress_interval_s ad" by linarith
    moreover have "later 1 s s1" using l c(1) by (rule later_trans) simp
    ultimately show ?thesis using j c(2,3) by (auto simp: round_ok_def split: wait_step.split)
  next
    case ReaderDone
    have run: "reader_ended net used la ls ?s = (x, s1)"
      using round w ReaderDone False by (simp add: wait_round_def Let_def)
    note c = reader_ended_cases [OF net run]
    have "later 0 s s1" using l c(1) by (rule later_trans) simp
    then show ?thesis using c(2,3) by (auto simp: round_ok_def later_more split: wait_step.split)
  next
    case FutureDone
    then have x: "x = WaitEnds (Inr ())" "s1 = ?s" using round w False by (simp_all add: wait_round_def Let_def)
    have "reported_done net pid (cm_log s)" using w FutureDone by (auto simp: reported_done_def intro: exI [of _ ?T])
    then have "justified net ad pid deadline (Inr ()) s1" by (rule justified_done) (simp add: x(2))
    then show ?thesis using l by (simp add: x round_ok_def later_more)
  qed
qed (use round in \<open>auto simp: wait_round_def round_ok_def\<close>)

lemma wait_loop_returns:
  assumes net: "net_ok net" and ad: "adapter_ok ad" and t: "deadline - cm_time s \<le> t"
  shows "deadline - cm_time s \<le> of_nat n * ad_progress_interval_s ad \<Longrightarrow> n + (max_reconnects - used) = k \<Longrightarrow>
    \<exists>r s'. wait_loop net ad pid deadline used la ls s = Some (r, s') \<and> later (n + poll_rounds ad t) s s' \<and>
      justified net ad pid deadline r s'"
  using t
proof (induction k arbitrary: n used la ls s rule: less_induct)
  case (less k)
  note unfold = wait_loop.simps [of net ad pid deadline used la ls s]
  obtain x s1 where round: "wait_round net ad pid deadline used la ls s = (x, s1)" by fastforce
  consider (fut) "cn_done net (cm_log s)" | (late) "\<not> cn_done net (cm_log s)" "n = 0"
    | (on) m where "\<not> cn_done net (cm_log s)" "n = Suc m" by (cases n) auto
  then show ?case
  proof cases
    case fut
    have "justified net ad pid deadline (Inr ()) s" using fut by (intro justified_done [of net pid "cm_log s"]) (auto simp: reported_done_def)
    then show ?thesis using fut by (auto simp: unfold)
  next
    case late
    with less.prems(1) round have "x = WaitEnds (Inl (ComfyTimeout (''wait_for_completion('' @ pid @ '') exceeded'')))" "s1 = s" "deadline \<le> cm_time s"
      by (auto simp: wait_round_def)
    then show ?thesis using late round by (auto simp: unfold)
  next
    case on
    have ok: "round_ok net ad pid deadline m used s x s1"
      using less.prems(1) unfolding on(2) by (rule wait_round_ok [OF net ad round])
    then have time: "cm_time s \<le> cm_time s1" by (simp add: round_ok_def later_def)
    show ?thesis
    proof (cases x)
      case (WaitEnds r)
      with ok have "later (n + poll_rounds ad t) s s1" by (auto simp: round_ok_def on(2) intro: later_trans [where n = 0])
      with WaitEnds ok on(1) round show ?thesis by (simp add: unfold round_ok_def)
    next
      case WaitPolls
      have "deadline - cm_time s1 \<le> t" using less.prems(3) time by linarith
      from poll_until_done_returns [OF net ad this] obtain r s' where
        r: "poll_until_done net ad pid deadline s1 = Some (r, s')" "later (poll_rounds ad t) s1 s'" "justified net ad pid deadline r s'"
        by blast
      have "later (n + poll_rounds ad t) s s'" using ok WaitPolls r(2) by (auto simp: round_ok_def intro: later_trans)
      with WaitPolls on(1) round r show ?thesis by (simp add: unfold)
    next
      case (WaitOn used' la' ls')
      define m' where "m' = (if used' = used then m else n)"
      have step: "later (n - m') s s1" "deadline - cm_time s1 \<le> of_nat m' * ad_progress_interval_s ad"
        "m' + (max_reconnects - used') < k" "m' \<le> n"
        using ok WaitOn less.prems(1,2) time on(2) by (auto simp: round_ok_def m'_def)
      have "deadline - cm_time s1 \<le> t" using less.prems(3) time by linarith
      from less.IH [OF step(3) step(2) refl this, of la' ls'] obtain r s' where
        r: "wait_loop net ad pid deadline used' la' ls' s1 = Some (r, s')" "later (m' + poll_rounds ad t) s1 s'"
          "justified net ad pid deadline r s'" by blast
      have "later (n + poll_rounds ad t) s s'" using step(1) r(2) by (rule later_trans) (use step(4) in simp)
      with WaitOn on(1) round r show ?thesis by (simp add: unfold)
    qed
  qed
qed

lemma wait_body_returns:
  assumes net: "net_ok net" and ad: "adapter_ok ad" and t: "deadline - cm_time s \<le> t"
  shows "\<exists>r s'. wait_body net ad pid deadline la ls s = Some (r, s') \<and>
    later (progress_rounds ad t + poll_rounds ad t) s s' \<and> justified net ad pid deadline r s'"
proof -
  obtain ok s1 where c: "try_connect net 2 s = (ok, s1)" by fastforce
  have l: "later 0 s s1" using try_connect_later [OF net c] .
  then have t1: "deadline - cm_time s1 \<le> t" using t by (auto simp: later_def)
  show ?thesis
  proof (cases ok)
    case True
    have "deadline - cm_time s1 \<le> of_nat (progress_rounds ad t) * ad_progress_interval_s ad"
      unfolding progress_rounds_def using t1 nat_ceiling_mult [of "ad_progress_interval_s ad" t] ad
      by (meson adapter_ok_def order_trans)
    from wait_loop_returns [OF net ad t1 this refl, of pid 0 la ls] obtain r s' where
      r: "wait_loop net ad pid deadline 0 la ls s1 = Some (r, s')" "later (progress_rounds ad t + poll_rounds ad t) s1 s'"
        "justified net ad pid deadline r s'" by blast
    have "later (progress_rounds ad t + poll_rounds ad t) s s'" using l r(2) by (rule later_trans) simp
    with r c True show ?thesis by (simp add: wait_body_def)
  next
    case False
    from poll_until_done_returns [OF net ad t1] obtain r s' where
      r: "poll_until_done net ad pid deadline s1 = Some (r, s')" "later (poll_rounds ad t) s1 s'"
        "justified net ad pid deadline r s'" by blast
    have "later (progress_rounds ad t + poll_rounds ad t) s s'" using l r(2) by (rule later_trans) simp
    with r c False show ?thesis by (simp add: wait_body_def)
  qed
qed

lemma wait_for_completion_returns:
  assumes net: "net_ok net" and ad: "adapter_ok ad" and fresh: "pid \<notin> set (cm_pending s)"
  shows "\<exists>r s'. wait_for_completion net ad pid t s = Some (r, s') \<and> cm_time s \<le> cm_time s' \<and>
    requests s' \<le> requests s + 1 + progress_rounds ad t + poll_rounds ad t \<and>
    justified net ad pid (cm_time s + t) r s' \<and>
    (cm_pending s' = cm_pending s \<or>
      (ad_stall_timeout_s ad \<noteq> None \<and> cm_pending s' = pid # cm_pending s \<and> (\<exists>m. r = Inl (Unexpected m))))"
proof -
  let ?s = "s\<lparr>cm_pending := pid # cm_pending s\<rparr>" and ?dl = "cm_time s + t"
  obtain x s1 where first: "(if ad_stall_timeout_s ad = None then return_p None else history_signature net pid) ?s = (x, s1)"
    by fastforce
  have l: "later 1 ?s s1"
    using first history_signature_later [OF net, of pid ?s x s1] by (auto simp: return_p_def split: if_splits)
  have u: "only_unexpected x" "ad_stall_timeout_s ad = None \<Longrightarrow> x = Inr None"
    using first history_signature_unexpected [of net pid ?s x s1] by (auto simp: return_p_def split: if_splits)
  show ?thesis
  proof (cases x)
    case (Inl e)
    then obtain m where "e = Unexpected m" using u(1) by (auto simp: only_unexpected_def is_unexpected_def)
    with Inl u first fresh l show ?thesis
      by (auto simp: wait_for_completion_def Let_def later_def requests_def)
  next
    case (Inr sig)
    have t1: "?dl - cm_time s1 \<le> t" using l by (auto simp: later_def)
    from wait_body_returns [OF net ad t1, of pid "cm_time s" sig] obtain r s2 where
      r: "wait_body net ad pid ?dl (cm_time s) sig s1 = Some (r, s2)"
        "later (progress_rounds ad t + poll_rounds ad t) s1 s2" "justified net ad pid ?dl r s2" by blast
    have later: "later (1 + progress_rounds ad t + poll_rounds ad t) ?s s2" using l r(2) by (rule later_trans) simp
    let ?s' = "s2\<lparr>cm_pending := removeAll pid (cm_pending s2)\<rparr>"
    have "wait_for_completion net ad pid t s = Some (r, ?s')"
      using first Inr fresh r(1) by (simp add: wait_for_completion_def Let_def)
    moreover have "justified net ad pid ?dl r ?s'" using r(3) by (simp add: justified_def split: sum.splits)
    ultimately show ?thesis using later fresh by (auto simp: later_def requests_def)
  qed
qed

section \<open>Unloading ends and tells the truth\<close>

lemma read_vram_free_step:
  assumes "net_ok net" "read_vram_free net s = (x, s1)"
  shows "later 1 s s1" "cm_log s1 = cm_log s @ [EvHttp GetStats]" "x = vram_free_of (fst (cn_http net (cm_log s) GetStats))"
  using bind_http [OF assms(1) assms(2) [unfolded read_vram_free_def]] assms(2)
  by (auto simp: pure_p_def read_vram_free_def bind_p_def http_def split: prod.splits)

lemma first_device_unexpected [simp]: "only_unexpected (first_device v)"
  by (auto simp: first_device_def intro!: only_unexpected_bind split: pyval.split list.split)

lemma vram_free_unexpected [simp]: "only_unexpected (vram_free_of a)"
  by (auto simp: vram_free_of_def intro!: only_unexpected_bind split: http_answer.split option.split)

text \<open>A reading of the free memory at the point \<open>h\<close> of the log.\<close>

definition reading :: "comfy_net \<Rightarrow> comfy_event list \<Rightarrow> int \<Rightarrow> bool" where
  "reading net h n \<longleftrightarrow> vram_free_of (fst (cn_http net h GetStats)) = Inr (Some n)"

lemma baseline_loop_returns:
  assumes net: "net_ok net"
  shows "until - cm_time s \<le> of_nat n * (1 / 5) \<Longrightarrow>
    \<exists>r s'. baseline_loop net until s = Some (r, s') \<and> later n s s' \<and> only_unexpected r \<and>
      (\<forall>b. r = Inr (Some b) \<longrightarrow> (\<exists>h. cm_log s' = h @ [EvHttp GetStats] \<and> reading net h b))"
proof (induction n arbitrary: s)
  case 0
  then show ?case by (simp add: baseline_loop.simps)
next
  case (Suc n)
  note unfold = baseline_loop.simps [of net until s]
  obtain x s1 where r: "read_vram_free net s = (x, s1)" by fastforce
  note step = read_vram_free_step [OF net r]
  have u: "only_unexpected x" by (simp add: step(3))
  show ?case
  proof (cases "until \<le> cm_time s \<or> x \<noteq> Inr None")
    case True
    then show ?thesis using r step(1,2) u step(3) [symmetric]
      by (auto simp: unfold reading_def only_unexpected_def split: sum.split option.split intro: later_trans [where n = 0])
  next
    case False
    have "until - cm_time (sleep net (1 / 5) s1) \<le> of_nat n * (1 / 5)"
      using Suc.prems sleep_time [OF net, of s1 "1 / 5"] step(1) by (simp add: later_def algebra_simps)
    from Suc.IH [OF this] obtain y s' where
      y: "baseline_loop net until (sleep net (1 / 5) s1) = Some (y, s')" "later n (sleep net (1 / 5) s1) s'" "only_unexpected y"
        "\<forall>b. y = Inr (Some b) \<longrightarrow> (\<exists>h. cm_log s' = h @ [EvHttp GetStats] \<and> reading net h b)" by blast
    have "later n s1 s'" using sleep_later [OF net] y(2) by (rule later_trans) simp_all
    then have "later (Suc n) s s'" using step(1) by (auto intro: later_trans)
    with y r False show ?thesis by (simp add: unfold)
  qed
qed

lemma verify_loop_returns:
  assumes net: "net_ok net"
  shows "deadline - cm_time s \<le> of_nat n * (1 / 2) \<Longrightarrow>
    \<exists>r s'. verify_loop net deadline b s = Some (r, s') \<and> later n s s' \<and> only_unexpected r \<and>
      (r = Inr True \<longrightarrow> (\<exists>h m. prefix (cm_log s) h \<and> prefix h (cm_log s') \<and> reading net h m \<and> b < m))"
proof (induction n arbitrary: s)
  case 0
  then show ?case by (simp add: verify_loop.simps)
next
  case (Suc n)
  note unfold = verify_loop.simps [of net deadline b s]
  obtain x s1 where r: "read_vram_free net s = (x, s1)" by fastforce
  note step = read_vram_free_step [OF net r]
  have u: "only_unexpected x" by (simp add: step(3))
  show ?case
  proof (cases "deadline \<le> cm_time s \<or> (\<exists>e. x = Inl e) \<or> (\<exists>m. x = Inr (Some m) \<and> b < m)")
    case True
    note l = later_trans [OF step(1) later_refl [of 0], of "Suc n", simplified]
    consider (late) "deadline \<le> cm_time s" | (error) e where "\<not> deadline \<le> cm_time s" "x = Inl e"
      | (more) m where "\<not> deadline \<le> cm_time s" "x = Inr (Some m)" "b < m" using True by blast
    then show ?thesis
    proof cases
      case more
      then have "reading net (cm_log s) m" by (simp add: reading_def step(3))
      then have "\<exists>h m. prefix (cm_log s) h \<and> prefix h (cm_log s1) \<and> reading net h m \<and> b < m"
        using more(3) by (intro exI [of _ "cm_log s"] exI [of _ m]) (simp add: step(2))
      with more l r show ?thesis by (simp add: unfold)
    next
      case error
      with u l r show ?thesis by (auto simp: unfold only_unexpected_def)
    qed (simp add: unfold)
  next
    case False
    have "deadline - cm_time (sleep net (1 / 2) s1) \<le> of_nat n * (1 / 2)"
      using Suc.prems sleep_time [OF net, of s1 "1 / 2"] step(1) by (simp add: later_def algebra_simps)
    from Suc.IH [OF this] obtain y s' where
      y: "verify_loop net deadline b (sleep net (1 / 2) s1) = Some (y, s')" "later n (sleep net (1 / 2) s1) s'" "only_unexpected y"
        "y = Inr True \<longrightarrow> (\<exists>h m. prefix (cm_log (sleep net (1 / 2) s1)) h \<and> prefix h (cm_log s') \<and> reading net h m \<and> b < m)" by blast
    have l: "later n s1 s'" using sleep_later [OF net] y(2) by (rule later_trans) simp_all
    then have l': "later (Suc n) s s'" using step(1) by (auto intro: later_trans)
    have p: "prefix (cm_log s) (cm_log (sleep net (1 / 2) s1))" by (simp add: sleep_def step(2))
    have "verify_loop net deadline b s = Some (y, s')"
      using y(1) r False by (cases x) (auto simp: unfold split: option.split)
    with y(3,4) l' p show ?thesis by (blast intro: prefix_order.trans)
  qed
qed

lemma post_only_step:
  assumes "net_ok net" "post_only net what r s = (x, s1)"
  shows "later 1 s s1" "cm_log s1 = cm_log s @ [EvHttp r]" "x = Inl e \<Longrightarrow> \<exists>m. e = ComfyUnreachable (what @ m)"
  using bind_http [OF assms(1) assms(2) [unfolded post_only_def]] assms(2)
  by (auto simp: pure_p_def post_only_def bind_p_def http_def split: prod.splits http_answer.splits)

text \<open>The requests that a timeout of \<open>t\<close> allows: the baseline, \<open>/free\<close> and the verification.\<close>

definition unload_rounds :: "rat \<Rightarrow> nat" where
  "unload_rounds t = nat \<lceil>min 5 (t / 4) / (1 / 5)\<rceil> + 1 + nat \<lceil>t / (1 / 2)\<rceil>"

lemma unload_models_returns:
  assumes net: "net_ok net"
  shows "\<exists>r s'. unload_models net t s = Some (r, s') \<and> later (unload_rounds t) s s' \<and>
    (r = Inr True \<longrightarrow> (\<exists>h1 h2 b n. reading net h1 b \<and> reading net h2 n \<and> b < n \<and>
       prefix (h1 @ [EvHttp GetStats, EvHttp PostFree]) h2 \<and> prefix h2 (cm_log s'))) \<and>
    (\<forall>e. r = Inl e \<longrightarrow> is_unexpected e \<or> (\<exists>m. e = ComfyUnreachable (''POST /free: '' @ m))) \<and>
    (EvHttp PostFree \<in> set (cm_log s') \<or> (\<exists>m. r = Inl (Unexpected m)))"
proof -
  let ?until = "cm_time s + min 5 (t / 4)"
  have "?until - cm_time s \<le> of_nat (nat \<lceil>min 5 (t / 4) / (1 / 5)\<rceil>) * (1 / 5)"
    using nat_ceiling_mult [of "1 / 5" "min 5 (t / 4)"] by simp
  from baseline_loop_returns [OF net this] obtain x s1 where
    base: "baseline_loop net ?until s = Some (x, s1)" "later (nat \<lceil>min 5 (t / 4) / (1 / 5)\<rceil>) s s1" "only_unexpected x"
      "\<forall>b. x = Inr (Some b) \<longrightarrow> (\<exists>h. cm_log s1 = h @ [EvHttp GetStats] \<and> reading net h b)" by blast
  have l1: "later (unload_rounds t) s s1" using base(2) by (rule later_trans [where n = 0]) (simp_all add: unload_rounds_def)
  obtain p s2 where post: "post_only net ''POST /free: '' PostFree s1 = (p, s2)" by fastforce
  note ps = post_only_step [OF net post]
  have l2: "later (unload_rounds t) s s2" using base(2) ps(1) by (rule later_trans) (simp add: unload_rounds_def)
  consider (early) e where "x = Inl e" | (refused) b e where "x = Inr b" "p = Inl e" | (blind) u where "x = Inr None" "p = Inr u"
    | (verify) b u where "x = Inr (Some b)" "p = Inr u"
    by (metis option.exhaust sum.exhaust)
  then show ?thesis
  proof cases
    case early
    with base(1,3) l1 show ?thesis by (auto simp: unload_models_def Let_def only_unexpected_def is_unexpected_def)
  next
    case refused
    with base(1) post l2 ps(2,3) show ?thesis by (auto simp: unload_models_def Let_def)
  next
    case blind
    with base(1) post l2 ps(2) show ?thesis by (auto simp: unload_models_def Let_def)
  next
    case verify
    have "cm_time s + t - cm_time s2 \<le> t" using l2 by (simp add: later_def)
    then have "cm_time s + t - cm_time s2 \<le> of_nat (nat \<lceil>t / (1 / 2)\<rceil>) * (1 / 2)"
      using nat_ceiling_mult [of "1 / 2" t] by (meson order_trans half_gt_zero zero_less_one)
    from verify_loop_returns [OF net this, of b] obtain r s3 where
      v: "verify_loop net (cm_time s + t) b s2 = Some (r, s3)" "later (nat \<lceil>t / (1 / 2)\<rceil>) s2 s3" "only_unexpected r"
        "r = Inr True \<longrightarrow> (\<exists>h m. prefix (cm_log s2) h \<and> prefix h (cm_log s3) \<and> reading net h m \<and> b < m)" by blast
    have "later (nat \<lceil>min 5 (t / 4) / (1 / 5)\<rceil> + 1) s s2" using base(2) ps(1) by (rule later_trans) simp
    then have l3: "later (unload_rounds t) s s3" using v(2) by (rule later_trans) (simp add: unload_rounds_def)
    from base(4) verify(1) obtain h1 where h1: "cm_log s1 = h1 @ [EvHttp GetStats]" "reading net h1 b" by auto
    have free: "EvHttp PostFree \<in> set (cm_log s3)" using v(2) ps(2) by (auto simp: later_def dest: set_mono_prefix)
    have run: "unload_models net t s = Some (r, s3)" using base(1) post verify v(1) by (simp add: unload_models_def Let_def)
    have true: "\<exists>h1 h2 b n. reading net h1 b \<and> reading net h2 n \<and> b < n \<and>
       prefix (h1 @ [EvHttp GetStats, EvHttp PostFree]) h2 \<and> prefix h2 (cm_log s3)" if "r = Inr True"
    proof -
      from that v(4) obtain h m where h: "prefix (cm_log s2) h" "prefix h (cm_log s3)" "reading net h m" "b < m" by blast
      have "prefix (h1 @ [EvHttp GetStats, EvHttp PostFree]) h" using h(1) by (simp add: ps(2) h1(1))
      with h h1(2) show ?thesis by blast
    qed
    show ?thesis
      using true v(3) by (intro exI [of _ r] exI [of _ s3] conjI run l3) (auto simp: free only_unexpected_def)
  qed
qed

section \<open>The adapter behind the worker\<close>

lemma bind_p_fst: "fst (bind_p m f s) = (case m s of (Inl e, s') \<Rightarrow> Inl e | (Inr x, s') \<Rightarrow> fst (f x s'))"
  by (simp add: bind_p_def split: prod.split sum.split)

text \<open>Which errors an effect raises.\<close>

definition raises_only :: "(pipe_error \<Rightarrow> bool) \<Rightarrow> ('s, 'a) effect \<Rightarrow> bool" where
  "raises_only P m \<longleftrightarrow> (\<forall>s e. fst (m s) = Inl e \<longrightarrow> P e)"

lemma raises_bind: "raises_only P m \<Longrightarrow> (\<And>x. raises_only P (f x)) \<Longrightarrow> raises_only P (bind_p m f)"
  unfolding raises_only_def bind_p_fst by (auto split: prod.splits sum.splits) (metis fst_conv)

lemma raises_basic [simp]: "raises_only P (return_p x)" "raises_only P (http net r)"
  "raises_only P (pure_p y) \<longleftrightarrow> (\<forall>e. y = Inl e \<longrightarrow> P e)"
  by (auto simp: raises_only_def return_p_def http_def pure_p_def split: prod.split)

lemma raises_each: "(\<And>x. raises_only P (f x)) \<Longrightarrow> raises_only P (each f xs)"
  by (induction xs) (auto intro!: raises_bind)

definition comfy_error :: "pipe_error \<Rightarrow> bool" where
  "comfy_error e \<longleftrightarrow> unreachable_or_unexpected e \<or> (\<exists>m. e = ComfyNode m)"

lemma comfy_error_simps [simp]: "comfy_error (ComfyUnreachable m)" "comfy_error (ComfyNode m)" "comfy_error (Unexpected m)"
  "\<not> comfy_error (ComfyTimeout m)" "\<not> comfy_error (StorageErr m)"
  by (auto simp: comfy_error_def)

lemma unexpected_comfy: "only_unexpected r \<Longrightarrow> r = Inl e \<Longrightarrow> comfy_error e"
  by (auto simp: only_unexpected_def is_unexpected_def)

lemma bind_r_raises: "(\<And>e. m = Inl e \<Longrightarrow> P e) \<Longrightarrow> (\<And>x e. m = Inr x \<Longrightarrow> f x = Inl e \<Longrightarrow> P e) \<Longrightarrow> bind_r m f = Inl e \<Longrightarrow> P e"
  by (auto simp: bind_r_Inl)

lemma errored_comfy: "raise_if_errored net v = Inl e \<Longrightarrow> comfy_error e"
  using raise_if_errored_Inl by (fastforce simp: is_unexpected_def)

lemmas json_comfy = json_unexpected [THEN unexpected_comfy] errored_comfy

lemma calls_comfy:
  "prompt_id_of net a = Inl e \<Longrightarrow> comfy_error e" "upload_name_of net a = Inl e \<Longrightarrow> comfy_error e"
  "history_outputs net pid a = Inl e \<Longrightarrow> comfy_error e" "view_bytes a = Inl e \<Longrightarrow> comfy_error e"
  "view_params v = Inl e \<Longrightarrow> comfy_error e" "media_suffix k v = Inl e \<Longrightarrow> comfy_error e"
  by (auto simp: prompt_id_of_def upload_name_of_def history_outputs_def view_bytes_def view_params_def media_suffix_def
      bind_r_Inl Let_def split: http_answer.splits if_splits pyval.splits dest: json_comfy)

lemma fetches_comfy:
  "raises_only comfy_error (fetch_outputs net pid)" "raises_only comfy_error (fetch_media_outputs net pid)"
  "raises_only comfy_error (submit net g)" "raises_only comfy_error (upload_image net bytes fn)"
proof -
  have view: "raises_only comfy_error (view net p)" for p
    by (cases p) (auto simp: view_def intro!: raises_bind dest: calls_comfy)
  show "raises_only comfy_error (fetch_outputs net pid)" "raises_only comfy_error (fetch_media_outputs net pid)"
    "raises_only comfy_error (submit net g)" "raises_only comfy_error (upload_image net bytes fn)"
    unfolding fetch_outputs_def fetch_media_outputs_def fetch_media_def submit_def upload_image_def
    by (auto intro!: raises_bind raises_each view split: prod.split simp: bind_r_Inl)
      (erule calls_comfy json_comfy)+
qed

text \<open>
  The answers that the pipelines get when this adapter is their backend. \<open>st\<close> is the adapter's
  state at each of the calls: upload, unload, health, submit, wait and fetch, in this order. A prompt
  id is a text; an upload's name is not looked at. A wait that never returned would be the
  exception \<open>never\<close>.
\<close>

definition text_answer :: "pipe_error + pyval \<Rightarrow> pipe_error + string" where
  "text_answer r = bind_r r (\<lambda>v. case v of VStr t \<Rightarrow> Inr t | _ \<Rightarrow> Inl (Unexpected ''prompt_id''))"

definition returned :: "((pipe_error + 'a) \<times> comfy) option \<Rightarrow> pipe_error + 'a" where
  "returned r = (case r of None \<Rightarrow> Inl (Unexpected ''never'') | Some (x, _) \<Rightarrow> x)"

definition health_answer :: "pipe_error + pydict \<Rightarrow> (string \<times> pyval) option" where
  "health_answer r = (case r of Inl _ \<Rightarrow> None
     | Inr d \<Rightarrow> (case dict_get d ''status'' of VStr st \<Rightarrow> Some (st, dict_get d ''vram_free_gb'') | _ \<Rightarrow> None))"

definition adapter_world ::
  "comfy_net \<Rightarrow> adapter \<Rightarrow> (nat \<Rightarrow> comfy) \<Rightarrow> string \<Rightarrow> string \<Rightarrow> string \<Rightarrow> graph \<Rightarrow> rat \<Rightarrow> backend_world \<Rightarrow> backend_world" where
  "adapter_world net ad st pid bytes filename g t w = w\<lparr>
     bw_upload := bind_r (fst (upload_image net bytes filename (st 0))) (\<lambda>_. Inr ()),
     bw_unload := returned (unload_models net 30 (st 1)),
     bw_health := health_answer (fst (health net (st 2))),
     bw_submit := text_answer (fst (submit net g (st 3))),
     bw_wait := returned (wait_for_completion net ad pid t (st 4)),
     bw_fetch := fst (fetch_outputs net pid (st 5)),
     bw_has_fetch_media := True,
     bw_fetch_media := fst (fetch_media_outputs net pid (st 5))\<rparr>"

text \<open>The places where the adapter goes beyond what the pipelines provide for.\<close>

definition unforeseen :: "backend_world \<Rightarrow> bool" where
  "unforeseen w \<longleftrightarrow> (\<exists>m. bw_upload w = Inl (ComfyNode m) \<or> bw_unload w = Inl (ComfyUnreachable m) \<or>
     bw_wait w = Inl (ComfyNode m) \<or> bw_fetch w = Inl (ComfyNode m) \<or> bw_fetch_media w = Inl (ComfyNode m))"

definition storage_contract :: "backend_world \<Rightarrow> bool" where
  "storage_contract w \<longleftrightarrow> bw_running_write_ok w \<and>
     (\<forall>k e. bw_put w k = Inl e \<longrightarrow> is_unexpected e \<or> (\<exists>m. e = StorageErr m))"

lemma text_answer_comfy: "text_answer r = Inl e \<Longrightarrow> (\<And>e. r = Inl e \<Longrightarrow> comfy_error e) \<Longrightarrow> comfy_error e"
proof (cases r)
  case (Inr v)
  then show "text_answer r = Inl e \<Longrightarrow> comfy_error e" by (cases v) (auto simp: text_answer_def)
qed (simp add: text_answer_def)

lemma comfy_foreseen: "comfy_error e \<Longrightarrow> (\<And>m. e \<noteq> ComfyNode m) \<Longrightarrow> unreachable_or_unexpected e"
  by (cases e) auto

text \<open>
  C6: The adapter keeps the contract of the pipelines, except where named. With the storage
  as the pipelines expect it, the adapter's calls raise only the exceptions that the queue
  worker records, unless an upload, a wait or a fetch raises \<open>ComfyNodeError\<close> or an unload
  raises \<open>ComfyUnreachableError\<close>; each of these breaks the contract.
\<close>

theorem adapter_meets_contract:
  assumes "net_ok net" "comfy_init poll_ms stall interval env = Inr ad" "pid \<notin> set (cm_pending (st 4))"
    and "storage_contract w"
  shows "backend_contract (adapter_world net ad st pid bytes filename g t w) \<longleftrightarrow>
    \<not> unforeseen (adapter_world net ad st pid bytes filename g t w)"
proof
  let ?w = "adapter_world net ad st pid bytes filename g t w"
  show "\<not> unforeseen ?w" if "backend_contract ?w"
    using that by (auto simp: unforeseen_def backend_contract_def is_unexpected_def)
  assume ok: "\<not> unforeseen ?w"
  have upload: "comfy_error e" if "bw_upload ?w = Inl e" for e
    using that fetches_comfy(4) [of net bytes filename] by (auto simp: adapter_world_def bind_r_Inl raises_only_def)
  have submit: "comfy_error e" if "bw_submit ?w = Inl e" for e
  proof -
    have "text_answer (fst (submit net g (st 3))) = Inl e" using that by (simp add: adapter_world_def)
    then show ?thesis by (rule text_answer_comfy) (use fetches_comfy(3) [of net g] in \<open>simp add: raises_only_def\<close>)
  qed
  have fetch: "comfy_error e" if "bw_fetch ?w = Inl e \<or> bw_fetch_media ?w = Inl e" for e
    using that fetches_comfy(1,2) [of net pid] by (auto simp: adapter_world_def raises_only_def)
  have unload: "is_unexpected e \<or> (\<exists>m. e = ComfyUnreachable m)" if "bw_unload ?w = Inl e" for e
    using that unload_models_returns [OF assms(1), of 30 "st 1"] by (auto simp: adapter_world_def returned_def)
  obtain r s' where "wait_for_completion net ad pid t (st 4) = Some (r, s')" "justified net ad pid (cm_time (st 4) + t) r s'"
    using wait_for_completion_returns [OF assms(1) comfy_init_ok [OF assms(2)] assms(3)] by blast
  then have wait: "\<not> is_storage e" if "bw_wait ?w = Inl e" for e
    using that by (simp add: adapter_world_def returned_def)
  have wait': "unreachable_or_unexpected e \<or> (\<exists>m. e = ComfyTimeout m)" if "bw_wait ?w = Inl e" for e
    using wait [OF that] that ok by (cases e) (auto simp: unforeseen_def)
  have "bw_running_write_ok ?w = bw_running_write_ok w" "bw_put ?w = bw_put w" by (simp_all add: adapter_world_def)
  then show "backend_contract ?w"
    using assms(4) ok wait' upload submit fetch unload
    unfolding backend_contract_def storage_contract_def unforeseen_def
    by (intro conjI allI impI) (metis comfy_foreseen is_unexpected_def comfy_error_def)+
qed

text \<open>The history reports that the execution of the prompt failed.\<close>

definition history_failed :: "string \<Rightarrow> http_answer \<Rightarrow> bool" where
  "history_failed pid a \<longleftrightarrow> (\<exists>r data entry st. a = Answered r \<and> ht_status r = 200 \<and> ht_json r = Some (VDict data) \<and>
     py_or (dict_get data pid) (VDict []) = VDict entry \<and> py_or (dict_get entry ''status'') (VDict []) = VDict st \<and>
     dict_get st ''status_str'' \<notin> {VNone, VStr ''success''})"

lemma fetch_reports_failure:
  assumes "history_failed pid (fst (cn_http net (cm_log s) (GetHistory pid)))"
  shows "\<exists>m. fst (fetch_outputs net pid s) = Inl (ComfyNode m) \<and> fst (fetch_media_outputs net pid s) = Inl (ComfyNode m)"
proof -
  let ?a = "fst (cn_http net (cm_log s) (GetHistory pid))"
  from assms obtain m where "history_outputs net pid ?a = Inl (ComfyNode m)"
    by (auto simp: history_failed_def history_outputs_def resp_json_def py_get_or_def py_get_def raise_if_errored_def)
  moreover obtain a d where "cn_http net (cm_log s) (GetHistory pid) = (a, d)" by fastforce
  ultimately show ?thesis
    by (intro exI [of _ m]) (simp add: fetch_outputs_def fetch_media_outputs_def bind_p_fst http_def pure_p_def)
qed

section \<open>What the adapter guarantees\<close>

text \<open>
  C5: Waiting for a prompt always ends, and ends for a reason. Whatever ComfyUI answers, with
  the websocket up, lost or never there, \<open>wait_for_completion\<close> returns after at most one HTTP
  request for each progress interval and each poll pause of the timeout and one more. If it
  succeeds, the prompt's future was resolved or the history reported success; without a stall
  timeout it times out at the deadline and not before; and the prompt is no longer registered
  as pending, unless an answer that cannot be read raised before the wait proper.
\<close>

theorem wait_always_returns:
  assumes "net_ok net" "comfy_init poll_ms stall interval env = Inr ad" "pid \<notin> set (cm_pending s)"
  shows "\<exists>r s'. wait_for_completion net ad pid t s = Some (r, s') \<and> cm_time s \<le> cm_time s' \<and>
    requests s' \<le> requests s + 1 + progress_rounds ad t + poll_rounds ad t \<and>
    (r = Inr () \<longrightarrow> (\<exists>h. prefix h (cm_log s') \<and> reported_done net pid h)) \<and>
    (\<forall>m. r = Inl (ComfyTimeout m) \<and> ad_stall_timeout_s ad = None \<longrightarrow> cm_time s + t \<le> cm_time s') \<and>
    (cm_pending s' = cm_pending s \<or> (cm_pending s' = pid # cm_pending s \<and> (\<exists>m. r = Inl (Unexpected m))))"
proof -
  obtain r s' where w: "wait_for_completion net ad pid t s = Some (r, s')" "cm_time s \<le> cm_time s'"
    "requests s' \<le> requests s + 1 + progress_rounds ad t + poll_rounds ad t" "justified net ad pid (cm_time s + t) r s'"
    "cm_pending s' = cm_pending s \<or>
      (ad_stall_timeout_s ad \<noteq> None \<and> cm_pending s' = pid # cm_pending s \<and> (\<exists>m. r = Inl (Unexpected m)))"
    using wait_for_completion_returns [OF assms(1) comfy_init_ok [OF assms(2)] assms(3)] by blast
  then show ?thesis by (intro exI [of _ r] exI [of _ s'] conjI) (auto simp: justified_def split: sum.splits)
qed

text \<open>
  Unloading always ends and never claims success without evidence. After at most
  \<open>unload_rounds\<close> requests \<open>unload_models\<close> returns; if it returns \<open>True\<close>, the free memory was
  read right before \<open>/free\<close> was posted and a strictly larger value was read afterwards; and
  \<open>/free\<close> is posted in every case but one: a statistics answer that cannot be read raises
  before it, although the method promises to post always.
\<close>

theorem unload_verified:
  assumes "net_ok net" and "EvHttp PostFree \<notin> set (cm_log s)"
  shows "\<exists>r s'. unload_models net t s = Some (r, s') \<and> requests s' \<le> requests s + unload_rounds t \<and>
    cm_time s \<le> cm_time s' \<and>
    (r = Inr True \<longrightarrow> (\<exists>h1 h2 b n. reading net h1 b \<and> reading net h2 n \<and> b < n \<and>
       prefix (h1 @ [EvHttp GetStats, EvHttp PostFree]) h2 \<and> prefix h2 (cm_log s'))) \<and>
    (EvHttp PostFree \<in> set (cm_log s') \<or> (\<exists>m. r = Inl (Unexpected m)))"
proof -
  from unload_models_returns [OF assms(1), of t s] obtain r s' where
    "unload_models net t s = Some (r, s')" "later (unload_rounds t) s s'"
    "r = Inr True \<longrightarrow> (\<exists>h1 h2 b n. reading net h1 b \<and> reading net h2 n \<and> b < n \<and>
       prefix (h1 @ [EvHttp GetStats, EvHttp PostFree]) h2 \<and> prefix h2 (cm_log s'))"
    "EvHttp PostFree \<in> set (cm_log s') \<or> (\<exists>m. r = Inl (Unexpected m))" by blast
  then show ?thesis by (intro exI [of _ r] exI [of _ s'] conjI) (auto simp: later_def)
qed

text \<open>
  C37: A prompt whose execution fails leaves its job running for good. When the websocket
  reports the end of a prompt and the history then says that its execution failed, the
  adapter raises \<open>ComfyNodeError\<close> on fetching, the caller gets it, and the row of the job
  stays \<open>running\<close>: no step of the worker records the failure.
\<close>

theorem failed_execution_strands_job:
  assumes "process_item (adapter_world net ad st pid bytes filename g t w) j s = (outcome, s')"
    and "wait_for_completion net ad pid t (st 4) = Some (Inr (), st 5)"
    and "history_failed pid (fst (cn_http net (cm_log (st 5)) (GetHistory pid)))"
    and "wk_calls s = []" and "CWait p timeout \<in> set (wk_calls s')"
  shows "\<exists>m. outcome = Rejected (ComfyNode m) \<and>
    (\<exists>row. get_by_id (wk_jobs s') (j_id j) = Some row \<and> j_status row = Running) \<and> 0 < count_active (wk_jobs s')"
proof -
  from fetch_reports_failure [OF assms(3)] assms(2)
  obtain m where "reports_node_error (adapter_world net ad st pid bytes filename g t w) m"
    by (auto simp: reports_node_error_def adapter_world_def returned_def)
  with assms(1,4,5) show ?thesis by (blast dest: node_error_leaves_running)
qed

section \<open>An example\<close>

text \<open>
  A ComfyUI whose prompt failed, with a websocket that says so, and whose memory grows when
  it is asked to free it.
\<close>

definition demo_history :: pyval where
  "demo_history = VDict [(''p1'', VDict [(''status'', VDict [(''status_str'', VStr ''error''), (''completed'', VBool True)]),
     (''outputs'', VDict [])])]"

definition demo_stats :: "int \<Rightarrow> pyval" where
  "demo_stats n = VDict [(''devices'', VList [VDict [(''vram_free'', VInt n)]])]"

definition demo_ok :: "pyval \<Rightarrow> http_answer \<times> rat" where
  "demo_ok v = (Answered \<lparr>ht_status = 200, ht_text = ''ok'', ht_json = Some v\<rparr>, 1 / 10)"

definition demo_net :: "bool \<Rightarrow> comfy_net" where
  "demo_net ws = \<lparr>cn_http = (\<lambda>h r. case r of
       GetHistory _ \<Rightarrow> demo_ok demo_history
     | GetStats \<Rightarrow> demo_ok (demo_stats (if EvHttp PostFree \<in> set h then 800 else 100))
     | PostPrompt _ \<Rightarrow> demo_ok (VDict [(''prompt_id'', VStr ''p1'')])
     | _ \<Rightarrow> demo_ok (VDict [])),
     cn_sleep = (\<lambda>h d. d), cn_connect = (\<lambda>h. (ws, 0)), cn_wait = (\<lambda>h d. (FutureDone, 0)),
     cn_ws_alive = (\<lambda>h. False), cn_done = (\<lambda>h. False), cn_str = (\<lambda>_. ''x''), cn_repr = (\<lambda>_. ''x'')\<rparr>"

definition demo_comfy :: comfy where
  "demo_comfy = \<lparr>cm_time = 0, cm_log = [], cm_pending = []\<rparr>"

definition demo_adapter :: adapter where
  "demo_adapter = \<lparr>ad_poll_interval_s = 1, ad_stall_timeout_s = None, ad_progress_interval_s = 2\<rparr>"

lemma demo_init: "comfy_init 1000 None 2 None = Inr demo_adapter"
  by (simp add: comfy_init_def demo_adapter_def)

lemma demo_net_ok: "net_ok (demo_net ws)"
  by (auto simp: net_ok_def demo_net_def demo_ok_def split: comfy_request.split)

theorem wait_always_returns_witness:
  "\<exists>r s'. wait_for_completion (demo_net False) demo_adapter ''p1'' 10 demo_comfy = Some (r, s') \<and> requests s' \<le> 1006"
proof -
  have "progress_rounds demo_adapter 10 = 5" "poll_rounds demo_adapter 10 = 1000" "requests demo_comfy = 0"
    by (simp_all add: progress_rounds_def poll_rounds_def demo_adapter_def requests_def demo_comfy_def)
  with wait_always_returns [OF demo_net_ok demo_init, of "''p1''" demo_comfy False 10] show ?thesis
    by (auto simp: demo_comfy_def)
qed

theorem unload_verified_witness:
  "\<exists>r s'. unload_models (demo_net True) 30 demo_comfy = Some (r, s') \<and> requests s' \<le> 86"
proof -
  have "unload_rounds 30 = 86" "requests demo_comfy = 0" by (simp_all add: unload_rounds_def requests_def demo_comfy_def)
  with unload_verified [OF demo_net_ok, of demo_comfy True 30] show ?thesis by (auto simp: demo_comfy_def)
qed

definition demo_waited :: comfy where
  "demo_waited = \<lparr>cm_time = 0, cm_log = [EvConnect, EvWait 10], cm_pending = []\<rparr>"

definition demo_states :: "nat \<Rightarrow> comfy" where
  "demo_states k = (if k = 5 then demo_waited else demo_comfy)"

definition demo_comfy_world :: backend_world where
  "demo_comfy_world = adapter_world (demo_net True) demo_adapter demo_states ''p1'' [] [] [] 10 demo_world"

lemma demo_wait: "wait_for_completion (demo_net True) demo_adapter ''p1'' 10 demo_comfy = Some (Inr (), demo_waited)"
  by (simp add: wait_for_completion_def demo_comfy_def demo_waited_def demo_adapter_def demo_net_def wait_body_def
      try_connect.simps ensure_ws_def step_by_def wait_loop.simps wait_round_def return_p_def numeral_2_eq_2)

lemma demo_failed: "history_failed ''p1'' (fst (cn_http (demo_net True) h (GetHistory ''p1'')))"
  by (simp add: history_failed_def demo_net_def demo_ok_def demo_history_def py_or_def)

theorem adapter_meets_contract_witness: "\<not> backend_contract demo_comfy_world"
proof -
  have "storage_contract demo_world" by (simp add: storage_contract_def demo_world_def)
  moreover have "unforeseen demo_comfy_world"
    using fetch_reports_failure [OF demo_failed [of "cm_log (demo_states 5)"]]
    by (auto simp: unforeseen_def demo_comfy_world_def adapter_world_def)
  ultimately show ?thesis
    using adapter_meets_contract [OF demo_net_ok demo_init, of "''p1''" demo_states demo_world True "[]" "[]" "[]" 10]
    by (simp add: demo_comfy_world_def demo_states_def demo_comfy_def)
qed

declare poll_loop.simps [code] wait_loop.simps [code] baseline_loop.simps [code] verify_loop.simps [code]

lemma demo_comfy_run:
  "case process_item demo_comfy_world demo_job demo_worker of (out, s') \<Rightarrow> list_ex is_wait (wk_calls s')"
  by code_simp

theorem failed_execution_strands_job_witness:
  "case process_item demo_comfy_world demo_job demo_worker of (out, s') \<Rightarrow>
     \<exists>row. get_by_id (wk_jobs s') (j_id demo_job) = Some row \<and> j_status row = Running"
proof -
  obtain out s' where o: "process_item demo_comfy_world demo_job demo_worker = (out, s')" by fastforce
  with demo_comfy_run obtain p t where "CWait p t \<in> set (wk_calls s')"
    by (auto simp: list_ex_iff elim!: is_wait.elims)
  from failed_execution_strands_job [OF o [unfolded demo_comfy_world_def] _ demo_failed demo_calls(1) this] demo_wait
  show ?thesis by (simp add: o demo_states_def)
qed

end
