(* ===== verification/Object_Storage.thy ===== *)
theory Object_Storage
  imports Queue_Worker
begin

text \<open>
  \<open>app/storage/s3.py\<close>: object keys, the upload with its retries, read and delete. What is
  stored is a map from bucket and key to bytes; what the S3 endpoint answers to a call is a
  parameter. An answer that is not a success leaves the map as it was.
\<close>

section \<open>Keys\<close>

text \<open>The UTC date the clock reads: year, month and day.\<close>

type_synonym utc_date = "nat \<times> nat \<times> nat"

definition zero_pad :: "nat \<Rightarrow> nat \<Rightarrow> string" where
  "zero_pad w n = replicate (w - length (show_nat n)) (CHR ''0'') @ show_nat n"

definition key_ext :: "string \<Rightarrow> string" where
  "key_ext ext = (let e = lower (lstrip_by (\<lambda>c. c = CHR ''.'') ext) in if e = [] then ''png'' else e)"

definition object_key_for :: "string \<Rightarrow> nat \<Rightarrow> string \<Rightarrow> utc_date \<Rightarrow> string" where
  "object_key_for job_id index ext date = (case date of (y, m, d) \<Rightarrow>
     ''generations/'' @ zero_pad 4 y @ ''/'' @ zero_pad 2 m @ ''/'' @ zero_pad 2 d @ ''/'' @ job_id @ ''/'' @
     show_nat index @ ''.'' @ key_ext ext)"

section \<open>The client\<close>

datatype s3_answer = S3Ok | ClientError string | OtherFailure string

definition transient_s3_codes :: "string set" where
  "transient_s3_codes = {''ServiceUnavailable'', ''SlowDown'', ''ThrottlingException'', ''RequestTimeout'',
     ''RequestTimeoutException'', ''InternalError'', ''OperationAborted''}"

fun is_transient_client_error :: "s3_answer \<Rightarrow> bool" where
  "is_transient_client_error (ClientError code) = (code \<in> transient_s3_codes)"
| "is_transient_client_error _ = False"

text \<open>
  Tenacity's loop: attempt \<open>n\<close> of at most three; only a transient client error is tried again,
  and the error of the last attempt is re-raised.
\<close>

function put_attempts :: "(nat \<Rightarrow> s3_answer) \<Rightarrow> nat \<Rightarrow> s3_answer" where
  "put_attempts answers n =
     (if answers n = S3Ok then S3Ok
      else if is_transient_client_error (answers n) \<and> n < 3 then put_attempts answers (n + 1)
      else answers n)"
  by pat_completeness auto
termination by (relation "measure (\<lambda>(_, n). 3 - n)") auto

declare put_attempts.simps [simp del]

text \<open>\<open>StorageError\<close>, \<open>StorageNotFoundError\<close> (its subclass), and any other exception.\<close>

datatype storage_exc = StorageFailed string | StorageNotFound string | StorageOther string

record s3_config =
  s3_internal_endpoint :: string
  s3_bucket :: string
  s3_access_key :: string
  s3_secret_key :: string
  s3_region :: string

definition s3_config_from_env :: "environ \<Rightarrow> s3_config" where
  "s3_config_from_env env =
     \<lparr>s3_internal_endpoint = getenv env ''S3_INTERNAL_ENDPOINT'' ''http://minio:9000'',
      s3_bucket = getenv env ''S3_BUCKET'' ''image-gen'', s3_access_key = getenv env ''S3_ACCESS_KEY'' '''',
      s3_secret_key = getenv env ''S3_SECRET_KEY'' '''', s3_region = getenv env ''S3_REGION'' ''us-east-1''\<rparr>"

type_synonym objects = "string \<times> string \<Rightarrow> string option"

definition s3_put :: "string \<times> string \<Rightarrow> string \<Rightarrow> objects \<Rightarrow> objects" where
  "s3_put k blob objs = objs(k \<mapsto> blob)"

definition s3_delete :: "string \<times> string \<Rightarrow> objects \<Rightarrow> objects" where
  "s3_delete k objs = objs(k := None)"

text \<open>The buckets that exist, and the answers to \<open>head_bucket\<close> and \<open>create_bucket\<close>.\<close>

definition ensure_bucket :: "s3_config \<Rightarrow> s3_answer \<Rightarrow> s3_answer \<Rightarrow> string set \<Rightarrow> (storage_exc + unit) \<times> string set" where
  "ensure_bucket cfg head_answer create_answer buckets =
     (let create = (case create_answer of
          S3Ok \<Rightarrow> (Inr (), insert (s3_bucket cfg) buckets)
        | ClientError code \<Rightarrow>
            if code \<in> {''BucketAlreadyOwnedByYou'', ''BucketAlreadyExists''} then (Inr (), buckets)
            else (Inl (StorageFailed (''create_bucket failed: '' @ code)), buckets)
        | OtherFailure m \<Rightarrow> (Inl (StorageOther m), buckets))
      in case head_answer of
           S3Ok \<Rightarrow> (Inr (), buckets)
         | ClientError code \<Rightarrow>
             if code \<in> {''404'', ''NoSuchBucket'', ''NotFound''} then create
             else (Inl (StorageFailed (''head_bucket failed: '' @ code)), buckets)
         | OtherFailure m \<Rightarrow> (Inl (StorageOther m), buckets))"

definition upload_generation_blob ::
  "s3_config \<Rightarrow> (nat \<Rightarrow> s3_answer) \<Rightarrow> utc_date \<Rightarrow> string \<Rightarrow> nat \<Rightarrow> string \<Rightarrow> string \<Rightarrow> objects \<Rightarrow>
   (storage_exc + string \<times> string) \<times> objects" where
  "upload_generation_blob cfg answers date job_id index blob ext objs =
     (let key = object_key_for job_id index ext date in
      case put_attempts answers 1 of
        S3Ok \<Rightarrow> (Inr (s3_bucket cfg, key), s3_put (s3_bucket cfg, key) blob objs)
      | ClientError code \<Rightarrow> (Inl (StorageFailed (''put_object failed after retries: '' @ code)), objs)
      | OtherFailure m \<Rightarrow> (Inl (StorageOther m), objs))"

definition upload_png ::
  "s3_config \<Rightarrow> (nat \<Rightarrow> s3_answer) \<Rightarrow> utc_date \<Rightarrow> string \<Rightarrow> nat \<Rightarrow> string \<Rightarrow> objects \<Rightarrow>
   (storage_exc + string \<times> string) \<times> objects" where
  "upload_png cfg answers date job_id index blob objs =
     upload_generation_blob cfg answers date job_id index blob ''png'' objs"

text \<open>A GET of a missing object is answered with \<open>NoSuchKey\<close>.\<close>

definition get_object :: "s3_answer \<Rightarrow> objects \<Rightarrow> string \<Rightarrow> string \<Rightarrow> storage_exc + string" where
  "get_object ans objs bucket key =
     (let on_client_error = (\<lambda>code.
        if code \<in> {''NoSuchKey'', ''404''} then Inl (StorageNotFound (bucket @ ''/'' @ key))
        else Inl (StorageFailed (''get_object failed: '' @ code)))
      in case ans of
           S3Ok \<Rightarrow> (case objs (bucket, key) of
             Some bytes \<Rightarrow> Inr bytes | None \<Rightarrow> on_client_error ''NoSuchKey'')
         | ClientError code \<Rightarrow> on_client_error code
         | OtherFailure m \<Rightarrow> Inl (StorageOther m))"

definition delete_object :: "s3_answer \<Rightarrow> string \<Rightarrow> string \<Rightarrow> objects \<Rightarrow> (storage_exc + unit) \<times> objects" where
  "delete_object ans bucket key objs = (case ans of
     S3Ok \<Rightarrow> (Inr (), s3_delete (bucket, key) objs)
   | ClientError code \<Rightarrow>
       if code \<in> {''NoSuchKey'', ''404''} then (Inr (), objs)
       else (Inl (StorageFailed (''delete_object failed: '' @ code)), objs)
   | OtherFailure m \<Rightarrow> (Inl (StorageOther m), objs))"

section \<open>The contract of a blob store\<close>

text \<open>
  What the worker, the gateway and the reaper rely on: a read returns the last write of its
  key, and nothing after a delete. The client lemmas are about batches of writes.
\<close>

locale blob_store =
  fixes put :: "'k \<Rightarrow> 'b \<Rightarrow> 's \<Rightarrow> 's"
    and get :: "'s \<Rightarrow> 'k \<Rightarrow> 'b option"
    and del :: "'k \<Rightarrow> 's \<Rightarrow> 's"
  assumes get_put: "get (put k b s) k' = (if k' = k then Some b else get s k')"
    and get_del: "get (del k s) k' = (if k' = k then None else get s k')"
begin

definition put_batch :: "('k \<times> 'b) list \<Rightarrow> 's \<Rightarrow> 's" where
  "put_batch items s = fold (\<lambda>(k, b). put k b) items s"

lemma get_batch_other: "k \<notin> fst ` set items \<Longrightarrow> get (put_batch items s) k = get s k"
  unfolding put_batch_def by (induction items arbitrary: s) (auto simp: get_put)

lemma get_batch:
  "distinct (map fst items) \<Longrightarrow> (k, b) \<in> set items \<Longrightarrow> get (put_batch items s) k = Some b"
proof (induction items arbitrary: s)
  case (Cons x items)
  obtain k0 b0 where x: "x = (k0, b0)" by fastforce
  have step: "put_batch (x # items) s = put_batch items (put k0 b0 s)" by (simp add: put_batch_def x)
  show ?case
  proof (cases "(k, b) \<in> set items")
    case True
    with Cons show ?thesis unfolding step by simp
  next
    case False
    with Cons.prems have "k = k0" "b = b0" "k \<notin> fst ` set items" by (auto simp: x)
    then show ?thesis unfolding step by (simp add: get_batch_other get_put)
  qed
qed simp

lemma del_idem: "get (del k (del k s)) k' = get (del k s) k'"
  by (simp add: get_del)

end

interpretation s3: blob_store s3_put "\<lambda>objs. objs" s3_delete
  by unfold_locales (auto simp: s3_put_def s3_delete_def)

end
