(* ===== verification/Auth.thy ===== *)
theory Auth
  imports Url
begin

text \<open>
  \<open>app/auth.py\<close> and \<open>app/errors.py\<close>: the key sets read from the environment, the Bearer
  token of a request, the two scope checks every endpoint depends on, and the handlers that
  turn an exception into the error envelope. Header values are Latin-1 texts (bytes as
  characters), so a token may hold characters above 127. SHA-256 and \<open>str()\<close> of a detail
  that is not a text are parameters.
\<close>

section \<open>Responses and exceptions\<close>

datatype resp_body = JsonBody pyval | BytesBody string string

record response =
  rs_status :: int
  rs_headers :: "(string \<times> string) list"
  rs_body :: resp_body

text \<open>
  \<open>HttpException status detail headers\<close> is FastAPI's \<open>HTTPException\<close>; any other exception
  that leaves a handler is \<open>OtherException\<close>.
\<close>

datatype http_exc =
    HttpException int pyval "(string \<times> string) list"
  | OtherException string

definition error_detail :: "string \<Rightarrow> string \<Rightarrow> pyval" where
  "error_detail code msg = VDict [(''error'', VDict [(''code'', VStr code), (''message'', VStr msg)])]"

definition auth_error :: http_exc where
  "auth_error = HttpException 401 (error_detail ''auth_error'' ''missing or invalid credentials'')
     [(''WWW-Authenticate'', ''Bearer'')]"

definition auth_scope_error :: http_exc where
  "auth_scope_error = HttpException 403 (error_detail ''auth_error'' ''admin scope required'') []"

definition code_for_status :: "int \<Rightarrow> string" where
  "code_for_status st = (if st = 401 \<or> st = 403 then ''auth_error''
     else if st = 404 then ''not_found'' else ''internal'')"

definition http_exception_handler ::
  "(pyval \<Rightarrow> string) \<Rightarrow> int \<Rightarrow> pyval \<Rightarrow> (string \<times> string) list \<Rightarrow> response" where
  "http_exception_handler py_str st detail headers =
     \<lparr>rs_status = st, rs_headers = headers,
      rs_body = JsonBody (if is_dict detail \<and> ''error'' \<in> fst ` set (dict_of detail) then detail
        else error_detail (code_for_status st) (py_str detail))\<rparr>"

definition unhandled_exception_handler :: response where
  "unhandled_exception_handler = \<lparr>rs_status = 500, rs_headers = [],
     rs_body = JsonBody (error_detail ''internal'' ''Internal Server Error'')\<rparr>"

text \<open>The handlers \<open>install_error_envelope\<close> registers, by the class of the exception.\<close>

fun exception_response :: "(pyval \<Rightarrow> string) \<Rightarrow> http_exc \<Rightarrow> response" where
  "exception_response py_str (HttpException st detail headers) = http_exception_handler py_str st detail headers"
| "exception_response py_str (OtherException _) = unhandled_exception_handler"

section \<open>Keys and tokens\<close>

record keyset =
  ks_generation :: "string list"
  ks_admin :: "string list"

text \<open>A frozenset is the list of its elements without repetition.\<close>

definition parse_keys :: "string option \<Rightarrow> string list" where
  "parse_keys raw = (case raw of None \<Rightarrow> [] | Some s \<Rightarrow> if s = [] then [] else remdups (comma_list s))"

definition load_keyset_from_env :: "environ \<Rightarrow> keyset" where
  "load_keyset_from_env env =
     \<lparr>ks_generation = parse_keys (env ''API_KEYS''), ks_admin = parse_keys (env ''ADMIN_API_KEYS'')\<rparr>"

definition kid_for :: "(string \<Rightarrow> string) \<Rightarrow> string \<Rightarrow> string" where
  "kid_for sha256_hex key = take 8 (sha256_hex key)"

text \<open>What \<open>str.strip\<close> takes for white space among the Latin-1 characters.\<close>

definition header_space :: "char \<Rightarrow> bool" where
  "header_space c \<longleftrightarrow> is_space c \<or> (of_char c :: nat) \<in> {133, 160}"

definition extract_bearer :: "string option \<Rightarrow> string option" where
  "extract_bearer authorization = (case authorization of None \<Rightarrow> None
   | Some a \<Rightarrow>
       if a = [] then None
       else if lower (take 7 a) \<noteq> ''bearer '' then None
       else (let t = strip_by header_space (drop 7 a) in if t = [] then None else Some t))"

definition is_ascii :: "string \<Rightarrow> bool" where
  "is_ascii s = list_all (\<lambda>c. (of_char c :: nat) < 128) s"

text \<open>\<open>hmac.compare_digest\<close> on texts: a \<open>TypeError\<close> (\<open>Inl\<close>) unless both are ASCII.\<close>

definition compare_digest :: "string \<Rightarrow> string \<Rightarrow> unit + bool" where
  "compare_digest a b = (if is_ascii a \<and> is_ascii b then Inr (a = b) else Inl ())"

fun match_loop :: "string \<Rightarrow> string list \<Rightarrow> bool \<Rightarrow> unit + bool" where
  "match_loop candidate [] found = Inr found"
| "match_loop candidate (k # ks) found =
     bind_r (compare_digest candidate k) (\<lambda>eq. match_loop candidate ks (if eq then True else found))"

definition match_any :: "string \<Rightarrow> string list \<Rightarrow> unit + bool" where
  "match_any candidate ks = match_loop candidate ks False"

text \<open>\<open>a or b\<close> on the results of two comparisons.\<close>

definition match_or :: "unit + bool \<Rightarrow> unit + bool \<Rightarrow> unit + bool" where
  "match_or a b = bind_r a (\<lambda>found. if found then Inr True else b)"

definition verify_key :: "string option \<Rightarrow> keyset \<Rightarrow> unit + bool" where
  "verify_key authorization ks = (case extract_bearer authorization of None \<Rightarrow> Inr False
   | Some t \<Rightarrow> match_or (match_any t (ks_generation ks)) (match_any t (ks_admin ks)))"

definition compare_raises :: http_exc where
  "compare_raises = OtherException ''TypeError''"

definition require_auth :: "(string \<Rightarrow> string) \<Rightarrow> keyset \<Rightarrow> string option \<Rightarrow> http_exc + string" where
  "require_auth sha256_hex ks authorization = (case extract_bearer authorization of
     None \<Rightarrow> Inl auth_error
   | Some t \<Rightarrow> (case match_or (match_any t (ks_generation ks)) (match_any t (ks_admin ks)) of
       Inl _ \<Rightarrow> Inl compare_raises
     | Inr found \<Rightarrow> if found then Inr (kid_for sha256_hex t) else Inl auth_error))"

definition require_admin :: "(string \<Rightarrow> string) \<Rightarrow> keyset \<Rightarrow> string option \<Rightarrow> http_exc + string" where
  "require_admin sha256_hex ks authorization = (case extract_bearer authorization of
     None \<Rightarrow> Inl auth_error
   | Some t \<Rightarrow> (case match_any t (ks_admin ks) of
       Inl _ \<Rightarrow> Inl compare_raises
     | Inr True \<Rightarrow> Inr (kid_for sha256_hex t)
     | Inr False \<Rightarrow> (case match_any t (ks_generation ks) of
         Inl _ \<Rightarrow> Inl compare_raises
       | Inr found \<Rightarrow> Inl (if found then auth_scope_error else auth_error))))"

section \<open>Matching\<close>

lemma match_loop_ascii:
  "is_ascii c \<Longrightarrow> list_all is_ascii ks \<Longrightarrow> match_loop c ks found = Inr (found \<or> c \<in> set ks)"
  by (induction ks arbitrary: found) (auto simp: compare_digest_def)

lemma match_any_ascii: "is_ascii c \<Longrightarrow> list_all is_ascii ks \<Longrightarrow> match_any c ks = Inr (c \<in> set ks)"
  by (simp add: match_any_def match_loop_ascii)

lemma match_any_non_ascii: "\<not> is_ascii c \<Longrightarrow> ks \<noteq> [] \<Longrightarrow> match_any c ks = Inl ()"
  by (cases ks) (simp_all add: match_any_def compare_digest_def)

section \<open>Writing and reading keys\<close>

text \<open>A key an operator can configure: no comma, no white space around it, ASCII.\<close>

definition clean_key :: "string \<Rightarrow> bool" where
  "clean_key k \<longleftrightarrow> k \<noteq> [] \<and> CHR '','' \<notin> set k \<and> is_ascii k \<and> \<not> is_space (hd k) \<and> \<not> is_space (last k)"

lemma comma_list_join:
  assumes "list_all clean_key ks"
  shows "comma_list (join_on (CHR '','') ks) = ks"
proof (cases "ks = []")
  case False
  have "map strip ks = ks"
    using assms strip_by_clean [where p = is_space and a = "[]" and b = "[]"]
    by (intro map_idI) (simp add: list_all_iff clean_key_def)
  moreover have "filter (\<lambda>p. p \<noteq> []) ks = ks"
    using assms by (auto simp: list_all_iff clean_key_def)
  moreover have "split_on (CHR '','') (join_on (CHR '','') ks) = ks"
    using False assms by (auto intro: split_join simp: list_all_iff clean_key_def)
  ultimately show ?thesis by (simp add: comma_list_def)
qed (simp add: comma_list_def strip_by_def)

lemma parse_keys_join:
  "list_all clean_key ks \<Longrightarrow> set (parse_keys (Some (join_on (CHR '','') ks))) = set ks"
  using comma_list_join [of ks] by (auto simp: parse_keys_def comma_list_def strip_by_def)

lemma header_space_ascii: "is_ascii [c] \<Longrightarrow> header_space c = is_space c"
  by (auto simp: is_ascii_def header_space_def)

lemma extract_bearer_padded:
  assumes "lower scheme = ''bearer''" "list_all header_space a" "list_all header_space b" "clean_key k"
  shows "extract_bearer (Some (scheme @ CHR '' '' # a @ k @ b)) = Some k"
proof -
  have len: "length scheme = 6"
    using arg_cong [OF assms(1), of length] by (simp add: lower_def)
  have low: "lower (scheme @ '' '') = ''bearer ''"
    using assms(1) by (simp add: lower_def to_lower_def)
  have "\<not> header_space (hd k)" "\<not> header_space (last k)" "k \<noteq> []"
    using assms(4) header_space_ascii [of "hd k"] header_space_ascii [of "last k"]
    by (auto simp: clean_key_def is_ascii_def list_all_iff)
  then have "strip_by header_space (a @ k @ b) = k"
    by (intro strip_by_clean) (use assms in auto)
  with len low \<open>k \<noteq> []\<close> show ?thesis
    by (simp add: extract_bearer_def)
qed

text \<open>
  The keys an operator configures are the keys the service accepts, each with its scope.
  When \<open>API_KEYS\<close> and \<open>ADMIN_API_KEYS\<close> are comma-separated lists of keys, a request whose
  header is a Bearer scheme in any case, white space and a key is let into an admin endpoint
  exactly for an admin key, gets 403 for a generation key and 401 otherwise; an ordinary
  endpoint accepts the keys of both lists and answers 401 to the others.
\<close>

theorem configured_keys_accepted:
  assumes "list_all clean_key gen" "list_all clean_key adm" "clean_key k"
    and "env ''API_KEYS'' = Some (join_on (CHR '','') gen)"
    and "env ''ADMIN_API_KEYS'' = Some (join_on (CHR '','') adm)"
    and "lower scheme = ''bearer''" "list_all header_space a" "list_all header_space b"
  shows "require_admin sha (load_keyset_from_env env) (Some (scheme @ CHR '' '' # a @ k @ b)) =
      (if k \<in> set adm then Inr (kid_for sha k)
       else if k \<in> set gen then Inl auth_scope_error else Inl auth_error) \<and>
    require_auth sha (load_keyset_from_env env) (Some (scheme @ CHR '' '' # a @ k @ b)) =
      (if k \<in> set gen \<union> set adm then Inr (kid_for sha k) else Inl auth_error)"
proof -
  let ?ks = "load_keyset_from_env env"
  have gen: "set (ks_generation ?ks) = set gen" and adm: "set (ks_admin ?ks) = set adm"
    using assms by (simp_all add: load_keyset_from_env_def parse_keys_join)
  have "list_all is_ascii (ks_generation ?ks)" "list_all is_ascii (ks_admin ?ks)" "is_ascii k"
    using assms(1-3) gen adm by (auto simp: list_all_iff clean_key_def)
  then have "match_any k (ks_generation ?ks) = Inr (k \<in> set gen)"
    "match_any k (ks_admin ?ks) = Inr (k \<in> set adm)"
    by (simp_all add: match_any_ascii gen adm)
  then show ?thesis
    using extract_bearer_padded [OF assms(6-8,3)]
    by (auto simp: require_admin_def require_auth_def match_or_def split: bool.splits)
qed

theorem configured_keys_accepted_witness:
  "require_admin (\<lambda>s. s) (load_keyset_from_env [''API_KEYS'' \<mapsto> ''alpha-key,beta-key'', ''ADMIN_API_KEYS'' \<mapsto> ''root-key-1''])
     (Some ''BEARER  beta-key '') = Inl auth_scope_error"
proof -
  have "list_all clean_key [''alpha-key'', ''beta-key'']" "list_all clean_key [''root-key-1'']"
    "lower ''BEARER'' = ''bearer''" "list_all header_space '' ''" by code_simp+
  then show ?thesis
    using configured_keys_accepted [of "[''alpha-key'', ''beta-key'']" "[''root-key-1'']" "''beta-key''"
      "[''API_KEYS'' \<mapsto> ''alpha-key,beta-key'', ''ADMIN_API_KEYS'' \<mapsto> ''root-key-1'']" "''BEARER''" "'' ''" "'' ''" "\<lambda>s. s"]
    by simp
qed

text \<open>
  A token that is not ASCII is not rejected but crashes the check. \<open>compare_digest\<close>
  raises \<open>TypeError\<close> for it, so with keys configured for both scopes every protected endpoint
  answers 500 \<open>internal\<close> instead of 401, and \<open>verify_key\<close>, documented as never raising,
  raises.
\<close>

theorem non_ascii_token_crashes:
  assumes "extract_bearer h = Some t" "\<not> is_ascii t" "ks_generation ks \<noteq> []" "ks_admin ks \<noteq> []"
  shows "(\<exists>e. require_auth sha ks h = Inl e \<and> require_admin sha ks h = Inl e \<and>
           rs_status (exception_response py_str e) = 500 \<and>
           rs_body (exception_response py_str e) = JsonBody (error_detail ''internal'' ''Internal Server Error'')) \<and>
    verify_key h ks = Inl ()"
  using assms match_any_non_ascii [of t]
  by (simp_all add: require_auth_def require_admin_def verify_key_def match_or_def compare_raises_def
      unhandled_exception_handler_def)

theorem non_ascii_token_crashes_witness:
  "rs_status (exception_response (\<lambda>_. []) (projl (require_auth (\<lambda>s. s)
     \<lparr>ks_generation = [''a''], ks_admin = [''b'']\<rparr> (Some (''Bearer '' @ [CHR 0xE9]))))) = 500"
proof -
  have "extract_bearer (Some (''Bearer '' @ [CHR 0xE9])) = Some [CHR 0xE9]" "\<not> is_ascii [CHR 0xE9]"
    by code_simp+
  then show ?thesis
    using non_ascii_token_crashes [of "Some (''Bearer '' @ [CHR 0xE9])" "[CHR 0xE9]"
      "\<lparr>ks_generation = [''a''], ks_admin = [''b'']\<rparr>" "\<lambda>s. s" "\<lambda>_. []"]
    by auto
qed

end
