(* ===== verification/Gateway.thy ===== *)
theory Gateway
  imports Object_Storage Auth Recovery
begin

text \<open>
  The read side of \<open>app/api/images.py\<close> and \<open>app/api/videos.py\<close>: polling a job and fetching
  its outputs through the service. The outputs a pipeline stores are followed from the call
  that uploads them to the response that serves them.
\<close>

section \<open>Polling\<close>

definition error_response :: "int \<Rightarrow> string \<Rightarrow> string \<Rightarrow> response" where
  "error_response status code msg =
     \<lparr>rs_status = status, rs_headers = [], rs_body = JsonBody (error_detail code msg)\<rparr>"

definition json_response :: "int \<Rightarrow> pydict \<Rightarrow> response" where
  "json_response status d = \<lparr>rs_status = status, rs_headers = [], rs_body = JsonBody (VDict d)\<rparr>"

fun status_text :: "job_status \<Rightarrow> string" where
  "status_text Queued = ''queued''"
| "status_text Running = ''running''"
| "status_text Completed = ''completed''"
| "status_text Failed = ''failed''"
| "status_text Abandoned = ''abandoned''"

fun delivery_text :: "webhook_delivery_status \<Rightarrow> string" where
  "delivery_text DPending = ''pending''"
| "delivery_text DSucceeded = ''succeeded''"
| "delivery_text DFailed = ''failed''"
| "delivery_text DSuppressed = ''suppressed''"

definition opt_text :: "string option \<Rightarrow> pyval" where
  "opt_text x = (case x of None \<Rightarrow> VNone | Some s \<Rightarrow> VStr s)"

text \<open>\<open>a or b\<close> on an optional text.\<close>

definition text_or :: "string option \<Rightarrow> string \<Rightarrow> string" where
  "text_or x d = (case x of None \<Rightarrow> d | Some s \<Rightarrow> if s = [] then d else s)"

text \<open>
  \<open>_poll_body\<close> and \<open>_poll_video_body\<close>, which are the same. A stored result that is not an
  object is an \<open>AttributeError\<close>; \<open>set_completed\<close> only ever stores objects.
\<close>

definition poll_body :: "job \<Rightarrow> http_exc + pydict" where
  "poll_body j =
     (let base = [(''id'', VStr (j_id j)), (''status'', VStr (status_text (j_status j))),
                  (''webhook_delivery_status'', opt_text (map_option delivery_text (j_webhook_delivery_status j)))]
      in if j_status j = Completed then
           (case (case j_result_json j of None \<Rightarrow> VDict [] | Some v \<Rightarrow> v) of
              VDict parsed \<Rightarrow> Inr (dict_set ''data''
                (case map_of parsed ''data'' of None \<Rightarrow> VList [] | Some v \<Rightarrow> v) base)
            | _ \<Rightarrow> Inl (OtherException ''AttributeError''))
         else if j_status j \<in> {Failed, Abandoned} then
           Inr (dict_set ''error'' (VDict
             [(''code'', VStr (text_or (j_error_code j) (status_text (j_status j)))),
              (''message'', VStr (text_or (j_error_message j) ''''))]) base)
         else Inr base)"

definition get_generation_status :: "jobs \<Rightarrow> string \<Rightarrow> http_exc + response" where
  "get_generation_status t job_id = (case get_by_id t job_id of
     None \<Rightarrow> Inr (error_response 404 ''not_found'' ''unknown job id'')
   | Some j \<Rightarrow> bind_r (poll_body j) (\<lambda>d. Inr (json_response 200 d)))"

section \<open>Fetching an output\<close>

text \<open>
  \<open>^(\d+)\.(ext|...)$\<close> with \<open>match\<close>: the digits and the extension; \<open>$\<close> also matches before a
  final newline.
\<close>

definition index_name_match :: "string list \<Rightarrow> string \<Rightarrow> (string \<times> string) option" where
  "index_name_match exts s =
     (let body = (if s \<noteq> [] \<and> last s = CHR 0x0A then butlast s else s);
          (num, ext) = partition_on (CHR ''.'') body
      in if CHR ''.'' \<in> set body \<and> all_digits num \<and> ext \<in> set exts then Some (num, ext) else None)"

text \<open>\<open>int\<close> refuses texts of more than 4300 digits (\<open>ValueError\<close>).\<close>

definition index_of :: "string \<Rightarrow> http_exc + nat" where
  "index_of num = (if 4300 < length num then Inl (OtherException ''ValueError'') else Inr (nat_of_digits num))"

text \<open>The bytes of output \<open>index\<close>: the bucket and key are what the row stores.\<close>

definition storage_response :: "storage_exc \<Rightarrow> string \<Rightarrow> http_exc + response" where
  "storage_response e gone = (case e of
     StorageNotFound _ \<Rightarrow> Inr (error_response 404 ''not_found'' gone)
   | StorageFailed m \<Rightarrow> Inr (error_response 502 ''storage_error'' m)
   | StorageOther m \<Rightarrow> Inl (OtherException m))"

definition servable :: "jobs \<Rightarrow> string \<Rightarrow> job option" where
  "servable t job_id = (case get_by_id t job_id of None \<Rightarrow> None
     | Some j \<Rightarrow> if j_status j \<noteq> Completed \<or> j_output_keys j = [] then None else Some j)"

definition get_image ::
  "s3_answer \<Rightarrow> timestamp \<Rightarrow> jobs \<Rightarrow> objects \<Rightarrow> string \<Rightarrow> string \<Rightarrow> (http_exc + response) \<times> jobs" where
  "get_image ans now t objs job_id index_name = (case index_name_match [''png''] index_name of
     None \<Rightarrow> (Inr (error_response 404 ''not_found'' (''invalid image path: '' @ index_name)), t)
   | Some (num, _) \<Rightarrow> (case index_of num of
       Inl e \<Rightarrow> (Inl e, t)
     | Inr index \<Rightarrow> (case servable t job_id of
         None \<Rightarrow> (Inr (error_response 404 ''not_found'' (''no image for '' @ job_id @ ''/'' @ show_nat index)), t)
       | Some j \<Rightarrow>
           if length (j_output_keys j) \<le> index
           then (Inr (error_response 404 ''not_found'' (''index '' @ show_nat index @ '' out of range'')), t)
           else (let (bucket, key) = partition_on (CHR ''/'') (j_output_keys j ! index) in
             case get_object ans objs bucket key of
               Inl e \<Rightarrow> (storage_response e ''image bytes no longer available'', t)
             | Inr bytes \<Rightarrow> (Inr \<lparr>rs_status = 200, rs_headers = [], rs_body = BytesBody bytes ''image/png''\<rparr>,
                 set_fetched t job_id now)))))"

definition gateway_media_types :: "(string \<times> string) list" where
  "gateway_media_types = [(''mp4'', ''video/mp4''), (''webm'', ''video/webm''), (''gif'', ''image/gif''), (''png'', ''image/png'')]"

definition gateway_media_type :: "string \<Rightarrow> string" where
  "gateway_media_type ext = (case map_of gateway_media_types ext of
     None \<Rightarrow> ''application/octet-stream'' | Some t \<Rightarrow> t)"

definition get_video_asset ::
  "s3_answer \<Rightarrow> timestamp \<Rightarrow> jobs \<Rightarrow> objects \<Rightarrow> string \<Rightarrow> string \<Rightarrow> (http_exc + response) \<times> jobs" where
  "get_video_asset ans now t objs job_id index_name =
    (case index_name_match [''mp4'', ''webm'', ''gif'', ''png''] index_name of
     None \<Rightarrow> (Inr (error_response 404 ''not_found'' (''invalid video path: '' @ index_name)), t)
   | Some (num, ext) \<Rightarrow> (case index_of num of
       Inl e \<Rightarrow> (Inl e, t)
     | Inr index \<Rightarrow> (case servable t job_id of
         None \<Rightarrow> (Inr (error_response 404 ''not_found'' (''no media for '' @ job_id @ ''/'' @ show_nat index)), t)
       | Some j \<Rightarrow>
           if length (j_output_keys j) \<le> index
           then (Inr (error_response 404 ''not_found'' (''index '' @ show_nat index @ '' out of range'')), t)
           else (let (bucket, key) = partition_on (CHR ''/'') (j_output_keys j ! index) in
             if \<not> ends_with (CHR ''.'' # ext) (lower key)
             then (Inr (error_response 404 ''not_found'' ''asset extension mismatch''), t)
             else (case get_object ans objs bucket key of
               Inl e \<Rightarrow> (storage_response e ''media bytes no longer available'', t)
             | Inr bytes \<Rightarrow> (Inr \<lparr>rs_status = 200, rs_headers = [], rs_body = BytesBody bytes (gateway_media_type ext)\<rparr>,
                 set_fetched t job_id now))))))"

section \<open>What a pipeline leaves in the store\<close>

text \<open>The objects after the uploads of a log, as the storage answered them.\<close>

definition apply_put :: "backend_world \<Rightarrow> call \<Rightarrow> objects \<Rightarrow> objects" where
  "apply_put w c objs = (case c of
     CPut n ext ctype blob \<Rightarrow> (case bw_put w n of Inl _ \<Rightarrow> objs | Inr k \<Rightarrow> s3_put k blob objs)
   | _ \<Rightarrow> objs)"

definition stored_after :: "backend_world \<Rightarrow> call list \<Rightarrow> objects \<Rightarrow> objects" where
  "stored_after w calls objs = fold (apply_put w) calls objs"

definition put_calls :: "nat \<Rightarrow> (string \<times> string \<times> string) list \<Rightarrow> call list" where
  "put_calls idx items = map (\<lambda>(n, blob, ext, ctype). CPut n ext ctype blob) (enumerate idx items)"

lemma put_calls_simps [simp]:
  "put_calls idx [] = []" "put_calls idx ((blob, ext, ctype) # items) = CPut idx ext ctype blob # put_calls (Suc idx) items"
  by (simp_all add: put_calls_def)

definition stored_key :: "string \<times> string \<Rightarrow> string" where
  "stored_key k = fst k @ CHR ''/'' # snd k"

lemma put_all_Inr:
  "put_all w idx items s = (Inr keys, s') \<Longrightarrow>
   \<exists>ks. length ks = length items \<and> keys = map stored_key ks \<and>
     (\<forall>n < length items. bw_put w (idx + n) = Inr (ks ! n)) \<and>
     s' = s\<lparr>wk_calls := wk_calls s @ put_calls idx items\<rparr>"
proof (induction w idx items arbitrary: keys s s' rule: put_all.induct)
  case (2 w idx blob ext ctype rest)
  then obtain b k keys' s1 where k: "bw_put w idx = Inr (b, k)" "keys = (b @ ''/'' @ k) # keys'"
    and rest: "put_all w (idx + 1) rest (s\<lparr>wk_calls := wk_calls s @ [CPut idx ext ctype blob]\<rparr>) = (Inr keys', s')"
    by (auto simp: bind_p_def call_p_def return_p_def split: sum.splits prod.splits)
  from "2.IH" [OF rest] obtain ks where
    ks: "length ks = length rest" "keys' = map stored_key ks" "\<forall>n < length rest. bw_put w (idx + 1 + n) = Inr (ks ! n)"
      "s' = s\<lparr>wk_calls := wk_calls s @ [CPut idx ext ctype blob] @ put_calls (idx + 1) rest\<rparr>" by auto
  have "\<forall>n < Suc (length rest). bw_put w (idx + n) = Inr (((b, k) # ks) ! n)"
    using k(1) ks(3) by (auto simp: nth_Cons split: nat.split)
  with k(2) ks show ?case by (intro exI [of _ "(b, k) # ks"]) (simp add: stored_key_def)
qed (simp add: return_p_def)

text \<open>
  The outputs \<open>blobs\<close> (content and extension) of a job are delivered: its row is completed and
  stores the key of each, the last calls of the log upload them in order, and the response
  data are about them.
\<close>

definition upload_items :: "string \<Rightarrow> (string \<times> string) list \<Rightarrow> (string \<times> string \<times> string) list" where
  "upload_items kind blobs = map (\<lambda>(blob, ext). (blob, ext,
     if kind = ''images'' then ''image/png'' else media_content_type ext)) blobs"

definition delivered ::
  "backend_world \<Rightarrow> job \<Rightarrow> response_format \<Rightarrow> string \<Rightarrow> (string \<times> string) list \<Rightarrow> (string \<times> string) list \<Rightarrow>
   job_result \<Rightarrow> worker \<Rightarrow> bool" where
  "delivered w j fmt kind blobs ks r s \<longleftrightarrow>
     blobs \<noteq> [] \<and> length ks = length blobs \<and> (\<forall>n < length blobs. bw_put w n = Inr (ks ! n)) \<and>
     (\<exists>c. wk_calls s = c @ put_calls 0 (upload_items kind blobs)) \<and>
     (\<exists>row. job_find (wk_jobs s) (j_id j) = Some row \<and> j_status row = Completed \<and>
        j_output_keys row = map stored_key ks \<and> j_result_json row = Some (result_json r)) \<and>
     jr_data r = response_data w j fmt kind blobs"

definition some_delivered :: "backend_world \<Rightarrow> job \<Rightarrow> job_result \<Rightarrow> worker \<Rightarrow> bool" where
  "some_delivered w j r s \<longleftrightarrow> (\<exists>fmt kind blobs ks. delivered w j fmt kind blobs ks r s \<and>
     (kind = ''images'' \<and> (\<forall>b \<in> set blobs. snd b = ''png'') \<or>
      kind = ''videos'' \<and> (\<exists>rows. blobs = map (\<lambda>(blob, ext). (blob, media_ext ext)) rows)))"

lemma delivered_event [simp]: "some_delivered w j r (note_event st c s) = some_delivered w j r s"
  by (simp add: some_delivered_def delivered_def)

lemma bind_p_Inr: "bind_p m f s = (Inr y, s') \<longleftrightarrow> (\<exists>x s1. m s = (Inr x, s1) \<and> f x s1 = (Inr y, s'))"
  by (auto simp: bind_p_def split: prod.splits sum.splits)

lemma fail_job_not_Inr [simp]: "fail_job w j code msg e s \<noteq> (Inr x, s')" "fail_quietly w j code msg e s \<noteq> (Inr x, s')"
  by (simp_all add: fail_job_def fail_quietly_def split: sum.splits prod.splits)

lemma return_p_eq [simp]: "return_p x s = (Inr y, s') \<longleftrightarrow> x = y \<and> s = s'"
  by (auto simp: return_p_def)

lemma raise_p_not_Inr [simp]: "raise_p e s \<noteq> (Inr x, s')"
  by (simp add: raise_p_def)

lemma upload_outputs_Inr:
  assumes "upload_outputs w j items s = (Inr keys, s')"
  shows "put_all w 0 items s = (Inr keys, s')"
proof (cases "put_all w 0 items s")
  case (Pair r s1)
  with assms show ?thesis
    by (cases r) (auto simp: upload_outputs_def on_error_def split: pipe_error.splits)
qed

lemma complete_job_Inr:
  assumes "complete_job w j m keys r s = (Inr r', s')"
  shows "r' = r \<and> wk_calls s' = wk_calls s \<and>
    (\<exists>row. job_find (wk_jobs s') (j_id j) = Some row \<and> j_status row = Completed \<and>
       j_output_keys row = keys \<and> j_result_json row = Some (result_json r))"
proof -
  let ?f = "completed_row keys (result_json r) (bw_t_end w)"
  from assms obtain t row where t: "set_completed (wk_jobs s) (j_id j) keys (result_json r) (bw_t_end w) = Inr (t, row)"
    and s': "r' = r" "s' = s\<lparr>wk_jobs := t, wk_last_model := Some (mc_name m)\<rparr>"
    by (auto simp: complete_job_def split: sum.splits)
  from t obtain old where "job_find (wk_jobs s) (j_id j) = Some old" "t = job_modify (j_id j) ?f (wk_jobs s)"
    unfolding set_completed_def by (rule setter_Inr) simp
  then have "job_find t (j_id j) = Some (?f old)" by (simp add: jt.find_modify)
  with s' show ?thesis by (simp add: completed_row_def)
qed

lemma outputs_delivered:
  assumes "bind_p (upload_outputs w j (upload_items kind blobs)) (\<lambda>keys. complete_job w j m keys r0) s = (Inr r, s')"
    and "blobs \<noteq> []" "jr_data r0 = response_data w j fmt kind blobs"
  shows "\<exists>ks. delivered w j fmt kind blobs ks r s'"
proof -
  from assms(1) obtain keys s1 where up: "put_all w 0 (upload_items kind blobs) s = (Inr keys, s1)"
    and fin: "complete_job w j m keys r0 s1 = (Inr r, s')"
    by (auto simp: bind_p_Inr dest: upload_outputs_Inr)
  from put_all_Inr [OF up] obtain ks where
    "length ks = length blobs" "keys = map stored_key ks" "\<forall>n < length blobs. bw_put w n = Inr (ks ! n)"
    "wk_calls s1 = wk_calls s @ put_calls 0 (upload_items kind blobs)" by (auto simp: upload_items_def)
  with complete_job_Inr [OF fin] assms(2,3) have "delivered w j fmt kind blobs ks r s'"
    by (simp add: delivered_def)
  then show ?thesis ..
qed

lemma check_images_length: "check_images w j tr imgs s = (Inr imgs', s') \<Longrightarrow> length imgs' = length imgs"
  by (induction imgs arbitrary: imgs' s s') (auto simp: bind_p_Inr split: option.splits if_splits)

lemma finish_images_delivers:
  assumes "finish_images w j v seed pid s = (Inr r, s')"
  shows "some_delivered w j r s'"
proof -
  from assms obtain images images' s2 s3 where ne: "images \<noteq> []"
    and chk: "check_images w j (vj_transparent_background v) images s2 = (Inr images', s3)"
    and up: "bind_p (upload_outputs w j (map (\<lambda>png. (png, ''png'', ''image/png'')) images')) (\<lambda>keys.
       complete_job w j (vj_model v) keys
       \<lparr>jr_data = response_data w j (vj_response_format v) ''images'' (map (\<lambda>p. (p, ''png'')) images'),
        jr_duration_ms = bw_duration_ms w, jr_resolved_seed = seed\<rparr>) s3 = (Inr r, s')"
    by (auto simp: finish_images_def bind_p_Inr split: if_splits)
  let ?blobs = "map (\<lambda>p. (p, ''png'')) images'"
  have items: "map (\<lambda>png. (png, ''png'', ''image/png'')) images' = upload_items ''images'' ?blobs"
    by (simp add: upload_items_def)
  have "?blobs \<noteq> []" using check_images_length [OF chk] ne by (metis length_map list.size(3) length_0_conv)
  from outputs_delivered [OF up [unfolded items] this] show ?thesis
    unfolding some_delivered_def by (fastforce simp: image_iff)
qed

lemma finish_media_delivers:
  assumes "finish_media w j m fmt seed pid s = (Inr r, s')" and "bw_has_blob_upload w"
  shows "some_delivered w j r s'"
proof -
  from assms obtain rows s3 where ne: "rows \<noteq> []"
    and up: "bind_p (upload_outputs w j (map (\<lambda>(blob, ext). (blob, ext, media_content_type ext))
         (map (\<lambda>(blob, ext). (blob, media_ext ext)) rows))) (\<lambda>keys. complete_job w j m keys
       \<lparr>jr_data = response_data w j fmt ''videos'' (map (\<lambda>(blob, ext). (blob, media_ext ext)) rows),
        jr_duration_ms = bw_duration_ms w, jr_resolved_seed = seed\<rparr>) s3 = (Inr r, s')"
    by (auto simp: finish_media_def bind_p_Inr Let_def split: if_splits)
  let ?blobs = "map (\<lambda>(blob, ext). (blob, media_ext ext)) rows"
  have items: "map (\<lambda>(blob, ext). (blob, ext, media_content_type ext)) ?blobs = upload_items ''videos'' ?blobs"
    by (simp add: upload_items_def)
  have "?blobs \<noteq> []" using ne by simp
  from outputs_delivered [OF up [unfolded items] this] show ?thesis
    unfolding some_delivered_def by fastforce
qed

interpretation tr: run_invariant "\<lambda>_. True" j for j
  by unfold_locales simp_all

lemma resolved_delivers:
  assumes "process_item w j s = (Resolved r, s')" and "bw_has_blob_upload w"
  shows "some_delivered w j r s'"
proof -
  have "ensures (\<lambda>_. True) (run_pipeline w j) (some_delivered w j) (\<lambda>_ _. True)"
    by (rule tr.run_with [where Q = "\<lambda>_. True"])
      (auto simp: ensures_def split: sum.split prod.split dest: finish_images_delivers finish_media_delivers [OF _ assms(2)])
  moreover obtain s1 where "run_pipeline w j s = (Inr r, s1)" "s' = note_event ''completed'' None s1"
    using assms(1) by (auto simp: process_item_def split: prod.splits sum.splits pipe_error.splits)
  ultimately show ?thesis by (auto dest!: ensuresD [of _ _ _ _ s])
qed

section \<open>Storage behind the worker\<close>

text \<open>The answer the worker gets when its storage is \<open>S3Storage\<close>.\<close>

definition storage_put ::
  "s3_config \<Rightarrow> (nat \<Rightarrow> s3_answer) \<Rightarrow> utc_date \<Rightarrow> string \<Rightarrow> nat \<Rightarrow> string \<Rightarrow> pipe_error + string \<times> string" where
  "storage_put cfg answers date job_id n ext =
     (case fst (upload_generation_blob cfg answers date job_id n [] ext (\<lambda>_. None)) of
        Inr k \<Rightarrow> Inr k
      | Inl (StorageFailed m) \<Rightarrow> Inl (StorageErr m)
      | Inl (StorageNotFound m) \<Rightarrow> Inl (StorageErr m)
      | Inl (StorageOther m) \<Rightarrow> Inl (Unexpected m))"

lemma storage_put_Inr:
  "storage_put cfg answers date i n ext = Inr k \<Longrightarrow> k = (s3_bucket cfg, object_key_for i n ext date)"
  by (cases "put_attempts answers 1") (auto simp: storage_put_def upload_generation_blob_def Let_def)

text \<open>What the log says is stored is what the upload stores.\<close>

lemma apply_put_upload:
  assumes "bw_put w n = storage_put cfg answers date i n ext"
  shows "apply_put w (CPut n ext ctype blob) objs = snd (upload_generation_blob cfg answers date i n blob ext objs)"
  using assms
  by (cases "put_attempts answers 1") (simp_all add: apply_put_def storage_put_def upload_generation_blob_def Let_def)

lemma stored_after_puts:
  "length ks = length items \<Longrightarrow> \<forall>n < length items. bw_put w (idx + n) = Inr (ks ! n) \<Longrightarrow>
   stored_after w (put_calls idx items) objs = s3.put_batch (zip ks (map fst items)) objs"
proof (induction items arbitrary: idx ks objs)
  case (Cons x items)
  obtain blob ext ctype where x: "x = (blob, ext, ctype)" by (cases x)
  from Cons.prems(1) obtain k ks' where ks: "ks = k # ks'" "length ks' = length items" by (cases ks) auto
  have now: "bw_put w idx = Inr k" using Cons.prems(2) by (auto simp: ks)
  have rest: "\<forall>n < length items. bw_put w (Suc idx + n) = Inr (ks' ! n)"
  proof (intro allI impI)
    fix n assume "n < length items"
    with spec [OF Cons.prems(2), of "Suc n"] show "bw_put w (Suc idx + n) = Inr (ks' ! n)" by (simp add: ks)
  qed
  from Cons.IH [OF ks(2) rest] now show ?case
    by (simp add: stored_after_def s3.put_batch_def x ks(1) apply_put_def)
qed (simp add: stored_after_def s3.put_batch_def)

lemma stored_after_append: "stored_after w (a @ b) objs = stored_after w b (stored_after w a objs)"
  by (simp add: stored_after_def)

lemma key_last_segment:
  assumes "CHR ''/'' \<notin> set e"
  shows "takeWhile (\<lambda>c. c \<noteq> CHR ''/'') (rev (pre @ ''/'' @ show_nat n @ ''.'' @ e)) = rev (show_nat n @ ''.'' @ e)"
proof -
  have "CHR ''/'' \<notin> set (rev (show_nat n @ ''.'' @ e))" using assms show_nat_no [of "CHR ''/''" n]
    by (simp add: is_digit_def)
  then have "takeWhile (\<lambda>c. c \<noteq> CHR ''/'') (rev (show_nat n @ ''.'' @ e) @ CHR ''/'' # rev pre) = rev (show_nat n @ ''.'' @ e)"
    by (subst takeWhile_append2) auto
  then show ?thesis by simp
qed

lemma object_key_segments: "\<exists>pre. object_key_for i m f g = pre @ ''/'' @ show_nat m @ ''.'' @ key_ext f"
proof (cases g)
  case (fields y mo da)
  show ?thesis
    by (rule exI [of _ "''generations/'' @ zero_pad 4 y @ ''/'' @ zero_pad 2 mo @ ''/'' @ zero_pad 2 da @ ''/'' @ i"])
      (simp add: object_key_for_def fields)
qed

lemma object_key_index:
  assumes "object_key_for i n e d = object_key_for i n' e' d'"
    and "CHR ''/'' \<notin> set (key_ext e)" "CHR ''/'' \<notin> set (key_ext e')"
  shows "n = n'"
proof -
  obtain pre pre' where "object_key_for i n e d = pre @ ''/'' @ show_nat n @ ''.'' @ key_ext e"
    "object_key_for i n' e' d' = pre' @ ''/'' @ show_nat n' @ ''.'' @ key_ext e'"
    using object_key_segments by metis
  with assms key_last_segment [of "key_ext e" pre n] key_last_segment [of "key_ext e'" pre' n']
  have "show_nat n @ CHR ''.'' # key_ext e = show_nat n' @ CHR ''.'' # key_ext e'" by (metis append_Cons append_Nil rev_rev_ident)
  then have "partition_on (CHR ''.'') (show_nat n @ CHR ''.'' # key_ext e) =
      partition_on (CHR ''.'') (show_nat n' @ CHR ''.'' # key_ext e')" by simp
  then have "show_nat n = show_nat n'"
    using show_nat_no [of "CHR ''.''"] by (simp add: partition_on_append is_digit_def)
  then show ?thesis by (simp add: show_nat_inject)
qed

lemma put_call_member:
  "n < length blobs \<Longrightarrow> \<exists>ctype. CPut n (snd (blobs ! n)) ctype (fst (blobs ! n)) \<in> set (put_calls 0 (upload_items kind blobs))"
proof -
  assume n: "n < length blobs"
  obtain ctype where item: "upload_items kind blobs ! n = (fst (blobs ! n), snd (blobs ! n), ctype)"
    using n by (cases "blobs ! n") (auto simp: upload_items_def)
  have "(n, upload_items kind blobs ! n) \<in> set (enumerate 0 (upload_items kind blobs))"
    using n by (simp add: in_set_enumerate_eq upload_items_def)
  then have "CPut n (snd (blobs ! n)) ctype (fst (blobs ! n)) \<in> set (put_calls 0 (upload_items kind blobs))"
    unfolding item by (force simp: put_calls_def)
  then show ?thesis ..
qed

lemma delivered_object:
  assumes d: "delivered w j fmt kind blobs ks r s'"
    and storage: "\<forall>n ext ctype blob. CPut n ext ctype blob \<in> set (wk_calls s') \<longrightarrow>
      bw_put w n = storage_put cfg (answers n) (date n) (j_id j) n ext"
    and ext: "\<forall>b \<in> set blobs. CHR ''/'' \<notin> set (key_ext (snd b))"
    and bucket: "CHR ''/'' \<notin> set (s3_bucket cfg)" and i: "i < length blobs"
  shows "\<exists>row. servable (wk_jobs s') (j_id j) = Some row \<and> length (j_output_keys row) = length blobs \<and>
    partition_on (CHR ''/'') (j_output_keys row ! i) = (s3_bucket cfg, object_key_for (j_id j) i (snd (blobs ! i)) (date i)) \<and>
    stored_after w (wk_calls s') objs (s3_bucket cfg, object_key_for (j_id j) i (snd (blobs ! i)) (date i)) = Some (fst (blobs ! i))"
proof -
  from d obtain c row where calls: "wk_calls s' = c @ put_calls 0 (upload_items kind blobs)"
    and row: "job_find (wk_jobs s') (j_id j) = Some row" "j_status row = Completed" "j_output_keys row = map stored_key ks"
    and ks: "length ks = length blobs" "\<forall>n < length blobs. bw_put w n = Inr (ks ! n)" and ne: "blobs \<noteq> []"
    unfolding delivered_def by blast
  have key: "ks ! n = (s3_bucket cfg, object_key_for (j_id j) n (snd (blobs ! n)) (date n))" if n: "n < length blobs" for n
  proof -
    obtain ctype where "CPut n (snd (blobs ! n)) ctype (fst (blobs ! n)) \<in> set (wk_calls s')"
      using put_call_member [OF n] by (auto simp: calls)
    from storage this ks(2) n storage_put_Inr show ?thesis by metis
  qed
  have "distinct ks"
  proof (clarsimp simp: distinct_conv_nth)
    fix a b assume ab: "a < length ks" "b < length ks" "a \<noteq> b" "ks ! a = ks ! b"
    then have "object_key_for (j_id j) a (snd (blobs ! a)) (date a) = object_key_for (j_id j) b (snd (blobs ! b)) (date b)"
      using key [of a] key [of b] by (simp add: ks(1))
    from object_key_index [OF this] ext ab ks(1) show False by (metis nth_mem)
  qed
  have items: "map fst (upload_items kind blobs) = map fst blobs" "length (upload_items kind blobs) = length blobs"
    by (auto simp: upload_items_def)
  have "stored_after w (wk_calls s') objs = s3.put_batch (zip ks (map fst blobs)) (stored_after w c objs)"
    unfolding calls stored_after_append
    using stored_after_puts [of ks "upload_items kind blobs" w 0] ks items by simp
  moreover have "(ks ! i, fst (blobs ! i)) \<in> set (zip ks (map fst blobs))"
    using i ks(1) by (force simp: in_set_zip)
  ultimately have "stored_after w (wk_calls s') objs (ks ! i) = Some (fst (blobs ! i))"
    using \<open>distinct ks\<close> ks(1) by (simp add: s3.get_batch)
  moreover have "partition_on (CHR ''/'') (j_output_keys row ! i) = ks ! i"
    using i ks(1) bucket by (simp add: row(3) stored_key_def key partition_on_append)
  moreover have "servable (wk_jobs s') (j_id j) = Some row" using row ks(1) ne by (auto simp: servable_def get_by_id_def)
  ultimately show ?thesis using i row(3) ks(1) by (simp add: key)
qed

lemma index_name_match_own:
  assumes "ext \<in> set exts" "CHR 0x0A \<notin> set ext" "ext \<noteq> []"
  shows "index_name_match exts (show_nat n @ CHR ''.'' # ext) = Some (show_nat n, ext)"
proof -
  have "last (show_nat n @ CHR ''.'' # ext) \<noteq> CHR 0x0A" using assms(2,3) by (simp add: last_append) (metis last_in_set)
  moreover have "CHR ''.'' \<notin> set (show_nat n)" by (rule show_nat_no) (simp add: is_digit_def)
  ultimately show ?thesis
    using assms(1) by (simp add: index_name_match_def Let_def partition_on_append show_nat_digits)
qed

lemma ends_with_append: "ends_with p (s @ p)"
  by (simp add: ends_with_def starts_with_def)

definition gateway_ext :: "string \<Rightarrow> bool" where
  "gateway_ext ext \<longleftrightarrow> ext \<in> {''mp4'', ''webm'', ''gif'', ''png''}"

lemma gateway_ext_key:
  assumes "gateway_ext ext"
  shows "key_ext ext = ext" "CHR ''/'' \<notin> set ext" "CHR 0x0A \<notin> set ext" "ext \<noteq> []"
    "ends_with (CHR ''.'' # ext) (lower (object_key_for i n ext d))"
proof -
  have "key_ext ''mp4'' = ''mp4''" "key_ext ''webm'' = ''webm''" "key_ext ''gif'' = ''gif''" "key_ext ''png'' = ''png''"
    by code_simp+
  then show k: "key_ext ext = ext" using assms by (auto simp: gateway_ext_def)
  show "CHR ''/'' \<notin> set ext" "CHR 0x0A \<notin> set ext" "ext \<noteq> []" using assms by (auto simp: gateway_ext_def)
  have "lower (CHR ''.'' # ext) = CHR ''.'' # ext"
    using assms unfolding gateway_ext_def by (elim insertE emptyE; hypsubst; code_simp)
  moreover obtain pre where "object_key_for i n ext d = (pre @ ''/'' @ show_nat n) @ CHR ''.'' # ext"
    using object_key_segments [of i n ext d] k by auto
  ultimately have "lower (object_key_for i n ext d) = lower (pre @ ''/'' @ show_nat n) @ CHR ''.'' # ext"
    by (simp add: lower_def)
  then show "ends_with (CHR ''.'' # ext) (lower (object_key_for i n ext d))"
    by (simp only: ends_with_append)
qed

section \<open>From the worker to the client\<close>

lemma servable_later:
  assumes "servable t i = Some row" "job_step\<^sup>*\<^sup>* t t'"
  shows "\<exists>row'. servable t' i = Some row' \<and> j_output_keys row' = j_output_keys row"
proof -
  from assms(1) have row: "job_find t i = Some row" "j_status row = Completed" "j_output_keys row \<noteq> []"
    by (auto simp: servable_def get_by_id_def split: option.splits if_splits)
  obtain row' where "job_find t' i = Some row'" "job_evolves row row'"
    using job_run_evolves [OF assms(2) row(1)] by blast
  with row show ?thesis by (auto simp: servable_def get_by_id_def job_evolves_def job_frame_def)
qed

lemma get_image_served:
  assumes "servable t i = Some row" "n < length (j_output_keys row)" "length (show_nat n) \<le> 4300"
    "partition_on (CHR ''/'') (j_output_keys row ! n) = k" "objs k = Some bytes"
  shows "get_image S3Ok now t objs i (show_nat n @ ''.png'') =
    (Inr \<lparr>rs_status = 200, rs_headers = [], rs_body = BytesBody bytes ''image/png''\<rparr>, set_fetched t i now)"
proof -
  have "index_name_match [''png''] (show_nat n @ ''.png'') = Some (show_nat n, ''png'')"
    by (rule index_name_match_own) simp_all
  then show ?thesis using assms
    by (cases k) (simp add: get_image_def index_of_def nat_of_digits_show get_object_def)
qed

lemma get_video_served:
  assumes "servable t i = Some row" "n < length (j_output_keys row)" "length (show_nat n) \<le> 4300"
    "partition_on (CHR ''/'') (j_output_keys row ! n) = (b, object_key_for i' n ext d)"
    "objs (b, object_key_for i' n ext d) = Some bytes" "gateway_ext ext"
  shows "get_video_asset S3Ok now t objs i (show_nat n @ CHR ''.'' # ext) =
    (Inr \<lparr>rs_status = 200, rs_headers = [], rs_body = BytesBody bytes (gateway_media_type ext)\<rparr>, set_fetched t i now)"
proof -
  have "index_name_match [''mp4'', ''webm'', ''gif'', ''png''] (show_nat n @ CHR ''.'' # ext) = Some (show_nat n, ext)"
    using assms(6) gateway_ext_key(3,4) [OF assms(6)] by (intro index_name_match_own) (auto simp: gateway_ext_def)
  then show ?thesis using assms gateway_ext_key(5) [OF assms(6)]
    by (simp add: get_video_asset_def index_of_def nat_of_digits_show get_object_def)
qed


definition demo_s3 :: s3_config where
  "demo_s3 = s3_config_from_env (\<lambda>_. None)"

definition demo_s3_world :: backend_world where
  "demo_s3_world = demo_world\<lparr>bw_put := (\<lambda>n. storage_put demo_s3 (\<lambda>k. if k < 3 then ClientError ''SlowDown'' else S3Ok)
     (2026, 1, 5) ''gen_1'' n ''png'')\<rparr>"

definition demo_s3_run :: "item_end \<times> worker" where
  "demo_s3_run = process_item demo_s3_world demo_job demo_worker"

fun is_png_put :: "call \<Rightarrow> bool" where
  "is_png_put (CPut n ext ctype blob) = (ext = ''png'')"
| "is_png_put _ = True"

lemma demo_s3_run:
  "case demo_s3_run of (out, s') \<Rightarrow>
     (case out of Resolved r \<Rightarrow> jr_data r = [VDict [(''url'', VStr ''https://s/v1/images/gen_1/0.png'')]] | _ \<Rightarrow> False) \<and>
     list_all is_png_put (wk_calls s')"
  by code_simp

lemma demo_job_id: "j_id demo_job = ''gen_1''"
  by code_simp

lemma response_kind_images:
  assumes "[VDict [(''url'', VStr ''https://s/v1/images/gen_1/0.png'')]] = response_data demo_s3_world demo_job fmt kind blobs"
    and "kind = ''images'' \<or> kind = ''videos''"
  shows "kind = ''images''"
proof (rule ccontr)
  assume "kind \<noteq> ''images''"
  then have "kind = ''videos''" using assms(2) by simp
  moreover from assms(1) obtain b bs where "blobs = b # bs"
    by (cases blobs) (auto simp: response_data_def split: response_format.splits)
  moreover have "bw_public_base_url demo_s3_world = ''https://s''" by (simp add: demo_s3_world_def demo_world_def)
  ultimately show False using assms(1) by (cases b) (auto simp: response_data_def split: response_format.splits)
qed



section \<open>What the gateway may read and what it protects\<close>

lemma job_steps_reachable: "job_step\<^sup>*\<^sup>* t t' \<Longrightarrow> job_reachable t \<Longrightarrow> job_reachable t'"
  by (induction rule: rtranclp_induct) (auto intro: reach_step)

lemma get_image_200:
  assumes "get_image ans now t objs i name = (Inr resp, t')" "rs_status resp = 200"
  shows "\<exists>row n bytes. servable t i = Some row \<and> n < length (j_output_keys row) \<and>
    objs (partition_on (CHR ''/'') (j_output_keys row ! n)) = Some bytes \<and>
    rs_body resp = BytesBody bytes ''image/png'' \<and> t' = set_fetched t i now"
  using assms
  by (auto simp: get_image_def storage_response_def error_response_def get_object_def Let_def split_beta
      split: option.splits sum.splits if_splits storage_exc.splits s3_answer.splits) (meson not_le)

lemma get_video_200:
  assumes "get_video_asset ans now t objs i name = (Inr resp, t')" "rs_status resp = 200"
  shows "\<exists>row n bytes ctype. servable t i = Some row \<and> n < length (j_output_keys row) \<and>
    objs (partition_on (CHR ''/'') (j_output_keys row ! n)) = Some bytes \<and>
    rs_body resp = BytesBody bytes ctype \<and> t' = set_fetched t i now"
  using assms
  by (auto simp: get_video_asset_def storage_response_def error_response_def get_object_def Let_def split_beta
      split: option.splits sum.splits if_splits storage_exc.splits s3_answer.splits) (meson not_le)

lemma not_reaped:
  assumes "job_reachable t" "job_step\<^sup>*\<^sup>* (set_fetched t i now) t'" "servable t i = Some row" "j \<in> set (reap_rows t' cutoff)"
  shows "j_id j \<noteq> i"
proof
  assume "j_id j = i"
  have "job_find t i = Some row" using assms(3) by (auto simp: servable_def get_by_id_def split: option.splits if_splits)
  then obtain row1 where row1: "job_find (set_fetched t i now) i = Some row1" "j_fetched_at row1 \<noteq> None"
    by (auto simp: set_fetched_def jt.find_modify)
  obtain row2 where row2: "job_find t' i = Some row2" "job_evolves row1 row2"
    using job_run_evolves [OF assms(2) row1(1)] by blast
  have "job_reachable t'"
    using job_steps_reachable [OF assms(2)] assms(1) by (blast intro: reach_step step_fetched)
  then have d: "jt.keys_distinct t'" using reachable_jobs_ok by (auto simp: jobs_ok_def)
  from assms(4) have "j \<in> set t'" "j_fetched_at j = None" by (auto simp: reap_rows_def)
  with jt.find_distinct [OF d] row2(1) \<open>j_id j = i\<close> have "j = row2" by force
  with row1(2) row2(2) \<open>j_fetched_at j = None\<close> show False by (auto simp: job_evolves_def job_frame_def)
qed

text \<open>
  The gateway reads nothing but outputs, and what it served stays. Whatever path is asked
  for and whatever S3 answers, a GET of an image or a media file that is answered 200 carries
  an object that the job asked for lists among its output keys, that job being completed;
  the only write is the fetch mark; and from then on, however the service goes on, no reaper
  pass takes that job's row.
\<close>

theorem gateway_serves_own_outputs:
  assumes "job_reachable t" "rs_status resp = 200"
    and "get_image ans now t objs i name = (Inr resp, t') \<or> get_video_asset ans now t objs i name = (Inr resp, t')"
  shows "\<exists>row n bytes ctype. get_by_id t i = Some row \<and> j_status row = Completed \<and> n < length (j_output_keys row) \<and>
    objs (partition_on (CHR ''/'') (j_output_keys row ! n)) = Some bytes \<and> rs_body resp = BytesBody bytes ctype \<and>
    t' = set_fetched t i now \<and>
    (\<forall>t'' cutoff. job_step\<^sup>*\<^sup>* t' t'' \<longrightarrow> (\<forall>j \<in> set (reap_rows t'' cutoff). j_id j \<noteq> i))"
proof -
  from assms(3) obtain row n bytes ctype where row: "servable t i = Some row" "n < length (j_output_keys row)"
    "objs (partition_on (CHR ''/'') (j_output_keys row ! n)) = Some bytes" "rs_body resp = BytesBody bytes ctype"
    and t': "t' = set_fetched t i now"
    using get_image_200 [OF _ assms(2)] get_video_200 [OF _ assms(2)] by metis
  moreover have "get_by_id t i = Some row" "j_status row = Completed"
    using row(1) by (auto simp: servable_def split: option.splits if_splits)
  ultimately show ?thesis using not_reaped [OF assms(1) _ row(1)] by blast
qed

text \<open>
  The image route serves any output as PNG. It does not look at the extension of the
  stored key: asked for \<open>n.png\<close> of a completed video job, it answers with the video's bytes
  under the media type \<open>image/png\<close>, where the video route answers 404.
\<close>

theorem image_route_serves_videos:
  assumes "servable t i = Some row" "n < length (j_output_keys row)" "length (show_nat n) \<le> 4300"
    "partition_on (CHR ''/'') (j_output_keys row ! n) = (b, k)" "objs (b, k) = Some bytes"
    "ends_with ''.mp4'' (lower k)"
  shows "get_image S3Ok now t objs i (show_nat n @ ''.png'') =
      (Inr \<lparr>rs_status = 200, rs_headers = [], rs_body = BytesBody bytes ''image/png''\<rparr>, set_fetched t i now) \<and>
    get_video_asset S3Ok now t objs i (show_nat n @ ''.png'') =
      (Inr (error_response 404 ''not_found'' ''asset extension mismatch''), t)"
proof -
  have "\<not> ends_with ''.png'' (lower k)"
    using assms(6) by (auto simp: ends_with_def starts_with_def take_Suc)
  moreover have "index_name_match [''mp4'', ''webm'', ''gif'', ''png''] (show_nat n @ ''.png'') = Some (show_nat n, ''png'')"
    by (rule index_name_match_own) simp_all
  ultimately have "get_video_asset S3Ok now t objs i (show_nat n @ ''.png'') =
      (Inr (error_response 404 ''not_found'' ''asset extension mismatch''), t)"
    using assms(1-4) by (simp add: get_video_asset_def index_of_def nat_of_digits_show)
  with get_image_served [where objs = objs, OF assms(1-5)] show ?thesis by simp
qed

definition demo_video_running :: jobs where
  "demo_video_running = (case set_running demo_created ''gen_1'' ''p'' ''c'' 20 of Inr (t, _) \<Rightarrow> t | Inl _ \<Rightarrow> [])"

definition demo_video_done :: jobs where
  "demo_video_done = (case set_completed demo_video_running ''gen_1'' [''b/v/0.mp4''] (VDict []) 30 of
     Inr (t, _) \<Rightarrow> t | Inl _ \<Rightarrow> [])"

definition demo_objects :: objects where
  "demo_objects = (\<lambda>k. if k = (''b'', ''v/0.mp4'') then Some ''film'' else None)"

lemma demo_video_reachable: "job_reachable demo_video_done"
proof -
  have "\<exists>j. set_running demo_created ''gen_1'' ''p'' ''c'' 20 = Inr (demo_video_running, j)"
    by (simp add: demo_video_running_def set_running_def guarded_update_eq demo_defs)
  then have "job_reachable demo_video_running" by (blast intro: reach_step step_running demo_reachable)
  moreover have "\<exists>j. set_completed demo_video_running ''gen_1'' [''b/v/0.mp4''] (VDict []) 30 = Inr (demo_video_done, j)"
    by (simp add: demo_video_done_def demo_video_running_def set_completed_def set_running_def guarded_update_eq demo_defs
        running_row_def)
  ultimately show ?thesis by (blast intro: reach_step step_completed)
qed

lemma demo_video_gets:
  "get_video_asset S3Ok 40 demo_video_done demo_objects ''gen_1'' ''0.mp4'' =
     (Inr \<lparr>rs_status = 200, rs_headers = [], rs_body = BytesBody ''film'' ''video/mp4''\<rparr>, set_fetched demo_video_done ''gen_1'' 40)"
  "map_option j_output_keys (servable demo_video_done ''gen_1'') = Some [''b/v/0.mp4'']"
  by code_simp+

theorem gateway_serves_own_outputs_witness:
  "j_id (hd demo_video_done) = ''gen_1'' \<and> reap_rows demo_video_done 1000000 = demo_video_done \<and>
   list_all (\<lambda>j. j_id j \<noteq> ''gen_1'') (reap_rows (set_fetched demo_video_done ''gen_1'' 40) 1000000)"
proof (intro conjI)
  show "j_id (hd demo_video_done) = ''gen_1''" "reap_rows demo_video_done 1000000 = demo_video_done" by code_simp+
  from gateway_serves_own_outputs [OF demo_video_reachable _ disjI2 [OF demo_video_gets(1)]]
  show "list_all (\<lambda>j. j_id j \<noteq> ''gen_1'') (reap_rows (set_fetched demo_video_done ''gen_1'' 40) 1000000)"
    by (auto simp: list_all_iff)
qed

theorem image_route_serves_videos_witness:
  "get_image S3Ok 40 demo_video_done demo_objects ''gen_1'' ''0.png'' =
     (Inr \<lparr>rs_status = 200, rs_headers = [], rs_body = BytesBody ''film'' ''image/png''\<rparr>, set_fetched demo_video_done ''gen_1'' 40)"
proof -
  obtain row where row: "servable demo_video_done ''gen_1'' = Some row" "j_output_keys row = [''b/v/0.mp4'']"
    using demo_video_gets(2) by (auto simp: map_option_case split: option.splits)
  have "partition_on (CHR ''/'') (j_output_keys row ! 0) = (''b'', ''v/0.mp4'')" "ends_with ''.mp4'' (lower ''v/0.mp4'')"
    "show_nat 0 = ''0''" "demo_objects (''b'', ''v/0.mp4'') = Some ''film''"
    unfolding row(2) by code_simp+
  with image_route_serves_videos [OF row(1), of 0 "''b''" "''v/0.mp4''" demo_objects "''film''" 40] row(2)
  show ?thesis by simp
qed

end
