(* ===== verification/Init_Image.thy ===== *)
theory Init_Image
  imports Validation
begin

text \<open>
  \<open>app/api/init_image_multipart.py\<close>: an uploaded reference image is written into the JSON
  payload as a data URI, which \<open>resolve_and_validate\<close> decodes again. The base64 round trip
  and the composition of the two sides.
\<close>

section \<open>The upload\<close>

definition default_max_bytes :: int where
  "default_max_bytes = 25 * 1024 * 1024"

definition max_init_image_upload_bytes :: "environ \<Rightarrow> int" where
  "max_init_image_upload_bytes env = (case env ''MAX_INIT_IMAGE_UPLOAD_BYTES'' of
     None \<Rightarrow> max 1024 (min default_max_bytes (200 * 1024 * 1024))
   | Some raw \<Rightarrow> (case py_int raw of
       None \<Rightarrow> default_max_bytes
     | Some n \<Rightarrow> max 1024 (min n (200 * 1024 * 1024))))"

text \<open>Errors are the texts of the \<open>ValueError\<close>s.\<close>

definition mime_from_magic :: "string \<Rightarrow> string + string" where
  "mime_from_magic bytes =
     (if 8 \<le> length bytes \<and> starts_with [CHR 0x89, CHR ''P'', CHR ''N'', CHR ''G'', CHR 0x0D, CHR 0x0A, CHR 0x1A, CHR 0x0A] bytes
        then Inr ''image/png''
      else if 3 \<le> length bytes \<and> starts_with [CHR 0xFF, CHR 0xD8, CHR 0xFF] bytes then Inr ''image/jpeg''
      else if 6 \<le> length bytes \<and> (starts_with ''GIF87a'' bytes \<or> starts_with ''GIF89a'' bytes) then Inr ''image/gif''
      else if 12 \<le> length bytes \<and> take 4 bytes = ''RIFF'' \<and> take 4 (drop 8 bytes) = ''WEBP'' then Inr ''image/webp''
      else Inl ''image file must be PNG, JPEG, GIF, or WebP (unrecognized magic bytes)'')"

definition parse_payload_object :: "json_text \<Rightarrow> string + pydict" where
  "parse_payload_object payload = (case payload of
     None \<Rightarrow> Inl ''payload must be valid JSON''
   | Some (VDict d) \<Rightarrow> Inr d
   | Some _ \<Rightarrow> Inl ''payload must be a JSON object'')"

definition data_uri :: "string \<Rightarrow> string \<Rightarrow> string" where
  "data_uri mime bytes = ''data:'' @ mime @ '';base64,'' @ b64_encode bytes"

definition merge_init_image_upload :: "environ \<Rightarrow> pydict \<Rightarrow> string \<Rightarrow> string + pydict" where
  "merge_init_image_upload env raw bytes =
     (let limit = max_init_image_upload_bytes env in
      if bytes = [] then Inl ''image upload is empty''
      else if limit < int (length bytes)
        then Inl (''image exceeds max size ('' @ show_int limit @ '' bytes)'')
      else bind_r (mime_from_magic bytes) (\<lambda>mime.
        Inr (dict_set ''init_image'' (VStr (data_uri mime bytes)) raw)))"

section \<open>base64\<close>

lemma b64_val_char: "v < 64 \<Longrightarrow> b64_val (b64_char v) = Some v"
  by (auto simp: b64_val_def b64_char_def Let_def)

lemma b64_char_no_pad: "v < 64 \<Longrightarrow> b64_char v \<noteq> CHR ''=''"
  using b64_val_char [of v] by (auto simp: b64_val_def Let_def)

lemma sextets:
  "x < 256 \<Longrightarrow> x div 4 < 64" "y < 256 \<Longrightarrow> 16 * (x mod 4) + y div 16 < 64"
  "z < 256 \<Longrightarrow> 4 * (y mod 16) + z div 64 < 64" "z mod 64 < 64"
  "y < 256 \<Longrightarrow> y div 16 div 16 = 0" "y < 256 \<Longrightarrow> y div 16 mod 16 = y div 16"
  "z < 256 \<Longrightarrow> z div 64 div 4 = 0" "z < 256 \<Longrightarrow> z div 64 mod 4 = z div 64" for x y z :: nat
  using mod_less_divisor [of 4 x] mod_less_divisor [of 16 y]
  by (auto simp: less_mult_imp_div_less div_mult2_eq [symmetric])

lemma b64_decode_encode: "b64_decode (b64_encode bs) = Some bs"
proof (induction bs rule: b64_encode.induct)
  case (4 a b c rest)
  then show ?case by (simp add: Let_def b64_val_char b64_char_no_pad sextets)
next
  case (3 a b)
  show ?case by (simp add: Let_def b64_val_char b64_char_no_pad sextets)
next
  case (2 a)
  show ?case by (simp add: Let_def b64_val_char b64_char_no_pad sextets)
qed simp

section \<open>From the upload to the job\<close>

lemma mime_no_comma: "mime_from_magic bytes = Inr mime \<Longrightarrow> CHR '','' \<notin> set mime \<and> starts_with ''image'' mime"
  by (auto simp: mime_from_magic_def starts_with_def split: if_splits)

lemma decode_data_uri:
  assumes "mime_from_magic bytes = Inr mime"
  shows "decode_init_image (Some (data_uri mime bytes)) = Inr (Some bytes)"
proof -
  obtain m where m: "mime = ''image'' @ m" "CHR '','' \<notin> set m"
    using mime_no_comma [OF assms] by (metis starts_with_def append_take_drop_id Un_iff set_append)
  then have uri: "data_uri mime bytes = (''data:image'' @ m @ '';base64'') @ CHR '','' # b64_encode bytes"
    by (simp add: data_uri_def)
  have "partition_on (CHR '','') (data_uri mime bytes) = (''data:image'' @ m @ '';base64'', b64_encode bytes)"
    unfolding uri by (rule partition_on_append) (use m in simp)
  moreover have "starts_with ''data:image'' (data_uri mime bytes)" "CHR '','' \<in> set (data_uri mime bytes)"
    "data_uri mime bytes \<noteq> []"
    unfolding uri by (simp_all add: starts_with_def)
  ultimately show ?thesis
    by (simp add: decode_init_image_def b64_decode_encode)
qed

lemma merge_init_image_upload_Inr:
  assumes "merge_init_image_upload env raw bytes = Inr out"
  obtains mime where "mime_from_magic bytes = Inr mime" "bytes \<noteq> []"
    "int (length bytes) \<le> max_init_image_upload_bytes env"
    "out = dict_set ''init_image'' (VStr (data_uri mime bytes)) raw"
  using assms by (auto simp: merge_init_image_upload_def Let_def bind_r_Inr split: if_splits)

lemma max_upload_range: "1024 \<le> max_init_image_upload_bytes env \<and> max_init_image_upload_bytes env \<le> 200 * 1024 * 1024"
  by (auto simp: max_init_image_upload_bytes_def default_max_bytes_def split: option.splits)

lemma validated_init_image:
  assumes "resolve_and_validate w reg req = Inr v"
  shows "decode_init_image (gr_init_image req) = Inr (vj_init_image_bytes v)"
proof -
  from assms obtain model where "registry_get reg (gr_model req) = Some model"
    by (auto simp: resolve_and_validate_def split: option.splits)
  with assms show ?thesis
    by (auto simp: resolve_and_validate_def Let_def bind_r_Inr split_beta require_v_def)
qed

text \<open>
  An uploaded image reaches the job byte for byte. When the multipart endpoint accepts an
  upload, it is at most \<open>MAX_INIT_IMAGE_UPLOAD_BYTES\<close> long (never more than 200 MiB), the
  payload it builds differs from the client's in \<open>init_image\<close> only, and the request parsed
  from it, if it validates, is a job whose \<open>init_image_bytes\<close> are the uploaded bytes. Pydantic
  is assumed to copy the text of \<open>init_image\<close>.
\<close>

theorem upload_round_trip:
  assumes "merge_init_image_upload env raw bytes = Inr out"
    and copied: "\<And>d r s. parse (VDict d) = Some r \<Longrightarrow> dict_get d ''init_image'' = VStr s \<Longrightarrow> gr_init_image r = Some s"
    and "parse (VDict out) = Some req" "resolve_and_validate w reg req = Inr v"
  shows "vj_init_image_bytes v = Some bytes \<and> int (length bytes) \<le> 200 * 1024 * 1024 \<and>
    (\<forall>k. k \<noteq> ''init_image'' \<longrightarrow> dict_get out k = dict_get raw k)"
proof -
  from assms(1) obtain mime where mime: "mime_from_magic bytes = Inr mime"
    and len: "int (length bytes) \<le> max_init_image_upload_bytes env"
    and out: "out = dict_set ''init_image'' (VStr (data_uri mime bytes)) raw"
    by (rule merge_init_image_upload_Inr)
  have "gr_init_image req = Some (data_uri mime bytes)"
    using copied [OF assms(3)] by (simp add: out dict_get_update)
  with validated_init_image [OF assms(4)] have "vj_init_image_bytes v = Some bytes"
    by (simp add: decode_data_uri [OF mime])
  with len max_upload_range [of env] show ?thesis by (simp add: out dict_get_update)
qed

definition demo_parse :: "pyval \<Rightarrow> generate_request option" where
  "demo_parse v = (case dict_get (dict_of v) ''init_image'' of
     VStr s \<Rightarrow> Some (demo_request\<lparr>gr_init_image := Some s\<rparr>) | _ \<Rightarrow> None)"

theorem upload_round_trip_witness:
  "\<exists>out req v. merge_init_image_upload (\<lambda>_. None) [(''model'', VStr ''m'')] ''GIF89a...'' = Inr out \<and>
     demo_parse (VDict out) = Some req \<and>
     resolve_and_validate demo_vworld [(''m'', demo_model ''sdxl'')] req = Inr v \<and>
     vj_init_image_bytes v = Some ''GIF89a...''"
proof -
  let ?bytes = "''GIF89a...''"
  have mime: "mime_from_magic ?bytes = Inr ''image/gif''" by code_simp
  then have merged: "merge_init_image_upload (\<lambda>_. None) [(''model'', VStr ''m'')] ?bytes =
      Inr [(''model'', VStr ''m''), (''init_image'', VStr (data_uri ''image/gif'' ?bytes))]"
    by (simp add: merge_init_image_upload_def max_init_image_upload_bytes_def default_max_bytes_def)
  let ?req = "demo_request\<lparr>gr_init_image := Some (data_uri ''image/gif'' ?bytes)\<rparr>"
  have parsed: "demo_parse (VDict [(''model'', VStr ''m''), (''init_image'', VStr (data_uri ''image/gif'' ?bytes))]) = Some ?req"
    by (simp add: demo_parse_def)
  have "\<exists>v. resolve_and_validate demo_vworld [(''m'', demo_model ''sdxl'')] ?req = Inr v"
    using decode_data_uri [OF mime]
    by (simp add: resolve_and_validate_def registry_get_def demo_request_def demo_model_def demo_vworld_def
      size_or_default_def pick_option_def family_set_def allowed_samplers_by_family_def allowed_samplers_def
      allowed_schedulers_by_family_def allowed_schedulers_def check_size_def demo_parse_size int_limit_def
      require_v_def check_def check_async_def check_webhook_def resolve_loras_for_job_def resolve_lora_def
      contained_def check_vram_def vram_budget_gb_def lora_vram_overhead_gb_def)
  then obtain v where v: "resolve_and_validate demo_vworld [(''m'', demo_model ''sdxl'')] ?req = Inr v" by blast
  have copied: "\<And>d r s. demo_parse (VDict d) = Some r \<Longrightarrow> dict_get d ''init_image'' = VStr s \<Longrightarrow> gr_init_image r = Some s"
    by (auto simp: demo_parse_def)
  have "vj_init_image_bytes v = Some ?bytes"
    by (rule conjunct1 [OF upload_round_trip [where parse = demo_parse, OF merged _ parsed v]]) (rule copied)
  with merged parsed v show ?thesis by blast
qed

end
