(* ===== verification/Api.thy ===== *)
theory Api
  imports Gateway Init_Image
begin

text \<open>
  The write side of \<open>app/api/images.py\<close> and \<open>app/api/videos.py\<close>: the POST handlers, from the
  body of the request to the answer and the background task that follows it. A handler that
  waits for the worker is given the worker's turn as an argument; whatever else happens to the
  tables meanwhile is part of that turn.
\<close>

section \<open>Requests and early answers\<close>

text \<open>
  \<open>await request.json()\<close>: a value, a \<open>JSONDecodeError\<close>, or bytes that are no text
  (\<open>UnicodeDecodeError\<close>, which no handler catches).
\<close>

datatype http_body = ReqJson pyval | ReqNotJson | ReqNotText

text \<open>
  What a handler reads besides the tables: the runtime lock, Pydantic's \<open>model_validate\<close> with
  the message of its first error, the registry and the surroundings of validation, the queue
  limit, the fresh job id and the clocks.
\<close>

record api_world =
  aw_locked :: bool
  aw_env :: environ
  aw_parse_image :: "pyval \<Rightarrow> string + generate_request"
  aw_parse_video :: "pyval \<Rightarrow> string + video_request"
  aw_registry :: registry
  aw_vworld :: validation_world
  aw_sidecar :: sidecar_world
  aw_max_queue :: int
  aw_job_id :: string
  aw_now :: timestamp
  aw_unix_time :: int

text \<open>A step of a handler ends it (\<open>Inl\<close>: an exception or a response) or goes on (\<open>Inr\<close>).\<close>

type_synonym 'a step = "(http_exc + response) + 'a"

definition reply :: "response \<Rightarrow> 'a step" where
  "reply r = Inl (Inr r)"

definition raise_http :: "http_exc \<Rightarrow> 'a step" where
  "raise_http e = Inl (Inl e)"

definition check_runtime_lock :: "api_world \<Rightarrow> unit step" where
  "check_runtime_lock aw = (if aw_locked aw
     then reply (error_response 503 ''runtime_reconfiguring'' ''runtime bundle is being reconfigured'') else Inr ())"

definition read_json :: "http_body \<Rightarrow> pyval step" where
  "read_json b = (case b of
     ReqJson v \<Rightarrow> Inr v
   | ReqNotJson \<Rightarrow> reply (error_response 400 ''validation_error'' ''body is not valid JSON'')
   | ReqNotText \<Rightarrow> raise_http (OtherException ''UnicodeDecodeError''))"

definition validate_model :: "(pyval \<Rightarrow> string + 'a) \<Rightarrow> pyval \<Rightarrow> 'a step" where
  "validate_model parse raw = (case parse raw of
     Inl msg \<Rightarrow> reply (error_response 400 ''validation_error'' msg) | Inr body \<Rightarrow> Inr body)"

definition read_multipart :: "api_world \<Rightarrow> json_text \<Rightarrow> string \<Rightarrow> pyval step" where
  "read_multipart aw payload upload =
     (case bind_r (parse_payload_object payload) (\<lambda>raw. merge_init_image_upload (aw_env aw) raw upload) of
        Inl msg \<Rightarrow> reply (error_response 400 ''validation_error'' msg) | Inr raw \<Rightarrow> Inr (VDict raw))"

section \<open>Admission\<close>

text \<open>\<open>except ValidationFailureError\<close>; other exceptions go to the last-resort handler.\<close>

definition validated_or_reply :: "validation_error + 'a \<Rightarrow> 'a step" where
  "validated_or_reply r = (case r of
     Inl (ValidationFailure code msg) \<Rightarrow> reply (error_response 400 code msg)
   | Inl Uncaught \<Rightarrow> raise_http (OtherException ''validation'')
   | Inr v \<Rightarrow> Inr v)"

definition queue_gate :: "int \<Rightarrow> jobs \<Rightarrow> unit step" where
  "queue_gate max_queue t = (let active = int (count_active t) in
     if max_queue \<le> active
     then reply (error_response 429 ''queue_full''
            (''queue depth '' @ show_int active @ '' >= MAX_QUEUE '' @ show_int max_queue))
     else Inr ())"

definition store_job ::
  "api_world \<Rightarrow> string \<Rightarrow> pyval \<Rightarrow> job_mode \<Rightarrow> string option \<Rightarrow> (string \<times> string) list option \<Rightarrow> worker \<Rightarrow> job step \<times> worker" where
  "store_job aw model input mode url headers s =
     (case create_queued (wk_jobs s) (aw_job_id aw) (aw_now aw) model (Some input) mode url headers of
        Inl _ \<Rightarrow> (raise_http (OtherException ''IntegrityError''), s)
      | Inr (t, j) \<Rightarrow> (Inr j, note_event ''queued'' None (s\<lparr>wk_jobs := t\<rparr>)))"

text \<open>\<open>_run_sync_job\<close> and \<open>_run_video_job\<close> up to the call that enqueues the job.\<close>

definition admit_image :: "api_world \<Rightarrow> pyval \<Rightarrow> generate_request \<Rightarrow> worker \<Rightarrow> job step \<times> worker" where
  "admit_image aw raw body s =
     (case validated_or_reply (resolve_and_validate (aw_vworld aw) (aw_registry aw) body) of
        Inl stop \<Rightarrow> (Inl stop, s)
      | Inr v \<Rightarrow>
          (let s = s\<lparr>wk_sidecars := touch_last_used (aw_sidecar aw) (vj_loras v) (wk_sidecars s)\<rparr>
           in case queue_gate (aw_max_queue aw) (wk_jobs s) of
                Inl stop \<Rightarrow> (Inl stop, s)
              | Inr _ \<Rightarrow> store_job aw (gr_model body) raw (gr_mode body) (vj_webhook_url v) (vj_webhook_headers v) s))"

definition video_envelope :: "string \<Rightarrow> pyval \<Rightarrow> pyval" where
  "video_envelope video_task raw =
     VDict [(''artifact_kind'', VStr ''video''), (''video_task'', VStr video_task), (''payload'', raw)]"

definition admit_video :: "api_world \<Rightarrow> string \<Rightarrow> pyval \<Rightarrow> video_request \<Rightarrow> worker \<Rightarrow> job step \<times> worker" where
  "admit_video aw video_task raw body s =
     (case validated_or_reply (resolve_and_validate_video (aw_vworld aw) (aw_registry aw) video_task body) of
        Inl stop \<Rightarrow> (Inl stop, s)
      | Inr v \<Rightarrow> (case queue_gate (aw_max_queue aw) (wk_jobs s) of
            Inl stop \<Rightarrow> (Inl stop, s)
          | Inr _ \<Rightarrow> store_job aw (vr_model body) (video_envelope video_task raw) (vr_mode body)
                      (vv_webhook_url v) (vv_webhook_headers v) s))"

section \<open>The answer\<close>

text \<open>What the awaited future gives; a future that is never resolved gives nothing.\<close>

definition await_result :: "item_end \<Rightarrow> job_result step option" where
  "await_result e = (case e of
     Resolved r \<Rightarrow> Some (Inr r)
   | Rejected (ComfyUnreachable m) \<Rightarrow> Some (reply (error_response 503 ''comfy_unreachable'' m))
   | Rejected (ComfyTimeout m) \<Rightarrow> Some (reply (error_response 504 ''comfy_timeout'' m))
   | Rejected (ComfyNode m) \<Rightarrow> Some (reply (error_response 500 ''comfy_error'' m))
   | Rejected (StorageErr m) \<Rightarrow> Some (reply (error_response 502 ''storage_error'' m))
   | Rejected (Unexpected m) \<Rightarrow> Some (raise_http (OtherException m))
   | LoopDies \<Rightarrow> None)"

definition accepted_response :: "job \<Rightarrow> response" where
  "accepted_response j = \<lparr>rs_status = 202, rs_headers = [(''X-Job-Id'', j_id j)],
     rs_body = JsonBody (VDict [(''id'', VStr (j_id j)), (''status'', VStr ''processing'')])\<rparr>"

definition completed_response :: "int \<Rightarrow> job \<Rightarrow> job_result \<Rightarrow> response" where
  "completed_response unix_time j r = \<lparr>rs_status = 200, rs_headers = [(''X-Job-Id'', j_id j)],
     rs_body = JsonBody (VDict [(''created'', VInt unix_time), (''data'', VList (jr_data r))])\<rparr>"

text \<open>The write that follows the response once its bytes are sent.\<close>

datatype background = NoTask | FlushInitial string | FlushResponse string

definition run_background :: "background \<Rightarrow> timestamp \<Rightarrow> jobs \<Rightarrow> jobs" where
  "run_background b now t = (case b of
     NoTask \<Rightarrow> t
   | FlushInitial i \<Rightarrow> mark_initial_response_delivered t i now
   | FlushResponse i \<Rightarrow> mark_response_delivered t i now)"

type_synonym turn = "job \<Rightarrow> worker \<Rightarrow> item_end \<times> worker"
type_synonym answer = "(http_exc + response) option \<times> background \<times> worker"

text \<open>
  From admission to the answer, for both media: an asynchronous job is acknowledged, a
  synchronous one is awaited.
\<close>

definition answer_job :: "api_world \<Rightarrow> turn \<Rightarrow> job_mode \<Rightarrow> job step \<times> worker \<Rightarrow> answer" where
  "answer_job aw turn mode admitted = (case admitted of
     (Inl stop, s) \<Rightarrow> (Some stop, NoTask, s)
   | (Inr j, s) \<Rightarrow>
       (case mode of
          Async \<Rightarrow> (Some (Inr (accepted_response j)), FlushInitial (j_id j), s)
        | Sync \<Rightarrow> (case turn j s of (e, s) \<Rightarrow>
            (case await_result e of
               None \<Rightarrow> (None, NoTask, s)
             | Some (Inl stop) \<Rightarrow> (Some stop, NoTask, s)
             | Some (Inr r) \<Rightarrow> (Some (Inr (completed_response (aw_unix_time aw) j r)), FlushResponse (j_id j), s)))))"

section \<open>The endpoints\<close>

definition parse_image_body :: "api_world \<Rightarrow> http_body \<Rightarrow> (pyval \<times> generate_request) step" where
  "parse_image_body aw b = bind_r (check_runtime_lock aw) (\<lambda>_. bind_r (read_json b) (\<lambda>raw.
     bind_r (validate_model (aw_parse_image aw) raw) (\<lambda>body. Inr (raw, body))))"

definition parse_video_body :: "api_world \<Rightarrow> http_body \<Rightarrow> (pyval \<times> video_request) step" where
  "parse_video_body aw b = bind_r (check_runtime_lock aw) (\<lambda>_. bind_r (read_json b) (\<lambda>raw.
     bind_r (validate_model (aw_parse_video aw) raw) (\<lambda>body. Inr (raw, body))))"

definition create_image :: "api_world \<Rightarrow> turn \<Rightarrow> http_body \<Rightarrow> worker \<Rightarrow> answer" where
  "create_image aw turn b s = (case parse_image_body aw b of
     Inl stop \<Rightarrow> (Some stop, NoTask, s)
   | Inr (raw, body) \<Rightarrow> answer_job aw turn (gr_mode body) (admit_image aw raw body s))"

definition create_image_multipart :: "api_world \<Rightarrow> turn \<Rightarrow> json_text \<Rightarrow> string \<Rightarrow> worker \<Rightarrow> answer" where
  "create_image_multipart aw turn payload upload s =
     (case bind_r (check_runtime_lock aw) (\<lambda>_. bind_r (read_multipart aw payload upload) (\<lambda>raw.
             bind_r (validate_model (aw_parse_image aw) raw) (\<lambda>body. Inr (raw, body)))) of
        Inl stop \<Rightarrow> (Some stop, NoTask, s)
      | Inr (raw, body) \<Rightarrow> answer_job aw turn (gr_mode body) (admit_image aw raw body s))"

definition create_video :: "api_world \<Rightarrow> turn \<Rightarrow> string \<Rightarrow> http_body \<Rightarrow> worker \<Rightarrow> answer" where
  "create_video aw turn video_task b s = (case parse_video_body aw b of
     Inl stop \<Rightarrow> (Some stop, NoTask, s)
   | Inr (raw, body) \<Rightarrow> answer_job aw turn (vr_mode body) (admit_video aw video_task raw body s))"

definition create_text_to_video :: "api_world \<Rightarrow> turn \<Rightarrow> http_body \<Rightarrow> worker \<Rightarrow> answer" where
  "create_text_to_video aw turn b s = create_video aw turn ''t2v'' b s"

definition create_image_to_video :: "api_world \<Rightarrow> turn \<Rightarrow> http_body \<Rightarrow> worker \<Rightarrow> answer" where
  "create_image_to_video aw turn b s = create_video aw turn ''i2v'' b s"

definition create_image_to_video_multipart :: "api_world \<Rightarrow> turn \<Rightarrow> json_text \<Rightarrow> string \<Rightarrow> worker \<Rightarrow> answer" where
  "create_image_to_video_multipart aw turn payload upload s =
     (case bind_r (check_runtime_lock aw) (\<lambda>_. bind_r (read_multipart aw payload upload) (\<lambda>raw.
             bind_r (validate_model (aw_parse_video aw) raw) (\<lambda>body. Inr (raw, body)))) of
        Inl stop \<Rightarrow> (Some stop, NoTask, s)
      | Inr (raw, body) \<Rightarrow> answer_job aw turn (vr_mode body) (admit_video aw ''i2v'' raw body s))"

text \<open>
  The binary endpoint: synchronous, one image, and the bytes themselves as the answer, read
  back from storage through the stored key.
\<close>

definition binary_answer :: "s3_answer \<Rightarrow> timestamp \<Rightarrow> objects \<Rightarrow> job \<Rightarrow> worker \<Rightarrow> answer" where
  "binary_answer ans now objs j s = (case servable (wk_jobs s) (j_id j) of
     None \<Rightarrow> (Some (Inr (error_response 500 ''comfy_error'' ''binary sync completed without output image'')), NoTask, s)
   | Some row \<Rightarrow>
       (let (bucket, key) = partition_on (CHR ''/'') (hd (j_output_keys row)) in
        case get_object ans objs bucket key of
          Inl e \<Rightarrow> (Some (storage_response e ''image bytes no longer available''), NoTask, s)
        | Inr bytes \<Rightarrow>
            (Some (Inr \<lparr>rs_status = 200, rs_headers = [(''X-Job-Id'', j_id j)], rs_body = BytesBody bytes ''image/png''\<rparr>),
             FlushResponse (j_id j), s\<lparr>wk_jobs := set_fetched (wk_jobs s) (j_id j) now\<rparr>)))"

definition binary_only :: "generate_request \<Rightarrow> unit step" where
  "binary_only body =
     (if gr_mode body = Async then reply (error_response 400 ''validation_error'' (''binary endpoint requires mode='' @ [CHR 0x27] @ ''sync'' @ [CHR 0x27]))
      else if gr_n body \<noteq> 1 then reply (error_response 400 ''validation_error'' ''binary endpoint only supports n=1'')
      else Inr ())"

text \<open>\<open>objs_after\<close>: the objects when the worker is done with the job.\<close>

definition create_image_binary ::
  "api_world \<Rightarrow> turn \<Rightarrow> s3_answer \<Rightarrow> timestamp \<Rightarrow> (worker \<Rightarrow> objects) \<Rightarrow> http_body \<Rightarrow> worker \<Rightarrow> answer" where
  "create_image_binary aw turn ans now objs_after b s =
     (case bind_r (parse_image_body aw b) (\<lambda>(raw, body). bind_r (binary_only body) (\<lambda>_. Inr (raw, body))) of
        Inl stop \<Rightarrow> (Some stop, NoTask, s)
      | Inr (raw, body) \<Rightarrow> (case admit_image aw raw body s of
          (Inl stop, s) \<Rightarrow> (Some stop, NoTask, s)
        | (Inr j, s) \<Rightarrow> (case turn j s of (e, s) \<Rightarrow> (case await_result e of
              None \<Rightarrow> (None, NoTask, s)
            | Some (Inl stop) \<Rightarrow> (Some stop, NoTask, s)
            | Some (Inr r) \<Rightarrow> binary_answer ans now (objs_after s) j s))))"

text \<open>The watcher's write when the client of a synchronous request disconnects.\<close>

definition client_disconnected :: "jobs \<Rightarrow> string \<Rightarrow> timestamp \<Rightarrow> jobs" where
  "client_disconnected t job_id now = mark_async_with_handover t job_id now"

section \<open>Admission and the table\<close>

text \<open>A step that ends the handler with a client error or an exception.\<close>

definition refuses :: "http_exc + response \<Rightarrow> bool" where
  "refuses stop \<longleftrightarrow> (\<forall>resp. stop = Inr resp \<longrightarrow> 400 \<le> rs_status resp)"

definition queued_in :: "job_mode \<Rightarrow> job \<Rightarrow> jobs \<Rightarrow> bool" where
  "queued_in mode j t \<longleftrightarrow> (\<exists>row. job_find t (j_id j) = Some row \<and> j_status row = Queued \<and> j_mode row = mode)"

text \<open>
  What admission gives: a refusal that leaves the jobs alone, or a new queued row of the
  requested mode.
\<close>

definition admission_ok :: "jobs \<Rightarrow> job_mode \<Rightarrow> job step \<times> worker \<Rightarrow> bool" where
  "admission_ok t mode a = (case a of
     (Inl stop, s') \<Rightarrow> refuses stop \<and> wk_jobs s' = t
   | (Inr j, s') \<Rightarrow> j_id j \<notin> set (map j_id t) \<and> job_step t (wk_jobs s') \<and> queued_in mode j (wk_jobs s'))"

lemma refuses_simps [simp]:
  "refuses (Inl e)" "refuses (Inr (error_response st code msg)) = (400 \<le> st)"
  by (simp_all add: refuses_def error_response_def)

lemma step_Inl [simp]:
  "reply r = Inl x \<longleftrightarrow> x = Inr r" "raise_http e = Inl x \<longleftrightarrow> x = Inl e" "reply r \<noteq> Inr y" "raise_http e \<noteq> Inr y"
  by (auto simp: reply_def raise_http_def)

lemma validated_or_reply_refuses: "validated_or_reply r = Inl stop \<Longrightarrow> refuses stop"
  by (auto simp: validated_or_reply_def split: sum.splits validation_error.splits)

lemma queue_gate_refuses: "queue_gate m t = Inl stop \<Longrightarrow> refuses stop"
  by (auto simp: queue_gate_def Let_def split: if_splits)

lemma store_job_ok: "admission_ok (wk_jobs s) mode (store_job aw model input mode url headers s)"
proof (cases "create_queued (wk_jobs s) (aw_job_id aw) (aw_now aw) model (Some input) mode url headers")
  case (Inr r)
  then obtain t j where r: "create_queued (wk_jobs s) (aw_job_id aw) (aw_now aw) model (Some input) mode url headers = Inr (t, j)"
    by (cases r) auto
  from create_queued_Inr [OF r] obtain row where fresh: "j_id j \<notin> set (map j_id (wk_jobs s))"
    and row: "t = wk_jobs s @ [row]" "j_id row = j_id j" "j_status row = Queued" "j_mode row = mode" by auto
  moreover have "job_find (wk_jobs s) (j_id j) = None" using fresh by (simp add: tbl_find_None)
  ultimately have "job_find t (j_id j) = Some row" by (simp add: tbl_find_append)
  with row fresh r show ?thesis by (auto simp: store_job_def admission_ok_def queued_in_def intro: step_create)
qed (simp add: store_job_def admission_ok_def raise_http_def)

lemma admit_image_ok: "admission_ok (wk_jobs s) (gr_mode body) (admit_image aw raw body s)"
proof -
  have "admission_ok (wk_jobs s) (gr_mode body) (store_job aw m i (gr_mode body) u h (s\<lparr>wk_sidecars := d\<rparr>))" for m i u h d
    using store_job_ok [of "s\<lparr>wk_sidecars := d\<rparr>"] by simp
  then show ?thesis
    by (auto simp: admit_image_def Let_def admission_ok_def [of _ _ "(Inl _, _)"] validated_or_reply_refuses queue_gate_refuses
        split: sum.split)
qed

lemma admit_video_ok: "admission_ok (wk_jobs s) (vr_mode body) (admit_video aw task raw body s)"
  by (auto simp: admit_video_def admission_ok_def [of _ _ "(Inl _, _)"] validated_or_reply_refuses queue_gate_refuses store_job_ok
      split: sum.split)

section \<open>Answers\<close>

text \<open>
  The worker's turn for a queued job: whatever the service does before and after, the worker
  processes the item while its row is still queued.
\<close>

definition worker_turn :: "backend_world \<Rightarrow> turn \<Rightarrow> bool" where
  "worker_turn w turn \<longleftrightarrow> (\<forall>j s mode. queued_in mode j (wk_jobs s) \<longrightarrow>
     (\<exists>s1 s2. job_step\<^sup>*\<^sup>* (wk_jobs s) (wk_jobs s1) \<and> (\<exists>m. queued_in m j (wk_jobs s1)) \<and>
        process_item w j s1 = (fst (turn j s), s2) \<and> job_step\<^sup>*\<^sup>* (wk_jobs s2) (wk_jobs (snd (turn j s)))))"

lemma worker_turn_process: "worker_turn w (process_item w)"
  unfolding worker_turn_def by (metis rtranclp.rtrancl_refl prod.collapse)

definition polls_completed :: "jobs \<Rightarrow> string \<Rightarrow> pyval list \<Rightarrow> bool" where
  "polls_completed t i data \<longleftrightarrow> (\<exists>d. get_generation_status t i = Inr (json_response 200 d) \<and>
     dict_get d ''status'' = VStr ''completed'' \<and> dict_get d ''data'' = VList data)"

definition polls_failed :: "jobs \<Rightarrow> string \<Rightarrow> bool" where
  "polls_failed t i \<longleftrightarrow> (\<exists>d. get_generation_status t i = Inr (json_response 200 d) \<and>
     dict_get d ''status'' = VStr ''failed'' \<and> is_dict (dict_get d ''error''))"

lemma terminal_later:
  assumes "job_find t i = Some row" "terminal_status (j_status row)" "job_step\<^sup>*\<^sup>* t t'"
  shows "\<exists>row'. job_find t' i = Some row' \<and> j_status row' = j_status row \<and> j_result_json row' = j_result_json row"
  using job_run_evolves [OF assms(3,1)] assms(2) by (auto simp: job_evolves_def job_frame_def)

lemma completed_polls:
  assumes "job_find t i = Some row" "j_status row = Completed" "j_result_json row = Some (result_json r)" "job_step\<^sup>*\<^sup>* t t'"
  shows "polls_completed t' i (jr_data r)"
proof -
  obtain row' where "job_find t' i = Some row'" "j_status row' = Completed" "j_result_json row' = Some (result_json r)"
    using terminal_later [OF assms(1) _ assms(4)] assms(2,3) by auto
  then show ?thesis
    by (simp add: polls_completed_def get_generation_status_def get_by_id_def poll_body_def Let_def result_json_def json_response_def)
qed

lemma failed_polls:
  assumes "job_find t i = Some row" "j_status row = Failed" "job_step\<^sup>*\<^sup>* t t'"
  shows "polls_failed t' i"
proof -
  obtain row' where "job_find t' i = Some row'" "j_status row' = Failed"
    using terminal_later [OF assms(1) _ assms(3)] assms(2) by auto
  then show ?thesis
    by (simp add: polls_failed_def get_generation_status_def get_by_id_def poll_body_def Let_def json_response_def)
qed

text \<open>
  How a request may end: refused without a trace, accepted with a queued row, answered with a
  result that polling shows from then on, or answered with an error for a new row that polling
  shows failed.
\<close>

definition settled_answer :: "int \<Rightarrow> jobs \<Rightarrow> answer \<Rightarrow> bool" where
  "settled_answer unix_time t0 a \<longleftrightarrow> (\<exists>ans bg s1. a = (Some ans, bg, s1) \<and>
     (bg = NoTask \<and> refuses ans \<and> wk_jobs s1 = t0 \<or>
      (\<exists>j. bg = FlushInitial (j_id j) \<and> ans = Inr (accepted_response j) \<and> queued_in Async j (wk_jobs s1)) \<or>
      (\<exists>j r. bg = FlushResponse (j_id j) \<and> ans = Inr (completed_response unix_time j r) \<and>
         (\<forall>t. job_step\<^sup>*\<^sup>* (wk_jobs s1) t \<longrightarrow> polls_completed t (j_id j) (jr_data r))) \<or>
      (\<exists>i. bg = NoTask \<and> refuses ans \<and> i \<notin> set (map j_id t0) \<and>
         (\<forall>t. job_step\<^sup>*\<^sup>* (wk_jobs s1) t \<longrightarrow> polls_failed t i))))"

lemma refused_settles: "refuses stop \<Longrightarrow> settled_answer u (wk_jobs s) (Some stop, NoTask, s)"
  unfolding settled_answer_def by blast

lemma await_rejected:
  "e \<noteq> LoopDies \<Longrightarrow> (\<And>r. e \<noteq> Resolved r) \<Longrightarrow> \<exists>stop. await_result e = Some (Inl stop) \<and> refuses stop"
  by (cases e) (auto simp: await_result_def reply_def raise_http_def split: pipe_error.split)

lemma answer_job_settles:
  assumes "admission_ok t0 mode adm" "backend_contract w" "worker_turn w turn"
  shows "settled_answer (aw_unix_time aw) t0 (answer_job aw turn mode adm)"
proof (cases adm)
  case (Pair st s)
  show ?thesis
  proof (cases st)
    case (Inl stop)
    with assms(1) show ?thesis
      using refused_settles [of stop "aw_unix_time aw" s] by (simp add: answer_job_def admission_ok_def Pair)
  next
    case (Inr j)
    with assms(1) have fresh: "j_id j \<notin> set (map j_id t0)" and q: "queued_in mode j (wk_jobs s)"
      by (simp_all add: admission_ok_def Pair)
    show ?thesis
    proof (cases mode)
      case Async
      with q show ?thesis by (auto simp: answer_job_def Pair Inr settled_answer_def)
    next
      case Sync
      obtain e s' where turn: "turn j s = (e, s')" by fastforce
      from assms(3) q obtain s1 s2 m where q1: "queued_in m j (wk_jobs s1)" and run: "process_item w j s1 = (e, s2)"
        and later: "job_step\<^sup>*\<^sup>* (wk_jobs s2) (wk_jobs s')"
        unfolding worker_turn_def by (metis turn fst_conv snd_conv)
      from q1 obtain row where "job_find (wk_jobs s1) (j_id j) = Some row" "j_status row = Queued"
        by (auto simp: queued_in_def)
      from item_settles [OF assms(2) this run] have settled: "case e of
          Resolved r \<Rightarrow> \<exists>row'. job_find (wk_jobs s2) (j_id j) = Some row' \<and> j_status row' = Completed \<and>
            j_result_json row' = Some (result_json r)
        | Rejected e \<Rightarrow> \<exists>row'. job_find (wk_jobs s2) (j_id j) = Some row' \<and> j_status row' = Failed
        | LoopDies \<Rightarrow> False" by (rule conjunct1)
      show ?thesis
      proof (cases e)
        case (Resolved r)
        with settled have "polls_completed t (j_id j) (jr_data r)" if "job_step\<^sup>*\<^sup>* (wk_jobs s') t" for t
          using completed_polls rtranclp_trans [OF later that] by fastforce
        then show ?thesis
          by (auto simp: answer_job_def Pair Inr Sync turn Resolved await_result_def settled_answer_def)
      next
        case (Rejected x)
        with settled have "polls_failed t (j_id j)" if "job_step\<^sup>*\<^sup>* (wk_jobs s') t" for t
          using failed_polls rtranclp_trans [OF later that] by fastforce
        moreover obtain stop where "await_result e = Some (Inl stop)" "refuses stop"
          using await_rejected [of e] Rejected by auto
        ultimately show ?thesis using fresh
          by (auto simp: answer_job_def Pair Inr Sync turn settled_answer_def)
      qed (use settled in simp)
    qed
  qed
qed

lemma parse_refuses:
  "check_runtime_lock aw = Inl stop \<Longrightarrow> refuses stop" "read_json b = Inl stop \<Longrightarrow> refuses stop"
  "validate_model parse raw = Inl stop \<Longrightarrow> refuses stop" "read_multipart aw payload upload = Inl stop \<Longrightarrow> refuses stop"
  by (auto simp: check_runtime_lock_def read_json_def validate_model_def read_multipart_def
      split: if_splits http_body.splits sum.splits)

text \<open>The answers of the five generation endpoints.\<close>

definition generation_answer :: "api_world \<Rightarrow> turn \<Rightarrow> worker \<Rightarrow> answer \<Rightarrow> bool" where
  "generation_answer aw turn s a \<longleftrightarrow>
     (\<exists>b. a = create_image aw turn b s \<or> a = create_text_to_video aw turn b s \<or> a = create_image_to_video aw turn b s) \<or>
     (\<exists>payload upload. a = create_image_multipart aw turn payload upload s \<or>
        a = create_image_to_video_multipart aw turn payload upload s)"


definition demo_api :: api_world where
  "demo_api = \<lparr>aw_locked = False, aw_env = (\<lambda>_. None), aw_parse_image = (\<lambda>_. Inr (demo_request\<lparr>gr_loras := None\<rparr>)),
     aw_parse_video = (\<lambda>_. Inl ''no video''), aw_registry = [(''m'', demo_model ''sdxl'')], aw_vworld = demo_vworld,
     aw_sidecar = demo_sidecar_world, aw_max_queue = 4, aw_job_id = ''gen_1'', aw_now = 10, aw_unix_time = 1700000000\<rparr>"

definition demo_idle :: worker where
  "demo_idle = \<lparr>wk_jobs = [], wk_last_model = None, wk_calls = [], wk_sidecars = (\<lambda>_. FileMissing),
     wk_events = []\<rparr>"

definition demo_post :: answer where
  "demo_post = create_image demo_api (process_item demo_world) (ReqJson (VDict [])) demo_idle"

lemma demo_post_eval: "case demo_post of (ans, bg, s1) \<Rightarrow> bg = FlushResponse ''gen_1'' \<and>
   (case ans of Some (Inr resp) \<Rightarrow> rs_body resp = JsonBody (VDict [(''created'', VInt 1700000000),
      (''data'', VList [VDict [(''url'', VStr ''https://s/v1/images/gen_1/0.png'')]])]) | _ \<Rightarrow> False)"
  by code_simp


section \<open>The error envelope\<close>

text \<open>What the client receives: an exception goes through the handlers of \<open>app/errors.py\<close>.\<close>

definition client_sees :: "(pyval \<Rightarrow> string) \<Rightarrow> http_exc + response \<Rightarrow> response" where
  "client_sees py_str ans = (case ans of Inl e \<Rightarrow> exception_response py_str e | Inr r \<Rightarrow> r)"

definition enveloped :: "response \<Rightarrow> bool" where
  "enveloped r \<longleftrightarrow> (\<exists>code msg. rs_body r = JsonBody (error_detail code msg))"

text \<open>An answer that is no 2xx carries the envelope.\<close>

definition well_formed :: "http_exc + response \<Rightarrow> bool" where
  "well_formed ans \<longleftrightarrow> (\<forall>py_str. let r = client_sees py_str ans in
     (200 \<le> rs_status r \<and> rs_status r < 300) \<or> (400 \<le> rs_status r \<and> rs_status r < 600 \<and> enveloped r))"

lemma envelopes:
  "enveloped (error_response st code msg)" "enveloped (exception_response py_str auth_error)"
  "enveloped (exception_response py_str auth_scope_error)" "enveloped (exception_response py_str (OtherException m))"
  by (auto simp: enveloped_def error_response_def auth_error_def auth_scope_error_def http_exception_handler_def
      unhandled_exception_handler_def error_detail_def)

lemma well_formed_simps [simp]:
  "well_formed (Inr (error_response st code msg)) \<longleftrightarrow> (200 \<le> st \<and> st < 300) \<or> (400 \<le> st \<and> st < 600)"
  "well_formed (Inl (OtherException m))" "well_formed (Inl auth_error)" "well_formed (Inl auth_scope_error)"
  "well_formed (Inr (accepted_response j))" "well_formed (Inr (completed_response u j r))"
  "well_formed (Inr \<lparr>rs_status = 200, rs_headers = h, rs_body = b\<rparr>)"
  using envelopes
  by (auto simp: well_formed_def client_sees_def Let_def error_response_def unhandled_exception_handler_def
      auth_error_def auth_scope_error_def http_exception_handler_def accepted_response_def completed_response_def)

lemma step_well_formed:
  "check_runtime_lock aw = Inl x \<Longrightarrow> well_formed x" "read_json b = Inl x \<Longrightarrow> well_formed x"
  "validate_model parse raw = Inl x \<Longrightarrow> well_formed x" "read_multipart aw payload upload = Inl x \<Longrightarrow> well_formed x"
  "validated_or_reply r = Inl x \<Longrightarrow> well_formed x" "queue_gate m t = Inl x \<Longrightarrow> well_formed x"
  "binary_only body = Inl x \<Longrightarrow> well_formed x"
  by (auto simp: check_runtime_lock_def read_json_def validate_model_def read_multipart_def validated_or_reply_def
      queue_gate_def binary_only_def Let_def split: if_splits http_body.splits sum.splits validation_error.splits)

lemma store_job_well_formed: "store_job aw model input mode url headers s = (Inl x, s') \<Longrightarrow> well_formed x"
  by (auto simp: store_job_def split: sum.splits)

lemma admit_well_formed:
  "admit_image aw raw body s = (Inl x, s') \<Longrightarrow> well_formed x"
  "admit_video aw task raw body' s = (Inl x, s') \<Longrightarrow> well_formed x"
  by (auto simp: admit_image_def admit_video_def Let_def step_well_formed split: sum.splits dest: store_job_well_formed)

lemma await_well_formed: "await_result e = Some (Inl x) \<Longrightarrow> well_formed x"
  by (auto simp: await_result_def split: item_end.splits pipe_error.splits)

lemma answer_job_well_formed:
  assumes "answer_job aw turn mode adm = (Some x, bg, s')" "\<And>y. fst adm = Inl y \<Longrightarrow> well_formed y"
  shows "well_formed x"
  using assms
  by (auto simp: answer_job_def await_well_formed split: prod.splits sum.splits job_mode.splits option.splits)

lemma storage_well_formed: "well_formed (storage_response e gone)"
  by (cases e) (simp_all add: storage_response_def)

lemma binary_answer_well_formed: "binary_answer ans now objs j s = (Some x, bg, s') \<Longrightarrow> well_formed x"
  by (auto simp: binary_answer_def storage_well_formed Let_def split: option.splits sum.splits prod.splits)

lemma json_well_formed [simp]: "well_formed (Inr (json_response 200 d))"
  by (simp add: json_response_def)

lemma gateway_well_formed:
  "well_formed (fst (get_image ans now t objs i name))" "well_formed (fst (get_video_asset ans now t objs i name))"
  "well_formed (get_generation_status t i)"
  by (auto simp: get_image_def get_video_asset_def get_generation_status_def index_of_def storage_well_formed poll_body_def Let_def
      split: option.split sum.split prod.split pyval.split if_splits)

lemma auth_well_formed:
  "require_auth sha ks h = Inl e \<Longrightarrow> well_formed (Inl e)" "require_admin sha ks h = Inl e \<Longrightarrow> well_formed (Inl e)"
  by (auto simp: require_auth_def require_admin_def compare_raises_def split: option.splits sum.splits if_splits bool.splits)

definition answers_well :: "answer \<Rightarrow> bool" where
  "answers_well a \<longleftrightarrow> (\<forall>ans. fst a = Some ans \<longrightarrow> well_formed ans)"

lemma generation_well_formed:
  assumes "generation_answer aw turn s a"
  shows "answers_well a"
proof -
  have image: "answers_well (answer_job aw turn m (admit_image aw raw body s))" for raw body m
    using answer_job_well_formed [of aw turn m "admit_image aw raw body s"] admit_well_formed(1) [of aw raw body s]
    by (auto simp: answers_well_def) (metis prod.collapse)
  have video: "answers_well (answer_job aw turn m (admit_video aw task raw body s))" for raw body m task
    using answer_job_well_formed [of aw turn m "admit_video aw task raw body s"] admit_well_formed(2) [of aw task raw body s]
    by (auto simp: answers_well_def) (metis prod.collapse)
  have stop: "answers_well (Some x, bg, s')" if "well_formed x" for x bg s' using that by (simp add: answers_well_def)
  note ends = bind_r_Inl bind_r_Inr parse_image_body_def parse_video_body_def
  have "answers_well (create_image aw turn b s)" for b
    by (auto simp: create_image_def ends image split: sum.split intro!: stop dest: step_well_formed)
  moreover have "answers_well (create_video aw turn task b s)" for task b
    by (auto simp: create_video_def ends video split: sum.split intro!: stop dest: step_well_formed)
  moreover have "answers_well (create_image_multipart aw turn payload upload s)" for payload upload
    by (auto simp: create_image_multipart_def ends image split: sum.split intro!: stop dest: step_well_formed)
  moreover have "answers_well (create_image_to_video_multipart aw turn payload upload s)" for payload upload
    by (auto simp: create_image_to_video_multipart_def ends video split: sum.split intro!: stop dest: step_well_formed)
  ultimately show ?thesis
    using assms unfolding generation_answer_def create_text_to_video_def create_image_to_video_def by blast
qed

lemma fst_well_formed:
  "fst (admit_image aw raw body s) = Inl x \<Longrightarrow> well_formed x"
  "fst (binary_answer s3 now objs j s) = Some x \<Longrightarrow> well_formed x"
  using admit_well_formed(1) binary_answer_well_formed by (metis prod.collapse)+

lemma binary_well_formed: "answers_well (create_image_binary aw turn s3 now objs_after b s)"
  by (auto simp: create_image_binary_def parse_image_body_def bind_r_Inl bind_r_Inr split_beta answers_well_def
      split: sum.splits prod.splits option.splits
      dest: step_well_formed fst_well_formed await_well_formed)



section \<open>The queue limit\<close>

text \<open>
  Requests in flight: between the gate and the INSERT a handler yields, so others run there.
  A state is the job table and the number of handlers that have passed the gate and not
  stored their job; at most \<open>c\<close> of them are in flight at a time.
\<close>

inductive admission :: "int \<Rightarrow> nat \<Rightarrow> jobs \<times> nat \<Rightarrow> jobs \<times> nat \<Rightarrow> bool" for max_queue :: int and c :: nat where
  pass_gate: "queue_gate max_queue t = Inr () \<Longrightarrow> n < c \<Longrightarrow> admission max_queue c (t, n) (t, Suc n)"
| store: "store_job aw model input mode url headers s = (Inr j, s') \<Longrightarrow>
    admission max_queue c (wk_jobs s, Suc n) (wk_jobs s', n)"
| store_fails: "admission max_queue c (t, Suc n) (t, n)"
| others: "job_step t t' \<Longrightarrow> map j_id t' = map j_id t \<Longrightarrow> admission max_queue c (t, n) (t', n)"

lemma length_filter_map_le:
  "(\<And>x. x \<in> set xs \<Longrightarrow> P (f x) \<Longrightarrow> P x) \<Longrightarrow> length (filter P (map f xs)) \<le> length (filter P xs)"
proof (induction xs)
  case (Cons x xs)
  then have "length (filter P (map f xs)) \<le> length (filter P xs)" by simp
  with Cons.prems [of x] show ?case by (cases "P (f x)") (simp_all add: le_SucI)
qed simp

lemma row_change_active: "row_change j j' \<Longrightarrow> j_status j' \<in> {Queued, Running} \<Longrightarrow> j_status j \<in> {Queued, Running}"
  by (cases rule: row_change.cases) auto

lemma others_keep:
  assumes "job_step t t'" "map j_id t' = map j_id t" "jt.keys_distinct t"
  shows "jt.keys_distinct t' \<and> count_active t' \<le> count_active t"
  using assms(1)
proof (cases rule: job_step_cases)
  case (create r)
  with assms(2) have "length (map j_id t') = length (map j_id t)" by simp
  with create show ?thesis by simp
next
  case (modify i f)
  have "j_status j \<in> {Queued, Running}" if "j \<in> set t" "j_id j = i" "j_status (f j) \<in> {Queued, Running}" for j
    using row_change_active [OF modify(3) that(3)] jt.find_distinct [OF assms(3) that(1)] that(2) by blast
  then have "count_active t' \<le> count_active t"
    unfolding modify(1) tbl_modify_def count_active_def by (intro length_filter_map_le) (metis (full_types))
  moreover have "jt.keys_distinct t'" using modify(1,2) assms(3) by (simp add: jt.modify_distinct)
  ultimately show ?thesis by simp
qed

lemma store_job_counts:
  assumes "store_job aw model input mode url headers s = (Inr j, s')" "jt.keys_distinct (wk_jobs s)"
  shows "jt.keys_distinct (wk_jobs s') \<and> count_active (wk_jobs s') = Suc (count_active (wk_jobs s)) \<and>
    length (wk_jobs s') = Suc (length (wk_jobs s))"
proof -
  from assms(1) have "create_queued (wk_jobs s) (aw_job_id aw) (aw_now aw) model (Some input) mode url headers = Inr (wk_jobs s', j)"
    by (auto simp: store_job_def split: sum.splits prod.splits)
  from create_queued_Inr [OF this] obtain r where "wk_jobs s' = wk_jobs s @ [r]" "j_status r = Queued" "j_id r \<notin> set (map j_id (wk_jobs s))"
    by auto
  with assms(2) show ?thesis by (simp add: count_active_def jt.keys_distinct_def)
qed

lemma queue_gate_Inr: "queue_gate m t = Inr () \<longleftrightarrow> int (count_active t) < m"
  by (auto simp: queue_gate_def Let_def reply_def)

lemma admission_invariant:
  assumes "(admission m c)\<^sup>*\<^sup>* ([], 0) s" "1 \<le> m" "1 \<le> c"
  shows "jt.keys_distinct (fst s) \<and> int (count_active (fst s)) + int (snd s) \<le> m + int c - 1"
  using assms(1)
proof (induction rule: rtranclp_induct)
  case base
  with assms(2,3) show ?case by (simp add: count_active_def jt.keys_distinct_def)
next
  case (step y z)
  from step(2) show ?case
  proof cases
    case (pass_gate t n)
    with step.IH show ?thesis by (auto simp: queue_gate_Inr)
  next
    case (store aw model input mode url headers s j s' n)
    with step.IH store_job_counts [OF store(3)] show ?thesis by auto
  next
    case (store_fails t n)
    with step.IH show ?thesis by auto
  next
    case (others t t' n)
    with step.IH others_keep [OF others(3,4)] show ?thesis by auto
  qed
qed

text \<open>Storing a job is always possible: there is a fresh id.\<close>

lemma store_step:
  assumes "jt.keys_distinct t"
  shows "\<exists>t'. admission m c (t, Suc n) (t', n) \<and> jt.keys_distinct t' \<and> count_active t' = Suc (count_active t)"
proof -
  obtain i where i: "i \<notin> j_id ` set t"
    using ex_new_if_finite [OF infinite_UNIV_listI] by (metis finite_imageI List.finite_set)
  let ?aw = "demo_api\<lparr>aw_job_id := i\<rparr>" and ?s = "demo_idle\<lparr>wk_jobs := t\<rparr>"
  obtain st s' where st: "store_job ?aw ''m'' VNone Async None None ?s = (st, s')" by fastforce
  with i obtain j where "st = Inr j"
    by (auto simp: store_job_def create_queued_def tbl_insert_def Let_def)
  with st have s': "store_job ?aw ''m'' VNone Async None None ?s = (Inr j, s')" by simp
  from admission.store [OF s', of m c n] store_job_counts [OF s'] assms show ?thesis by auto
qed

lemma sequential_jobs:
  "int k \<le> m \<Longrightarrow> 1 \<le> c \<Longrightarrow>
   \<exists>t. (admission m c)\<^sup>*\<^sup>* ([], 0) (t, 0) \<and> jt.keys_distinct t \<and> count_active t = k"
proof (induction k)
  case 0
  then show ?case by (intro exI [of _ "[]"]) (simp add: count_active_def jt.keys_distinct_def)
next
  case (Suc k)
  then obtain t where t: "(admission m c)\<^sup>*\<^sup>* ([], 0) (t, 0)" "jt.keys_distinct t" "count_active t = k" by auto
  have "admission m c (t, 0) (t, Suc 0)"
    using Suc.prems t(3) by (intro pass_gate) (simp_all add: queue_gate_Inr)
  moreover obtain t' where "admission m c (t, Suc 0) (t', 0)" "jt.keys_distinct t'" "count_active t' = Suc k"
    using store_step [OF t(2)] t(3) by metis
  ultimately show ?case using t(1) by (meson rtranclp.rtrancl_into_rtrancl)
qed

lemma all_pass_gate:
  "int (count_active t) < m \<Longrightarrow> n \<le> c \<Longrightarrow> (admission m c)\<^sup>*\<^sup>* (t, 0) (t, n)"
proof (induction n)
  case (Suc n)
  then have "admission m c (t, n) (t, Suc n)" by (intro pass_gate) (simp_all add: queue_gate_Inr)
  with Suc show ?case by (meson Suc_leD rtranclp.rtrancl_into_rtrancl)
qed simp

lemma all_store:
  "jt.keys_distinct t \<Longrightarrow> \<exists>t'. (admission m c)\<^sup>*\<^sup>* (t, n) (t', 0) \<and> count_active t' = count_active t + n"
proof (induction n arbitrary: t)
  case 0
  then show ?case by auto
next
  case (Suc n)
  obtain t1 where t1: "admission m c (t, Suc n) (t1, n)" "jt.keys_distinct t1" "count_active t1 = Suc (count_active t)"
    using store_step [OF Suc.prems] by metis
  from Suc.IH [OF t1(2)] obtain t' where "(admission m c)\<^sup>*\<^sup>* (t1, n) (t', 0)" "count_active t' = count_active t1 + n" by blast
  with t1 show ?case by (intro exI [of _ t']) (auto intro: converse_rtranclp_into_rtranclp)
qed

text \<open>
  C30: The queue limit holds up to the requests in flight, and no better. The gate compares
  the number of active jobs with \<open>MAX_QUEUE\<close> in one call and the job is inserted in another,
  so with at most \<open>c\<close> handlers between the two the number of queued and running jobs never
  exceeds \<open>MAX_QUEUE + c - 1\<close>, and a run with \<open>c\<close> concurrent requests reaches that number:
  only without concurrency (\<open>c = 1\<close>) is \<open>MAX_QUEUE\<close> itself the bound.
\<close>

theorem queue_limit_under_concurrency:
  assumes "1 \<le> max_queue" "1 \<le> c"
  shows "(\<forall>t n. (admission max_queue c)\<^sup>*\<^sup>* ([], 0) (t, n) \<longrightarrow> int (count_active t) \<le> max_queue + int c - 1) \<and>
    (\<exists>t. (admission max_queue c)\<^sup>*\<^sup>* ([], 0) (t, 0) \<and> int (count_active t) = max_queue + int c - 1)"
proof (intro conjI allI impI)
  fix t n assume "(admission max_queue c)\<^sup>*\<^sup>* ([], 0) (t, n)"
  from admission_invariant [OF this assms] show "int (count_active t) \<le> max_queue + int c - 1" by simp
next
  obtain t where t: "(admission max_queue c)\<^sup>*\<^sup>* ([], 0) (t, 0)" "jt.keys_distinct t"
    and k: "count_active t = nat (max_queue - 1)"
    using sequential_jobs [of "nat (max_queue - 1)" max_queue c] assms by auto
  have "(admission max_queue c)\<^sup>*\<^sup>* (t, 0) (t, c)" using k assms by (intro all_pass_gate) auto
  moreover obtain t' where "(admission max_queue c)\<^sup>*\<^sup>* (t, c) (t', 0)" "count_active t' = count_active t + c"
    using all_store [OF t(2)] by blast
  ultimately show "\<exists>t. (admission max_queue c)\<^sup>*\<^sup>* ([], 0) (t, 0) \<and> int (count_active t) = max_queue + int c - 1"
    using t(1) k assms by (intro exI [of _ t']) auto
qed

theorem queue_limit_under_concurrency_witness:
  "\<exists>t. (admission 4 3)\<^sup>*\<^sup>* ([], 0) (t, 0) \<and> count_active t = 6"
proof -
  have "\<exists>t. (admission 4 3)\<^sup>*\<^sup>* ([], 0) (t, 0) \<and> int (count_active t) = 4 + int 3 - 1"
    using queue_limit_under_concurrency [of 4 3] by simp
  then show ?thesis by (auto simp: numeral_eq_iff)
qed

end
