(* ===== verification/Lora_Api.thy ===== *)
theory Lora_Api
  imports Api Fetch_Store Civitai_Url
begin

text \<open>
  \<open>app/loras/scanner.py\<close> and \<open>app/api/loras.py\<close>: the listing of the LoRA directory, and the
  endpoints that schedule and poll a fetch. What is on disk is a parameter: the paths the walk
  yields, with what \<open>is_file\<close>, \<open>resolve\<close> and \<open>stat\<close> give, and the sidecar beside each.
\<close>

section \<open>Sidecars\<close>

datatype sidecar_status = ScOk | ScMissing | ScMalformed | ScOversized

text \<open>Reading and parsing: an \<open>OSError\<close>, bytes that are not UTF-8, or a JSON text.\<close>

datatype sidecar_text = ScOSError | ScNotUtf8 | ScJson json_text

record sidecar_file =
  sc_is_file :: bool
  sc_size :: "int option"
  sc_text :: sidecar_text

definition sidecar_max_bytes :: int where
  "sidecar_max_bytes = 1 * 1024 * 1024"

text \<open>\<open>Inl\<close>: a \<open>UnicodeDecodeError\<close>, which the function does not catch.\<close>

definition read_sidecar_entry :: "sidecar_file \<Rightarrow> unit + pydict option \<times> sidecar_status" where
  "read_sidecar_entry f =
     (if \<not> sc_is_file f then Inr (None, ScMissing)
      else (case sc_size f of
          None \<Rightarrow> Inr (None, ScMalformed)
        | Some size_bytes \<Rightarrow>
            if sidecar_max_bytes < size_bytes then Inr (None, ScOversized)
            else (case sc_text f of
                ScOSError \<Rightarrow> Inr (None, ScMalformed)
              | ScNotUtf8 \<Rightarrow> Inl ()
              | ScJson (Some (VDict d)) \<Rightarrow> Inr (Some d, ScOk)
              | ScJson _ \<Rightarrow> Inr (None, ScMalformed))))"

section \<open>The walk\<close>

record scan_entry =
  se_parts :: "string list"
  se_is_file :: bool
  se_resolved :: "string list option"
  se_size :: "int option"
  se_sidecar :: sidecar_file

record lora_meta =
  lm_name :: string
  lm_filename :: string
  lm_sha256 :: "string option"
  lm_source :: string
  lm_civitai_model_id :: pyval
  lm_civitai_version_id :: pyval
  lm_base_model_hint :: "string option"
  lm_trigger_words :: "string list"
  lm_fetched_at :: "string option"
  lm_size_bytes :: int
  lm_addressable :: bool
  lm_reason :: "string option"
  lm_sidecar_status :: sidecar_status
  lm_last_used :: "string option"

text \<open>\<open>re.match\<close> of \<open>^[A-Za-z0-9_][A-Za-z0-9_/\-.]*$\<close>: a final newline is let through.\<close>

definition name_pattern :: "string \<Rightarrow> bool" where
  "name_pattern s = lora_name_ok (if s \<noteq> [] \<and> last s = CHR 0x0A then butlast s else s)"

definition unaddressable_reason :: "string \<Rightarrow> string option" where
  "unaddressable_reason name =
     (if name = [] then Some ''name is empty''
      else if \<not> name_pattern name then Some (''name contains disallowed characters '' @
        ''(allowed: [A-Za-z0-9_/-.] after a leading alphanumeric/underscore)'')
      else None)"

definition str_entry :: "pydict \<Rightarrow> string \<Rightarrow> string option" where
  "str_entry d k = (case dict_get d k of VStr s \<Rightarrow> Some s | _ \<Rightarrow> None)"

definition int_entry :: "pydict \<Rightarrow> string \<Rightarrow> pyval" where
  "int_entry d k = (if as_int (dict_get d k) \<noteq> None then dict_get d k else VNone)"

definition meta_from_sidecar ::
  "string \<Rightarrow> string \<Rightarrow> int \<Rightarrow> pydict option \<Rightarrow> bool \<Rightarrow> string option \<Rightarrow> sidecar_status \<Rightarrow> lora_meta" where
  "meta_from_sidecar name filename size_bytes sidecar addressable reason status = (case sidecar of
     None \<Rightarrow> \<lparr>lm_name = name, lm_filename = filename, lm_sha256 = None, lm_source = ''local'',
       lm_civitai_model_id = VNone, lm_civitai_version_id = VNone, lm_base_model_hint = None,
       lm_trigger_words = [], lm_fetched_at = None, lm_size_bytes = size_bytes, lm_addressable = addressable,
       lm_reason = reason, lm_sidecar_status = status, lm_last_used = None\<rparr>
   | Some d \<Rightarrow> \<lparr>lm_name = name, lm_filename = filename, lm_sha256 = str_entry d ''sha256'',
       lm_source = (if dict_get d ''source'' = VStr ''civitai'' then ''civitai'' else ''local''),
       lm_civitai_model_id = int_entry d ''civitai_model_id'', lm_civitai_version_id = int_entry d ''civitai_version_id'',
       lm_base_model_hint = str_entry d ''base_model_hint'',
       lm_trigger_words = (case dict_get d ''trigger_words'' of
         VList ts \<Rightarrow> concat (map (\<lambda>t. case t of VStr s \<Rightarrow> [s] | _ \<Rightarrow> []) ts) | _ \<Rightarrow> []),
       lm_fetched_at = str_entry d ''fetched_at'', lm_size_bytes = size_bytes, lm_addressable = addressable,
       lm_reason = reason, lm_sidecar_status = status, lm_last_used = str_entry d ''last_used''\<rparr>)"

text \<open>\<open>with_suffix("")\<close>: a file called just \<open>.safetensors\<close> has no suffix.\<close>

definition drop_suffix :: "string \<Rightarrow> string" where
  "drop_suffix s = (if s = ''.safetensors'' then s else take (length s - 12) s)"

definition posix_name :: "scan_entry \<Rightarrow> string" where
  "posix_name e = join_on (CHR ''/'') (butlast (se_parts e) @ [drop_suffix (last (se_parts e))])"

text \<open>One path of the walk: skipped (\<open>None\<close>) or listed.\<close>

definition scan_entry_meta :: "string list \<Rightarrow> scan_entry \<Rightarrow> unit + lora_meta option" where
  "scan_entry_meta loras_root e =
     (if \<not> se_is_file e then Inr None
      else (case se_resolved e of
          None \<Rightarrow> Inr None
        | Some resolved \<Rightarrow>
            if \<not> prefix loras_root resolved then Inr None
            else (case se_size e of
                None \<Rightarrow> Inr None
              | Some size_bytes \<Rightarrow>
                  (let name = posix_name e; reason = unaddressable_reason name in
                   bind_r (read_sidecar_entry (se_sidecar e)) (\<lambda>(sidecar, status).
                   Inr (Some (meta_from_sidecar name (join_on (CHR ''/'') (se_parts e)) size_bytes sidecar
                     (reason = None) reason status)))))))"

text \<open>\<open>entries\<close> are the paths of \<open>rglob("*.safetensors")\<close>; paths sort by their components.\<close>

definition scan_loras :: "string list \<Rightarrow> bool \<Rightarrow> scan_entry list \<Rightarrow> unit + lora_meta list" where
  "scan_loras loras_root root_is_dir entries =
     (if \<not> root_is_dir then Inr []
      else bind_r (map_r (scan_entry_meta loras_root) (sort_key se_parts entries)) (\<lambda>ms.
        Inr (concat (map (\<lambda>m. case m of None \<Rightarrow> [] | Some m \<Rightarrow> [m]) ms))))"

section \<open>The endpoints\<close>

fun sidecar_status_text :: "sidecar_status \<Rightarrow> string" where
  "sidecar_status_text ScOk = ''ok''"
| "sidecar_status_text ScMissing = ''missing''"
| "sidecar_status_text ScMalformed = ''malformed''"
| "sidecar_status_text ScOversized = ''oversized''"

definition meta_json :: "lora_meta \<Rightarrow> pyval" where
  "meta_json m = VDict [(''name'', VStr (lm_name m)), (''filename'', VStr (lm_filename m)),
     (''sha256'', opt_text (lm_sha256 m)), (''source'', VStr (lm_source m)),
     (''civitai_model_id'', lm_civitai_model_id m), (''civitai_version_id'', lm_civitai_version_id m),
     (''base_model_hint'', opt_text (lm_base_model_hint m)), (''trigger_words'', VList (map VStr (lm_trigger_words m))),
     (''fetched_at'', opt_text (lm_fetched_at m)), (''last_used'', opt_text (lm_last_used m)),
     (''size_bytes'', VInt (lm_size_bytes m)), (''addressable'', VBool (lm_addressable m)),
     (''reason'', opt_text (lm_reason m)), (''sidecar_status'', VStr (sidecar_status_text (lm_sidecar_status m)))]"

definition list_loras :: "string list \<Rightarrow> bool \<Rightarrow> scan_entry list \<Rightarrow> http_exc + response" where
  "list_loras loras_root root_is_dir entries = (case scan_loras loras_root root_is_dir entries of
     Inl _ \<Rightarrow> Inl (OtherException ''UnicodeDecodeError'')
   | Inr metas \<Rightarrow> Inr (json_response 200 [(''object'', VStr ''list''), (''data'', VList (map meta_json metas))]))"

definition scheduled_response :: "string \<Rightarrow> bool \<Rightarrow> response" where
  "scheduled_response request_id deduped = json_response 202 [(''request_id'', VStr request_id),
     (''poll_url'', VStr (''/v1/loras/fetch/'' @ request_id)), (''deduped'', VBool deduped)]"

text \<open>SQLite binds integers of 64 bits; a larger one is an \<open>OverflowError\<close>.\<close>

definition sqlite_int :: "int \<Rightarrow> bool" where
  "sqlite_int i \<longleftrightarrow> - (2 ^ 63) \<le> i \<and> i < 2 ^ 63"

definition sqlite_ids :: "parsed_civitai_url \<Rightarrow> bool" where
  "sqlite_ids p \<longleftrightarrow> sqlite_int (pc_version_id p) \<and>
     (case pc_model_id p of None \<Rightarrow> True | Some m \<Rightarrow> sqlite_int m)"

text \<open>
  Between its calls of the store the handler yields: \<open>before\<close> the INSERT and \<open>before2\<close> the second
  look-up, other requests and fetch tasks may have changed the table. The result is the answer,
  the table and the row handed to the fetcher.
\<close>

definition schedule_fetch ::
  "(fetches \<Rightarrow> fetches) \<Rightarrow> (fetches \<Rightarrow> fetches) \<Rightarrow> string \<Rightarrow> timestamp \<Rightarrow> string \<Rightarrow> parsed_civitai_url \<Rightarrow> fetches \<Rightarrow>
   (http_exc + response) \<times> fetches \<times> string option" where
  "schedule_fetch before before2 request_id now url parsed t =
     (if \<not> sqlite_int (pc_version_id parsed) then (Inl (OtherException ''OverflowError''), t, None)
      else (case find_active_by_version t (pc_version_id parsed) of
        Some existing \<Rightarrow> (Inr (scheduled_response (f_id existing) True), t, None)
      | None \<Rightarrow>
          (let t = before t in
           if \<not> sqlite_ids parsed then (Inl (OtherException ''OverflowError''), t, None)
           else (case create_pending t request_id now url (pc_model_id parsed) (pc_version_id parsed) of
             Inr (t', row) \<Rightarrow> (Inr (scheduled_response (f_id row) False), t', Some (f_id row))
           | Inl _ \<Rightarrow>
               (let t = before2 t in
                case find_active_by_version t (pc_version_id parsed) of
                  None \<Rightarrow> (Inr (error_response 503 ''internal'' ''fetch could not be scheduled; retry''), t, None)
                | Some existing \<Rightarrow> (Inr (scheduled_response (f_id existing) True), t, None))))))"

definition read_fetch_request ::
  "(string \<Rightarrow> bool) \<Rightarrow> (pyval \<Rightarrow> string + string) \<Rightarrow> http_body \<Rightarrow> (string \<times> parsed_civitai_url) step" where
  "read_fetch_request bracket_ok parse_url b =
     bind_r (read_json b) (\<lambda>raw. bind_r (validate_model parse_url raw) (\<lambda>url.
     case parse_civitai_url bracket_ok url of
       Inl msg \<Rightarrow> reply (error_response 400 ''validation_error'' msg) | Inr parsed \<Rightarrow> Inr (url, parsed)))"

definition post_fetch ::
  "(string \<Rightarrow> bool) \<Rightarrow> (pyval \<Rightarrow> string + string) \<Rightarrow> (fetches \<Rightarrow> fetches) \<Rightarrow> (fetches \<Rightarrow> fetches) \<Rightarrow> string \<Rightarrow> timestamp \<Rightarrow>
   http_body \<Rightarrow> fetches \<Rightarrow> (http_exc + response) \<times> fetches \<times> string option" where
  "post_fetch bracket_ok parse_url before before2 request_id now b t =
     (case read_fetch_request bracket_ok parse_url b of
        Inl stop \<Rightarrow> (stop, t, None)
      | Inr (url, parsed) \<Rightarrow> schedule_fetch before before2 request_id now url parsed t)"

fun fetch_status_text :: "lora_fetch_status \<Rightarrow> string" where
  "fetch_status_text FPending = ''pending''"
| "fetch_status_text FDownloading = ''downloading''"
| "fetch_status_text FVerifying = ''verifying''"
| "fetch_status_text FDone = ''done''"
| "fetch_status_text FFailed = ''failed''"

definition opt_int :: "int option \<Rightarrow> pyval" where
  "opt_int x = (case x of None \<Rightarrow> VNone | Some i \<Rightarrow> VInt i)"

definition get_fetch_status :: "(timestamp \<Rightarrow> string) \<Rightarrow> fetches \<Rightarrow> string \<Rightarrow> response" where
  "get_fetch_status iso_text t request_id = (case get_fetch_by_id t request_id of
     None \<Rightarrow> error_response 404 ''not_found'' (''no fetch with id '' @ [CHR 0x27] @ request_id @ [CHR 0x27])
   | Some row \<Rightarrow> json_response 200 [(''id'', VStr (f_id row)), (''url'', VStr (f_url row)),
       (''civitai_model_id'', opt_int (f_civitai_model_id row)), (''civitai_version_id'', VInt (f_civitai_version_id row)),
       (''status'', VStr (fetch_status_text (f_status row))), (''progress_bytes'', VInt (f_progress_bytes row)),
       (''total_bytes'', opt_int (f_total_bytes row)), (''dest_name'', opt_text (f_dest_name row)),
       (''error_code'', opt_text (f_error_code row)), (''error_message'', opt_text (f_error_message row)),
       (''handover'', VBool (f_handover row)), (''created_at'', VStr (iso_text (f_created_at row))),
       (''updated_at'', VStr (iso_text (f_updated_at row)))])"

section \<open>Scheduling\<close>

lemma find_active_Some:
  "find_active_by_version t v = Some r \<Longrightarrow> r \<in> set t \<and> f_civitai_version_id r = v \<and> active_fetch r"
  by (auto simp: find_active_by_version_def find_Some_iff)

lemma active_unique:
  assumes "fetches_ok t" "r \<in> set t" "active_fetch r" "r' \<in> set t" "active_fetch r'"
    and "f_civitai_version_id r' = f_civitai_version_id r"
  shows "r' = r"
proof -
  have "inj_on f_civitai_version_id (set (filter active_fetch t))"
    using assms(1) by (simp add: fetches_ok_def active_versions_def distinct_map)
  with assms(2-) show ?thesis by (auto dest: inj_onD)
qed

lemma schedule_fetch_202:
  assumes "\<And>t. fetch_step\<^sup>*\<^sup>* t (before t)" "\<And>t. fetch_step\<^sup>*\<^sup>* t (before2 t)"
    and "schedule_fetch before before2 i now url parsed t = (Inr resp, t', enq)" "rs_status resp = 202"
  shows "fetch_step\<^sup>*\<^sup>* t t' \<and> (\<exists>row \<in> set t'. active_fetch row \<and> f_civitai_version_id row = pc_version_id parsed \<and>
    resp = scheduled_response (f_id row) (enq = None) \<and>
    (enq \<noteq> None \<longrightarrow> enq = Some (f_id row) \<and> f_status row = FPending \<and> f_url row = url))"
proof (cases "find_active_by_version t (pc_version_id parsed)")
  case (Some r)
  with assms(3) find_active_Some [OF Some] show ?thesis
    by (auto simp: schedule_fetch_def Let_def split: if_splits)
next
  case None
  let ?t1 = "before t"
  have ids: "sqlite_ids parsed" and s: "sqlite_int (pc_version_id parsed)"
    using assms(3) None by (auto simp: schedule_fetch_def Let_def split: if_splits)
  show ?thesis
  proof (cases "create_pending ?t1 i now url (pc_model_id parsed) (pc_version_id parsed)")
    case (Inr tr)
    then obtain t2 row where c: "create_pending ?t1 i now url (pc_model_id parsed) (pc_version_id parsed) = Inr (t2, row)"
      by (cases tr) auto
    then have row: "row \<in> set t2" "f_status row = FPending" "f_url row = url" "f_civitai_version_id row = pc_version_id parsed"
      by (auto simp: create_pending_def tbl_insert_def Let_def split: if_splits option.splits)
    have "fetch_step\<^sup>*\<^sup>* t t2"
      using assms(1) [of t] fstep_create [OF c] by (rule rtranclp.rtrancl_into_rtrancl)
    with c row None assms(3) ids s show ?thesis
      by (auto simp: schedule_fetch_def Let_def non_terminal_fetch_def)
  next
    case (Inl e)
    have "fetch_step\<^sup>*\<^sup>* t (before2 ?t1)" by (rule rtranclp_trans [OF assms(1,2)])
    with Inl None assms(3,4) ids s show ?thesis
      by (auto simp: schedule_fetch_def Let_def error_response_def split: option.splits dest!: find_active_Some)
  qed
qed

lemma read_fetch_request_ends:
  "read_fetch_request bracket_ok parse_url b = Inl (Inr resp) \<Longrightarrow> rs_status resp = 400"
  "read_fetch_request bracket_ok parse_url b = Inr (url, parsed) \<Longrightarrow> parse_civitai_url bracket_ok url = Inr parsed"
  by (auto simp: read_fetch_request_def bind_r_def read_json_def validate_model_def error_response_def reply_def
      raise_http_def split: sum.splits http_body.splits)

text \<open>
  A version is fetched once, whoever asks and whenever. When a request to fetch is
  answered 202, whatever other requests and fetch tasks did between its steps, the answer
  names the one active row for the requested version; the row is new, pending and handed to
  the fetcher exactly if the answer says it was not deduplicated, and otherwise nothing is
  handed over.
\<close>

theorem fetch_requests_deduplicate:
  assumes "fetch_step\<^sup>*\<^sup>* [] t" "\<And>t. fetch_step\<^sup>*\<^sup>* t (before t)" "\<And>t. fetch_step\<^sup>*\<^sup>* t (before2 t)"
    and "post_fetch bracket_ok parse_url before before2 i now b t = (Inr resp, t', enq)" "rs_status resp = 202"
  shows "\<exists>url parsed row. parse_civitai_url bracket_ok url = Inr parsed \<and> row \<in> set t' \<and>
    (\<forall>r \<in> set t'. active_fetch r \<and> f_civitai_version_id r = pc_version_id parsed \<longleftrightarrow> r = row) \<and>
    resp = scheduled_response (f_id row) (enq = None) \<and>
    (enq \<noteq> None \<longrightarrow> enq = Some (f_id row) \<and> f_status row = FPending \<and> f_url row = url)"
proof -
  from assms(4,5) obtain url parsed where p: "parse_civitai_url bracket_ok url = Inr parsed"
    and s: "schedule_fetch before before2 i now url parsed t = (Inr resp, t', enq)"
    using read_fetch_request_ends [of bracket_ok parse_url b] by (auto simp: post_fetch_def split: sum.splits)
  from schedule_fetch_202 [OF assms(2,3) s assms(5)] obtain row where run: "fetch_step\<^sup>*\<^sup>* t t'"
    and row: "row \<in> set t'" "active_fetch row" "f_civitai_version_id row = pc_version_id parsed"
    "resp = scheduled_response (f_id row) (enq = None)"
    "enq \<noteq> None \<longrightarrow> enq = Some (f_id row) \<and> f_status row = FPending \<and> f_url row = url" by blast
  have "fetch_step\<^sup>*\<^sup>* [] t'" using assms(1) run by (rule rtranclp_trans)
  then have "fetches_ok t'" by (rule fetch_run_ok) (simp add: fetches_ok_def ft.keys_distinct_def active_versions_def)
  then have "\<forall>r \<in> set t'. active_fetch r \<and> f_civitai_version_id r = pc_version_id parsed \<longleftrightarrow> r = row"
    using active_unique [of t' row] row(1-3) by metis
  with p row(1,4,5) show ?thesis by (intro exI conjI)
qed

text \<open>A sibling's INSERT lands between the look-up and the INSERT of this request.\<close>

definition demo_sibling :: "fetches \<Rightarrow> fetches" where
  "demo_sibling t = (case create_pending t ''f1'' 5 ''https://civitai.com/models/3?modelVersionId=7'' (Some 3) 7 of
     Inl _ \<Rightarrow> t | Inr (t', _) \<Rightarrow> t')"

definition demo_fetch_post :: "(http_exc + response) \<times> fetches \<times> string option" where
  "demo_fetch_post = post_fetch (\<lambda>_. False) (\<lambda>v. case v of VStr s \<Rightarrow> Inr s | _ \<Rightarrow> Inl ''no text'') demo_sibling (\<lambda>t. t) ''f2'' 6
     (ReqJson (VStr ''https://civitai.com/models/3?modelVersionId=7'')) []"

theorem fetch_requests_deduplicate_witness:
  "\<exists>row. fst demo_fetch_post = Inr (scheduled_response (f_id row) True) \<and> f_id row = ''f1'' \<and>
     row \<in> set (fst (snd demo_fetch_post))"
proof -
  have e: "fst demo_fetch_post = Inr (scheduled_response ''f1'' True)" "snd (snd demo_fetch_post) = None" by code_simp+
  have sibling: "fetch_step\<^sup>*\<^sup>* t (demo_sibling t)" for t
    by (auto simp: demo_sibling_def split: sum.split intro!: r_into_rtranclp elim: fstep_create)
  obtain t' where d: "demo_fetch_post = (Inr (scheduled_response ''f1'' True), t', None)"
    using e by (metis prod.collapse)
  from fetch_requests_deduplicate [OF rtranclp.rtrancl_refl sibling _ d [unfolded demo_fetch_post_def]]
  obtain row where r: "row \<in> set t'" "scheduled_response ''f1'' True = scheduled_response (f_id row) True"
    by (auto simp: scheduled_response_def json_response_def)
  then have "f_id row = ''f1''" by (simp add: scheduled_response_def json_response_def)
  with r(1) show ?thesis unfolding d fst_conv snd_conv by (intro exI [of _ row] conjI) simp_all
qed

section \<open>Listing\<close>

lemma scan_loras_member:
  assumes "scan_loras r ok entries = Inr ms" "m \<in> set ms"
  obtains e resolved size_bytes sidecar status where "e \<in> set entries" "se_is_file e" "se_resolved e = Some resolved"
    "prefix r resolved" "m = meta_from_sidecar (posix_name e) (join_on (CHR ''/'') (se_parts e)) size_bytes sidecar
      (unaddressable_reason (posix_name e) = None) (unaddressable_reason (posix_name e)) status"
proof -
  from assms obtain os where "map_r (scan_entry_meta r) (sort_key se_parts entries) = Inr os" "Some m \<in> set os"
    by (auto simp: scan_loras_def bind_r_Inr split: if_splits option.splits)
  then obtain e where "e \<in> set entries" "scan_entry_meta r e = Inr (Some m)"
    using map_r_Inr_set by (metis set_sort)
  with that show thesis
    by (auto simp: scan_entry_meta_def Let_def bind_r_Inr split: if_splits option.splits)
qed

lemma meta_from_sidecar_fields [simp]:
  "lm_name (meta_from_sidecar n f sz sc a re st) = n" "lm_addressable (meta_from_sidecar n f sz sc a re st) = a"
  by (cases sc; simp add: meta_from_sidecar_def)+

text \<open>
  The listing tells the truth about what a request may reference. An entry listed as
  addressable, if its name is at most 256 characters long and does not end in a newline, is
  accepted by the request model and resolves to its file, when validation sees the same
  files; an entry listed as not addressable is refused by the request model.
\<close>

theorem addressable_loras_can_be_requested:
  assumes "scan_loras (vw_root w) ok entries = Inr ms" "m \<in> set ms"
    and same: "\<forall>e \<in> set entries. vw_resolve w (posix_name e) = the (se_resolved e) \<and>
      vw_is_file w (vw_resolve w (posix_name e)) = se_is_file e"
  shows "(lm_addressable m \<and> length (lm_name m) \<le> 256 \<and> last (lm_name m) \<noteq> CHR 0x0A \<longrightarrow>
      lora_specs_ok 20 (Some [\<lparr>ls_name = lm_name m, ls_weight = x\<rparr>]) \<and>
      resolve_loras_for_job w (Some [\<lparr>ls_name = lm_name m, ls_weight = x\<rparr>]) = Inr [\<lparr>lr_name = lm_name m, lr_weight = x\<rparr>]) \<and>
    (\<not> lm_addressable m \<longrightarrow> \<not> lora_specs_ok 20 (Some [\<lparr>ls_name = lm_name m, ls_weight = x\<rparr>]))"
proof -
  from assms(1,2) obtain e resolved sz sc st where e: "e \<in> set entries" "se_is_file e" "se_resolved e = Some resolved"
    "prefix (vw_root w) resolved" and m: "m = meta_from_sidecar (posix_name e) (join_on (CHR ''/'') (se_parts e)) sz sc
      (unaddressable_reason (posix_name e) = None) (unaddressable_reason (posix_name e)) st"
    by (rule scan_loras_member)
  have "lora_name_ok (posix_name e) \<Longrightarrow> posix_name e \<noteq> [] \<and> last (posix_name e) \<noteq> CHR 0x0A"
    by (cases "posix_name e") (auto simp: lora_name_ok_def list_all_iff is_alnum_def split: if_splits dest!: last_in_set)
  then have reason: "lora_name_ok (posix_name e) \<Longrightarrow> unaddressable_reason (posix_name e) = None"
    "unaddressable_reason (posix_name e) = None \<Longrightarrow> last (posix_name e) \<noteq> CHR 0x0A \<Longrightarrow> lora_name_ok (posix_name e)"
    by (auto simp: unaddressable_reason_def name_pattern_def split: if_splits)
  have "vw_resolve w (posix_name e) = resolved" "vw_is_file w resolved"
    using e bspec [OF same e(1)] by auto
  then have "resolve_lora w (posix_name e) x = Inr \<lparr>lr_name = posix_name e, lr_weight = x\<rparr>"
    using e(4) by (simp add: resolve_lora_def contained_def)
  then show ?thesis using reason by (auto simp: m lora_specs_ok_def resolve_loras_for_job_def)
qed

definition demo_scan_entry :: scan_entry where
  "demo_scan_entry = \<lparr>se_parts = [''style'', ''ink.safetensors''], se_is_file = True,
     se_resolved = Some [''loras'', ''style'', ''ink.safetensors''], se_size = Some 144,
     se_sidecar = \<lparr>sc_is_file = True, sc_size = Some 20, sc_text = ScJson (Some (VDict [(''source'', VStr ''civitai'')]))\<rparr>\<rparr>"

theorem addressable_loras_can_be_requested_witness:
  "resolve_loras_for_job (demo_vworld\<lparr>vw_root := [''loras''], vw_resolve := (\<lambda>_. [''loras'', ''style'', ''ink.safetensors'']),
     vw_is_file := (\<lambda>_. True)\<rparr>) (Some [\<lparr>ls_name = ''style/ink'', ls_weight = 1\<rparr>]) = Inr [\<lparr>lr_name = ''style/ink'', lr_weight = 1\<rparr>]"
proof -
  let ?w = "demo_vworld\<lparr>vw_root := [''loras''], vw_resolve := (\<lambda>_. [''loras'', ''style'', ''ink.safetensors'']), vw_is_file := (\<lambda>_. True)\<rparr>"
  have "case scan_loras [''loras''] True [demo_scan_entry] of Inr [m] \<Rightarrow> lm_name m = ''style/ink'' \<and> lm_addressable m | _ \<Rightarrow> False"
    by code_simp
  then obtain m where "scan_loras (vw_root ?w) True [demo_scan_entry] = Inr [m]" "lm_name m = ''style/ink''" "lm_addressable m"
    by (auto split: sum.splits list.splits)
  with addressable_loras_can_be_requested [of ?w True "[demo_scan_entry]" "[m]" m 1] show ?thesis
    by (simp add: demo_scan_entry_def)
qed

text \<open>
  One sidecar that is not UTF-8 takes down the whole listing. If any file of the directory
  that would be listed has such a sidecar, \<open>GET /v1/loras\<close> answers 500, whatever the
  other files are.
\<close>

theorem bad_sidecar_breaks_listing:
  assumes "e \<in> set entries" "se_is_file e" "se_resolved e = Some resolved" "prefix r resolved" "se_size e = Some n"
    and "sc_is_file (se_sidecar e)" "sc_size (se_sidecar e) = Some k" "k \<le> sidecar_max_bytes"
    and "sc_text (se_sidecar e) = ScNotUtf8"
  shows "\<exists>ex. list_loras r True entries = Inl ex \<and> rs_status (exception_response py_str ex) = 500"
proof -
  have bad: "scan_entry_meta r e = Inl ()"
    using assms by (simp add: scan_entry_meta_def read_sidecar_entry_def Let_def)
  have "x \<in> set xs \<Longrightarrow> scan_entry_meta r x = Inl () \<Longrightarrow> map_r (scan_entry_meta r) xs = Inl ()" for x xs
    by (induction xs) (auto simp: bind_r_def split: sum.split)
  from this [OF _ bad, of "sort_key se_parts entries"] assms(1) have "scan_loras r True entries = Inl ()"
    by (simp add: scan_loras_def)
  then show ?thesis by (simp add: list_loras_def unhandled_exception_handler_def)
qed

theorem bad_sidecar_breaks_listing_witness:
  "\<exists>ex. list_loras [''loras''] True [demo_scan_entry, demo_scan_entry\<lparr>se_sidecar := \<lparr>sc_is_file = True, sc_size = Some 20, sc_text = ScNotUtf8\<rparr>\<rparr>] = Inl ex"
  using bad_sidecar_breaks_listing [of "demo_scan_entry\<lparr>se_sidecar := \<lparr>sc_is_file = True, sc_size = Some 20, sc_text = ScNotUtf8\<rparr>\<rparr>"
    "[demo_scan_entry, demo_scan_entry\<lparr>se_sidecar := \<lparr>sc_is_file = True, sc_size = Some 20, sc_text = ScNotUtf8\<rparr>\<rparr>]"
    "[''loras'', ''style'', ''ink.safetensors'']" "[''loras'']" 144 20]
  by (auto simp: demo_scan_entry_def sidecar_max_bytes_def)

end
