(* ===== verification/Worker_Loop.thy ===== *)
theory Worker_Loop
  imports Queue_Worker
begin

text \<open>
  The queue in front of the worker (\<open>enqueue\<close>, \<open>enqueue_detached\<close>, \<open>enqueue_recovery\<close>, \<open>run\<close> and the
  accessors of \<open>app/queue/worker.py\<close>): a bounded FIFO that request handlers and boot recovery put
  jobs on and one worker task takes them from, while the other parts of the service write to the
  job table. Concurrent worker tasks (\<open>WORKER_CONCURRENCY\<close> above 1) are not modelled.
\<close>

section \<open>State and steps\<close>

text \<open>
  \<open>lp_outcomes\<close>: what the futures got, in order. \<open>lp_alive\<close>: the task has not ended by an exception.
\<close>

record loop =
  lp_pending :: "job list"
  lp_worker :: worker
  lp_outcomes :: "(job \<times> item_end) list"
  lp_alive :: bool

definition queue_depth :: "loop \<Rightarrow> nat" where
  "queue_depth l = length (lp_pending l)"

definition last_model_name :: "loop \<Rightarrow> string option" where
  "last_model_name l = wk_last_model (lp_worker l)"

text \<open>\<open>asyncio.Queue(maxsize)\<close>: a \<open>put\<close> waits while the queue is full; no bound below 1.\<close>

definition has_room :: "int \<Rightarrow> job list \<Rightarrow> bool" where
  "has_room maxsize q \<longleftrightarrow> maxsize \<le> 0 \<or> int (length q) < maxsize"

definition enqueue :: "int \<Rightarrow> job \<Rightarrow> loop \<Rightarrow> loop option" where
  "enqueue maxsize j l =
     (if has_room maxsize (lp_pending l) then Some (l\<lparr>lp_pending := lp_pending l @ [j]\<rparr>) else None)"

text \<open>One turn of the loop: the next item, if there is one and the task lives.\<close>

definition serve_next :: "backend_world \<Rightarrow> loop \<Rightarrow> loop option" where
  "serve_next w l = (case lp_pending l of
     [] \<Rightarrow> None
   | j # q \<Rightarrow> if \<not> lp_alive l then None
       else (case process_item w j (lp_worker l) of (e, s) \<Rightarrow>
         Some (l\<lparr>lp_pending := q, lp_worker := s, lp_outcomes := lp_outcomes l @ [(j, e)],
                 lp_alive := (e \<noteq> LoopDies)\<rparr>)))"

text \<open>What handlers and dispatcher write to the table while the service runs.\<close>

inductive other_write :: "jobs \<Rightarrow> jobs \<Rightarrow> bool" where
  other_create: "create_queued t i now m inp md url hs = Inr (t', j) \<Longrightarrow> other_write t t'"
| other_fetched: "other_write t (set_fetched t i now)"
| other_initial: "other_write t (mark_initial_response_delivered t i now)"
| other_response: "other_write t (mark_response_delivered t i now)"
| other_async: "other_write t (mark_async_with_handover t i now)"
| other_handover: "other_write t (mark_handover t i now)"
| other_webhook: "other_write t (set_webhook_delivery_status t i st now)"

text \<open>A job is put on the queue once, when its row is queued.\<close>

definition admitted :: "job \<Rightarrow> loop \<Rightarrow> bool" where
  "admitted j l \<longleftrightarrow> j_id j \<notin> set (map j_id (lp_pending l)) \<and>
     map_option j_status (job_find (wk_jobs (lp_worker l)) (j_id j)) = Some Queued"

inductive loop_step :: "int \<Rightarrow> backend_world set \<Rightarrow> loop \<Rightarrow> loop \<Rightarrow> bool"
  for maxsize :: int and W :: "backend_world set" where
  put: "admitted j l \<Longrightarrow> enqueue maxsize j l = Some l' \<Longrightarrow> loop_step maxsize W l l'"
| take: "w \<in> W \<Longrightarrow> serve_next w l = Some l' \<Longrightarrow> loop_step maxsize W l l'"
| other: "other_write (wk_jobs (lp_worker l)) t \<Longrightarrow>
    loop_step maxsize W l (l\<lparr>lp_worker := (lp_worker l)\<lparr>wk_jobs := t\<rparr>\<rparr>)"

definition idle_loop :: "worker \<Rightarrow> loop" where
  "idle_loop s = \<lparr>lp_pending = [], lp_worker = s, lp_outcomes = [], lp_alive = True\<rparr>"

section \<open>Every job that enters settles\<close>

text \<open>How a job that left the queue is found in the table.\<close>

definition settled_as :: "item_end \<Rightarrow> job option \<Rightarrow> bool" where
  "settled_as e row \<longleftrightarrow> (case e of
     Resolved r \<Rightarrow> map_option (\<lambda>k. (j_status k, j_result_json k)) row = Some (Completed, Some (result_json r))
   | Rejected _ \<Rightarrow> map_option j_status row = Some Failed
   | LoopDies \<Rightarrow> False)"

definition queued_row :: "jobs \<Rightarrow> job \<Rightarrow> bool" where
  "queued_row t j \<longleftrightarrow> map_option j_status (job_find t (j_id j)) = Some Queued"

definition loop_ok :: "loop \<Rightarrow> bool" where
  "loop_ok l \<longleftrightarrow> lp_alive l \<and> distinct (map j_id (lp_pending l)) \<and>
     list_all (queued_row (wk_jobs (lp_worker l))) (lp_pending l) \<and>
     list_all (\<lambda>(j, e). settled_as e (job_find (wk_jobs (lp_worker l)) (j_id j))) (lp_outcomes l)"

text \<open>The other writes keep status and result of every row.\<close>

lemma modify_keeps:
  assumes "\<And>j. j_id (f j) = j_id j" "\<And>j. j_status (f j) = j_status j" "\<And>j. j_result_json (f j) = j_result_json j"
    and "job_find t k = Some r"
  shows "\<exists>r'. job_find (job_modify i f t) k = Some r' \<and> j_status r' = j_status r \<and> j_result_json r' = j_result_json r"
  using assms by (cases "k = i") (auto simp: jt.find_modify)

lemma other_write_keeps:
  assumes "other_write t t'" and "job_find t k = Some r"
  shows "\<exists>r'. job_find t' k = Some r' \<and> j_status r' = j_status r \<and> j_result_json r' = j_result_json r"
  using assms
proof (cases rule: other_write.cases)
  case (other_create i now m inp md url hs j)
  then obtain r0 where "t' = t @ [r0]" by (auto dest: create_queued_Inr)
  with assms(2) show ?thesis by (simp add: jt.find_append)
qed (simp_all only: set_fetched_def mark_initial_response_delivered_def mark_response_delivered_def
    mark_async_with_handover_def mark_handover_def set_webhook_delivery_status_def,
    (rule modify_keeps; simp)+)

lemma other_write_is_step: "other_write t t' \<Longrightarrow> job_step t t'"
  by (induction rule: other_write.induct) (auto intro: job_step.intros)

lemma other_write_queued: "other_write t t' \<Longrightarrow> queued_row t j \<Longrightarrow> queued_row t' j"
  unfolding queued_row_def by (auto dest: other_write_keeps)

lemma other_write_settled:
  assumes "other_write t t'" "settled_as e (job_find t i)"
  shows "settled_as e (job_find t' i)"
proof (cases "job_find t i")
  case None
  with assms(2) show ?thesis by (cases e) (auto simp: settled_as_def)
next
  case (Some r)
  from other_write_keeps [OF assms(1) this] assms(2) Some show ?thesis
    by (cases e) (auto simp: settled_as_def)
qed

text \<open>One item: its row settles as its future does; the rows of other jobs stay.\<close>

lemma item_served:
  assumes "backend_contract w" and "queued_row (wk_jobs s) j" and "process_item w j s = (e, s')"
  shows "e \<noteq> LoopDies" "settled_as e (job_find (wk_jobs s') (j_id j))"
    and "k \<noteq> j_id j \<Longrightarrow> job_find (wk_jobs s') k = job_find (wk_jobs s) k"
proof -
  from assms(2) obtain row where row: "job_find (wk_jobs s) (j_id j) = Some row" "j_status row = Queued"
    by (auto simp: queued_row_def)
  note i = item_settles [OF assms(1) row assms(3)]
  from i show "e \<noteq> LoopDies" by (cases e) auto
  from i show "settled_as e (job_find (wk_jobs s') (j_id j))" by (cases e) (auto simp: settled_as_def)
  from i show "k \<noteq> j_id j \<Longrightarrow> job_find (wk_jobs s') k = job_find (wk_jobs s) k" by blast
qed

lemma serve_next_ok:
  assumes "backend_contract w" "loop_ok l" "lp_pending l = j # q"
  shows "\<exists>l' e. serve_next w l = Some l' \<and> loop_ok l' \<and> lp_pending l' = q \<and> lp_outcomes l' = lp_outcomes l @ [(j, e)]"
proof -
  obtain e s' where p: "process_item w j (lp_worker l) = (e, s')" by fastforce
  have ok: "queued_row (wk_jobs (lp_worker l)) j" "j_id j \<notin> set (map j_id q)" "distinct (map j_id q)"
    "list_all (queued_row (wk_jobs (lp_worker l))) q" "lp_alive l"
    "list_all (\<lambda>(j, e). settled_as e (job_find (wk_jobs (lp_worker l)) (j_id j))) (lp_outcomes l)"
    using assms(2,3) by (auto simp: loop_ok_def)
  note served = item_served [OF assms(1) ok(1) p]
  let ?l = "l\<lparr>lp_pending := q, lp_worker := s', lp_outcomes := lp_outcomes l @ [(j, e)], lp_alive := (e \<noteq> LoopDies)\<rparr>"
  have "serve_next w l = Some ?l" using assms(3) ok(5) p by (simp add: serve_next_def)
  moreover have "list_all (queued_row (wk_jobs s')) q"
    unfolding list_all_iff
  proof
    fix k
    assume k: "k \<in> set q"
    then have "j_id k \<noteq> j_id j" using ok(2) by (metis image_eqI list.set_map)
    then show "queued_row (wk_jobs s') k" using ok(4) k served(3) by (simp add: list_all_iff queued_row_def)
  qed
  moreover have "settled_as f (job_find (wk_jobs s') (j_id k))" if "(k, f) \<in> set (lp_outcomes l)" for k f
  proof -
    have f: "settled_as f (job_find (wk_jobs (lp_worker l)) (j_id k))" using ok(6) that by (auto simp: list_all_iff)
    have "j_id k \<noteq> j_id j"
    proof
      assume "j_id k = j_id j"
      with f ok(1) show False by (cases f) (auto simp: settled_as_def queued_row_def)
    qed
    with served(3) f show ?thesis by simp
  qed
  ultimately have "serve_next w l = Some ?l" "loop_ok ?l"
    using served(1,2) ok(3) by (auto simp: loop_ok_def list_all_iff)
  then show ?thesis by (intro exI [of _ ?l] exI [of _ e]) simp
qed

lemma serve_next_pending: "serve_next w l = Some l' \<Longrightarrow> \<exists>j q. lp_pending l = j # q"
  by (auto simp: serve_next_def split: list.splits)

lemma loop_step_ok:
  assumes "loop_step maxsize W l l'" "\<forall>w \<in> W. backend_contract w" "loop_ok l"
  shows "loop_ok l'"
  using assms(1)
proof (cases rule: loop_step.cases)
  case (put j)
  then show ?thesis using assms(3) by (auto simp: enqueue_def loop_ok_def admitted_def queued_row_def split: if_splits)
next
  case (take w)
  then obtain j q where "lp_pending l = j # q" by (auto dest: serve_next_pending)
  with serve_next_ok [of w l] take assms(2,3) show ?thesis by fastforce
next
  case (other t)
  then show ?thesis using assms(3) other_write_queued [OF other(2)] other_write_settled [OF other(2)]
    by (auto simp: loop_ok_def list_all_iff)
qed

lemma loop_run_ok: "(loop_step maxsize W)\<^sup>*\<^sup>* l l' \<Longrightarrow> \<forall>w \<in> W. backend_contract w \<Longrightarrow> loop_ok l \<Longrightarrow> loop_ok l'"
  by (induction rule: rtranclp_induct) (auto intro: loop_step_ok)

lemma loop_drains:
  assumes "w \<in> W" "\<forall>w \<in> W. backend_contract w"
  shows "loop_ok l \<Longrightarrow> \<exists>l'. (loop_step maxsize W)\<^sup>*\<^sup>* l l' \<and> lp_pending l' = [] \<and>
    map fst (lp_outcomes l') = map fst (lp_outcomes l) @ lp_pending l"
proof (induction "lp_pending l" arbitrary: l)
  case Nil
  then show ?case by (intro exI [of _ l]) simp
next
  case (Cons j q)
  from serve_next_ok [of w l j q] assms Cons.prems Cons.hyps(2) obtain l1 e where
    l1: "serve_next w l = Some l1" "loop_ok l1" "lp_pending l1 = q" "lp_outcomes l1 = lp_outcomes l @ [(j, e)]" by auto
  from Cons.hyps(1) [OF l1(3) [symmetric] l1(2)] obtain l' where
    "(loop_step maxsize W)\<^sup>*\<^sup>* l1 l'" "lp_pending l' = []" "map fst (lp_outcomes l') = map fst (lp_outcomes l1) @ lp_pending l1"
    by blast
  moreover have "loop_step maxsize W l l1" using assms(1) l1(1) by (rule take)
  ultimately show ?case using l1(3,4) Cons.hyps(2) [symmetric]
    by (intro exI [of _ l']) (auto intro: converse_rtranclp_into_rtranclp)
qed


text \<open>The example: one job put on the queue, and served.\<close>

definition demo_loop :: loop where
  "demo_loop = the (enqueue 1 demo_job (idle_loop demo_worker))"

lemma demo_enqueued: "enqueue 1 demo_job (idle_loop demo_worker) = Some demo_loop"
  by (simp add: demo_loop_def enqueue_def has_room_def idle_loop_def)

lemma demo_contract: "backend_contract demo_world"
  by (simp add: backend_contract_def demo_world_def)


text \<open>
  A queue that is full stays full until the worker takes an item: recovery, which puts all rows
  found at boot on the queue, needs the worker to run already.
\<close>

lemma full_queue_blocks: "enqueue maxsize j l = None \<longleftrightarrow> 0 < maxsize \<and> maxsize \<le> int (queue_depth l)"
  by (auto simp: enqueue_def has_room_def queue_depth_def)

text \<open>
  \<open>run\<close> is documented never to raise from the loop; it does when the write of \<open>set_failed\<close> in the
  handler of unexpected exceptions raises. After that nothing is served any more.
\<close>

lemma loop_can_die: "fst (process_item demo_world (demo_job\<lparr>j_input_json := None\<rparr>) (demo_worker\<lparr>wk_jobs := []\<rparr>)) = LoopDies"
  by code_simp

lemma dead_loop_serves_nothing: "\<not> lp_alive l \<Longrightarrow> serve_next w l = None"
  by (simp add: serve_next_def split: list.split)

end
