(* ===== verification/Monitoring.thy ===== *)
theory Monitoring
  imports Gateway Comfyui "HOL-Library.Product_Lexorder"
begin

text \<open>
  \<open>app/monitoring/metrics.py\<close>, the endpoints of \<open>app/api/monitoring.py\<close> and
  \<open>app/api/health.py\<close>. The collector is a record of counters and histograms; what it is meant
  to be is a function of the events it was told of, and the collector is shown to compute it.
  Every operation of the collector holds its lock, so operations are single steps.
\<close>

section \<open>The collector\<close>

type_synonym labels = "(string \<times> string) list"

definition http_buckets_ms :: "rat list" where
  "http_buckets_ms = [10, 25, 50, 100, 250, 500, 1000, 3000, 10000]"

definition binary_buckets_ms :: "rat list" where
  "binary_buckets_ms = [100, 250, 500, 1000, 3000, 10000, 30000]"

definition labels_key :: "labels \<Rightarrow> labels" where
  "labels_key d = sort d"

definition labels_text :: "labels \<Rightarrow> string" where
  "labels_text labels = (if labels = [] then []
     else ''{'' @ join_on (CHR '','') (map (\<lambda>(k, v). k @ [CHR ''='', CHR 0x22] @ v @ [CHR 0x22]) labels) @ ''}'')"

text \<open>\<open>buckets\<close> is \<open>None\<close> until the first value is recorded.\<close>

record histogram =
  hs_sum :: rat
  hs_count :: nat
  hs_buckets :: "(rat \<times> nat) list option"

definition empty_histogram :: histogram where
  "empty_histogram = \<lparr>hs_sum = 0, hs_count = 0, hs_buckets = None\<rparr>"

record metrics =
  mt_started_at :: rat
  mt_http_requests :: "(labels \<times> nat) list"
  mt_job_events :: "(labels \<times> nat) list"
  mt_http_hist :: "(labels \<times> histogram) list"
  mt_binary_requests :: "(labels \<times> nat) list"
  mt_binary_hist :: "(labels \<times> histogram) list"
  mt_last_health :: pydict
  mt_recent_failures :: "(labels \<times> nat) list"
  mt_timeout_events :: "rat list"

definition timeout_window_s :: rat where
  "timeout_window_s = 600"

definition timeout_alert_threshold :: nat where
  "timeout_alert_threshold = 3"

definition new_metrics :: "rat \<Rightarrow> metrics" where
  "new_metrics now = \<lparr>mt_started_at = now, mt_http_requests = [], mt_job_events = [], mt_http_hist = [],
     mt_binary_requests = [], mt_binary_hist = [],
     mt_last_health = [(''status'', VStr ''unknown''), (''vram_free_gb'', VNone), (''last_health_check_at'', VNone)],
     mt_recent_failures = [], mt_timeout_events = []\<rparr>"

text \<open>\<open>Counter[k] += 1\<close>, and an entry of a \<open>defaultdict\<close>.\<close>

definition counter_get :: "('k \<times> nat) list \<Rightarrow> 'k \<Rightarrow> nat" where
  "counter_get c k = (case map_of c k of None \<Rightarrow> 0 | Some n \<Rightarrow> n)"

definition count_one :: "'k \<Rightarrow> ('k \<times> nat) list \<Rightarrow> ('k \<times> nat) list" where
  "count_one k c = AList.update k (counter_get c k + 1) c"

definition hist_get :: "(labels \<times> histogram) list \<Rightarrow> labels \<Rightarrow> histogram" where
  "hist_get h k = (case map_of h k of None \<Rightarrow> empty_histogram | Some x \<Rightarrow> x)"

definition observe :: "rat list \<Rightarrow> rat \<Rightarrow> histogram \<Rightarrow> histogram" where
  "observe bounds duration_ms h =
     (let buckets = (case hs_buckets h of None \<Rightarrow> map (\<lambda>b. (b, 0)) bounds | Some bs \<Rightarrow> bs) in
      \<lparr>hs_sum = hs_sum h + duration_ms / 1000, hs_count = hs_count h + 1,
       hs_buckets = Some (map (\<lambda>(b, n). (b, if duration_ms \<le> b then n + 1 else n)) buckets)\<rparr>)"

definition observe_at :: "rat list \<Rightarrow> labels \<Rightarrow> rat \<Rightarrow> (labels \<times> histogram) list \<Rightarrow> (labels \<times> histogram) list" where
  "observe_at bounds k duration_ms h = AList.update k (observe bounds duration_ms (hist_get h k)) h"

definition http_labels :: "string \<Rightarrow> string \<Rightarrow> int \<Rightarrow> labels" where
  "http_labels meth path status_code =
     labels_key [(''method'', meth), (''path'', path), (''status'', show_int status_code)]"

definition record_http_request :: "string \<Rightarrow> string \<Rightarrow> int \<Rightarrow> rat \<Rightarrow> metrics \<Rightarrow> metrics" where
  "record_http_request meth path status_code duration_ms m =
     (let labels = http_labels meth path status_code in
      m\<lparr>mt_http_requests := count_one labels (mt_http_requests m),
        mt_http_hist := observe_at http_buckets_ms labels duration_ms (mt_http_hist m)\<rparr>)"

definition record_binary_request :: "string \<Rightarrow> rat \<Rightarrow> metrics \<Rightarrow> metrics" where
  "record_binary_request status duration_ms m =
     (let labels = labels_key [(''status'', status)] in
      m\<lparr>mt_binary_requests := count_one labels (mt_binary_requests m),
        mt_binary_hist := observe_at binary_buckets_ms labels duration_ms (mt_binary_hist m)\<rparr>)"

definition record_job_event :: "rat \<Rightarrow> string \<Rightarrow> string option \<Rightarrow> metrics \<Rightarrow> metrics" where
  "record_job_event now status error_code m =
     (let m = m\<lparr>mt_job_events := count_one (labels_key [(''status'', status)]) (mt_job_events m)\<rparr> in
      case error_code of
        None \<Rightarrow> m
      | Some code \<Rightarrow>
          if code = [] then m
          else let m = m\<lparr>mt_recent_failures := count_one (labels_key [(''error_code'', code)]) (mt_recent_failures m)\<rparr> in
            if code \<noteq> ''comfy_timeout'' then m
            else m\<lparr>mt_timeout_events :=
              filter (\<lambda>t. now - timeout_window_s \<le> t) (mt_timeout_events m @ [now])\<rparr>)"

text \<open>\<open>gmtime\<close>: the instant as \<open>strftime\<close> formats it, a parameter.\<close>

definition update_comfy_health :: "string \<Rightarrow> string \<Rightarrow> rat option \<Rightarrow> metrics \<Rightarrow> metrics" where
  "update_comfy_health gmtime status vram_free_gb m = m\<lparr>mt_last_health :=
     [(''status'', VStr status),
      (''vram_free_gb'', case vram_free_gb of None \<Rightarrow> VNone | Some x \<Rightarrow> VFloat x),
      (''last_health_check_at'', VStr gmtime)]\<rparr>"

section \<open>Reports\<close>

text \<open>One entry of a list of counts; the labels of these counters have the key.\<close>

definition count_entry :: "string \<Rightarrow> labels \<times> nat \<Rightarrow> pyval" where
  "count_entry key c = (case c of (labels, n) \<Rightarrow>
     VDict [(key, VStr (the (map_of labels key))), (''count'', VInt (int n))])"

definition admin_snapshot :: "rat \<Rightarrow> metrics \<Rightarrow> pydict" where
  "admin_snapshot now m =
     [(''uptime_s'', VFloat (max 0 (now - mt_started_at m))),
      (''job_events'', VList (map (count_entry ''status'') (sort (mt_job_events m)))),
      (''recent_failures'', VList (map (count_entry ''error_code'') (sort (mt_recent_failures m)))),
      (''timeout_alert'', VDict
         [(''window_s'', VFloat timeout_window_s), (''threshold'', VInt (int timeout_alert_threshold)),
          (''count_in_window'', VInt (int (length (mt_timeout_events m)))),
          (''triggered'', VBool (timeout_alert_threshold \<le> length (mt_timeout_events m)))]),
      (''comfy_health'', VDict (mt_last_health m))]"

text \<open>\<open>f"{x:.nf}"\<close>: the nearest multiple, ties to even, with \<open>n\<close> digits after the point.\<close>

definition round_even :: "rat \<Rightarrow> int" where
  "round_even x = (let f = \<lfloor>x\<rfloor>; d = x - of_int f in
     if d < 1 / 2 then f else if 1 / 2 < d then f + 1 else if even f then f else f + 1)"

definition fixed_text :: "nat \<Rightarrow> rat \<Rightarrow> string" where
  "fixed_text n x =
     (let k = round_even (\<bar>x\<bar> * 10 ^ n); digits = show_nat (nat k);
          padded = replicate (n + 1 - length digits) (CHR ''0'') @ digits in
      (if x < 0 then ''-'' else []) @ take (length padded - n) padded @ ''.'' @ drop (length padded - n) padded)"

text \<open>\<open>str(bucket / 1000.0)\<close> of the bucket bounds.\<close>

definition bound_text :: "rat \<Rightarrow> string" where
  "bound_text b = (if b = 10 then ''0.01'' else if b = 25 then ''0.025'' else if b = 50 then ''0.05''
     else if b = 100 then ''0.1'' else if b = 250 then ''0.25'' else if b = 500 then ''0.5''
     else show_nat (nat \<lfloor>b / 1000\<rfloor>) @ ''.0'')"

definition help_lines :: "string \<Rightarrow> string \<Rightarrow> string \<Rightarrow> string list" where
  "help_lines name help kind = [''# HELP '' @ name @ '' '' @ help, ''# TYPE '' @ name @ '' '' @ kind]"

definition count_lines :: "string \<Rightarrow> (labels \<times> nat) list \<Rightarrow> string list" where
  "count_lines name counts = map (\<lambda>(labels, v). name @ labels_text labels @ '' '' @ show_nat v) (sort counts)"

definition bucket_count :: "histogram \<Rightarrow> rat \<Rightarrow> nat" where
  "bucket_count h b = (case hs_buckets h of None \<Rightarrow> 0 | Some bs \<Rightarrow> counter_get bs b)"

definition hist_lines :: "string \<Rightarrow> rat list \<Rightarrow> labels \<times> histogram \<Rightarrow> string list" where
  "hist_lines name bounds entry = (case entry of (labels, h) \<Rightarrow>
     map (\<lambda>b. name @ ''_bucket'' @ labels_text (labels @ [(''le'', bound_text b)]) @ '' '' @ show_nat (bucket_count h b)) bounds @
     [name @ ''_bucket'' @ labels_text (labels @ [(''le'', ''+Inf'')]) @ '' '' @ show_nat (hs_count h),
      name @ ''_sum'' @ labels_text labels @ '' '' @ fixed_text 6 (hs_sum h),
      name @ ''_count'' @ labels_text labels @ '' '' @ show_nat (hs_count h)])"

definition gauge_lines :: "string \<Rightarrow> string \<Rightarrow> string \<Rightarrow> string list" where
  "gauge_lines name help v = help_lines name help ''gauge'' @ [name @ '' '' @ v]"

definition prometheus_lines :: "rat \<Rightarrow> nat \<Rightarrow> int \<Rightarrow> nat \<Rightarrow> metrics \<Rightarrow> string list" where
  "prometheus_lines now queue_depth worker_concurrency active_jobs m =
     gauge_lines ''imagegen_uptime_seconds'' ''Process uptime in seconds.'' (fixed_text 3 (max 0 (now - mt_started_at m))) @
     help_lines ''imagegen_http_requests_total'' ''Total HTTP requests.'' ''counter'' @
     count_lines ''imagegen_http_requests_total'' (mt_http_requests m) @
     help_lines ''imagegen_http_request_duration_seconds'' ''HTTP request latency.'' ''histogram'' @
     concat (map (hist_lines ''imagegen_http_request_duration_seconds'' http_buckets_ms) (sort_key fst (mt_http_hist m))) @
     help_lines ''imagegen_binary_requests_total'' ''Total binary endpoint requests.'' ''counter'' @
     count_lines ''imagegen_binary_requests_total'' (mt_binary_requests m) @
     help_lines ''imagegen_binary_request_duration_seconds'' ''Binary endpoint latency.'' ''histogram'' @
     concat (map (hist_lines ''imagegen_binary_request_duration_seconds'' binary_buckets_ms) (sort_key fst (mt_binary_hist m))) @
     help_lines ''imagegen_job_events_total'' ''Job lifecycle event counts.'' ''counter'' @
     count_lines ''imagegen_job_events_total'' (mt_job_events m) @
     gauge_lines ''imagegen_queue_depth'' ''Current queue depth.'' (show_nat queue_depth) @
     gauge_lines ''imagegen_worker_concurrency'' ''Configured worker concurrency.'' (show_int worker_concurrency) @
     gauge_lines ''imagegen_active_jobs'' ''Current active jobs (queued/running).'' (show_nat active_jobs) @
     gauge_lines ''imagegen_comfy_timeout_window_count'' ''Timeouts in alert window.'' (show_nat (length (mt_timeout_events m))) @
     gauge_lines ''imagegen_comfy_timeout_alert_triggered'' ''Timeout alert threshold reached.''
       (if timeout_alert_threshold \<le> length (mt_timeout_events m) then ''1'' else ''0'')"

definition render_prometheus :: "rat \<Rightarrow> nat \<Rightarrow> int \<Rightarrow> nat \<Rightarrow> metrics \<Rightarrow> string" where
  "render_prometheus now queue_depth worker_concurrency active_jobs m =
     join_on (CHR 0x0A) (prometheus_lines now queue_depth worker_concurrency active_jobs m) @ [CHR 0x0A]"

section \<open>The endpoints\<close>

text \<open>
  What the monitoring endpoints read besides the tables: the clock, the worker's queue and last
  model, the runtime bundle and whether the reconfiguration lock is held.
\<close>

record service_view =
  sv_now :: rat
  sv_now_iso :: string
  sv_gmtime :: string
  sv_queue_depth :: nat
  sv_worker_concurrency :: int
  sv_max_queue :: int
  sv_last_model :: "string option"
  sv_runtime_bundle :: pyval
  sv_reconfiguring :: bool

text \<open>A \<open>PlainTextResponse\<close>; \<open>None\<close> stands for a service without a collector.\<close>

definition text_response :: "int \<Rightarrow> string \<Rightarrow> string \<Rightarrow> response" where
  "text_response status media_type content =
     \<lparr>rs_status = status, rs_headers = [], rs_body = BytesBody content media_type\<rparr>"

definition metrics_prometheus :: "service_view \<Rightarrow> jobs \<Rightarrow> metrics option \<Rightarrow> response" where
  "metrics_prometheus sv t m = (case m of
     None \<Rightarrow> text_response 503 ''text/plain'' (''monitoring not configured'' @ [CHR 0x0A])
   | Some m \<Rightarrow> text_response 200 ''text/plain; version=0.0.4''
       (render_prometheus (sv_now sv) (sv_queue_depth sv) (sv_worker_concurrency sv) (count_active t) m))"

text \<open>\<open>float(v)\<close> that counts a failure as no value; \<open>adapter_health\<close> is the answer of \<open>health()\<close>.\<close>

definition health_status :: "(pyval \<Rightarrow> string) \<Rightarrow> pydict \<Rightarrow> string" where
  "health_status py_str d = py_str (case map_of d ''status'' of None \<Rightarrow> VStr ''unknown'' | Some v \<Rightarrow> v)"

definition health_vram :: "pydict \<Rightarrow> rat option" where
  "health_vram d = (case dict_get d ''vram_free_gb'' of VNone \<Rightarrow> None | v \<Rightarrow> float_of v)"

definition monitoring_status ::
  "(pyval \<Rightarrow> string) \<Rightarrow> service_view \<Rightarrow> jobs \<Rightarrow> (pipe_error + pydict) option \<Rightarrow> metrics option \<Rightarrow> response \<times> metrics option" where
  "monitoring_status py_str sv t health_call m = (case m of
     None \<Rightarrow> (error_response 503 ''monitoring_unavailable'' ''monitoring metrics collector is not configured'', None)
   | Some m \<Rightarrow>
       (let d = (case health_call of
              None \<Rightarrow> [(''status'', VStr ''unknown''), (''vram_free_gb'', VNone)]
            | Some (Inl _) \<Rightarrow> [(''status'', VStr ''error''), (''vram_free_gb'', VNone)]
            | Some (Inr d) \<Rightarrow> d);
            m = update_comfy_health (sv_gmtime sv) (health_status py_str d) (health_vram d) m
        in (json_response 200
          [(''at'', VStr (sv_now_iso sv)), (''runtime_bundle'', sv_runtime_bundle sv),
           (''worker_last_model_name'', opt_text (sv_last_model sv)),
           (''worker_concurrency'', VInt (sv_worker_concurrency sv)),
           (''runtime_reconfiguring'', VBool (sv_reconfiguring sv)),
           (''queue_depth'', VInt (int (sv_queue_depth sv))), (''active_jobs'', VInt (int (count_active t))),
           (''monitoring'', VDict (admin_snapshot (sv_now sv) m))], Some m)))"

text \<open>The grouped counts as a dictionary, by the text of the status.\<close>

definition status_counts :: "jobs \<Rightarrow> pydict" where
  "status_counts t = concat (map (\<lambda>s. case count_by_status t s of
     None \<Rightarrow> [] | Some n \<Rightarrow> [(status_text s, VInt (int n))]) [Abandoned, Completed, Failed, Queued, Running])"

definition monitoring_queue :: "service_view \<Rightarrow> jobs \<Rightarrow> response" where
  "monitoring_queue sv t = json_response 200
     [(''queue_depth'', VInt (int (sv_queue_depth sv))), (''active_jobs'', VInt (int (count_active t))),
      (''max_queue'', VInt (sv_max_queue sv)), (''worker_concurrency'', VInt (sv_worker_concurrency sv)),
      (''job_status_counts'', VDict (status_counts t))]"

text \<open>\<open>api/health.py\<close>: the state of the database is told to the holders of a key only.\<close>

definition get_health :: "keyset \<Rightarrow> bool \<Rightarrow> string option \<Rightarrow> http_exc + response" where
  "get_health ks db_ok authorization = (case verify_key authorization ks of
     Inl _ \<Rightarrow> Inl compare_raises
   | Inr verbose \<Rightarrow> Inr (if db_ok
       then json_response 200 ((''status'', VStr ''ok'') # (if verbose then [(''db'', VStr ''ok'')] else []))
       else json_response 503 ((''status'', VStr ''degraded'') # (if verbose then [(''db'', VStr ''unreachable'')] else []))))"

section \<open>What the collector is meant to be\<close>

text \<open>What the service tells the collector, and what it does with it.\<close>

datatype metric_event =
    HttpServed string string int rat
  | BinaryServed string rat
  | JobEvent rat string "string option"
  | HealthSeen string string "rat option"

fun record_event :: "metric_event \<Rightarrow> metrics \<Rightarrow> metrics" where
  "record_event (HttpServed meth path status_code duration_ms) = record_http_request meth path status_code duration_ms"
| "record_event (BinaryServed status duration_ms) = record_binary_request status duration_ms"
| "record_event (JobEvent now status error_code) = record_job_event now status error_code"
| "record_event (HealthSeen gmtime status vram) = update_comfy_health gmtime status vram"

definition collect :: "rat \<Rightarrow> metric_event list \<Rightarrow> metrics" where
  "collect started es = fold record_event es (new_metrics started)"

text \<open>The durations recorded under given labels, the codes of failures, and the instants of timeouts.\<close>

fun http_duration :: "labels \<Rightarrow> metric_event \<Rightarrow> rat option" where
  "http_duration l (HttpServed meth path status_code d) = (if http_labels meth path status_code = l then Some d else None)"
| "http_duration l _ = None"

fun binary_duration :: "labels \<Rightarrow> metric_event \<Rightarrow> rat option" where
  "binary_duration l (BinaryServed status d) = (if labels_key [(''status'', status)] = l then Some d else None)"
| "binary_duration l _ = None"

fun job_labels :: "metric_event \<Rightarrow> labels option" where
  "job_labels (JobEvent now status code) = Some (labels_key [(''status'', status)])"
| "job_labels _ = None"

fun failure_labels :: "metric_event \<Rightarrow> labels option" where
  "failure_labels (JobEvent now status code) = (case code of None \<Rightarrow> None
     | Some c \<Rightarrow> if c = [] then None else Some (labels_key [(''error_code'', c)]))"
| "failure_labels _ = None"

fun timeout_at :: "metric_event \<Rightarrow> rat option" where
  "timeout_at (JobEvent now status code) = (if code = Some ''comfy_timeout'' then Some now else None)"
| "timeout_at _ = None"

text \<open>A histogram holds the values \<open>ds\<close>.\<close>

definition holds_values :: "rat list \<Rightarrow> rat list \<Rightarrow> histogram \<Rightarrow> bool" where
  "holds_values bounds ds h \<longleftrightarrow> hs_sum h = sum_list ds / 1000 \<and> hs_count h = length ds \<and>
     hs_buckets h = (if ds = [] then None
       else Some (map (\<lambda>b. (b, length (filter (\<lambda>d. d \<le> b) ds))) bounds))"

lemma holds_empty [simp]: "holds_values bounds [] empty_histogram"
  by (simp add: holds_values_def empty_histogram_def)

lemma observe_holds: "holds_values bounds ds h \<Longrightarrow> holds_values bounds (ds @ [d]) (observe bounds d h)"
  by (auto simp: holds_values_def observe_def Let_def add_divide_distrib)

lemma counter_count_one: "counter_get (count_one k c) k' = (if k' = k then counter_get c k + 1 else counter_get c k')"
  by (simp add: counter_get_def count_one_def update_conv')

lemma hist_observe_at: "hist_get (observe_at bounds k d h) k' = (if k' = k then observe bounds d (hist_get h k) else hist_get h k')"
  by (simp add: hist_get_def observe_at_def update_conv')

text \<open>The collector agrees with the events \<open>es\<close>.\<close>

definition agrees :: "metric_event list \<Rightarrow> metrics \<Rightarrow> bool" where
  "agrees es m \<longleftrightarrow>
     (\<forall>l. counter_get (mt_http_requests m) l = length (List.map_filter (http_duration l) es)) \<and>
     (\<forall>l. holds_values http_buckets_ms (List.map_filter (http_duration l) es) (hist_get (mt_http_hist m) l)) \<and>
     (\<forall>l. counter_get (mt_binary_requests m) l = length (List.map_filter (binary_duration l) es)) \<and>
     (\<forall>l. holds_values binary_buckets_ms (List.map_filter (binary_duration l) es) (hist_get (mt_binary_hist m) l)) \<and>
     (\<forall>l. counter_get (mt_job_events m) l = length (filter (\<lambda>e. job_labels e = Some l) es)) \<and>
     (\<forall>l. counter_get (mt_recent_failures m) l = length (filter (\<lambda>e. failure_labels e = Some l) es))"

lemma map_filter_snoc: "List.map_filter f (xs @ [x]) = List.map_filter f xs @ (case f x of None \<Rightarrow> [] | Some y \<Rightarrow> [y])"
  by (simp add: List.map_filter_def split: option.split)

lemma agrees_new: "agrees [] (new_metrics t)"
  by (simp add: agrees_def new_metrics_def counter_get_def hist_get_def map_filter_simps)

lemma agrees_step: "agrees es m \<Longrightarrow> agrees (es @ [e]) (record_event e m)"
proof (cases e)
  case (HttpServed meth path st d)
  then show "agrees es m \<Longrightarrow> ?thesis"
    by (simp add: agrees_def map_filter_snoc record_http_request_def Let_def counter_count_one hist_observe_at observe_holds)
next
  case (BinaryServed st d)
  then show "agrees es m \<Longrightarrow> ?thesis"
    by (simp add: agrees_def map_filter_snoc record_binary_request_def Let_def counter_count_one hist_observe_at observe_holds)
next
  case (JobEvent now st code)
  then show "agrees es m \<Longrightarrow> ?thesis"
    by (cases code) (auto simp: agrees_def map_filter_snoc record_job_event_def Let_def counter_count_one)
qed (simp add: agrees_def map_filter_snoc update_comfy_health_def)

lemma collect_snoc: "collect t (es @ [e]) = record_event e (collect t es)"
  by (simp add: collect_def)

lemma collect_agrees: "agrees es (collect t es)"
  by (induction es rule: rev_induct) (simp_all add: collect_snoc agrees_step, simp add: collect_def agrees_new)

section \<open>What is reported\<close>

lemma counter_member: "0 < counter_get c k \<Longrightarrow> (k, counter_get c k) \<in> set c"
  by (auto simp: counter_get_def split: option.splits dest: map_of_SomeD)

lemma hist_member: "hist_get h k \<noteq> empty_histogram \<Longrightarrow> (k, hist_get h k) \<in> set h"
  by (auto simp: hist_get_def split: option.splits dest: map_of_SomeD)

lemma counter_get_map: "k \<in> set ks \<Longrightarrow> counter_get (map (\<lambda>k. (k, f k)) ks) k = f k"
  unfolding counter_get_def by (induction ks) auto

lemma count_line_member: "0 < counter_get c l \<Longrightarrow> name @ labels_text l @ '' '' @ show_nat (counter_get c l) \<in> set (count_lines name c)"
  unfolding count_lines_def set_map set_sort by (rule image_eqI [OF _ counter_member]) simp_all

text \<open>The lines that a histogram of the values \<open>ds\<close> has in the report.\<close>

definition value_lines :: "string \<Rightarrow> rat list \<Rightarrow> labels \<Rightarrow> rat list \<Rightarrow> string set" where
  "value_lines name bounds l ds =
     {name @ ''_bucket'' @ labels_text (l @ [(''le'', bound_text b)]) @ '' '' @ show_nat (length (filter (\<lambda>d. d \<le> b) ds)) | b. b \<in> set bounds} \<union>
     {name @ ''_bucket'' @ labels_text (l @ [(''le'', ''+Inf'')]) @ '' '' @ show_nat (length ds),
      name @ ''_sum'' @ labels_text l @ '' '' @ fixed_text 6 (sum_list ds / 1000),
      name @ ''_count'' @ labels_text l @ '' '' @ show_nat (length ds)}"

lemma hist_lines_values:
  assumes "holds_values bounds ds (hist_get h l)" "ds \<noteq> []"
  shows "value_lines name bounds l ds \<subseteq> set (concat (map (hist_lines name bounds) (sort_key fst h)))"
proof -
  have "hist_get h l \<noteq> empty_histogram" using assms by (auto simp: holds_values_def empty_histogram_def)
  then have "(l, hist_get h l) \<in> set (sort_key fst h)" by (simp add: hist_member)
  moreover have "value_lines name bounds l ds \<subseteq> set (hist_lines name bounds (l, hist_get h l))"
  proof -
    have h: "hs_sum (hist_get h l) = sum_list ds / 1000" "hs_count (hist_get h l) = length ds"
      "\<And>b. b \<in> set bounds \<Longrightarrow> bucket_count (hist_get h l) b = length (filter (\<lambda>d. d \<le> b) ds)"
      using assms by (auto simp only: holds_values_def bucket_count_def counter_get_map option.case if_False)
    show ?thesis unfolding value_lines_def hist_lines_def prod.case set_append set_map h(1,2)
      by (auto simp: h(3) simp del: append.simps intro!: imageI)
  qed
  ultimately show ?thesis by fastforce
qed

lemma fst_collect_timeouts:
  assumes "sorted (List.map_filter timeout_at es)"
  shows "mt_timeout_events (collect t es) =
    filter (\<lambda>x. last (List.map_filter timeout_at es) - timeout_window_s \<le> x) (List.map_filter timeout_at es)"
  using assms
proof (induction es rule: rev_induct)
  case Nil
  then show ?case by (simp add: collect_def new_metrics_def map_filter_simps)
next
  case (snoc e es)
  let ?ts = "List.map_filter timeout_at es"
  show ?case
  proof (cases "timeout_at e")
    case None
    then have "mt_timeout_events (record_event e m) = mt_timeout_events m" for m
      by (cases e) (auto simp: record_http_request_def record_binary_request_def record_job_event_def update_comfy_health_def
          Let_def split: option.split if_splits)
    with None snoc show ?thesis by (simp add: collect_snoc map_filter_snoc)
  next
    case (Some now)
    then have e: "\<exists>st. e = JobEvent now st (Some ''comfy_timeout'')" by (cases e) (auto split: if_splits)
    have "\<forall>x \<in> set ?ts. x \<le> now" and "sorted ?ts" using snoc.prems Some by (auto simp: map_filter_snoc sorted_append)
    then have "last ?ts \<le> now" if "?ts \<noteq> []" using that by simp
    then have "filter (\<lambda>x. now - timeout_window_s \<le> x) (filter (\<lambda>x. last ?ts - timeout_window_s \<le> x) ?ts) =
        filter (\<lambda>x. now - timeout_window_s \<le> x) ?ts"
      by (auto simp: filter_filter intro!: filter_cong) (metis add.commute diff_add_cancel dual_order.trans empty_iff empty_set le_diff_eq)
    with e snoc.IH [OF \<open>sorted ?ts\<close>] Some show ?thesis
      by (auto simp: collect_snoc map_filter_snoc record_job_event_def Let_def timeout_window_s_def)
  qed
qed

text \<open>The lines of one kind of request, found among the lines \<open>L\<close>.\<close>

lemma counted:
  assumes "set (count_lines name c) \<subseteq> L" "counter_get c l = n" "n \<noteq> 0"
  shows "name @ labels_text l @ '' '' @ show_nat n \<in> L"
  using assms count_line_member [of c l name] by auto

lemma reported:
  assumes "set (count_lines name c) \<subseteq> L" "counter_get c l = length ds"
    and "set (concat (map (hist_lines name' bounds) (sort_key fst h))) \<subseteq> L" "holds_values bounds ds (hist_get h l)"
  shows "ds = [] \<or> insert (name @ labels_text l @ '' '' @ show_nat (length ds)) (value_lines name' bounds l ds) \<subseteq> L"
proof (cases "ds = []")
  case False
  then have "name @ labels_text l @ '' '' @ show_nat (length ds) \<in> L" using assms(1,2) by (intro counted) auto
  moreover have "value_lines name' bounds l ds \<subseteq> L" using hist_lines_values [OF assms(4) False] assms(3) by blast
  ultimately show ?thesis by blast
qed simp

text \<open>
  C21: A scrape reports exactly what happened. After any sequence of events, for the labels of
  each kind of request or job event that occurred, the text of \<open>/metrics\<close> has the line with
  their number, and for requests the lines of the latency histogram of exactly the durations
  recorded: each bucket counts the values up to its bound, \<open>+Inf\<close> and \<open>_count\<close> all of them, and
  \<open>_sum\<close> adds them up in seconds.
\<close>

theorem scrape_reports_events:
  "(\<forall>l. let ds = List.map_filter (http_duration l) es in ds = [] \<or>
      insert (''imagegen_http_requests_total'' @ labels_text l @ '' '' @ show_nat (length ds))
        (value_lines ''imagegen_http_request_duration_seconds'' http_buckets_ms l ds)
      \<subseteq> set (prometheus_lines now depth workers active (collect started es))) \<and>
   (\<forall>l. let ds = List.map_filter (binary_duration l) es in ds = [] \<or>
      insert (''imagegen_binary_requests_total'' @ labels_text l @ '' '' @ show_nat (length ds))
        (value_lines ''imagegen_binary_request_duration_seconds'' binary_buckets_ms l ds)
      \<subseteq> set (prometheus_lines now depth workers active (collect started es))) \<and>
   (\<forall>l. let n = length (filter (\<lambda>e. job_labels e = Some l) es) in n = 0 \<or>
      ''imagegen_job_events_total'' @ labels_text l @ '' '' @ show_nat n
      \<in> set (prometheus_lines now depth workers active (collect started es)))"
proof -
  let ?m = "collect started es"
  have sub: "set (count_lines ''imagegen_http_requests_total'' (mt_http_requests ?m)) \<subseteq> set (prometheus_lines now depth workers active ?m)"
    "set (count_lines ''imagegen_binary_requests_total'' (mt_binary_requests ?m)) \<subseteq> set (prometheus_lines now depth workers active ?m)"
    "set (count_lines ''imagegen_job_events_total'' (mt_job_events ?m)) \<subseteq> set (prometheus_lines now depth workers active ?m)"
    "set (concat (map (hist_lines ''imagegen_http_request_duration_seconds'' http_buckets_ms) (sort_key fst (mt_http_hist ?m))))
      \<subseteq> set (prometheus_lines now depth workers active ?m)"
    "set (concat (map (hist_lines ''imagegen_binary_request_duration_seconds'' binary_buckets_ms) (sort_key fst (mt_binary_hist ?m))))
      \<subseteq> set (prometheus_lines now depth workers active ?m)"
    unfolding prometheus_lines_def set_append by blast+
  have a: "agrees es ?m" by (rule collect_agrees)
  have a': "counter_get (mt_http_requests ?m) l = length (List.map_filter (http_duration l) es)"
    "holds_values http_buckets_ms (List.map_filter (http_duration l) es) (hist_get (mt_http_hist ?m) l)"
    "counter_get (mt_binary_requests ?m) l = length (List.map_filter (binary_duration l) es)"
    "holds_values binary_buckets_ms (List.map_filter (binary_duration l) es) (hist_get (mt_binary_hist ?m) l)"
    "counter_get (mt_job_events ?m) l = length (filter (\<lambda>e. job_labels e = Some l) es)" for l
    using a unfolding agrees_def by blast+
  show ?thesis unfolding Let_def
  proof (intro conjI allI)
    fix l
    show "List.map_filter (http_duration l) es = [] \<or>
      insert (''imagegen_http_requests_total'' @ labels_text l @ '' '' @ show_nat (length (List.map_filter (http_duration l) es)))
        (value_lines ''imagegen_http_request_duration_seconds'' http_buckets_ms l (List.map_filter (http_duration l) es))
      \<subseteq> set (prometheus_lines now depth workers active ?m)"
      by (rule reported [OF sub(1) a'(1) sub(4) a'(2)])
    show "List.map_filter (binary_duration l) es = [] \<or>
      insert (''imagegen_binary_requests_total'' @ labels_text l @ '' '' @ show_nat (length (List.map_filter (binary_duration l) es)))
        (value_lines ''imagegen_binary_request_duration_seconds'' binary_buckets_ms l (List.map_filter (binary_duration l) es))
      \<subseteq> set (prometheus_lines now depth workers active ?m)"
      by (rule reported [OF sub(2) a'(3) sub(5) a'(4)])
    show "length (filter (\<lambda>e. job_labels e = Some l) es) = 0 \<or>
      ''imagegen_job_events_total'' @ labels_text l @ '' '' @ show_nat (length (filter (\<lambda>e. job_labels e = Some l) es))
      \<in> set (prometheus_lines now depth workers active ?m)"
      using counted [OF sub(3) a'(5)] by blast
  qed
qed

text \<open>
  The timeout alert of a scrape does not depend on when the scrape is made: it counts the
  timeouts of the ten minutes before the last one, so an alert that is raised stays raised
  until another timeout comes.
\<close>

lemma timeout_alert_latches:
  assumes "sorted (List.map_filter timeout_at es)"
  shows "map_of (admin_snapshot now (collect t es)) ''timeout_alert'' =
    (let n = length (filter (\<lambda>x. last (List.map_filter timeout_at es) - timeout_window_s \<le> x) (List.map_filter timeout_at es)) in
     Some (VDict [(''window_s'', VFloat timeout_window_s), (''threshold'', VInt (int timeout_alert_threshold)),
       (''count_in_window'', VInt (int n)), (''triggered'', VBool (timeout_alert_threshold \<le> n))]))"
  by (simp add: admin_snapshot_def fst_collect_timeouts [OF assms] Let_def)

end
