(* ===== verification/Logging.thy ===== *)
theory Logging
  imports Auth
begin

text \<open>
  \<open>app/logging_config.py\<close> and \<open>app/middleware/logging.py\<close>: what a log record still holds when it
  is written, and what the outermost layer does to every answer. Texts are sequences of code
  points up to U+00FF. structlog, which calls \<open>redact_sensitive\<close> last on every record, and the
  handlers of the standard library are not modelled.
\<close>

section \<open>Redaction of log records\<close>

text \<open>The values of a record; scalars other than texts are never looked at.\<close>

datatype logval =
    LText string
  | LScalar pyval
  | LList "logval list"
  | LTuple "logval list"
  | LDict "(string \<times> logval) list"

definition drop_keys :: "string list" where
  "drop_keys = [''Authorization'', ''authorization'', ''presigned_url'', ''presigned_urls'', ''X-Amz-Signature'',
     ''x-amz-signature'', ''webhook_signing_secret'', ''api_key'', ''api_keys'']"

definition redactable_keys :: "string list" where
  "redactable_keys = [''prompt'', ''negative_prompt'']"

fun walk_and_redact :: "bool \<Rightarrow> logval \<Rightarrow> logval" where
  "walk_and_redact reveal (LDict d) = LDict
     (map (\<lambda>(k, v). (k, if k \<in> set redactable_keys \<and> \<not> reveal then LText ''<redacted>'' else walk_and_redact reveal v))
        (filter (\<lambda>(k, v). k \<notin> set drop_keys) d))"
| "walk_and_redact reveal (LList xs) = LList (map (walk_and_redact reveal) xs)"
| "walk_and_redact reveal v = v"

subsection \<open>The patterns\<close>

text \<open>
  A matcher gives the length of the match that \<open>re\<close> finds at the head of a text, where the
  character before it is \<open>prev\<close>.
\<close>

type_synonym matcher = "char option \<Rightarrow> string \<Rightarrow> nat option"

definition word_char :: "char \<Rightarrow> bool" where
  "word_char c \<longleftrightarrow> is_alnum c \<or> c = CHR ''_'' \<or>
     (let n = of_char c :: nat in n \<in> {170, 178, 179, 181, 185, 186, 188, 189, 190} \<or> 192 \<le> n \<and> n \<noteq> 215 \<and> n \<noteq> 247)"

definition newline :: "char \<Rightarrow> bool" where
  "newline c \<longleftrightarrow> c = CHR 0x0D \<or> c = CHR 0x0A"

definition bearer_char :: "char \<Rightarrow> bool" where
  "bearer_char c \<longleftrightarrow> is_alnum c \<or> c \<in> set ''._-~+/=''"

definition sig_char :: "char \<Rightarrow> bool" where
  "sig_char c \<longleftrightarrow> is_alnum c \<or> c = CHR ''%''"

text \<open>\<open>\b\<close> before a letter.\<close>

definition at_boundary :: "char option \<Rightarrow> bool" where
  "at_boundary prev = (case prev of None \<Rightarrow> True | Some c \<Rightarrow> \<not> word_char c)"

definition bearer_match :: matcher where
  "bearer_match prev s =
     (if at_boundary prev \<and> lower (take 6 s) = ''bearer'' then
        (let r = drop 6 s; ws = takeWhile header_space r; tok = takeWhile bearer_char (dropWhile header_space r) in
         if ws = [] \<or> tok = [] then None else Some (6 + length ws + length tok))
      else None)"

definition sig_match :: matcher where
  "sig_match prev s =
     (if lower (take 16 s) = ''x-amz-signature='' then
        (let v = takeWhile sig_char (drop 16 s) in if v = [] then None else Some (16 + length v))
      else None)"

text \<open>
  \<open>\s*\<close> takes line ends as well; when nothing follows the white space it gives back characters
  up to the last one that is no line end.
\<close>

definition auth_match :: matcher where
  "auth_match prev s =
     (if lower (take 14 s) = ''authorization:'' then
        (let r = drop 14 s; ws = takeWhile header_space r; rest = dropWhile header_space r in
         if rest \<noteq> [] then Some (14 + length ws + length (takeWhile (\<lambda>c. \<not> newline c) rest))
         else (let back = rev (dropWhile newline (rev ws)) in if back = [] then None else Some (14 + length back)))
      else None)"

text \<open>\<open>pattern.sub(replacement, value)\<close>; these patterns never match the empty text.\<close>

fun sub_pattern :: "matcher \<Rightarrow> string \<Rightarrow> char option \<Rightarrow> string \<Rightarrow> string" where
  "sub_pattern m r prev [] = []"
| "sub_pattern m r prev (c # cs) = (case m prev (c # cs) of
     None \<Rightarrow> c # sub_pattern m r (Some c) cs
   | Some n \<Rightarrow> r @ sub_pattern m r (Some (last (take n (c # cs)))) (drop (n - 1) cs))"

definition scrub_patterns :: "(matcher \<times> string) list" where
  "scrub_patterns = [(bearer_match, ''Bearer <redacted>''), (sig_match, ''X-Amz-Signature=<redacted>''),
     (auth_match, ''Authorization: <redacted>'')]"

definition scrub_string :: "string \<Rightarrow> string" where
  "scrub_string s = fold (\<lambda>(m, r) s. sub_pattern m r None s) scrub_patterns s"

text \<open>The two fields of a record in which secrets may be hidden in running text.\<close>

definition scrub_field :: "string \<Rightarrow> (string \<times> logval) list \<Rightarrow> (string \<times> logval) list" where
  "scrub_field k d = (case map_of d k of Some (LText s) \<Rightarrow> dict_set k (LText (scrub_string s)) d | _ \<Rightarrow> d)"

definition redact_sensitive :: "bool \<Rightarrow> string \<Rightarrow> (string \<times> logval) list \<Rightarrow> (string \<times> logval) list" where
  "redact_sensitive log_prompts method_name event_dict =
     (case walk_and_redact (log_prompts \<and> lower method_name = ''debug'') (LDict event_dict) of
        LDict d \<Rightarrow> scrub_field ''exception'' (scrub_field ''event'' d)
      | _ \<Rightarrow> [])"

section \<open>The outermost layer\<close>

definition request_id_ok :: "string \<Rightarrow> bool" where
  "request_id_ok s = (let body = (if s \<noteq> [] \<and> last s = CHR 0x0A then butlast s else s) in
     1 \<le> length body \<and> length body \<le> 128 \<and> list_all (\<lambda>c. is_alnum c \<or> c = CHR ''-'') body)"

definition pick_request_id :: "string option \<Rightarrow> string \<Rightarrow> string" where
  "pick_request_id inbound uuid4_hex = (case inbound of None \<Rightarrow> uuid4_hex
     | Some s \<Rightarrow> if s \<noteq> [] \<and> request_id_ok s then s else uuid4_hex)"

text \<open>The messages that an application sends for a request; the body is not looked at.\<close>

datatype asgi_message = ResponseStart int "(string \<times> string) list" | ResponseBody string

definition id_header :: string where
  "id_header = ''x-request-id''"

definition inbound_id :: "(string \<times> string) list \<Rightarrow> string option" where
  "inbound_id headers = map_of headers id_header"

fun send_wrapper :: "string \<Rightarrow> asgi_message \<Rightarrow> int \<Rightarrow> asgi_message \<times> int" where
  "send_wrapper request_id (ResponseStart status headers) status_code =
     (ResponseStart status (filter (\<lambda>(k, v). lower k \<noteq> id_header) headers @ [(id_header, request_id)]), status)"
| "send_wrapper request_id (ResponseBody b) status_code = (ResponseBody b, status_code)"

fun send_all :: "string \<Rightarrow> asgi_message list \<Rightarrow> int \<Rightarrow> asgi_message list \<times> int" where
  "send_all request_id [] status_code = ([], status_code)"
| "send_all request_id (m # ms) status_code =
     (let (m', status_code) = send_wrapper request_id m status_code;
          (ms', status_code) = send_all request_id ms status_code in (m' # ms', status_code))"

text \<open>
  \<open>__call__\<close> of the middleware for an HTTP request: the messages \<open>sent\<close> by the application, with
  or without an exception after them, go out, and the status is recorded in either case.
\<close>

definition request_context :: "(string \<times> string) list \<Rightarrow> string \<Rightarrow> asgi_message list \<Rightarrow> asgi_message list \<times> int" where
  "request_context headers uuid4_hex sent = send_all (pick_request_id (inbound_id headers) uuid4_hex) sent 500"

section \<open>What a scrubbed text shows\<close>

text \<open>\<open>P\<close> holds at every position of a text, given the character before it and the rest.\<close>

fun everywhere :: "(char option \<Rightarrow> string \<Rightarrow> bool) \<Rightarrow> char option \<Rightarrow> string \<Rightarrow> bool" where
  "everywhere P prev [] = True"
| "everywhere P prev (c # cs) = (P prev (c # cs) \<and> everywhere P (Some c) cs)"

lemma everywhere_mono: "everywhere P prev s \<Longrightarrow> (\<And>p x. P p x \<Longrightarrow> Q p x) \<Longrightarrow> everywhere Q prev s"
  by (induction P prev s rule: everywhere.induct) auto

lemma everywhere_True: "(\<And>p x. P p x) \<Longrightarrow> everywhere P prev s"
  by (induction P prev s rule: everywhere.induct) auto

lemma everywhere_and: "everywhere P prev s \<Longrightarrow> everywhere Q prev s \<Longrightarrow> everywhere (\<lambda>p x. P p x \<and> Q p x) prev s"
  by (induction P prev s rule: everywhere.induct) auto

lemma everywhere_append: "everywhere P prev (a @ b) \<Longrightarrow> a \<noteq> [] \<Longrightarrow> everywhere P (Some (last a)) b"
  by (induction a arbitrary: prev) (auto split: if_splits)

lemma everywhere_prev: "everywhere P prev s \<Longrightarrow> (s \<noteq> [] \<Longrightarrow> P prev' s) \<Longrightarrow> everywhere P prev' s"
  by (cases s) auto

lemma everywhere_prefixes:
  "everywhere P (if a = [] then prev else Some (last a)) b \<Longrightarrow>
   (\<And>i p. i < length a \<Longrightarrow> P p (drop i a @ b)) \<Longrightarrow> everywhere P prev (a @ b)"
proof (induction a arbitrary: prev)
  case (Cons c a)
  have "P prev ((c # a) @ b)" using Cons.prems(2) [of 0 prev] by simp
  moreover have "everywhere P (Some c) (a @ b)"
    using Cons.prems by (intro Cons.IH) (fastforce split: if_splits)+
  ultimately show ?case by simp
qed simp

text \<open>
  The patterns share a shape: a text \<open>lit\<close> in any case, separators, and a character of the value.
\<close>

definition lead :: "string \<Rightarrow> bool \<Rightarrow> (char \<Rightarrow> bool) \<Rightarrow> (char \<Rightarrow> bool) \<Rightarrow> string \<Rightarrow> bool" where
  "lead lit need sep val s \<longleftrightarrow> lower (take (length lit) s) = lit \<and>
     (let r = drop (length lit) s; v = dropWhile sep r in
       (need \<longrightarrow> r \<noteq> [] \<and> sep (hd r)) \<and> v \<noteq> [] \<and> val (hd v))"

lemma take_lower: "take j (lower x) = lower (take j x)"
  by (simp add: lower_def take_map)

text \<open>One pass: where the matches of \<open>m\<close> start, and what can follow them.\<close>

locale scrub_pass =
  fixes m :: matcher and r :: string and stop :: "char \<Rightarrow> bool"
  assumes match_some: "m prev s = Some n \<Longrightarrow>
    0 < n \<and> n \<le> length s \<and> \<not> stop (hd s) \<and> (drop n s = [] \<or> stop (hd (drop n s)))"
    and r_nonempty: "r \<noteq> []"
begin

lemma match_head:
  assumes "m prev (c # cs) = Some n"
  shows "0 < n" "n \<le> Suc (length cs)" "\<not> stop c" "drop (n - 1) cs = [] \<or> stop (hd (drop (n - 1) cs))"
  using match_some [OF assms] by (auto simp: drop_Cons')

lemma sub_stop: "s = [] \<or> stop (hd s) \<Longrightarrow> sub_pattern m r prev s = [] \<and> s = [] \<or>
    sub_pattern m r prev s \<noteq> [] \<and> s \<noteq> [] \<and> hd (sub_pattern m r prev s) = hd s"
  by (cases s) (auto split: option.split dest: match_head(3))

text \<open>The result agrees with the text up to the first match.\<close>

lemma sub_agrees:
  "\<exists>p q u. s = p @ q \<and> sub_pattern m r prev s = p @ u \<and>
    (q = [] \<and> u = [] \<or> q \<noteq> [] \<and> (\<exists>prev' n. m prev' q = Some n) \<and> (\<exists>t. u = r @ t))"
proof (induction m r prev s rule: sub_pattern.induct)
  case (1 m r prev)
  then show ?case by simp
next
  case (2 m r prev c cs)
  show ?case
  proof (cases "m prev (c # cs)")
    case None
    from 2(1) [OF None] obtain p q u where "cs = p @ q" "sub_pattern m r (Some c) cs = p @ u"
      and "q = [] \<and> u = [] \<or> q \<noteq> [] \<and> (\<exists>prev' n. m prev' q = Some n) \<and> (\<exists>t. u = r @ t)" by blast
    with None show ?thesis by (intro exI [of _ "c # p"] exI [of _ q] exI [of _ u]) simp
  next
    case (Some n)
    then show ?thesis by (intro exI [of _ "[]"] exI [of _ "c # cs"] exI) auto
  qed
qed

end

text \<open>
  A pass \<open>m\<close> and a pattern \<open>lit\<close> that it must not bring back: the replacement is no start of an
  occurrence, except one that \<open>placeholder\<close> describes, and joins none with the text around it.
\<close>

locale scrub_target = scrub_pass +
  fixes lit :: string and need :: bool and sep :: "char \<Rightarrow> bool" and val :: "char \<Rightarrow> bool"
    and bound :: "char option \<Rightarrow> bool" and placeholder :: "string \<Rightarrow> bool"
  assumes lit_long: "2 \<le> length lit" "length lit \<le> length r"
    and head_val: "m prev q = Some n \<Longrightarrow> val (hd q) \<and> \<not> sep (hd q)"
    and r_val: "val (hd r)" "\<not> sep (hd r)"
    and no_straddle: "list_all (\<lambda>k. lower (take (length lit - k) r) \<noteq> drop k lit) [1..<length lit]"
    and no_inner: "list_all (\<lambda>i. \<not> starts_with (lower (take 2 (drop i r))) lit) [1..<length r]"
    and at_r: "t = [] \<or> stop (hd t) \<Longrightarrow> lead lit need sep val (r @ t) \<Longrightarrow> placeholder (r @ t)"
    and stop_lit: "stop c \<Longrightarrow> to_lower c \<noteq> hd lit"
begin

abbreviation shows_at :: "char option \<Rightarrow> string \<Rightarrow> bool" where
  "shows_at prev s \<equiv> bound prev \<and> lead lit need sep val s"

lemma lead_head: "lead lit need sep val (c # cs) \<Longrightarrow> to_lower c = hd lit"
  using lit_long(1) by (cases lit) (auto simp: lead_def lower_def)

lemma lead_nonempty: "lead lit need sep val s \<Longrightarrow> s \<noteq> []"
  by (auto simp: lead_def)

text \<open>What the text would show before a match it shows in the result as well, and conversely.\<close>

lemma lead_transfer:
  assumes l: "lead lit need sep val (x @ r @ t)" and x: "x \<noteq> []" and q: "val (hd q)" "\<not> sep (hd q)" "q \<noteq> []"
  shows "lead lit need sep val (x @ q)"
proof (cases "length lit \<le> length x")
  case True
  define y where "y = drop (length lit) x"
  have d: "drop (length lit) (x @ z) = y @ z" "take (length lit) (x @ z) = take (length lit) x" for z
    using True by (simp_all add: y_def)
  show ?thesis
  proof (cases "\<exists>c \<in> set y. \<not> sep c")
    case True
    then have w: "dropWhile sep (y @ z) = dropWhile sep y @ z" "dropWhile sep y \<noteq> []" "y \<noteq> []" for z
      by (auto simp: dropWhile_append1)
    then show ?thesis using l unfolding lead_def d Let_def by (auto simp: w)
  next
    case False
    then have "dropWhile sep (y @ z) = dropWhile sep z" for z by simp
    moreover have "dropWhile sep q = q" using q by (cases q) auto
    moreover have "\<not> need \<or> y \<noteq> [] \<and> sep (hd y)"
      using l r_val r_nonempty unfolding lead_def d Let_def by (cases y) auto
    ultimately show ?thesis using l q unfolding lead_def d Let_def by (auto simp: hd_append)
  qed
next
  case False
  let ?k = "length x"
  have "lower (take (length lit) (x @ r @ t)) = lit" using l by (simp add: lead_def)
  then have "drop ?k (lower (take (length lit) (x @ r @ t))) = drop ?k lit" by simp
  moreover have "drop ?k (lower (take (length lit) (x @ r @ t))) = lower (take (length lit - ?k) r)"
    using False lit_long(2) by (simp add: lower_def drop_map drop_take)
  ultimately have "lower (take (length lit - ?k) r) = drop ?k lit" by (simp only:)
  moreover have "?k \<in> set [1..<length lit]" using False x by (cases x) auto
  ultimately show ?thesis using bspec [OF no_straddle [unfolded list_all_iff]] by blast
qed

lemma not_inside_r:
  assumes "0 < i" "i < length r"
  shows "\<not> lead lit need sep val (drop i r @ t)"
proof
  let ?a = "drop i r" and ?j = "length (take 2 (drop i r))"
  assume "lead lit need sep val (?a @ t)"
  then have "lower (take (length lit) (?a @ t)) = lit" by (simp only: lead_def)
  then have "take ?j lit = take ?j (lower (take (length lit) (?a @ t)))" by (simp only:)
  also have "\<dots> = lower (take ?j (take (length lit) (?a @ t)))" by (rule take_lower)
  also have "take ?j (take (length lit) (?a @ t)) = take 2 ?a"
    using lit_long(1) by (cases ?a; cases "tl ?a") auto
  finally have "take ?j lit = lower (take 2 ?a)" .
  then have "starts_with (lower (take 2 (drop i r))) lit"
    by (simp add: starts_with_def lower_def)
  then show False using no_inner assms by (auto simp: list_all_iff)
qed


lemma result_shows:
  "everywhere (\<lambda>p x. m p x = None \<longrightarrow> \<not> shows_at p x) prev s \<Longrightarrow>
   everywhere (\<lambda>p x. shows_at p x \<longrightarrow> placeholder x) prev (sub_pattern m r prev s)"
proof (induction s arbitrary: prev rule: length_induct)
  case (1 s)
  show ?case
  proof (cases s)
    case (Cons c cs)
    show ?thesis
    proof (cases "m prev (c # cs)")
      case None
      obtain p q u where p: "cs = p @ q" "sub_pattern m r (Some c) cs = p @ u"
        and q: "q = [] \<and> u = [] \<or> q \<noteq> [] \<and> (\<exists>prev' n. m prev' q = Some n) \<and> (\<exists>t. u = r @ t)"
        using sub_agrees by blast
      have "\<not> shows_at prev (c # p @ q)" using 1(2) None unfolding Cons p(1) by simp
      then have "\<not> shows_at prev (c # p @ u)"
        using q lead_transfer [of "c # p" _ q] head_val by auto
      moreover have "everywhere (\<lambda>p x. shows_at p x \<longrightarrow> placeholder x) (Some c) (p @ u)"
        using 1 unfolding Cons p(2) [symmetric] by simp
      ultimately show ?thesis using None unfolding Cons by (auto simp: p(1) p(2) [unfolded p(1)])
    next
      case (Some n)
      let ?s = "drop (n - 1) cs" and ?l = "Some (last (take n (c # cs)))"
      let ?t = "sub_pattern m r ?l ?s"
      have n: "take n (c # cs) \<noteq> []" "?s = drop n (c # cs)" using match_head(1) [OF Some] by (auto simp: drop_Cons')
      have "everywhere (\<lambda>p x. m p x = None \<longrightarrow> \<not> shows_at p x) ?l ?s"
        using everywhere_append [OF _ n(1), where b = ?s] 1(2) unfolding Cons n(2) append_take_drop_id by blast
      then have "everywhere (\<lambda>p x. shows_at p x \<longrightarrow> placeholder x) ?l ?t"
        using 1(1) unfolding Cons by simp
      moreover have st: "?t = [] \<or> stop (hd ?t)" using sub_stop [OF match_head(4) [OF Some]] match_head(4) [OF Some] by metis
      then have "\<not> lead lit need sep val ?t" using lead_head stop_lit lead_nonempty by (metis list.exhaust_sel)
      ultimately have tail: "everywhere (\<lambda>p x. shows_at p x \<longrightarrow> placeholder x) (Some (last r)) ?t" by - (rule everywhere_prev, assumption, blast)
      have "everywhere (\<lambda>p x. shows_at p x \<longrightarrow> placeholder x) prev (r @ ?t)"
      proof (rule everywhere_prefixes)
        show "shows_at p (drop i r @ ?t) \<longrightarrow> placeholder (drop i r @ ?t)" if "i < length r" for i p
          using at_r [OF st] not_inside_r [OF _ that] by (cases "i = 0") auto
      qed (use tail r_nonempty in simp)
      then show ?thesis using Some unfolding Cons by simp
    qed
  qed simp
qed

end

section \<open>The three passes\<close>

lemma to_lower_alnum: "to_lower c = d \<Longrightarrow> is_alnum d \<Longrightarrow> is_alnum c"
  by (auto simp: to_lower_def is_alnum_def Let_def split: if_splits)

lemma alnum_chars: "is_alnum c \<Longrightarrow> bearer_char c \<and> sig_char c \<and> \<not> newline c \<and> \<not> header_space c"
  by (auto simp: bearer_char_def sig_char_def newline_def header_space_def is_alnum_def is_space_def Let_def)

lemma lower_take_head: "lower (take (Suc n) s) = d # ds \<Longrightarrow> s \<noteq> [] \<and> to_lower (hd s) = d"
  by (cases s) (auto simp: lower_def)

lemma lower_take_length: "lower (take n s) = d \<Longrightarrow> length d = n \<Longrightarrow> n \<le> length s"
  by (auto simp: lower_def)

lemma drop_takeWhile: "drop (length (takeWhile P s)) s = dropWhile P s"
  by (metis append_eq_conv_conj takeWhile_dropWhile_id)

lemma dropWhile_stops: "dropWhile P s = [] \<or> \<not> P (hd (dropWhile P s))"
  using hd_dropWhile by blast

lemma bearer_some:
  assumes "bearer_match prev s = Some n"
  shows "0 < n \<and> n \<le> length s \<and> bearer_char (hd s) \<and> (drop n s = [] \<or> \<not> bearer_char (hd (drop n s)))"
    and "is_alnum (hd s)"
proof -
  let ?r = "drop 6 s" and ?v = "dropWhile header_space (drop 6 s)"
  have l: "lower (take 6 s) = ''bearer''" and n: "n = 6 + length (takeWhile header_space ?r) + length (takeWhile bearer_char ?v)"
    using assms by (auto simp: bearer_match_def Let_def split: if_splits)
  have a: "is_alnum (hd s)" using lower_take_head [of 5 s] l to_lower_alnum by (force simp: is_alnum_def)
  have "length ?r = length (takeWhile header_space ?r) + length ?v"
    by (metis length_append takeWhile_dropWhile_id)
  moreover have "length (takeWhile bearer_char ?v) \<le> length ?v" by (rule length_takeWhile_le)
  moreover have "6 \<le> length s" using lower_take_length [OF l] by simp
  ultimately have "n \<le> length s" using n by simp
  moreover have "drop n s = dropWhile bearer_char ?v"
    unfolding n drop_takeWhile [symmetric] by (simp add: add.commute add.left_commute)
  ultimately show "0 < n \<and> n \<le> length s \<and> bearer_char (hd s) \<and> (drop n s = [] \<or> \<not> bearer_char (hd (drop n s)))"
    using n alnum_chars [OF a] dropWhile_stops [of bearer_char ?v] by (simp del: dropWhile_eq_Nil_conv)
  show "is_alnum (hd s)" by (rule a)
qed

lemma sig_some:
  assumes "sig_match prev s = Some n"
  shows "0 < n \<and> n \<le> length s \<and> sig_char (hd s) \<and> (drop n s = [] \<or> \<not> sig_char (hd (drop n s)))"
    and "is_alnum (hd s)"
proof -
  let ?v = "drop 16 s"
  have l: "lower (take 16 s) = ''x-amz-signature=''" and n: "n = 16 + length (takeWhile sig_char ?v)"
    using assms by (auto simp: sig_match_def Let_def split: if_splits)
  have a: "is_alnum (hd s)" using lower_take_head [of 15 s] l to_lower_alnum by (force simp: is_alnum_def)
  have "length (takeWhile sig_char ?v) \<le> length ?v" by (rule length_takeWhile_le)
  moreover have "16 \<le> length s" using lower_take_length [OF l] by simp
  ultimately have "n \<le> length s" using n by simp
  moreover have "drop n s = dropWhile sig_char ?v"
    unfolding n drop_takeWhile [symmetric] by (simp add: add.commute)
  ultimately show "0 < n \<and> n \<le> length s \<and> sig_char (hd s) \<and> (drop n s = [] \<or> \<not> sig_char (hd (drop n s)))"
    using n alnum_chars [OF a] dropWhile_stops [of sig_char ?v] by (simp del: dropWhile_eq_Nil_conv)
  show "is_alnum (hd s)" by (rule a)
qed

lemma drop_back: "drop (length (rev (dropWhile P (rev w)))) w = [] \<or> P (hd (drop (length (rev (dropWhile P (rev w)))) w))"
proof -
  have "w = rev (dropWhile P (rev w)) @ rev (takeWhile P (rev w))"
    by (metis rev_append rev_rev_ident takeWhile_dropWhile_id)
  then have "drop (length (rev (dropWhile P (rev w)))) w = rev (takeWhile P (rev w))"
    by (metis append_eq_conv_conj)
  then show ?thesis by (metis hd_in_set set_rev set_takeWhileD)
qed

lemma auth_some:
  assumes "auth_match prev s = Some n"
  shows "0 < n \<and> n \<le> length s \<and> \<not> newline (hd s) \<and> (drop n s = [] \<or> newline (hd (drop n s)))"
    and "is_alnum (hd s)"
proof -
  let ?r = "drop 14 s" and ?v = "dropWhile header_space (drop 14 s)"
  let ?ws = "takeWhile header_space ?r"
  have l: "lower (take 14 s) = ''authorization:''" using assms by (auto simp: auth_match_def split: if_splits)
  have a: "is_alnum (hd s)" using lower_take_head [of 13 s] l to_lower_alnum by (force simp: is_alnum_def)
  have len: "14 \<le> length s" using lower_take_length [OF l] by simp
  have sum: "length ?r = length ?ws + length ?v" by (metis length_append takeWhile_dropWhile_id)
  have "0 < n \<and> n \<le> length s \<and> (drop n s = [] \<or> newline (hd (drop n s)))"
  proof (cases "?v = []")
    case False
    then have n: "n = 14 + length ?ws + length (takeWhile (\<lambda>c. \<not> newline c) ?v)"
      using assms l by (simp add: auth_match_def Let_def)
    have "drop n s = dropWhile (\<lambda>c. \<not> newline c) ?v"
      unfolding n drop_takeWhile [symmetric] by (simp add: add.commute add.left_commute)
    moreover have "length (takeWhile (\<lambda>c. \<not> newline c) ?v) \<le> length ?v" by (rule length_takeWhile_le)
    ultimately show ?thesis using n sum len dropWhile_stops [of "\<lambda>c. \<not> newline c" ?v] by simp
  next
    case True
    then have w: "?ws = ?r" by (metis append_Nil2 takeWhile_dropWhile_id)
    have n: "n = 14 + length (rev (dropWhile newline (rev ?r)))"
      using assms l True unfolding auth_match_def Let_def w by (auto split: if_splits)
    have "drop n s = drop (length (rev (dropWhile newline (rev ?r)))) ?r" unfolding n by (simp add: add.commute)
    moreover have "length (dropWhile newline (rev ?r)) \<le> length ?r" using length_dropWhile_le [of newline "rev ?r"] by simp
    ultimately show ?thesis using n len drop_back [of newline ?r] by simp
  qed
  with a alnum_chars show "0 < n \<and> n \<le> length s \<and> \<not> newline (hd s) \<and> (drop n s = [] \<or> newline (hd (drop n s)))" by blast
  show "is_alnum (hd s)" by (rule a)
qed

interpretation bearer: scrub_pass bearer_match "''Bearer <redacted>''" "\<lambda>c. \<not> bearer_char c"
  by unfold_locales (use bearer_some in blast, simp)

interpretation sig: scrub_pass sig_match "''X-Amz-Signature=<redacted>''" "\<lambda>c. \<not> sig_char c"
  by unfold_locales (use sig_some in blast, simp)

interpretation auth: scrub_pass auth_match "''Authorization: <redacted>''" newline
  by unfold_locales (use auth_some in blast, simp)

definition bearer_shown :: "string \<Rightarrow> bool" where
  "bearer_shown = lead ''bearer'' True header_space bearer_char"

definition sig_shown :: "string \<Rightarrow> bool" where
  "sig_shown = lead ''x-amz-signature='' False (\<lambda>_. False) sig_char"

definition auth_shown :: "string \<Rightarrow> bool" where
  "auth_shown = lead ''authorization:'' False newline (\<lambda>c. \<not> newline c)"

text \<open>What takes the place of the header: up to the end of its line.\<close>

definition auth_placeholder :: "string \<Rightarrow> bool" where
  "auth_placeholder x \<longleftrightarrow> starts_with ''Authorization: <redacted>'' x \<and> (drop 25 x = [] \<or> newline (hd (drop 25 x)))"

lemma pattern_lengths: "length ''bearer'' = 6" "length ''x-amz-signature='' = 16" "length ''authorization:'' = 14"
  by simp_all

lemma bearer_match_shown: "bearer_match p x = None \<longleftrightarrow> \<not> (at_boundary p \<and> bearer_shown x)"
  unfolding bearer_match_def bearer_shown_def lead_def Let_def pattern_lengths
  by (cases "drop 6 x"; cases "dropWhile header_space (drop 6 x)") auto

lemma sig_match_shown: "sig_match p x = None \<longleftrightarrow> \<not> sig_shown x"
  unfolding sig_match_def sig_shown_def lead_def Let_def pattern_lengths by (cases "drop 16 x") auto

lemma newline_space: "newline c \<Longrightarrow> header_space c"
  by (auto simp: newline_def header_space_def is_space_def)

lemma auth_match_shown: "auth_match p x = None \<longleftrightarrow> \<not> auth_shown x"
proof -
  let ?r = "drop 14 x"
  have *: "dropWhile newline ?r = [] \<longleftrightarrow>
      dropWhile header_space ?r = [] \<and> rev (dropWhile newline (rev (takeWhile header_space ?r))) = []"
  proof (cases "dropWhile header_space ?r = []")
    case True
    then have "takeWhile header_space ?r = ?r" by (metis append_Nil2 takeWhile_dropWhile_id)
    then show ?thesis unfolding \<open>takeWhile header_space ?r = ?r\<close> using True by auto
  qed (use newline_space in auto)
  have "dropWhile newline ?r \<noteq> [] \<longrightarrow> \<not> newline (hd (dropWhile newline ?r))" using hd_dropWhile by blast
  with * show ?thesis unfolding auth_match_def auth_shown_def lead_def Let_def pattern_lengths
    by (auto simp del: dropWhile_eq_Nil_conv)
qed

lemmas scrub_eval = lead_def lower_def to_lower_def starts_with_def bearer_char_def sig_char_def header_space_def
  is_space_def newline_def is_alnum_def char_of_def bit_0 Let_def

interpretation bearer_bearer: scrub_target bearer_match "''Bearer <redacted>''" "\<lambda>c. \<not> bearer_char c"
    "''bearer''" True header_space bearer_char at_boundary "\<lambda>_. False"
proof unfold_locales
  show "bearer_match prev q = Some n \<Longrightarrow> bearer_char (hd q) \<and> \<not> header_space (hd q)" for prev q n
    using bearer_some alnum_chars by blast
  show "\<not> bearer_char c \<Longrightarrow> to_lower c \<noteq> hd ''bearer''" for c
    using to_lower_alnum [of c "CHR ''b''"] alnum_chars by (auto simp: is_alnum_def)
  show "t = [] \<or> \<not> bearer_char (hd t) \<Longrightarrow> lead ''bearer'' True header_space bearer_char (''Bearer <redacted>'' @ t) \<Longrightarrow> False" for t
    by (simp add: scrub_eval)
qed (simp_all add: scrub_eval)

interpretation sig_bearer: scrub_target sig_match "''X-Amz-Signature=<redacted>''" "\<lambda>c. \<not> sig_char c"
    "''bearer''" True header_space bearer_char at_boundary "\<lambda>_. False"
proof unfold_locales
  show "sig_match prev q = Some n \<Longrightarrow> bearer_char (hd q) \<and> \<not> header_space (hd q)" for prev q n
    using sig_some alnum_chars by blast
  show "\<not> sig_char c \<Longrightarrow> to_lower c \<noteq> hd ''bearer''" for c
    using to_lower_alnum [of c "CHR ''b''"] alnum_chars by (auto simp: is_alnum_def)
qed (simp_all add: scrub_eval)

interpretation auth_bearer: scrub_target auth_match "''Authorization: <redacted>''" newline
    "''bearer''" True header_space bearer_char at_boundary "\<lambda>_. False"
proof unfold_locales
  show "auth_match prev q = Some n \<Longrightarrow> bearer_char (hd q) \<and> \<not> header_space (hd q)" for prev q n
    using auth_some alnum_chars by blast
  show "newline c \<Longrightarrow> to_lower c \<noteq> hd ''bearer''" for c
    using to_lower_alnum [of c "CHR ''b''"] alnum_chars by (auto simp: is_alnum_def)
qed (simp_all add: scrub_eval)

interpretation sig_sig: scrub_target sig_match "''X-Amz-Signature=<redacted>''" "\<lambda>c. \<not> sig_char c"
    "''x-amz-signature=''" False "\<lambda>_. False" sig_char "\<lambda>_. True" "\<lambda>_. False"
proof unfold_locales
  show "sig_match prev q = Some n \<Longrightarrow> sig_char (hd q) \<and> \<not> False" for prev q n
    using sig_some alnum_chars by blast
  show "\<not> sig_char c \<Longrightarrow> to_lower c \<noteq> hd ''x-amz-signature=''" for c
    using to_lower_alnum [of c "CHR ''x''"] alnum_chars by (auto simp: is_alnum_def)
qed (simp_all add: scrub_eval)

interpretation auth_sig: scrub_target auth_match "''Authorization: <redacted>''" newline
    "''x-amz-signature=''" False "\<lambda>_. False" sig_char "\<lambda>_. True" "\<lambda>_. False"
proof unfold_locales
  show "auth_match prev q = Some n \<Longrightarrow> sig_char (hd q) \<and> \<not> False" for prev q n
    using auth_some alnum_chars by blast
  show "newline c \<Longrightarrow> to_lower c \<noteq> hd ''x-amz-signature=''" for c
    using to_lower_alnum [of c "CHR ''x''"] alnum_chars by (auto simp: is_alnum_def)
qed (simp_all add: scrub_eval)

interpretation auth_auth: scrub_target auth_match "''Authorization: <redacted>''" newline
    "''authorization:''" False newline "\<lambda>c. \<not> newline c" "\<lambda>_. True" auth_placeholder
proof unfold_locales
  show "auth_match prev q = Some n \<Longrightarrow> \<not> newline (hd q) \<and> \<not> newline (hd q)" for prev q n
    using auth_some alnum_chars by blast
  show "newline c \<Longrightarrow> to_lower c \<noteq> hd ''authorization:''" for c
    using to_lower_alnum [of c "CHR ''a''"] alnum_chars by (auto simp: is_alnum_def)
  show "t = [] \<or> newline (hd t) \<Longrightarrow> lead ''authorization:'' False newline (\<lambda>c. \<not> newline c) (''Authorization: <redacted>'' @ t) \<Longrightarrow>
      auth_placeholder (''Authorization: <redacted>'' @ t)" for t
    by (simp add: auth_placeholder_def starts_with_def)
qed (simp_all add: scrub_eval)

lemma scrub_shows:
  "everywhere (\<lambda>prev x. bearer_match prev x = None \<and> sig_match prev x = None \<and>
     (auth_match prev x = None \<or> auth_placeholder x)) None (scrub_string s)"
proof -
  let ?a = "sub_pattern bearer_match ''Bearer <redacted>'' None s"
  let ?b = "sub_pattern sig_match ''X-Amz-Signature=<redacted>'' None ?a"
  let ?c = "sub_pattern auth_match ''Authorization: <redacted>'' None ?b"
  note bearer = bearer_match_shown bearer_shown_def and sig = sig_match_shown sig_shown_def
    and auth = auth_match_shown auth_shown_def
  have b1: "everywhere (\<lambda>p x. bearer_match p x = None) None ?a"
    by (rule everywhere_mono [OF bearer_bearer.result_shows]) (auto intro!: everywhere_True simp: bearer)
  have b2: "everywhere (\<lambda>p x. bearer_match p x = None) None ?b"
    by (rule everywhere_mono [OF sig_bearer.result_shows [OF everywhere_mono [OF b1]]]) (auto simp: bearer)
  have b3: "everywhere (\<lambda>p x. bearer_match p x = None) None ?c"
    by (rule everywhere_mono [OF auth_bearer.result_shows [OF everywhere_mono [OF b2]]]) (auto simp: bearer)
  have s2: "everywhere (\<lambda>p x. sig_match p x = None) None ?b"
    by (rule everywhere_mono [OF sig_sig.result_shows]) (auto intro!: everywhere_True simp: sig)
  have s3: "everywhere (\<lambda>p x. sig_match p x = None) None ?c"
    by (rule everywhere_mono [OF auth_sig.result_shows [OF everywhere_mono [OF s2]]]) (auto simp: sig)
  have a3: "everywhere (\<lambda>p x. auth_match p x = None \<or> auth_placeholder x) None ?c"
    by (rule everywhere_mono [OF auth_auth.result_shows]) (auto intro!: everywhere_True simp: auth)
  have "scrub_string s = ?c" by (simp add: scrub_string_def scrub_patterns_def)
  then show ?thesis using everywhere_and [OF b3 everywhere_and [OF s3 a3]] by simp
qed

section \<open>What a record shows\<close>

text \<open>The dictionaries of a value that are reached through dictionaries and lists.\<close>

fun dicts_of :: "logval \<Rightarrow> (string \<times> logval) list list" where
  "dicts_of (LDict d) = d # concat (map (\<lambda>(k, v). dicts_of v) d)"
| "dicts_of (LList xs) = concat (map dicts_of xs)"
| "dicts_of v = []"

definition entry_redacted :: "bool \<Rightarrow> string \<times> logval \<Rightarrow> bool" where
  "entry_redacted reveal e \<longleftrightarrow> fst e \<notin> set drop_keys \<and>
     (fst e \<in> set redactable_keys \<longrightarrow> reveal \<or> snd e = LText ''<redacted>'')"

definition text_scrubbed :: "logval option \<Rightarrow> bool" where
  "text_scrubbed v = (case v of Some (LText s) \<Rightarrow>
     everywhere (\<lambda>prev x. bearer_match prev x = None \<and> sig_match prev x = None \<and>
       (auth_match prev x = None \<or> auth_placeholder x)) None s | _ \<Rightarrow> True)"

lemma walk_redacts: "d \<in> set (dicts_of (walk_and_redact reveal v)) \<Longrightarrow> e \<in> set d \<Longrightarrow> entry_redacted reveal e"
proof (induction reveal v rule: walk_and_redact.induct)
  case (1 reveal d')
  from 1(2) consider "d = map (\<lambda>(k, v). (k, if k \<in> set redactable_keys \<and> \<not> reveal then LText ''<redacted>'' else walk_and_redact reveal v))
        (filter (\<lambda>(k, v). k \<notin> set drop_keys) d')"
    | k v where "(k, v) \<in> set d'" "k \<notin> set drop_keys" "d \<in> set (dicts_of (walk_and_redact reveal v))"
      "\<not> (k \<in> set redactable_keys \<and> \<not> reveal)"
    by (auto split: if_splits)
  then show ?case
  proof cases
    case 1
    with \<open>e \<in> set d\<close> show ?thesis by (cases reveal) (auto simp: entry_redacted_def)
  next
    case 2
    then show ?thesis using "1.IH" [of "(k, v)" k v] "1.prems"(2) by simp
  qed
qed auto

lemma entry_of_update: "e \<in> set (AList.update k v d) \<Longrightarrow> e \<in> set d \<or> e = (k, v)"
  by (induction d) (auto split: if_splits)

lemma walk_keys: "map fst (map (\<lambda>(k, v). (k, f k v)) (filter (\<lambda>(k, v). P k) d)) = filter P (map fst d)"
  by (induction d) auto

lemma scrub_field_entries: "e \<in> set (scrub_field k d) \<Longrightarrow> e \<in> set d \<or> fst e = k \<and> (\<exists>s. snd e = LText s)"
  unfolding scrub_field_def by (auto split: option.splits logval.splits dest!: entry_of_update)

lemma scrub_field_dicts: "set (dicts_of (LDict (scrub_field k d))) \<subseteq> insert (scrub_field k d) (set (dicts_of (LDict d)))"
  by (fastforce dest: scrub_field_entries)

lemma scrub_field_all:
  assumes P: "\<And>c x. c \<in> set (dicts_of (LDict d)) \<Longrightarrow> x \<in> set c \<Longrightarrow> P x" "\<And>s. P (k, LText s)"
    and c: "c \<in> set (dicts_of (LDict (scrub_field k d)))" "x \<in> set c"
  shows "P x"
proof (cases "c = scrub_field k d")
  case True
  then consider "x \<in> set d" | s where "x = (k, LText s)" using scrub_field_entries [of x k d] c(2) by (cases x) auto
  then show ?thesis
  proof cases
    case 1
    moreover have "d \<in> set (dicts_of (LDict d))" by simp
    ultimately show ?thesis by (rule P(1) [rotated])
  qed (simp add: P(2))
next
  case False
  then have "c \<in> set (dicts_of (LDict d))" using scrub_field_dicts [of k d] c(1) by blast
  then show ?thesis using c(2) by (rule P(1))
qed

lemma scrub_field_map_of:
  "map_of (scrub_field k d) k' = (if k' = k then map_option (\<lambda>v. case v of LText s \<Rightarrow> LText (scrub_string s) | _ \<Rightarrow> v) (map_of d k) else map_of d k')"
  by (auto simp: scrub_field_def update_conv' split: option.split logval.split)

lemma scrub_field_keys: "map fst (scrub_field k d) = map fst d"
  by (auto simp: scrub_field_def update_keys split: option.split logval.split dest: map_of_SomeD)
     (metis map_of_SomeD fst_conv image_eqI)

text \<open>
  C22: No record is written with a secret in a place the redaction knows. Whatever a call logs, no
  dictionary that is reached through dictionaries and lists has one of the keys to drop, and
  prompts are readable only in a debug call with LOG_PROMPTS set; the other keys are kept, in
  their order. When \<open>event\<close> and \<open>exception\<close> are texts, no position of them shows a bearer token or
  a presigned signature, even after the later passes have rewritten the text, and an
  authorization header is followed by the placeholder and the end of its line.
\<close>

theorem log_records_redacted:
  "let reveal = (log_prompts \<and> lower method_name = ''debug''); out = redact_sensitive log_prompts method_name d in
     list_all (list_all (entry_redacted reveal)) (dicts_of (LDict out)) \<and>
     text_scrubbed (map_of out ''event'') \<and> text_scrubbed (map_of out ''exception'') \<and>
     map fst out = filter (\<lambda>k. k \<notin> set drop_keys) (map fst d)"
proof -
  let ?reveal = "log_prompts \<and> lower method_name = ''debug''"
  obtain w where w: "walk_and_redact ?reveal (LDict d) = LDict w" by simp
  let ?e = "scrub_field ''event'' w"
  have out: "redact_sensitive log_prompts method_name d = scrub_field ''exception'' ?e"
    by (simp add: redact_sensitive_def w del: walk_and_redact.simps)
  have "entry_redacted ?reveal x" if "c \<in> set (dicts_of (LDict w))" "x \<in> set c" for c x
    using walk_redacts that w by metis
  moreover have "entry_redacted ?reveal (''event'', LText s)" "entry_redacted ?reveal (''exception'', LText s)" for s
    by (auto simp: entry_redacted_def drop_keys_def redactable_keys_def)
  ultimately have "entry_redacted ?reveal x" if "c \<in> set (dicts_of (LDict (scrub_field ''exception'' ?e)))" "x \<in> set c" for c x
    using that by (elim scrub_field_all [rotated 2]) blast+
  moreover have "text_scrubbed (map_of (scrub_field ''exception'' ?e) f)" if "f = ''event'' \<or> f = ''exception''" for f
    using that scrub_shows by (auto simp: text_scrubbed_def scrub_field_map_of split: option.split logval.split)
  moreover have "map fst w = filter (\<lambda>k. k \<notin> set drop_keys) (map fst d)"
    using w by (auto simp only: walk_and_redact.simps logval.inject walk_keys)
  ultimately show ?thesis unfolding Let_def out list_all_iff by (simp add: scrub_field_keys del: dicts_of.simps)
qed

text \<open>A tuple is left as it is, and a token that follows another one on the line stays readable.\<close>

lemma tuples_not_walked: "walk_and_redact reveal (LTuple xs) = LTuple xs"
  by simp

lemma second_token_survives: "scrub_string ''Bearer Bearer abc'' = ''Bearer <redacted> abc''"
  by code_simp

section \<open>The request id\<close>

lemma inbound_id_kept: "inbound_id headers = Some s \<Longrightarrow> s \<noteq> [] \<Longrightarrow> request_id_ok s \<Longrightarrow> pick_request_id (inbound_id headers) u = s"
  by (simp add: pick_request_id_def)

lemma send_all_append: "send_all rid (ms @ [m]) st = (let (out, st) = send_all rid ms st; (m', st) = send_wrapper rid m st in (out @ [m'], st))"
  by (induction ms arbitrary: st) (auto simp: Let_def split: prod.split)

text \<open>
  Every answer that passes the middleware has exactly one request id, the other headers in their
  order, and the status recorded is that of the last answer, or 500.
\<close>

lemma request_id_once:
  assumes "request_context headers u sent = (out, status)" "ResponseStart st hs \<in> set out"
  shows "filter (\<lambda>(k, v). lower k = id_header) hs = [(id_header, pick_request_id (inbound_id headers) u)] \<and>
    (\<exists>hs'. ResponseStart st hs' \<in> set sent \<and>
      filter (\<lambda>(k, v). lower k \<noteq> id_header) hs = filter (\<lambda>(k, v). lower k \<noteq> id_header) hs')"
proof -
  have i: "lower id_header = id_header" by code_simp
  have "send_all rid ms s0 = (out, s1) \<Longrightarrow> ResponseStart st hs \<in> set out \<Longrightarrow>
      \<exists>hs'. ResponseStart st hs' \<in> set ms \<and> hs = filter (\<lambda>(k, v). lower k \<noteq> id_header) hs' @ [(id_header, rid)]"
    for rid ms s0 s1 out
  proof (induction ms arbitrary: s0 out)
    case (Cons m ms)
    obtain m' s' where m': "send_wrapper rid m s0 = (m', s')" by fastforce
    obtain out' where o': "send_all rid ms s' = (out', s1)" "out = m' # out'"
      using Cons.prems(1) by (auto simp: m' split: prod.splits)
    show ?case
    proof (cases "ResponseStart st hs \<in> set out'")
      case True
      then show ?thesis using Cons.IH [OF o'(1)] by auto
    next
      case False
      then have "m' = ResponseStart st hs" using Cons.prems(2) o'(2) by auto
      with m' show ?thesis by (cases m) auto
    qed
  qed simp
  from this [OF assms [unfolded request_context_def]] show ?thesis
    using i by (fastforce simp: filter_empty_conv)
qed

lemma recorded_status:
  "snd (request_context headers u (sent @ [ResponseStart st hs])) = st"
  "snd (request_context headers u (sent @ [ResponseBody b])) = snd (request_context headers u sent)"
  "snd (request_context headers u []) = 500"
  by (simp_all add: request_context_def send_all_append split: prod.split)

end
