(* ===== verification/Migrations.thy ===== *)
theory Migrations
  imports Prelude "HOL-Library.Char_ord" "HOL-Library.List_Lexorder" "HOL-Library.Multiset"
begin

text \<open>
  \<open>app/queue/store.py\<close>: the connection of the job store, its write transactions and the runner
  of the migration scripts. What a script does to the schema is a parameter: \<open>exec sql d\<close> says
  whether SQLite runs it to the end, and the schema \<open>d\<close> afterwards; \<open>executescript\<close> commits as it
  goes, so a script that fails may have changed the schema.
\<close>

section \<open>The migration runner\<close>

text \<open>\<open>RuntimeError\<close>, an error of SQLite, and a file that cannot be read as text.\<close>

datatype migration_error = BadFilename string | DuplicatePrefix | SqlError string | Unreadable string

text \<open>The schema, and the rows of \<open>schema_version\<close> once that table exists.\<close>

record 'd migration_db =
  md_schema :: 'd
  md_versions :: "string list option"

definition has_sql_suffix :: "string \<Rightarrow> bool" where
  "has_sql_suffix name \<longleftrightarrow> ends_with ''.sql'' name \<and> 4 < length name"

definition migration_filename :: "string \<Rightarrow> bool" where
  "migration_filename name =
     (let stem = drop 4 name; body = take (length stem - 4) stem in
      list_all is_digit (take 3 name) \<and> 8 < length name \<and> name ! 3 = CHR ''_'' \<and> ends_with ''.sql'' name \<and>
      list_all (\<lambda>c. is_digit c \<or> c = CHR ''_'' \<or> c = CHR ''-'' \<or> is_alnum c \<and> to_lower c = c) body)"

text \<open>Files are names with their texts, \<open>None\<close> if a text cannot be decoded.\<close>

type_synonym sql_files = "(string \<times> string option) list"

definition migration_files :: "sql_files \<Rightarrow> sql_files" where
  "migration_files listing = sort_key fst (filter (\<lambda>(name, _). has_sql_suffix name) listing)"

definition versions :: "'d migration_db \<Rightarrow> string list" where
  "versions db = (case md_versions db of None \<Rightarrow> [] | Some vs \<Rightarrow> vs)"

text \<open>\<open>CREATE TABLE IF NOT EXISTS schema_version\<close>.\<close>

definition ensure_versions :: "'d migration_db \<Rightarrow> 'd migration_db" where
  "ensure_versions db = db\<lparr>md_versions := Some (versions db)\<rparr>"

fun apply_files :: "(string \<Rightarrow> 'd \<Rightarrow> bool \<times> 'd) \<Rightarrow> string set \<Rightarrow> sql_files \<Rightarrow> string list \<Rightarrow> 'd migration_db \<Rightarrow>
    (migration_error + string list) \<times> 'd migration_db" where
  "apply_files exec applied_already [] applied_now db = (Inr applied_now, db)"
| "apply_files exec applied_already ((name, text) # fs) applied_now db =
     (if name \<in> applied_already then apply_files exec applied_already fs applied_now db
      else case text of
        None \<Rightarrow> (Inl (Unreadable name), db)
      | Some sql \<Rightarrow>
          (let (ok, d) = exec sql (md_schema db) in
           if \<not> ok \<or> name \<in> set (versions db) then (Inl (SqlError name), db\<lparr>md_schema := d\<rparr>)
           else apply_files exec applied_already fs (applied_now @ [name])
             \<lparr>md_schema = d, md_versions = Some (versions db @ [name])\<rparr>))"

definition check_files :: "sql_files \<Rightarrow> migration_error + unit" where
  "check_files files =
     bind_r (case find (\<lambda>(name, _). \<not> migration_filename name) files of
               None \<Rightarrow> Inr () | Some (name, _) \<Rightarrow> Inl (BadFilename name)) (\<lambda>_.
     check (distinct (map (\<lambda>(name, _). nat_of_digits (take 3 name)) files)) DuplicatePrefix)"

definition apply_migrations :: "(string \<Rightarrow> 'd \<Rightarrow> bool \<times> 'd) \<Rightarrow> sql_files option \<Rightarrow> 'd migration_db \<Rightarrow>
    (migration_error + string list) \<times> 'd migration_db" where
  "apply_migrations exec listing db =
     (let db = ensure_versions db in
      case listing of
        None \<Rightarrow> (Inr [], db)
      | Some listing \<Rightarrow>
          (let files = migration_files listing in
           case check_files files of
             Inl e \<Rightarrow> (Inl e, db)
           | Inr _ \<Rightarrow> apply_files exec (set (versions db)) files [] db))"

section \<open>The connection\<close>

text \<open>
  \<open>write()\<close>: the body works on the data; what it wrote is kept when it returns and rolled back when it
  raises. Without a connection it is not entered. The lock makes the transaction one step.
\<close>

datatype 'e write_error = NotConnected | BodyRaised 'e

definition write_txn :: "('d \<Rightarrow> ('e + 'a) \<times> 'd) \<Rightarrow> bool \<Rightarrow> 'd \<Rightarrow> ('e write_error + 'a) \<times> 'd" where
  "write_txn body has_conn d =
     (if \<not> has_conn then (Inl NotConnected, d)
      else case body d of (Inl e, _) \<Rightarrow> (Inl (BodyRaised e), d) | (Inr x, d') \<Rightarrow> (Inr x, d'))"

text \<open>\<open>answer\<close>: the row that \<open>SELECT 1\<close> gives, \<open>Inl\<close> an error of SQLite.\<close>

definition healthcheck :: "bool \<Rightarrow> unit + int option \<Rightarrow> bool" where
  "healthcheck has_conn answer = (has_conn \<and> answer = Inr (Some 1))"

section \<open>What a run does\<close>

lemma failed_write_rolls_back: "write_txn body has_conn d = (Inl e, d') \<Longrightarrow> d' = d"
  by (auto simp: write_txn_def split: if_splits prod.splits sum.splits)

text \<open>The schema after a list of scripts, if all of them succeed.\<close>

fun run_scripts :: "(string \<Rightarrow> 'd \<Rightarrow> bool \<times> 'd) \<Rightarrow> string list \<Rightarrow> 'd \<Rightarrow> 'd option" where
  "run_scripts exec [] d = Some d"
| "run_scripts exec (sql # rest) d = (let (ok, d) = exec sql d in if ok then run_scripts exec rest d else None)"

lemma run_scripts_append: "run_scripts exec (a @ b) d = (case run_scripts exec a d of None \<Rightarrow> None | Some d \<Rightarrow> run_scripts exec b d)"
  by (induction a arbitrary: d) (auto simp: Let_def split: prod.split)

definition pending :: "string set \<Rightarrow> sql_files \<Rightarrow> sql_files" where
  "pending applied files = filter (\<lambda>(name, _). name \<notin> applied) files"

definition stops_after :: "(string \<Rightarrow> 'd \<Rightarrow> bool \<times> 'd) \<Rightarrow> string list \<Rightarrow> 'd migration_db \<Rightarrow> 'd migration_db \<Rightarrow>
    migration_error + string list \<Rightarrow> sql_files \<Rightarrow> sql_files \<Rightarrow> bool" where
  "stops_after exec now0 db db' r scripts rest \<longleftrightarrow> (case r of
     Inr names \<Rightarrow> rest = [] \<and> names = now0 @ map fst scripts \<and>
       run_scripts exec (map (the \<circ> snd) scripts) (md_schema db) = Some (md_schema db')
   | Inl _ \<Rightarrow> rest \<noteq> [] \<and> run_scripts exec (map (the \<circ> snd) scripts) (md_schema db) \<noteq> None)"

text \<open>
  A run of the loop applies a prefix of the pending files: all of them when it returns, else all
  before the one it stopped at.
\<close>

lemma apply_files_prefix:
  assumes "apply_files exec applied files now0 db = (r, db')" "distinct (map fst files)"
    and "set (versions db) \<inter> fst ` set (pending applied files) = {}"
  shows "\<exists>scripts rest. pending applied files = scripts @ rest \<and> versions db' = versions db @ map fst scripts \<and>
    stops_after exec now0 db db' r scripts rest"
  using assms
proof (induction exec applied files now0 db rule: apply_files.induct)
  case (1 exec applied now0 db)
  then show ?case by (auto simp: pending_def stops_after_def)
next
  case (2 exec applied name contents fs now0 db)
  show ?case
  proof (cases "name \<in> applied")
    case True
    with 2 show ?thesis by (simp add: pending_def)
  next
    case False
    then have p: "pending applied ((name, contents) # fs) = (name, contents) # pending applied fs" by (simp add: pending_def)
    then have fresh: "name \<notin> set (versions db)" using "2.prems"(3) by auto
    show ?thesis
    proof (cases contents)
      case None
      with False "2.prems" p show ?thesis by (intro exI [of _ "[]"] exI [of _ "pending applied ((name, contents) # fs)"]) (auto simp: stops_after_def)
    next
      case (Some sql)
      obtain ok d where e: "exec sql (md_schema db) = (ok, d)" by fastforce
      show ?thesis
      proof (cases ok)
        case False
        with \<open>name \<notin> applied\<close> Some "2.prems" e p show ?thesis
          by (intro exI [of _ "[]"] exI [of _ "pending applied ((name, contents) # fs)"]) (auto simp: versions_def stops_after_def)
      next
        case True
        let ?db = "\<lparr>md_schema = d, md_versions = Some (versions db @ [name])\<rparr>"
        have v: "versions ?db = versions db @ [name]" by (simp add: versions_def)
        have "apply_files exec applied fs (now0 @ [name]) ?db = (r, db')"
          using "2.prems"(1) \<open>name \<notin> applied\<close> Some e True fresh by simp
        moreover have "set (versions ?db) \<inter> fst ` set (pending applied fs) = {}"
          using "2.prems"(2,3) p by (auto simp: v pending_def)
        ultimately obtain ds rest where IH: "pending applied fs = ds @ rest" "versions db' = versions ?db @ map fst ds"
          "stops_after exec (now0 @ [name]) ?db db' r ds rest"
          using "2.IH"(2) [OF \<open>name \<notin> applied\<close> Some e [symmetric] refl] "2.prems"(2) True fresh by auto
        show ?thesis
          using IH e True Some v p
          by (intro exI [of _ "(name, contents) # ds"] exI [of _ rest]) (cases r; simp add: stops_after_def)
      qed
    qed
  qed
qed

lemma apply_files_none: "pending applied files = [] \<Longrightarrow> apply_files exec applied files now0 db = (Inr now0, db)"
  by (induction exec applied files now0 db rule: apply_files.induct) (auto simp: pending_def split: if_splits)

subsection \<open>The order of the scripts\<close>

lemma three_chars: "3 \<le> length a \<Longrightarrow> \<exists>x y z r. a = x # y # z # r"
  by (cases a; cases "tl a"; cases "tl (tl a)") auto

lemma prefix_number_mono:
  assumes "(a::string) \<le> b" "3 \<le> length a" "3 \<le> length b"
    and "list_all is_digit (take 3 a)" "list_all is_digit (take 3 b)"
  shows "nat_of_digits (take 3 a) \<le> nat_of_digits (take 3 b)"
proof -
  obtain x y z r x' y' z' r' where "a = x # y # z # r" "b = x' # y' # z' # r'" using three_chars assms(2,3) by metis
  with assms show ?thesis
    by (auto simp: Cons_le_Cons nat_of_digits_def digit_val_def is_digit_def Let_def less_char_def numeral_3_eq_3)
qed

lemma migration_name: "migration_filename n \<Longrightarrow> 3 \<le> length n \<and> list_all is_digit (take 3 n)"
  by (auto simp: migration_filename_def Let_def)

lemma files_ascending:
  assumes "check_files fs = Inr ()" "sorted (map fst fs)"
  shows "sorted_wrt (<) (map (\<lambda>f. nat_of_digits (take 3 (fst f))) fs)"
proof -
  have ok: "migration_filename (fst f)" if "f \<in> set fs" for f
    using assms(1) that by (cases f) (auto simp: check_files_def bind_r_def find_None_iff split: option.splits)
  have "distinct (map (\<lambda>f. nat_of_digits (take 3 (fst f))) fs)"
    using assms(1) by (auto simp: check_files_def bind_r_def check_def case_prod_beta' split: option.splits if_splits)
  moreover have "sorted (map (\<lambda>f. nat_of_digits (take 3 (fst f))) fs)"
    using assms(2) ok by (induction fs) (auto intro!: prefix_number_mono dest: migration_name)
  ultimately show ?thesis by (simp add: strict_sorted_iff)
qed

lemma distinct_keys_sort: "distinct (map f (sort_key g xs)) = distinct (map f xs)"
  by (rule mset_eq_imp_distinct_iff) simp

lemma versions_table_kept: "apply_files exec a fs n d = (r, d') \<Longrightarrow> md_versions d \<noteq> None \<Longrightarrow> md_versions d' \<noteq> None"
  by (induction exec a fs n d rule: apply_files.induct) (auto simp: Let_def split: if_splits option.splits prod.splits)

lemma pending_props:
  "sorted (map fst fs) \<Longrightarrow> sorted (map fst (pending a fs))"
  "distinct (map fst fs) \<Longrightarrow> distinct (map fst (pending a fs))"
  "sorted_wrt P (map g fs) \<Longrightarrow> sorted_wrt P (map g (pending a fs))"
  by (auto simp: pending_def sorted_wrt_map sorted_wrt_filter distinct_map_filter)

lemma pending_done: "pending (set vs) fs = scripts \<Longrightarrow> pending (set vs \<union> fst ` set scripts) fs = []"
  by (force simp: pending_def filter_empty_conv)

text \<open>
  C20: Every migration script runs once, in the order of its number, and none is recorded that did
  not run to its end. A run applies the scripts of the directory that \<open>schema_version\<close> does not
  list, in strictly ascending order of their prefixes; when it returns it has run all of them, one
  after the other from the schema it found, has recorded exactly these, and another run of the
  same directory does nothing. When it raises, the scripts it recorded are those before the one it
  stopped at, and all of them succeeded.
\<close>

theorem migrations_run_once:
  assumes "distinct (map fst listing)" "apply_migrations exec (Some listing) db = (r, db')"
  shows "\<exists>scripts rest. (r = Inl DuplicatePrefix \<or> (\<exists>n. r = Inl (BadFilename n)) \<or>
        pending (set (versions db)) (migration_files listing) = scripts @ rest) \<and>
    versions db' = versions db @ map fst scripts \<and>
    sorted_wrt (<) (map (\<lambda>f. nat_of_digits (take 3 (fst f))) scripts) \<and>
    (case r of
       Inl _ \<Rightarrow> run_scripts exec (map (the \<circ> snd) scripts) (md_schema db) \<noteq> None
     | Inr names \<Rightarrow> rest = [] \<and> names = map fst scripts \<and>
         run_scripts exec (map (the \<circ> snd) scripts) (md_schema db) = Some (md_schema db') \<and>
         apply_migrations exec (Some listing) db' = (Inr [], db'))"
proof -
  let ?db = "ensure_versions db" and ?fs = "migration_files listing"
  have v: "versions ?db = versions db" "md_schema ?db = md_schema db" by (simp_all add: ensure_versions_def versions_def)
  have fs: "distinct (map fst ?fs)" "sorted (map fst ?fs)"
    using assms(1) by (simp_all add: migration_files_def distinct_keys_sort distinct_map_filter)
  show ?thesis
  proof (cases "check_files ?fs")
    case (Inl e)
    then have "r = Inl e" "db' = ?db" using assms(2) by (auto simp: apply_migrations_def Let_def)
    moreover have "e = DuplicatePrefix \<or> (\<exists>n. e = BadFilename n)"
      using Inl by (auto simp: check_files_def bind_r_def check_def split: option.splits if_splits)
    ultimately show ?thesis using v by (intro exI [of _ "[]"]) auto
  next
    case (Inr u)
    then have run: "apply_files exec (set (versions db)) ?fs [] ?db = (r, db')"
      using assms(2) by (simp add: apply_migrations_def Let_def v)
    have "set (versions ?db) \<inter> fst ` set (pending (set (versions db)) ?fs) = {}" by (auto simp: v pending_def)
    from apply_files_prefix [OF run fs(1) this] obtain scripts rest where p: "pending (set (versions db)) ?fs = scripts @ rest" "versions db' = versions ?db @ map fst scripts"
      and r: "stops_after exec [] ?db db' r scripts rest"
      by blast
    have "sorted_wrt (<) (map (\<lambda>f. nat_of_digits (take 3 (fst f))) (scripts @ rest))"
      unfolding p(1) [symmetric] using Inr fs(2) by (intro pending_props(3) files_ascending) simp_all
    then have "sorted_wrt (<) (map (\<lambda>f. nat_of_digits (take 3 (fst f))) scripts)" by (simp add: sorted_wrt_append)
    moreover have "apply_migrations exec (Some listing) db' = (Inr [], db')" if "rest = []" "r = Inr names" for names
    proof -
      have "pending (set (versions db')) ?fs = []"
        using that(1) p by (simp add: pending_done v)
      moreover have "md_versions db' \<noteq> None"
        using versions_table_kept [OF run] by (simp add: ensure_versions_def)
      then have "ensure_versions db' = db'" by (auto simp: ensure_versions_def versions_def)
      ultimately show ?thesis using Inr by (simp add: apply_migrations_def apply_files_none Let_def)
    qed
    ultimately show ?thesis using p r v by (intro exI [of _ scripts] exI [of _ rest]) (cases r; simp add: stops_after_def)
  qed
qed

definition demo_listing :: sql_files where
  "demo_listing = [(''002_b.sql'', Some ''B''), (''notes.txt'', None), (''001_a.sql'', Some ''A'')]"

definition demo_exec :: "string \<Rightarrow> string list \<Rightarrow> bool \<times> string list" where
  "demo_exec sql d = (True, d @ [sql])"

lemma demo_migrations:
  "apply_migrations demo_exec (Some demo_listing) \<lparr>md_schema = [], md_versions = None\<rparr> =
     (Inr [''001_a.sql'', ''002_b.sql''],
      \<lparr>md_schema = [''A'', ''B''], md_versions = Some [''001_a.sql'', ''002_b.sql'']\<rparr>)"
  "distinct (map fst demo_listing)"
  by code_simp+

theorem migrations_run_once_witness:
  "apply_migrations demo_exec (Some demo_listing)
     \<lparr>md_schema = [''A'', ''B''], md_versions = Some [''001_a.sql'', ''002_b.sql'']\<rparr> =
   (Inr [], \<lparr>md_schema = [''A'', ''B''], md_versions = Some [''001_a.sql'', ''002_b.sql'']\<rparr>)"
  using migrations_run_once [OF demo_migrations(2,1)] by auto

text \<open>
  A script and its row in \<open>schema_version\<close> are not one transaction: after a crash between them
  the script is run again, and one that cannot run twice, as \<open>ALTER TABLE ... ADD COLUMN\<close>, fails
  at every later start.
\<close>

lemma unrecorded_script_fails_again:
  assumes "exec sql d = (False, d)"
  shows "apply_migrations exec (Some [(''002_fetched_at.sql'', Some sql)]) \<lparr>md_schema = d, md_versions = Some []\<rparr> =
    (Inl (SqlError ''002_fetched_at.sql''), \<lparr>md_schema = d, md_versions = Some []\<rparr>)"
proof -
  have "migration_files [(''002_fetched_at.sql'', Some sql)] = [(''002_fetched_at.sql'', Some sql)]"
    by (simp add: migration_files_def has_sql_suffix_def ends_with_def starts_with_def)
  moreover have "migration_filename ''002_fetched_at.sql''" by code_simp
  ultimately show ?thesis
    using assms by (simp add: apply_migrations_def check_files_def check_def ensure_versions_def versions_def)
qed

end
