(* ===== verification/Startup.thy ===== *)
theory Startup
  imports Webhook Recovery Fetch_Store Gateway
begin

text \<open>
  \<open>app/startup/checks.py\<close>, \<open>app/startup/smoke_test.py\<close> and the \<open>lifespan\<close> of \<open>app/main.py\<close>: what
  must hold before the service answers, in which order its parts come up, and what is closed
  when one of them fails or the service stops. The environment, the resolver, the files, the
  backend and the clock are the \<open>boot_world\<close>.
\<close>

section \<open>The checks\<close>

text \<open>
  \<open>StartupCheckError\<close> with its stage, \<open>StartupSmokeError\<close>, \<open>PresetRegistryValidationError\<close>, and
  any other exception.
\<close>

datatype boot_exc = CheckError string | SmokeError string | PresetError string | OtherExc string

record startup_context =
  sx_imagegen_env :: string
  sx_vram_budget_gb :: rat
  sx_comfyui_url :: string
  sx_webhook_allowed_hosts :: string
  sx_webhook_allow_any_host :: bool
  sx_webhook_signing_secrets :: string

text \<open>The three paths of the context only name files; their contents are in the world.\<close>

definition env_float :: "environ \<Rightarrow> string \<Rightarrow> string \<Rightarrow> boot_exc + rat" where
  "env_float env k d = (case py_float (getenv env k d) of None \<Rightarrow> Inl (OtherExc ''ValueError'') | Some x \<Rightarrow> Inr x)"

definition env_int :: "environ \<Rightarrow> string \<Rightarrow> string \<Rightarrow> boot_exc + int" where
  "env_int env k d = (case py_int (getenv env k d) of None \<Rightarrow> Inl (OtherExc ''ValueError'') | Some x \<Rightarrow> Inr x)"

definition env_true :: "environ \<Rightarrow> string \<Rightarrow> string \<Rightarrow> bool" where
  "env_true env k d \<longleftrightarrow> lower (getenv env k d) = ''true''"

definition build_context_from_env :: "environ \<Rightarrow> boot_exc + startup_context" where
  "build_context_from_env env =
     bind_r (env_float env ''VRAM_BUDGET_GB'' ''12'') (\<lambda>budget.
     Inr \<lparr>sx_imagegen_env = lower (getenv env ''IMAGEGEN_ENV'' ''dev''), sx_vram_budget_gb = budget,
          sx_comfyui_url = getenv env ''COMFYUI_URL'' ''http://comfyui:8188'',
          sx_webhook_allowed_hosts = getenv env ''WEBHOOK_ALLOWED_HOSTS'' '''',
          sx_webhook_allow_any_host = env_true env ''WEBHOOK_ALLOW_ANY_HOST'' ''false'',
          sx_webhook_signing_secrets = getenv env ''WEBHOOK_SIGNING_SECRETS'' ''''\<rparr>)"

definition check_prod_webhook_posture :: "startup_context \<Rightarrow> boot_exc + unit" where
  "check_prod_webhook_posture ctx =
     (if sx_imagegen_env ctx \<noteq> ''prod'' then Inr ()
      else if comma_list (sx_webhook_allowed_hosts ctx) = [] then Inl (CheckError ''webhook_allowed_hosts_empty'')
      else if sx_webhook_allow_any_host ctx then Inl (CheckError ''webhook_allow_any_host_forbidden'')
      else if strip (sx_webhook_signing_secrets ctx) = [] then Inl (CheckError ''webhook_signing_secrets_empty'')
      else Inr ())"

text \<open>The loop over the resolver's answer: \<open>None\<close> stands for an address that is none.\<close>

fun check_addresses :: "ip_flags option list \<Rightarrow> boot_exc + unit" where
  "check_addresses [] = Inr ()"
| "check_addresses (None # rest) = Inl (CheckError ''comfyui_ip_invalid'')"
| "check_addresses (Some ip # rest) =
     (if ip_global ip then Inl (CheckError ''comfyui_public_ip_forbidden'') else check_addresses rest)"

text \<open>\<open>urlparse\<close> and \<open>port\<close> may raise \<open>ValueError\<close>, which is not caught here.\<close>

definition check_comfyui_endpoint_not_public :: "(string \<Rightarrow> bool) \<Rightarrow> resolver \<Rightarrow> startup_context \<Rightarrow> boot_exc + unit" where
  "check_comfyui_endpoint_not_public bracket_ok resolve ctx =
     (case urlparse bracket_ok (sx_comfyui_url ctx) of
        None \<Rightarrow> Inl (OtherExc ''ValueError'')
      | Some parsed \<Rightarrow>
          if hostname parsed = [] then Inl (CheckError ''comfyui_url_invalid'')
          else (case port parsed of
            Inl _ \<Rightarrow> Inl (OtherExc ''ValueError'')
          | Inr _ \<Rightarrow>
              (case resolve (hostname parsed) of
                 None \<Rightarrow> Inl (CheckError ''comfyui_dns_failed'')
               | Some infos \<Rightarrow>
                   if infos = [] then Inl (CheckError ''comfyui_dns_empty'') else check_addresses infos)))"

definition load_registry_checked :: "yaml_read \<Rightarrow> disk \<Rightarrow> startup_context \<Rightarrow> boot_exc + registry" where
  "load_registry_checked yaml dk ctx = (case load_registry yaml dk (sx_vram_budget_gb ctx) of
     Inl _ \<Rightarrow> Inl (CheckError ''registry_validation_failed'') | Inr reg \<Rightarrow> Inr reg)"

definition run_startup_checks ::
  "(string \<Rightarrow> bool) \<Rightarrow> resolver \<Rightarrow> yaml_read \<Rightarrow> disk \<Rightarrow> startup_context \<Rightarrow> boot_exc + registry" where
  "run_startup_checks bracket_ok resolve yaml dk ctx =
     bind_r (check_prod_webhook_posture ctx) (\<lambda>_.
     bind_r (check_comfyui_endpoint_not_public bracket_ok resolve ctx) (\<lambda>_.
     load_registry_checked yaml dk ctx))"

section \<open>The smoke test\<close>

definition build_smoke_payload :: "string \<Rightarrow> int \<Rightarrow> pydict" where
  "build_smoke_payload model_name seed =
     [(''model'', VStr model_name), (''prompt'', VStr ''startup smoke test''), (''size'', VStr ''256x256''),
      (''steps'', VInt 1), (''seed'', VInt seed), (''n'', VInt 1), (''mode'', VStr ''sync''), (''response_format'', VStr ''url'')]"

definition ensure_png_outputs :: "string list \<Rightarrow> boot_exc + unit" where
  "ensure_png_outputs outputs =
     (if outputs = [] then Inl (SmokeError ''zero outputs'')
      else if list_all (starts_with png_magic) outputs then Inr () else Inl (SmokeError ''not a PNG payload''))"

text \<open>Unlike the worker, the smoke test leaves the latent size of the template alone.\<close>

definition smoke_graph :: "validated_job \<Rightarrow> graph \<Rightarrow> workflow_error + graph" where
  "smoke_graph v g =
     bind_r (find_anchor g ''%POSITIVE_PROMPT%'') (\<lambda>pos_id.
     bind_r (find_anchor g ''%NEGATIVE_PROMPT%'') (\<lambda>neg_id.
     bind_r (find_anchor g ''%KSAMPLER%'') (\<lambda>ks_id.
     bind_r (index_patch pos_id (set_str ''text'' (vj_prompt v)) g) (\<lambda>g.
     bind_r (index_patch neg_id (set_str ''text'' (vj_negative_prompt v)) g) (\<lambda>g.
     bind_r (index_patch ks_id (image_sampler_inputs v (vj_seed v)) g) (\<lambda>g.
     bind_r (inject_model_source g (vj_model v)) (\<lambda>g.
     bind_r (inject_vpred g (vj_model v)) (\<lambda>g.
     inject_loras g (vj_loras v)))))))))"

text \<open>
  \<open>bw_wait w\<close> answers \<open>Unexpected ''TimeoutError''\<close> when \<open>asyncio.wait_for\<close> gives up first; any
  exception that is neither this nor one of the backend's leaves the test as it is.
\<close>

definition smoke_failure :: "pipe_error \<Rightarrow> boot_exc" where
  "smoke_failure e = (case e of
     ComfyUnreachable m \<Rightarrow> SmokeError m | ComfyNode m \<Rightarrow> SmokeError m | ComfyTimeout m \<Rightarrow> SmokeError m
   | StorageErr m \<Rightarrow> OtherExc m | Unexpected m \<Rightarrow> if m = ''TimeoutError'' then SmokeError ''timeout'' else OtherExc m)"

definition smoked :: "pipe_error + 'a \<Rightarrow> boot_exc + 'a" where
  "smoked r = (case r of Inl e \<Rightarrow> Inl (smoke_failure e) | Inr x \<Rightarrow> Inr x)"

definition smoke_other :: "'e + 'a \<Rightarrow> boot_exc + 'a" where
  "smoke_other r = (case r of Inl _ \<Rightarrow> Inl (OtherExc ''smoke'') | Inr x \<Rightarrow> Inr x)"

definition run_one_model_smoke :: "backend_world \<Rightarrow> registry \<Rightarrow> string \<Rightarrow> int \<Rightarrow> boot_exc + unit" where
  "run_one_model_smoke w reg model_name seed =
     (case bw_parse_image w (VDict (build_smoke_payload model_name seed)) of
        None \<Rightarrow> Inl (OtherExc ''ValidationError'')
      | Some request \<Rightarrow>
          bind_r (smoke_other (resolve_and_validate (bw_vworld w\<lparr>vw_async_enabled := False\<rparr>) reg request)) (\<lambda>v.
          bind_r (smoke_other (load_workflow (bw_read_workflow w (mc_workflow_path (vj_model v))))) (\<lambda>g.
          bind_r (smoke_other (smoke_graph v g)) (\<lambda>g.
          bind_r (smoked (bw_submit w)) (\<lambda>prompt_id.
          bind_r (smoked (bw_wait w)) (\<lambda>_.
          bind_r (smoked (bw_fetch w)) (\<lambda>outputs.
          ensure_png_outputs outputs)))))))"

definition smoke_names :: "registry \<Rightarrow> string list" where
  "smoke_names reg = filter (\<lambda>n. case registry_get reg n of None \<Rightarrow> False
     | Some cfg \<Rightarrow> \<not> truthy (dict_get (mc_capabilities cfg) ''skip_startup_smoke'')) (registry_names reg)"

text \<open>\<open>w i\<close>, \<open>clock i\<close>: the backend and the monotonic clock when the model number \<open>i\<close> has its turn.\<close>

fun smoke_loop :: "(nat \<Rightarrow> backend_world) \<Rightarrow> (nat \<Rightarrow> rat) \<Rightarrow> registry \<Rightarrow> rat \<Rightarrow> nat \<Rightarrow> string list \<Rightarrow> boot_exc + unit" where
  "smoke_loop w clock reg overall_deadline index [] = Inr ()"
| "smoke_loop w clock reg overall_deadline index (model_name # rest) =
     (if overall_deadline - clock index \<le> 0 then Inl (SmokeError ''budget exhausted'')
      else bind_r (run_one_model_smoke (w index) reg model_name (20260000 + int index))
             (\<lambda>_. smoke_loop w clock reg overall_deadline (index + 1) rest))"

definition run_registry_smoke_tests ::
  "(nat \<Rightarrow> backend_world) \<Rightarrow> (nat \<Rightarrow> rat) \<Rightarrow> registry \<Rightarrow> rat \<Rightarrow> rat \<Rightarrow> boot_exc + unit" where
  "run_registry_smoke_tests w clock reg start timeout_s =
     (let names = smoke_names reg in
      if names = [] then Inl (SmokeError ''no models eligible'')
      else smoke_loop w clock reg (start + timeout_s) 0 names)"

section \<open>Coming up and going down\<close>

text \<open>
  What the process holds: open connections and clients, running tasks, and which of them
  \<open>app.state\<close> knows (the handler of a failed start closes only those), with the tables, the
  queue and the registries that requests will see.
\<close>

record boot =
  bt_store :: bool
  bt_adapter :: bool
  bt_worker_tasks :: nat
  bt_reaper_task :: bool
  bt_webhook_http :: bool
  bt_webhook_http_known :: bool
  bt_dispatcher_task :: bool
  bt_fetcher_http :: bool
  bt_fetcher :: bool
  bt_registry :: registry
  bt_presets :: preset_registry
  bt_public_base_url :: string
  bt_max_queue :: int
  bt_jobs :: jobs
  bt_queue :: "job list"
  bt_fetches :: fetches

text \<open>
  \<open>bo_connect\<close>: the exception with which \<open>store.connect()\<close> ends, migrations included, if any;
  \<open>bo_tmp_files\<close>, \<open>bo_unlink_ok\<close>: the partial downloads below the LoRA root.
\<close>

record boot_world =
  bo_env :: environ
  bo_bracket_ok :: "string \<Rightarrow> bool"
  bo_resolve :: resolver
  bo_connect :: "boot_exc option"
  bo_models_yaml :: yaml_read
  bo_disk :: disk
  bo_presets_yaml :: yaml_read
  bo_head_bucket :: s3_answer
  bo_create_bucket :: s3_answer
  bo_buckets :: "string set"
  bo_smoke :: "nat \<Rightarrow> backend_world"
  bo_smoke_clock :: "nat \<Rightarrow> rat"
  bo_smoke_start :: rat
  bo_now :: timestamp
  bo_tmp_files :: "string list option"
  bo_unlink_ok :: "string \<Rightarrow> bool"

type_synonym boot_step = "boot \<Rightarrow> boot_exc + boot"

text \<open>\<open>except Exception\<close> of a step's operation.\<close>

definition boot_other :: "'e + 'a \<Rightarrow> boot_exc + 'a" where
  "boot_other r = (case r of Inl _ \<Rightarrow> Inl (OtherExc ''boot'') | Inr x \<Rightarrow> Inr x)"

definition connect_store :: "boot_world \<Rightarrow> boot_step" where
  "connect_store w s = (case bo_connect w of Some e \<Rightarrow> Inl e | None \<Rightarrow> Inr (s\<lparr>bt_store := True\<rparr>))"

text \<open>\<open>PresetRegistryValidationError\<close>, or an exception that the handler does not know.\<close>

definition presets_outcome :: "registry_error + preset_registry \<Rightarrow> boot_exc + preset_registry" where
  "presets_outcome r = (case r of
     Inl (RegistryValidationError st) \<Rightarrow> Inl (PresetError st) | Inl _ \<Rightarrow> Inl (OtherExc ''presets'') | Inr ps \<Rightarrow> Inr ps)"

definition load_registries :: "boot_world \<Rightarrow> startup_context \<Rightarrow> boot_step" where
  "load_registries w ctx s =
     bind_r (run_startup_checks (bo_bracket_ok w) (bo_resolve w) (bo_models_yaml w) (bo_disk w) ctx) (\<lambda>reg.
     bind_r (presets_outcome (load_preset_registry (bo_presets_yaml w) reg)) (\<lambda>ps.
     Inr (s\<lparr>bt_registry := reg, bt_presets := ps\<rparr>)))"

definition prepare_storage :: "boot_world \<Rightarrow> boot_step" where
  "prepare_storage w s =
     bind_r (boot_other (fst (ensure_bucket (s3_config_from_env (bo_env w)) (bo_head_bucket w) (bo_create_bucket w) (bo_buckets w))))
       (\<lambda>_. Inr s)"

definition create_adapter :: "boot_world \<Rightarrow> boot_step" where
  "create_adapter w s =
     bind_r (env_float (bo_env w) ''COMFY_HTTP_TIMEOUT_S'' ''30'') (\<lambda>_.
     bind_r (env_int (bo_env w) ''COMFY_POLL_INTERVAL_MS'' ''1000'') (\<lambda>_.
     Inr (s\<lparr>bt_adapter := True\<rparr>)))"

definition read_limits :: "boot_world \<Rightarrow> boot_exc + string \<times> int \<times> int" where
  "read_limits w =
     (let url = rev (dropWhile (\<lambda>c. c = CHR ''/'') (rev (getenv (bo_env w) ''IMAGE_GEN_PUBLIC_BASE_URL'' ''http://127.0.0.1:8700''))) in
      bind_r (check (starts_with ''http://'' url \<or> starts_with ''https://'' url) (OtherExc ''RuntimeError'')) (\<lambda>_.
      bind_r (env_float (bo_env w) ''JOB_TIMEOUT_S'' ''300'') (\<lambda>_.
      bind_r (env_int (bo_env w) ''MAX_QUEUE'' ''20'') (\<lambda>max_queue.
      bind_r (env_int (bo_env w) ''WORKER_CONCURRENCY'' ''1'') (\<lambda>concurrency.
      bind_r (check (1 \<le> concurrency) (OtherExc ''RuntimeError'')) (\<lambda>_.
      Inr (url, max_queue, concurrency)))))))"

text \<open>The queue worker has to run before recovery puts jobs on its queue.\<close>

definition start_workers :: "boot_world \<Rightarrow> boot_step" where
  "start_workers w s =
     bind_r (read_limits w) (\<lambda>(url, max_queue, concurrency).
     Inr (s\<lparr>bt_public_base_url := url, bt_max_queue := max_queue, bt_worker_tasks := nat concurrency\<rparr>))"

definition start_reaper :: "boot_world \<Rightarrow> boot_step" where
  "start_reaper w s =
     bind_r (env_int (bo_env w) ''ORPHAN_REAPER_TTL'' ''86400'') (\<lambda>_.
     bind_r (env_int (bo_env w) ''ORPHAN_REAPER_SCAN_INTERVAL_S'' ''600'') (\<lambda>_.
     Inr (s\<lparr>bt_reaper_task := True\<rparr>)))"

definition open_webhook_http :: boot_step where
  "open_webhook_http s = Inr (s\<lparr>bt_webhook_http := True\<rparr>)"

definition start_dispatcher :: "boot_world \<Rightarrow> boot_step" where
  "start_dispatcher w s =
     bind_r (env_int (bo_env w) ''WEBHOOK_MAX_IN_FLIGHT'' ''8'') (\<lambda>_.
     bind_r (env_float (bo_env w) ''WEBHOOK_HTTP_TIMEOUT_S'' ''10'') (\<lambda>_.
     Inr (s\<lparr>bt_webhook_http_known := True, bt_dispatcher_task := True\<rparr>)))"

definition smoke_enabled :: "boot_world \<Rightarrow> bool" where
  "smoke_enabled w \<longleftrightarrow> env_true (bo_env w) ''STARTUP_SMOKE_ENABLED'' ''true''"

definition smoke_step :: "boot_world \<Rightarrow> boot_step" where
  "smoke_step w s =
     (if smoke_enabled w then
        bind_r (env_float (bo_env w) ''STARTUP_SMOKE_TIMEOUT_S'' ''120'') (\<lambda>timeout_s.
        bind_r (run_registry_smoke_tests (bo_smoke w) (bo_smoke_clock w) (bt_registry s) (bo_smoke_start w) timeout_s) (\<lambda>_.
        Inr s))
      else Inr s)"

definition recover_jobs_step :: "boot_world \<Rightarrow> boot_step" where
  "recover_jobs_step w s =
     bind_r (boot_other (recover_jobs (bt_jobs s) (bt_queue s) (bo_now w))) (\<lambda>(t, q, _).
     Inr (s\<lparr>bt_jobs := t, bt_queue := q\<rparr>))"

definition open_fetcher_http :: boot_step where
  "open_fetcher_http s = Inr (s\<lparr>bt_fetcher_http := True\<rparr>)"

definition start_fetcher :: "boot_world \<Rightarrow> boot_step" where
  "start_fetcher w s =
     bind_r (env_float (bo_env w) ''LORA_DIR_MAX_SIZE_GB'' ''60'') (\<lambda>_.
     bind_r (env_int (bo_env w) ''LORA_MAX_SIZE_BYTES'' ''2147483648'') (\<lambda>_.
     bind_r (env_int (bo_env w) ''LORA_RECENT_USE_DAYS'' ''7'') (\<lambda>_.
     bind_r (env_int (bo_env w) ''LORA_MAX_CONCURRENT_FETCHES'' ''1'') (\<lambda>max_concurrent.
     bind_r (env_float (bo_env w) ''LORA_FETCH_METADATA_TIMEOUT_S'' ''30'') (\<lambda>_.
     bind_r (env_float (bo_env w) ''LORA_FETCH_DOWNLOAD_OVERALL_TIMEOUT_S'' ''1800'') (\<lambda>_.
     bind_r (env_float (bo_env w) ''LORA_FETCH_CHUNK_READ_TIMEOUT_S'' ''30'') (\<lambda>_.
     bind_r (check (0 \<le> max_concurrent) (OtherExc ''ValueError'')) (\<lambda>_.
     Inr (s\<lparr>bt_fetcher := True\<rparr>)))))))))"

definition recover_fetches_step :: "boot_world \<Rightarrow> boot_step" where
  "recover_fetches_step w s =
     bind_r (boot_other (recover_fetches (bt_fetches s) (bo_tmp_files w) (bo_unlink_ok w) (bo_now w))) (\<lambda>(t, _).
     Inr (s\<lparr>bt_fetches := t\<rparr>))"

definition boot_steps :: "boot_world \<Rightarrow> startup_context \<Rightarrow> boot_step list" where
  "boot_steps w ctx =
     [connect_store w, load_registries w ctx, prepare_storage w, create_adapter w, start_workers w,
      start_reaper w, open_webhook_http, start_dispatcher w, smoke_step w, recover_jobs_step w,
      open_fetcher_http, start_fetcher w, recover_fetches_step w]"

text \<open>The steps in order: what stopped them, if anything, and what is held then.\<close>

fun run_boot :: "boot_step list \<Rightarrow> boot \<Rightarrow> boot_exc option \<times> boot" where
  "run_boot [] s = (None, s)"
| "run_boot (f # fs) s = (case f s of Inl e \<Rightarrow> (Some e, s) | Inr s' \<Rightarrow> run_boot fs s')"

definition handled_exc :: "boot_exc \<Rightarrow> bool" where
  "handled_exc e = (case e of OtherExc _ \<Rightarrow> False | _ \<Rightarrow> True)"

definition cleanup_failed_start :: "boot \<Rightarrow> boot" where
  "cleanup_failed_start s = s\<lparr>bt_worker_tasks := 0, bt_reaper_task := False, bt_dispatcher_task := False,
     bt_fetcher_http := (if bt_fetcher s then False else bt_fetcher_http s), bt_fetcher := False,
     bt_webhook_http := (if bt_webhook_http_known s then False else bt_webhook_http s),
     bt_webhook_http_known := False, bt_adapter := False, bt_store := False\<rparr>"

datatype start_end = Started | StartFailed boot_exc | Crashed boot_exc

definition lifespan_start :: "boot_world \<Rightarrow> boot \<Rightarrow> start_end \<times> boot" where
  "lifespan_start w s = (case build_context_from_env (bo_env w) of
     Inl e \<Rightarrow> (Crashed e, s)
   | Inr ctx \<Rightarrow>
       (case run_boot (boot_steps w ctx) s of
          (None, s) \<Rightarrow> (Started, s)
        | (Some e, s) \<Rightarrow> if handled_exc e then (StartFailed e, cleanup_failed_start s) else (Crashed e, s)))"

text \<open>
  Shutdown: every task is cancelled and awaited in turn; \<open>cancelled_cleanly i\<close> says that the task
  number \<open>i\<close> ends with \<open>CancelledError\<close> or had ended before. Another exception leaves the block.
\<close>

fun cancel_tasks :: "(nat \<Rightarrow> bool) \<Rightarrow> nat \<Rightarrow> nat \<Rightarrow> bool" where
  "cancel_tasks cancelled_cleanly i 0 = True"
| "cancel_tasks cancelled_cleanly i (Suc n) = (cancelled_cleanly i \<and> cancel_tasks cancelled_cleanly (i + 1) n)"

definition lifespan_stop :: "(nat \<Rightarrow> bool) \<Rightarrow> boot \<Rightarrow> bool \<times> boot" where
  "lifespan_stop cancelled_cleanly s =
     (let s = s\<lparr>bt_fetcher := False\<rparr> in
      if cancel_tasks cancelled_cleanly 0 (bt_worker_tasks s + 2) then
        (True, s\<lparr>bt_worker_tasks := 0, bt_reaper_task := False, bt_dispatcher_task := False, bt_fetcher_http := False,
                 bt_webhook_http := False, bt_webhook_http_known := False, bt_adapter := False, bt_store := False\<rparr>)
      else (False, s))"

section \<open>What a started service guarantees\<close>

lemma run_boot_fails: "run_boot (f # fs) s = (Some e, s') \<longleftrightarrow>
    f s = Inl e \<and> s' = s \<or> (\<exists>s1. f s = Inr s1 \<and> run_boot fs s1 = (Some e, s'))"
  by (auto split: sum.split)

lemma run_boot_ends: "run_boot (f # fs) s = (None, s') \<longleftrightarrow> (\<exists>s1. f s = Inr s1 \<and> run_boot fs s1 = (None, s'))"
  by (auto split: sum.split)

lemma presets_outcome_Inr: "presets_outcome r = Inr ps \<longleftrightarrow> r = Inr ps"
  by (auto simp: presets_outcome_def split: sum.splits registry_error.splits)

lemma handled_simps [simp]: "handled_exc (CheckError x)" "handled_exc (SmokeError x)" "handled_exc (PresetError x)"
  "\<not> handled_exc (OtherExc x)"
  by (simp_all add: handled_exc_def)

lemma env_float_handled: "env_float env k d = Inl e \<Longrightarrow> \<not> handled_exc e"
  by (auto simp: env_float_def split: option.splits)

lemma env_int_handled: "env_int env k d = Inl e \<Longrightarrow> \<not> handled_exc e"
  by (auto simp: env_int_def split: option.splits)

lemma boot_other_handled: "boot_other r = Inl e \<Longrightarrow> \<not> handled_exc e"
  by (auto simp: boot_other_def split: sum.splits)

lemma check_other: "check b (OtherExc x) = Inl e \<Longrightarrow> \<not> handled_exc e"
  by (auto simp: check_def split: if_splits)

lemmas not_handled = env_float_handled env_int_handled boot_other_handled check_other

text \<open>Only the checks, the presets and the smoke test fail with an exception the start handles.\<close>

lemma unhandled_steps:
  "prepare_storage w s = Inl e \<Longrightarrow> \<not> handled_exc e" "create_adapter w s = Inl e \<Longrightarrow> \<not> handled_exc e"
  "start_workers w s = Inl e \<Longrightarrow> \<not> handled_exc e" "start_reaper w s = Inl e \<Longrightarrow> \<not> handled_exc e"
  "open_webhook_http s = Inl e \<Longrightarrow> \<not> handled_exc e" "start_dispatcher w s = Inl e \<Longrightarrow> \<not> handled_exc e"
  "recover_jobs_step w s = Inl e \<Longrightarrow> \<not> handled_exc e" "open_fetcher_http s = Inl e \<Longrightarrow> \<not> handled_exc e"
  "start_fetcher w s = Inl e \<Longrightarrow> \<not> handled_exc e" "recover_fetches_step w s = Inl e \<Longrightarrow> \<not> handled_exc e"
  by (auto simp: prepare_storage_def create_adapter_def start_workers_def read_limits_def start_reaper_def open_webhook_http_def
      start_dispatcher_def recover_jobs_step_def open_fetcher_http_def start_fetcher_def recover_fetches_step_def bind_r_Inl Let_def
      dest: not_handled)

text \<open>What each step changes.\<close>

lemma step_effects:
  "connect_store w s = Inr s' \<Longrightarrow> s' = s\<lparr>bt_store := True\<rparr>"
  "load_registries w ctx s = Inr s' \<Longrightarrow> \<exists>reg ps. s' = s\<lparr>bt_registry := reg, bt_presets := ps\<rparr> \<and>
     run_startup_checks (bo_bracket_ok w) (bo_resolve w) (bo_models_yaml w) (bo_disk w) ctx = Inr reg \<and>
     load_preset_registry (bo_presets_yaml w) reg = Inr ps"
  "prepare_storage w s = Inr s' \<Longrightarrow> s' = s"
  "create_adapter w s = Inr s' \<Longrightarrow> s' = s\<lparr>bt_adapter := True\<rparr>"
  "start_workers w s = Inr s' \<Longrightarrow> \<exists>url m c. s' = s\<lparr>bt_public_base_url := url, bt_max_queue := m, bt_worker_tasks := nat c\<rparr> \<and>
     1 \<le> c \<and> (starts_with ''http://'' url \<or> starts_with ''https://'' url)"
  "start_reaper w s = Inr s' \<Longrightarrow> s' = s\<lparr>bt_reaper_task := True\<rparr>"
  "open_webhook_http s = Inr s' \<Longrightarrow> s' = s\<lparr>bt_webhook_http := True\<rparr>"
  "start_dispatcher w s = Inr s' \<Longrightarrow> s' = s\<lparr>bt_webhook_http_known := True, bt_dispatcher_task := True\<rparr>"
  "smoke_step w s = Inr s' \<Longrightarrow> s' = s \<and> (smoke_enabled w \<longrightarrow> (\<exists>timeout_s.
     run_registry_smoke_tests (bo_smoke w) (bo_smoke_clock w) (bt_registry s) (bo_smoke_start w) timeout_s = Inr ()))"
  "recover_jobs_step w s = Inr s' \<Longrightarrow> \<exists>t q x. s' = s\<lparr>bt_jobs := t, bt_queue := q\<rparr> \<and>
     recover_jobs (bt_jobs s) (bt_queue s) (bo_now w) = Inr (t, q, x)"
  "open_fetcher_http s = Inr s' \<Longrightarrow> s' = s\<lparr>bt_fetcher_http := True\<rparr>"
  "start_fetcher w s = Inr s' \<Longrightarrow> s' = s\<lparr>bt_fetcher := True\<rparr>"
  "recover_fetches_step w s = Inr s' \<Longrightarrow> \<exists>t x. s' = s\<lparr>bt_fetches := t\<rparr> \<and>
     recover_fetches (bt_fetches s) (bo_tmp_files w) (bo_unlink_ok w) (bo_now w) = Inr (t, x)"
  by (auto simp: connect_store_def load_registries_def prepare_storage_def create_adapter_def start_workers_def read_limits_def
      start_reaper_def open_webhook_http_def start_dispatcher_def smoke_step_def recover_jobs_step_def open_fetcher_http_def
      start_fetcher_def recover_fetches_step_def presets_outcome_Inr bind_r_Inr boot_other_def check_def Let_def
      split: option.splits sum.splits if_splits)

definition nothing_open :: "boot \<Rightarrow> bool" where
  "nothing_open s \<longleftrightarrow> \<not> bt_store s \<and> \<not> bt_adapter s \<and> bt_worker_tasks s = 0 \<and> \<not> bt_reaper_task s \<and>
     \<not> bt_webhook_http s \<and> \<not> bt_webhook_http_known s \<and> \<not> bt_dispatcher_task s \<and> \<not> bt_fetcher_http s \<and> \<not> bt_fetcher s"

lemma stop_closes_all: "lifespan_stop cancelled_cleanly s = (True, s') \<Longrightarrow> nothing_open s'"
  by (auto simp: lifespan_stop_def nothing_open_def Let_def split: if_splits)

lemma handled_failure_closes:
  assumes "run_boot (boot_steps w ctx) s0 = (Some e, s)" "handled_exc e" "nothing_open s0"
  shows "nothing_open (cleanup_failed_start s)"
  using assms unfolding boot_steps_def run_boot_fails
  by (auto dest!: step_effects unhandled_steps simp: nothing_open_def cleanup_failed_start_def)


lemma one_model_smoke: "run_one_model_smoke w reg n seed = Inr () \<Longrightarrow>
    \<exists>p outputs. bw_submit w = Inr p \<and> bw_wait w = Inr () \<and> bw_fetch w = Inr outputs \<and> outputs \<noteq> [] \<and>
      list_all (starts_with png_magic) outputs"
  by (auto simp: run_one_model_smoke_def bind_r_Inr ensure_png_outputs_def smoked_def split: option.splits sum.splits if_splits)

lemma smoke_loop_all: "smoke_loop w clock reg deadline i names = Inr () \<Longrightarrow> k < length names \<Longrightarrow>
    run_one_model_smoke (w (i + k)) reg (names ! k) (20260000 + int (i + k)) = Inr () \<and> clock (i + k) < deadline"
proof (induction names arbitrary: i k)
  case (Cons n names)
  then show ?case by (cases k) (fastforce simp: bind_r_Inr split: if_splits)+
qed simp

lemma addresses_private: "check_addresses infos = Inr () \<Longrightarrow> list_all (\<lambda>e. \<exists>ip. e = Some ip \<and> \<not> ip_global ip) infos"
  by (induction infos rule: check_addresses.induct) (auto split: if_splits)

lemma checks_passed:
  assumes "run_startup_checks bracket_ok resolve yaml dk ctx = Inr reg"
  shows "check_prod_webhook_posture ctx = Inr ()" "load_registry yaml dk (sx_vram_budget_gb ctx) = Inr reg"
    "\<exists>parsed infos. urlparse bracket_ok (sx_comfyui_url ctx) = Some parsed \<and> resolve (hostname parsed) = Some infos \<and>
       infos \<noteq> [] \<and> list_all (\<lambda>e. \<exists>ip. e = Some ip \<and> \<not> ip_global ip) infos"
  using assms addresses_private
  by (auto simp: run_startup_checks_def bind_r_Inr check_comfyui_endpoint_not_public_def load_registry_checked_def
      split: option.splits sum.splits if_splits)

lemma posture_passed: "check_prod_webhook_posture ctx = Inr () \<Longrightarrow> sx_imagegen_env ctx = ''prod'' \<Longrightarrow>
    comma_list (sx_webhook_allowed_hosts ctx) \<noteq> [] \<and> \<not> sx_webhook_allow_any_host ctx \<and> strip (sx_webhook_signing_secrets ctx) \<noteq> []"
  by (auto simp: check_prod_webhook_posture_def split: if_splits)

lemma started_steps:
  assumes "run_boot (boot_steps w ctx) s0 = (None, s)"
  shows "run_startup_checks (bo_bracket_ok w) (bo_resolve w) (bo_models_yaml w) (bo_disk w) ctx = Inr (bt_registry s)"
    "load_preset_registry (bo_presets_yaml w) (bt_registry s) = Inr (bt_presets s)"
    "smoke_enabled w \<longrightarrow> (\<exists>timeout_s. run_registry_smoke_tests (bo_smoke w) (bo_smoke_clock w) (bt_registry s) (bo_smoke_start w) timeout_s = Inr ())"
    "\<exists>x. recover_jobs (bt_jobs s0) (bt_queue s0) (bo_now w) = Inr (bt_jobs s, bt_queue s, x)"
    "\<exists>x. recover_fetches (bt_fetches s0) (bo_tmp_files w) (bo_unlink_ok w) (bo_now w) = Inr (bt_fetches s, x)"
    "bt_store s \<and> bt_adapter s \<and> 1 \<le> bt_worker_tasks s \<and> bt_reaper_task s \<and> bt_dispatcher_task s \<and> bt_fetcher s"
    "starts_with ''http://'' (bt_public_base_url s) \<or> starts_with ''https://'' (bt_public_base_url s)"
  using assms unfolding boot_steps_def run_boot_ends by (auto dest!: step_effects)


subsection \<open>A concrete start\<close>

definition demo_private_ip :: ip_flags where
  "demo_private_ip = \<lparr>ip_private = True, ip_loopback = False, ip_link_local = False, ip_multicast = False,
     ip_reserved = False, ip_unspecified = False, ip_global = False\<rparr>"

definition demo_boot_env :: environ where
  "demo_boot_env = map_of [(''IMAGEGEN_ENV'', ''PROD''), (''WEBHOOK_ALLOWED_HOSTS'', ''h''),
     (''WEBHOOK_SIGNING_SECRETS'', ''s''), (''STARTUP_SMOKE_ENABLED'', ''false'')]"

definition demo_boot_world :: boot_world where
  "demo_boot_world = \<lparr>bo_env = demo_boot_env, bo_bracket_ok = (\<lambda>_. False), bo_resolve = (\<lambda>_. Some [Some demo_private_ip]),
     bo_connect = None, bo_models_yaml = YamlDoc (VDict [(''models'', VList [VDict demo_entry])]), bo_disk = demo_disk,
     bo_presets_yaml = YamlDoc (VDict [(''presets'', VList [VDict demo_preset])]), bo_head_bucket = S3Ok,
     bo_create_bucket = S3Ok, bo_buckets = {}, bo_smoke = (\<lambda>_. demo_world), bo_smoke_clock = (\<lambda>_. 0), bo_smoke_start = 0,
     bo_now = 50, bo_tmp_files = None, bo_unlink_ok = (\<lambda>_. True)\<rparr>"

definition demo_boot :: boot where
  "demo_boot = \<lparr>bt_store = False, bt_adapter = False, bt_worker_tasks = 0, bt_reaper_task = False, bt_webhook_http = False,
     bt_webhook_http_known = False, bt_dispatcher_task = False, bt_fetcher_http = False, bt_fetcher = False, bt_registry = [],
     bt_presets = [], bt_public_base_url = [], bt_max_queue = 0, bt_jobs = demo_created, bt_queue = [], bt_fetches = demo_fetches\<rparr>"

lemma demo_floats:
  "py_float ''12'' = Some 12" "py_float ''30'' = Some 30" "py_float ''300'' = Some 300" "py_float ''10'' = Some 10"
  "py_float ''60'' = Some 60" "py_float ''1800'' = Some 1800"
  by (simp_all add: py_float_def strip_by_def is_space_def starts_with_def partition_on_def digits_or_none_def is_digit_def
    nat_of_digits_def digit_val_def Let_def)

lemma demo_ints:
  "py_int ''1000'' = Some 1000" "py_int ''20'' = Some 20" "py_int ''1'' = Some 1" "py_int ''86400'' = Some 86400"
  "py_int ''600'' = Some 600" "py_int ''8'' = Some 8" "py_int ''2147483648'' = Some 2147483648" "py_int ''7'' = Some 7"
  by (simp_all add: py_int_def strip_by_def is_space_def starts_with_def is_digit_def nat_of_digits_def digit_val_def Let_def)

lemma demo_getenv:
  "k \<notin> {''IMAGEGEN_ENV'', ''WEBHOOK_ALLOWED_HOSTS'', ''WEBHOOK_SIGNING_SECRETS'', ''STARTUP_SMOKE_ENABLED''} \<Longrightarrow>
    getenv demo_boot_env k d = d"
  by (simp add: getenv_def demo_boot_env_def)

lemma demo_context: "\<exists>ctx. build_context_from_env demo_boot_env = Inr ctx \<and> sx_vram_budget_gb ctx = 12 \<and>
    check_prod_webhook_posture ctx = Inr () \<and> sx_comfyui_url ctx = ''http://comfyui:8188''"
  by (simp add: build_context_from_env_def env_float_def demo_getenv demo_floats check_prod_webhook_posture_def env_true_def)
    (simp add: getenv_def demo_boot_env_def lower_def to_lower_def comma_list_def strip_by_def is_space_def)

lemma demo_endpoint: "sx_comfyui_url ctx = ''http://comfyui:8188'' \<Longrightarrow>
    check_comfyui_endpoint_not_public (\<lambda>_. False) (\<lambda>_. Some [Some demo_private_ip]) ctx = Inr ()"
  by (simp add: check_comfyui_endpoint_not_public_def url_eval demo_private_ip_def)

lemma demo_registries:
  "\<exists>c ps. load_registry (YamlDoc (VDict [(''models'', VList [VDict demo_entry])])) demo_disk 12 = Inr [(''m'', c)] \<and>
    load_preset_registry (YamlDoc (VDict [(''presets'', VList [VDict demo_preset])])) [(''m'', c)] = Inr ps"
proof -
  obtain r where r: "load_registry (YamlDoc (VDict [(''models'', VList [VDict demo_entry])])) demo_disk 12 = Inr r"
    using demo_registry by blast
  then have "load_entries demo_disk 12 [demo_entry] [] = Inr r"
    by (simp add: load_registry_def py_or_def dict_list_field_def check_def)
  then obtain c where c: "parse_entry demo_entry = Inr c" "r = [(mc_name c, c)]" by (elim load_entries_step) auto
  then have "r = [(''m'', c)]" using demo_parse_entry by auto
  moreover have "\<exists>ps. load_preset_registry (YamlDoc (VDict [(''presets'', VList [VDict demo_preset])])) [(''m'', c)] = Inr ps"
    by (simp add: load_preset_registry_def py_or_def dict_list_field_def check_def demo_preset_def parse_preset_def
        dict_field_def text_field_def text_field_or_def list_field_def preset_checks_def registry_names_def)
  ultimately show ?thesis using r by blast
qed

lemma demo_started: "\<exists>s. lifespan_start demo_boot_world demo_boot = (Started, s)"
proof -
  obtain ctx where ctx: "build_context_from_env demo_boot_env = Inr ctx" "sx_vram_budget_gb ctx = 12"
    "check_prod_webhook_posture ctx = Inr ()" "sx_comfyui_url ctx = ''http://comfyui:8188''" using demo_context by blast
  obtain c ps where reg: "load_registry (YamlDoc (VDict [(''models'', VList [VDict demo_entry])])) demo_disk 12 = Inr [(''m'', c)]"
    "load_preset_registry (YamlDoc (VDict [(''presets'', VList [VDict demo_preset])])) [(''m'', c)] = Inr ps"
    using demo_registries by blast
  have "jt.keys_distinct demo_created" using reachable_jobs_ok [OF demo_reachable(1)] by (simp add: jobs_ok_def)
  then obtain t q x where jobs: "recover_jobs demo_created [] 50 = Inr (t, q, x)" by (auto simp: recover_jobs_eq)
  have "ft.keys_distinct demo_fetches" using fetch_run_ok [OF demo_fetches_run]
    by (simp add: fetches_ok_def ft.keys_distinct_def active_versions_def)
  then obtain f y where fetches: "recover_fetches demo_fetches None (\<lambda>_. True) 50 = Inr (f, y)"
    by (auto simp: recover_fetches_def hand_over_all Let_def)
  have url: "getenv demo_boot_env ''IMAGE_GEN_PUBLIC_BASE_URL'' ''http://127.0.0.1:8700'' = ''http://127.0.0.1:8700''"
    by (simp add: demo_getenv)
  have smoke: "\<not> smoke_enabled demo_boot_world"
    by (simp add: smoke_enabled_def demo_boot_world_def env_true_def demo_boot_env_def getenv_def lower_def to_lower_def)
  have limits: "read_limits demo_boot_world = Inr (''http://127.0.0.1:8700'', 20, 1)"
    by (simp add: read_limits_def demo_boot_world_def url env_float_def env_int_def demo_getenv demo_floats demo_ints check_def
        starts_with_def)
  have env: "bo_env demo_boot_world = demo_boot_env" by (simp add: demo_boot_world_def)
  note parse = env env_float_def env_int_def demo_getenv demo_floats demo_ints
  have "check_comfyui_endpoint_not_public (\<lambda>_. False) (\<lambda>_. Some [Some demo_private_ip]) ctx = Inr ()"
    by (rule demo_endpoint [OF ctx(4)])
  with ctx(2,3) reg have regs: "load_registries demo_boot_world ctx s = Inr (s\<lparr>bt_registry := [(''m'', c)], bt_presets := ps\<rparr>)" for s
    by (simp add: load_registries_def run_startup_checks_def load_registry_checked_def demo_boot_world_def presets_outcome_def)
  have steps: "connect_store demo_boot_world s = Inr (s\<lparr>bt_store := True\<rparr>)" "prepare_storage demo_boot_world s = Inr s"
    "create_adapter demo_boot_world s = Inr (s\<lparr>bt_adapter := True\<rparr>)"
    "start_workers demo_boot_world s = Inr (s\<lparr>bt_public_base_url := ''http://127.0.0.1:8700'', bt_max_queue := 20, bt_worker_tasks := 1\<rparr>)"
    "start_reaper demo_boot_world s = Inr (s\<lparr>bt_reaper_task := True\<rparr>)"
    "start_dispatcher demo_boot_world s = Inr (s\<lparr>bt_webhook_http_known := True, bt_dispatcher_task := True\<rparr>)"
    "smoke_step demo_boot_world s = Inr s" "start_fetcher demo_boot_world s = Inr (s\<lparr>bt_fetcher := True\<rparr>)" for s
    by (simp_all add: connect_store_def prepare_storage_def create_adapter_def start_workers_def limits start_reaper_def
        start_dispatcher_def smoke_step_def smoke start_fetcher_def parse check_def)
      (simp_all add: demo_boot_world_def ensure_bucket_def boot_other_def)
  have recovery: "bt_jobs s = demo_created \<Longrightarrow> bt_queue s = [] \<Longrightarrow> recover_jobs_step demo_boot_world s = Inr (s\<lparr>bt_jobs := t, bt_queue := q\<rparr>)"
    "bt_fetches s = demo_fetches \<Longrightarrow> recover_fetches_step demo_boot_world s = Inr (s\<lparr>bt_fetches := f\<rparr>)" for s
    using jobs fetches by (simp_all add: recover_jobs_step_def recover_fetches_step_def boot_other_def demo_boot_world_def)
  have "bt_jobs demo_boot = demo_created" "bt_queue demo_boot = []" "bt_fetches demo_boot = demo_fetches"
    by (simp_all add: demo_boot_def)
  then have "\<exists>s. run_boot (boot_steps demo_boot_world ctx) demo_boot = (None, s)"
    by (simp add: boot_steps_def steps regs open_webhook_http_def open_fetcher_http_def recovery)
  then show ?thesis by (auto simp: lifespan_start_def env ctx(1))
qed



subsection \<open>What other exceptions leave open\<close>

text \<open>
  An exception outside the handler's list is raised with everything that was open before it: a
  base URL that is no URL leaves the store and the adapter open.
\<close>

lemma other_exception_leaks:
  assumes "run_boot (boot_steps w ctx) s0 = (Some e, s)" "\<not> handled_exc e" "build_context_from_env (bo_env w) = Inr ctx"
  shows "lifespan_start w s0 = (Crashed e, s)"
  using assms by (simp add: lifespan_start_def)

lemma leak_demo:
  "\<exists>e s. lifespan_start (demo_boot_world\<lparr>bo_head_bucket := OtherFailure ''refused''\<rparr>) demo_boot = (Crashed e, s) \<and> bt_store s"
proof -
  let ?w = "demo_boot_world\<lparr>bo_head_bucket := OtherFailure ''refused''\<rparr>"
  obtain ctx where ctx: "build_context_from_env demo_boot_env = Inr ctx" "sx_vram_budget_gb ctx = 12"
    "check_prod_webhook_posture ctx = Inr ()" "sx_comfyui_url ctx = ''http://comfyui:8188''" using demo_context by blast
  obtain c ps where reg: "load_registry (YamlDoc (VDict [(''models'', VList [VDict demo_entry])])) demo_disk 12 = Inr [(''m'', c)]"
    "load_preset_registry (YamlDoc (VDict [(''presets'', VList [VDict demo_preset])])) [(''m'', c)] = Inr ps"
    using demo_registries by blast
  show ?thesis
    using ctx reg demo_endpoint [OF ctx(4)]
    by (simp add: lifespan_start_def demo_boot_world_def boot_steps_def connect_store_def load_registries_def
        run_startup_checks_def load_registry_checked_def presets_outcome_def prepare_storage_def ensure_bucket_def boot_other_def)
qed

text \<open>A list of blank secrets passes the check of prod, and the dispatcher then has none to sign with.\<close>

lemma blank_secrets_pass:
  "strip '','' \<noteq> []" "first_signing_secret (map_of [(''WEBHOOK_SIGNING_SECRETS'', '','')]) = None"
  by (simp_all add: strip_by_def is_space_def first_signing_secret_def comma_list_def getenv_def)

end
