(* ===== verification/Admin.thy ===== *)
theory Admin
  imports Startup Monitoring Lora_Api
begin

text \<open>
  \<open>app/api/models.py\<close> and \<open>app/api/admin.py\<close>: the catalog of models and presets, and the
  administration of the running service: reloading the registry, choosing and closing a bundle
  of models, looking into webhook deliveries. Python's \<open>repr\<close>, the clock and the names of time
  stamps are parameters; an operation that changes the runtime holds its lock, so it is one step.
\<close>

section \<open>The catalog\<close>

definition preset_get :: "preset_registry \<Rightarrow> string \<Rightarrow> preset_config option" where
  "preset_get ps preset_id = map_of ps preset_id"

text \<open>A sorted set: every type once.\<close>

definition asset_types_of :: "preset_registry \<Rightarrow> string \<Rightarrow> string list" where
  "asset_types_of ps model_name =
     sort (remdups (map pc_asset_type (filter (\<lambda>p. pc_model p = model_name) (map snd ps))))"

definition first_description :: "preset_registry \<Rightarrow> string \<Rightarrow> string option" where
  "first_description ps model_name = (case confirmed_for_model ps model_name of
     [] \<Rightarrow> None | p # _ \<Rightarrow> Some (pc_description p))"

definition model_entry :: "preset_registry \<Rightarrow> int \<Rightarrow> model_config \<Rightarrow> pydict" where
  "model_entry ps now cfg =
     [(''id'', VStr (mc_name cfg)), (''object'', VStr ''model''), (''created'', VInt now), (''owned_by'', VStr ''local''),
      (''capabilities'', VDict (mc_capabilities cfg)), (''backend'', VStr (mc_backend cfg)), (''family'', VStr (mc_family cfg)),
      (''description'', opt_text (first_description ps (mc_name cfg))),
      (''supported_asset_types'', VList (map VStr (asset_types_of ps (mc_name cfg)))),
      (''has_confirmed_combo'', VBool (list_ex (\<lambda>p. pc_confirmed p \<and> pc_model p = mc_name cfg) (map snd ps)))]"

definition list_models :: "registry \<Rightarrow> preset_registry \<Rightarrow> int \<Rightarrow> response" where
  "list_models reg ps now = json_response 200
     [(''object'', VStr ''list''), (''data'', VList (map (\<lambda>cfg. VDict (model_entry ps now cfg)) (map snd reg)))]"

definition catalog_model_entry :: "preset_registry \<Rightarrow> model_config \<Rightarrow> pydict" where
  "catalog_model_entry ps cfg =
     [(''id'', VStr (mc_name cfg)), (''backend'', VStr (mc_backend cfg)), (''family'', VStr (mc_family cfg)),
      (''capabilities'', VDict (mc_capabilities cfg)),
      (''description'', opt_text (first_description ps (mc_name cfg))),
      (''supported_asset_types'', VList (map VStr (asset_types_of ps (mc_name cfg)))),
      (''defaults'', VDict (mc_defaults cfg)), (''limits'', VDict (mc_limits cfg)),
      (''confirmed_presets'', VList (map (\<lambda>p. VStr (pc_id p)) (confirmed_for_model ps (mc_name cfg))))]"

definition catalog_models :: "registry \<Rightarrow> preset_registry \<Rightarrow> response" where
  "catalog_models reg ps = json_response 200
     [(''object'', VStr ''list''), (''data'', VList (map (\<lambda>cfg. VDict (catalog_model_entry ps cfg)) (map snd reg)))]"

definition lora_entries :: "preset_config \<Rightarrow> pyval" where
  "lora_entries p = VList (map (\<lambda>l. VDict [(''name'', VStr (pl_name l)), (''weight'', VFloat (pl_weight l))]) (pc_loras p))"

definition preset_entry :: "preset_config \<Rightarrow> pydict" where
  "preset_entry p =
     [(''id'', VStr (pc_id p)), (''version'', VStr (pc_version p)), (''asset_type'', VStr (pc_asset_type p)),
      (''status'', VStr (pc_status p)), (''confirmed'', VBool (pc_confirmed p)), (''description'', VStr (pc_description p))]"

definition catalog_presets :: "preset_registry \<Rightarrow> response" where
  "catalog_presets ps = json_response 200
     [(''object'', VStr ''list''), (''data'', VList (map (\<lambda>p. VDict (preset_entry p @
        [(''model'', VStr (pc_model p)), (''loras'', lora_entries p)])) (map snd ps)))]"

definition catalog_preset_by_id :: "(string \<Rightarrow> string) \<Rightarrow> preset_registry \<Rightarrow> string \<Rightarrow> http_exc + response" where
  "catalog_preset_by_id repr ps preset_id = (case preset_get ps preset_id of
     None \<Rightarrow> Inl (HttpException 404 (VStr (''preset not found: '' @ repr preset_id)) [])
   | Some p \<Rightarrow> Inr (json_response 200 (preset_entry p @
       [(''bundle'', VDict [(''model'', VStr (pc_model p)), (''loras'', lora_entries p)]),
        (''generation_defaults'', VDict (pc_generation_defaults p)),
        (''supported_asset_types'', VList (pc_supported_asset_types p)),
        (''variables_schema'', VList (pc_variables_schema p))])))"

section \<open>Webhook deliveries\<close>

fun attempt_text :: "webhook_attempt_status \<Rightarrow> string" where
  "attempt_text APending = ''pending''"
| "attempt_text ADelivering = ''delivering''"
| "attempt_text ASucceeded = ''succeeded''"
| "attempt_text AFailed = ''failed''"

definition attempt_entry :: "(timestamp \<Rightarrow> string) \<Rightarrow> attempt \<Rightarrow> pydict" where
  "attempt_entry show_time a =
     [(''id'', VStr (a_id a)), (''attempt_n'', VInt (a_attempt_n a)), (''status'', VStr (attempt_text (a_status a))),
      (''status_code'', opt_int (a_status_code a)), (''response_body_snippet'', opt_text (a_response_body_snippet a)),
      (''error'', opt_text (a_error a)), (''error_code'', opt_text (a_error_code a)),
      (''next_retry_at'', opt_text (map_option show_time (a_next_retry_at a))), (''created_at'', VStr (show_time (a_created_at a))),
      (''completed_at'', opt_text (map_option show_time (a_completed_at a)))]"

definition get_webhook_deliveries ::
  "(string \<Rightarrow> string) \<Rightarrow> (timestamp \<Rightarrow> string) \<Rightarrow> jobs \<Rightarrow> attempt list \<Rightarrow> string \<Rightarrow> response" where
  "get_webhook_deliveries repr show_time t attempts job_id = (case get_by_id t job_id of
     None \<Rightarrow> error_response 404 ''not_found'' (''unknown job id '' @ repr job_id)
   | Some job \<Rightarrow> json_response 200
       [(''job_id'', VStr (j_id job)), (''webhook_url'', opt_text (j_webhook_url job)),
        (''webhook_delivery_status'', opt_text (map_option delivery_text (j_webhook_delivery_status job))),
        (''attempts'', VList (map (\<lambda>a. VDict (attempt_entry show_time a)) (list_attempts_for_job attempts job_id)))])"

section \<open>The runtime\<close>

text \<open>The part of \<open>app.state\<close> that administration changes, and the registry the worker holds.\<close>

record runtime =
  rt_registry :: registry
  rt_worker_registry :: registry
  rt_bundle :: pydict

text \<open>What a request can find: the files, the backend of a warm-up, the answer to an unload.\<close>

record admin_world =
  ao_models_yaml :: yaml_read
  ao_disk :: disk
  ao_now_iso :: string
  ao_smoke :: "nat \<Rightarrow> backend_world"
  ao_smoke_clock :: "nat \<Rightarrow> rat"
  ao_smoke_start :: rat
  ao_unload :: "pipe_error + bool"

definition reload_registry :: "admin_world \<Rightarrow> startup_context \<Rightarrow> runtime \<Rightarrow> (http_exc + response) \<times> runtime" where
  "reload_registry w ctx s = (case load_registry (ao_models_yaml w) (ao_disk w) (sx_vram_budget_gb ctx) of
     Inl _ \<Rightarrow> (Inl (OtherException ''RegistryValidationError''), s)
   | Inr reg \<Rightarrow>
       (Inr (json_response 200 [(''ok'', VBool True), (''models'', VList (map VStr (registry_names reg)))]),
        s\<lparr>rt_registry := reg, rt_worker_registry := reg,
          rt_bundle := dict_set ''last_registry_reload_at'' (VStr (ao_now_iso w)) (rt_bundle s)\<rparr>))"

definition subset_registry :: "registry \<Rightarrow> string list \<Rightarrow> registry" where
  "subset_registry reg names = fold (\<lambda>n r. case registry_get reg n of None \<Rightarrow> r | Some c \<Rightarrow> dict_set n c r) names []"

definition chosen_bundle :: "string list \<Rightarrow> bool \<Rightarrow> string \<Rightarrow> pydict" where
  "chosen_bundle names warmup now =
     [(''active_models'', VList (map VStr names)), (''warmup'', VBool warmup), (''updated_at'', VStr now)]"

definition setup_bundle ::
  "(string list \<Rightarrow> string) \<Rightarrow> admin_world \<Rightarrow> string list \<Rightarrow> bool \<Rightarrow> runtime \<Rightarrow> (http_exc + response) \<times> runtime" where
  "setup_bundle repr_list w model_names warmup s =
     (let unknown = filter (\<lambda>n. n \<notin> set (registry_names (rt_registry s))) model_names in
      if unknown \<noteq> [] then
        (Inr (error_response 404 ''unknown_model'' (''unknown model(s): '' @ repr_list unknown)), s)
      else (case (if warmup then run_registry_smoke_tests (ao_smoke w) (ao_smoke_clock w)
                    (subset_registry (rt_registry s) model_names) (ao_smoke_start w) 60 else Inr ()) of
          Inl _ \<Rightarrow> (Inl (OtherException ''smoke''), s)
        | Inr _ \<Rightarrow>
            (let bundle = chosen_bundle model_names warmup (ao_now_iso w) in
             (Inr (json_response 200 [(''ok'', VBool True), (''runtime_bundle'', VDict bundle)]), s\<lparr>rt_bundle := bundle\<rparr>))))"

text \<open>An exception of the backend leaves the handler; nothing has changed then.\<close>

definition close_bundle :: "admin_world \<Rightarrow> runtime \<Rightarrow> (http_exc + response) \<times> runtime" where
  "close_bundle w s = (case ao_unload w of
     Inl _ \<Rightarrow> (Inl (OtherException ''backend''), s)
   | Inr unloaded \<Rightarrow>
       (let bundle = chosen_bundle [] False (ao_now_iso w) @ [(''closed'', VBool True)] in
        (Inr (json_response 200 [(''ok'', VBool True), (''unloaded'', VBool unloaded), (''runtime_bundle'', VDict bundle)]),
         s\<lparr>rt_bundle := bundle\<rparr>)))"

text \<open>\<open>SetupBundleRequest\<close>: one to twenty names.\<close>

definition setup_request_ok :: "string list \<Rightarrow> bool" where
  "setup_request_ok names \<longleftrightarrow> 1 \<le> length names \<and> length names \<le> 20"

text \<open>
  A body that does not fit is answered with 422 and FastAPI's own \<open>details\<close>, after the key is
  checked.
\<close>

datatype admin_request = Reload | Setup "string list" bool | Close

definition admin_endpoint ::
  "(string list \<Rightarrow> string) \<Rightarrow> pyval \<Rightarrow> (string \<Rightarrow> string) \<Rightarrow> keyset \<Rightarrow> startup_context \<Rightarrow> string option \<Rightarrow>
   admin_request \<Rightarrow> admin_world \<Rightarrow> runtime \<Rightarrow> (http_exc + response) \<times> runtime" where
  "admin_endpoint repr_list details sha256_hex ks ctx authorization r w s =
     (case require_admin sha256_hex ks authorization of
        Inl e \<Rightarrow> (Inl e, s)
      | Inr _ \<Rightarrow> (case r of
            Reload \<Rightarrow> reload_registry w ctx s
          | Setup names warmup \<Rightarrow>
              if setup_request_ok names then setup_bundle repr_list w names warmup s
              else (Inr (json_response 422 [(''detail'', details)]), s)
          | Close \<Rightarrow> close_bundle w s))"

section \<open>What the catalog says\<close>

text \<open>The presets of a registry that was loaded against the models \<open>reg\<close>.\<close>

lemma loaded_presets:
  assumes "load_preset_registry yaml reg = Inr ps"
  shows "distinct (map fst ps)"
    and "(k, p) \<in> set ps \<Longrightarrow> k = pc_id p \<and> pc_model p \<in> set (registry_names reg) \<and>
      (pc_confirmed p \<longrightarrow> strip (pc_description p) \<noteq> [])"
proof -
  from assms obtain es where es: "load_presets (registry_names reg) es [] = Inr ps"
    by (auto simp: load_preset_registry_def bind_r_Inr split: yaml_read.splits pyval.splits)
  let ?P = "\<lambda>k p. k = pc_id p \<and> list_all (\<lambda>c. c = Inr ()) (preset_checks (registry_names reg) p)"
  have inv: "distinct (map fst ps) \<and> length ps = length ([] :: preset_registry) + length es \<and> (\<forall>(k, p) \<in> set ps. ?P k p)"
    using es by (rule load_presets_inv) (simp_all only: all_checks_Inr, simp_all)
  then show "distinct (map fst ps)" by simp
  assume "(k, p) \<in> set ps"
  with inv have "?P k p" by auto
  then show "k = pc_id p \<and> pc_model p \<in> set (registry_names reg) \<and> (pc_confirmed p \<longrightarrow> strip (pc_description p) \<noteq> [])"
    by (auto simp: preset_checks_def)
qed

lemma preset_get_member: "distinct (map fst ps) \<Longrightarrow> (k, p) \<in> set ps \<Longrightarrow> preset_get ps k = Some p"
  by (simp add: preset_get_def)

lemma first_description_cases:
  "first_description ps m = None \<longleftrightarrow> confirmed_for_model ps m = []"
  "first_description ps m = Some d \<Longrightarrow> \<exists>p. p \<in> set (confirmed_for_model ps m) \<and> pc_description p = d"
  by (auto simp: first_description_def split: list.splits)

lemma confirmed_listed:
  "p \<in> set (confirmed_for_model ps m) \<longleftrightarrow> (\<exists>k. (k, p) \<in> set ps) \<and> pc_confirmed p \<and> pc_model p = m"
  by (force simp: confirmed_for_model_def)

text \<open>
  The catalog is consistent with itself and with the registry it describes. For presets
  that were loaded against the models: every preset the list shows is found under its id, with
  the same fields, and belongs to a model of the registry; each model's entry says it has a
  confirmed combination exactly when it lists a confirmed preset and when it has a description,
  which then is not blank and that of one of these presets; and the asset types of a model are
  those of its presets, each once, in order.
\<close>

theorem catalog_consistent:
  assumes "load_preset_registry yaml reg = Inr ps"
  shows "list_all (\<lambda>p. pc_model p \<in> set (registry_names reg) \<and>
      (\<exists>rest. catalog_preset_by_id repr ps (pc_id p) = Inr (json_response 200 (preset_entry p @ rest)) \<and>
         map_of rest ''bundle'' = Some (VDict [(''model'', VStr (pc_model p)), (''loras'', lora_entries p)])))
      (map snd ps) \<and>
    list_all (\<lambda>c. let m = mc_name c; ids = map pc_id (confirmed_for_model ps m) in
      map_of (catalog_model_entry ps c) ''confirmed_presets'' = Some (VList (map VStr ids)) \<and>
      map_of (model_entry ps now c) ''has_confirmed_combo'' = Some (VBool (ids \<noteq> [])) \<and>
      map_of (model_entry ps now c) ''description'' = map_of (catalog_model_entry ps c) ''description'' \<and>
      (if ids = [] then map_of (model_entry ps now c) ''description'' = Some VNone
       else \<exists>p. p \<in> set (confirmed_for_model ps m) \<and> strip (pc_description p) \<noteq> [] \<and>
         map_of (model_entry ps now c) ''description'' = Some (VStr (pc_description p))) \<and>
      sorted (asset_types_of ps m) \<and> distinct (asset_types_of ps m) \<and>
      set (asset_types_of ps m) = {pc_asset_type p | k p. (k, p) \<in> set ps \<and> pc_model p = m})
      (map snd reg)"
proof -
  note l = loaded_presets [OF assms]
  have "\<exists>rest. catalog_preset_by_id repr ps (pc_id p) = Inr (json_response 200 (preset_entry p @ rest)) \<and>
      map_of rest ''bundle'' = Some (VDict [(''model'', VStr (pc_model p)), (''loras'', lora_entries p)])"
    if "(k, p) \<in> set ps" for k p
    using preset_get_member [OF l(1) that] l(2) [OF that] by (simp add: catalog_preset_by_id_def json_response_def)
  moreover have "list_ex (\<lambda>p. pc_confirmed p \<and> pc_model p = m) (map snd ps) = (confirmed_for_model ps m \<noteq> [])" for m
    by (auto simp: confirmed_for_model_def filter_empty_conv list_ex_iff)
  moreover have "if confirmed_for_model ps m = [] then opt_text (first_description ps m) = VNone
      else \<exists>p. p \<in> set (confirmed_for_model ps m) \<and> strip (pc_description p) \<noteq> [] \<and>
        opt_text (first_description ps m) = VStr (pc_description p)" for m
  proof (cases "confirmed_for_model ps m")
    case (Cons p rest)
    then have "p \<in> set (confirmed_for_model ps m)" by simp
    moreover from this l(2) have "strip (pc_description p) \<noteq> []" unfolding confirmed_listed by blast
    moreover have "opt_text (first_description ps m) = VStr (pc_description p)"
      by (simp add: Cons first_description_def opt_text_def)
    ultimately show ?thesis by (metis Cons list.distinct(1))
  qed (simp add: first_description_def opt_text_def)
  moreover have "set (asset_types_of ps m) = {pc_asset_type p | k p. (k, p) \<in> set ps \<and> pc_model p = m}" for m
    by (force simp: asset_types_of_def)
  ultimately show ?thesis using l(2)
    by (auto simp: list_all_iff Let_def model_entry_def catalog_model_entry_def asset_types_of_def)
qed

section \<open>What administration may change\<close>

text \<open>The backend took a prompt of the smoke test and gave PNG images.\<close>

definition warmed :: "backend_world \<Rightarrow> bool" where
  "warmed w \<longleftrightarrow> (\<exists>p outputs. bw_submit w = Inr p \<and> bw_wait w = Inr () \<and> bw_fetch w = Inr outputs \<and> outputs \<noteq> [] \<and>
     list_all (starts_with png_magic) outputs)"

lemma smoke_tests_warm:
  assumes "run_registry_smoke_tests w clock reg start timeout_s = Inr ()"
  shows "list_all (\<lambda>k. warmed (w k)) [0..<length (smoke_names reg)] \<and> smoke_names reg \<noteq> []"
proof -
  from assms have "smoke_loop w clock reg (start + timeout_s) 0 (smoke_names reg) = Inr ()" "smoke_names reg \<noteq> []"
    by (auto simp: run_registry_smoke_tests_def Let_def split: if_splits)
  then show ?thesis using smoke_loop_all [of w clock reg _ 0 "smoke_names reg"] one_model_smoke
    by (fastforce simp: list_all_iff warmed_def)
qed

text \<open>
  Administration is all or nothing, and takes an admin key. A request to reload the registry,
  to choose a bundle or to close it either leaves the runtime as it was or was made with an admin
  key and is answered with 200. In the latter case, a reload has installed the registry that the
  files give, for the handlers and the worker alike; a bundle consists of registered models and,
  if a warm-up was asked for, each of its eligible models has produced PNG images; a closed
  bundle means that the backend answered the unload request; and only a reload touches the
  registries.
\<close>

theorem admin_all_or_nothing:
  "case admin_endpoint repr_list details sha256_hex ks ctx authorization r w s of (ans, s') \<Rightarrow>
     s' = s \<or> (\<exists>kid resp. require_admin sha256_hex ks authorization = Inr kid \<and> ans = Inr resp \<and> rs_status resp = 200 \<and>
       (case r of
          Reload \<Rightarrow> load_registry (ao_models_yaml w) (ao_disk w) (sx_vram_budget_gb ctx) = Inr (rt_registry s') \<and>
            rt_worker_registry s' = rt_registry s'
        | Setup names warmup \<Rightarrow> s' = s\<lparr>rt_bundle := chosen_bundle names warmup (ao_now_iso w)\<rparr> \<and>
            names \<noteq> [] \<and> length names \<le> 20 \<and> set names \<subseteq> set (registry_names (rt_registry s)) \<and>
            (warmup = False \<or> (let tested = smoke_names (subset_registry (rt_registry s) names) in
               tested \<noteq> [] \<and> list_all (\<lambda>k. warmed (ao_smoke w k)) [0..<length tested]))
        | Close \<Rightarrow> s' = s\<lparr>rt_bundle := rt_bundle s'\<rparr> \<and> (\<exists>unloaded. ao_unload w = Inr unloaded)))"
proof (cases "require_admin sha256_hex ks authorization")
  case (Inr kid)
  show ?thesis
  proof (cases r)
    case Reload
    then show ?thesis by (auto simp: admin_endpoint_def Inr reload_registry_def json_response_def split: sum.split)
  next
    case (Setup names warmup)
    have "names \<noteq> [] \<and> length names \<le> 20" if "setup_request_ok names"
      using that by (auto simp: setup_request_ok_def)
    then show ?thesis using Setup
      by (auto simp: admin_endpoint_def Inr setup_bundle_def json_response_def Let_def filter_empty_conv
          dest!: smoke_tests_warm split: sum.split)
  next
    case Close
    then show ?thesis by (auto simp: admin_endpoint_def Inr close_bundle_def json_response_def Let_def split: sum.split)
  qed
qed (simp add: admin_endpoint_def)

text \<open>A run of administration: any requests, with any keys, in any worlds.\<close>

inductive admin_step ::
  "(string list \<Rightarrow> string) \<Rightarrow> pyval \<Rightarrow> (string \<Rightarrow> string) \<Rightarrow> keyset \<Rightarrow> startup_context \<Rightarrow> runtime \<Rightarrow> runtime \<Rightarrow> bool"
  for repr_list details sha256_hex ks ctx where
  request: "admin_endpoint repr_list details sha256_hex ks ctx authorization r w s = (ans, s') \<Longrightarrow>
    admin_step repr_list details sha256_hex ks ctx s s'"

text \<open>What the start of the service leaves in \<open>app.state\<close>.\<close>

definition booted :: "registry \<Rightarrow> runtime" where
  "booted reg = \<lparr>rt_registry = reg, rt_worker_registry = reg,
     rt_bundle = [(''active_models'', VList []), (''warmup'', VBool False), (''updated_at'', VNone)]\<rparr>"

definition loadable :: "rat \<Rightarrow> registry \<Rightarrow> bool" where
  "loadable budget reg \<longleftrightarrow> (\<exists>yaml dk. load_registry yaml dk budget = Inr reg)"

lemma loadableI: "load_registry yaml dk budget = Inr reg \<Longrightarrow> loadable budget reg"
  by (auto simp: loadable_def)

definition registry_sound :: "rat \<Rightarrow> runtime \<Rightarrow> bool" where
  "registry_sound budget s \<longleftrightarrow> rt_worker_registry s = rt_registry s \<and> loadable budget (rt_registry s)"

lemma endpoint_keeps_sound:
  assumes "admin_endpoint repr_list details sha256_hex ks ctx authorization r w s = (ans, s')"
    and "registry_sound (sx_vram_budget_gb ctx) s"
  shows "registry_sound (sx_vram_budget_gb ctx) s'"
  using assms
  by (auto simp: admin_endpoint_def reload_registry_def setup_bundle_def close_bundle_def registry_sound_def Let_def
      split: sum.splits admin_request.splits if_splits intro: loadableI)

lemma admin_run_sound:
  "(admin_step repr_list details sha256_hex ks ctx)\<^sup>*\<^sup>* s s' \<Longrightarrow> registry_sound (sx_vram_budget_gb ctx) s \<Longrightarrow>
   registry_sound (sx_vram_budget_gb ctx) s'"
  by (induction rule: rtranclp_induct) (auto elim!: admin_step.cases intro: endpoint_keeps_sound)

lemma loaded_entries:
  assumes "load_registry yaml dk budget = Inr reg"
  shows "reg \<noteq> [] \<and> distinct (registry_names reg) \<and> list_all (\<lambda>(k, c). entry_good dk budget k c) reg"
proof -
  from assms obtain es where es: "load_entries dk budget es [] = Inr reg" "es \<noteq> []"
    by (auto simp: load_registry_def bind_r_Inr split: yaml_read.splits pyval.splits)
  have "distinct (map fst reg) \<and> length reg = length ([] :: registry) + length es \<and>
      (\<forall>(k, c) \<in> set reg. entry_good dk budget k c)"
    using es(1) by (rule load_entries_inv) (simp_all add: validate_entry_good)
  with es(2) show ?thesis by (auto simp: registry_names_def list_all_iff)
qed

text \<open>
  However the running service is administered, the registry it serves is one that a load
  accepted: the handlers and the worker hold the same one, it has models, each under its own
  name, and every model passed the checks of the start against the files at the time, among them
  the VRAM budget, a complete workflow and known weights.
\<close>

theorem administered_registry_sound:
  assumes "load_registry yaml dk (sx_vram_budget_gb ctx) = Inr reg"
    and "(admin_step repr_list details sha256_hex ks ctx)\<^sup>*\<^sup>* (booted reg) s"
  shows "rt_worker_registry s = rt_registry s \<and> rt_registry s \<noteq> [] \<and> distinct (registry_names (rt_registry s)) \<and>
    (\<exists>dk'. list_all (\<lambda>(k, c). entry_good dk' (sx_vram_budget_gb ctx) k c) (rt_registry s))"
proof -
  have "registry_sound (sx_vram_budget_gb ctx) (booted reg)"
    using assms(1) by (auto simp: registry_sound_def booted_def intro: loadableI)
  from admin_run_sound [OF assms(2) this] obtain yaml' dk' where
    "rt_worker_registry s = rt_registry s" "load_registry yaml' dk' (sx_vram_budget_gb ctx) = Inr (rt_registry s)"
    by (auto simp: registry_sound_def loadable_def)
  with loaded_entries [OF this(2)] show ?thesis by blast
qed

section \<open>Examples\<close>

definition demo_ctx :: startup_context where
  "demo_ctx = \<lparr>sx_imagegen_env = ''dev'', sx_vram_budget_gb = 12, sx_comfyui_url = [], sx_webhook_allowed_hosts = [],
     sx_webhook_allow_any_host = False, sx_webhook_signing_secrets = []\<rparr>"

definition demo_admin :: admin_world where
  "demo_admin = \<lparr>ao_models_yaml = YamlMissing, ao_disk = demo_disk, ao_now_iso = ''now'', ao_smoke = (\<lambda>_. demo_world),
     ao_smoke_clock = (\<lambda>_. 0), ao_smoke_start = 0, ao_unload = Inr True\<rparr>"

theorem catalog_consistent_witness:
  "\<exists>c ps. ps \<noteq> [] \<and> list_all (\<lambda>p. pc_model p \<in> {''m''}) (map snd ps) \<and>
     load_preset_registry (YamlDoc (VDict [(''presets'', VList [VDict demo_preset])])) [(''m'', c)] = Inr ps"
proof -
  obtain c ps where ps: "load_preset_registry (YamlDoc (VDict [(''presets'', VList [VDict demo_preset])])) [(''m'', c)] = Inr ps"
    using demo_registries by blast
  have "ps \<noteq> []" using ps by (auto simp: load_preset_registry_def py_or_def dict_list_field_def check_def demo_preset_def
        parse_preset_def dict_field_def text_field_def text_field_or_def list_field_def preset_checks_def registry_names_def)
  with catalog_consistent [OF ps] ps show ?thesis
    by (intro exI [of _ c] exI [of _ ps]) (auto simp: list_all_iff registry_names_def)
qed

text \<open>A reload of a missing file fails and changes nothing; the run has the registry of the start.\<close>

theorem administered_registry_sound_witness:
  "\<exists>reg. registry_names reg = [''m''] \<and> (\<exists>dk'. list_all (\<lambda>(k, c). entry_good dk' 12 k c) reg)"
proof -
  obtain c where reg: "load_registry (YamlDoc (VDict [(''models'', VList [VDict demo_entry])])) demo_disk (sx_vram_budget_gb demo_ctx) =
      Inr [(''m'', c)]" using demo_registries by (auto simp: demo_ctx_def)
  have "snd (admin_endpoint concat VNone (\<lambda>x. x) \<lparr>ks_generation = [], ks_admin = [''k'']\<rparr> demo_ctx (Some ''Bearer k'') Reload
      demo_admin (booted [(''m'', c)])) = booted [(''m'', c)]"
    by (simp add: admin_endpoint_def reload_registry_def demo_admin_def load_registry_def split: sum.split)
  then have "admin_step concat VNone (\<lambda>x. x) \<lparr>ks_generation = [], ks_admin = [''k'']\<rparr> demo_ctx (booted [(''m'', c)]) (booted [(''m'', c)])"
    by (metis admin_step.request prod.collapse)
  then have "(admin_step concat VNone (\<lambda>x. x) \<lparr>ks_generation = [], ks_admin = [''k'']\<rparr> demo_ctx)\<^sup>*\<^sup>* (booted [(''m'', c)]) (booted [(''m'', c)])"
    by blast
  from administered_registry_sound [OF reg this] show ?thesis
    by (intro exI [of _ "[(''m'', c)]"]) (auto simp: booted_def registry_names_def demo_ctx_def)
qed

text \<open>
  The presets stay as they were loaded at the start: after a reload that drops a model, the
  catalog goes on listing presets of a model that the registry no longer has.
\<close>

lemma reload_leaves_presets:
  assumes "load_registry (ao_models_yaml w) (ao_disk w) (sx_vram_budget_gb ctx) = Inr reg'"
    and "(k, p) \<in> set ps" and "pc_model p \<notin> set (registry_names reg')"
  shows "rt_registry (snd (reload_registry w ctx s)) = reg' \<and>
    (\<exists>q \<in> snd ` set ps. pc_model q \<notin> set (registry_names (rt_registry (snd (reload_registry w ctx s)))))"
  using assms by (force simp: reload_registry_def)

end
