(* ===== verification/Transparency.thy ===== *)
theory Transparency
  imports Prelude "HOL-Library.Word"
begin

text \<open>
  \<open>app/postprocess/transparency.py\<close>: the pixel loop that makes near-white pixels transparent.
  Channels are bytes; an RGBA image is its width, its height and its pixels, row by row. Pillow's reading, conversion to RGBA and writing of PNG are parameters.
\<close>

record pixel =
  px_r :: "8 word"
  px_g :: "8 word"
  px_b :: "8 word"
  px_a :: "8 word"

record rgba_image =
  im_width :: nat
  im_height :: nat
  im_pixels :: "pixel list"

definition well_formed :: "rgba_image \<Rightarrow> bool" where
  "well_formed img \<longleftrightarrow> length (im_pixels img) = im_width img * im_height img"

text \<open>The body of the inner loop, at one coordinate.\<close>

definition near_white :: "int \<Rightarrow> pixel \<Rightarrow> bool" where
  "near_white threshold p \<longleftrightarrow> threshold \<le> uint (px_r p) \<and> threshold \<le> uint (px_g p) \<and> threshold \<le> uint (px_b p)"

definition clear_pixel :: "int \<Rightarrow> pixel \<Rightarrow> pixel" where
  "clear_pixel threshold p = (if near_white threshold p then p\<lparr>px_a := 0\<rparr> else p)"

definition visit :: "int \<Rightarrow> nat \<Rightarrow> nat \<times> nat \<Rightarrow> pixel list \<Rightarrow> pixel list" where
  "visit threshold width xy pixels = (let i = snd xy * width + fst xy in pixels[i := clear_pixel threshold (pixels ! i)])"

text \<open>\<open>for x in range(width): for y in range(height)\<close>.\<close>

definition coordinates :: "nat \<Rightarrow> nat \<Rightarrow> (nat \<times> nat) list" where
  "coordinates width height = List.product [0..<width] [0..<height]"

definition clear_background :: "int \<Rightarrow> rgba_image \<Rightarrow> rgba_image" where
  "clear_background threshold img =
     img\<lparr>im_pixels := fold (visit threshold (im_width img)) (coordinates (im_width img) (im_height img)) (im_pixels img)\<rparr>"

text \<open>\<open>None\<close>: Pillow raises, because the bytes are no image.\<close>

definition apply_transparent_background ::
  "(string \<Rightarrow> rgba_image option) \<Rightarrow> (rgba_image \<Rightarrow> string) \<Rightarrow> int \<Rightarrow> string \<Rightarrow> string option" where
  "apply_transparent_background decode encode threshold png_bytes =
     map_option (\<lambda>img. encode (clear_background threshold img)) (decode png_bytes)"

section \<open>What the loop does\<close>

text \<open>A loop over distinct indices acts on each element alone.\<close>

lemma fold_update_nth:
  assumes "distinct is" "set is \<subseteq> {0..<length xs}"
  shows "fold (\<lambda>i xs. xs[i := f (xs ! i)]) is xs ! k = (if k \<in> set is then f (xs ! k) else xs ! k)"
  using assms
proof (induction "is" arbitrary: xs)
  case (Cons i rest)
  then show ?case by (cases "k = i") auto
qed simp

lemma fold_update_length [simp]: "length (fold (\<lambda>i xs. xs[i := f (xs ! i)]) is xs) = length xs"
  by (induction "is" arbitrary: xs) auto

lemma fold_update_all:
  assumes "distinct is" "set is = {0..<length xs}"
  shows "fold (\<lambda>i xs. xs[i := f (xs ! i)]) is xs = map f xs"
  by (rule nth_equalityI) (use assms in \<open>auto simp: fold_update_nth\<close>)

lemma index_div_mod: "x < w \<Longrightarrow> (y * w + x) mod w = x \<and> (y * w + x) div w = y" for x :: nat
  by simp

lemma index_inj: "inj_on (\<lambda>xy. snd xy * w + fst xy) ({0..<w} \<times> {0..<h})" for w :: nat
proof (rule inj_onI)
  fix a b
  assume "a \<in> {0..<w} \<times> {0..<h}" "b \<in> {0..<w} \<times> {0..<h}" "snd a * w + fst a = snd b * w + fst b"
  then show "a = b" using index_div_mod [of "fst a" w "snd a"] index_div_mod [of "fst b" w "snd b"]
    by (auto simp: prod_eq_iff)
qed

lemma index_range: "(\<lambda>xy. snd xy * w + fst xy) ` ({0..<w} \<times> {0..<h}) = {0..<w * h}" for w :: nat
proof -
  have "card ((\<lambda>xy. snd xy * w + fst xy) ` ({0..<w} \<times> {0..<h})) = w * h"
    by (simp add: card_image [OF index_inj] card_cartesian_product)
  moreover have "(\<lambda>xy. snd xy * w + fst xy) ` ({0..<w} \<times> {0..<h}) \<subseteq> {0..<w * h}"
  proof -
    have "y * w + x < w * h" if "x < w" "y < h" for x y
    proof -
      have "y * w + x < Suc y * w" using that by simp
      also have "\<dots> \<le> h * w" using that by (intro mult_right_mono) simp_all
      finally show ?thesis by (simp add: mult.commute)
    qed
    then show ?thesis by auto
  qed
  ultimately show ?thesis by (intro card_subset_eq) simp_all
qed

text \<open>The nested loops are a map over the pixels.\<close>

lemma clear_background_map:
  assumes "well_formed img"
  shows "clear_background threshold img = img\<lparr>im_pixels := map (clear_pixel threshold) (im_pixels img)\<rparr>"
proof -
  let ?ix = "\<lambda>xy. snd xy * im_width img + fst xy" and ?cs = "coordinates (im_width img) (im_height img)"
  have "fold (visit threshold (im_width img)) cs ps = fold (\<lambda>i xs. xs[i := clear_pixel threshold (xs ! i)]) (map ?ix cs) ps" for cs ps
    by (induction cs arbitrary: ps) (simp_all add: visit_def Let_def)
  moreover have "distinct (map ?ix ?cs)"
    by (auto simp: coordinates_def distinct_map distinct_product intro: inj_on_subset [OF index_inj [of "im_width img" "im_height img"]])
  moreover have "set (map ?ix ?cs) = {0..<length (im_pixels img)}"
    using index_range [of "im_width img" "im_height img"] assms by (simp add: coordinates_def well_formed_def)
  ultimately show ?thesis by (simp add: clear_background_def fold_update_all)
qed

lemma clear_pixel_idem [simp]: "clear_pixel threshold (clear_pixel threshold p) = clear_pixel threshold p"
  by (simp add: clear_pixel_def near_white_def)

text \<open>
  C40: The loop clears the background and nothing else: it is the same as one pass over all pixels
  that keeps the size of the image and every colour, makes a pixel fully transparent exactly when
  its three channels reach the threshold, and keeps its alpha otherwise; and where Pillow reads
  back what it wrote, a stored image is a fixed point.
\<close>

theorem background_cleared_pointwise:
  assumes "decode png = Some img" and "well_formed img"
    and "decode (encode (clear_background threshold img)) = Some (clear_background threshold img)"
  shows "\<exists>out img'. apply_transparent_background decode encode threshold png = Some out \<and>
    apply_transparent_background decode encode threshold out = Some out \<and>
    decode out = Some img' \<and> im_width img' = im_width img \<and> im_height img' = im_height img \<and>
    list_all2 (\<lambda>p q. px_r q = px_r p \<and> px_g q = px_g p \<and> px_b q = px_b p \<and>
      px_a q = (if threshold \<le> uint (px_r p) \<and> threshold \<le> uint (px_g p) \<and> threshold \<le> uint (px_b p)
                then 0 else px_a p)) (im_pixels img) (im_pixels img')"
proof -
  let ?img' = "clear_background threshold img"
  have img': "?img' = img\<lparr>im_pixels := map (clear_pixel threshold) (im_pixels img)\<rparr>"
    by (rule clear_background_map [OF assms(2)])
  then have "well_formed ?img'" using assms(2) by (simp add: well_formed_def)
  from clear_background_map [OF this] have "clear_background threshold ?img' = ?img'" by (simp add: img' comp_def)
  then have "apply_transparent_background decode encode threshold (encode ?img') = Some (encode ?img')"
    by (simp add: apply_transparent_background_def assms(3))
  moreover have "apply_transparent_background decode encode threshold png = Some (encode ?img')"
    by (simp add: apply_transparent_background_def assms(1))
  ultimately show ?thesis using assms(3)
    by (intro exI [of _ "encode ?img'"] exI [of _ ?img'])
      (simp add: img' list_all2_conv_all_nth clear_pixel_def near_white_def)
qed

text \<open>Two pixels, one of them white, and a codec for the two images involved.\<close>

definition grey :: "8 word \<Rightarrow> pixel" where
  "grey v = \<lparr>px_r = v, px_g = v, px_b = v, px_a = 255\<rparr>"

definition demo_image :: rgba_image where
  "demo_image = \<lparr>im_width = 1, im_height = 2, im_pixels = [grey 250, grey 10]\<rparr>"

definition demo_decode :: "string \<Rightarrow> rgba_image option" where
  "demo_decode s = Some (if s = ''in'' then demo_image else clear_background 245 demo_image)"

lemma demo_cleared: "map px_a (im_pixels (clear_background 245 demo_image)) = [0, 255]"
  by (simp add: clear_background_map well_formed_def demo_image_def grey_def clear_pixel_def near_white_def)

theorem background_cleared_pointwise_witness:
  "\<exists>out. apply_transparent_background demo_decode (\<lambda>_. ''out'') 245 ''in'' = Some out \<and>
     apply_transparent_background demo_decode (\<lambda>_. ''out'') 245 out = Some out"
proof -
  have "demo_decode ''in'' = Some demo_image" "well_formed demo_image"
    "demo_decode ((\<lambda>_. ''out'') (clear_background 245 demo_image)) = Some (clear_background 245 demo_image)"
    by (simp_all add: demo_decode_def demo_image_def well_formed_def)
  from background_cleared_pointwise [OF this] show ?thesis by blast
qed

end
