(* ===== verification/Litegraph.thy ===== *)
theory Litegraph
  imports Workflow_Graph Url
begin

text \<open>
  \<open>scripts/convert_litegraph_to_api.py\<close>: the conversion of a LiteGraph file, as the ComfyUI editor
  saves it, to the API graph that the service submits. The record of a LiteGraph node holds the
  entries that the script reads, at the types LiteGraph writes; every value inside \<open>widgets_values\<close>
  stays an arbitrary JSON value. \<open>Inl ()\<close> is an exception (\<open>IndexError\<close>, \<open>KeyError\<close>, \<open>TypeError\<close>
  or \<open>ValueError\<close>) that ends the script.
\<close>

section \<open>The two graph formats\<close>

record lg_input =
  li_name :: string
  li_link :: "int option"
  li_widget :: bool

datatype lg_widgets = WList "pyval list" | WDict pydict

record lg_node =
  ln_id :: string
  ln_type :: string
  ln_title :: "string option"
  ln_mode :: int
  ln_inputs :: "lg_input list"
  ln_widgets :: lg_widgets

record api_node =
  an_class :: string
  an_inputs :: pydict
  an_title :: string

type_synonym api_graph = "(string \<times> api_node) list"

type_synonym link_map = "(int \<times> string \<times> int) list"

text \<open>A reference is a list whose first entry names a node; a map sends node ids to references.\<close>

type_synonym ref_map = "(string \<times> pyval list) list"

definition build_link_map :: "(int \<times> string \<times> int) list \<Rightarrow> link_map" where
  "build_link_map links = fold (\<lambda>(link_id, src_node, src_slot). AList.update link_id (src_node, src_slot)) links []"

text \<open>The source of an input: the reference that its link denotes, if there is one.\<close>

definition wired :: "link_map \<Rightarrow> lg_input \<Rightarrow> (string \<times> int) option" where
  "wired m i = (case li_link i of None \<Rightarrow> None | Some l \<Rightarrow> map_of m l)"

definition ref_of :: "string \<times> int \<Rightarrow> pyval list" where
  "ref_of src = [VStr (fst src), VInt (snd src)]"

section \<open>One node\<close>

text \<open>\<open>v in SEED_CONTROL_VALUES\<close>; a list or a dictionary is not hashable.\<close>

fun seed_control :: "pyval \<Rightarrow> unit + bool" where
  "seed_control (VStr s) = Inr (s \<in> {''randomize'', ''fixed'', ''increment'', ''decrement''})"
| "seed_control (VList _) = Inl ()"
| "seed_control (VDict _) = Inl ()"
| "seed_control _ = Inr False"

text \<open>The slot after the one just consumed, past a seed control.\<close>

definition after_widget :: "pyval list \<Rightarrow> nat \<Rightarrow> unit + nat" where
  "after_widget ws widget_idx =
     (if widget_idx + 1 < length ws then
        bind_r (seed_control (ws ! (widget_idx + 1))) (\<lambda>c. Inr (if c then widget_idx + 2 else widget_idx + 1))
      else Inr (widget_idx + 1))"

fun list_inputs :: "link_map \<Rightarrow> pyval list \<Rightarrow> lg_input list \<Rightarrow> nat \<Rightarrow> pydict \<Rightarrow> unit + pydict" where
  "list_inputs m ws [] widget_idx api_inputs = Inr api_inputs"
| "list_inputs m ws (i # rest) widget_idx api_inputs =
     (case wired m i of
        Some src \<Rightarrow>
          (let api_inputs = dict_set (li_name i) (VList (ref_of src)) api_inputs in
           if li_widget i then bind_r (after_widget ws widget_idx) (\<lambda>k. list_inputs m ws rest k api_inputs)
           else list_inputs m ws rest widget_idx api_inputs)
      | None \<Rightarrow>
          if li_widget i then
            (let api_inputs = (if widget_idx < length ws then dict_set (li_name i) (ws ! widget_idx) api_inputs else api_inputs) in
             bind_r (after_widget ws widget_idx) (\<lambda>k. list_inputs m ws rest k api_inputs))
          else list_inputs m ws rest widget_idx api_inputs)"

definition dict_inputs :: "link_map \<Rightarrow> pydict \<Rightarrow> lg_input list \<Rightarrow> pydict" where
  "dict_inputs m ws inputs =
     (let wires = fold (\<lambda>i d. case wired m i of None \<Rightarrow> d | Some src \<Rightarrow> dict_set (li_name i) (VList (ref_of src)) d) inputs []
      in fold (\<lambda>(k, v) d. if k = ''videopreview'' \<or> k \<in> fst ` set d then d else dict_set k v d) ws wires)"

text \<open>\<open>node.get("title") or node_type\<close>.\<close>

definition title_or_type :: "lg_node \<Rightarrow> string" where
  "title_or_type n = (case ln_title n of None \<Rightarrow> ln_type n | Some t \<Rightarrow> if t = [] then ln_type n else t)"

definition convert_node :: "link_map \<Rightarrow> lg_node \<Rightarrow> unit + api_node" where
  "convert_node m n =
     bind_r (if ln_type n = ''Seed (rgthree)'' then
               Inr [(''seed'', case ln_widgets n of WList (v # _) \<Rightarrow> v | _ \<Rightarrow> VInt 0)]
             else case ln_widgets n of
               WDict ws \<Rightarrow> Inr (dict_inputs m ws (ln_inputs n))
             | WList ws \<Rightarrow> list_inputs m ws (ln_inputs n) 0 []) (\<lambda>api_inputs.
     Inr \<lparr>an_class = ln_type n, an_inputs = api_inputs, an_title = title_or_type n\<rparr>)"

section \<open>Virtual nodes\<close>

text \<open>\<open>inp_val[0] in ref_map\<close> of a list value.\<close>

fun ref_target :: "pyval list \<Rightarrow> unit + string option" where
  "ref_target [] = Inl ()"
| "ref_target (VStr i # _) = Inr (Some i)"
| "ref_target (VList _ # _) = Inl ()"
| "ref_target (VDict _ # _) = Inl ()"
| "ref_target (_ # _) = Inr None"

definition redirect :: "ref_map \<Rightarrow> pyval \<Rightarrow> unit + pyval" where
  "redirect rm v = (case v of
     VList xs \<Rightarrow> bind_r (ref_target xs) (\<lambda>t. Inr (case t of None \<Rightarrow> v
       | Some i \<Rightarrow> (case map_of rm i of None \<Rightarrow> v | Some r \<Rightarrow> VList r)))
   | _ \<Rightarrow> Inr v)"

text \<open>Every input of the nodes for which \<open>sel\<close> holds is rewritten, in place.\<close>

definition map_inputs :: "(string \<Rightarrow> bool) \<Rightarrow> (pyval \<Rightarrow> unit + pyval) \<Rightarrow> api_graph \<Rightarrow> unit + api_graph" where
  "map_inputs sel f g = map_r (\<lambda>(i, n).
     if sel i then bind_r (map_r (\<lambda>(k, v). bind_r (f v) (\<lambda>v'. Inr (k, v'))) (an_inputs n))
                     (\<lambda>ins. Inr (i, n\<lparr>an_inputs := ins\<rparr>))
     else Inr (i, n)) g"

definition apply_ref_map :: "ref_map \<Rightarrow> api_graph \<Rightarrow> unit + api_graph" where
  "apply_ref_map rm g = map_inputs (\<lambda>_. True) (redirect rm) g"

definition remove_nodes :: "(string \<Rightarrow> bool) \<Rightarrow> api_graph \<Rightarrow> api_graph" where
  "remove_nodes p g = filter (\<lambda>(i, n). \<not> p i) g"

text \<open>Step 1: the inputs that nodes without an equivalent pass on.\<close>

definition passthrough_input :: "string \<Rightarrow> string option" where
  "passthrough_input cls = (if cls = ''Sigmas Easing'' then Some ''sigmas'' else None)"

definition passthrough_map :: "api_graph \<Rightarrow> ref_map" where
  "passthrough_map g = concat (map (\<lambda>(i, n). case passthrough_input (an_class n) of
     None \<Rightarrow> []
   | Some k \<Rightarrow> (case dict_get (an_inputs n) k of VList r \<Rightarrow> [(i, r)] | _ \<Rightarrow> [])) g)"

definition substitute_passthrough :: "api_graph \<Rightarrow> unit + api_graph" where
  "substitute_passthrough g =
     (let pm = passthrough_map g in
      bind_r (apply_ref_map pm g) (\<lambda>g. Inr (remove_nodes (\<lambda>i. i \<in> fst ` set pm) g)))"

text \<open>Step 2: the integer of a float widget; \<open>wv[0]\<close> of a non-empty dictionary is a \<open>KeyError\<close>.\<close>

definition first_int :: "lg_node option \<Rightarrow> unit + int" where
  "first_int n = (case n of None \<Rightarrow> Inr 0 | Some n \<Rightarrow>
     (case ln_widgets n of
        WList [] \<Rightarrow> Inr 0
      | WList (v # _) \<Rightarrow> (case int_of v of None \<Rightarrow> Inl () | Some k \<Rightarrow> Inr k)
      | WDict ws \<Rightarrow> if ws = [] then Inr 0 else Inl ()))"

definition nodes_by_id :: "lg_node list \<Rightarrow> (string \<times> lg_node) list" where
  "nodes_by_id ns = fold (\<lambda>n. dict_set (ln_id n) n) ns []"

definition primitive_int :: "string \<Rightarrow> int \<Rightarrow> api_node" where
  "primitive_int i int_val = \<lparr>an_class = ''PrimitiveInt'', an_inputs = [(''value'', VInt int_val)],
     an_title = ''PrimitiveInt_'' @ i\<rparr>"

definition float_to_int :: "lg_node list \<Rightarrow> api_graph \<Rightarrow> string \<times> api_node \<Rightarrow> unit + (string \<times> api_node)" where
  "float_to_int ns g e = (case e of (i, n) \<Rightarrow>
     if an_class n \<noteq> ''CM_FloatToInt'' then Inr (i, n)
     else (case dict_get (an_inputs n) ''a'' of
       VList r \<Rightarrow>
         bind_r (ref_target r) (\<lambda>t. case t of
           None \<Rightarrow> Inr (i, n)
         | Some src \<Rightarrow>
             (case map_of g src of
                None \<Rightarrow> Inr (i, n)
              | Some s \<Rightarrow>
                  if an_class s \<notin> {''PrimitiveFloat'', ''Float''} then Inr (i, n)
                  else bind_r (first_int (map_of (nodes_by_id ns) src)) (\<lambda>int_val.
                    Inr (i, primitive_int i int_val))))
     | _ \<Rightarrow> Inr (i, n)))"

text \<open>The nodes are replaced one by one; none of the replacements is a float source of another.\<close>

fun replace_floats :: "lg_node list \<Rightarrow> api_graph \<Rightarrow> string list \<Rightarrow> unit + api_graph" where
  "replace_floats ns g [] = Inr g"
| "replace_floats ns g (i # is) = (case map_of g i of
     None \<Rightarrow> replace_floats ns g is
   | Some n \<Rightarrow> bind_r (float_to_int ns g (i, n)) (\<lambda>(i, n'). replace_floats ns (dict_set i n' g) is))"

text \<open>Steps 3 to 6: \<open>SetNode\<close> and \<open>GetNode\<close>.\<close>

definition strip_prefix :: "string \<Rightarrow> string \<Rightarrow> string" where
  "strip_prefix p t = (if starts_with p t then drop (length p) t else t)"

definition set_source :: "api_node \<Rightarrow> pyval list option" where
  "set_source n = (case an_inputs n of (_, VList r) # _ \<Rightarrow> Some r | _ \<Rightarrow> None)"

definition set_map :: "api_graph \<Rightarrow> ref_map" where
  "set_map g = fold (\<lambda>(i, n) m. if an_class n = ''SetNode'' then
     (case set_source n of None \<Rightarrow> m | Some r \<Rightarrow> dict_set (strip_prefix ''Set_'' (an_title n)) r m) else m) g []"

text \<open>The entry \<open>m[i] = r\<close>, if there is a reference \<open>r\<close>.\<close>

fun opt_entry :: "string \<Rightarrow> pyval list option \<Rightarrow> ref_map" where
  "opt_entry i None = []"
| "opt_entry i (Some r) = [(i, r)]"

definition setnode_output_map :: "api_graph \<Rightarrow> ref_map" where
  "setnode_output_map g = concat (map (\<lambda>(i, n). if an_class n = ''SetNode'' then opt_entry i (set_source n) else []) g)"

text \<open>\<open>re.sub(r"_\d+$", "", name)\<close>; \<open>$\<close> also matches before a final line end.\<close>

definition base_name :: "string \<Rightarrow> string" where
  "base_name name =
     (let nl = (name \<noteq> [] \<and> last name = CHR 0x0A); s = (if nl then butlast name else name);
          digits = takeWhile is_digit (rev s); rest = dropWhile is_digit (rev s) in
      if digits \<noteq> [] \<and> rest \<noteq> [] \<and> hd rest = CHR ''_'' then rev (tl rest) @ (if nl then [CHR 0x0A] else []) else name)"

definition resolve_get :: "ref_map \<Rightarrow> string \<Rightarrow> pyval list option" where
  "resolve_get sm title =
     (let name = strip_prefix ''Get_'' title;
          lookup = (\<lambda>k. case map_of sm k of Some r \<Rightarrow> if r = [] then None else Some r | None \<Rightarrow> None) in
      case lookup name of Some r \<Rightarrow> Some r | None \<Rightarrow> lookup (base_name name))"

definition get_resolution :: "api_graph \<Rightarrow> ref_map" where
  "get_resolution g = concat (map (\<lambda>(i, n). if an_class n = ''GetNode'' then
     opt_entry i (resolve_get (set_map g) (an_title n)) else []) g)"

definition virtual_class :: "string \<Rightarrow> bool" where
  "virtual_class cls \<longleftrightarrow> cls = ''SetNode'' \<or> cls = ''GetNode''"

definition virtual_ids :: "api_graph \<Rightarrow> string list" where
  "virtual_ids g = map fst (filter (\<lambda>(i, n). virtual_class (an_class n)) g)"

definition inline_set_get :: "api_graph \<Rightarrow> unit + api_graph" where
  "inline_set_get g =
     (let vs = virtual_ids g; combined = setnode_output_map g @ get_resolution g in
      bind_r (map_inputs (\<lambda>i. i \<notin> set vs) (redirect combined) g) (\<lambda>g.
      Inr (remove_nodes (\<lambda>i. i \<in> set vs) g)))"

text \<open>Step 7: the checkpoint's VAE slot. The last node with the title is the one.\<close>

definition last_titled :: "string \<Rightarrow> api_graph \<Rightarrow> string option" where
  "last_titled t g = (case filter (\<lambda>(i, n). an_title n = t) g of [] \<Rightarrow> None | xs \<Rightarrow> Some (fst (last xs)))"

fun vae_slot :: "string \<Rightarrow> string \<Rightarrow> pyval \<Rightarrow> pyval" where
  "vae_slot ckpt vae (VList [VStr i, s]) = (if i = ckpt \<and> eq_int s 2 then link vae 0 else VList [VStr i, s])"
| "vae_slot ckpt vae v = v"

definition redirect_vae :: "api_graph \<Rightarrow> unit + api_graph" where
  "redirect_vae g = (case (last_titled ''%LTXV_CHECKPOINT%'' g, last_titled ''%LTXV_VIDEO_VAE%'' g) of
     (Some ckpt, Some vae) \<Rightarrow>
       if ckpt \<noteq> [] \<and> vae \<noteq> [] then map_inputs (\<lambda>_. True) (\<lambda>v. Inr (vae_slot ckpt vae v)) g else Inr g
   | _ \<Rightarrow> Inr g)"

text \<open>Step 8: path separators.\<close>

fun slashes :: "pyval \<Rightarrow> pyval" where
  "slashes (VStr s) = VStr (map (\<lambda>c. if c = CHR 0x5C then CHR ''/'' else c) s)"
| "slashes v = v"

definition normalize_paths :: "api_graph \<Rightarrow> unit + api_graph" where
  "normalize_paths g = map_inputs (\<lambda>_. True) (\<lambda>v. Inr (slashes v)) g"

definition resolve_virtual_nodes :: "lg_node list \<Rightarrow> ref_map \<Rightarrow> api_graph \<Rightarrow> unit + api_graph" where
  "resolve_virtual_nodes ns bypass_map g =
     bind_r (apply_ref_map bypass_map g) (\<lambda>g.
     bind_r (substitute_passthrough g) (\<lambda>g.
     bind_r (replace_floats ns g (map fst g)) (\<lambda>g.
     bind_r (inline_set_get g) (\<lambda>g.
     bind_r (redirect_vae g) (\<lambda>g.
     normalize_paths g)))))"

section \<open>The conversion\<close>

definition first_bypass :: "link_map \<Rightarrow> lg_node \<Rightarrow> ref_map \<Rightarrow> ref_map" where
  "first_bypass m n bm =
     (if ln_mode n = 0 then bm
      else case ln_inputs n of [] \<Rightarrow> bm
        | i # _ \<Rightarrow> (case wired m i of None \<Rightarrow> bm | Some src \<Rightarrow> dict_set (ln_id n) (ref_of src) bm))"

text \<open>
  The walk along a chain of bypassed nodes; the first entry of these references is always a node
  id. The nodes visited are never visited again, so it ends.
\<close>

definition ref_node :: "pyval list \<Rightarrow> string" where
  "ref_node r = (case r of VStr i # _ \<Rightarrow> i | _ \<Rightarrow> [])"

function follow :: "ref_map \<Rightarrow> string list \<Rightarrow> pyval list \<Rightarrow> pyval list" where
  "follow bm visited r =
     (case map_of bm (ref_node r) of
        None \<Rightarrow> r
      | Some r' \<Rightarrow> if ref_node r \<in> set visited then r else follow bm (ref_node r # visited) r')"
  by pat_completeness auto

lemma unvisited_decreases:
  assumes "map_of bm k = Some r" "k \<notin> set visited"
  shows "card (fst ` set bm - set (k # visited)) < card (fst ` set bm - set visited)"
proof (rule psubset_card_mono)
  have "k \<in> fst ` set bm" using map_of_SomeD [OF assms(1)] by force
  then show "fst ` set bm - set (k # visited) \<subset> fst ` set bm - set visited" using assms(2) by auto
qed simp

termination follow
  by (relation "measure (\<lambda>(bm, visited, r). card (fst ` set bm - set visited))")
    (use unvisited_decreases in \<open>auto\<close>)

declare follow.simps [simp del]

fun resolve_chains :: "string list \<Rightarrow> ref_map \<Rightarrow> ref_map" where
  "resolve_chains [] bm = bm"
| "resolve_chains (k # ks) bm = (case map_of bm k of
     None \<Rightarrow> resolve_chains ks bm
   | Some r \<Rightarrow> resolve_chains ks (dict_set k (follow bm [k] r) bm))"

definition bypass_map_of :: "link_map \<Rightarrow> lg_node list \<Rightarrow> ref_map" where
  "bypass_map_of m ns = (let bm = fold (first_bypass m) ns [] in resolve_chains (map fst bm) bm)"

text \<open>Blank types and types that start with \<open>42242\<close> are notes.\<close>

definition included :: "(string \<times> string) list \<Rightarrow> lg_node \<Rightarrow> bool" where
  "included anchors n \<longleftrightarrow>
     (ln_mode n = 0 \<or> (case map_of anchors (ln_id n) of None \<Rightarrow> False | Some a \<Rightarrow> starts_with ''%'' a)) \<and>
     ln_type n \<noteq> [] \<and> \<not> starts_with ''42242'' (ln_type n)"

fun convert_nodes :: "(string \<times> string) list \<Rightarrow> link_map \<Rightarrow> lg_node list \<Rightarrow> api_graph \<Rightarrow> unit + api_graph" where
  "convert_nodes anchors m [] g = Inr g"
| "convert_nodes anchors m (n # ns) g =
     (if \<not> included anchors n then convert_nodes anchors m ns g
      else bind_r (convert_node m n) (\<lambda>a.
        convert_nodes anchors m ns (dict_set (ln_id n)
          (case map_of anchors (ln_id n) of None \<Rightarrow> a | Some t \<Rightarrow> a\<lparr>an_title := t\<rparr>) g)))"

definition convert :: "(int \<times> string \<times> int) list \<Rightarrow> lg_node list \<Rightarrow> (string \<times> string) list \<Rightarrow> unit + api_graph" where
  "convert links nodes anchors =
     (let m = build_link_map links in
      bind_r (convert_nodes anchors m nodes []) (\<lambda>g.
      resolve_virtual_nodes nodes (bypass_map_of m nodes) g))"

text \<open>The file that is written: the graph as the service loads it.\<close>

definition api_json :: "api_graph \<Rightarrow> graph" where
  "api_json g = map (\<lambda>(i, n). (i, [(''class_type'', VStr (an_class n)), (''inputs'', VDict (an_inputs n)),
     (''_meta'', VDict [(''title'', VStr (an_title n))])])) g"

section \<open>Chains of bypassed nodes\<close>

text \<open>The step from a bypassed node to the node its first input comes from.\<close>

definition bypass_step :: "ref_map \<Rightarrow> (string \<times> string) set" where
  "bypass_step bm = {(k, ref_node r) | k r. map_of bm k = Some r}"

text \<open>A map whose references are reached along the steps of \<open>bm\<close>.\<close>

definition shortcuts :: "ref_map \<Rightarrow> ref_map \<Rightarrow> bool" where
  "shortcuts bm bm' \<longleftrightarrow> (\<forall>k. (map_of bm' k = None) = (map_of bm k = None)) \<and>
     (\<forall>k r. map_of bm' k = Some r \<longrightarrow> (k, ref_node r) \<in> (bypass_step bm)\<^sup>+)"

lemma shortcuts_dom: "shortcuts bm bm' \<Longrightarrow> map_of bm' k = Some r \<Longrightarrow> \<exists>r'. map_of bm k = Some r'"
  by (metis not_None_eq shortcuts_def)

lemma shortcuts_refl: "shortcuts bm bm"
  by (auto simp: shortcuts_def bypass_step_def)

lemma follow_reaches:
  assumes "shortcuts bm bm'" "acyclic (bypass_step bm)"
    and "\<And>v. v \<in> set visited \<Longrightarrow> (v, ref_node r) \<in> (bypass_step bm)\<^sup>+"
  shows "map_of bm' (ref_node (follow bm' visited r)) = None \<and>
    (follow bm' visited r = r \<or> (ref_node r, ref_node (follow bm' visited r)) \<in> (bypass_step bm)\<^sup>+)"
  using assms
proof (induction bm' visited r rule: follow.induct)
  case (1 bm' visited r)
  show ?case
  proof (cases "map_of bm' (ref_node r)")
    case None
    then show ?thesis by (simp add: follow.simps [of bm' visited r])
  next
    case (Some r')
    have new: "ref_node r \<notin> set visited" using 1(3,4) by (auto simp: acyclic_def)
    have s: "(ref_node r, ref_node r') \<in> (bypass_step bm)\<^sup>+" using 1(2) Some by (auto simp: shortcuts_def)
    have eq: "follow bm' visited r = follow bm' (ref_node r # visited) r'"
      using Some new by (subst follow.simps) simp
    have "(v, ref_node r') \<in> (bypass_step bm)\<^sup>+" if "v \<in> set (ref_node r # visited)" for v
      using that s 1(4) by (auto intro: trancl_trans)
    from "1.IH" [OF Some new 1(2,3) this] s show ?thesis unfolding eq by (auto intro: trancl_trans)
  qed
qed

lemma map_of_set: "map_of (dict_set k v d) = (map_of d)(k \<mapsto> v)"
  by (rule update_conv')

text \<open>\<open>done k\<close>: the reference of \<open>k\<close> leaves the bypassed nodes.\<close>

lemma resolve_chains_final:
  assumes "shortcuts bm bm'" "acyclic (bypass_step bm)"
  shows "shortcuts bm (resolve_chains ks bm') \<and>
    (\<forall>k r. map_of (resolve_chains ks bm') k = Some r \<longrightarrow> k \<in> set ks \<or> map_of bm' k = Some r) \<and>
    (\<forall>k r. map_of (resolve_chains ks bm') k = Some r \<longrightarrow>
       (k \<in> set ks \<or> (\<forall>r'. map_of bm' k = Some r' \<longrightarrow> map_of bm (ref_node r') = None)) \<longrightarrow> map_of bm (ref_node r) = None)"
  using assms
proof (induction ks bm' rule: resolve_chains.induct)
  case (1 bm')
  then show ?case by auto
next
  case (2 k ks bm')
  show ?case
  proof (cases "map_of bm' k")
    case None
    have "map_of (resolve_chains ks bm') k = None" using "2.IH"(1) [OF None 2(3,4)] 2(3) None by (auto simp: shortcuts_def)
    with None "2.IH"(1) [OF None 2(3,4)] show ?thesis by auto
  next
    case (Some r)
    let ?f = "follow bm' [k] r"
    have "(k, ref_node r) \<in> (bypass_step bm)\<^sup>+" using 2(3) Some by (auto simp: shortcuts_def)
    then have f: "map_of bm' (ref_node ?f) = None" "(k, ref_node ?f) \<in> (bypass_step bm)\<^sup>+"
      using follow_reaches [OF 2(3,4), of "[k]" r] by (auto intro: trancl_trans)
    have sc: "shortcuts bm (dict_set k ?f bm')"
      using 2(3) f(2) shortcuts_dom [OF 2(3) Some] by (auto simp: shortcuts_def map_of_set)
    have "map_of bm (ref_node ?f) = None" using f(1) 2(3) by (auto simp: shortcuts_def)
    with "2.IH"(2) [OF Some sc 2(4)] Some show ?thesis by (auto simp: map_of_set split: if_splits)
  qed
qed

text \<open>
  Bypassed nodes disappear behind what feeds them. The walk along a chain of bypassed nodes
  always ends; and when the bypassed nodes of a file do not form a cycle, the resolved map has
  the same nodes, and sends each of them to a node that is not bypassed and that its chain of
  first inputs leads to.
\<close>

theorem bypass_chains_resolved:
  assumes "acyclic (bypass_step (fold (first_bypass m) nodes []))"
    and "map_of (bypass_map_of m nodes) k = Some r"
  shows "map_of (bypass_map_of m nodes) (ref_node r) = None \<and>
    (k, ref_node r) \<in> (bypass_step (fold (first_bypass m) nodes []))\<^sup>+"
proof -
  let ?bm = "fold (first_bypass m) nodes []"
  have "shortcuts ?bm (bypass_map_of m nodes)" "k \<in> fst ` set ?bm \<Longrightarrow> map_of ?bm (ref_node r) = None"
    using resolve_chains_final [OF shortcuts_refl assms(1), of "map fst ?bm"] assms(2)
    by (auto simp: bypass_map_of_def Let_def)
  moreover from shortcuts_dom [OF this(1) assms(2)] have "map_of ?bm k \<noteq> None" by auto
  then have "k \<in> fst ` set ?bm" by (auto simp: map_of_eq_None_iff)
  ultimately show ?thesis using assms(2) by (auto simp: shortcuts_def)
qed

section \<open>References of a graph\<close>

definition node_refs :: "api_node \<Rightarrow> string set" where
  "node_refs n = {t. \<exists>k rest. (k, VList (VStr t # rest)) \<in> set (an_inputs n)}"

definition graph_refs :: "api_graph \<Rightarrow> string set" where
  "graph_refs g = (\<Union>(i, n) \<in> set g. node_refs n)"

definition node_ids :: "api_graph \<Rightarrow> string set" where
  "node_ids g = fst ` set g"

lemma node_ids_filter: "map fst g' = filter P (map fst g) \<Longrightarrow> node_ids g' = {i \<in> node_ids g. P i}"
  unfolding node_ids_def by (metis list.set_map set_filter)

text \<open>What rewriting inputs leaves alone.\<close>

definition rewritten :: "(string \<Rightarrow> bool) \<Rightarrow> (pyval \<Rightarrow> unit + pyval) \<Rightarrow> string \<times> api_node \<Rightarrow> string \<times> api_node \<Rightarrow> bool" where
  "rewritten sel f e e' \<longleftrightarrow> fst e' = fst e \<and> an_class (snd e') = an_class (snd e) \<and> an_title (snd e') = an_title (snd e) \<and>
     (if sel (fst e) then list_all2 (\<lambda>x x'. fst x' = fst x \<and> f (snd x) = Inr (snd x')) (an_inputs (snd e)) (an_inputs (snd e'))
      else snd e' = snd e)"

lemma map_inputs_rewritten: "map_inputs sel f g = Inr g' \<Longrightarrow> list_all2 (rewritten sel f) g g'"
  unfolding map_inputs_def
  by (drule map_r_Inr, erule list_all2_mono)
    (auto simp: rewritten_def bind_r_Inr split: if_splits dest!: map_r_Inr elim!: list_all2_mono)

lemma rewritten_ids: "list_all2 (rewritten sel f) g g' \<Longrightarrow> map fst g' = map fst g"
  by (induction rule: list_all2_induct) (auto simp: rewritten_def)

lemma list_all2_in: "list_all2 P xs ys \<Longrightarrow> y \<in> set ys \<Longrightarrow> \<exists>x \<in> set xs. P x y"
  by (induction rule: list_all2_induct) auto

lemma map_inputs_ids: "map_inputs sel f g = Inr g' \<Longrightarrow> map fst g' = map fst g"
  by (rule rewritten_ids [OF map_inputs_rewritten])

lemma map_inputs_refs:
  assumes "map_inputs sel f g = Inr g'" "(i, n') \<in> set g'" "t \<in> node_refs n'"
  shows "\<exists>n. (i, n) \<in> set g \<and> an_class n' = an_class n \<and>
    (if sel i then \<exists>v k rest. (k, v) \<in> set (an_inputs n) \<and> f v = Inr (VList (VStr t # rest)) else n' = n)"
proof -
  obtain e where e: "e \<in> set g" "rewritten sel f e (i, n')"
    using list_all2_in [OF map_inputs_rewritten [OF assms(1)] assms(2)] by blast
  define n where "n = snd e"
  from e(2) have "e = (i, n)" by (simp add: rewritten_def n_def prod_eq_iff)
  with e have n: "(i, n) \<in> set g" "rewritten sel f (i, n) (i, n')" by simp_all
  obtain k rest where "(k, VList (VStr t # rest)) \<in> set (an_inputs n')" using assms(3) by (auto simp: node_refs_def)
  with n(2) list_all2_in [where y = "(k, VList (VStr t # rest))" and ys = "an_inputs n'" and xs = "an_inputs n"]
  have "sel i \<Longrightarrow> \<exists>v k rest. (k, v) \<in> set (an_inputs n) \<and> f v = Inr (VList (VStr t # rest))"
    by (fastforce simp: rewritten_def)
  with n show ?thesis by (auto simp: rewritten_def)
qed

lemma redirect_ref:
  assumes "redirect rm v = Inr (VList (VStr t # rest))"
  shows "v = VList (VStr t # rest) \<and> map_of rm t = None \<or>
    (\<exists>s r. v = VList (VStr s # r) \<and> map_of rm s = Some (VStr t # rest))"
proof (cases v)
  case (VList xs)
  with assms show ?thesis
    by (cases xs rule: ref_target.cases) (auto simp: redirect_def split: option.splits)
qed (use assms in \<open>auto simp: redirect_def\<close>)

lemma redirect_keeps:
  assumes "redirect rm v = Inr v'" "\<And>s r. v = VList (VStr s # r) \<Longrightarrow> map_of rm s = None"
  shows "v' = v"
proof (cases v)
  case (VList xs)
  with assms show ?thesis by (cases xs rule: ref_target.cases) (auto simp: redirect_def)
qed (use assms in \<open>auto simp: redirect_def\<close>)

text \<open>A redirected reference was there before, or comes from the map.\<close>

lemma redirect_refs:
  assumes "map_inputs sel (redirect rm) g = Inr g'" "(i, n') \<in> set g'" "t \<in> node_refs n'" "sel i"
  shows "\<exists>n. (i, n) \<in> set g \<and> an_class n' = an_class n \<and>
    (t \<in> node_refs n \<and> map_of rm t = None \<or> (\<exists>s rest. s \<in> node_refs n \<and> map_of rm s = Some (VStr t # rest)))"
  using map_inputs_refs [OF assms(1-3)] assms(4) redirect_ref by (fastforce simp: node_refs_def)

text \<open>A node whose references the map does not touch stays as it is.\<close>

lemma redirect_untouched:
  assumes "map_inputs sel (redirect rm) g = Inr g'"
  shows "list_all2 (\<lambda>e e'. fst e' = fst e \<and> an_class (snd e') = an_class (snd e) \<and> an_title (snd e') = an_title (snd e) \<and>
      ((\<forall>s \<in> node_refs (snd e). map_of rm s = None) \<longrightarrow> snd e' = snd e)) g g'"
proof (rule list_all2_mono [OF map_inputs_rewritten [OF assms]])
  fix e e' assume r: "rewritten sel (redirect rm) e e'"
  have "an_inputs (snd e') = an_inputs (snd e)"
    if "list_all2 (\<lambda>x x'. fst x' = fst x \<and> redirect rm (snd x) = Inr (snd x')) (an_inputs (snd e)) (an_inputs (snd e'))"
      and "\<forall>s \<in> node_refs (snd e). map_of rm s = None"
  proof -
    have "list_all2 (=) (an_inputs (snd e)) (an_inputs (snd e'))"
    proof (rule list.rel_mono_strong [OF that(1)])
      fix x x' assume "x \<in> set (an_inputs (snd e))" "fst x' = fst x \<and> redirect rm (snd x) = Inr (snd x')"
      with that(2) redirect_keeps [of rm "snd x" "snd x'"] show "x = x'"
        by (cases x; cases x') (fastforce simp: node_refs_def)
    qed
    then show ?thesis by (simp add: list.rel_eq)
  qed
  with r show "fst e' = fst e \<and> an_class (snd e') = an_class (snd e) \<and> an_title (snd e') = an_title (snd e) \<and>
      ((\<forall>s \<in> node_refs (snd e). map_of rm s = None) \<longrightarrow> snd e' = snd e)"
    by (auto simp: rewritten_def split: if_splits intro: api_node.equality)
qed

section \<open>The passes on a graph without chains of virtual nodes\<close>

definition substituted :: "api_graph \<Rightarrow> string set" where
  "substituted g = fst ` set (passthrough_map g)"

text \<open>
  No virtual node is fed by another one; every \<open>SetNode\<close> is fed by a link and every \<open>GetNode\<close> finds
  its \<open>SetNode\<close>.
\<close>

definition chain_free :: "api_graph \<Rightarrow> bool" where
  "chain_free g \<longleftrightarrow> (\<forall>(i, n) \<in> set g.
     (virtual_class (an_class n) \<or> i \<in> substituted g \<longrightarrow> node_refs n \<inter> (set (virtual_ids g) \<union> substituted g) = {}) \<and>
     (an_class n = ''SetNode'' \<longrightarrow> (\<exists>s rest. set_source n = Some (VStr s # rest))) \<and>
     (an_class n = ''GetNode'' \<longrightarrow> resolve_get (set_map g) (an_title n) \<noteq> None))"

definition virt :: "api_graph \<Rightarrow> api_graph" where
  "virt g = filter (\<lambda>(i, n). virtual_class (an_class n)) g"

lemma fold_filter: "(\<And>x acc. \<not> P x \<Longrightarrow> f x acc = acc) \<Longrightarrow> fold f xs acc = fold f (filter P xs) acc"
  by (induction xs arbitrary: acc) auto

lemma concat_map_filter: "(\<And>x. \<not> P x \<Longrightarrow> f x = []) \<Longrightarrow> concat (map f xs) = concat (map f (filter P xs))"
  by (induction xs) auto

lemma virt_determines:
  "virtual_ids g = map fst (virt g)" "set_map g = set_map (virt g)" "setnode_output_map g = setnode_output_map (virt g)"
  "get_resolution g = get_resolution (virt g)"
proof -
  show "virtual_ids g = map fst (virt g)" by (simp add: virtual_ids_def virt_def)
  show sm: "set_map g = set_map (virt g)"
    unfolding set_map_def virt_def by (rule fold_filter) (auto simp: virtual_class_def split: if_splits)
  show "setnode_output_map g = setnode_output_map (virt g)"
    unfolding setnode_output_map_def virt_def by (rule concat_map_filter) (auto simp: virtual_class_def split: if_splits)
  show "get_resolution g = get_resolution (virt g)"
    unfolding get_resolution_def sm [symmetric] unfolding virt_def by (rule concat_map_filter) (auto simp: virtual_class_def split: if_splits)
qed

lemma virt_same:
  "list_all2 (\<lambda>e e'. an_class (snd e') = an_class (snd e) \<and> (virtual_class (an_class (snd e)) \<longrightarrow> e' = e)) g g' \<Longrightarrow> virt g' = virt g"
  by (induction rule: list_all2_induct) (auto simp: virt_def)

lemma passthrough_value:
  "map_of (passthrough_map g) i = Some r \<Longrightarrow> \<exists>n. (i, n) \<in> set g \<and> (\<forall>t rest. r = VStr t # rest \<longrightarrow> t \<in> node_refs n)"
  by (drule map_of_SomeD) (force simp: passthrough_map_def node_refs_def dict_get_def split: option.splits pyval.splits dest: map_of_SomeD)

lemma substituted_class: "i \<in> substituted g \<Longrightarrow> \<exists>n. (i, n) \<in> set g \<and> an_class n = ''Sigmas Easing''"
  by (auto simp: substituted_def passthrough_map_def passthrough_input_def split: if_splits)

lemma substituted_none: "map_of (passthrough_map g) i = None \<longleftrightarrow> i \<notin> substituted g"
  by (simp add: substituted_def map_of_eq_None_iff)

lemma chain_free_refs:
  "chain_free g \<Longrightarrow> (i, n) \<in> set g \<Longrightarrow> virtual_class (an_class n) \<or> i \<in> substituted g \<Longrightarrow> t \<in> node_refs n \<Longrightarrow>
   t \<notin> set (virtual_ids g) \<and> t \<notin> substituted g"
  unfolding chain_free_def by blast

lemma unique_node: "distinct (map fst g) \<Longrightarrow> (i, n) \<in> set g \<Longrightarrow> (i, n') \<in> set g \<Longrightarrow> n = n'"
  by (auto dest: eq_key_imp_eq_value)

lemma passthrough_pass:
  assumes s: "substitute_passthrough g = Inr g'" and c: "chain_free g" and r: "graph_refs g \<subseteq> node_ids g" and d: "distinct (map fst g)"
  shows "map fst g' = filter (\<lambda>i. i \<notin> substituted g) (map fst g)" "graph_refs g' \<subseteq> node_ids g'" "virt g' = virt g"
proof -
  obtain h where h: "map_inputs (\<lambda>_. True) (redirect (passthrough_map g)) g = Inr h"
    and g': "g' = remove_nodes (\<lambda>i. i \<in> substituted g) h"
    using s by (auto simp: substitute_passthrough_def apply_ref_map_def bind_r_Inr Let_def substituted_def)
  have ids: "map fst h = map fst g" by (rule map_inputs_ids [OF h])
  have "map fst (remove_nodes p h) = filter (\<lambda>i. \<not> p i) (map fst h)" for p
    unfolding remove_nodes_def by (induction h) auto
  then show f: "map fst g' = filter (\<lambda>i. i \<notin> substituted g) (map fst g)" by (simp add: g' ids)
  then have ids': "node_ids g' = node_ids g - substituted g" using node_ids_filter [OF f] by auto
  show "graph_refs g' \<subseteq> node_ids g'"
  proof
    fix t assume "t \<in> graph_refs g'"
    then obtain i n' where "(i, n') \<in> set h" "t \<in> node_refs n'" by (auto simp: graph_refs_def g' remove_nodes_def)
    from redirect_refs [OF h this] obtain n where n: "(i, n) \<in> set g"
      and t: "t \<in> node_refs n \<and> map_of (passthrough_map g) t = None \<or>
        (\<exists>s rest. s \<in> node_refs n \<and> map_of (passthrough_map g) s = Some (VStr t # rest))" by auto
    from t show "t \<in> node_ids g'"
    proof
      assume "t \<in> node_refs n \<and> map_of (passthrough_map g) t = None"
      then show ?thesis using n r ids' by (auto simp: graph_refs_def substituted_none)
    next
      assume "\<exists>s rest. s \<in> node_refs n \<and> map_of (passthrough_map g) s = Some (VStr t # rest)"
      then obtain s rest m where m: "map_of (passthrough_map g) s = Some (VStr t # rest)" "(s, m) \<in> set g" "t \<in> node_refs m"
        using passthrough_value by blast
      moreover from m(1) have "s \<in> substituted g" using substituted_none by (metis option.distinct(1))
      ultimately have "t \<notin> substituted g" using chain_free_refs [OF c] by blast
      moreover have "t \<in> node_ids g" using m r by (auto simp: graph_refs_def)
      ultimately show ?thesis using ids' by simp
    qed
  qed
  have "list_all2 (\<lambda>e e'. an_class (snd e') = an_class (snd e) \<and> (virtual_class (an_class (snd e)) \<longrightarrow> e' = e)) g h"
  proof (rule list.rel_mono_strong [OF redirect_untouched [OF h]])
    fix e e' assume e: "e \<in> set g" and u: "fst e' = fst e \<and> an_class (snd e') = an_class (snd e) \<and> an_title (snd e') = an_title (snd e) \<and>
      ((\<forall>s \<in> node_refs (snd e). map_of (passthrough_map g) s = None) \<longrightarrow> snd e' = snd e)"
    have "virtual_class (an_class (snd e)) \<Longrightarrow> \<forall>s \<in> node_refs (snd e). map_of (passthrough_map g) s = None"
      using chain_free_refs [OF c, of "fst e" "snd e"] e by (simp add: substituted_none)
    with u show "an_class (snd e') = an_class (snd e) \<and> (virtual_class (an_class (snd e)) \<longrightarrow> e' = e)"
      by (auto simp: prod_eq_iff)
  qed
  then have "virt h = virt g" by (rule virt_same)
  moreover have "virt g' = virt h"
  proof -
    have "i \<notin> substituted g" if "(i, n) \<in> set h" "virtual_class (an_class n)" for i n
    proof
      assume "i \<in> substituted g"
      then obtain m where m: "(i, m) \<in> set g" "an_class m = ''Sigmas Easing''" using substituted_class by blast
      have "(i, n) \<in> set (virt h)" using that by (simp add: virt_def)
      then have "(i, n) \<in> set (virt g)" by (simp only: \<open>virt h = virt g\<close>)
      then have "(i, n) \<in> set g" by (simp add: virt_def)
      with m d unique_node have "n = m" by metis
      with m that(2) show False by (simp add: virtual_class_def)
    qed
    then show ?thesis unfolding virt_def g' remove_nodes_def filter_filter by (intro filter_cong) auto
  qed
  ultimately show "virt g' = virt g" by simp
qed

lemma update_existing: "distinct (map fst g) \<Longrightarrow> map_of g i = Some n \<Longrightarrow>
    dict_set i n' g = map (\<lambda>(k, m). (k, if k = i then n' else m)) g"
proof (induction g)
  case (Cons e g)
  then show ?case
    by (cases e) (auto intro!: map_idI [symmetric] simp: rev_image_eqI split: if_splits)
qed simp

lemma primitive_int_facts: "an_class (primitive_int i k) = ''PrimitiveInt''" "node_refs (primitive_int i k) = {}"
  by (simp_all add: primitive_int_def node_refs_def)

lemma float_to_int_node:
  assumes "float_to_int ns g (i, n) = Inr (k, n')"
  shows "k = i \<and> (n' = n \<or> an_class n = ''CM_FloatToInt'' \<and> an_class n' = ''PrimitiveInt'' \<and> node_refs n' = {})"
proof (cases "k = i \<and> n' = n")
  case False
  with assms obtain j where "an_class n = ''CM_FloatToInt''" "k = i" "n' = primitive_int i j"
    by (auto simp: float_to_int_def bind_r_Inr split: if_splits pyval.splits option.splits)
  then show ?thesis by (simp add: primitive_int_facts)
qed simp

lemma filter_map_same: "(\<And>x. x \<in> set xs \<Longrightarrow> P (h x) = P x \<and> (P x \<longrightarrow> h x = x)) \<Longrightarrow> filter P (map h xs) = filter P xs"
  by (induction xs) auto

lemma replace_floats_pass:
  "replace_floats ns g is = Inr g' \<Longrightarrow> distinct (map fst g) \<Longrightarrow>
   map fst g' = map fst g \<and> graph_refs g' \<subseteq> graph_refs g \<and> virt g' = virt g"
proof (induction ns g "is" rule: replace_floats.induct)
  case (2 ns g i "is")
  show ?case
  proof (cases "map_of g i")
    case None
    with 2 show ?thesis by simp
  next
    case (Some n)
    then obtain k n' where f: "float_to_int ns g (i, n) = Inr (k, n')" and g': "replace_floats ns (dict_set k n' g) is = Inr g'"
      using "2.prems"(1) by (auto simp: bind_r_Inr)
    note kn = float_to_int_node [OF f]
    let ?g = "dict_set k n' g"
    have m: "?g = map (\<lambda>(k, m). (k, if k = i then n' else m)) g" using update_existing [OF "2.prems"(2) Some] kn by simp
    have ids: "map fst ?g = map fst g" unfolding m by (simp add: comp_def case_prod_beta)
    have mem: "(i, n) \<in> set g" by (rule map_of_SomeD [OF Some])
    have "graph_refs ?g \<subseteq> graph_refs g" using kn mem unfolding m graph_refs_def by (fastforce split: if_splits)
    moreover have "virt ?g = virt g" unfolding virt_def m
    proof (rule filter_map_same)
      fix e assume e: "e \<in> set g"
      show "(case (case e of (k, m) \<Rightarrow> (k, if k = i then n' else m)) of (i, n) \<Rightarrow> virtual_class (an_class n)) =
            (case e of (i, n) \<Rightarrow> virtual_class (an_class n)) \<and>
          ((case e of (i, n) \<Rightarrow> virtual_class (an_class n)) \<longrightarrow> (case e of (k, m) \<Rightarrow> (k, if k = i then n' else m)) = e)"
        using kn unique_node [OF "2.prems"(2) mem, of "snd e"] e by (cases e) (auto simp: virtual_class_def)
    qed
    moreover have "map fst g' = map fst ?g \<and> graph_refs g' \<subseteq> graph_refs ?g \<and> virt g' = virt ?g"
      using "2.IH"(2) [OF Some g'] ids "2.prems"(2) by simp
    ultimately show ?thesis using ids by auto
  qed
qed auto

lemma fold_dict_value:
  assumes "\<And>x m. f x m = m \<or> (\<exists>k r. P x r \<and> f x m = dict_set k r m)"
  shows "map_of (fold f xs acc) k = Some r \<Longrightarrow> map_of acc k = Some r \<or> (\<exists>x \<in> set xs. P x r)"
proof (induction xs arbitrary: acc)
  case (Cons x xs)
  then have "map_of (f x acc) k = Some r \<or> (\<exists>x \<in> set xs. P x r)" by simp
  then show ?case using assms [of x acc] by (auto simp: map_of_set split: if_splits)
qed simp

lemma set_map_value: "map_of (set_map g) k = Some r \<Longrightarrow> \<exists>i n. (i, n) \<in> set g \<and> an_class n = ''SetNode'' \<and> set_source n = Some r"
  unfolding set_map_def
  by (drule fold_dict_value [where P = "\<lambda>(i, n) r. an_class n = ''SetNode'' \<and> set_source n = Some r", rotated])
    (fastforce split: option.split)+

lemma set_source_ref:
  assumes "set_source n = Some (VStr t # rest)"
  shows "t \<in> node_refs n"
proof -
  obtain k ins where "an_inputs n = (k, VList (VStr t # rest)) # ins"
    using assms by (auto simp: set_source_def split: list.splits pyval.splits)
  then show ?thesis unfolding node_refs_def by (metis (mono_tags, lifting) list.set_intros(1) mem_Collect_eq)
qed

lemma resolve_get_value: "resolve_get sm title = Some r \<Longrightarrow> \<exists>k. map_of sm k = Some r"
  by (auto simp: resolve_get_def Let_def split: option.splits if_splits)

lemma opt_entry_member: "x \<in> set (opt_entry i r) \<longleftrightarrow> fst x = i \<and> r = Some (snd x)"
  by (cases r; cases x) auto

lemma setnode_value: "(s, r) \<in> set (setnode_output_map g) \<longleftrightarrow>
    (\<exists>n. (s, n) \<in> set g \<and> an_class n = ''SetNode'' \<and> set_source n = Some r)"
  unfolding setnode_output_map_def by (auto simp: opt_entry_member split: if_splits)

lemma get_value: "(s, r) \<in> set (get_resolution g) \<longleftrightarrow>
    (\<exists>n. (s, n) \<in> set g \<and> an_class n = ''GetNode'' \<and> resolve_get (set_map g) (an_title n) = Some r)"
  unfolding get_resolution_def by (auto simp: opt_entry_member split: if_splits)

lemma combined_value:
  assumes "map_of (setnode_output_map g @ get_resolution g) s = Some (VStr t # rest)"
  shows "\<exists>i n. (i, n) \<in> set g \<and> an_class n = ''SetNode'' \<and> t \<in> node_refs n"
proof -
  have "(s, VStr t # rest) \<in> set (setnode_output_map g) \<or> (s, VStr t # rest) \<in> set (get_resolution g)"
    using map_of_SomeD [OF assms] by simp
  then show ?thesis
  proof
    assume "(s, VStr t # rest) \<in> set (setnode_output_map g)"
    then show ?thesis using setnode_value set_source_ref by blast
  next
    assume "(s, VStr t # rest) \<in> set (get_resolution g)"
    then show ?thesis using get_value resolve_get_value set_map_value set_source_ref by blast
  qed
qed

text \<open>What \<open>chain_free\<close> says of the virtual nodes alone; later passes keep it.\<close>

definition virtual_wired :: "api_graph \<Rightarrow> bool" where
  "virtual_wired g \<longleftrightarrow> (\<forall>(i, n) \<in> set (virt g). node_refs n \<inter> set (virtual_ids g) = {} \<and>
     (an_class n = ''SetNode'' \<longrightarrow> set_source n \<noteq> None) \<and>
     (an_class n = ''GetNode'' \<longrightarrow> resolve_get (set_map g) (an_title n) \<noteq> None))"

lemma chain_free_virtual: "chain_free g \<Longrightarrow> virtual_wired g"
  unfolding chain_free_def virtual_wired_def virt_def by fastforce

lemma virtual_wired_same: "virt g' = virt g \<Longrightarrow> virtual_wired g' = virtual_wired g"
  by (simp add: virtual_wired_def virt_determines(1,2) [of g] virt_determines(1,2) [of g'])

lemma virtual_ids_class: "i \<in> set (virtual_ids g) \<longleftrightarrow> (\<exists>n. (i, n) \<in> set g \<and> virtual_class (an_class n))"
  by (force simp: virtual_ids_def)

lemma remove_ids: "map fst (remove_nodes p h) = filter (\<lambda>i. \<not> p i) (map fst h)"
  unfolding remove_nodes_def by (induction h) auto

lemma set_get_pass:
  assumes s: "inline_set_get g = Inr g'" and w: "virtual_wired g" and r: "graph_refs g \<subseteq> node_ids g" and d: "distinct (map fst g)"
  shows "map fst g' = filter (\<lambda>i. i \<notin> set (virtual_ids g)) (map fst g)" "graph_refs g' \<subseteq> node_ids g'"
    "\<forall>(i, n) \<in> set g'. \<not> virtual_class (an_class n)"
proof -
  let ?vs = "set (virtual_ids g)" and ?rm = "setnode_output_map g @ get_resolution g"
  obtain h where h: "map_inputs (\<lambda>i. i \<notin> ?vs) (redirect ?rm) g = Inr h" and g': "g' = remove_nodes (\<lambda>i. i \<in> ?vs) h"
    using s by (auto simp: inline_set_get_def bind_r_Inr Let_def)
  have ids: "map fst h = map fst g" by (rule map_inputs_ids [OF h])
  show f: "map fst g' = filter (\<lambda>i. i \<notin> ?vs) (map fst g)" by (simp add: g' ids remove_ids)
  then have ids': "t \<in> node_ids g' \<longleftrightarrow> t \<in> node_ids g \<and> t \<notin> ?vs" for t
    using node_ids_filter [OF f] by simp
  have wired: "node_refs n \<inter> ?vs = {}" "an_class n = ''SetNode'' \<Longrightarrow> set_source n \<noteq> None"
    "an_class n = ''GetNode'' \<Longrightarrow> resolve_get (set_map g) (an_title n) \<noteq> None"
    if "(i, n) \<in> set g" "virtual_class (an_class n)" for i n
    using w that unfolding virtual_wired_def virt_def by fastforce+
  have known: "t \<notin> ?vs" if "map_of ?rm t = None" for t
  proof
    assume "t \<in> ?vs"
    then obtain n where n: "(t, n) \<in> set g" "virtual_class (an_class n)" by (auto simp: virtual_ids_class)
    have "\<exists>r. (t, r) \<in> set ?rm"
    proof (cases "an_class n = ''SetNode''")
      case True
      then obtain r where "set_source n = Some r" using wired(2) [OF n] by blast
      then have "(t, r) \<in> set (setnode_output_map g)" using n(1) True by (auto simp: setnode_value)
      then show ?thesis by auto
    next
      case False
      then have c: "an_class n = ''GetNode''" using n(2) by (simp add: virtual_class_def)
      then obtain r where "resolve_get (set_map g) (an_title n) = Some r" using wired(3) [OF n] by blast
      then have "(t, r) \<in> set (get_resolution g)" using n(1) c by (auto simp: get_value)
      then show ?thesis by auto
    qed
    then show False using that by (metis map_of_eq_None_iff fst_conv image_eqI)
  qed
  show "graph_refs g' \<subseteq> node_ids g'"
  proof
    fix t assume "t \<in> graph_refs g'"
    then obtain i n' where i: "(i, n') \<in> set h" "t \<in> node_refs n'" "i \<notin> ?vs" by (auto simp: graph_refs_def g' remove_nodes_def)
    from redirect_refs [OF h this] obtain n where n: "(i, n) \<in> set g"
      and t: "t \<in> node_refs n \<and> map_of ?rm t = None \<or> (\<exists>s rest. s \<in> node_refs n \<and> map_of ?rm s = Some (VStr t # rest))" by blast
    from t show "t \<in> node_ids g'"
    proof
      assume "t \<in> node_refs n \<and> map_of ?rm t = None"
      then show ?thesis using n r known ids' by (auto simp: graph_refs_def)
    next
      assume "\<exists>s rest. s \<in> node_refs n \<and> map_of ?rm s = Some (VStr t # rest)"
      then obtain j m where m: "(j, m) \<in> set g" "an_class m = ''SetNode''" "t \<in> node_refs m" using combined_value by blast
      then have "t \<notin> ?vs" using wired(1) [of j m] by (auto simp: virtual_class_def)
      moreover have "t \<in> node_ids g" using m r by (auto simp: graph_refs_def)
      ultimately show ?thesis using ids' by simp
    qed
  qed
  show "\<forall>(i, n) \<in> set g'. \<not> virtual_class (an_class n)"
  proof (rule ballI, rule case_prodI2)
    fix e i n' assume "e \<in> set g'" "e = (i, n')"
    then have i: "(i, n') \<in> set h" "i \<notin> ?vs" by (auto simp: g' remove_nodes_def)
    then obtain e0 where e0: "e0 \<in> set g" "rewritten (\<lambda>i. i \<notin> ?vs) (redirect ?rm) e0 (i, n')"
      using list_all2_in [OF map_inputs_rewritten [OF h]] by blast
    then have "(i, snd e0) \<in> set g" "an_class n' = an_class (snd e0)" by (auto simp: rewritten_def prod_eq_iff)
    then show "\<not> virtual_class (an_class n')" using i(2) by (auto simp: virtual_ids_class)
  qed
qed

text \<open>A pass that only rewrites inputs to values with references to nodes of the graph.\<close>

lemma plain_pass:
  assumes h: "map_inputs (\<lambda>_. True) f g = Inr g'" and r: "graph_refs g \<subseteq> node_ids g"
    and c: "\<forall>(i, n) \<in> set g. \<not> virtual_class (an_class n)"
    and f: "\<forall>v t rest. f v = Inr (VList (VStr t # rest)) \<longrightarrow> t \<in> node_ids g \<or> (\<exists>rest'. v = VList (VStr t # rest'))"
  shows "map fst g' = map fst g" "graph_refs g' \<subseteq> node_ids g'" "\<forall>(i, n) \<in> set g'. \<not> virtual_class (an_class n)"
proof -
  show ids: "map fst g' = map fst g" by (rule map_inputs_ids [OF h])
  then have ids': "node_ids g' = node_ids g" unfolding node_ids_def by (metis list.set_map)
  show "graph_refs g' \<subseteq> node_ids g'"
  proof
    fix t assume "t \<in> graph_refs g'"
    then obtain i n' where i: "(i, n') \<in> set g'" "t \<in> node_refs n'" by (auto simp: graph_refs_def)
    from map_inputs_refs [OF h this] obtain n v k rest where n: "(i, n) \<in> set g" "(k, v) \<in> set (an_inputs n)"
      "f v = Inr (VList (VStr t # rest))" by auto
    from f n(3) have "t \<in> node_ids g \<or> (\<exists>rest'. v = VList (VStr t # rest'))" by blast
    then show "t \<in> node_ids g'"
    proof
      assume "\<exists>rest'. v = VList (VStr t # rest')"
      then have "t \<in> node_refs n" using n(2) by (auto simp: node_refs_def)
      then show ?thesis using n(1) r ids' by (auto simp: graph_refs_def)
    qed (simp add: ids')
  qed
  show "\<forall>(i, n) \<in> set g'. \<not> virtual_class (an_class n)"
    using c list_all2_in [OF map_inputs_rewritten [OF h]] by (fastforce simp: rewritten_def)
qed

lemma vae_slot_ref: "vae_slot ckpt vae v = VList (VStr t # rest) \<Longrightarrow> t = vae \<or> (\<exists>rest'. v = VList (VStr t # rest'))"
  by (cases "(ckpt, vae, v)" rule: vae_slot.cases) (auto split: if_splits)

lemma slashes_ref: "slashes v = VList (VStr t # rest) \<Longrightarrow> v = VList (VStr t # rest)"
  by (cases v) auto

lemma last_titled_id:
  assumes "last_titled t g = Some i"
  shows "i \<in> node_ids g"
proof -
  obtain xs where xs: "xs = filter (\<lambda>(i, n). an_title n = t) g" by blast
  then have "xs \<noteq> []" "i = fst (last xs)" using assms by (auto simp: last_titled_def split: list.splits)
  then show ?thesis using xs last_in_set [of xs] by (auto simp: node_ids_def)
qed

lemma both_some:
  assumes "(case (a, b) of (Some x, Some y) \<Rightarrow> if x \<noteq> [] \<and> y \<noteq> [] then f x y else Inr g | _ \<Rightarrow> Inr g) = Inr g'"
  shows "g' = g \<or> (\<exists>x y. b = Some y \<and> f x y = Inr g')"
  using assms by (cases a; cases b) (auto split: if_splits)

lemma redirect_vae_cases:
  "redirect_vae g = Inr g' \<Longrightarrow> g' = g \<or> (\<exists>ckpt vae. last_titled ''%LTXV_VIDEO_VAE%'' g = Some vae \<and>
     map_inputs (\<lambda>_. True) (\<lambda>v. Inr (vae_slot ckpt vae v)) g = Inr g')"
  unfolding redirect_vae_def by (rule both_some)

lemma redirect_vae_pass:
  assumes s: "redirect_vae g = Inr g'" and r: "graph_refs g \<subseteq> node_ids g"
    and c: "\<forall>(i, n) \<in> set g. \<not> virtual_class (an_class n)"
  shows "map fst g' = map fst g \<and> graph_refs g' \<subseteq> node_ids g' \<and> (\<forall>(i, n) \<in> set g'. \<not> virtual_class (an_class n))"
proof -
  consider "g' = g" | ckpt vae where "last_titled ''%LTXV_VIDEO_VAE%'' g = Some vae"
      "map_inputs (\<lambda>_. True) (\<lambda>v. Inr (vae_slot ckpt vae v)) g = Inr g'"
    using redirect_vae_cases [OF s] by blast
  then show ?thesis
  proof cases
    case 2
    have "\<forall>v t rest. (Inr (vae_slot ckpt vae v) :: unit + pyval) = Inr (VList (VStr t # rest)) \<longrightarrow>
        t \<in> node_ids g \<or> (\<exists>rest'. v = VList (VStr t # rest'))"
      using vae_slot_ref last_titled_id [OF 2(1)] by blast
    from plain_pass [OF 2(2) r c this] show ?thesis by blast
  qed (use r c in simp)
qed

lemma normalize_pass:
  assumes s: "normalize_paths g = Inr g'" and r: "graph_refs g \<subseteq> node_ids g"
    and c: "\<forall>(i, n) \<in> set g. \<not> virtual_class (an_class n)"
  shows "map fst g' = map fst g \<and> graph_refs g' \<subseteq> node_ids g' \<and> (\<forall>(i, n) \<in> set g'. \<not> virtual_class (an_class n))"
proof -
  have "\<forall>v t rest. (Inr (slashes v) :: unit + pyval) = Inr (VList (VStr t # rest)) \<longrightarrow>
      t \<in> node_ids g \<or> (\<exists>rest'. v = VList (VStr t # rest'))"
    using slashes_ref by blast
  from plain_pass [OF s [unfolded normalize_paths_def] r c this] show ?thesis by blast
qed

lemma convert_nodes_distinct:
  "convert_nodes anchors m ns g = Inr g' \<Longrightarrow> distinct (map fst g) \<Longrightarrow> distinct (map fst g')"
proof (induction ns arbitrary: g)
  case (Cons n ns)
  show ?case
  proof (cases "included anchors n")
    case True
    then obtain a where "convert_nodes anchors m ns (dict_set (ln_id n)
        (case map_of anchors (ln_id n) of None \<Rightarrow> a | Some t \<Rightarrow> a\<lparr>an_title := t\<rparr>) g) = Inr g'"
      using Cons.prems(1) by (auto simp: bind_r_Inr)
    then show ?thesis by (rule Cons.IH) (rule distinct_update [OF Cons.prems(2)])
  qed (use Cons in simp)
qed simp


subsection \<open>A small workflow\<close>

definition demo_lg :: "string \<Rightarrow> string \<Rightarrow> string \<Rightarrow> int \<Rightarrow> lg_input list \<Rightarrow> pyval list \<Rightarrow> lg_node" where
  "demo_lg i typ title mode ins ws = \<lparr>ln_id = i, ln_type = typ, ln_title = Some title, ln_mode = mode, ln_inputs = ins, ln_widgets = WList ws\<rparr>"

definition demo_wire :: "string \<Rightarrow> int \<Rightarrow> lg_input" where
  "demo_wire name l = \<lparr>li_name = name, li_link = Some l, li_widget = False\<rparr>"

definition demo_widget :: "string \<Rightarrow> lg_input" where
  "demo_widget name = \<lparr>li_name = name, li_link = None, li_widget = True\<rparr>"

definition demo_lg_nodes :: "lg_node list" where
  "demo_lg_nodes = [demo_lg ''1'' ''CheckpointLoaderSimple'' '''' 0 [] [], demo_lg ''2'' ''LoraLoader'' '''' 4 [demo_wire ''model'' 10] [],
     demo_lg ''3'' ''SetNode'' ''Set_m'' 0 [demo_wire ''*'' 11] [], demo_lg ''4'' ''GetNode'' ''Get_m'' 0 [] [],
     demo_lg ''5'' ''KSampler'' '''' 0 [demo_wire ''model'' 12, demo_widget ''seed'', demo_widget ''steps''] [VInt 7, VStr ''fixed'', VInt 20]]"

definition demo_links :: "(int \<times> string \<times> int) list" where
  "demo_links = [(10, ''1'', 0), (11, ''2'', 0), (12, ''4'', 0)]"

lemma demo_bypass: "fold (first_bypass (build_link_map demo_links)) demo_lg_nodes [] = [(''2'', [VStr ''1'', VInt 0])]"
  "bypass_map_of (build_link_map demo_links) demo_lg_nodes = [(''2'', [VStr ''1'', VInt 0])]"
  by code_simp+

theorem bypass_chains_resolved_witness:
  "map_of (bypass_map_of (build_link_map demo_links) demo_lg_nodes) (ref_node [VStr ''1'', VInt 0]) = None"
proof -
  have "bypass_step [(''2'', [VStr ''1'', VInt 0])] = {(''2'', ''1'')}" by (auto simp: bypass_step_def ref_node_def)
  then have "acyclic (bypass_step (fold (first_bypass (build_link_map demo_links)) demo_lg_nodes []))"
    by (simp add: demo_bypass acyclic_insert wf_acyclic)
  from bypass_chains_resolved [OF this, of "''2''" "[VStr ''1'', VInt 0]"] show ?thesis by (simp add: demo_bypass)
qed

definition demo_plain :: "string \<Rightarrow> string \<Rightarrow> pydict \<Rightarrow> string \<times> api_node" where
  "demo_plain i cls ins = (i, \<lparr>an_class = cls, an_inputs = ins, an_title = cls\<rparr>)"

definition demo_converted :: api_graph where
  "demo_converted = [demo_plain ''1'' ''CheckpointLoaderSimple'' [],
     (''5'', \<lparr>an_class = ''KSampler'', an_inputs = [(''model'', link ''1'' 0), (''seed'', VInt 7), (''steps'', VInt 20)],
              an_title = ''%KSAMPLER%''\<rparr>)]"

definition demo_bypassed :: api_graph where
  "demo_bypassed = [demo_plain ''1'' ''CheckpointLoaderSimple'' [],
     (''3'', \<lparr>an_class = ''SetNode'', an_inputs = [(''*'', link ''1'' 0)], an_title = ''Set_m''\<rparr>),
     (''4'', \<lparr>an_class = ''GetNode'', an_inputs = [], an_title = ''Get_m''\<rparr>),
     (''5'', \<lparr>an_class = ''KSampler'', an_inputs = [(''model'', link ''4'' 0), (''seed'', VInt 7), (''steps'', VInt 20)],
              an_title = ''%KSAMPLER%''\<rparr>)]"

lemma demo_convert:
  "convert demo_links demo_lg_nodes [(''5'', ''%KSAMPLER%'')] = Inr demo_converted"
  "\<exists>g0. convert_nodes [(''5'', ''%KSAMPLER%'')] (build_link_map demo_links) demo_lg_nodes [] = Inr g0 \<and>
     apply_ref_map (bypass_map_of (build_link_map demo_links) demo_lg_nodes) g0 = Inr demo_bypassed \<and> map fst g0 = [''1'', ''3'', ''4'', ''5'']"
proof -
  show "convert demo_links demo_lg_nodes [(''5'', ''%KSAMPLER%'')] = Inr demo_converted" by code_simp
  let ?r = "convert_nodes [(''5'', ''%KSAMPLER%'')] (build_link_map demo_links) demo_lg_nodes []"
  have "(case ?r of Inr g0 \<Rightarrow> apply_ref_map (bypass_map_of (build_link_map demo_links) demo_lg_nodes) g0 = Inr demo_bypassed \<and>
     map fst g0 = [''1'', ''3'', ''4'', ''5''] | Inl _ \<Rightarrow> False)" by code_simp
  then show "\<exists>g0. ?r = Inr g0 \<and> apply_ref_map (bypass_map_of (build_link_map demo_links) demo_lg_nodes) g0 = Inr demo_bypassed \<and>
     map fst g0 = [''1'', ''3'', ''4'', ''5'']" by (auto split: sum.splits)
qed

lemma demo_chain_free: "chain_free demo_bypassed" "graph_refs demo_bypassed \<subseteq> node_ids demo_bypassed"
proof -
  have s: "substituted demo_bypassed = {}" "virtual_ids demo_bypassed = [''3'', ''4'']"
    by (simp_all add: substituted_def passthrough_map_def demo_bypassed_def demo_plain_def passthrough_input_def virtual_ids_def virtual_class_def)
  have r: "resolve_get (set_map demo_bypassed) ''Get_m'' = Some [VStr ''1'', VInt 0]" by code_simp
  show "chain_free demo_bypassed"
    unfolding chain_free_def s by (auto simp: demo_bypassed_def demo_plain_def node_refs_def set_source_def virtual_class_def
        r [unfolded demo_bypassed_def demo_plain_def])
  show "graph_refs demo_bypassed \<subseteq> node_ids demo_bypassed"
    by (auto simp: graph_refs_def node_ids_def demo_bypassed_def demo_plain_def node_refs_def)
qed


text \<open>A \<open>SetNode\<close> fed by a \<open>GetNode\<close>: the sampler is left with a reference to the removed \<open>GetNode\<close>.\<close>

lemma chained_virtual_dangles:
  "case convert [(10, ''1'', 0), (11, ''3'', 0), (12, ''5'', 0)]
     [demo_lg ''1'' ''UNETLoader'' '''' 0 [] [], demo_lg ''2'' ''SetNode'' ''Set_a'' 0 [demo_wire ''*'' 10] [],
      demo_lg ''3'' ''GetNode'' ''Get_a'' 0 [] [], demo_lg ''4'' ''SetNode'' ''Set_b'' 0 [demo_wire ''*'' 11] [],
      demo_lg ''5'' ''GetNode'' ''Get_b'' 0 [] [], demo_lg ''6'' ''KSampler'' '''' 0 [demo_wire ''model'' 12] []] [] of
     Inr g \<Rightarrow> map fst g = [''1'', ''6''] \<and> (case map_of g ''6'' of Some n \<Rightarrow> an_inputs n = [(''model'', link ''3'' 0)] | None \<Rightarrow> False)
   | Inl _ \<Rightarrow> False"
  by code_simp

end
