(* ===== verification/Wan_Options.thy ===== *)
theory Wan_Options
  imports Video_Graph
begin

text \<open>
  The models of the WAN overrides in \<open>app/validation.py\<close> (\<open>WanVideoEncodeOptions\<close> to
  \<open>WanVideoAdvancedOptions\<close>) as tables of fields with their constraints, and what they promise
  of \<open>apply_wan_advanced_patches\<close>: a client reaches the named knobs of a workflow, within their
  ranges, and nothing else. Parsing is Pydantic's; a group is what \<open>model_dump\<close> gives of it.
\<close>

section \<open>Fields\<close>

datatype option_field = FloatIn rat rat | IntIn int int | Flag | TextUpTo nat | OneOf "string list"

text \<open>The values a field can have after parsing, \<open>None\<close> apart.\<close>

fun field_value_ok :: "option_field \<Rightarrow> pyval \<Rightarrow> bool" where
  "field_value_ok (FloatIn lo hi) (VFloat f) = (lo \<le> f \<and> f \<le> hi)"
| "field_value_ok (IntIn lo hi) (VInt i) = (lo \<le> i \<and> i \<le> hi)"
| "field_value_ok Flag (VBool b) = True"
| "field_value_ok (TextUpTo n) (VStr s) = (length s \<le> n)"
| "field_value_ok (OneOf ts) (VStr s) = (s \<in> set ts)"
| "field_value_ok _ _ = False"

type_synonym option_model = "(string \<times> option_field) list"

definition WanVideoEncodeOptions :: option_model where
  "WanVideoEncodeOptions = [(''noise_aug_strength'', FloatIn 0 100), (''start_latent_strength'', FloatIn 0 10),
     (''end_latent_strength'', FloatIn 0 10), (''tiled_vae'', Flag), (''augment_empty_frames'', FloatIn 0 100)]"

definition WanVideoClipEncodeOptions :: option_model where
  "WanVideoClipEncodeOptions = [(''strength_1'', FloatIn (- 10) 10), (''strength_2'', FloatIn (- 10) 10), (''crop'', TextUpTo 64),
     (''combine_embeds'', TextUpTo 64), (''tiles'', IntIn 0 512), (''ratio'', FloatIn 0 2)]"

definition WanVideoDecodeOptions :: option_model where
  "WanVideoDecodeOptions = [(''enable_vae_tiling'', Flag), (''tile_x'', IntIn 16 8192), (''tile_y'', IntIn 16 8192),
     (''tile_stride_x'', IntIn 8 8192), (''tile_stride_y'', IntIn 8 8192), (''normalization'', TextUpTo 64)]"

definition WanVideoBlockSwapOptions :: option_model where
  "WanVideoBlockSwapOptions = [(''blocks_to_swap'', IntIn 0 128), (''offload_img_emb'', Flag), (''offload_txt_emb'', Flag),
     (''use_non_blocking'', Flag), (''vace_blocks_to_swap'', IntIn 0 128), (''prefetch_blocks'', IntIn 0 128),
     (''block_swap_debug'', Flag)]"

definition WanVideoExportOptions :: option_model where
  "WanVideoExportOptions = [(''crf'', IntIn 0 51), (''pix_fmt'', OneOf [''yuv420p'', ''yuv444p'']),
     (''format'', OneOf [''video/h264-mp4'', ''video/webm'', ''video/av1-webm''])]"

text \<open>\<open>extra="forbid"\<close>: every key is a field, and its value is one the field can have.\<close>

definition knob_ok :: "option_model \<Rightarrow> string \<Rightarrow> pyval \<Rightarrow> bool" where
  "knob_ok model k v = (case map_of model k of None \<Rightarrow> False | Some f \<Rightarrow> field_value_ok f v)"

definition group_ok :: "option_model \<Rightarrow> pydict option \<Rightarrow> bool" where
  "group_ok model dump = (case dump of None \<Rightarrow> True | Some d \<Rightarrow> list_all (\<lambda>(k, v). knob_ok model k v) d)"

definition WanVideoAdvancedOptions :: "wan_advanced \<Rightarrow> bool" where
  "WanVideoAdvancedOptions opts \<longleftrightarrow> group_ok WanVideoEncodeOptions (wa_encode opts) \<and>
     group_ok WanVideoClipEncodeOptions (wa_clip_encode opts) \<and> group_ok WanVideoDecodeOptions (wa_decode opts) \<and>
     group_ok WanVideoBlockSwapOptions (wa_block_swap opts) \<and> group_ok WanVideoExportOptions (wa_export opts)"

section \<open>What a client can change\<close>

definition input_at :: "graph \<Rightarrow> string \<Rightarrow> string \<Rightarrow> pyval option" where
  "input_at g i k = (case node_inputs (node_at g i) of None \<Rightarrow> None | Some ins \<Rightarrow> map_of ins k)"

definition wan_knobs :: "option_model list" where
  "wan_knobs = [WanVideoEncodeOptions, WanVideoClipEncodeOptions, WanVideoDecodeOptions, WanVideoBlockSwapOptions,
     WanVideoExportOptions]"

definition knob_set :: "string \<Rightarrow> pyval option \<Rightarrow> bool" where
  "knob_set k value = (case value of None \<Rightarrow> False | Some v \<Rightarrow> list_ex (\<lambda>model. knob_ok model k v) wan_knobs)"

definition confined :: "graph \<Rightarrow> graph \<Rightarrow> bool" where
  "confined g g' \<longleftrightarrow> (\<forall>i k. input_at g' i k = input_at g i k \<or> knob_set k (input_at g' i k))"

lemma confined_refl [simp]: "confined g g"
  by (simp add: confined_def)

lemma confined_trans [trans]: "confined g h \<Longrightarrow> confined h k \<Longrightarrow> confined g k"
  unfolding confined_def by metis

lemma merge_non_none_lookup:
  "map_of (merge_non_none patch d) k = map_of d k \<or> (\<exists>v. map_of (merge_non_none patch d) k = Some v \<and> (k, v) \<in> set patch)"
proof (induction patch arbitrary: d)
  case (Cons p patch)
  obtain k' v' where p: "p = (k', v')"
    by fastforce
  define d' where "d' = (if v' \<noteq> VNone then dict_set k' v' d else d)"
  have "map_of (merge_non_none (p # patch) d) k = map_of (merge_non_none patch d') k"
    by (simp add: merge_non_none_def p d'_def)
  moreover have "map_of d' k = map_of d k \<or> map_of d' k = Some v' \<and> k = k'"
    by (simp add: d'_def)
  ultimately show ?case
    using Cons.IH[of d'] p by auto
qed (simp add: merge_non_none_def)

lemma patch_confined:
  assumes p: "patch_inputs who (merge_non_none d) i g = Inr g'" and m: "model \<in> set wan_knobs" and d: "group_ok model (Some d)"
  shows "confined g g'"
proof -
  obtain ins where ins: "node_inputs (node_at g i) = Some ins" and g': "g' = put_inputs g i (merge_non_none d ins)"
    using p by (auto simp: patch_inputs_def get_inputs_def split: option.splits)
  have "input_at g' j k = input_at g j k \<or> knob_set k (input_at g' j k)" for j k
  proof (cases "j = i \<and> i \<in> fst ` set g")
    case True
    then have new: "input_at g' j k = map_of (merge_non_none d ins) k" and old: "input_at g j k = map_of ins k"
      using ins by (simp_all add: input_at_def g' node_at_put)
    show ?thesis
      using merge_non_none_lookup[of d ins k]
    proof
      assume "\<exists>v. map_of (merge_non_none d ins) k = Some v \<and> (k, v) \<in> set d"
      then obtain v where v: "map_of (merge_non_none d ins) k = Some v" and "(k, v) \<in> set d"
        by blast
      then have "knob_ok model k v"
        using d by (auto simp: group_ok_def list_all_iff)
      then show ?thesis
        using m v new by (auto simp: knob_set_def list_ex_iff)
    qed (simp add: new old)
  next
    case False
    then have "node_at g' j = node_at g j"
      by (simp only: g' node_at_put if_False)
    then show ?thesis
      by (simp add: input_at_def)
  qed
  then show ?thesis
    by (simp add: confined_def)
qed

lemma knobs_confined:
  assumes "model \<in> set wan_knobs" and "group_ok model (Some d)"
  shows "patch_if_class a cls d g = Inr g' \<Longrightarrow> confined g g'" and "patch_if_anchor a d g = Inr g' \<Longrightarrow> confined g g'"
    and "patch_anchor who a (merge_non_none d) g = Inr g' \<Longrightarrow> confined g g'"
  using patch_confined[OF _ assms]
  by (auto simp: patch_if_class_def patch_if_anchor_def patch_anchor_def bind_r_Inr split: if_splits option.splits)

lemma when_some_confined:
  assumes "when_some opt f g = Inr g'" and "\<And>d. opt = Some d \<Longrightarrow> f d g = Inr g' \<Longrightarrow> confined g g'"
  shows "confined g g'"
  using assms by (cases opt) (auto simp: when_some_def)

lemma if_confined: "(if b then F g else Inr g) = Inr g' \<Longrightarrow> (F g = Inr g' \<Longrightarrow> confined g g') \<Longrightarrow> confined g g'"
  by (auto split: if_splits)


section \<open>A small workflow\<close>

definition demo_output_graph :: graph where
  "demo_output_graph = [(''7'', [(''class_type'', VStr ''VHS_VideoCombine''),
     (''inputs'', VDict [(''crf'', VInt 19), (''filename_prefix'', VStr ''out'')]),
     (''_meta'', VDict [(''title'', VStr ''%VIDEO_OUTPUT%'')])])]"

definition demo_export :: wan_advanced where
  "demo_export = \<lparr>wa_encode = None, wa_clip_encode = None, wa_decode = None, wa_block_swap = None,
     wa_export = Some [(''crf'', VInt 30)], wa_merge_loras = None, wa_low_mem_load = None\<rparr>"

lemma demo_patched:
  "case apply_wan_advanced_patches demo_output_graph (Some demo_export) ''t2v'' of
     Inr g' \<Rightarrow> input_at g' ''7'' ''crf'' = Some (VInt 30) | Inl _ \<Rightarrow> False"
  by code_simp


end
