(* ===== verification/Fetch_Tasks.thy ===== *)
theory Fetch_Tasks
  imports Civitai_Fetch
begin

text \<open>
  The tasks of \<open>CivitaiFetcher\<close> (\<open>app/loras/civitai.py\<close>): a semaphore for all fetches and a lock for
  each version, made on demand and pruned when a task leaves. A step of the pool is what a task does
  between two points where asyncio may switch: taking a free lock, releasing, pruning and giving the
  slot back do not suspend. Which of several waiting tasks is woken is left open.
\<close>

section \<open>State and steps\<close>

text \<open>
  A task waits for a slot, waits for the lock of its version with a slot, or holds the lock and is
  in \<open>_fetch\<close>. Locks are numbered; \<open>tp_locks\<close> is \<open>_version_locks\<close>.
\<close>

datatype task_phase = ForSlot int | ForLock int nat | Fetching int nat

record task_pool =
  tp_slots :: nat
  tp_tasks :: "(string \<times> task_phase) list"
  tp_locks :: "int \<Rightarrow> nat option"
  tp_next :: nat

definition new_pool :: "nat \<Rightarrow> task_pool" where
  "new_pool max_concurrent = \<lparr>tp_slots = max_concurrent, tp_tasks = [], tp_locks = Map.empty, tp_next = 0\<rparr>"

definition has_slot :: "task_phase \<Rightarrow> bool" where
  "has_slot ph = (case ph of ForSlot _ \<Rightarrow> False | _ \<Rightarrow> True)"

definition is_fetching :: "task_phase \<Rightarrow> bool" where
  "is_fetching ph = (case ph of Fetching _ _ \<Rightarrow> True | _ \<Rightarrow> False)"

definition locked :: "task_pool \<Rightarrow> nat \<Rightarrow> bool" where
  "locked p l \<longleftrightarrow> list_ex (\<lambda>(t, ph). case ph of Fetching _ k \<Rightarrow> k = l | _ \<Rightarrow> False) (tp_tasks p)"

definition awaited :: "task_pool \<Rightarrow> nat \<Rightarrow> bool" where
  "awaited p l \<longleftrightarrow> list_ex (\<lambda>(t, ph). case ph of ForLock _ k \<Rightarrow> k = l | _ \<Rightarrow> False) (tp_tasks p)"

definition set_phase :: "string \<Rightarrow> task_phase \<Rightarrow> (string \<times> task_phase) list \<Rightarrow> (string \<times> task_phase) list" where
  "set_phase t ph ts = map (\<lambda>(u, x). (u, if u = t then ph else x)) ts"

definition drop_task :: "string \<Rightarrow> (string \<times> task_phase) list \<Rightarrow> (string \<times> task_phase) list" where
  "drop_task t ts = filter (\<lambda>(u, x). u \<noteq> t) ts"

definition spawn_fetch :: "string \<Rightarrow> int \<Rightarrow> task_pool \<Rightarrow> task_pool" where
  "spawn_fetch t v p = p\<lparr>tp_tasks := tp_tasks p @ [(t, ForSlot v)]\<rparr>"

definition lock_for_version :: "int \<Rightarrow> task_pool \<Rightarrow> nat \<times> task_pool" where
  "lock_for_version v p = (case tp_locks p v of
     Some l \<Rightarrow> (l, p)
   | None \<Rightarrow> (tp_next p, p\<lparr>tp_locks := (tp_locks p)(v \<mapsto> tp_next p), tp_next := tp_next p + 1\<rparr>))"

text \<open>
  A task gets a slot, looks up the lock of its version, and takes it, or waits for it: a lock with
  waiters is not taken past them.
\<close>

definition enter_fetch :: "string \<Rightarrow> int \<Rightarrow> task_pool \<Rightarrow> task_pool" where
  "enter_fetch t v p =
     (let (l, p) = lock_for_version v (p\<lparr>tp_slots := tp_slots p - 1\<rparr>)
      in p\<lparr>tp_tasks := set_phase t (if locked p l \<or> awaited p l then ForLock v l else Fetching v l) (tp_tasks p)\<rparr>)"

definition wake_fetch :: "string \<Rightarrow> int \<Rightarrow> nat \<Rightarrow> task_pool \<Rightarrow> task_pool" where
  "wake_fetch t v l p = p\<lparr>tp_tasks := set_phase t (Fetching v l) (tp_tasks p)\<rparr>"

definition maybe_prune_lock :: "int \<Rightarrow> task_pool \<Rightarrow> task_pool" where
  "maybe_prune_lock v p = (case tp_locks p v of
     Some l \<Rightarrow> if locked p l then p else p\<lparr>tp_locks := (tp_locks p)(v := None)\<rparr>
   | None \<Rightarrow> p)"

text \<open>
  The end of \<open>_run\<close>, also of a task that is cancelled while it waits for the lock: the lock is free,
  it is pruned, the slot is given back.
\<close>

definition leave_fetch :: "string \<Rightarrow> int \<Rightarrow> task_pool \<Rightarrow> task_pool" where
  "leave_fetch t v p =
     (let p = maybe_prune_lock v (p\<lparr>tp_tasks := drop_task t (tp_tasks p)\<rparr>) in p\<lparr>tp_slots := tp_slots p + 1\<rparr>)"

text \<open>Cancelled while it waits for a slot.\<close>

definition cancel_waiting :: "string \<Rightarrow> task_pool \<Rightarrow> task_pool" where
  "cancel_waiting t p = p\<lparr>tp_tasks := drop_task t (tp_tasks p)\<rparr>"

inductive pool_step :: "task_pool \<Rightarrow> task_pool \<Rightarrow> bool" where
  spawn: "t \<notin> fst ` set (tp_tasks p) \<Longrightarrow> pool_step p (spawn_fetch t v p)"
| enter: "(t, ForSlot v) \<in> set (tp_tasks p) \<Longrightarrow> 0 < tp_slots p \<Longrightarrow> pool_step p (enter_fetch t v p)"
| wake: "(t, ForLock v l) \<in> set (tp_tasks p) \<Longrightarrow> \<not> locked p l \<Longrightarrow> pool_step p (wake_fetch t v l p)"
| leave: "(t, ph) \<in> set (tp_tasks p) \<Longrightarrow> ph \<in> {Fetching v l, ForLock v l} \<Longrightarrow> pool_step p (leave_fetch t v p)"
| cancel: "(t, ForSlot v) \<in> set (tp_tasks p) \<Longrightarrow> pool_step p (cancel_waiting t p)"

section \<open>What the pool keeps\<close>

lemma set_phase_keys [simp]: "map fst (set_phase t ph ts) = map fst ts"
  by (simp add: set_phase_def case_prod_unfold)

lemma set_phase_member: "(u, y) \<in> set (set_phase t ph ts) \<longleftrightarrow> (if u = t then y = ph \<and> t \<in> fst ` set ts else (u, y) \<in> set ts)"
  unfolding set_phase_def by force

lemma drop_task_member [simp]: "(u, y) \<in> set (drop_task t ts) \<longleftrightarrow> u \<noteq> t \<and> (u, y) \<in> set ts"
  by (auto simp: drop_task_def)

lemma drop_task_distinct: "distinct (map fst ts) \<Longrightarrow> distinct (map fst (drop_task t ts))"
  by (simp add: drop_task_def distinct_map_filter)

text \<open>Counting the tasks in a kind of phase.\<close>

definition phase_count :: "(task_phase \<Rightarrow> bool) \<Rightarrow> (string \<times> task_phase) list \<Rightarrow> nat" where
  "phase_count P ts = length (filter (\<lambda>(t, ph). P ph) ts)"

lemma phase_count_set:
  "distinct (map fst ts) \<Longrightarrow> (t, x) \<in> set ts \<Longrightarrow>
    phase_count P (set_phase t ph ts) + of_bool (P x) = phase_count P ts + of_bool (P ph)"
proof (induction ts)
  case (Cons y ts)
  obtain u z where y: "y = (u, z)"
    by fastforce
  show ?case
  proof (cases "u = t")
    case True
    then have "t \<notin> fst ` set ts" "z = x"
      using Cons.prems y by (auto intro: rev_image_eqI)
    moreover from this have "set_phase t ph ts = ts"
      unfolding set_phase_def by (intro map_idI) force
    ultimately show ?thesis
      using True by (simp add: phase_count_def set_phase_def y)
  next
    case False
    then show ?thesis
      using Cons y by (simp add: phase_count_def set_phase_def)
  qed
qed simp

lemma phase_count_drop:
  "distinct (map fst ts) \<Longrightarrow> (t, x) \<in> set ts \<Longrightarrow> phase_count P (drop_task t ts) + of_bool (P x) = phase_count P ts"
proof (induction ts)
  case (Cons y ts)
  obtain u z where y: "y = (u, z)"
    by fastforce
  show ?case
  proof (cases "u = t")
    case True
    then have "t \<notin> fst ` set ts" "z = x"
      using Cons.prems y by (auto intro: rev_image_eqI)
    moreover from this have "drop_task t ts = ts"
      unfolding drop_task_def by (force simp: filter_id_conv)
    ultimately show ?thesis
      using True by (simp add: phase_count_def drop_task_def y)
  next
    case False
    then show ?thesis
      using Cons y by (simp add: phase_count_def drop_task_def)
  qed
qed simp

lemma phase_count_append [simp]: "phase_count P (ts @ us) = phase_count P ts + phase_count P us"
  by (simp add: phase_count_def)

text \<open>
  Slots are conserved, ids are unique, a lock has one holder, and a lock of the dictionary is held by
  a task of its version.
\<close>

definition pool_ok :: "nat \<Rightarrow> task_pool \<Rightarrow> bool" where
  "pool_ok n p \<longleftrightarrow> tp_slots p + phase_count has_slot (tp_tasks p) = n \<and> distinct (map fst (tp_tasks p)) \<and>
     (\<forall>t u v w l. (t, Fetching v l) \<in> set (tp_tasks p) \<longrightarrow> (u, Fetching w l) \<in> set (tp_tasks p) \<longrightarrow> t = u) \<and>
     (\<forall>t v l. (t, Fetching v l) \<in> set (tp_tasks p) \<or> (t, ForLock v l) \<in> set (tp_tasks p) \<longrightarrow> l < tp_next p) \<and>
     (\<forall>v l. tp_locks p v = Some l \<longrightarrow> (\<exists>t. (t, Fetching v l) \<in> set (tp_tasks p)))"

lemma locked_iff: "locked p l \<longleftrightarrow> (\<exists>t v. (t, Fetching v l) \<in> set (tp_tasks p))"
  unfolding locked_def list_ex_iff by (force split: task_phase.splits)

lemma awaited_iff: "awaited p l \<longleftrightarrow> (\<exists>t v. (t, ForLock v l) \<in> set (tp_tasks p))"
  unfolding awaited_def list_ex_iff by (force split: task_phase.splits)

lemma one_phase: "pool_ok n p \<Longrightarrow> (t, x) \<in> set (tp_tasks p) \<Longrightarrow> (t, y) \<in> set (tp_tasks p) \<Longrightarrow> x = y"
  unfolding pool_ok_def by (blast dest: eq_key_imp_eq_value)

lemma maybe_prune_fields [simp]:
  "tp_slots (maybe_prune_lock v p) = tp_slots p" "tp_tasks (maybe_prune_lock v p) = tp_tasks p"
  "tp_next (maybe_prune_lock v p) = tp_next p"
  by (simp_all add: maybe_prune_lock_def split: option.splits)

lemma maybe_prune_locks:
  "tp_locks (maybe_prune_lock v p) w = Some l \<longleftrightarrow> tp_locks p w = Some l \<and> (w = v \<longrightarrow> locked p l)"
  by (auto simp: maybe_prune_lock_def split: option.splits)

lemma spawn_ok: "pool_ok n p \<Longrightarrow> t \<notin> fst ` set (tp_tasks p) \<Longrightarrow> pool_ok n (spawn_fetch t v p)"
  by (auto simp: pool_ok_def spawn_fetch_def phase_count_def has_slot_def)

lemma cancel_ok:
  assumes ok: "pool_ok n p" and t: "(t, ForSlot v) \<in> set (tp_tasks p)"
  shows "pool_ok n (cancel_waiting t p)"
proof -
  have "phase_count has_slot (drop_task t (tp_tasks p)) = phase_count has_slot (tp_tasks p)"
    using phase_count_drop[OF _ t, of has_slot] ok by (simp add: has_slot_def pool_ok_def)
  moreover have "(t, Fetching w l) \<notin> set (tp_tasks p)" for w l
    using one_phase[OF ok t] by blast
  ultimately show ?thesis
    using ok unfolding pool_ok_def cancel_waiting_def by (auto simp: drop_task_distinct; metis)
qed

lemma wake_ok:
  assumes ok: "pool_ok n p" and t: "(t, ForLock v l) \<in> set (tp_tasks p)" and f: "\<not> locked p l"
  shows "pool_ok n (wake_fetch t v l p)"
proof -
  have "phase_count has_slot (set_phase t (Fetching v l) (tp_tasks p)) = phase_count has_slot (tp_tasks p)"
    using phase_count_set[OF _ t, of has_slot "Fetching v l"] ok by (simp add: has_slot_def pool_ok_def)
  moreover have "(t, Fetching w k) \<notin> set (tp_tasks p)" for w k
    using one_phase[OF ok t] by blast
  moreover have "t \<in> fst ` set (tp_tasks p)"
    using t by force
  ultimately show ?thesis
    using ok f t unfolding pool_ok_def wake_fetch_def locked_iff by (auto simp: set_phase_member; metis)
qed

lemma leave_ok:
  assumes ok: "pool_ok n p" and t: "(t, ph) \<in> set (tp_tasks p)" and ph: "ph \<in> {Fetching v l, ForLock v l}"
  shows "pool_ok n (leave_fetch t v p)"
proof -
  define q where "q = p\<lparr>tp_tasks := drop_task t (tp_tasks p)\<rparr>"
  have slots: "Suc (phase_count has_slot (drop_task t (tp_tasks p))) = phase_count has_slot (tp_tasks p)"
    using phase_count_drop[OF _ t, of has_slot] ok ph by (auto simp: has_slot_def pool_ok_def)
  have held: "\<exists>u. u \<noteq> t \<and> (u, Fetching w k) \<in> set (tp_tasks p)" if k: "tp_locks (maybe_prune_lock v q) w = Some k" for w k
  proof -
    have in_dict: "tp_locks p w = Some k" and still: "w = v \<Longrightarrow> locked q k"
      using k by (simp_all add: maybe_prune_locks) (simp_all add: q_def)
    then obtain u where u: "(u, Fetching w k) \<in> set (tp_tasks p)"
      using ok unfolding pool_ok_def by metis
    show ?thesis
    proof (cases "u = t")
      case True
      then have "w = v"
        using one_phase[OF ok t] u ph by blast
      then obtain u' w' where "u' \<noteq> t" "(u', Fetching w' k) \<in> set (tp_tasks p)"
        using still by (auto simp: locked_iff q_def)
      then show ?thesis
        using ok u True unfolding pool_ok_def by blast
    qed (use u in blast)
  qed
  show ?thesis
    using ok slots held unfolding pool_ok_def leave_fetch_def Let_def q_def[symmetric]
    by (auto simp: q_def drop_task_distinct)
qed

lemma enter_ok:
  assumes ok: "pool_ok n p" and t: "(t, ForSlot v) \<in> set (tp_tasks p)" and s: "0 < tp_slots p"
  shows "pool_ok n (enter_fetch t v p)"
proof -
  have dist: "distinct (map fst (tp_tasks p))" and below: "\<And>u w k. (u, Fetching w k) \<in> set (tp_tasks p) \<Longrightarrow> k < tp_next p"
    "\<And>u w k. (u, ForLock w k) \<in> set (tp_tasks p) \<Longrightarrow> k < tp_next p"
    and held: "\<And>w k. tp_locks p w = Some k \<Longrightarrow> \<exists>u. (u, Fetching w k) \<in> set (tp_tasks p)"
    and one: "\<And>u u' w w' k. (u, Fetching w k) \<in> set (tp_tasks p) \<Longrightarrow> (u', Fetching w' k) \<in> set (tp_tasks p) \<Longrightarrow> u = u'"
    and slots: "tp_slots p + phase_count has_slot (tp_tasks p) = n"
    using ok unfolding pool_ok_def by blast+
  have key: "t \<in> fst ` set (tp_tasks p)" and other: "\<And>y. (t, y) \<in> set (tp_tasks p) \<Longrightarrow> y = ForSlot v"
    using t one_phase[OF ok t] by force+
  have count: "has_slot ph \<Longrightarrow> phase_count has_slot (set_phase t ph (tp_tasks p)) = Suc (phase_count has_slot (tp_tasks p))" for ph
    using phase_count_set[OF dist t, of has_slot ph] by (simp add: has_slot_def)
  show ?thesis
  proof (cases "tp_locks p v")
    case None
    have "\<not> locked p (tp_next p)" "\<not> awaited p (tp_next p)"
      by (auto simp: locked_iff awaited_iff dest!: below)
    then have e: "enter_fetch t v p = p\<lparr>tp_slots := tp_slots p - 1, tp_locks := (tp_locks p)(v \<mapsto> tp_next p),
        tp_next := tp_next p + 1, tp_tasks := set_phase t (Fetching v (tp_next p)) (tp_tasks p)\<rparr>"
      using None by (simp add: enter_fetch_def lock_for_version_def locked_def awaited_def)
    have "tp_slots p - 1 + Suc (phase_count has_slot (tp_tasks p)) = n"
      using slots s by simp
    moreover have "\<exists>u. (u, Fetching w k) \<in> set (set_phase t (Fetching v (tp_next p)) (tp_tasks p))"
      if entry: "((tp_locks p)(v \<mapsto> tp_next p)) w = Some k" for w k
    proof (cases "w = v")
      case True
      then show ?thesis
        using entry key by (auto simp: set_phase_member)
    next
      case False
      then obtain u where "(u, Fetching w k) \<in> set (tp_tasks p)"
        using entry held[of w k] by auto
      moreover from this have "u \<noteq> t"
        using other[of "Fetching w k"] by blast
      ultimately show ?thesis
        by (auto simp: set_phase_member)
    qed
    moreover have "u = u'" if "(u, Fetching w k) \<in> set (set_phase t (Fetching v (tp_next p)) (tp_tasks p))"
        "(u', Fetching w' k) \<in> set (set_phase t (Fetching v (tp_next p)) (tp_tasks p))" for u u' w w' k
      using that one[of u w k u' w'] below(1)[of u w k] below(1)[of u' w' k]
      by (auto simp: set_phase_member split: if_splits)
    moreover have "k < tp_next p + 1" if "(u, Fetching w k) \<in> set (set_phase t (Fetching v (tp_next p)) (tp_tasks p)) \<or>
        (u, ForLock w k) \<in> set (set_phase t (Fetching v (tp_next p)) (tp_tasks p))" for u w k
      using that below(1)[of u w k] below(2)[of u w k] by (auto simp: set_phase_member split: if_splits)
    ultimately show ?thesis
      unfolding pool_ok_def e using dist count[of "Fetching v (tp_next p)"]
      by (intro conjI allI impI) (simp_all add: has_slot_def)
  next
    case (Some l)
    then obtain u0 where "(u0, Fetching v l) \<in> set (tp_tasks p)"
      using held by blast
    then have "locked p l" and l: "l < tp_next p"
      using below(1) by (auto simp: locked_iff)
    then have e: "enter_fetch t v p = p\<lparr>tp_slots := tp_slots p - 1, tp_tasks := set_phase t (ForLock v l) (tp_tasks p)\<rparr>"
      using Some by (simp add: enter_fetch_def lock_for_version_def locked_def)
    have "tp_slots p - 1 + Suc (phase_count has_slot (tp_tasks p)) = n"
      using slots s by simp
    moreover have "\<exists>u. (u, Fetching w k) \<in> set (set_phase t (ForLock v l) (tp_tasks p))" if k: "tp_locks p w = Some k" for w k
    proof -
      obtain u where "(u, Fetching w k) \<in> set (tp_tasks p)"
        using held k by auto
      moreover from this have "u \<noteq> t"
        using other[of "Fetching w k"] by blast
      ultimately show ?thesis
        by (auto simp: set_phase_member)
    qed
    moreover have "u = u'" if "(u, Fetching w k) \<in> set (set_phase t (ForLock v l) (tp_tasks p))"
        "(u', Fetching w' k) \<in> set (set_phase t (ForLock v l) (tp_tasks p))" for u u' w w' k
      using that one[of u w k u' w'] by (auto simp: set_phase_member split: if_splits)
    moreover have "k < tp_next p" if "(u, Fetching w k) \<in> set (set_phase t (ForLock v l) (tp_tasks p)) \<or>
        (u, ForLock w k) \<in> set (set_phase t (ForLock v l) (tp_tasks p))" for u w k
      using that l below(1)[of u w k] below(2)[of u w k] by (auto simp: set_phase_member split: if_splits)
    ultimately show ?thesis
      unfolding pool_ok_def e using dist count[of "ForLock v l"]
      by (intro conjI allI impI) (simp_all add: has_slot_def)
  qed
qed

lemma pool_step_ok: "pool_step p p' \<Longrightarrow> pool_ok n p \<Longrightarrow> pool_ok n p'"
  by (cases rule: pool_step.cases) (auto intro: spawn_ok enter_ok wake_ok leave_ok cancel_ok)

lemma pool_run_ok: "pool_step\<^sup>*\<^sup>* p p' \<Longrightarrow> pool_ok n p \<Longrightarrow> pool_ok n p'"
  by (induction rule: rtranclp_induct) (auto intro: pool_step_ok)

lemma new_pool_ok: "pool_ok n (new_pool n)"
  by (simp add: pool_ok_def new_pool_def phase_count_def)

definition reachable_pool :: "nat \<Rightarrow> task_pool \<Rightarrow> bool" where
  "reachable_pool n p \<longleftrightarrow> pool_step\<^sup>*\<^sup>* (new_pool n) p"

lemma reachable_start: "reachable_pool n (new_pool n)"
  by (simp add: reachable_pool_def)

lemma reachable_next: "reachable_pool n p \<Longrightarrow> pool_step p p' \<Longrightarrow> reachable_pool n p'"
  unfolding reachable_pool_def by (rule rtranclp.rtrancl_into_rtrancl)

lemma reachable_pool_ok: "reachable_pool n p \<Longrightarrow> pool_ok n p"
  unfolding reachable_pool_def by (erule pool_run_ok) (rule new_pool_ok)

text \<open>The versions with a lock are versions of tasks that are fetching.\<close>

lemma dictionary_bounded:
  assumes "pool_ok n p"
  shows "finite (dom (tp_locks p))" and "card (dom (tp_locks p)) \<le> phase_count is_fetching (tp_tasks p)"
proof -
  let ?fs = "filter (\<lambda>(t, ph). is_fetching ph) (tp_tasks p)"
  have sub: "dom (tp_locks p) \<subseteq> set (map (\<lambda>(t, ph). case ph of Fetching v l \<Rightarrow> v | _ \<Rightarrow> 0) ?fs)"
  proof
    fix v
    assume "v \<in> dom (tp_locks p)"
    then obtain t l where "(t, Fetching v l) \<in> set (tp_tasks p)"
      using assms unfolding pool_ok_def by blast
    then have "(t, Fetching v l) \<in> set ?fs"
      by (simp add: is_fetching_def)
    then show "v \<in> set (map (\<lambda>(t, ph). case ph of Fetching v l \<Rightarrow> v | _ \<Rightarrow> 0) ?fs)"
      by force
  qed
  then show "finite (dom (tp_locks p))"
    by (rule finite_subset) simp
  show "card (dom (tp_locks p)) \<le> phase_count is_fetching (tp_tasks p)"
    using card_mono[OF _ sub] card_length le_trans unfolding phase_count_def by (metis List.finite_set length_map)
qed

lemma fetching_counted: "phase_count is_fetching ts \<le> phase_count has_slot ts"
  unfolding phase_count_def by (induction ts) (auto simp: is_fetching_def has_slot_def split: task_phase.splits)

lemma at_most_one_counted:
  "phase_count P ts \<le> 1 \<Longrightarrow> (t, x) \<in> set ts \<Longrightarrow> (u, y) \<in> set ts \<Longrightarrow> P x \<Longrightarrow> P y \<Longrightarrow> t = u"
proof -
  assume "phase_count P ts \<le> 1" "(t, x) \<in> set ts" "(u, y) \<in> set ts" "P x" "P y"
  then have "length (filter (\<lambda>(t, ph). P ph) ts) \<le> 1" "{(t, x), (u, y)} \<subseteq> set (filter (\<lambda>(t, ph). P ph) ts)"
    by (simp_all add: phase_count_def)
  then show "t = u"
    by (cases "filter (\<lambda>(t, ph). P ph) ts") auto
qed

text \<open>
  C27: However fetch tasks are created, run, end or are cancelled, at most \<open>max_concurrent\<close> of them
  fetch at a time, no two hold the same lock, and the dictionary of locks never has more entries
  than tasks are fetching, so it does not grow. With one slot, no two tasks fetch at a time.
\<close>

theorem fetch_slots_bounded:
  assumes "reachable_pool n p"
  shows "phase_count is_fetching (tp_tasks p) \<le> n \<and> card (dom (tp_locks p)) \<le> phase_count is_fetching (tp_tasks p) \<and>
    (\<forall>t u v w k l. \<not> ((t, Fetching v k) \<in> set (tp_tasks p) \<and> (u, Fetching w l) \<in> set (tp_tasks p) \<and> t \<noteq> u \<and> (k = l \<or> n \<le> 1)))"
proof -
  have ok: "pool_ok n p"
    using assms by (rule reachable_pool_ok)
  have n: "phase_count is_fetching (tp_tasks p) \<le> n"
    using ok fetching_counted[of "tp_tasks p"] by (simp add: pool_ok_def)
  have "t = u" if "(t, Fetching v k) \<in> set (tp_tasks p)" "(u, Fetching w l) \<in> set (tp_tasks p)" "k = l \<or> n \<le> 1" for t u v w k l
  proof (cases "n \<le> 1")
    case True
    then show ?thesis
      using at_most_one_counted[of is_fetching "tp_tasks p" t "Fetching v k" u "Fetching w l"] n that(1,2) by (simp add: is_fetching_def)
  next
    case False
    then show ?thesis
      using ok that unfolding pool_ok_def by blast
  qed
  then show ?thesis
    using n dictionary_bounded(2)[OF ok] by blast
qed

text \<open>
  Two tasks of a version with the default of one slot; and, with two slots, a third one: the first
  task prunes the lock the second one waits for, the third makes a new lock, and both are fetching.
\<close>

definition demo_two_tasks :: task_pool where
  "demo_two_tasks = enter_fetch ''a'' 5 (spawn_fetch ''b'' 5 (spawn_fetch ''a'' 5 (new_pool 1)))"

lemma demo_two_reachable: "reachable_pool 1 demo_two_tasks"
proof -
  have "reachable_pool 1 (spawn_fetch ''a'' 5 (new_pool 1))"
    using reachable_start by (rule reachable_next) (rule pool_step.spawn; code_simp)
  then have "reachable_pool 1 (spawn_fetch ''b'' 5 (spawn_fetch ''a'' 5 (new_pool 1)))"
    by (rule reachable_next) (rule pool_step.spawn; code_simp)
  then show ?thesis
    unfolding demo_two_tasks_def by (rule reachable_next) (rule pool_step.enter; code_simp)
qed

theorem fetch_slots_bounded_witness:
  "phase_count is_fetching (tp_tasks demo_two_tasks) \<le> 1 \<and> (''a'', Fetching 5 0) \<in> set (tp_tasks demo_two_tasks)"
proof -
  have "(''a'', Fetching 5 0) \<in> set (tp_tasks demo_two_tasks)"
    by code_simp
  then show ?thesis
    using fetch_slots_bounded[OF demo_two_reachable] by blast
qed

lemma pruning_breaks_exclusion:
  "\<exists>p. reachable_pool 2 p \<and> (''b'', Fetching 5 0) \<in> set (tp_tasks p) \<and> (''c'', Fetching 5 1) \<in> set (tp_tasks p)"
proof -
  let ?p0 = "spawn_fetch ''c'' 5 (spawn_fetch ''b'' 5 (spawn_fetch ''a'' 5 (new_pool 2)))"
  let ?p1 = "enter_fetch ''b'' 5 (enter_fetch ''a'' 5 ?p0)"
  let ?p2 = "leave_fetch ''a'' 5 ?p1"
  let ?p3 = "wake_fetch ''b'' 5 0 (enter_fetch ''c'' 5 ?p2)"
  have "reachable_pool 2 (spawn_fetch ''a'' 5 (new_pool 2))"
    using reachable_start by (rule reachable_next) (rule pool_step.spawn; code_simp)
  then have "reachable_pool 2 (spawn_fetch ''b'' 5 (spawn_fetch ''a'' 5 (new_pool 2)))"
    by (rule reachable_next) (rule pool_step.spawn; code_simp)
  then have "reachable_pool 2 ?p0"
    by (rule reachable_next) (rule pool_step.spawn; code_simp)
  then have "reachable_pool 2 (enter_fetch ''a'' 5 ?p0)"
    by (rule reachable_next) (rule pool_step.enter; code_simp)
  then have "reachable_pool 2 ?p1"
    by (rule reachable_next) (rule pool_step.enter; code_simp)
  then have "reachable_pool 2 ?p2"
    by (rule reachable_next) (rule pool_step.leave[where ph = "Fetching 5 0" and l = 0]; (simp; fail | code_simp))
  then have "reachable_pool 2 (enter_fetch ''c'' 5 ?p2)"
    by (rule reachable_next) (rule pool_step.enter; code_simp)
  then have "reachable_pool 2 ?p3"
    by (rule reachable_next) (rule pool_step.wake; code_simp)
  moreover have "(''b'', Fetching 5 0) \<in> set (tp_tasks ?p3)" "(''c'', Fetching 5 1) \<in> set (tp_tasks ?p3)"
    by code_simp+
  ultimately show ?thesis
    by blast
qed

end
