(* ===== verification/Sync_Wait.thy ===== *)
theory Sync_Wait
  imports Api
begin

text \<open>
  A synchronous request while its job runs (\<open>_run_sync_job\<close> and \<open>_watch_disconnect\<close> of
  \<open>api/images.py\<close>; \<open>api/videos.py\<close> has the same code): the handler waits for the future, the watcher polls
  the connection, the worker writes the row, and after the answer the flush runs. Their steps
  interleave as asyncio likes; a write of the store is one step. The last section holds what the binary
  endpoint reports to the collector.
\<close>

section \<open>The tasks\<close>

text \<open>The watcher: it polls, has handed the job over, has died of a failed write, or was cancelled.\<close>

datatype watcher_phase = Polling | HandedOver | WatchFailed | WatchCancelled

record sync_wait =
  sw_jobs :: jobs
  sw_watcher :: watcher_phase
  sw_end :: "item_end option"
  sw_background :: background

definition start_wait :: "jobs \<Rightarrow> sync_wait" where
  "start_wait t = \<lparr>sw_jobs = t, sw_watcher = Polling, sw_end = None, sw_background = NoTask\<rparr>"

text \<open>One turn of the watcher's loop, when the connection is gone or not and its write succeeds or not.\<close>

definition watch_disconnect :: "bool \<Rightarrow> bool \<Rightarrow> string \<Rightarrow> timestamp \<Rightarrow> sync_wait \<Rightarrow> sync_wait" where
  "watch_disconnect gone written job_id now s =
     (if sw_watcher s \<noteq> Polling \<or> \<not> gone then s
      else if written then s\<lparr>sw_jobs := client_disconnected (sw_jobs s) job_id now, sw_watcher := HandedOver\<rparr>
      else s\<lparr>sw_watcher := WatchFailed\<rparr>)"

text \<open>The handler after the shield: the watcher is cancelled unless it is done; success schedules the flush.\<close>

definition resume_handler :: "string \<Rightarrow> item_end \<Rightarrow> sync_wait \<Rightarrow> sync_wait" where
  "resume_handler job_id e s = s\<lparr>sw_end := Some e,
     sw_watcher := (if sw_watcher s = Polling then WatchCancelled else sw_watcher s),
     sw_background := (case await_result e of Some (Inr r) \<Rightarrow> FlushResponse job_id | _ \<Rightarrow> NoTask)\<rparr>"

definition flush_response :: "timestamp \<Rightarrow> sync_wait \<Rightarrow> sync_wait" where
  "flush_response now s = s\<lparr>sw_jobs := run_background (sw_background s) now (sw_jobs s), sw_background := NoTask\<rparr>"

text \<open>Writes of others leave alone how the answer of this job is delivered.\<close>

definition delivery_of :: "job \<Rightarrow> job_mode \<times> bool \<times> bool" where
  "delivery_of j = (j_mode j, j_webhook_handover j, j_response_delivered j)"

definition same_delivery :: "string \<Rightarrow> jobs \<Rightarrow> jobs \<Rightarrow> bool" where
  "same_delivery job_id t t' \<longleftrightarrow> map_option delivery_of (job_find t' job_id) = map_option delivery_of (job_find t job_id)"

inductive sync_step :: "string \<Rightarrow> sync_wait \<Rightarrow> sync_wait \<Rightarrow> bool" for i where
  polls: "sync_step i s (watch_disconnect gone written i now s)"
| resumes: "sw_end s = None \<Longrightarrow> await_result e \<noteq> None \<Longrightarrow> sync_step i s (resume_handler i e s)"
| flushes: "sync_step i s (flush_response now s)"
| elsewhere: "same_delivery i (sw_jobs s) t \<Longrightarrow> sync_step i s (s\<lparr>sw_jobs := t\<rparr>)"

inductive wait_reachable :: "string \<Rightarrow> jobs \<Rightarrow> sync_wait \<Rightarrow> bool" for i t0 where
  starts: "wait_reachable i t0 (start_wait t0)"
| steps: "wait_reachable i t0 s \<Longrightarrow> sync_step i s s' \<Longrightarrow> wait_reachable i t0 s'"

text \<open>The worker's writes are such writes, for every job.\<close>

lemma guarded_same_delivery:
  assumes "guarded_update t k target f = Inr (t', j')" and "\<And>j. j_id (f j) = j_id j" and "\<And>j. delivery_of (f j) = delivery_of j"
  shows "same_delivery i t t'"
proof -
  have "t' = job_modify k f t"
    using assms(1,2) by (rule setter_Inr)
  then show ?thesis
    by (simp add: same_delivery_def jt.find_modify[OF assms(2)] option.map_comp comp_def assms(3))
qed

lemma worker_same_delivery:
  "set_running t k p c now = Inr (t', j') \<Longrightarrow> same_delivery i t t'"
  "set_completed t k ks r now = Inr (t', j') \<Longrightarrow> same_delivery i t t'"
  "set_failed t k c m now = Inr (t', j') \<Longrightarrow> same_delivery i t t'"
  by (auto simp: setter_defs elim!: guarded_same_delivery intro!: ext) (simp_all add: delivery_of_def job_row_defs)

section \<open>Who gets the result\<close>

text \<open>
  A row is handed over by the watcher, or its answer was sent, or neither; and an answer is only
  counted as sent when the future gave a result.
\<close>

fun delivery_ok :: "watcher_phase \<Rightarrow> item_end option \<Rightarrow> (job_mode \<times> bool \<times> bool) option \<Rightarrow> bool" where
  "delivery_ok ph e None = False"
| "delivery_ok ph e (Some (mode, handover, sent)) \<longleftrightarrow>
     (if ph = HandedOver then mode = Async \<and> handover \<and> \<not> sent
      else mode = Sync \<and> handover = sent \<and> (sent \<longrightarrow> (\<exists>r. e = Some (Resolved r))))"

definition wait_consistent :: "string \<Rightarrow> sync_wait \<Rightarrow> bool" where
  "wait_consistent i s \<longleftrightarrow>
     delivery_ok (sw_watcher s) (sw_end s) (map_option delivery_of (job_find (sw_jobs s) i)) \<and>
     (sw_watcher s = Polling \<longrightarrow> sw_end s = None) \<and> (sw_watcher s = WatchCancelled \<longrightarrow> sw_end s \<noteq> None) \<and>
     (sw_background s = NoTask \<or> sw_background s = FlushResponse i \<and> (\<exists>r. sw_end s = Some (Resolved r)))"

lemma await_success: "await_result e = Some (Inr r) \<longleftrightarrow> e = Resolved r"
  by (auto simp: await_result_def reply_def raise_http_def split: item_end.splits pipe_error.splits)

lemma sync_step_consistent:
  assumes "sync_step i s s'" and "wait_consistent i s"
  shows "wait_consistent i s'"
proof -
  obtain j where j: "job_find (sw_jobs s) i = Some j"
    using assms(2) by (cases "job_find (sw_jobs s) i") (auto simp: wait_consistent_def)
  show ?thesis
    using assms(1)
  proof (cases rule: sync_step.cases)
    case (polls gone written now)
    then show ?thesis
      using assms(2) j
      by (auto simp: watch_disconnect_def wait_consistent_def client_disconnected_def mark_async_with_handover_def
        jt.find_modify delivery_of_def split: option.splits if_splits)
  next
    case (resumes e)
    then show ?thesis
      using assms(2) j
      by (auto simp: resume_handler_def wait_consistent_def await_success delivery_of_def split: option.splits if_splits sum.splits)
  next
    case (flushes now)
    then show ?thesis
      using assms(2) j
      by (auto simp: flush_response_def run_background_def wait_consistent_def mark_response_delivered_def
        jt.find_modify delivery_of_def split: option.splits if_splits)
  next
    case (elsewhere t)
    then show ?thesis
      using assms(2) j by (auto simp: wait_consistent_def same_delivery_def)
  qed
qed

lemma reachable_consistent:
  assumes "wait_reachable i t0 s" and "job_find t0 i = Some j0" and "delivery_of j0 = (Sync, False, False)"
  shows "wait_consistent i s"
  using assms(1)
proof induction
  case starts
  then show ?case
    using assms(2,3) by (simp add: wait_consistent_def start_wait_def)
next
  case (steps s s')
  then show ?case
    using sync_step_consistent by blast
qed


text \<open>The client goes, the watcher notes it or fails to, then the job ends and the answer is written into the void.\<close>

definition demo_result :: job_result where
  "demo_result = \<lparr>jr_data = [], jr_duration_ms = 5, jr_resolved_seed = 7\<rparr>"

definition demo_wait :: "bool \<Rightarrow> sync_wait" where
  "demo_wait written = flush_response 13 (resume_handler ''gen_1'' (Resolved demo_result)
     (watch_disconnect True written ''gen_1'' 11 (start_wait demo_created)))"

lemma demo_wait_reachable: "wait_reachable ''gen_1'' demo_created (demo_wait written)"
proof -
  have "wait_reachable ''gen_1'' demo_created (watch_disconnect True written ''gen_1'' 11 (start_wait demo_created))"
    by (rule steps[OF starts polls])
  moreover have "sw_end (watch_disconnect True written ''gen_1'' 11 (start_wait demo_created)) = None"
    by (simp add: watch_disconnect_def start_wait_def)
  ultimately have "wait_reachable ''gen_1'' demo_created (resume_handler ''gen_1'' (Resolved demo_result)
      (watch_disconnect True written ''gen_1'' 11 (start_wait demo_created)))"
    by (rule steps[OF _ resumes]) (simp add: await_result_def)
  then show ?thesis
    unfolding demo_wait_def by (rule steps[OF _ flushes])
qed

lemma demo_created_delivery: "map_option delivery_of (job_find demo_created ''gen_1'') = Some (Sync, False, False)"
  by code_simp


text \<open>The write of the watcher is not repeated: a client that was seen to go then counts as served.\<close>

lemma failed_watch_counts_as_sent:
  "map_option delivery_of (job_find (sw_jobs (demo_wait False)) ''gen_1'') = Some (Sync, True, True)"
  by code_simp

section \<open>What the binary endpoint reports\<close>

text \<open>
  \<open>_record_binary\<close>: the status under which \<open>create_image_binary\<close> reports a request to the collector. An
  exception that is not caught there, or a future that is never resolved, is not reported.
\<close>

definition reported_stop :: "string \<Rightarrow> http_exc + response \<Rightarrow> string option" where
  "reported_stop status stop = (case stop of Inr _ \<Rightarrow> Some status | Inl _ \<Rightarrow> None)"

definition early_status :: "http_exc + response \<Rightarrow> string option" where
  "early_status stop = (case stop of Inr resp \<Rightarrow> Some (''http_'' @ show_int (rs_status resp)) | Inl _ \<Rightarrow> None)"

definition parse_status :: "api_world \<Rightarrow> http_exc + response \<Rightarrow> string option" where
  "parse_status aw stop = (if aw_locked aw then Some ''runtime_reconfiguring'' else reported_stop ''validation_error'' stop)"

definition admission_status :: "api_world \<Rightarrow> generate_request \<Rightarrow> http_exc + response \<Rightarrow> string option" where
  "admission_status aw body stop = (case resolve_and_validate (aw_vworld aw) (aw_registry aw) body of
     Inl (ValidationFailure code msg) \<Rightarrow> Some code | _ \<Rightarrow> early_status stop)"

definition served_status :: "s3_answer \<Rightarrow> objects \<Rightarrow> jobs \<Rightarrow> string \<Rightarrow> string option" where
  "served_status ans objs t job_id = (case servable t job_id of
     None \<Rightarrow> Some ''comfy_error''
   | Some row \<Rightarrow>
       (let (bucket, key) = partition_on (CHR ''/'') (hd (j_output_keys row)) in
        case get_object ans objs bucket key of
          Inl (StorageNotFound _) \<Rightarrow> Some ''not_found''
        | Inl (StorageFailed _) \<Rightarrow> Some ''storage_error''
        | Inl (StorageOther _) \<Rightarrow> None
        | Inr _ \<Rightarrow> Some ''ok''))"

definition record_binary :: "api_world \<Rightarrow> turn \<Rightarrow> s3_answer \<Rightarrow> (worker \<Rightarrow> objects) \<Rightarrow> http_body \<Rightarrow> worker \<Rightarrow> string option" where
  "record_binary aw turn ans objs_after b s =
     (case bind_r (parse_image_body aw b) (\<lambda>(raw, body). bind_r (binary_only body) (\<lambda>_. Inr (raw, body))) of
        Inl stop \<Rightarrow> parse_status aw stop
      | Inr (raw, body) \<Rightarrow> (case admit_image aw raw body s of
          (Inl stop, s) \<Rightarrow> admission_status aw body stop
        | (Inr j, s) \<Rightarrow> (case turn j s of (e, s) \<Rightarrow> (case await_result e of
              None \<Rightarrow> None
            | Some (Inl stop) \<Rightarrow> early_status stop
            | Some (Inr r) \<Rightarrow> served_status ans (objs_after s) (wk_jobs s) (j_id j)))))"

text \<open>A request is reported exactly when it is answered, and one that is answered 200 as \<open>ok\<close>.\<close>

definition reports :: "string option \<Rightarrow> (http_exc + response) option \<Rightarrow> bool" where
  "reports status ans \<longleftrightarrow> (status \<noteq> None \<longleftrightarrow> (\<exists>resp. ans = Some (Inr resp))) \<and>
     (\<forall>resp. ans = Some (Inr resp) \<longrightarrow> rs_status resp = 200 \<longrightarrow> status = Some ''ok'')"

lemma reports_refusal:
  assumes "refuses stop" and "status \<noteq> None \<longleftrightarrow> (\<exists>resp. stop = Inr resp)"
  shows "reports status (Some stop)"
  using assms by (auto simp: reports_def refuses_def)

lemma parse_reports:
  assumes "bind_r (parse_image_body aw b) (\<lambda>(raw, body). bind_r (binary_only body) (\<lambda>_. Inr (raw, body))) = Inl stop"
  shows "reports (parse_status aw stop) (Some stop)"
proof (rule reports_refusal)
  show "refuses stop"
    using assms parse_refuses
    by (auto simp: parse_image_body_def bind_r_Inl binary_only_def split: if_splits)
  show "parse_status aw stop \<noteq> None \<longleftrightarrow> (\<exists>resp. stop = Inr resp)"
    using assms by (cases stop) (auto simp: parse_status_def reported_stop_def parse_image_body_def check_runtime_lock_def reply_def)
qed

lemma admission_reports:
  assumes "admit_image aw raw body s = (Inl stop, s')"
  shows "reports (admission_status aw body stop) (Some stop)"
proof (rule reports_refusal)
  show "refuses stop"
    using admit_image_ok[of s body aw raw] assms by (simp add: admission_ok_def)
  show "admission_status aw body stop \<noteq> None \<longleftrightarrow> (\<exists>resp. stop = Inr resp)"
    using assms
    by (auto simp: admission_status_def early_status_def admit_image_def validated_or_reply_def
        split: sum.splits validation_error.splits)
qed

lemma await_reports: "await_result e = Some (Inl stop) \<Longrightarrow> reports (early_status stop) (Some stop)"
  using await_rejected[of e]
  by (intro reports_refusal) (auto simp: early_status_def await_result_def split: sum.splits item_end.splits)

lemma served_reports: "reports (served_status ans objs (wk_jobs s) (j_id j)) (fst (binary_answer ans now objs j s))"
  by (auto simp: reports_def served_status_def binary_answer_def storage_response_def error_response_def
      split: option.splits sum.splits storage_exc.splits prod.splits)

lemma binary_request_reported:
  "reports (record_binary aw turn ans objs_after b s) (fst (create_image_binary aw turn ans now objs_after b s))"
proof (cases "bind_r (parse_image_body aw b) (\<lambda>(raw, body). bind_r (binary_only body) (\<lambda>_. Inr (raw, body)))")
  case (Inl stop)
  then show ?thesis
    using parse_reports[OF Inl] by (simp add: record_binary_def create_image_binary_def)
next
  case (Inr r)
  obtain raw body where r: "r = (raw, body)"
    by fastforce
  obtain a s1 where a: "admit_image aw raw body s = (a, s1)"
    by fastforce
  show ?thesis
  proof (cases a)
    case (Inl stop)
    then show ?thesis
      using Inr r a admission_reports[of aw raw body s stop s1] by (simp add: record_binary_def create_image_binary_def)
  next
    case (Inr j)
    obtain e s2 where t: "turn j s1 = (e, s2)"
      by fastforce
    show ?thesis
      using \<open>_ = Inr r\<close> r a Inr t await_reports[of e] served_reports
      by (auto simp: record_binary_def create_image_binary_def reports_def split: option.splits sum.splits)
  qed
qed

end
