(* ===== verification/Background_Loops.thy ===== *)
theory Background_Loops
  imports Sync_Wait Recovery Webhook
begin

text \<open>
  The endless loops of the process: \<open>WebhookDispatcher.run\<close> with its configuration, and
  \<open>OrphanReaper.run\<close>. A run is the list of its rounds until it is cancelled; between two rounds the
  rest of the service changes the jobs as it likes, so every round brings the table it finds.
\<close>

section \<open>Rounds\<close>

text \<open>An exception of a round is logged, with what the round has done so far, and the next one follows.\<close>

fun loop_rounds :: "('w \<Rightarrow> 's \<Rightarrow> bool \<times> 's) \<Rightarrow> 'w list \<Rightarrow> 's \<Rightarrow> 's" where
  "loop_rounds body [] s = s"
| "loop_rounds body (w # ws) s = loop_rounds body ws (snd (body w s))"

lemma loop_rounds_invariant:
  assumes "P s" and "\<And>w s. w \<in> set ws \<Longrightarrow> P s \<Longrightarrow> P (snd (body w s))"
  shows "P (loop_rounds body ws s)"
  using assms by (induction ws arbitrary: s) auto

section \<open>The dispatcher\<close>

record dispatcher_config =
  dc_max_in_flight :: int
  dc_http_timeout_s :: rat

text \<open>\<open>None\<close> is the \<open>ValueError\<close> of a text that is no number.\<close>

definition dispatcher_from_env :: "environ \<Rightarrow> dispatcher_config option" where
  "dispatcher_from_env env =
     (case (py_int (getenv env ''WEBHOOK_MAX_IN_FLIGHT'' ''8''), py_float (getenv env ''WEBHOOK_HTTP_TIMEOUT_S'' ''10'')) of
        (Some n, Some s) \<Rightarrow> Some \<lparr>dc_max_in_flight = max 1 n, dc_http_timeout_s = max 1 s\<rparr>
      | _ \<Rightarrow> None)"

lemma dispatcher_config_positive:
  "dispatcher_from_env env = Some c \<Longrightarrow> 1 \<le> dc_max_in_flight c \<and> 1 \<le> dc_http_timeout_s c"
  by (auto simp: dispatcher_from_env_def split: option.splits)

record dispatcher_round =
  dr_jobs :: jobs
  dr_scan_ok :: bool
  dr_world :: "nat \<Rightarrow> delivery_world"

definition dispatch_round :: "dispatcher_round \<Rightarrow> webhook_db \<Rightarrow> bool \<times> webhook_db" where
  "dispatch_round w db =
     (let db = (dr_jobs w, snd db) in if dr_scan_ok w then (True, tick (dr_world w) db) else (False, db))"

definition dispatcher_run :: "dispatcher_round list \<Rightarrow> webhook_db \<Rightarrow> webhook_db" where
  "dispatcher_run ws db = loop_rounds dispatch_round ws db"

text \<open>
  However long the dispatcher runs, whatever the jobs do meanwhile and whichever scans fail, the
  attempts of a job are numbered from 1 without a gap and there are at most five.
\<close>

lemma dispatcher_run_bounded: "attempts_ok ds \<Longrightarrow> attempts_ok (snd (dispatcher_run ws (t, ds)))"
  unfolding dispatcher_run_def
  by (rule loop_rounds_invariant[where P = "\<lambda>db. attempts_ok (snd db)"])
    (simp_all add: dispatch_round_def Let_def tick_def process_all_ok)

text \<open>
  A client that was seen to go, while the write of the watcher failed, gets nothing: its answer
  counts as sent, and the dispatcher suppresses the webhook.
\<close>

lemma failed_watch_suppresses:
  assumes "job_find (sw_jobs (demo_wait False)) ''gen_1'' = Some j" and "j_webhook_url j = Some url"
  shows "fst (process_one w (t, ds) j) = (set_webhook_delivery_status t (j_id j) DSuppressed (dw_now w), ds)"
proof -
  have "delivery_of j = (Sync, True, True)"
    using failed_watch_counts_as_sent assms(1) by simp
  then show ?thesis
    using assms(2) by (simp add: delivery_of_def process_one_def)
qed

section \<open>The reaper\<close>

record reaper_round =
  rr_jobs :: jobs
  rr_now :: timestamp
  rr_delete_ok :: "string \<Rightarrow> string \<Rightarrow> bool"

definition reap_objects :: "(string \<times> string) list \<Rightarrow> objects \<Rightarrow> objects" where
  "reap_objects ks objs = fold s3_delete ks objs"

definition reaper_pass :: "int \<Rightarrow> reaper_round \<Rightarrow> objects \<Rightarrow> bool \<times> objects" where
  "reaper_pass ttl w objs = (True, reap_objects (reap_once (rr_jobs w) (rr_now w) ttl (rr_delete_ok w)) objs)"

definition reaper_run :: "int \<Rightarrow> reaper_round list \<Rightarrow> objects \<Rightarrow> objects" where
  "reaper_run ttl ws objs = loop_rounds (reaper_pass ttl) ws objs"

lemma reap_objects_other: "k \<notin> set ks \<Longrightarrow> reap_objects ks objs k = objs k"
  unfolding reap_objects_def by (induction ks arbitrary: objs) (auto simp: s3_delete_def)

text \<open>An object that no round finds orphaned is there as long as the reaper runs.\<close>

lemma reaper_run_spares:
  assumes "\<And>w. w \<in> set ws \<Longrightarrow> k \<notin> set (reap_once (rr_jobs w) (rr_now w) ttl (rr_delete_ok w))"
  shows "reaper_run ttl ws objs k = objs k"
  unfolding reaper_run_def
  by (rule loop_rounds_invariant[where P = "\<lambda>o'. o' k = objs k"]) (simp_all add: reaper_pass_def reap_objects_other assms)

text \<open>A row is not marked when its objects are gone, so each later pass deletes and counts them again.\<close>

lemma reaped_again:
  assumes "(b, k) \<in> set (reap_once t now ttl delete_ok)" and "now \<le> now'" and "delete_ok' b k"
  shows "(b, k) \<in> set (reap_once t now' ttl delete_ok')"
  using assms by (auto simp: reap_once_def reap_rows_def Let_def)

end
