(* ===== verification/Batch_Engine.thy ===== *)
theory Batch_Engine
  imports Url Civitai_Url
begin

text \<open>
  What the batch clients under \<open>scripts/\<close> share: the same helper functions, and a loop over
  planned images that posts a request for each, repeats it without the transparency field when
  the service does not know that, and leaves what exists alone when a run is resumed. \<open>try_item\<close>
  is the \<open>try\<close> statement around one request, over the operation \<open>save\<close> that writes an answer;
  the locale \<open>image_writer\<close> is what a script promises of its \<open>save\<close>, the locales \<open>batch_loop\<close> and
  \<open>batch_script\<close> what one turn of a loop promises to the loop. Python's \<open>str\<close> and \<open>json.dumps\<close>, the service, the
  outcome of every write and the clock are parameters; creating directories is taken to succeed.
\<close>

section \<open>Helpers\<close>

text \<open>\<open>re.sub(r"[^A-Za-z0-9._-]+", "_", value).strip("_").lower()\<close>.\<close>

definition safe :: "string \<Rightarrow> string" where
  "safe value = lower (strip_by (\<lambda>c. c = CHR ''_'')
     (sub_runs (\<lambda>c. \<not> (is_alnum c \<or> c \<in> set ''._-'')) False value))"

text \<open>\<open>needle in s\<close>.\<close>

fun contains :: "string \<Rightarrow> string \<Rightarrow> bool" where
  "contains needle [] = (needle = [])"
| "contains needle (c # s) = (starts_with needle (c # s) \<or> contains needle s)"

definition should_retry_without_transparency :: "int \<Rightarrow> string \<Rightarrow> bool" where
  "should_retry_without_transparency http_status body \<longleftrightarrow>
     http_status = 400 \<and> contains ''extra inputs are not permitted'' (lower body)"

text \<open>
  \<open>str.format\<close> with named fields. A field that is not among them, a conversion, a format
  specification or an unmatched brace gives \<open>None\<close>, as does what Python rejects.
\<close>

datatype fmt_mode = InText | AfterOpen | InName string | AfterClose

fun format_named :: "(string \<times> string) list \<Rightarrow> fmt_mode \<Rightarrow> string \<Rightarrow> string option" where
  "format_named d InText [] = Some []"
| "format_named d _ [] = None"
| "format_named d InText (c # s) =
     (if c = CHR ''{'' then format_named d AfterOpen s
      else if c = CHR ''}'' then format_named d AfterClose s
      else map_option (\<lambda>r. c # r) (format_named d InText s))"
| "format_named d AfterOpen (c # s) =
     (if c = CHR ''{'' then map_option (\<lambda>r. c # r) (format_named d InText s)
      else if c = CHR ''}'' then None else format_named d (InName [c]) s)"
| "format_named d (InName n) (c # s) =
     (if c = CHR ''}'' then
        (case map_of d n of None \<Rightarrow> None | Some v \<Rightarrow> map_option (\<lambda>r. v @ r) (format_named d InText s))
      else if c = CHR ''{'' then None else format_named d (InName (n @ [c])) s)"
| "format_named d AfterClose (c # s) =
     (if c = CHR ''}'' then map_option (\<lambda>r. c # r) (format_named d InText s) else None)"

definition py_format :: "string \<Rightarrow> (string \<times> string) list \<Rightarrow> string option" where
  "py_format template d = format_named d InText template"

text \<open>\<open>str(d.get(k, ""))\<close> with white space stripped.\<close>

definition get_text :: "(pyval \<Rightarrow> string) \<Rightarrow> pydict \<Rightarrow> string \<Rightarrow> string" where
  "get_text py_str d k = strip (case map_of d k of None \<Rightarrow> [] | Some v \<Rightarrow> py_str v)"

definition stripped_texts :: "(pyval \<Rightarrow> string) \<Rightarrow> pyval list \<Rightarrow> string list" where
  "stripped_texts py_str vs = filter (\<lambda>s. s \<noteq> []) (map (\<lambda>v. strip (py_str v)) vs)"

text \<open>\<open>", ".join(texts)\<close>.\<close>

fun join_comma :: "string list \<Rightarrow> string" where
  "join_comma [] = []"
| "join_comma [t] = t"
| "join_comma (t # u # ts) = t @ '', '' @ join_comma (u # ts)"

text \<open>Lists and dictionaries are not hashable.\<close>

definition hashable :: "pyval \<Rightarrow> bool" where
  "hashable v = (case v of VList _ \<Rightarrow> False | VDict _ \<Rightarrow> False | _ \<Rightarrow> True)"

text \<open>How \<open>main\<close> can leave early: \<open>SystemExit\<close> with a message, or any other exception.\<close>

datatype script_error = SystemExit string | Uncaught

text \<open>\<open>list(v)\<close>, and \<open>v\<close> as the range of a \<open>for\<close>.\<close>

definition elements :: "pyval \<Rightarrow> script_error + pyval list" where
  "elements v = (case v of VList vs \<Rightarrow> Inr vs | VDict d \<Rightarrow> Inr (map (\<lambda>(k, _). VStr k) d)
     | VStr s \<Rightarrow> Inr (map (\<lambda>c. VStr [c]) s) | _ \<Rightarrow> Inl Uncaught)"

definition or_uncaught :: "'a option \<Rightarrow> script_error + 'a" where
  "or_uncaught x = (case x of Some v \<Rightarrow> Inr v | None \<Rightarrow> Inl Uncaught)"

text \<open>\<open>d.get(k, default)\<close>.\<close>

definition get_default :: "pydict \<Rightarrow> string \<Rightarrow> pyval \<Rightarrow> pyval" where
  "get_default d k dflt = (case map_of d k of Some v \<Rightarrow> v | None \<Rightarrow> dflt)"

text \<open>
  \<open>_load_pack\<close>. The file is \<open>None\<close> when it does not exist, and else the value its text parses to,
  where \<open>Some None\<close> is a text that is not JSON.
\<close>

definition load_pack :: "json_text option \<Rightarrow> script_error + pydict" where
  "load_pack pack_file = (case pack_file of
     None \<Rightarrow> Inl (SystemExit ''Batch pack not found'')
   | Some None \<Rightarrow> Inl (SystemExit ''Invalid JSON'')
   | Some (Some (VDict d)) \<Rightarrow> Inr d
   | Some (Some _) \<Rightarrow> Inl (SystemExit ''Batch pack root must be object''))"

text \<open>\<open>a / b / c\<close> of \<open>pathlib\<close>, below the output root: empty parts and \<open>.\<close> vanish.\<close>

definition path_join :: "string list \<Rightarrow> string" where
  "path_join parts = join_on (CHR ''/'') (filter (\<lambda>p. p \<noteq> [] \<and> p \<noteq> ''.'') parts)"

fun validate_lora_items :: "(pyval \<Rightarrow> string) \<Rightarrow> pyval list \<Rightarrow> script_error + pyval list" where
  "validate_lora_items py_str [] = Inr []"
| "validate_lora_items py_str (item # rest) = (case item of
     VDict d \<Rightarrow>
       (let name = get_text py_str d ''name'' in
        bind_r (check (name \<noteq> []) (SystemExit ''name is required'')) (\<lambda>_.
        case float_of (case map_of d ''weight'' of None \<Rightarrow> VFloat 1 | Some w \<Rightarrow> w) of
          None \<Rightarrow> Inl (SystemExit ''weight must be a number'')
        | Some weight \<Rightarrow>
            bind_r (validate_lora_items py_str rest) (\<lambda>out.
            Inr (VDict [(''name'', VStr name), (''weight'', VFloat weight)] # out))))
   | _ \<Rightarrow> Inl (SystemExit ''must be an object''))"

definition validate_loras_field :: "(pyval \<Rightarrow> string) \<Rightarrow> pyval \<Rightarrow> script_error + pyval list option" where
  "validate_loras_field py_str raw = (case raw of
     VNone \<Rightarrow> Inr None
   | VList items \<Rightarrow> bind_r (validate_lora_items py_str items) (\<lambda>out. Inr (Some out))
   | _ \<Rightarrow> Inl (SystemExit ''loras must be a list''))"

text \<open>The fields of a payload that are only there when they are set.\<close>

definition optional_fields :: "string \<Rightarrow> string \<Rightarrow> pyval list option \<Rightarrow> pydict" where
  "optional_fields sampler scheduler loras =
     (if sampler = [] then [] else [(''sampler'', VStr sampler)]) @
     (if scheduler = [] then [] else [(''scheduler'', VStr scheduler)]) @
     (case loras of Some (l # ls) \<Rightarrow> [(''loras'', VList (l # ls))] | _ \<Rightarrow> [])"

section \<open>The state of a run\<close>

text \<open>
  One planned image: where it goes, the path of the JSON file beside it, what is asked for it, and
  what the script knows of it. Paths are relative to the output root.
\<close>

record 'i item =
  it_target :: string
  it_sidecar :: string
  it_payload :: pydict
  it_info :: 'i

datatype post_answer = Png string "string option" | HttpFail int string | OtherFail

text \<open>
  A write may fail before the file is touched, or when part of the text is in it: \<open>Torn\<close> says how
  many characters.
\<close>

datatype write_result = Written | NotOpened | Torn nat

text \<open>What a run says of an item, in its log or on the console, with the job id or the answer.\<close>

datatype mark = Dry | Skipped | Made "string option" | MadeFallback "string option" | HttpFailed int string | Errored

text \<open>
  Images, JSON files and the manifest never share a path: they differ in their suffix. The rows
  of the run log repeat fields of the item; a row is the item and its mark.
\<close>

record 'i batch =
  bj_files :: "string \<Rightarrow> string option"
  bj_sidecars :: "string \<Rightarrow> string option"
  bj_manifest :: "string option"
  bj_calls :: "pydict list"
  bj_runs :: "('i item \<times> mark) list"
  bj_total :: nat
  bj_failures :: nat
  bj_skipped :: nat

text \<open>The answers of the environment, which depend on how many requests were posted before.\<close>

record batch_world =
  bx_dry_run :: bool
  bx_resume :: bool
  bx_post :: "nat \<Rightarrow> pydict \<Rightarrow> post_answer"
  bx_write :: "nat \<Rightarrow> string \<Rightarrow> write_result"
  bx_now :: "nat \<Rightarrow> string"
  bx_dumps :: "pydict \<Rightarrow> string"
  bx_dumps_indented :: "pydict \<Rightarrow> string"

abbreviation gap :: "'i batch \<Rightarrow> nat" where
  "gap b \<equiv> length (bj_calls b)"

text \<open>\<open>target.is_file() and target.stat().st_size > 0\<close>.\<close>

definition present :: "'i batch \<Rightarrow> string \<Rightarrow> bool" where
  "present b target = (case bj_files b target of Some bytes \<Rightarrow> bytes \<noteq> [] | None \<Rightarrow> False)"

text \<open>\<open>_post_binary\<close>: each call sends one payload.\<close>

definition post_binary :: "batch_world \<Rightarrow> pydict \<Rightarrow> 'i batch \<Rightarrow> post_answer \<times> 'i batch" where
  "post_binary w payload b = (bx_post w (gap b) payload, b\<lparr>bj_calls := bj_calls b @ [payload]\<rparr>)"

definition without_transparency :: "pydict \<Rightarrow> pydict" where
  "without_transparency payload = filter (\<lambda>(k, v). k \<noteq> ''transparent_background'') payload"

text \<open>What a file holds after \<open>write_bytes\<close> or \<open>write_text\<close>, and after an append.\<close>

definition after_write :: "write_result \<Rightarrow> string \<Rightarrow> string option \<Rightarrow> string option" where
  "after_write r new old = (case r of Written \<Rightarrow> Some new | NotOpened \<Rightarrow> old | Torn n \<Rightarrow> Some (take n new))"

definition after_append :: "write_result \<Rightarrow> string \<Rightarrow> string option \<Rightarrow> string option" where
  "after_append r new old =
     (let text = (case old of Some t \<Rightarrow> t | None \<Rightarrow> [])
      in case r of Written \<Rightarrow> Some (text @ new) | NotOpened \<Rightarrow> old | Torn n \<Rightarrow> Some (text @ take n new))"

definition write_png :: "batch_world \<Rightarrow> 'i item \<Rightarrow> string \<Rightarrow> 'i batch \<Rightarrow> bool \<times> 'i batch" where
  "write_png w it png b =
     (let r = bx_write w (gap b) (it_target it); p = it_target it
      in (r = Written, b\<lparr>bj_files := (bj_files b)(p := after_write r png (bj_files b p))\<rparr>))"

definition write_json :: "batch_world \<Rightarrow> 'i item \<Rightarrow> pydict \<Rightarrow> 'i batch \<Rightarrow> bool \<times> 'i batch" where
  "write_json w it meta b =
     (let r = bx_write w (gap b) (it_sidecar it); p = it_sidecar it
      in (r = Written, b\<lparr>bj_sidecars := (bj_sidecars b)
            (p := after_write r (bx_dumps_indented w meta @ [CHR 0x0A]) (bj_sidecars b p))\<rparr>))"

text \<open>The next statement, unless an exception was raised.\<close>

definition and_then :: "bool \<times> 'b \<Rightarrow> ('b \<Rightarrow> bool \<times> 'b) \<Rightarrow> bool \<times> 'b" where
  "and_then r f = (if fst r then f (snd r) else r)"

definition note_row :: "'i item \<Rightarrow> mark \<Rightarrow> 'i batch \<Rightarrow> 'i batch" where
  "note_row it m b = b\<lparr>bj_runs := bj_runs b @ [(it, m)]\<rparr>"

definition note_failure :: "'i item \<Rightarrow> mark \<Rightarrow> 'i batch \<Rightarrow> 'i batch" where
  "note_failure it m b = note_row it m (b\<lparr>bj_failures := bj_failures b + 1\<rparr>)"

definition note_skip :: "'i item \<Rightarrow> 'i batch \<Rightarrow> 'i batch" where
  "note_skip it b = note_row it Skipped (b\<lparr>bj_skipped := bj_skipped b + 1\<rparr>)"

section \<open>One item\<close>

text \<open>
  The request with its \<open>except\<close> clauses. \<open>save fallback job png\<close> writes what came back. The repeated
  request stands inside the clause for \<open>HTTPError\<close>: with \<open>catches_all\<close> every exception there is
  counted as a failure, and otherwise only an \<open>HTTPError\<close>, any other leaving the loop (the first
  component is \<open>False\<close>).
\<close>

type_synonym 'i saver = "batch_world \<Rightarrow> 'i item \<Rightarrow> bool \<Rightarrow> string option \<Rightarrow> string \<Rightarrow> 'i batch \<Rightarrow> bool \<times> 'i batch"

definition try_again :: "'i saver \<Rightarrow> bool \<Rightarrow> batch_world \<Rightarrow> 'i item \<Rightarrow> 'i batch \<Rightarrow> bool \<times> 'i batch" where
  "try_again save catches_all w it b =
     (let (answer, b) = post_binary w (without_transparency (it_payload it)) b in
      case answer of
        Png png job \<Rightarrow>
          (let (ok, b) = save w it True job png b
           in if ok then (True, note_row it (MadeFallback job) b)
              else if catches_all then (True, note_failure it Errored b) else (False, b))
      | HttpFail code body \<Rightarrow> (True, note_failure it (if catches_all then Errored else HttpFailed code body) b)
      | OtherFail \<Rightarrow> if catches_all then (True, note_failure it Errored b) else (False, b))"

definition try_item :: "'i saver \<Rightarrow> bool \<Rightarrow> batch_world \<Rightarrow> 'i item \<Rightarrow> 'i batch \<Rightarrow> bool \<times> 'i batch" where
  "try_item save catches_all w it b =
     (let (answer, b) = post_binary w (it_payload it) b in
      case answer of
        Png png job \<Rightarrow>
          (let (ok, b) = save w it False job png b
           in (True, if ok then note_row it (Made job) b else note_failure it Errored b))
      | HttpFail code body \<Rightarrow>
          if should_retry_without_transparency code body then try_again save catches_all w it b
          else (True, note_failure it (HttpFailed code body) b)
      | OtherFail \<Rightarrow> (True, note_failure it Errored b))"

text \<open>A turn of the loop in the environment scripts, which count and plan first.\<close>

definition batch_step :: "'i saver \<Rightarrow> batch_world \<Rightarrow> 'i item \<Rightarrow> 'i batch \<Rightarrow> bool \<times> 'i batch" where
  "batch_step save w it b =
     (let b = b\<lparr>bj_total := bj_total b + 1\<rparr> in
      if bx_dry_run w then (True, note_row it Dry b)
      else if bx_resume w \<and> present b (it_target it) then (True, note_skip it b)
      else try_item save False w it b)"

text \<open>A turn of \<open>GenerationEngine.run\<close>, which looks for the file first.\<close>

definition engine_step :: "'i saver \<Rightarrow> batch_world \<Rightarrow> 'i item \<Rightarrow> 'i batch \<Rightarrow> bool \<times> 'i batch" where
  "engine_step save w it b =
     (if bx_resume w \<and> present b (it_target it) then (True, note_skip it b)
      else if bx_dry_run w then (True, note_row it Dry b)
      else try_item save True w it b)"

section \<open>The loop\<close>

text \<open>
  A plan holds an error where computing the next item raises; the loop has run up to there. The
  result is the exception that left the loop, if one did.
\<close>

type_synonym 'i plan = "(script_error + 'i item) list"

fun run_plan :: "(batch_world \<Rightarrow> 'i item \<Rightarrow> 'i batch \<Rightarrow> bool \<times> 'i batch) \<Rightarrow> batch_world \<Rightarrow> 'i plan \<Rightarrow> 'i batch
    \<Rightarrow> script_error option \<times> 'i batch" where
  "run_plan step w [] b = (None, b)"
| "run_plan step w (Inl e # plan) b = (Some e, b)"
| "run_plan step w (Inr it # plan) b =
     (case step w it b of (True, b') \<Rightarrow> run_plan step w plan b' | (False, b') \<Rightarrow> (Some Uncaught, b'))"

definition exit_code :: "'i batch \<Rightarrow> nat" where
  "exit_code b = (if bj_failures b \<noteq> 0 then 1 else 0)"

text \<open>The run log is written after the loop; when it cannot be, that exception ends \<open>main\<close>.\<close>

definition log_and_exit :: "batch_world \<Rightarrow> script_error option \<times> 'i batch \<Rightarrow> (script_error + nat) \<times> 'i batch" where
  "log_and_exit w r = (case r of
     (Some e, b) \<Rightarrow> (Inl e, b)
   | (None, b) \<Rightarrow> (if bx_write w (gap b) ''batch-run-log.json'' = Written then Inr (exit_code b) else Inl Uncaught, b))"

text \<open>A run starts with the files that are there and nothing counted.\<close>

definition fresh :: "'i batch \<Rightarrow> 'i batch" where
  "fresh b = b\<lparr>bj_runs := [], bj_total := 0, bj_failures := 0, bj_skipped := 0\<rparr>"

section \<open>What a turn promises to the loop\<close>

definition failed_mark :: "mark \<Rightarrow> bool" where
  "failed_mark m = (case m of HttpFailed _ _ \<Rightarrow> True | Errored \<Rightarrow> True | _ \<Rightarrow> False)"

text \<open>
  A truthful row: it is counted as what it says, an image it calls made or skipped is there, and
  one it calls skipped or planned was left alone.
\<close>

definition row_true :: "batch_world \<Rightarrow> 'i item \<Rightarrow> 'i batch \<Rightarrow> 'i batch \<Rightarrow> mark \<Rightarrow> bool" where
  "row_true w it b b' m \<longleftrightarrow> bj_runs b' = bj_runs b @ [(it, m)] \<and>
     bj_failures b' = bj_failures b + (if failed_mark m then 1 else 0) \<and>
     bj_skipped b' = bj_skipped b + (if m = Skipped then 1 else 0) \<and>
     (m = Dry \<longrightarrow> bx_dry_run w) \<and>
     (failed_mark m \<or> m = Dry \<or> bj_files b' (it_target it) \<noteq> None)"

definition asks_for :: "'i item \<Rightarrow> pydict list \<Rightarrow> bool" where
  "asks_for it cs \<longleftrightarrow> cs \<in> {[], [it_payload it], [it_payload it, without_transparency (it_payload it)]}"

text \<open>Nothing was written and nothing was asked.\<close>

definition untouched :: "'i batch \<Rightarrow> 'i batch \<Rightarrow> bool" where
  "untouched b b' \<longleftrightarrow> bj_files b' = bj_files b \<and> bj_sidecars b' = bj_sidecars b \<and> bj_manifest b' = bj_manifest b \<and>
     bj_calls b' = bj_calls b"

text \<open>What every turn preserves, the loop preserves, wherever it stops.\<close>

lemma run_plan_invariant:
  assumes "run_plan step w plan b = (e, b')" and "P b"
    and "\<And>it b goes_on b'. Inr it \<in> set plan \<Longrightarrow> step w it b = (goes_on, b') \<Longrightarrow> P b \<Longrightarrow> P b'"
  shows "P b'"
  using assms
proof (induction plan arbitrary: b)
  case (Cons x plan)
  note inv = Cons.prems(3)
  show ?case
  proof (cases x)
    case (Inr it)
    obtain goes_on c where st: "step w it b = (goes_on, c)"
      by fastforce
    have "P c"
      using inv[OF _ st Cons.prems(2)] Inr by simp
    moreover have "\<And>it b goes_on b'. Inr it \<in> set plan \<Longrightarrow> step w it b = (goes_on, b') \<Longrightarrow> P b \<Longrightarrow> P b'"
      using inv by (meson list.set_intros(2))
    ultimately show ?thesis
      using Cons.IH[of c] Cons.prems(1) st Inr by (cases goes_on) auto
  qed (use Cons.prems in auto)
qed simp

text \<open>The counters are the numbers of such rows, however the loop ends.\<close>

definition tallied :: "'i batch \<Rightarrow> bool" where
  "tallied b \<longleftrightarrow> bj_failures b = length (filter (\<lambda>(it, m). failed_mark m) (bj_runs b)) \<and>
     bj_skipped b = length (filter (\<lambda>(it, m). m = Skipped) (bj_runs b))"

text \<open>
  Each item of a run that is not a dry one has failed or its image is there: a row says so when it
  is written, and images stay.
\<close>

definition accounted :: "batch_world \<Rightarrow> 'i batch \<Rightarrow> bool" where
  "accounted w b \<longleftrightarrow> (\<forall>(it, m) \<in> set (bj_runs b). failed_mark m \<or> (m = Dry \<and> bx_dry_run w) \<or> bj_files b (it_target it) \<noteq> None)"

text \<open>
  A resumed run leaves an image that is present as it is, and asks only for items whose image
  was missing.
\<close>

definition spared_since :: "'i batch \<Rightarrow> 'i plan \<Rightarrow> 'i batch \<Rightarrow> bool" where
  "spared_since b plan c \<longleftrightarrow> (\<forall>p. present b p \<longrightarrow> bj_files c p = bj_files b p) \<and>
     (\<exists>cs. bj_calls c = bj_calls b @ cs \<and>
       (\<forall>payload \<in> set cs. \<exists>it. Inr it \<in> set plan \<and> \<not> present b (it_target it) \<and>
          payload \<in> {it_payload it, without_transparency (it_payload it)}))"

locale batch_loop =
  fixes step :: "batch_world \<Rightarrow> 'i item \<Rightarrow> 'i batch \<Rightarrow> bool \<times> 'i batch"
  assumes others: "step w it b = (goes_on, b') \<Longrightarrow> p \<noteq> it_target it \<Longrightarrow> bj_files b' p = bj_files b p"
    and kept: "step w it b = (goes_on, b') \<Longrightarrow> bj_files b p \<noteq> None \<Longrightarrow> bj_files b' p \<noteq> None"
    and asks: "step w it b = (goes_on, b') \<Longrightarrow> \<exists>cs. bj_calls b' = bj_calls b @ cs \<and> asks_for it cs"
    and reports: "step w it b = (True, b') \<Longrightarrow> \<exists>m. row_true w it b b' m"
    and stops: "step w it b = (False, b') \<Longrightarrow>
      bj_runs b' = bj_runs b \<and> bj_failures b' = bj_failures b \<and> bj_skipped b' = bj_skipped b"
begin

lemma step_tallied:
  assumes s: "step w it b = (goes_on, b')" and t: "tallied b"
  shows "tallied b'"
proof (cases goes_on)
  case True
  then obtain m where "row_true w it b b' m"
    using reports[of w it b b'] s by auto
  then show ?thesis
    using t by (simp add: tallied_def row_true_def)
next
  case False
  then show ?thesis
    using stops s t by (simp add: tallied_def)
qed

lemma run_tallied: "run_plan step w plan b = (e, b') \<Longrightarrow> tallied b \<Longrightarrow> tallied b'"
  by (rule run_plan_invariant[where P = tallied]) (auto intro: step_tallied)

lemma run_keeps: "run_plan step w plan b = (e, b') \<Longrightarrow> bj_files b p \<noteq> None \<Longrightarrow> bj_files b' p \<noteq> None"
  by (rule run_plan_invariant[where P = "\<lambda>b. bj_files b p \<noteq> None"]) (blast dest: kept)+

text \<open>A loop that reaches its end has a row for every item, in order, and the plan no error.\<close>

lemma run_rows:
  "run_plan step w plan b = (None, b') \<Longrightarrow> map Inr (map fst (bj_runs b')) = map Inr (map fst (bj_runs b)) @ plan"
proof (induction plan arbitrary: b)
  case (Cons p plan)
  then obtain it c where p: "p = Inr it" and s: "step w it b = (True, c)" and r: "run_plan step w plan c = (None, b')"
    by (cases p) (auto split: prod.splits bool.splits)
  obtain m where "bj_runs c = bj_runs b @ [(it, m)]"
    using reports[OF s] by (auto simp: row_true_def)
  then show ?case
    using Cons.IH[OF r] p by simp
qed simp

lemma step_accounted:
  assumes s: "step w it b = (goes_on, b')" and a: "accounted w b"
  shows "accounted w b'"
proof -
  have old: "\<forall>(it, m) \<in> set (bj_runs b). failed_mark m \<or> (m = Dry \<and> bx_dry_run w) \<or> bj_files b' (it_target it) \<noteq> None"
    using a kept[OF s] unfolding accounted_def by blast
  show ?thesis
  proof (cases goes_on)
    case True
    then obtain m where "row_true w it b b' m"
      using reports[of w it b b'] s by auto
    then show ?thesis
      using old unfolding accounted_def row_true_def by auto
  next
    case False
    then show ?thesis
      using stops s old unfolding accounted_def by simp
  qed
qed

lemma run_accounted: "run_plan step w plan b = (e, b') \<Longrightarrow> accounted w b \<Longrightarrow> accounted w b'"
  by (rule run_plan_invariant[where P = "accounted w"]) (auto intro: step_accounted)

lemma run_unfailed:
  assumes r: "run_plan step w plan (fresh b) = (e, b')" and f: "bj_failures b' = 0" and row: "(it, m) \<in> set (bj_runs b')"
  shows "\<not> failed_mark m"
proof -
  have "tallied b'"
    using run_tallied[OF r] by (simp add: tallied_def fresh_def)
  then show ?thesis
    using f row by (auto simp: tallied_def filter_empty_conv)
qed

lemma run_not_dry:
  assumes r: "run_plan step w plan (fresh b) = (e, b')" and w: "\<not> bx_dry_run w" and row: "(it, m) \<in> set (bj_runs b')"
  shows "m \<noteq> Dry"
proof -
  have st: "list_all (\<lambda>(it, m). m \<noteq> Dry) (bj_runs c')"
    if s: "step w it c = (goes_on, c')" and a: "list_all (\<lambda>(it, m). m \<noteq> Dry) (bj_runs c)" for it c goes_on c'
  proof (cases goes_on)
    case True
    then obtain m where "row_true w it c c' m"
      using reports[of w it c c'] s by auto
    then show ?thesis
      using a w unfolding row_true_def by auto
  next
    case False
    then show ?thesis
      using stops s a by simp
  qed
  have "list_all (\<lambda>(it, m). m \<noteq> Dry) (bj_runs b')"
    using r by (rule run_plan_invariant[where P = "\<lambda>c. list_all (\<lambda>(it, m). m \<noteq> Dry) (bj_runs c)"])
      (auto simp: fresh_def intro: st)
  then show ?thesis
    using row by (auto simp: list_all_iff)
qed

lemma run_complete:
  assumes r: "run_plan step w plan (fresh b) = (None, b')" and w: "\<not> bx_dry_run w" and f: "bj_failures b' = 0"
    and it: "Inr it \<in> set plan"
  shows "bj_files b' (it_target it) \<noteq> None"
proof -
  have a: "accounted w b'"
    using run_accounted[OF r] by (simp add: accounted_def fresh_def)
  have "Inr it \<in> set (map Inr (map fst (bj_runs b')) :: 'i plan)"
    using run_rows[OF r] it by (simp add: fresh_def)
  then obtain m where "(it, m) \<in> set (bj_runs b')"
    by auto
  then show ?thesis
    using a w run_unfailed[OF r f] unfolding accounted_def by blast
qed

text \<open>Exit code 0, and not dry: the plan has no error, and every image of it is there.\<close>

lemma exit_complete:
  assumes x: "log_and_exit w (run_plan step w plan (fresh b)) = (Inr 0, b')" and w: "\<not> bx_dry_run w" and p: "p \<in> set plan"
  shows "\<exists>it. p = Inr it \<and> bj_files b' (it_target it) \<noteq> None"
proof -
  obtain e c where r: "run_plan step w plan (fresh b) = (e, c)"
    by fastforce
  then have e: "e = None" "c = b'" "bj_failures b' = 0"
    using x by (auto simp: log_and_exit_def exit_code_def split: option.splits if_splits)
  have "p \<in> set (map Inr (map fst (bj_runs b')) :: 'i plan)"
    using run_rows[OF r[unfolded e]] p by (simp add: fresh_def)
  then obtain it where "p = Inr it"
    by auto
  then show ?thesis
    using run_complete[OF r[unfolded e] w e(3)] p by blast
qed

text \<open>At most two requests for an item.\<close>

lemma run_calls: "run_plan step w plan b = (e, b') \<Longrightarrow> gap b' \<le> gap b + 2 * length plan"
proof (induction plan arbitrary: b)
  case (Cons x plan)
  show ?case
  proof (cases x)
    case (Inr it)
    obtain goes_on c where s: "step w it b = (goes_on, c)"
      by fastforce
    then have "gap c \<le> gap b + 2"
      using asks[OF s] by (auto simp: asks_for_def)
    then show ?thesis
      using Cons.IH[of c] Cons.prems s Inr by (cases goes_on) force+
  qed (use Cons.prems in simp)
qed simp

end

text \<open>A loop with dry runs, which touch nothing, and resumed ones, which leave what is present alone.\<close>

locale batch_script = batch_loop step
  for step :: "batch_world \<Rightarrow> 'i item \<Rightarrow> 'i batch \<Rightarrow> bool \<times> 'i batch" +
  assumes spares: "bx_resume w \<Longrightarrow> present b (it_target it) \<Longrightarrow> step w it b = (goes_on, b') \<Longrightarrow> untouched b b'"
    and plans: "bx_dry_run w \<Longrightarrow> step w it b = (goes_on, b') \<Longrightarrow>
      goes_on \<and> untouched b b' \<and> bj_failures b' = bj_failures b"
begin

lemma step_spared:
  assumes s: "step w it c = (goes_on, c')" and a: "spared_since b plan c" and it: "Inr it \<in> set plan"
    and w: "bx_resume w"
  shows "spared_since b plan c'"
proof (cases "present b (it_target it)")
  case True
  then have "bj_files c (it_target it) = bj_files b (it_target it)"
    using a by (simp add: spared_since_def)
  then have "present c (it_target it)"
    using True by (simp add: present_def)
  then show ?thesis
    using a spares[OF w _ s] by (simp add: spared_since_def untouched_def)
next
  case False
  obtain cs where "bj_calls c' = bj_calls c @ cs" and "asks_for it cs"
    using asks[OF s] by blast
  moreover obtain ds where "bj_calls c = bj_calls b @ ds"
    and "\<forall>payload \<in> set ds. \<exists>it. Inr it \<in> set plan \<and> \<not> present b (it_target it) \<and>
      payload \<in> {it_payload it, without_transparency (it_payload it)}"
    using a by (auto simp: spared_since_def)
  moreover have "\<forall>p. present b p \<longrightarrow> bj_files c' p = bj_files b p"
    using a others[OF s] False by (metis spared_since_def)
  ultimately show ?thesis
    using it False unfolding spared_since_def asks_for_def by (intro conjI exI[of _ "ds @ cs"]) auto
qed

lemma run_spared:
  assumes "run_plan step w plan b = (e, b')" and "bx_resume w"
  shows "spared_since b plan b'"
  using assms(1)
  by (rule run_plan_invariant[where P = "spared_since b plan"])
    (auto intro: step_spared[OF _ _ _ assms(2)] simp: spared_since_def[of b plan b])

lemma run_dry:
  assumes r: "run_plan step w plan b = (e, b')" and w: "bx_dry_run w"
  shows "untouched b b' \<and> bj_failures b' = bj_failures b"
  using r
  by (rule run_plan_invariant[where P = "\<lambda>c. untouched b c \<and> bj_failures c = bj_failures b"])
    (use plans[OF w] in \<open>auto simp: untouched_def\<close>)

end

section \<open>What a script promises of its writing\<close>

text \<open>
  \<open>save\<close> writes the image, and what belongs to it, and nothing else: no other image, no request,
  no row, no counter. When it succeeds the image is what the service sent.
\<close>

definition only_saves :: "'i item \<Rightarrow> bool \<Rightarrow> string \<Rightarrow> 'i batch \<Rightarrow> 'i batch \<Rightarrow> bool" where
  "only_saves it ok png b b' \<longleftrightarrow> bj_calls b' = bj_calls b \<and> bj_runs b' = bj_runs b \<and>
     bj_failures b' = bj_failures b \<and> bj_skipped b' = bj_skipped b \<and>
     (\<forall>p. p \<noteq> it_target it \<longrightarrow> bj_files b' p = bj_files b p) \<and>
     (bj_files b (it_target it) \<noteq> None \<longrightarrow> bj_files b' (it_target it) \<noteq> None) \<and>
     (ok \<longrightarrow> bj_files b' (it_target it) = Some png)"

lemma write_png_only:
  "write_png w it png b = (ok, b') \<Longrightarrow> only_saves it ok png b b'"
  by (auto simp: write_png_def only_saves_def Let_def after_write_def split: write_result.splits)

lemma write_json_only:
  "write_json w it meta b = (ok, b') \<Longrightarrow> bj_files b (it_target it) = Some png \<Longrightarrow> only_saves it ok png b b'"
  by (auto simp: write_json_def only_saves_def Let_def)

text \<open>The image first, then whatever leaves images alone.\<close>

lemma png_then_only:
  assumes r: "and_then (write_png w it png b) f = (ok, b')"
    and f: "\<And>c ok b'. f c = (ok, b') \<Longrightarrow> bj_files c (it_target it) = Some png \<Longrightarrow> only_saves it ok png c b'"
  shows "only_saves it ok png b b'"
proof (cases "write_png w it png b")
  case (Pair ok1 c)
  then have c: "only_saves it ok1 png b c"
    by (rule write_png_only)
  show ?thesis
  proof (cases ok1)
    case True
    then have "only_saves it ok png c b'"
      using f[of c ok b'] c r Pair by (simp add: and_then_def only_saves_def)
    then show ?thesis
      using c by (auto simp: only_saves_def)
  next
    case False
    then show ?thesis
      using c r Pair by (simp add: and_then_def)
  qed
qed

text \<open>One turn as a whole: the files, the requests, and a truthful row or none.\<close>

definition attempted :: "'i item \<Rightarrow> pydict list \<Rightarrow> 'i batch \<Rightarrow> 'i batch \<Rightarrow> bool" where
  "attempted it cs b c \<longleftrightarrow> (\<forall>p. p \<noteq> it_target it \<longrightarrow> bj_files c p = bj_files b p) \<and>
     (bj_files b (it_target it) \<noteq> None \<longrightarrow> bj_files c (it_target it) \<noteq> None) \<and>
     bj_calls c = bj_calls b @ cs \<and>
     bj_runs c = bj_runs b \<and> bj_failures c = bj_failures b \<and> bj_skipped c = bj_skipped b"

definition turn_ok :: "batch_world \<Rightarrow> 'i item \<Rightarrow> 'i batch \<Rightarrow> bool \<times> 'i batch \<Rightarrow> bool" where
  "turn_ok w it b r \<longleftrightarrow> (\<forall>p. p \<noteq> it_target it \<longrightarrow> bj_files (snd r) p = bj_files b p) \<and>
     (bj_files b (it_target it) \<noteq> None \<longrightarrow> bj_files (snd r) (it_target it) \<noteq> None) \<and>
     (\<exists>cs. bj_calls (snd r) = bj_calls b @ cs \<and> asks_for it cs) \<and>
     (if fst r then \<exists>m. row_true w it b (snd r) m
      else bj_runs (snd r) = bj_runs b \<and> bj_failures (snd r) = bj_failures b \<and> bj_skipped (snd r) = bj_skipped b)"

lemma attempted_start: "attempted it [] b b"
  by (simp add: attempted_def)

lemma attempted_post: "attempted it cs b c \<Longrightarrow> attempted it (cs @ [p]) b (c\<lparr>bj_calls := bj_calls c @ [p]\<rparr>)"
  by (simp add: attempted_def)

lemma attempted_save: "attempted it cs b c \<Longrightarrow> only_saves it ok png c d \<Longrightarrow> attempted it cs b d"
  by (simp add: attempted_def only_saves_def)

lemma turn_made:
  assumes "attempted it cs b c" and "asks_for it cs" and "bj_files c (it_target it) \<noteq> None"
    and "m \<in> {Made job, MadeFallback job}"
  shows "turn_ok w it b (True, note_row it m c)"
proof -
  have "row_true w it b (note_row it m c) m"
    using assms by (auto simp: row_true_def note_row_def attempted_def failed_mark_def)
  then show ?thesis
    using assms by (auto simp: turn_ok_def note_row_def attempted_def)
qed

lemma turn_failed:
  assumes "attempted it cs b c" and "asks_for it cs" and "m \<in> {HttpFailed code body, Errored}"
  shows "turn_ok w it b (True, note_failure it m c)"
proof -
  have "row_true w it b (note_failure it m c) m"
    using assms by (auto simp: row_true_def note_failure_def note_row_def attempted_def failed_mark_def)
  then show ?thesis
    using assms by (auto simp: turn_ok_def note_failure_def note_row_def attempted_def)
qed

lemma turn_left: "attempted it cs b c \<Longrightarrow> asks_for it cs \<Longrightarrow> turn_ok w it b (False, c)"
  by (auto simp: turn_ok_def attempted_def)

lemma asks_simps [simp]: "asks_for it []" "asks_for it [it_payload it]"
  "asks_for it [it_payload it, without_transparency (it_payload it)]"
  by (simp_all add: asks_for_def)

lemma turn_dry: "bx_dry_run w \<Longrightarrow> turn_ok w it b (True, note_row it Dry b)"
  by (auto simp: turn_ok_def note_row_def row_true_def failed_mark_def intro!: exI[of "row_true w it b _" Dry])

lemma turn_skip: "present b (it_target it) \<Longrightarrow> turn_ok w it b (True, note_skip it b)"
  by (auto simp: turn_ok_def note_skip_def note_row_def row_true_def failed_mark_def present_def
      split: option.splits intro!: exI[of "row_true w it b _" Skipped])

lemma row_true_total [simp]: "row_true w it (b\<lparr>bj_total := n\<rparr>) = row_true w it b"
  by (intro ext) (simp add: row_true_def)

lemma turn_total [simp]: "turn_ok w it (b\<lparr>bj_total := n\<rparr>) r = turn_ok w it b r"
  by (simp add: turn_ok_def)

lemma present_total [simp]: "present (b\<lparr>bj_total := n\<rparr>) p = present b p"
  by (simp add: present_def)

lemma untouched_notes [simp]: "untouched b (note_row it m b)" "untouched b (note_skip it b)"
  "untouched (b\<lparr>bj_total := n\<rparr>) c = untouched b c"
  by (simp_all add: untouched_def note_row_def note_skip_def)

text \<open>A step whose turns are in order fits the loop, also when it is careful in dry and resumed runs.\<close>

lemma batch_loopI:
  assumes turn: "\<And>w it b. turn_ok w it b (step w it b)"
  shows "batch_loop step"
proof
  fix w it b goes_on b' p
  assume s: "step w it b = (goes_on, b')"
  show "p \<noteq> it_target it \<Longrightarrow> bj_files b' p = bj_files b p"
    using turn[of w it b] s by (simp add: turn_ok_def)
  show "bj_files b p \<noteq> None \<Longrightarrow> bj_files b' p \<noteq> None"
    using turn[of w it b] s by (cases "p = it_target it") (simp_all add: turn_ok_def)
  show "\<exists>cs. bj_calls b' = bj_calls b @ cs \<and> asks_for it cs"
    using turn[of w it b] s by (simp add: turn_ok_def)
next
  fix w it b b'
  assume s: "step w it b = (True, b')"
  show "\<exists>m. row_true w it b b' m"
    using turn[of w it b] s by (simp add: turn_ok_def)
next
  fix w it b b'
  assume s: "step w it b = (False, b')"
  show "bj_runs b' = bj_runs b \<and> bj_failures b' = bj_failures b \<and> bj_skipped b' = bj_skipped b"
    using turn[of w it b] s by (simp add: turn_ok_def)
qed

lemma batch_scriptI:
  assumes "\<And>w it b. turn_ok w it b (step w it b)"
    and spares: "\<And>w it b. bx_resume w \<Longrightarrow> present b (it_target it) \<Longrightarrow> untouched b (snd (step w it b))"
    and plans: "\<And>w it b. bx_dry_run w \<Longrightarrow> fst (step w it b) \<and> untouched b (snd (step w it b)) \<and>
      bj_failures (snd (step w it b)) = bj_failures b"
  shows "batch_script step"
proof (intro batch_script.intro batch_loopI batch_script_axioms.intro assms(1))
  fix w it b goes_on b'
  assume s: "step w it b = (goes_on, b')"
  show "bx_resume w \<Longrightarrow> present b (it_target it) \<Longrightarrow> untouched b b'"
    using spares[of w b it] s by simp
  show "bx_dry_run w \<Longrightarrow> goes_on \<and> untouched b b' \<and> bj_failures b' = bj_failures b"
    using plans[of w it b] s by simp
qed

locale image_writer =
  fixes save :: "'i saver"
  assumes saves: "save w it fallback job png b = (ok, b') \<Longrightarrow> only_saves it ok png b b'"
begin

lemma again_turn:
  assumes a: "attempted it [it_payload it] b c"
  shows "turn_ok w it b (try_again save catches_all w it c)"
proof -
  define d where "d = c\<lparr>bj_calls := bj_calls c @ [without_transparency (it_payload it)]\<rparr>"
  have p: "post_binary w (without_transparency (it_payload it)) c = (bx_post w (gap c) (without_transparency (it_payload it)), d)"
    by (simp add: post_binary_def d_def)
  have d: "attempted it [it_payload it, without_transparency (it_payload it)] b d"
    using attempted_post[OF a] by (simp add: d_def)
  show ?thesis
  proof (cases "bx_post w (gap c) (without_transparency (it_payload it))")
    case (Png png job)
    obtain ok e where e: "save w it True job png d = (ok, e)"
      by fastforce
    have o: "only_saves it ok png d e"
      by (rule saves[OF e])
    then have "ok \<Longrightarrow> bj_files e (it_target it) \<noteq> None"
      by (simp add: only_saves_def)
    then show ?thesis
      using attempted_save[OF d o] p e Png
      by (auto simp: try_again_def intro!: turn_made turn_failed turn_left)
  qed (use p d in \<open>auto simp: try_again_def intro!: turn_failed turn_left\<close>)
qed

lemma item_turn: "turn_ok w it b (try_item save catches_all w it b)"
proof -
  define c where "c = b\<lparr>bj_calls := bj_calls b @ [it_payload it]\<rparr>"
  have p: "post_binary w (it_payload it) b = (bx_post w (gap b) (it_payload it), c)"
    by (simp add: post_binary_def c_def)
  have c: "attempted it [it_payload it] b c"
    using attempted_post[OF attempted_start] by (simp add: c_def)
  show ?thesis
  proof (cases "bx_post w (gap b) (it_payload it)")
    case (Png png job)
    obtain ok e where e: "save w it False job png c = (ok, e)"
      by fastforce
    have o: "only_saves it ok png c e"
      by (rule saves[OF e])
    then have "ok \<Longrightarrow> bj_files e (it_target it) \<noteq> None"
      by (simp add: only_saves_def)
    then show ?thesis
      using attempted_save[OF c o] p e Png
      by (auto simp: try_item_def intro!: turn_made turn_failed)
  qed (use p c again_turn[OF c] in \<open>auto simp: try_item_def intro!: turn_failed\<close>)
qed

end

text \<open>Both loops fit a script whose \<open>save\<close> keeps its promise.\<close>

sublocale image_writer \<subseteq> batch: batch_script "batch_step save"
proof (rule batch_scriptI)
  show "turn_ok w it b (batch_step save w it b)" for w it b
    using item_turn[of w it "b\<lparr>bj_total := bj_total b + 1\<rparr>" False]
      turn_dry[of w it "b\<lparr>bj_total := bj_total b + 1\<rparr>"] turn_skip[of "b\<lparr>bj_total := bj_total b + 1\<rparr>" it w]
    by (simp add: batch_step_def Let_def)
  show "untouched b (snd (batch_step save w it b))" if "bx_resume w" "present b (it_target it)" for w it b
    using that by (simp add: batch_step_def Let_def untouched_def note_row_def note_skip_def)
  show "fst (batch_step save w it b) \<and> untouched b (snd (batch_step save w it b)) \<and>
      bj_failures (snd (batch_step save w it b)) = bj_failures b" if "bx_dry_run w" for w it b
    using that by (simp add: batch_step_def Let_def untouched_def note_row_def)
qed

sublocale image_writer \<subseteq> engine: batch_script "engine_step save"
proof (rule batch_scriptI)
  show "turn_ok w it b (engine_step save w it b)" for w it b
    using item_turn turn_dry turn_skip by (auto simp: engine_step_def)
  show "untouched b (snd (engine_step save w it b))" if "bx_resume w" "present b (it_target it)" for w it b
    using that by (simp add: engine_step_def)
  show "fst (engine_step save w it b) \<and> untouched b (snd (engine_step save w it b)) \<and>
      bj_failures (snd (engine_step save w it b)) = bj_failures b" if "bx_dry_run w" for w it b
    using that by (simp add: engine_step_def untouched_def note_row_def note_skip_def)
qed

text \<open>Behind the clause for every exception a turn always goes on.\<close>

lemma engine_goes_on: "fst (engine_step save w it b)"
  by (simp add: engine_step_def try_item_def try_again_def Let_def split: prod.splits post_answer.splits)

section \<open>Scripts that keep a manifest\<close>

text \<open>
  \<open>noted w manifest it fallback job\<close>: the manifest tells of this image. A successful \<open>save\<close> makes it
  so, and no \<open>save\<close> of another image undoes it.
\<close>

locale record_keeper = image_writer save for save :: "'i saver" +
  fixes noted :: "batch_world \<Rightarrow> string option \<Rightarrow> 'i item \<Rightarrow> bool \<Rightarrow> string option \<Rightarrow> bool"
  assumes noting: "save w it fallback job png b = (True, b') \<Longrightarrow> \<not> bx_dry_run w \<Longrightarrow> noted w (bj_manifest b') it fallback job"
    and still_noted: "save w it fallback job png b = (ok, b') \<Longrightarrow> noted w (bj_manifest b) it' fallback' job' \<Longrightarrow>
      noted w (bj_manifest b') it' fallback' job'"
begin

definition row_noted :: "batch_world \<Rightarrow> 'i batch \<Rightarrow> 'i item \<times> mark \<Rightarrow> bool" where
  "row_noted w b r = (case r of
     (it, Made job) \<Rightarrow> noted w (bj_manifest b) it False job
   | (it, MadeFallback job) \<Rightarrow> noted w (bj_manifest b) it True job
   | _ \<Rightarrow> True)"

definition all_noted :: "batch_world \<Rightarrow> 'i batch \<Rightarrow> bool" where
  "all_noted w b \<longleftrightarrow> (\<forall>r \<in> set (bj_runs b). row_noted w b r)"

lemma save_all_noted:
  assumes s: "save w it fallback job png b = (ok, b')" and a: "all_noted w b"
  shows "all_noted w b'"
proof -
  have "bj_runs b' = bj_runs b"
    using saves[OF s] by (simp add: only_saves_def)
  then show ?thesis
    using a still_noted[OF s] by (auto simp: all_noted_def row_noted_def split: mark.splits)
qed

lemma all_noted_simps [simp]:
  "all_noted w (b\<lparr>bj_calls := cs\<rparr>) = all_noted w b" "all_noted w (b\<lparr>bj_total := n\<rparr>) = all_noted w b"
  "all_noted w (note_failure it (HttpFailed code body) b) = all_noted w b"
  "all_noted w (note_failure it Errored b) = all_noted w b"
  "all_noted w (note_row it Dry b) = all_noted w b" "all_noted w (note_skip it b) = all_noted w b"
  "all_noted w (note_row it (Made job) b) = (all_noted w b \<and> noted w (bj_manifest b) it False job)"
  "all_noted w (note_row it (MadeFallback job) b) = (all_noted w b \<and> noted w (bj_manifest b) it True job)"
  by (auto simp: all_noted_def row_noted_def note_row_def note_failure_def note_skip_def split: mark.splits)

lemma again_noted:
  assumes a: "all_noted w b" and d: "\<not> bx_dry_run w"
  shows "all_noted w (snd (try_again save catches_all w it b))"
proof (cases "bx_post w (gap b) (without_transparency (it_payload it))")
  case (Png png job)
  obtain ok e where e: "save w it True job png (b\<lparr>bj_calls := bj_calls b @ [without_transparency (it_payload it)]\<rparr>) = (ok, e)"
    by fastforce
  have "all_noted w e"
    using save_all_noted[OF e] a by simp
  then show ?thesis
    using e d Png noting[of w it True job png _ e] by (cases ok) (auto simp: try_again_def post_binary_def)
qed (use a in \<open>simp_all add: try_again_def post_binary_def\<close>)

lemma item_noted:
  assumes a: "all_noted w b" and d: "\<not> bx_dry_run w"
  shows "all_noted w (snd (try_item save catches_all w it b))"
proof (cases "bx_post w (gap b) (it_payload it)")
  case (Png png job)
  obtain ok e where e: "save w it False job png (b\<lparr>bj_calls := bj_calls b @ [it_payload it]\<rparr>) = (ok, e)"
    by fastforce
  have "all_noted w e"
    using save_all_noted[OF e] a by simp
  then show ?thesis
    using e d Png noting[of w it False job png _ e] by (cases ok) (auto simp: try_item_def post_binary_def)
next
  case (HttpFail code body)
  show ?thesis
    using a HttpFail again_noted[OF _ d, of "b\<lparr>bj_calls := bj_calls b @ [it_payload it]\<rparr>"]
    by (simp add: try_item_def post_binary_def)
qed (use a in \<open>simp add: try_item_def post_binary_def\<close>)

lemma step_noted:
  assumes "batch_step save w it b = (goes_on, b')" and "all_noted w b"
  shows "all_noted w b'"
  using assms item_noted[where w = w and it = it and catches_all = False and b = "b\<lparr>bj_total := bj_total b + 1\<rparr>"]
  by (auto simp: batch_step_def Let_def split: if_splits)

text \<open>However the loop ends, every image it made has its record.\<close>

lemma run_noted:
  assumes "run_plan (batch_step save) w plan b = (e, b')" and "all_noted w b"
  shows "all_noted w b'"
  using assms by (rule run_plan_invariant) (rule step_noted)

end

section \<open>A small environment\<close>

fun demo_py_str :: "pyval \<Rightarrow> string" where
  "demo_py_str (VStr s) = s"
| "demo_py_str (VInt i) = show_int i"
| "demo_py_str _ = ''?''"

text \<open>A service that does not know the transparency field.\<close>

definition demo_batch_world :: batch_world where
  "demo_batch_world = \<lparr>bx_dry_run = False, bx_resume = True,
     bx_post = (\<lambda>n payload. if map_of payload ''transparent_background'' = None then Png ''PNG'' (Some ''job'')
       else HttpFail 400 ''Extra inputs are not permitted''),
     bx_write = (\<lambda>_ _. Written), bx_now = (\<lambda>_. ''now''), bx_dumps = (\<lambda>_. ''{}''), bx_dumps_indented = (\<lambda>_. ''{}'')\<rparr>"

end
