(* ===== verification/Biome_Batch.thy ===== *)
theory Biome_Batch
  imports Batch_Engine
begin

text \<open>
  \<open>scripts/homm3-biome-bundle-batch.py\<close>: a pack of assets and biomes becomes a plan of images, one
  for each biome, asset, size and seed, which the loop of \<open>Batch_Engine\<close> works off. Every image has
  a JSON file beside it and a line in the manifest. \<open>biome_main\<close> is \<open>main\<close> after the arguments are
  parsed.
\<close>

section \<open>Reading a pack\<close>

definition normalize_size :: "string \<Rightarrow> string" where
  "normalize_size value =
     (let s = filter (\<lambda>c. c \<noteq> CHR '' '') (lower (strip value))
      in if CHR ''x'' \<in> set s then (let (w, h) = partition_on (CHR ''x'') s in w @ CHR ''x'' # h) else s)"

text \<open>\<open>_SIZE_PATTERN\<close>: three or four digits on each side of an \<open>x\<close>.\<close>

definition size_digits :: "string \<Rightarrow> bool" where
  "size_digits s \<longleftrightarrow> all_digits s \<and> (length s = 3 \<or> length s = 4)"

definition pack_size_pattern :: "string \<Rightarrow> bool" where
  "pack_size_pattern s \<longleftrightarrow> CHR ''x'' \<in> set s \<and> (let (w, h) = partition_on (CHR ''x'') s in size_digits w \<and> size_digits h)"

definition validate_size_token :: "string \<Rightarrow> script_error + string" where
  "validate_size_token raw =
     (let s = normalize_size raw in bind_r (check (pack_size_pattern s) (SystemExit ''invalid size'')) (\<lambda>_. Inr s))"

definition effective_sizes_for_entry :: "(pyval \<Rightarrow> string) \<Rightarrow> pydict \<Rightarrow> string \<Rightarrow> script_error + string list" where
  "effective_sizes_for_entry py_str entry pack_default_size =
     bind_r (validate_size_token pack_default_size) (\<lambda>default_tok.
     case dict_get entry ''sizes'' of
       VList raw \<Rightarrow>
         bind_r (map_r validate_size_token (stripped_texts py_str raw)) (\<lambda>out.
         Inr (if out = [] then [default_tok] else out))
     | _ \<Rightarrow> Inr [default_tok])"

definition tiles_field :: "pydict \<Rightarrow> string \<Rightarrow> pydict \<Rightarrow> script_error + pydict" where
  "tiles_field entry k extra =
     (let v = dict_get entry k in
      if (case as_int v of Some n \<Rightarrow> 0 < n | None \<Rightarrow> False) then Inr (dict_set k v extra)
      else bind_r (check (v = VNone) (SystemExit (k @ '' must be positive int''))) (\<lambda>_. Inr extra))"

definition entry_semantic_fields :: "pydict \<Rightarrow> script_error + pydict" where
  "entry_semantic_fields entry =
     bind_r (tiles_field entry ''footprint_tiles_w'' []) (\<lambda>extra.
     bind_r (tiles_field entry ''footprint_tiles_h'' extra) (\<lambda>extra.
     bind_r (case dict_get entry ''composition'' of
         VStr shape \<Rightarrow>
           (let c = strip shape in
            if c = [] then Inr extra
            else bind_r (check (c \<in> {''single_tile'', ''tall_sprite'', ''wide_scene'', ''dense_tile''})
                          (SystemExit ''composition must be one of'')) (\<lambda>_.
                 Inr (dict_set ''composition'' (VStr c) extra)))
       | _ \<Rightarrow> Inr extra) (\<lambda>extra.
     Inr (case dict_get entry ''category'' of
         VStr cat \<Rightarrow> if strip cat = [] then extra else dict_set ''category'' (VStr (strip cat)) extra
       | _ \<Rightarrow> extra))))"

text \<open>The lane is named by the first list of entries that is not empty; its folder has the same name.\<close>

fun first_lane :: "(string \<times> string) list \<Rightarrow> pydict \<Rightarrow> script_error + string \<times> pyval list" where
  "first_lane [] pack = Inl (SystemExit ''Pack must define non-empty entries'')"
| "first_lane ((key, lane) # keys) pack = (case dict_get pack key of
     VList (e # es) \<Rightarrow> Inr (lane, e # es) | _ \<Rightarrow> first_lane keys pack)"

definition lane_and_entries :: "pydict \<Rightarrow> script_error + string \<times> pyval list" where
  "lane_and_entries = first_lane [(''terrain_entries'', ''terrain''), (''structure_entries'', ''structures''),
     (''misc_entries'', ''misc''), (''bush_entries'', ''bush''), (''mushroom_entries'', ''mushroom'')]"

definition entry_allowed_for_biome :: "(pyval \<Rightarrow> string) \<Rightarrow> pydict \<Rightarrow> string \<Rightarrow> bool" where
  "entry_allowed_for_biome py_str entry biome_id =
     (case dict_get entry ''biomes_include'' of
        VList (i # inc) \<Rightarrow> biome_id \<in> set (stripped_texts py_str (i # inc))
      | _ \<Rightarrow> (case dict_get entry ''biomes_exclude'' of
          VList (e # exc) \<Rightarrow> biome_id \<notin> set (stripped_texts py_str (e # exc))
        | _ \<Rightarrow> True))"

definition asset_summary :: "(pyval \<Rightarrow> string) \<Rightarrow> pydict \<Rightarrow> string \<Rightarrow> string \<Rightarrow> string" where
  "asset_summary py_str entry biome_id lane =
     (let explicit = get_text py_str entry ''asset_summary'' in
      if explicit \<noteq> [] then explicit
      else let subject = strip (py_str (get_default entry ''prompt_subject'' (get_default entry ''id'' (VStr []))));
               eid = get_text py_str entry ''id'';
               label = (if subject \<noteq> [] then subject else eid)
           in lane @ '' asset for biome '' @ biome_id @ '': '' @ label)"

section \<open>What is known of an image\<close>

text \<open>\<open>base_record_kwargs\<close>.\<close>

record record_args =
  ra_scenario_id :: string
  ra_biome_id :: string
  ra_lane :: string
  ra_entry_id :: string
  ra_seed :: int
  ra_prompt :: string
  ra_negative_prompt :: string
  ra_model :: string
  ra_loras_opt :: "pyval list option"
  ra_sampler :: string
  ra_scheduler :: string
  ra_steps :: int
  ra_cfg :: rat
  ra_size :: string
  ra_transparent_background :: "bool option"
  ra_pack_path :: string
  ra_relative_image_path :: string
  ra_asset_summary :: string
  ra_asset_tags :: "string list"
  ra_semantic_extra :: pydict

definition opt_bool :: "bool option \<Rightarrow> pyval" where
  "opt_bool x = (case x of None \<Rightarrow> VNone | Some b \<Rightarrow> VBool b)"

definition opt_str :: "string option \<Rightarrow> pyval" where
  "opt_str x = (case x of None \<Rightarrow> VNone | Some s \<Rightarrow> VStr s)"

definition build_prompt_meta :: "record_args \<Rightarrow> string option \<Rightarrow> string \<Rightarrow> pydict" where
  "build_prompt_meta a job_id now =
     (let meta = [(''schema_version'', VInt 2), (''scenario_id'', VStr (ra_scenario_id a)), (''biome_id'', VStr (ra_biome_id a)),
          (''lane'', VStr (ra_lane a)), (''entry_id'', VStr (ra_entry_id a)), (''seed'', VInt (ra_seed a)),
          (''asset_summary'', VStr (ra_asset_summary a)), (''asset_tags'', VList (map VStr (ra_asset_tags a))),
          (''prompt'', VStr (ra_prompt a)), (''negative_prompt'', VStr (ra_negative_prompt a)), (''model'', VStr (ra_model a)),
          (''loras'', VList (case ra_loras_opt a of Some ls \<Rightarrow> ls | None \<Rightarrow> [])), (''steps'', VInt (ra_steps a)),
          (''cfg'', VFloat (ra_cfg a)), (''size'', VStr (ra_size a)),
          (''transparent_background'', opt_bool (ra_transparent_background a)), (''pack_path'', VStr (ra_pack_path a)),
          (''job_id'', opt_str job_id), (''generated_at'', VStr now),
          (''relative_image_path'', VStr (map (\<lambda>c. if c = CHR 0x5C then CHR ''/'' else c) (ra_relative_image_path a)))];
          meta = fold (\<lambda>(k, v). dict_set k v) (ra_semantic_extra a) meta;
          meta = (if ra_sampler a \<noteq> [] then dict_set ''sampler'' (VStr (ra_sampler a)) meta else meta)
      in if ra_scheduler a \<noteq> [] then dict_set ''scheduler'' (VStr (ra_scheduler a)) meta else meta)"

text \<open>The record of an image that came without the transparency field says so.\<close>

definition fallback_meta :: "record_args \<Rightarrow> string option \<Rightarrow> string \<Rightarrow> pydict" where
  "fallback_meta a job_id now =
     dict_set ''original_transparent_background'' (opt_bool (ra_transparent_background a))
       (dict_set ''transparent_background_fallback'' (VBool True)
         (build_prompt_meta (a\<lparr>ra_transparent_background := None\<rparr>) job_id now))"

definition image_meta :: "record_args \<Rightarrow> bool \<Rightarrow> string option \<Rightarrow> string \<Rightarrow> pydict" where
  "image_meta a fallback job_id now = (if fallback then fallback_meta a job_id now else build_prompt_meta a job_id now)"

definition append_manifest :: "batch_world \<Rightarrow> pydict \<Rightarrow> 'i batch \<Rightarrow> bool \<times> 'i batch" where
  "append_manifest w record b =
     (if bx_dry_run w then (True, b)
      else let r = bx_write w (gap b) ''asset-manifest.ndjson''
           in (r = Written, b\<lparr>bj_manifest := after_append r (bx_dumps w record @ [CHR 0x0A]) (bj_manifest b)\<rparr>))"

text \<open>Image, JSON file, manifest, in this order.\<close>

definition biome_save :: "record_args saver" where
  "biome_save w it fallback job png b =
     (let meta = image_meta (it_info it) fallback job (bx_now w (gap b))
      in and_then (write_png w it png b) (\<lambda>b. and_then (write_json w it meta b) (append_manifest w meta)))"

section \<open>The plan\<close>

record biome_config =
  bc_lane :: string
  bc_entries :: "pyval list"
  bc_biomes :: "pyval list"
  bc_template :: string
  bc_negative :: string
  bc_model :: string
  bc_size :: string
  bc_steps :: int
  bc_cfg :: rat
  bc_transparent :: pyval
  bc_seeds :: "int list"
  bc_sampler :: string
  bc_scheduler :: string
  bc_loras :: "pyval list option"
  bc_pack_path :: string

record biome_args =
  ba_api_key :: string
  ba_model_override :: string
  ba_pack_path :: string

text \<open>What \<open>main\<close> checks before anything is written, in its order.\<close>

definition read_biome_pack :: "(pyval \<Rightarrow> string) \<Rightarrow> biome_args \<Rightarrow> batch_world \<Rightarrow> json_text option \<Rightarrow> script_error + biome_config" where
  "read_biome_pack py_str args w pack_file =
     bind_r (check (bx_dry_run w \<or> strip (ba_api_key args) \<noteq> []) (SystemExit ''--api-key is required unless --dry-run.'')) (\<lambda>_.
     bind_r (load_pack pack_file) (\<lambda>pack.
     bind_r (lane_and_entries pack) (\<lambda>(lane, entries).
     let pack_lane = get_text py_str pack ''lane'' in
     bind_r (check (pack_lane = [] \<or> pack_lane = lane) (SystemExit ''Pack lane field disagrees with entries'')) (\<lambda>_.
     bind_r (elements (get_default pack ''biomes'' (VList []))) (\<lambda>biomes.
     bind_r (check (biomes \<noteq> []) (SystemExit ''Pack has no biomes[].'')) (\<lambda>_.
     let template = get_text py_str pack ''prompt_template'' in
     bind_r (check (contains ''{biome_hint}'' template \<and> contains ''{subject}'' template)
              (SystemExit ''prompt_template must include placeholders.'')) (\<lambda>_.
     let override = strip (ba_model_override args);
         model = (if override \<noteq> [] then override else get_text py_str pack ''model'') in
     bind_r (check (model \<noteq> []) (SystemExit ''Pack model is empty and --model-override not set.'')) (\<lambda>_.
     bind_r (validate_size_token (py_str (get_default pack ''size'' (VStr ''1024x1024'')))) (\<lambda>size.
     bind_r (or_uncaught (int_of (get_default pack ''steps'' (VInt 28)))) (\<lambda>steps.
     bind_r (or_uncaught (float_of (get_default pack ''cfg'' (VFloat 1)))) (\<lambda>cfg.
     bind_r (elements (get_default pack ''seeds'' (VList [VInt 101]))) (\<lambda>seeds_raw.
     bind_r (map_r (\<lambda>s. or_uncaught (int_of s)) seeds_raw) (\<lambda>seeds.
     bind_r (validate_loras_field py_str (dict_get pack ''loras'')) (\<lambda>loras.
     Inr \<lparr>bc_lane = lane, bc_entries = entries, bc_biomes = biomes, bc_template = template,
       bc_negative = py_str (get_default pack ''negative_prompt'' (VStr [])), bc_model = model, bc_size = size,
       bc_steps = steps, bc_cfg = cfg, bc_transparent = dict_get pack ''transparent_background'', bc_seeds = seeds,
       bc_sampler = (if dict_get pack ''sampler'' = VNone then [] else strip (py_str (dict_get pack ''sampler''))),
       bc_scheduler = (if dict_get pack ''scheduler'' = VNone then [] else strip (py_str (dict_get pack ''scheduler''))),
       bc_loras = loras, bc_pack_path = ba_pack_path args\<rparr>))))))))))))))"

text \<open>An entry's own wish, else the pack's when that is a boolean, else none.\<close>

definition entry_transparency :: "biome_config \<Rightarrow> pydict \<Rightarrow> bool option" where
  "entry_transparency cfg entry =
     (let tb = dict_get entry ''transparent_background'' in
      if tb = VNone then (case bc_transparent cfg of VBool d \<Rightarrow> Some d | _ \<Rightarrow> None) else Some (truthy tb))"

definition entry_tags :: "(pyval \<Rightarrow> string) \<Rightarrow> pydict \<Rightarrow> string list" where
  "entry_tags py_str entry = (case dict_get entry ''asset_tags'' of VList ts \<Rightarrow> stripped_texts py_str ts | _ \<Rightarrow> [])"

definition biome_payload :: "biome_config \<Rightarrow> string \<Rightarrow> bool option \<Rightarrow> string \<Rightarrow> int \<Rightarrow> pydict" where
  "biome_payload cfg prompt transparent dims seed =
     [(''model'', VStr (bc_model cfg)), (''prompt'', VStr prompt), (''negative_prompt'', VStr (bc_negative cfg)),
      (''size'', VStr dims), (''steps'', VInt (bc_steps cfg)), (''cfg'', VFloat (bc_cfg cfg)), (''seed'', VInt seed)] @
     (case transparent of Some t \<Rightarrow> [(''transparent_background'', VBool t)] | None \<Rightarrow> []) @
     optional_fields (bc_sampler cfg) (bc_scheduler cfg) (bc_loras cfg)"

definition image_path :: "string \<Rightarrow> string \<Rightarrow> string \<Rightarrow> string \<Rightarrow> int \<Rightarrow> string \<Rightarrow> string" where
  "image_path biome_id lane entry_id dims seed ending =
     path_join [safe biome_id, lane,
       safe entry_id @ ''__'' @ safe (map (\<lambda>c. if c = CHR ''x'' then CHR ''_'' else c) dims) @ ''__s'' @ show_int seed @ ending]"

definition biome_item :: "(pyval \<Rightarrow> string) \<Rightarrow> biome_config \<Rightarrow> string \<Rightarrow> pydict \<Rightarrow> pydict \<Rightarrow> string \<Rightarrow> string \<Rightarrow> int
    \<Rightarrow> record_args item" where
  "biome_item py_str cfg biome_id entry semantic prompt dims seed =
     (let entry_id = get_text py_str entry ''id''; transparent = entry_transparency cfg entry;
          target = image_path biome_id (bc_lane cfg) entry_id dims seed ''.png''
      in \<lparr>it_target = target,
          it_sidecar = image_path biome_id (bc_lane cfg) entry_id dims seed ''.prompt.json'',
          it_payload = biome_payload cfg prompt transparent dims seed,
          it_info = \<lparr>ra_scenario_id = biome_id @ ''__'' @ bc_lane cfg @ ''__'' @ entry_id @ ''__'' @ dims,
            ra_biome_id = biome_id, ra_lane = bc_lane cfg, ra_entry_id = entry_id, ra_seed = seed, ra_prompt = prompt,
            ra_negative_prompt = bc_negative cfg, ra_model = bc_model cfg, ra_loras_opt = bc_loras cfg,
            ra_sampler = bc_sampler cfg, ra_scheduler = bc_scheduler cfg, ra_steps = bc_steps cfg, ra_cfg = bc_cfg cfg,
            ra_size = dims, ra_transparent_background = transparent, ra_pack_path = bc_pack_path cfg,
            ra_relative_image_path = target, ra_asset_summary = asset_summary py_str entry biome_id (bc_lane cfg),
            ra_asset_tags = entry_tags py_str entry, ra_semantic_extra = semantic\<rparr>\<rparr>)"

text \<open>
  The images of one asset in one biome: none when it has no id or subject or is not meant for the
  biome, an error when one of its fields is wrong.
\<close>

definition entry_plan :: "(pyval \<Rightarrow> string) \<Rightarrow> biome_config \<Rightarrow> string \<Rightarrow> string \<Rightarrow> pyval \<Rightarrow> record_args plan" where
  "entry_plan py_str cfg biome_id biome_hint entry_raw = (case entry_raw of
     VDict entry \<Rightarrow>
       (let subject = get_text py_str entry ''prompt_subject'' in
        if get_text py_str entry ''id'' = [] \<or> subject = [] \<or> \<not> entry_allowed_for_biome py_str entry biome_id then []
        else (case bind_r (entry_semantic_fields entry) (\<lambda>semantic.
              bind_r (effective_sizes_for_entry py_str entry (bc_size cfg)) (\<lambda>sizes.
              bind_r (or_uncaught (py_format (bc_template cfg) [(''biome_hint'', biome_hint), (''subject'', subject)])) (\<lambda>prompt.
              Inr (semantic, sizes, prompt)))) of
            Inl e \<Rightarrow> [Inl e]
          | Inr (semantic, sizes, prompt) \<Rightarrow>
              concat (map (\<lambda>size. map (\<lambda>seed. Inr (biome_item py_str cfg biome_id entry semantic prompt size seed))
                (bc_seeds cfg)) sizes)))
   | _ \<Rightarrow> [])"

definition biome_plan :: "(pyval \<Rightarrow> string) \<Rightarrow> biome_config \<Rightarrow> record_args plan" where
  "biome_plan py_str cfg = concat (map (\<lambda>biome_raw. case biome_raw of
     VDict biome \<Rightarrow>
       (let biome_id = get_text py_str biome ''id''; biome_hint = get_text py_str biome ''hint'' in
        if biome_id = [] \<or> biome_hint = [] then []
        else concat (map (entry_plan py_str cfg biome_id biome_hint) (bc_entries cfg)))
   | _ \<Rightarrow> []) (bc_biomes cfg))"

text \<open>The manifest is started anew unless the run is resumed or dry.\<close>

definition biome_main :: "(pyval \<Rightarrow> string) \<Rightarrow> biome_args \<Rightarrow> json_text option \<Rightarrow> batch_world \<Rightarrow> record_args batch
    \<Rightarrow> (script_error + nat) \<times> record_args batch" where
  "biome_main py_str args pack_file w b = (case read_biome_pack py_str args w pack_file of
     Inl e \<Rightarrow> (Inl e, b)
   | Inr cfg \<Rightarrow>
       (let b = fresh (if \<not> bx_dry_run w \<and> \<not> bx_resume w then b\<lparr>bj_manifest := None\<rparr> else b)
        in log_and_exit w (run_plan (batch_step biome_save) w (biome_plan py_str cfg) b)))"

section \<open>What a run leaves\<close>

lemma append_manifest_only:
  "append_manifest w r b = (ok, b') \<Longrightarrow> bj_files b (it_target it) = Some png \<Longrightarrow> only_saves it ok png b b'"
  by (auto simp: append_manifest_def only_saves_def Let_def split: if_splits)

lemma biome_save_only:
  assumes s: "biome_save w it fallback job png b = (ok, b')"
  shows "only_saves it ok png b b'"
  using s unfolding biome_save_def Let_def
proof (rule png_then_only)
  fix c ok b'
  assume a: "and_then (write_json w it (image_meta (it_info it) fallback job (bx_now w (gap b))) c)
    (append_manifest w (image_meta (it_info it) fallback job (bx_now w (gap b)))) = (ok, b')"
    and c: "bj_files c (it_target it) = Some png"
  obtain ok1 d where d: "write_json w it (image_meta (it_info it) fallback job (bx_now w (gap b))) c = (ok1, d)"
    by fastforce
  have o: "only_saves it ok1 png c d" and f: "bj_files d (it_target it) = Some png"
    using write_json_only[OF d c] d c by (auto simp: write_json_def Let_def)
  show "only_saves it ok png c b'"
    using a d o append_manifest_only[OF _ f]
    by (cases ok1) (auto simp: and_then_def only_saves_def)
qed

text \<open>The manifest holds the line of an image.\<close>

definition in_manifest :: "batch_world \<Rightarrow> string option \<Rightarrow> record_args item \<Rightarrow> bool \<Rightarrow> string option \<Rightarrow> bool" where
  "in_manifest w manifest it fallback job \<longleftrightarrow> (\<exists>before now after.
     manifest = Some (before @ bx_dumps w (image_meta (it_info it) fallback job now) @ CHR 0x0A # after))"

lemma biome_save_manifest:
  assumes "biome_save w it fallback job png b = (ok, b')"
  shows "bj_manifest b' = bj_manifest b \<or> (\<exists>r. bj_manifest b' = after_append r
      (bx_dumps w (image_meta (it_info it) fallback job (bx_now w (gap b))) @ [CHR 0x0A]) (bj_manifest b) \<and> (ok \<longrightarrow> r = Written))"
    and "ok \<Longrightarrow> \<not> bx_dry_run w \<Longrightarrow> bj_manifest b' = after_append Written
      (bx_dumps w (image_meta (it_info it) fallback job (bx_now w (gap b))) @ [CHR 0x0A]) (bj_manifest b)"
  using assms
  by (auto simp: biome_save_def and_then_def write_png_def write_json_def append_manifest_def Let_def split: if_splits)

lemma append_keeps_line:
  "in_manifest w manifest it fallback job \<Longrightarrow> in_manifest w (after_append r new manifest) it fallback job"
  unfolding in_manifest_def after_append_def by (cases r) (fastforce simp: Let_def)+

interpretation biome: record_keeper biome_save in_manifest
proof
  fix w :: batch_world and it it' :: "record_args item" and fallback fallback' job job' png b ok b'
  assume s: "biome_save w it fallback job png b = (ok, b')"
  show "only_saves it ok png b b'"
    using s by (rule biome_save_only)
  show "in_manifest w (bj_manifest b') it' fallback' job'" if "in_manifest w (bj_manifest b) it' fallback' job'"
    using biome_save_manifest(1)[OF s] that append_keeps_line by metis
next
  fix w :: batch_world and it :: "record_args item" and fallback job png b b'
  assume s: "biome_save w it fallback job png b = (True, b')" and d: "\<not> bx_dry_run w"
  show "in_manifest w (bj_manifest b') it fallback job"
    using biome_save_manifest(2)[OF s _ d] unfolding in_manifest_def after_append_def
    by (intro exI[of _ "case bj_manifest b of Some t \<Rightarrow> t | None \<Rightarrow> []"] exI[of _ "bx_now w (gap b)"] exI[of _ "[]"])
      (simp add: Let_def)
qed

text \<open>
  When the repeated request fails with anything but an HTTP error, the exception leaves the loop
  from inside the handler, and so \<open>main\<close> without a run log.
\<close>

lemma repeated_request_escapes:
  assumes "\<not> bx_dry_run w" and "\<not> bx_resume w" and "bx_post w (gap b) (it_payload it) = HttpFail code body"
    and "should_retry_without_transparency code body"
    and "bx_post w (gap b + 1) (without_transparency (it_payload it)) = OtherFail"
  shows "fst (log_and_exit w (run_plan (batch_step save) w (Inr it # plan) b)) = Inl Uncaught"
  using assms by (simp add: batch_step_def try_item_def try_again_def post_binary_def Let_def log_and_exit_def)

text \<open>Assets that differ only in what \<open>_safe\<close> drops share their files.\<close>

lemma similar_ids_share_images: "safe ''Dead Tree'' = safe ''dead_tree''"
  by code_simp

section \<open>Properties\<close>

text \<open>How \<open>main\<close> reaches an exit code: the pack is in order, and the loop ends.\<close>

lemma biome_main_exit:
  assumes "biome_main py_str args pack_file w b = (Inr code, b')"
  obtains cfg b0 where "read_biome_pack py_str args w pack_file = Inr cfg"
    and "run_plan (batch_step biome_save) w (biome_plan py_str cfg) (fresh b0) = (None, b')"
    and "code = exit_code b'" and "bj_files b0 = bj_files b"
proof (cases "read_biome_pack py_str args w pack_file")
  case (Inr cfg)
  define b0 where "b0 = (if \<not> bx_dry_run w \<and> \<not> bx_resume w then b\<lparr>bj_manifest := None\<rparr> else b)"
  obtain e c where r: "run_plan (batch_step biome_save) w (biome_plan py_str cfg) (fresh b0) = (e, c)"
    by fastforce
  have "bj_files b0 = bj_files b"
    by (simp add: b0_def)
  then show thesis
    using that[of cfg b0] assms Inr r
    by (cases e) (auto simp: biome_main_def Let_def log_and_exit_def b0_def[symmetric] split: if_splits)
qed (use assms in \<open>simp add: biome_main_def\<close>)

definition image_recorded :: "batch_world \<Rightarrow> record_args batch \<Rightarrow> record_args item \<times> mark \<Rightarrow> bool" where
  "image_recorded w b r = (case r of (it, m) \<Rightarrow> bj_files b (it_target it) \<noteq> None \<and>
     (case m of Made job \<Rightarrow> in_manifest w (bj_manifest b) it False job
      | MadeFallback job \<Rightarrow> in_manifest w (bj_manifest b) it True job
      | _ \<Rightarrow> m = Skipped))"


text \<open>
  C32: A resumed run of the biome batch, wherever it stops, leaves every image that was there and not
  empty as it was, and each request it makes is for a planned image that was missing, with that
  image's payload or the same without the transparency field.
\<close>

theorem biome_batch_resumes:
  assumes main: "biome_main py_str args pack_file w b = (r, b')" and w: "bx_resume w"
  shows "(\<forall>p. bj_files b' p = bj_files b p \<or> \<not> present b p) \<and>
    (\<exists>cs. bj_calls b' = bj_calls b @ cs \<and> list_all (\<lambda>payload. \<exists>cfg it. read_biome_pack py_str args w pack_file = Inr cfg \<and>
      Inr it \<in> set (biome_plan py_str cfg) \<and> \<not> present b (it_target it) \<and>
      payload \<in> {it_payload it, without_transparency (it_payload it)}) cs)"
proof (cases "read_biome_pack py_str args w pack_file")
  case (Inl e)
  then show ?thesis
    using main by (simp add: biome_main_def)
next
  case (Inr cfg)
  obtain e c where run: "run_plan (batch_step biome_save) w (biome_plan py_str cfg) (fresh b) = (e, c)"
    by fastforce
  have "b' = c"
    using main Inr run w by (auto simp: biome_main_def log_and_exit_def split: option.splits)
  moreover have "spared_since (fresh b) (biome_plan py_str cfg) c"
    by (rule biome.batch.run_spared[OF run w])
  ultimately show ?thesis
    using Inr unfolding spared_since_def by (auto simp: present_def fresh_def list_all_iff)
qed

section \<open>A small pack\<close>

definition demo_pack :: pydict where
  "demo_pack = [(''misc_entries'', VList [VDict [(''id'', VStr ''Dead Tree''), (''prompt_subject'', VStr ''a dead tree''),
       (''footprint_tiles_w'', VInt 2)]]),
     (''biomes'', VList [VDict [(''id'', VStr ''swamp''), (''hint'', VStr ''fog'')], VDict [(''id'', VStr ''lava''), (''hint'', VStr ''ash'')]]),
     (''prompt_template'', VStr ''{subject}, {biome_hint}''), (''model'', VStr ''flux''),
     (''transparent_background'', VBool True)]"

definition demo_biome_args :: biome_args where
  "demo_biome_args = \<lparr>ba_api_key = ''key'', ba_model_override = [], ba_pack_path = ''/packs/demo.json''\<rparr>"

definition demo_batch :: "'i batch" where
  "demo_batch = \<lparr>bj_files = [''swamp/misc/dead_tree__1024_1024__s101.png'' \<mapsto> ''old''], bj_sidecars = Map.empty, bj_manifest = None,
     bj_calls = [], bj_runs = [], bj_total = 0, bj_failures = 0, bj_skipped = 0\<rparr>"

lemma demo_biome_run:
  "fst (biome_main demo_py_str demo_biome_args (Some (Some (VDict demo_pack))) demo_batch_world demo_batch) = Inr 0"
  "map snd (bj_runs (snd (biome_main demo_py_str demo_biome_args (Some (Some (VDict demo_pack))) demo_batch_world demo_batch))) =
    [Skipped, MadeFallback (Some ''job'')]"
  by code_simp+

definition demo_biome_end :: "record_args batch" where
  "demo_biome_end = snd (biome_main demo_py_str demo_biome_args (Some (Some (VDict demo_pack))) demo_batch_world demo_batch)"

lemma demo_biome_main:
  "biome_main demo_py_str demo_biome_args (Some (Some (VDict demo_pack))) demo_batch_world demo_batch = (Inr 0, demo_biome_end)"
  using demo_biome_run(1) by (simp add: demo_biome_end_def prod_eq_iff)

lemma demo_batch_start:
  "bx_resume demo_batch_world" "\<not> bx_dry_run demo_batch_world"
  "bj_files demo_batch ''swamp/misc/dead_tree__1024_1024__s101.png'' = Some ''old''"
  "present demo_batch ''swamp/misc/dead_tree__1024_1024__s101.png''"
  by (simp_all add: demo_batch_world_def demo_batch_def present_def)


theorem biome_batch_resumes_witness: "bj_files demo_biome_end ''swamp/misc/dead_tree__1024_1024__s101.png'' = Some ''old''"
  using biome_batch_resumes[OF demo_biome_main demo_batch_start(1), THEN conjunct1, rule_format,
      of "''swamp/misc/dead_tree__1024_1024__s101.png''"] by (simp add: demo_batch_start)

end
