(* ===== verification/Tree_Batch.thy ===== *)
theory Tree_Batch
  imports Batch_Engine
begin

text \<open>
  \<open>scripts/tree-environment-batch.py\<close>: tree sprites for the environments of a pack, one for each
  environment, species and seed. Images only: no JSON files and no manifest. \<open>tree_main\<close> is \<open>main\<close>
  after the arguments are parsed.
\<close>

section \<open>Reading a pack\<close>

definition DEFAULT_PROMPT_TEMPLATE :: string where
  "DEFAULT_PROMPT_TEMPLATE = ''sprite object, single {tree_type}, 2.5D orthographic sprite angle, subtle three-quarter tilt '' @
     ''for readable depth, shallow root disk visible under canopy, isolated single centered prop, '' @
     ''white background, white ground for clean alpha cutout, hand-painted fantasy strategy game asset, '' @
     ''HoMM3-inspired painterly style, {environment_hint}''"

definition DEFAULT_NEGATIVE :: string where
  "DEFAULT_NEGATIVE = ''terrain tile, grass patch, soil texture, dirt floor, platform, pedestal, island, cliff, '' @
     ''rocks, scene background, multiple objects, dark ground, colored ground, '' @ ''person, human, character, face''"

definition FORBIDDEN_HINT_TOKENS :: "string list" where
  "FORBIDDEN_HINT_TOKENS = [''ground'', ''grass'', ''soil'', ''dirt'', ''terrain'', ''floor'', ''roots'', ''base'',
     ''platform'', ''shadow'']"

text \<open>An environment's own species, else those of the pack.\<close>

definition species_for_environment :: "(pyval \<Rightarrow> string) \<Rightarrow> pydict \<Rightarrow> pydict \<Rightarrow> string list" where
  "species_for_environment py_str env pack =
     (case dict_get env ''tree_species'' of
        VList (s # raw) \<Rightarrow> stripped_texts py_str (s # raw)
      | _ \<Rightarrow> (case get_default pack ''tree_types'' (VList []) of
          VList ts \<Rightarrow> stripped_texts py_str ts
        | _ \<Rightarrow> []))"

text \<open>\<open>re.findall(r"\b\w+\b", s)\<close>: the maximal runs of word characters; \<open>w\<close> is the run so far.\<close>

definition hint_char :: "char \<Rightarrow> bool" where
  "hint_char c \<longleftrightarrow> is_alnum c \<or> c = CHR ''_''"

fun words_from :: "string \<Rightarrow> string \<Rightarrow> string list" where
  "words_from w [] = (if w = [] then [] else [w])"
| "words_from w (c # s) =
     (if hint_char c then words_from (w @ [c]) s
      else (if w = [] then [] else [w]) @ words_from [] s)"

definition validate_hint :: "string \<Rightarrow> script_error + unit" where
  "validate_hint hint =
     check (filter (\<lambda>t. t \<in> set FORBIDDEN_HINT_TOKENS) (words_from [] (lower hint)) = [])
       (SystemExit ''hint contains forbidden tokens'')"

section \<open>The plan\<close>

record tree_config =
  tc_pack :: pydict
  tc_model :: string
  tc_size :: string
  tc_steps :: int
  tc_cfg :: rat
  tc_transparent :: bool
  tc_seeds :: "pyval list"
  tc_template :: string
  tc_negative :: string
  tc_sampler :: string
  tc_scheduler :: string
  tc_loras :: "pyval list option"
  tc_environments :: "pyval list"

record tree_args =
  ta_model_override :: string
  ta_prompt_template_override :: string
  ta_negative_prompt_override :: string

definition overridden :: "string \<Rightarrow> string \<Rightarrow> string" where
  "overridden override value = (if strip override \<noteq> [] then strip override else value)"

definition read_tree_pack :: "(pyval \<Rightarrow> string) \<Rightarrow> tree_args \<Rightarrow> json_text option \<Rightarrow> script_error + tree_config" where
  "read_tree_pack py_str args pack_file =
     bind_r (load_pack pack_file) (\<lambda>pack.
     let model = overridden (ta_model_override args)
           (py_str (get_default pack ''model'' (VStr ''terrain-realisticfantasy-v30''))) in
     bind_r (or_uncaught (int_of (get_default pack ''steps'' (VInt 30)))) (\<lambda>steps.
     bind_r (or_uncaught (float_of (get_default pack ''cfg'' (VFloat (15 / 2))))) (\<lambda>cfg.
     bind_r (elements (get_default pack ''seeds'' (VList [VInt 102]))) (\<lambda>seeds.
     let template = overridden (ta_prompt_template_override args)
           (py_str (get_default pack ''prompt_template'' (VStr DEFAULT_PROMPT_TEMPLATE))) in
     bind_r (validate_loras_field py_str (dict_get pack ''loras'')) (\<lambda>loras.
     bind_r (elements (get_default pack ''environments'' (VList []))) (\<lambda>environments.
     bind_r (check (environments \<noteq> []) (SystemExit ''Batch pack has no environments.'')) (\<lambda>_.
     bind_r (check (contains ''{environment_hint}'' template \<and> contains ''{tree_type}'' template)
              (SystemExit ''prompt_template must include placeholders.'')) (\<lambda>_.
     Inr \<lparr>tc_pack = pack, tc_model = model, tc_size = py_str (get_default pack ''size'' (VStr ''1024x1024'')),
       tc_steps = steps, tc_cfg = cfg,
       tc_transparent = truthy (get_default pack ''transparent_background'' (VBool True)), tc_seeds = seeds,
       tc_template = template,
       tc_negative = overridden (ta_negative_prompt_override args)
         (py_str (get_default pack ''negative_prompt'' (VStr DEFAULT_NEGATIVE))),
       tc_sampler = (if dict_get pack ''sampler'' = VNone then [] else strip (py_str (dict_get pack ''sampler''))),
       tc_scheduler = (if dict_get pack ''scheduler'' = VNone then [] else strip (py_str (dict_get pack ''scheduler''))),
       tc_loras = loras, tc_environments = environments\<rparr>))))))))"

record tree_info =
  ti_environment_id :: string
  ti_tree_type :: string
  ti_seed :: int

definition tree_payload :: "tree_config \<Rightarrow> string \<Rightarrow> int \<Rightarrow> pydict" where
  "tree_payload cfg prompt seed =
     [(''model'', VStr (tc_model cfg)), (''prompt'', VStr prompt), (''negative_prompt'', VStr (tc_negative cfg)),
      (''size'', VStr (tc_size cfg)), (''steps'', VInt (tc_steps cfg)), (''cfg'', VFloat (tc_cfg cfg)), (''seed'', VInt seed),
      (''transparent_background'', VBool (tc_transparent cfg))] @
     optional_fields (tc_sampler cfg) (tc_scheduler cfg) (tc_loras cfg)"

definition tree_item :: "tree_config \<Rightarrow> string \<Rightarrow> string \<Rightarrow> string \<Rightarrow> pyval \<Rightarrow> script_error + tree_info item" where
  "tree_item cfg env_id env_hint tree_type seed_raw =
     bind_r (or_uncaught (int_of seed_raw)) (\<lambda>seed.
     bind_r (or_uncaught (py_format (tc_template cfg) [(''environment_hint'', env_hint), (''tree_type'', tree_type)])) (\<lambda>prompt.
     Inr \<lparr>it_target = path_join [safe env_id, safe tree_type @ ''__s'' @ show_int seed @ ''.png''], it_sidecar = [],
       it_payload = tree_payload cfg prompt seed,
       it_info = \<lparr>ti_environment_id = env_id, ti_tree_type = tree_type, ti_seed = seed\<rparr>\<rparr>))"

definition environment_plan :: "(pyval \<Rightarrow> string) \<Rightarrow> tree_config \<Rightarrow> pyval \<Rightarrow> tree_info plan" where
  "environment_plan py_str cfg env_raw = (case env_raw of
     VDict env \<Rightarrow>
       (let env_id = get_text py_str env ''id''; env_hint = get_text py_str env ''hint'';
            species = species_for_environment py_str env (tc_pack cfg) in
        if env_id = [] \<or> env_hint = [] then []
        else (case validate_hint env_hint of
            Inl e \<Rightarrow> [Inl e]
          | Inr _ \<Rightarrow>
              if species = [] then [Inl (SystemExit ''Environment has no tree_species'')]
              else concat (map (\<lambda>tree_type. map (tree_item cfg env_id env_hint tree_type) (tc_seeds cfg)) species)))
   | _ \<Rightarrow> [])"

definition tree_plan :: "(pyval \<Rightarrow> string) \<Rightarrow> tree_config \<Rightarrow> tree_info plan" where
  "tree_plan py_str cfg = concat (map (environment_plan py_str cfg) (tc_environments cfg))"

definition tree_save :: "tree_info saver" where
  "tree_save w it fallback job png b = write_png w it png b"

definition tree_turn :: "batch_world \<Rightarrow> tree_info item \<Rightarrow> tree_info batch \<Rightarrow> bool \<times> tree_info batch" where
  "tree_turn = batch_step tree_save"

definition tree_main :: "(pyval \<Rightarrow> string) \<Rightarrow> tree_args \<Rightarrow> json_text option \<Rightarrow> batch_world \<Rightarrow> tree_info batch
    \<Rightarrow> (script_error + nat) \<times> tree_info batch" where
  "tree_main py_str args pack_file w b = (case read_tree_pack py_str args pack_file of
     Inl e \<Rightarrow> (Inl e, b)
   | Inr cfg \<Rightarrow> log_and_exit w (run_plan tree_turn w (tree_plan py_str cfg) (fresh b)))"

section \<open>What a run leaves\<close>

interpretation trees: image_writer tree_save
  by standard (simp add: tree_save_def write_png_only)

text \<open>With exit code 0, and not dry, every planned sprite is a file.\<close>

lemma tree_batch_complete:
  assumes main: "tree_main py_str args pack_file w b = (Inr 0, b')" and w: "\<not> bx_dry_run w"
    and cfg: "read_tree_pack py_str args pack_file = Inr cfg" and p: "p \<in> set (tree_plan py_str cfg)"
  shows "\<exists>it. p = Inr it \<and> bj_files b' (it_target it) \<noteq> None"
  using trees.batch.exit_complete[OF _ w p] main cfg by (simp add: tree_main_def tree_turn_def)

text \<open>An underscore makes one word of two: a hint can name the ground all the same.\<close>

lemma hint_words: "validate_hint ''mossy grass'' \<noteq> Inr ()" "validate_hint ''mossy_grass'' = Inr ()"
  by code_simp+

end
