(* ===== verification/Batch_Suite.thy ===== *)
theory Batch_Suite
  imports Biome_Batch Tree_Batch
begin

text \<open>
  \<open>scripts/run-homm3-tree-bundle.py\<close>, which runs the biome batch for each lane and then the tree
  batch as processes of their own, below one bundle root inside the repository. What a process
  returns and which packs exist are parameters; writing the summary is taken to succeed.
\<close>

section \<open>The orchestrator\<close>

definition HOMM3_PACKS :: "(string \<times> string) list" where
  "HOMM3_PACKS = [(''terrain'', ''docs/architecture/homm3-flux-terrain-biome-pack.json''),
     (''structures'', ''docs/architecture/homm3-flux-structure-biome-pack.json''),
     (''misc'', ''docs/architecture/homm3-flux-misc-biome-pack.json''),
     (''bush'', ''docs/architecture/homm3-flux-bush-biome-pack.json''),
     (''mushroom'', ''docs/architecture/homm3-flux-mushroom-biome-pack.json'')]"

record suite_args =
  sa_bundle_root :: string
  sa_base_url :: string
  sa_api_key :: string
  sa_tree_pack :: string
  sa_timeout_s :: string
  sa_model_override :: string
  sa_dry_run :: bool
  sa_skip_homm3 :: bool
  sa_skip_trees :: bool
  sa_resume :: bool

text \<open>The first of the keys in \<open>API_KEYS\<close>, when none is given.\<close>

definition first_api_key_from_env :: "environ \<Rightarrow> string" where
  "first_api_key_from_env env =
     (let raw = strip (getenv env ''API_KEYS'' []) in if raw = [] then [] else strip (hd (split_on (CHR '','') raw)))"

definition suite_key :: "environ \<Rightarrow> suite_args \<Rightarrow> string" where
  "suite_key env args = (if strip (sa_api_key args) \<noteq> [] then strip (sa_api_key args) else first_api_key_from_env env)"

text \<open>The arguments of the two scripts, after the interpreter. Paths are relative to the repository.\<close>

definition lane_argv :: "suite_args \<Rightarrow> string \<Rightarrow> string \<Rightarrow> string \<Rightarrow> string list" where
  "lane_argv args api_key lane pack =
     [''scripts/homm3-biome-bundle-batch.py'', ''--pack'', pack, ''--base-url'', sa_base_url args, ''--out-dir'',
      sa_bundle_root args @ ''/homm3/'' @ lane, ''--timeout-s'', sa_timeout_s args] @
     (if strip (sa_model_override args) \<noteq> [] then [''--model-override'', strip (sa_model_override args)] else []) @
     (if sa_dry_run args then [''--dry-run''] else [''--api-key'', api_key]) @
     (if sa_resume args then [''--resume''] else [])"

definition tree_argv :: "suite_args \<Rightarrow> string \<Rightarrow> string list" where
  "tree_argv args api_key =
     [''scripts/tree-environment-batch.py'', ''--pack'', sa_tree_pack args, ''--base-url'', sa_base_url args, ''--api-key'',
      if api_key \<noteq> [] then api_key else ''dummy'', ''--out-dir'', sa_bundle_root args @ ''/trees'', ''--timeout-s'',
      sa_timeout_s args] @
     (if sa_dry_run args then [''--dry-run''] else []) @ (if sa_resume args then [''--resume''] else [])"

text \<open>
  The labels with the codes, in order. \<open>run\<close> gives the return code of a process, which is the
  negative number of the signal when one killed it; \<open>pack_exists\<close> is \<open>is_file\<close>.
\<close>

definition suite_steps :: "suite_args \<Rightarrow> string \<Rightarrow> (string \<Rightarrow> bool) \<Rightarrow> (string list \<Rightarrow> int) \<Rightarrow> (string \<times> int) list" where
  "suite_steps args api_key pack_exists run =
     (if sa_skip_homm3 args then []
      else map (\<lambda>(lane, pack). (''homm3:'' @ lane, if pack_exists pack then run (lane_argv args api_key lane pack) else 1))
             HOMM3_PACKS) @
     (if sa_skip_trees args then [] else [(''trees'', run (tree_argv args api_key))])"

definition worst_exit_code :: "(string \<times> int) list \<Rightarrow> int" where
  "worst_exit_code steps = fold (\<lambda>(label, code) worst. max worst code) steps 0"

definition suite_main :: "environ \<Rightarrow> suite_args \<Rightarrow> (string \<Rightarrow> bool) \<Rightarrow> (string list \<Rightarrow> int)
    \<Rightarrow> script_error + int \<times> (string \<times> int) list" where
  "suite_main env args pack_exists run =
     (let api_key = suite_key env args in
      bind_r (check (sa_dry_run args \<or> api_key \<noteq> []) (SystemExit ''No API key'')) (\<lambda>_.
      let steps = suite_steps args api_key pack_exists run in Inr (worst_exit_code steps, steps)))"

lemma worst_fold: "fold (\<lambda>(label, code) worst. max worst code) steps n = Max (insert n (snd ` set steps))"
proof (induction steps arbitrary: n)
  case (Cons s steps)
  have "fold (\<lambda>(label, code) worst. max worst code) (s # steps) n = Max (insert (max n (snd s)) (snd ` set steps))"
    using Cons.IH by (simp add: case_prod_unfold)
  also have "\<dots> = Max (insert n (insert (snd s) (snd ` set steps)))"
    by (cases "snd ` set steps = {}") (simp_all add: max.assoc)
  finally show ?case
    by simp
qed simp

lemma worst_zero: "worst_exit_code steps = 0 \<longleftrightarrow> list_all (\<lambda>(label, code). code \<le> 0) steps"
proof -
  have "worst_exit_code steps = Max (insert 0 (snd ` set steps))"
    by (simp add: worst_exit_code_def worst_fold)
  then show ?thesis
    by (auto simp: list_all_iff Max_eq_iff)
qed

text \<open>
  A suite that returns 0 has run every lane to the end without a failure, when no process was killed:
  each code is 0, so by \<open>biome_batch_complete\<close> its images are there.
\<close>

lemma suite_zero:
  assumes m: "suite_main env args pack_exists run = Inr (0, steps)" and nk: "list_all (\<lambda>(label, code). 0 \<le> code) steps"
  shows "list_all (\<lambda>(label, code). code = 0) steps"
proof -
  have "worst_exit_code steps = 0"
    using m by (auto simp: suite_main_def Let_def bind_r_Inr)
  then have z: "list_all (\<lambda>(label, code). code \<le> 0) steps"
    by (simp only: worst_zero)
  show ?thesis
    unfolding list_all_iff
  proof (rule ballI)
    fix s
    assume "s \<in> set steps"
    then have "case s of (label, code) \<Rightarrow> code \<le> 0" and "case s of (label, code) \<Rightarrow> 0 \<le> code"
      using z nk unfolding list_all_iff by blast+
    then show "case s of (label, code) \<Rightarrow> code = 0"
      by (cases s) simp
  qed
qed

lemma suite_lane:
  assumes m: "suite_main env args pack_exists run = Inr (0, steps)" and nk: "list_all (\<lambda>(label, code). 0 \<le> code) steps"
    and h: "\<not> sa_skip_homm3 args" and l: "(lane, pack) \<in> set HOMM3_PACKS"
  shows "pack_exists pack \<and> run (lane_argv args (suite_key env args) lane pack) = 0"
proof -
  have "steps = suite_steps args (suite_key env args) pack_exists run"
    using m by (auto simp: suite_main_def Let_def bind_r_Inr)
  then have "(''homm3:'' @ lane, if pack_exists pack then run (lane_argv args (suite_key env args) lane pack) else 1) \<in> set steps"
    using h l by (force simp: suite_steps_def)
  then show ?thesis
    using suite_zero[OF m nk] by (auto simp: list_all_iff split: if_splits)
qed

text \<open>A process killed by a signal has a negative code, which the maximum with 0 hides.\<close>

lemma killed_lane_reports_success:
  assumes "sa_dry_run args"
  shows "\<exists>steps. suite_main env args (\<lambda>_. True) (\<lambda>_. - 9) = Inr (0, steps)"
  using assms by (simp add: suite_main_def Let_def check_def worst_exit_code_def suite_steps_def HOMM3_PACKS_def)

end
