(* ===== verification/Bundle_Batch.thy ===== *)
theory Bundle_Batch
  imports Batch_Engine
begin

text \<open>
  \<open>scripts/generic-bundle-batch.py\<close>: the manifests of a bundle of maps become jobs, one for each
  asset (or output of a character), rotation and seed; \<open>GenerationEngine\<close> works them off and writes a
  JSON token beside each image. A set of decorators is the list of its members in the order of the
  alphabet. Ids that are numbers are compared as they are written, and joined paths are taken to be
  relative.
\<close>

section \<open>Prompts\<close>

text \<open>The chunks of a fragment; one that is false or blank has none.\<close>

definition prompt_chunks :: "(pyval \<Rightarrow> string) \<Rightarrow> pyval \<Rightarrow> string list" where
  "prompt_chunks py_str part =
     (if truthy part \<and> strip (py_str part) \<noteq> [] then comma_list (py_str part) else [])"

fun unseen :: "string list \<Rightarrow> string list \<Rightarrow> string list" where
  "unseen seen [] = []"
| "unseen seen (t # ts) = (if lower t \<in> set seen then unseen seen ts else t # unseen (lower t # seen) ts)"

definition merge_csv_prompt_parts :: "(pyval \<Rightarrow> string) \<Rightarrow> pyval list \<Rightarrow> string" where
  "merge_csv_prompt_parts py_str parts = join_comma (unseen [] (concat (map (prompt_chunks py_str) parts)))"

definition ALL_PROMPT_DECORATORS :: "string list" where
  "ALL_PROMPT_DECORATORS = [''biome'', ''category'', ''framing'', ''rotation'', ''suffix'']"

text \<open>\<open>None\<close> stands for the \<open>ValueError\<close> about unknown decorators.\<close>

definition normalize_decorator_names :: "string \<Rightarrow> string list option" where
  "normalize_decorator_names spec =
     (let got = map lower (comma_list spec)
      in if list_all (\<lambda>d. d \<in> set ALL_PROMPT_DECORATORS) got
         then Some (filter (\<lambda>d. d \<in> set got) ALL_PROMPT_DECORATORS) else None)"

definition resolve_prompt_decorator_set :: "string \<Rightarrow> string \<Rightarrow> string list option" where
  "resolve_prompt_decorator_set decorators decorator_preset =
     (let raw = strip decorators; preset = (if decorator_preset = [] then ''full'' else decorator_preset) in
      if raw \<noteq> [] then normalize_decorator_names raw
      else if preset = ''full'' then Some ALL_PROMPT_DECORATORS
      else if preset = ''no_biome'' then Some (filter (\<lambda>d. d \<noteq> ''biome'') ALL_PROMPT_DECORATORS)
      else if preset = ''subject_only'' then Some [''framing'', ''rotation'', ''suffix'']
      else None)"

text \<open>A list of decorators is joined by commas, anything else is \<open>str\<close> of it.\<close>

definition decorator_spec :: "(pyval \<Rightarrow> string) \<Rightarrow> pyval \<Rightarrow> string" where
  "decorator_spec py_str raw = (case raw of VList ds \<Rightarrow> join_on (CHR '','') (map py_str ds) | _ \<Rightarrow> py_str raw)"

definition effective_asset_decorators :: "(pyval \<Rightarrow> string) \<Rightarrow> pydict \<Rightarrow> string list \<Rightarrow> string list option" where
  "effective_asset_decorators py_str asset global_dec =
     (let own = dict_get asset ''decorators'' in
      if own \<noteq> VNone then normalize_decorator_names (decorator_spec py_str own)
      else let sub = map lower (comma_list (decorator_spec py_str (py_or (dict_get asset ''decorators_exclude'') (VStr []))))
           in Some (filter (\<lambda>d. d \<notin> set sub) global_dec))"

text \<open>\<open>(d.get(k) or "").strip()\<close>: only texts can be stripped.\<close>

definition or_blank :: "pydict \<Rightarrow> string \<Rightarrow> script_error + string" where
  "or_blank d k = (let v = dict_get d k in
     if \<not> truthy v then Inr [] else case v of VStr s \<Rightarrow> Inr (strip s) | _ \<Rightarrow> Inl Uncaught)"

text \<open>A fragment that is switched on and not empty; joining fragments needs texts.\<close>

definition fragment :: "string list \<Rightarrow> string \<Rightarrow> pyval \<Rightarrow> (string \<times> pyval) list" where
  "fragment decorators name v = (if name \<in> set decorators \<and> truthy v then [(name, v)] else [])"

definition text_value :: "pyval \<Rightarrow> script_error + string" where
  "text_value v = (case v of VStr s \<Rightarrow> Inr s | _ \<Rightarrow> Inl Uncaught)"

definition join_parts :: "pyval list \<Rightarrow> script_error + string" where
  "join_parts parts = bind_r (map_r text_value (filter truthy parts)) (\<lambda>ts. Inr (join_comma ts))"

definition build_positive_prompt :: "pydict \<Rightarrow> pydict \<Rightarrow> pyval \<Rightarrow> pyval \<Rightarrow> string \<Rightarrow> string list
    \<Rightarrow> script_error + string \<times> (string \<times> pyval) list \<times> bool" where
  "build_positive_prompt asset category_info cat_keywords biome_hint rot_keyword decorators =
     bind_r (or_blank category_info ''framing_prompt'') (\<lambda>framing.
     bind_r (or_blank asset ''prompt_base'') (\<lambda>base_structured.
     bind_r (or_blank asset ''prompt_suffix'') (\<lambda>ending.
     bind_r (or_blank asset ''prompt'') (\<lambda>legacy_blob.
     let structured = (base_structured \<noteq> []);
         core = (if structured then base_structured else legacy_blob);
         on = fragment decorators;
         base = (if core \<noteq> [] then [(''base'', VStr core)] else []);
         rotation = on ''rotation'' (VStr rot_keyword); closing = on ''suffix'' (VStr ending);
         fragments =
           (if structured
            then on ''framing'' (VStr framing) @ base @ on ''category'' cat_keywords @ on ''biome'' biome_hint @ rotation @ closing
            else base @ on ''biome'' biome_hint @ on ''category'' cat_keywords @ rotation @ closing)
     in bind_r (join_parts (map snd fragments)) (\<lambda>final_prompt. Inr (final_prompt, fragments, structured))))))"

text \<open>Merged fragments can be taken apart again: a chunk has no comma and no surrounding white space.\<close>

definition clean_chunk :: "string \<Rightarrow> bool" where
  "clean_chunk t \<longleftrightarrow> t \<noteq> [] \<and> CHR '','' \<notin> set t \<and> strip t = t"

lemma strip_blank: "strip_by p s = [] \<longleftrightarrow> list_all p s"
proof
  assume "strip_by p s = []"
  then have "list_all p (dropWhile p s)"
    by (simp add: strip_by_def list_all_iff)
  then have "dropWhile p s = []"
    using hd_dropWhile[of p s] by (cases "dropWhile p s") auto
  then show "list_all p s"
    by (simp add: list_all_iff)
qed (auto simp: strip_by_def list_all_iff dest: set_dropWhileD)

lemma strip_idem: "strip (strip t) = strip t"
proof (cases "strip t = []")
  case True
  show ?thesis
    unfolding True by (simp add: strip_by_def)
next
  case False
  then show ?thesis
    using strip_by_clean[of "strip t" is_space "[]" "[]"] strip_by_edges[of is_space t] by simp
qed

lemma comma_list_clean: "list_all clean_chunk (comma_list s)"
  using split_on_no_sep[of _ "CHR '',''" s] set_strip_by[of is_space]
  by (fastforce simp: list_all_iff comma_list_def clean_chunk_def strip_idem)

lemma chunks_clean: "list_all clean_chunk (prompt_chunks py_str part)"
  by (simp add: prompt_chunks_def comma_list_clean)

lemma split_join_comma:
  "list_all clean_chunk (t # ts) \<Longrightarrow> split_on (CHR '','') (join_comma (t # ts)) = t # map ((#) (CHR '' '')) ts"
proof (induction ts arbitrary: t)
  case Nil
  then show ?case
    by (simp add: split_on_sep_free clean_chunk_def)
next
  case (Cons u ts)
  then show ?case
    using split_on_append[of "CHR '',''" t] by (simp add: clean_chunk_def)
qed

lemma strip_space: "strip (CHR '' '' # t) = strip t"
  by (simp add: strip_by_def is_space_def)

lemma comma_list_join_comma:
  assumes "list_all clean_chunk ts"
  shows "comma_list (join_comma ts) = ts"
proof (cases ts)
  case (Cons t us)
  have "map strip (t # us) = t # us" and "filter (\<lambda>p. p \<noteq> []) (t # us) = t # us"
    using assms Cons by (auto simp: list_all_iff clean_chunk_def intro!: map_idI)
  then show ?thesis
    using split_join_comma assms Cons by (simp add: comma_list_def strip_space comp_def)
qed (simp add: comma_list_def strip_by_def)

lemma strip_join_comma: "clean_chunk t \<Longrightarrow> strip (join_comma (t # ts)) \<noteq> []"
  using strip_blank[of is_space t] strip_blank[of is_space "join_comma (t # ts)"]
  by (cases ts) (auto simp: clean_chunk_def)

text \<open>Keeping the first of each chunk, up to case.\<close>

lemma unseen_keys: "set (map lower (unseen seen ts)) = set (map lower ts) - set seen"
  by (induction seen ts rule: unseen.induct) auto

lemma unseen_distinct: "distinct (map lower (unseen seen ts))"
  by (induction seen ts rule: unseen.induct) (use unseen_keys in \<open>auto simp del: set_map\<close>)

lemma unseen_all: "distinct (map lower ts) \<Longrightarrow> set (map lower ts) \<inter> set seen = {} \<Longrightarrow> unseen seen ts = ts"
  by (induction seen ts rule: unseen.induct) auto

lemma unseen_sub: "set (unseen seen ts) \<subseteq> set ts"
  by (induction seen ts rule: unseen.induct) auto

text \<open>
  Merging prompt fragments keeps the first of each comma-separated chunk and no second one that
  differs in case only: the chunks of the result are, up to case, those of the fragments, each once.
  Merging the result again changes nothing.
\<close>

theorem merged_prompt_stable:
  assumes str: "\<And>s. py_str (VStr s) = s"
  shows "merge_csv_prompt_parts py_str [VStr (merge_csv_prompt_parts py_str parts)] = merge_csv_prompt_parts py_str parts \<and>
    distinct (map lower (comma_list (merge_csv_prompt_parts py_str parts))) \<and>
    set (map lower (comma_list (merge_csv_prompt_parts py_str parts))) =
      set (map lower (concat (map (prompt_chunks py_str) parts)))"
proof -
  define ts where "ts = unseen [] (concat (map (prompt_chunks py_str) parts))"
  have m: "merge_csv_prompt_parts py_str parts = join_comma ts"
    by (simp add: merge_csv_prompt_parts_def ts_def)
  have clean: "list_all clean_chunk ts"
    using unseen_sub[of "[]" "concat (map (prompt_chunks py_str) parts)"] chunks_clean
    unfolding ts_def list_all_iff by fastforce
  then have split: "comma_list (join_comma ts) = ts"
    by (rule comma_list_join_comma)
  have "prompt_chunks py_str (VStr (join_comma ts)) = ts"
  proof (cases ts)
    case (Cons t us)
    then have "strip (join_comma ts) \<noteq> []"
      using strip_join_comma clean by simp
    moreover from this have "join_comma ts \<noteq> []"
      by (auto simp: strip_by_def)
    ultimately show ?thesis
      using split by (simp add: prompt_chunks_def str)
  qed (simp add: prompt_chunks_def)
  moreover have "distinct (map lower ts)"
    unfolding ts_def by (rule unseen_distinct)
  ultimately show ?thesis
    using split unseen_keys[of "[]" "concat (map (prompt_chunks py_str) parts)"]
    by (simp add: m) (simp add: merge_csv_prompt_parts_def unseen_all ts_def)
qed

theorem merged_prompt_stable_witness:
  "distinct (map lower (comma_list (merge_csv_prompt_parts demo_py_str [VStr ''fog, Moss'', VStr ''moss,rain''])))"
  using merged_prompt_stable[of demo_py_str] by simp

section \<open>The bundle\<close>

definition as_dict :: "pyval \<Rightarrow> script_error + pydict" where
  "as_dict v = (case v of VDict d \<Rightarrow> Inr d | _ \<Rightarrow> Inl Uncaught)"

text \<open>A file of \<open>BundleConfig\<close>, which may not exist, as a table by id; the last of equal ids counts.\<close>

definition load_lookup :: "json_text option \<Rightarrow> string \<Rightarrow> script_error + (pyval \<times> pydict) list" where
  "load_lookup json_file k = (case json_file of
     None \<Rightarrow> Inr []
   | Some None \<Rightarrow> Inl Uncaught
   | Some (Some v) \<Rightarrow>
       bind_r (as_dict v) (\<lambda>d.
       bind_r (elements (get_default d k (VList []))) (\<lambda>cs.
       map_r (\<lambda>c. bind_r (as_dict c) (\<lambda>c.
         case map_of c ''id'' of
           Some i \<Rightarrow> if hashable i then Inr (i, c) else Inl Uncaught
         | None \<Rightarrow> Inl Uncaught)) cs)))"

definition lookup :: "(pyval \<times> pydict) list \<Rightarrow> pyval \<Rightarrow> script_error + pydict" where
  "lookup table key =
     (if hashable key then Inr (case map_of (rev table) key of Some d \<Rightarrow> d | None \<Rightarrow> []) else Inl Uncaught)"

record bundle_args =
  ga_model_override :: string
  ga_steps :: int
  ga_cfg :: rat
  ga_seeds :: string
  ga_rotations :: string
  ga_categories :: string
  ga_loras :: string
  ga_decorators :: string
  ga_decorator_preset :: string

text \<open>
  The files of the bundle: the two tables, and, when there is a directory of locations, every
  manifest below it with the name of its directory; a manifest that cannot be read is \<open>None\<close>.
\<close>

record bundle_files =
  gb_categories :: "json_text option"
  gb_biomes :: "json_text option"
  gb_manifests :: "(string \<times> json_text) list option"

record job_builder =
  jb_categories :: "(pyval \<times> pydict) list"
  jb_biomes :: "(pyval \<times> pydict) list"
  jb_seeds :: "int list"
  jb_rotations :: "string list"
  jb_target_categories :: "string list"
  jb_loras :: "pyval list"
  jb_decorators :: "string list"

definition parse_lora :: "string \<Rightarrow> script_error + pyval" where
  "parse_lora item =
     (if CHR '':'' \<in> set item then
        (let (name, weight) = partition_on (CHR '':'') item in
         bind_r (or_uncaught (py_float (strip weight))) (\<lambda>weight.
         Inr (VDict [(''name'', VStr (strip name)), (''weight'', VFloat weight)])))
      else Inr (VDict [(''name'', VStr (strip item)), (''weight'', VFloat 1)]))"

text \<open>\<open>BundleConfig\<close> and \<open>JobBuilder.__init__\<close>.\<close>

definition make_job_builder :: "bundle_files \<Rightarrow> bundle_args \<Rightarrow> string list \<Rightarrow> script_error + job_builder" where
  "make_job_builder files args decorators =
     bind_r (load_lookup (gb_categories files) ''categories'') (\<lambda>categories.
     bind_r (load_lookup (gb_biomes files) ''biomes'') (\<lambda>biomes.
     bind_r (map_r (\<lambda>s. or_uncaught (py_int s)) (comma_list (ga_seeds args))) (\<lambda>seeds.
     bind_r (map_r parse_lora (comma_list (ga_loras args))) (\<lambda>loras.
     Inr \<lparr>jb_categories = categories, jb_biomes = biomes, jb_seeds = seeds,
       jb_rotations = comma_list (ga_rotations args),
       jb_target_categories = (if ga_categories args = [] then [] else map strip (split_on (CHR '','') (ga_categories args))),
       jb_loras = loras, jb_decorators = decorators\<rparr>))))"

section \<open>Jobs\<close>

definition rotation_prompts :: "(string \<times> string) list" where
  "rotation_prompts = [(''0'', ''viewed from front, facing forward''), (''90'', ''viewed from the right side, profile view''),
     (''180'', ''viewed from behind, back view''), (''270'', ''viewed from the left side, profile view'')]"

definition rotation_keyword :: "string \<Rightarrow> string" where
  "rotation_keyword rot = (case map_of rotation_prompts rot of
     Some k \<Rightarrow> k | None \<Rightarrow> ''facing '' @ rot @ '' degrees'')"

definition bundle_payload :: "job_builder \<Rightarrow> bundle_args \<Rightarrow> string \<Rightarrow> string \<Rightarrow> string \<Rightarrow> int \<Rightarrow> pydict" where
  "bundle_payload jb args prompt negative dims seed =
     [(''model'', VStr (ga_model_override args)), (''prompt'', VStr prompt), (''negative_prompt'', VStr negative),
      (''size'', VStr dims), (''steps'', VInt (ga_steps args)), (''cfg'', VFloat (ga_cfg args)), (''seed'', VInt seed),
      (''transparent_background'', VBool True)] @
     (if jb_loras jb \<noteq> [] then [(''loras'', VList (jb_loras jb))] else [])"

text \<open>A job: the image, its token beside it, the request.\<close>

definition job_at :: "string list \<Rightarrow> string \<Rightarrow> pydict \<Rightarrow> pydict \<Rightarrow> pydict item" where
  "job_at dirs base payload token =
     \<lparr>it_target = path_join (dirs @ [base @ ''.png'']), it_sidecar = path_join (dirs @ [base @ ''.json'']),
      it_payload = payload, it_info = token\<rparr>"

definition image_dimensions :: "pyval \<Rightarrow> pyval \<Rightarrow> pyval" where
  "image_dimensions width height = VDict [(''width'', width), (''height'', height)]"

definition dims_text :: "(pyval \<Rightarrow> string) \<Rightarrow> pyval \<Rightarrow> pyval \<Rightarrow> string" where
  "dims_text py_str width height = py_str width @ ''x'' @ py_str height"

text \<open>What an asset's jobs have in common.\<close>

record asset_site =
  as_location :: pyval
  as_category_id :: pyval
  as_biome_id :: pyval
  as_category_info :: pydict
  as_biome_hint :: pyval
  as_negatives :: "pyval list"

definition asset_job :: "(pyval \<Rightarrow> string) \<Rightarrow> job_builder \<Rightarrow> bundle_args \<Rightarrow> asset_site \<Rightarrow> pydict \<Rightarrow> pyval \<Rightarrow> pyval
    \<Rightarrow> string \<Rightarrow> int \<Rightarrow> script_error + pydict item" where
  "asset_job py_str jb args site asset width height rot seed =
     (let negative = merge_csv_prompt_parts py_str (as_negatives site @ [get_default asset ''negative_prompt'' (VStr [])]) in
     bind_r (or_uncaught (effective_asset_decorators py_str asset (jb_decorators jb))) (\<lambda>dec.
     bind_r (build_positive_prompt asset (as_category_info site)
         (get_default (as_category_info site) ''prompt_keywords'' (VStr [])) (as_biome_hint site)
         (rotation_keyword rot) dec) (\<lambda>(prompt, fragments, structured).
     bind_r (or_uncaught (map_of asset ''id'')) (\<lambda>asset_id.
     bind_r (text_value (as_location site)) (\<lambda>location.
     bind_r (text_value (as_category_id site)) (\<lambda>category_id.
     Inr (job_at [location, category_id] (py_str asset_id @ ''__r'' @ rot @ ''__s'' @ show_int seed)
       (bundle_payload jb args prompt negative (dims_text py_str width height) seed)
       [(''token_version'', VStr ''1.0''),
        (''asset'', VDict [(''id'', asset_id), (''name'', get_default asset ''name'' (VStr [])),
           (''category'', as_category_id site), (''biome'', as_biome_id site), (''tags'', get_default asset ''tags'' (VList []))]),
        (''map_attributes'', VDict [(''tile_size'', get_default asset ''tile_size'' (VStr ''1x1'')),
           (''rotation_degrees'', VStr rot), (''is_seamless'', get_default asset ''seamless'' (VBool False))]),
        (''generation_meta'', VDict [(''seed'', VInt seed), (''model'', VStr (ga_model_override args)),
           (''loras'', VList (jb_loras jb)), (''prompt_used'', VStr prompt), (''prompt_fragments'', VDict fragments),
           (''prompt_decorators'', VList (map VStr dec)), (''prompt_structured_base'', VBool structured),
           (''negative_prompt_used'', VStr negative), (''image_dimensions'', image_dimensions width height)])])))))))"

text \<open>\<open>for rot in rotations: for seed in seeds\<close>, stopping at the first error.\<close>

definition each_rotation :: "string list \<Rightarrow> int list \<Rightarrow> (string \<Rightarrow> int \<Rightarrow> script_error + 'j) \<Rightarrow> script_error + 'j list" where
  "each_rotation rotations seeds f = map_r (\<lambda>(rot, seed). f rot seed) (List.product rotations seeds)"

definition asset_jobs :: "(pyval \<Rightarrow> string) \<Rightarrow> job_builder \<Rightarrow> bundle_args \<Rightarrow> asset_site \<Rightarrow> pyval \<Rightarrow> script_error + pydict item list" where
  "asset_jobs py_str jb args site asset_raw =
     bind_r (as_dict asset_raw) (\<lambda>asset.
     bind_r (case map_of asset ''dimensions'' of None \<Rightarrow> Inr [] | Some d \<Rightarrow> as_dict d) (\<lambda>dimensions.
     each_rotation (jb_rotations jb) (jb_seeds jb)
       (asset_job py_str jb args site asset (get_default dimensions ''width'' (VInt 1024)) (get_default dimensions ''height'' (VInt 1024)))))"

definition character_job :: "(pyval \<Rightarrow> string) \<Rightarrow> job_builder \<Rightarrow> bundle_args \<Rightarrow> pydict \<Rightarrow> pyval \<Rightarrow> pydict \<Rightarrow> pyval
    \<Rightarrow> string \<Rightarrow> string \<Rightarrow> pydict \<Rightarrow> pyval \<Rightarrow> pyval \<Rightarrow> string \<Rightarrow> int \<Rightarrow> script_error + pydict item" where
  "character_job py_str jb args manifest location char char_id negative out_key out_cfg width height rot seed =
     bind_r (join_parts ([get_default char ''appearance_prompt'' (VStr []), get_default out_cfg ''style_prompt'' (VStr [])] @
       (if rot \<noteq> ''0'' then [VStr (rotation_keyword rot)] else []))) (\<lambda>prompt.
     bind_r (text_value location) (\<lambda>location.
     bind_r (text_value char_id) (\<lambda>char_dir.
     Inr (job_at [location, ''characters'', char_dir] (char_dir @ ''_'' @ out_key @ ''__r'' @ rot @ ''__s'' @ show_int seed)
       (bundle_payload jb args prompt negative (dims_text py_str width height) seed)
       [(''token_version'', VStr ''1.0''),
        (''character'', VDict [(''id'', char_id), (''name'', get_default char ''name'' (VStr [])),
           (''class'', get_default char ''class'' (VStr [])), (''faction'', get_default manifest ''faction'' (VStr [])),
           (''tags'', get_default char ''tags'' (VList []))]),
        (''map_attributes'', VDict [(''output_type'', VStr out_key), (''rotation_degrees'', VStr rot)]),
        (''generation_meta'', VDict [(''seed'', VInt seed), (''model'', VStr (ga_model_override args)),
           (''loras'', VList (jb_loras jb)), (''prompt_used'', VStr prompt), (''negative_prompt_used'', VStr negative),
           (''image_dimensions'', image_dimensions width height)])]))))"

text \<open>One output of a character; only sprites are turned.\<close>

definition output_jobs :: "(pyval \<Rightarrow> string) \<Rightarrow> job_builder \<Rightarrow> bundle_args \<Rightarrow> pydict \<Rightarrow> pyval \<Rightarrow> pydict \<Rightarrow> pyval \<Rightarrow> string
    \<Rightarrow> string \<times> pyval \<Rightarrow> script_error + pydict item list" where
  "output_jobs py_str jb args manifest location char char_id negative r = (case r of (out_key, out_raw) \<Rightarrow>
     bind_r (as_dict out_raw) (\<lambda>out_cfg.
     if \<not> truthy (get_default out_cfg ''enabled'' (VBool False)) then Inr []
     else bind_r (as_dict (get_default out_cfg ''dimensions'' (VDict []))) (\<lambda>dimensions.
       each_rotation (if out_key = ''sprite'' then jb_rotations jb else [''0'']) (jb_seeds jb)
         (character_job py_str jb args manifest location char char_id negative out_key out_cfg
           (get_default dimensions ''width'' (VInt 1024)) (get_default dimensions ''height'' (VInt 1024))))))"

definition character_jobs :: "(pyval \<Rightarrow> string) \<Rightarrow> job_builder \<Rightarrow> bundle_args \<Rightarrow> pydict \<Rightarrow> pyval \<Rightarrow> pyval
    \<Rightarrow> script_error + pydict item list" where
  "character_jobs py_str jb args manifest location char_raw =
     bind_r (lookup (jb_categories jb) (VStr ''characters'')) (\<lambda>char_category.
     bind_r (as_dict char_raw) (\<lambda>char.
     bind_r (or_uncaught (map_of char ''id'')) (\<lambda>char_id.
     bind_r (as_dict (get_default char ''outputs'' (VDict []))) (\<lambda>outputs.
     let negative = merge_csv_prompt_parts py_str [get_default char_category ''negative_prompt_keywords'' (VStr []),
           get_default char ''negative_prompt'' (VStr [])] in
     bind_r (map_r (output_jobs py_str jb args manifest location char char_id negative) outputs) (\<lambda>jobs.
     Inr (concat jobs))))))"

definition SKIP_BIOME_NEGATIVE_FOR_CATEGORY :: "pyval list" where
  "SKIP_BIOME_NEGATIVE_FOR_CATEGORY = [VStr ''terrain'', VStr ''vfx_atmosphere'', VStr ''magic_arrays_traps'']"

text \<open>The jobs of one manifest: its assets, then its characters.\<close>

definition manifest_jobs :: "(pyval \<Rightarrow> string) \<Rightarrow> job_builder \<Rightarrow> bundle_args \<Rightarrow> string \<times> json_text
    \<Rightarrow> script_error + pydict item list" where
  "manifest_jobs py_str jb args r = (case r of
     (parent, None) \<Rightarrow> Inr []
   | (parent, Some v) \<Rightarrow>
       bind_r (as_dict v) (\<lambda>manifest.
       let location = get_default manifest ''location'' (VStr ''unknown_loc'');
           category_id = get_default manifest ''category'' (VStr parent);
           biome_id = get_default manifest ''biome_id'' (VStr ''unknown_biome'') in
       if jb_target_categories jb \<noteq> [] \<and> category_id \<notin> set (map VStr (jb_target_categories jb)) then Inr []
       else
         bind_r (lookup (jb_categories jb) category_id) (\<lambda>category_info.
         bind_r (lookup (jb_biomes jb) biome_id) (\<lambda>biome_info.
         let site = \<lparr>as_location = location, as_category_id = category_id, as_biome_id = biome_id,
               as_category_info = category_info, as_biome_hint = get_default biome_info ''hint'' (VStr []),
               as_negatives = [get_default category_info ''negative_prompt_keywords'' (VStr []),
                 if category_id \<in> set SKIP_BIOME_NEGATIVE_FOR_CATEGORY then VStr []
                 else get_default biome_info ''negative_hint'' (VStr [])]\<rparr> in
         bind_r (elements (get_default manifest ''assets'' (VList []))) (\<lambda>assets.
         bind_r (map_r (asset_jobs py_str jb args site) assets) (\<lambda>asset_js.
         bind_r (elements (get_default manifest ''characters'' (VList []))) (\<lambda>characters.
         bind_r (map_r (character_jobs py_str jb args manifest location) characters) (\<lambda>character_js.
         Inr (concat asset_js @ concat character_js)))))))))"

definition discover_jobs :: "(pyval \<Rightarrow> string) \<Rightarrow> job_builder \<Rightarrow> bundle_args \<Rightarrow> bundle_files \<Rightarrow> script_error + pydict item list" where
  "discover_jobs py_str jb args files = (case gb_manifests files of
     None \<Rightarrow> Inr []
   | Some ms \<Rightarrow> bind_r (map_r (manifest_jobs py_str jb args) ms) (\<lambda>js. Inr (concat js)))"

section \<open>The engine\<close>

text \<open>The token of an image that was made: three fields more, and a fourth after a fallback.\<close>

definition file_name :: "string \<Rightarrow> string" where
  "file_name path = last (split_on (CHR ''/'') path)"

definition finished_token :: "pydict item \<Rightarrow> bool \<Rightarrow> string option \<Rightarrow> string \<Rightarrow> pydict" where
  "finished_token it fallback job_id now =
     (let meta = dict_of (dict_get (it_info it) ''generation_meta'');
          meta = dict_set ''job_id'' (case job_id of None \<Rightarrow> VNone | Some j \<Rightarrow> VStr j) meta;
          meta = dict_set ''image_path'' (VStr (file_name (it_target it))) meta;
          meta = dict_set ''generated_at'' (VStr now) meta;
          meta = (if fallback then dict_set ''fallback_no_transparency'' (VBool True) meta else meta)
      in dict_set ''generation_meta'' (VDict meta) (it_info it))"

definition bundle_save :: "pydict saver" where
  "bundle_save w it fallback job png b =
     and_then (write_png w it png b) (\<lambda>b. write_json w it (finished_token it fallback job (bx_now w (gap b))) b)"

definition bundle_turn :: "batch_world \<Rightarrow> pydict item \<Rightarrow> pydict batch \<Rightarrow> bool \<times> pydict batch" where
  "bundle_turn = engine_step bundle_save"

definition engine_run :: "batch_world \<Rightarrow> pydict item list \<Rightarrow> pydict batch \<Rightarrow> script_error option \<times> pydict batch" where
  "engine_run w jobs b = run_plan bundle_turn w (map Inr jobs) (fresh b\<lparr>bj_total := length jobs\<rparr>)"

text \<open>\<open>main\<close>: unknown decorators exit with 2, a bundle without jobs with 0.\<close>

definition bundle_main :: "(pyval \<Rightarrow> string) \<Rightarrow> bundle_args \<Rightarrow> bundle_files \<Rightarrow> batch_world \<Rightarrow> pydict batch
    \<Rightarrow> (script_error + nat) \<times> pydict batch" where
  "bundle_main py_str args files w b = (case resolve_prompt_decorator_set (ga_decorators args) (ga_decorator_preset args) of
     None \<Rightarrow> (Inr 2, b)
   | Some decorators \<Rightarrow>
       (case bind_r (make_job_builder files args decorators) (\<lambda>jb. discover_jobs py_str jb args files) of
          Inl e \<Rightarrow> (Inl e, b)
        | Inr [] \<Rightarrow> (Inr 0, b)
        | Inr (j # jobs) \<Rightarrow>
            (case engine_run w (j # jobs) b of
               (Some e, b) \<Rightarrow> (Inl e, b)
             | (None, b) \<Rightarrow> (Inr (exit_code b), b))))"

section \<open>What a run leaves\<close>

interpretation bundles: image_writer bundle_save
proof
  fix w :: batch_world and it :: "pydict item" and fallback job png b ok b'
  assume "bundle_save w it fallback job png b = (ok, b')"
  then show "only_saves it ok png b b'"
    unfolding bundle_save_def by (rule png_then_only) (rule write_json_only)
qed

lemma engine_ends: "fst (run_plan (engine_step save) w (map Inr its) b) = None"
proof (induction its arbitrary: b)
  case (Cons it its)
  obtain c where "engine_step save w it b = (True, c)"
    using engine_goes_on[of save w it b] by (metis prod.collapse)
  then show ?case
    using Cons.IH by simp
qed simp

lemma engine_tally:
  assumes r: "engine_run w jobs b = (e, b')"
  shows "e = None" and "map fst (bj_runs b') = jobs"
    and "bj_failures b' = 0 \<longleftrightarrow> list_all (\<lambda>(it, m). \<not> failed_mark m) (bj_runs b')"
proof -
  define b0 where "b0 = fresh b\<lparr>bj_total := length jobs\<rparr>"
  have run: "run_plan (engine_step bundle_save) w (map Inr jobs) b0 = (e, b')"
    using r by (simp add: engine_run_def bundle_turn_def b0_def)
  show "e = None"
    using engine_ends[of bundle_save w jobs b0] run by simp
  then have "map Inr (map fst (bj_runs b')) = (map Inr jobs :: pydict plan)"
    using bundles.engine.run_rows[of w "map Inr jobs" b0 b'] run by (simp add: b0_def fresh_def)
  then show "map fst (bj_runs b') = jobs"
    by (metis (no_types, lifting) inj_map_eq_map inj_Inr)
  have "tallied b'"
    using bundles.engine.run_tallied[OF run] by (simp add: b0_def fresh_def tallied_def)
  then show "bj_failures b' = 0 \<longleftrightarrow> list_all (\<lambda>(it, m). \<not> failed_mark m) (bj_runs b')"
    by (auto simp: tallied_def filter_empty_conv list_all_iff)
qed


section \<open>A small bundle\<close>

definition demo_bundle_args :: bundle_args where
  "demo_bundle_args = \<lparr>ga_model_override = ''flux1-dev'', ga_steps = 28, ga_cfg = 1, ga_seeds = ''101'', ga_rotations = ''0, 90'',
     ga_categories = [], ga_loras = [], ga_decorators = [], ga_decorator_preset = ''no_biome''\<rparr>"

definition demo_bundle :: bundle_files where
  "demo_bundle = \<lparr>gb_categories = Some (Some (VDict [(''categories'', VList [VDict [(''id'', VStr ''props''),
       (''prompt_keywords'', VStr ''game prop''), (''framing_prompt'', VStr ''isolated object'')]])])),
     gb_biomes = None,
     gb_manifests = Some [(''props'', None), (''props'', Some (VDict [(''location'', VStr ''hall''),
       (''assets'', VList [VDict [(''id'', VStr ''urn''), (''prompt_base'', VStr ''a bronze urn''), (''prompt_suffix'', VStr ''top down'')]]),
       (''characters'', VList [VDict [(''id'', VStr ''di_xin''), (''appearance_prompt'', VStr ''a king''),
          (''outputs'', VDict [(''sprite'', VDict [(''enabled'', VBool False)]), (''portrait'', VDict [(''enabled'', VBool True)])])]])]))]\<rparr>"

definition demo_builder :: job_builder where
  "demo_builder = \<lparr>jb_categories = [(VStr ''props'', [(''id'', VStr ''props''), (''prompt_keywords'', VStr ''game prop''),
       (''framing_prompt'', VStr ''isolated object'')])], jb_biomes = [],
     jb_seeds = [101], jb_rotations = [''0'', ''90''], jb_target_categories = [], jb_loras = [],
     jb_decorators = [''category'', ''framing'', ''rotation'', ''suffix'']\<rparr>"

lemma demo_bundle_read:
  "resolve_prompt_decorator_set (ga_decorators demo_bundle_args) (ga_decorator_preset demo_bundle_args) =
    Some [''category'', ''framing'', ''rotation'', ''suffix'']"
  "make_job_builder demo_bundle demo_bundle_args [''category'', ''framing'', ''rotation'', ''suffix''] = Inr demo_builder"
  by code_simp+

lemma demo_bundle_jobs:
  "map_r (\<lambda>it. Inr (it_target it)) (case discover_jobs demo_py_str demo_builder demo_bundle_args demo_bundle of Inr js \<Rightarrow> js | _ \<Rightarrow> []) =
    (Inr [''hall/props/urn__r0__s101.png'', ''hall/props/urn__r90__s101.png'', ''hall/characters/di_xin/di_xin_portrait__r0__s101.png'']
      :: unit + string list)"
  "map_r (\<lambda>it. Inr (map_of (it_payload it) ''prompt'')) (case discover_jobs demo_py_str demo_builder demo_bundle_args demo_bundle of Inr js \<Rightarrow> js | _ \<Rightarrow> []) =
    (Inr [Some (VStr ''isolated object, a bronze urn, game prop, viewed from front, facing forward, top down''),
      Some (VStr ''isolated object, a bronze urn, game prop, viewed from the right side, profile view, top down''),
      Some (VStr ''a king'')] :: unit + pyval option list)"
  by code_simp+

definition demo_jobs :: "pydict item list" where
  "demo_jobs = (case discover_jobs demo_py_str demo_builder demo_bundle_args demo_bundle of Inr js \<Rightarrow> js | Inl _ \<Rightarrow> [])"

lemma demo_bundle_found: "discover_jobs demo_py_str demo_builder demo_bundle_args demo_bundle = Inr demo_jobs"
  "length demo_jobs = 3"
proof -
  have "(case discover_jobs demo_py_str demo_builder demo_bundle_args demo_bundle of Inr _ \<Rightarrow> True | Inl _ \<Rightarrow> False)"
    "length demo_jobs = 3"
    by code_simp+
  then show "discover_jobs demo_py_str demo_builder demo_bundle_args demo_bundle = Inr demo_jobs" "length demo_jobs = 3"
    by (auto simp: demo_jobs_def split: sum.splits)
qed


end
