(* ===== verification/Review_Batch.thy ===== *)
theory Review_Batch
  imports Batch_Engine
begin

text \<open>
  \<open>scripts/asset-review-batch.py\<close>: one image for each scenario and seed of a pack. It has no dry and
  no resumed runs, and catches \<open>HTTPError\<close> only: any other exception ends the run.
  \<open>review_main\<close> is \<open>main\<close> after the arguments are parsed.
\<close>

section \<open>The plan\<close>

record review_config =
  rv_model :: string
  rv_negative :: string
  rv_transparent :: bool
  rv_seeds :: "int list"
  rv_scenarios :: "pyval list"

text \<open>\<open>_load_pack\<close>: only a missing file has a message.\<close>

definition load_review_pack :: "json_text option \<Rightarrow> script_error + pyval" where
  "load_review_pack pack_file = (case pack_file of
     None \<Rightarrow> Inl (SystemExit ''Batch pack not found'')
   | Some t \<Rightarrow> or_uncaught t)"

fun seed_numbers :: "pyval list \<Rightarrow> script_error + int list" where
  "seed_numbers [] = Inr []"
| "seed_numbers (v # vs) =
     bind_r (or_uncaught (int_of v)) (\<lambda>n. bind_r (seed_numbers vs) (\<lambda>ns. Inr (n # ns)))"

definition read_review_pack :: "(pyval \<Rightarrow> string) \<Rightarrow> json_text option \<Rightarrow> script_error + review_config" where
  "read_review_pack py_str pack_file =
     bind_r (load_review_pack pack_file) (\<lambda>v. case v of
       VDict pack \<Rightarrow>
         bind_r (or_uncaught (map_of pack ''model'')) (\<lambda>model.
         bind_r (elements (get_default pack ''seeds'' (VList [VInt 101]))) (\<lambda>raw.
         bind_r (seed_numbers raw) (\<lambda>seeds.
         bind_r (elements (get_default pack ''scenarios'' (VList []))) (\<lambda>scenarios.
         bind_r (check (scenarios \<noteq> []) (SystemExit ''No scenarios in pack'')) (\<lambda>_.
         Inr \<lparr>rv_model = py_str model, rv_negative = py_str (get_default pack ''negative_prompt'' (VStr [])),
           rv_transparent = truthy (get_default pack ''transparent_background'' (VBool True)),
           rv_seeds = seeds, rv_scenarios = scenarios\<rparr>)))))
     | _ \<Rightarrow> Inl Uncaught)"

record review_info =
  vi_scenario_id :: string
  vi_seed :: int

definition review_item :: "review_config \<Rightarrow> string \<Rightarrow> string \<Rightarrow> string \<Rightarrow> int \<Rightarrow> rat \<Rightarrow> int \<Rightarrow> review_info item" where
  "review_item cfg scenario_id prompt dims steps guidance seed =
     \<lparr>it_target = path_join [safe scenario_id, safe scenario_id @ ''__s'' @ show_int seed @ ''.png''], it_sidecar = [],
      it_payload = [(''model'', VStr (rv_model cfg)), (''prompt'', VStr prompt), (''negative_prompt'', VStr (rv_negative cfg)),
        (''size'', VStr dims), (''steps'', VInt steps), (''cfg'', VFloat guidance), (''seed'', VInt seed),
        (''transparent_background'', VBool (rv_transparent cfg))],
      it_info = \<lparr>vi_scenario_id = scenario_id, vi_seed = seed\<rparr>\<rparr>"

text \<open>The numbers are read before the scenario is looked at, so they can raise for one that is skipped.\<close>

definition scenario_plan :: "(pyval \<Rightarrow> string) \<Rightarrow> review_config \<Rightarrow> pyval \<Rightarrow> review_info plan" where
  "scenario_plan py_str cfg raw = (case raw of
     VDict scenario \<Rightarrow>
       (let scenario_id = get_text py_str scenario ''id''; prompt = get_text py_str scenario ''prompt'';
            dims = py_str (get_default scenario ''size'' (VStr ''1024x1024'')) in
        case (int_of (get_default scenario ''steps'' (VInt 28)), float_of (get_default scenario ''cfg'' (VFloat 5))) of
          (Some steps, Some guidance) \<Rightarrow>
            if scenario_id = [] \<or> prompt = [] then []
            else map (\<lambda>seed. Inr (review_item cfg scenario_id prompt dims steps guidance seed)) (rv_seeds cfg)
        | _ \<Rightarrow> [Inl Uncaught])
   | _ \<Rightarrow> [Inl Uncaught])"

definition review_plan :: "(pyval \<Rightarrow> string) \<Rightarrow> review_config \<Rightarrow> review_info plan" where
  "review_plan py_str cfg = concat (map (scenario_plan py_str cfg) (rv_scenarios cfg))"

section \<open>The run\<close>

definition review_save :: "review_info saver" where
  "review_save w it fallback job png b = write_png w it png b"

text \<open>One turn: the first request and its write stand outside every clause but that for \<open>HTTPError\<close>.\<close>

definition review_turn :: "batch_world \<Rightarrow> review_info item \<Rightarrow> review_info batch \<Rightarrow> bool \<times> review_info batch" where
  "review_turn w it b =
     (let b = b\<lparr>bj_total := bj_total b + 1\<rparr>; (answer, b) = post_binary w (it_payload it) b in
      case answer of
        Png png job \<Rightarrow>
          (let (ok, b) = review_save w it False job png b in if ok then (True, note_row it (Made job) b) else (False, b))
      | HttpFail code body \<Rightarrow>
          if should_retry_without_transparency code body then try_again review_save False w it b
          else (True, note_failure it (HttpFailed code body) b)
      | OtherFail \<Rightarrow> (False, b))"

definition review_main :: "(pyval \<Rightarrow> string) \<Rightarrow> json_text option \<Rightarrow> batch_world \<Rightarrow> review_info batch
    \<Rightarrow> (script_error + nat) \<times> review_info batch" where
  "review_main py_str pack_file w b = (case read_review_pack py_str pack_file of
     Inl e \<Rightarrow> (Inl e, b)
   | Inr cfg \<Rightarrow> log_and_exit w (run_plan review_turn w (review_plan py_str cfg) (fresh b)))"

section \<open>What a run leaves\<close>

interpretation reviews: image_writer review_save
  by standard (simp add: review_save_def write_png_only)

lemma review_turn_ok: "turn_ok w it b (review_turn w it b)"
proof -
  define b1 where "b1 = b\<lparr>bj_total := bj_total b + 1\<rparr>"
  define c where "c = b1\<lparr>bj_calls := bj_calls b1 @ [it_payload it]\<rparr>"
  have p: "post_binary w (it_payload it) (b\<lparr>bj_total := bj_total b + 1\<rparr>) = (bx_post w (gap b) (it_payload it), c)"
    by (simp add: post_binary_def c_def b1_def)
  have c: "attempted it [it_payload it] b1 c"
    using attempted_post[OF attempted_start] by (simp add: c_def)
  have "turn_ok w it b1 (review_turn w it b)"
  proof (cases "bx_post w (gap b) (it_payload it)")
    case (Png png job)
    obtain ok e where e: "review_save w it False job png c = (ok, e)"
      by fastforce
    have o: "only_saves it ok png c e"
      by (rule reviews.saves[OF e])
    then have "ok \<Longrightarrow> bj_files e (it_target it) \<noteq> None"
      by (simp add: only_saves_def)
    then show ?thesis
      using attempted_save[OF c o] p e Png
      by (auto simp: review_turn_def intro!: turn_made turn_left)
  qed (use p c reviews.again_turn[OF c] in \<open>auto simp: review_turn_def intro!: turn_failed turn_left\<close>)
  then show ?thesis
    by (simp add: b1_def)
qed

interpretation review: batch_loop review_turn
  by (rule batch_loopI) (rule review_turn_ok)

text \<open>The arguments have no dry run, so exit code 0 means that every planned image is there.\<close>

lemma review_complete:
  assumes main: "review_main py_str pack_file w b = (Inr 0, b')" and w: "\<not> bx_dry_run w"
    and cfg: "read_review_pack py_str pack_file = Inr cfg" and p: "p \<in> set (review_plan py_str cfg)"
  shows "\<exists>it. p = Inr it \<and> bj_files b' (it_target it) \<noteq> None"
  using review.exit_complete[OF _ w p] main cfg by (simp add: review_main_def)

text \<open>
  One request that fails without an answer ends the run: the rows of the images made so far never
  reach the log, which is written behind the loop.
\<close>

lemma review_stops:
  "bx_post w (gap b) (it_payload it) = OtherFail \<Longrightarrow>
   \<exists>c. run_plan review_turn w (Inr it # plan) b = (Some Uncaught, c) \<and> bj_runs c = bj_runs b"
  by (simp add: review_turn_def post_binary_def)

end
