(* ===== verification/Prompt_Migration.thy ===== *)
theory Prompt_Migration
  imports Batch_Engine
begin

text \<open>
  \<open>scripts/migrate-investiture-prompts.py\<close>: the manifests of a map bundle get \<open>prompt_base\<close> and
  \<open>prompt_suffix\<close> for their old \<open>prompt\<close>. Files are paths, as their parts, with the value their text
  parses to; what a failed write leaves is a parameter. Ids of categories are compared as values of
  one kind. Messages go by what they tell, not by their wording.
\<close>

section \<open>Patterns\<close>

text \<open>
  The three patterns consist of letters, \<open>\s*\<close> and an optional letter at the end, and ignore case; each is
  matched without going back. The result is what is left behind the match.
\<close>

datatype rx = Letters string | Spaces | Maybe char

definition same_letter :: "char \<Rightarrow> char \<Rightarrow> bool" where
  "same_letter a b \<longleftrightarrow> to_lower a = to_lower b"

fun rx_letters :: "string \<Rightarrow> string \<Rightarrow> string option" where
  "rx_letters [] s = Some s"
| "rx_letters (p # ps) [] = None"
| "rx_letters (p # ps) (c # s) = (if same_letter p c then rx_letters ps s else None)"

fun rx_match :: "rx list \<Rightarrow> string \<Rightarrow> string option" where
  "rx_match [] s = Some s"
| "rx_match (Letters p # r) s = (case rx_letters p s of None \<Rightarrow> None | Some s' \<Rightarrow> rx_match r s')"
| "rx_match (Spaces # r) s = rx_match r (dropWhile is_space s)"
| "rx_match (Maybe p # r) s = (case s of c # s' \<Rightarrow> rx_match r (if same_letter p c then s' else s) | [] \<Rightarrow> rx_match r [])"

text \<open>The times a pattern matches in a row, at most the given number, and what is left then.\<close>

fun rx_times :: "nat \<Rightarrow> rx list \<Rightarrow> string \<Rightarrow> nat \<times> string" where
  "rx_times 0 r s = (0, s)"
| "rx_times (Suc n) r s = (case rx_match r s of None \<Rightarrow> (0, s) | Some s' \<Rightarrow> (let (k, t) = rx_times n r s' in (Suc k, t)))"

text \<open>\<open>(r){2,}\<close>: a text has no more matches in a row than characters.\<close>

definition rx_twice :: "rx list \<Rightarrow> string \<Rightarrow> string option" where
  "rx_twice r s = (let (k, t) = rx_times (length s) r s in if 2 \<le> k then Some t else None)"

text \<open>\<open>sub\<close>, where \<open>skip\<close> characters of a match already replaced are still to be passed over.\<close>

fun rx_sub :: "(string \<Rightarrow> string option) \<Rightarrow> string \<Rightarrow> nat \<Rightarrow> string \<Rightarrow> string" where
  "rx_sub m repl skip [] = []"
| "rx_sub m repl (Suc skip) (c # s) = rx_sub m repl skip s"
| "rx_sub m repl 0 (c # s) =
     (case m (c # s) of
        Some rest \<Rightarrow> repl @ rx_sub m repl (length s - length rest) s
      | None \<Rightarrow> c # rx_sub m repl 0 s)"

definition REGEX_CLEANUPS :: "((string \<Rightarrow> string option) \<times> string) list" where
  "REGEX_CLEANUPS =
     [(rx_match [Letters '','', Spaces, Letters ''isolated on isometric 2.5D game object sprite,'', Spaces,
         Letters ''white background,'', Spaces, Letters ''isolated object,'', Spaces, Letters ''clean edges'', Maybe (CHR ''.'')], []),
      (rx_match [Letters '','', Spaces, Letters ''isolated on white,'', Spaces, Letters ''clean edge'', Maybe (CHR ''s'')], []),
      (rx_twice [Letters '','', Spaces, Letters ''isolated object''], '', isolated object'')]"

definition regex_preclean :: "string \<Rightarrow> string" where
  "regex_preclean prompt =
     strip (strip_by (\<lambda>c. c = CHR '','') (strip (fold (\<lambda>(m, repl) p. rx_sub m repl 0 p) REGEX_CLEANUPS (strip prompt))))"

section \<open>One prompt\<close>

definition GLOBAL_LEGACY_STRIPS :: "string list" where
  "GLOBAL_LEGACY_STRIPS =
     [''isometric 2.5d game object sprite'', ''game object sprite'', ''small game prop sprite'',
      ''modular game environment block'', ''game creature sprite'', ''game vehicle sprite'',
      ''white background'', ''isolated object'', ''isolated subject'', ''isolated prop'',
      ''isolated segment'', ''isolated'', ''isolated on white'', ''isolated against white'',
      ''single sprite'', ''single focal prop'', ''single focal structure'',
      ''single focal building'', ''single focal artifact'', ''single focal creature'',
      ''single focal mount or vehicle'', ''single focal instrument'', ''single focal water prop'',
      ''single module focus'', ''centered composition'', ''centered prop'',
      ''clean alpha background'', ''clean alpha'', ''clean edges'', ''game foliage asset'',
      ''game foliage asset style'', ''game prop style'', ''game item sprite'',
      ''game item sprite style'', ''game terrain base'', ''game asset ready'', ''game asset'',
      ''game character base'', ''game vehicle asset'', ''flat lighting'', ''flat shading'',
      ''orthographic top-down tile'', ''translucent overlay tile'', ''seamless tiling'',
      ''seamless border'', ''vfx sprite'', ''alpha-ready'', ''no solid geometry'',
      ''dramatic rim light'', ''flat color blocking'', ''readable silhouette'', ''dynamic pose'',
      ''destructible object style'', ''isometric level design asset'', ''modular building block'',
      ''2.5d sprite angle'', ''2.5d orthographic view'', ''full body game character sprite'']"

type_synonym category_lookup = "(pyval \<times> pydict) list"

text \<open>The parts of one text of a category; \<open>split\<close> is there on texts only.\<close>

definition category_parts :: "pydict \<Rightarrow> string \<Rightarrow> script_error + string list" where
  "category_parts info key = (case py_or (dict_get info key) (VStr []) of
     VStr raw \<Rightarrow> Inr (filter (\<lambda>t. 2 \<le> length t) (map (\<lambda>part. lower (strip part)) (split_on (CHR '','') raw)))
   | _ \<Rightarrow> Inl Uncaught)"

definition strip_set_for_category :: "pyval \<Rightarrow> category_lookup \<Rightarrow> script_error + string list" where
  "strip_set_for_category cat_id lookup =
     bind_r (check (hashable cat_id) Uncaught) (\<lambda>_.
     let info = (case map_of lookup cat_id of Some d \<Rightarrow> d | None \<Rightarrow> []) in
     bind_r (category_parts info ''framing_prompt'') (\<lambda>framing.
     bind_r (category_parts info ''prompt_keywords'') (\<lambda>keywords.
     Inr (GLOBAL_LEGACY_STRIPS @ framing @ keywords))))"

text \<open>\<open>s.split(", ")\<close>; \<open>cur\<close> is the part so far.\<close>

fun split_comma :: "string \<Rightarrow> string \<Rightarrow> string list" where
  "split_comma cur [] = [cur]"
| "split_comma cur [c] = [cur @ [c]]"
| "split_comma cur (c # d # s) =
     (if c = CHR '','' \<and> d = CHR '' '' then cur # split_comma [] s else split_comma (cur @ [c]) (d # s))"

fun dedupe_from :: "string list \<Rightarrow> string list \<Rightarrow> string list" where
  "dedupe_from seen [] = []"
| "dedupe_from seen (seg # segs) =
     (let key = strip (lower seg)
      in if key \<in> set seen then dedupe_from seen segs else strip seg # dedupe_from (key # seen) segs)"

definition dedupe_segments :: "string list \<Rightarrow> string list" where
  "dedupe_segments segments = dedupe_from [] segments"

definition is_camera :: "string \<Rightarrow> bool" where
  "is_camera seg = contains ''change the camera angle'' (strip (lower seg))"

definition prompt_segments :: "string \<Rightarrow> string list" where
  "prompt_segments prompt = filter (\<lambda>s. s \<noteq> []) (map strip (split_comma [] (regex_preclean (strip prompt))))"

definition kept_segments :: "string list \<Rightarrow> string list \<Rightarrow> string list" where
  "kept_segments strip_set segments =
     dedupe_segments (filter (\<lambda>seg. \<not> is_camera seg \<and> strip (lower seg) \<notin> set strip_set) segments)"

definition suffix_segments :: "string list \<Rightarrow> string list" where
  "suffix_segments segments = dedupe_segments (filter is_camera segments)"

definition migrate_prompt_blob :: "string \<Rightarrow> pyval \<Rightarrow> category_lookup \<Rightarrow> script_error + string \<times> string option" where
  "migrate_prompt_blob prompt cat_id lookup =
     (if strip prompt = [] then Inr ([], None)
      else bind_r (strip_set_for_category cat_id lookup) (\<lambda>strip_set.
        let segments = prompt_segments prompt; suffix_parts = suffix_segments segments in
        Inr (join_comma (kept_segments strip_set segments),
             if suffix_parts \<noteq> [] then Some (join_comma suffix_parts) else None)))"

section \<open>One manifest\<close>

datatype migration_note = MissingPrompt pyval | ShortBase pyval

text \<open>One asset: whether it was changed, what is said of it, and what it is afterwards.\<close>

definition migrated_asset :: "string \<Rightarrow> string option \<Rightarrow> pydict \<Rightarrow> pydict" where
  "migrated_asset base sfx asset =
     (let asset = dict_set ''prompt_base'' (VStr base) asset;
          asset = (case sfx of Some (c # s) \<Rightarrow> dict_set ''prompt_suffix'' (VStr (c # s)) asset | _ \<Rightarrow> asset)
      in AList.delete ''prompt'' asset)"

definition migrate_asset :: "(pyval \<Rightarrow> string) \<Rightarrow> pyval \<Rightarrow> category_lookup \<Rightarrow> pyval
    \<Rightarrow> script_error + bool \<times> migration_note list \<times> pyval" where
  "migrate_asset py_str cat_id lookup v = (case v of
     VDict asset \<Rightarrow>
       (let legacy = dict_get asset ''prompt'' in
        if truthy (dict_get asset ''prompt_base'') then Inr (False, [], v)
        else if \<not> truthy legacy \<or> strip (py_str legacy) = [] then Inr (False, [MissingPrompt (dict_get asset ''id'')], v)
        else bind_r (migrate_prompt_blob (py_str legacy) cat_id lookup) (\<lambda>(base, sfx).
          let short = length (strip base) < 12 in
          Inr (True, if short then [ShortBase (dict_get asset ''id'')] else [],
            VDict (migrated_asset (if short then regex_preclean (py_str legacy) else base) sfx asset))))
   | _ \<Rightarrow> Inr (False, [], v))"

fun migrate_assets :: "(pyval \<Rightarrow> string) \<Rightarrow> pyval \<Rightarrow> category_lookup \<Rightarrow> pyval list
    \<Rightarrow> script_error + nat \<times> migration_note list \<times> pyval list" where
  "migrate_assets py_str cat_id lookup [] = Inr (0, [], [])"
| "migrate_assets py_str cat_id lookup (v # vs) =
     bind_r (migrate_asset py_str cat_id lookup v) (\<lambda>(ch, ns, v').
     bind_r (migrate_assets py_str cat_id lookup vs) (\<lambda>(n, ns', vs').
     Inr ((if ch then 1 else 0) + n, ns @ ns', v' # vs')))"

text \<open>What \<open>data\<close> is after the loop over its assets. \<open>folder\<close> is the name of the directory of the file.\<close>

definition migrate_data :: "(pyval \<Rightarrow> string) \<Rightarrow> string \<Rightarrow> category_lookup \<Rightarrow> pyval
    \<Rightarrow> script_error + nat \<times> migration_note list \<times> pyval" where
  "migrate_data py_str folder lookup v = (case v of
     VDict data \<Rightarrow>
       (case dict_get data ''assets'' of
          VList assets \<Rightarrow>
            bind_r (migrate_assets py_str (py_or (dict_get data ''category'') (VStr folder)) lookup assets) (\<lambda>(n, ns, assets').
            Inr (n, ns, VDict (dict_set ''assets'' (VList assets') data)))
        | _ \<Rightarrow> Inr (0, [], v))
   | _ \<Rightarrow> Inl Uncaught)"

section \<open>A bundle\<close>

type_synonym path_parts = "string list"
type_synonym map_files = "path_parts \<Rightarrow> json_text option"

text \<open>Writing a manifest: it holds the value, or what the failed write leaves, and the exception goes on.\<close>

datatype saved = Saved | SaveFailed "json_text option"

definition migrate_manifest :: "(pyval \<Rightarrow> string) \<Rightarrow> (path_parts \<Rightarrow> saved) \<Rightarrow> category_lookup \<Rightarrow> bool \<Rightarrow> path_parts
    \<Rightarrow> map_files \<Rightarrow> (script_error + nat \<times> migration_note list) \<times> map_files" where
  "migrate_manifest py_str save lookup dry_run path files = (case files path of
     Some (Some v) \<Rightarrow>
       (case migrate_data py_str (last (butlast path)) lookup v of
          Inl e \<Rightarrow> (Inl e, files)
        | Inr (changed, notes, v') \<Rightarrow>
            if changed \<noteq> 0 \<and> \<not> dry_run then
              (case save path of
                 Saved \<Rightarrow> (Inr (changed, notes), files(path := Some (Some v')))
               | SaveFailed t \<Rightarrow> (Inl Uncaught, files(path := t)))
            else (Inr (changed, notes), files))
   | _ \<Rightarrow> (Inl Uncaught, files))"

text \<open>\<open>{c["id"]: c for c in categories}\<close>: a later entry of an id replaces an earlier one.\<close>

fun category_entries :: "pyval list \<Rightarrow> category_lookup \<Rightarrow> script_error + category_lookup" where
  "category_entries [] acc = Inr acc"
| "category_entries (c # cs) acc = (case c of
     VDict d \<Rightarrow>
       (case map_of d ''id'' of
          Some i \<Rightarrow> if hashable i then category_entries cs (AList.update i d acc) else Inl Uncaught
        | None \<Rightarrow> Inl Uncaught)
   | _ \<Rightarrow> Inl Uncaught)"

definition load_category_lookup :: "json_text option \<Rightarrow> script_error + category_lookup" where
  "load_category_lookup t = (case t of
     Some (Some (VDict data)) \<Rightarrow>
       bind_r (elements (get_default data ''categories'' (VList []))) (\<lambda>cs. category_entries cs [])
   | _ \<Rightarrow> Inl Uncaught)"

text \<open>The manifests in turn, those with a part \<open>.bak\<close> in their path left out.\<close>

fun migrate_all :: "(pyval \<Rightarrow> string) \<Rightarrow> (path_parts \<Rightarrow> saved) \<Rightarrow> category_lookup \<Rightarrow> bool \<Rightarrow> path_parts list
    \<Rightarrow> map_files \<Rightarrow> (script_error + nat \<times> migration_note list) \<times> map_files" where
  "migrate_all py_str save lookup dry_run [] files = (Inr (0, []), files)"
| "migrate_all py_str save lookup dry_run (path # paths) files =
     (if ''.bak'' \<in> set path then migrate_all py_str save lookup dry_run paths files
      else (case migrate_manifest py_str save lookup dry_run path files of
          (Inl e, files) \<Rightarrow> (Inl e, files)
        | (Inr (ch, notes), files) \<Rightarrow>
            (case migrate_all py_str save lookup dry_run paths files of
               (Inl e, files) \<Rightarrow> (Inl e, files)
             | (Inr (n, notes'), files) \<Rightarrow> (Inr (ch + n, notes @ notes'), files))))"

text \<open>
  \<open>main\<close> after the arguments are parsed: the exit code with the total and the notes. \<open>manifests\<close> is
  the sorted result of \<open>rglob\<close>, and \<open>None\<close> when \<open>locations\<close> is no directory.
\<close>

definition migration_main :: "(pyval \<Rightarrow> string) \<Rightarrow> (path_parts \<Rightarrow> saved) \<Rightarrow> bool \<Rightarrow> path_parts \<Rightarrow> path_parts list option
    \<Rightarrow> map_files \<Rightarrow> (script_error + nat \<times> nat \<times> migration_note list) \<times> map_files" where
  "migration_main py_str save dry_run bundle_root manifests files =
     (case load_category_lookup (files (bundle_root @ [''asset_categories.json''])) of
        Inl e \<Rightarrow> (Inl e, files)
      | Inr lookup \<Rightarrow>
          (case manifests of
             None \<Rightarrow> (Inr (2, 0, []), files)
           | Some paths \<Rightarrow>
               (case migrate_all py_str save lookup dry_run paths files of
                  (Inl e, files) \<Rightarrow> (Inl e, files)
                | (Inr (n, notes), files) \<Rightarrow> (Inr (0, n, notes), files))))"

section \<open>A prompt is split without loss\<close>

definition segment_key :: "string \<Rightarrow> string" where
  "segment_key s = strip (lower s)"

lemma dropWhile_eq_map: "(\<And>x. p (f x) = p x) \<Longrightarrow> dropWhile p (map f xs) = map f (dropWhile p xs)"
  by (induction xs) auto

lemma space_lower: "is_space (to_lower c) = is_space c"
  by (simp add: is_space_def to_lower_def Let_def of_char_of)

lemma lower_strip: "lower (strip s) = strip (lower s)"
  by (simp add: strip_by_def lower_def dropWhile_eq_map[of is_space to_lower, OF space_lower] rev_map)

lemma strip_by_twice: "strip_by p (strip_by p s) = strip_by p s"
proof -
  define t where "t = dropWhile p s"
  have t: "t = [] \<or> \<not> p (hd t)"
    unfolding t_def by (metis hd_dropWhile)
  have u: "dropWhile p (rev t) = [] \<or> \<not> p (hd (dropWhile p (rev t)))"
    by (metis hd_dropWhile)
  have "rev (dropWhile p (rev t)) = [] \<or> \<not> p (hd (rev (dropWhile p (rev t))))"
  proof (cases "dropWhile p (rev t) = []")
    case False
    then have "last (dropWhile p (rev t)) = hd t"
      by (metis dropWhile_eq_Nil_conv hd_rev last_appendR rev_rev_ident takeWhile_dropWhile_id)
    then show ?thesis
      using t False by (metis dropWhile.simps(1) hd_rev rev.simps(1))
  qed simp
  then show ?thesis
    using u by (simp add: strip_by_def t_def[symmetric] dropWhile_not_first)
qed

lemma segment_key_strip: "segment_key (strip s) = segment_key s"
  by (simp add: segment_key_def lower_strip strip_by_twice)

text \<open>Deduplication keeps one segment of each key, and no other.\<close>

lemma dedupe_from_keys:
  "segment_key ` set (dedupe_from seen segs) = segment_key ` set segs - set seen"
  by (induction segs arbitrary: seen) (auto simp: Let_def segment_key_strip segment_key_def[symmetric])

lemma dedupe_from_distinct: "distinct (map segment_key (dedupe_from seen segs))"
proof (induction segs arbitrary: seen)
  case (Cons seg segs)
  have "segment_key seg \<notin> segment_key ` set (dedupe_from (segment_key seg # seen) segs)"
    by (simp add: dedupe_from_keys)
  then show ?case
    using Cons by (simp add: Let_def segment_key_def[symmetric] segment_key_strip)
qed simp

lemma dedupe_keys: "segment_key ` set (dedupe_segments segs) = segment_key ` set segs"
  "distinct (map segment_key (dedupe_segments segs))"
  by (simp_all add: dedupe_segments_def dedupe_from_keys dedupe_from_distinct)

lemma segment_sorts:
  assumes "seg \<in> set segments"
  shows "(segment_key seg \<in> set strip_set \<and> \<not> is_camera seg) \<or> segment_key seg \<in> segment_key ` set (kept_segments strip_set segments) \<or>
    segment_key seg \<in> segment_key ` set (suffix_segments segments)"
  using assms unfolding kept_segments_def suffix_segments_def dedupe_keys by (auto simp: segment_key_def)

text \<open>Nothing of the base is boilerplate or a camera phrase.\<close>

lemma kept_clean:
  assumes "seg \<in> set (kept_segments strip_set segments)"
  shows "segment_key seg \<notin> set strip_set \<and> \<not> is_camera seg"
proof -
  have "segment_key seg \<in> segment_key ` set (kept_segments strip_set segments)"
    using assms by (rule imageI)
  then obtain s where s: "segment_key seg = segment_key s" "\<not> is_camera s" "segment_key s \<notin> set strip_set"
    unfolding kept_segments_def dedupe_keys by (auto simp: segment_key_def)
  then show ?thesis
    by (simp add: is_camera_def segment_key_def)
qed

section \<open>A bundle is migrated once\<close>

lemma migrated_asset_gone: "dict_get (migrated_asset base sfx asset) ''prompt'' = VNone"
  by (simp add: migrated_asset_def dict_get_def Let_def delete_conv')

lemma migrate_asset_once:
  assumes "migrate_asset py_str cat_id lookup v = Inr (ch, ns, v')"
  shows "\<exists>ns'. migrate_asset py_str cat_id lookup v' = Inr (False, ns', v')" and "\<not> ch \<Longrightarrow> v' = v"
proof -
  have "v' = v \<and> \<not> ch \<or> (\<exists>base sfx asset. v' = VDict (migrated_asset base sfx asset) \<and> ch)"
    using assms by (auto simp: migrate_asset_def bind_r_Inr Let_def split: pyval.splits if_splits)
  then show "\<exists>ns'. migrate_asset py_str cat_id lookup v' = Inr (False, ns', v')" "\<not> ch \<Longrightarrow> v' = v"
    using assms by (auto simp: migrate_asset_def migrated_asset_gone)
qed

lemma migrate_assets_once:
  assumes "migrate_assets py_str cat_id lookup vs = Inr (n, ns, vs')"
  shows "\<exists>ns'. migrate_assets py_str cat_id lookup vs' = Inr (0, ns', vs')" and "n = 0 \<Longrightarrow> vs' = vs"
  using assms
proof (induction vs arbitrary: n ns vs')
  case (Cons v vs)
  {
    case 1
    then obtain ch ns1 v1 n2 ns2 vs2 where v: "migrate_asset py_str cat_id lookup v = Inr (ch, ns1, v1)"
      and vs: "migrate_assets py_str cat_id lookup vs = Inr (n2, ns2, vs2)" and r: "vs' = v1 # vs2"
      by (auto simp: bind_r_Inr)
    show ?case
      using migrate_asset_once(1)[OF v] Cons.IH(1)[OF vs] r by (auto simp: bind_r_def)
  next
    case 2
    then obtain ch ns1 v1 n2 ns2 vs2 where v: "migrate_asset py_str cat_id lookup v = Inr (ch, ns1, v1)"
      and vs: "migrate_assets py_str cat_id lookup vs = Inr (n2, ns2, vs2)" and r: "vs' = v1 # vs2" "\<not> ch" "n2 = 0"
      by (auto simp: bind_r_Inr split: if_splits)
    show ?case
      using migrate_asset_once(2)[OF v] Cons.IH(2)[OF _ vs] r by simp
  }
qed auto

lemma migrate_data_once:
  assumes "migrate_data py_str folder lookup v = Inr (n, ns, v')"
  shows "(\<exists>ns'. migrate_data py_str folder lookup v' = Inr (0, ns', v')) \<and> (n = 0 \<longrightarrow> v' = v)"
proof -
  consider "v' = v" "n = 0" | data assets cat_id assets' where "v = VDict data" "dict_get data ''assets'' = VList assets"
      "cat_id = py_or (dict_get data ''category'') (VStr folder)"
      "migrate_assets py_str cat_id lookup assets = Inr (n, ns, assets')"
      "v' = VDict (dict_set ''assets'' (VList assets') data)"
    using assms by (auto simp: migrate_data_def bind_r_Inr split: pyval.splits)
  then show ?thesis
  proof cases
    case 1
    then show ?thesis
      using assms by auto
  next
    case 2
    have a: "map_of data ''assets'' = Some (VList assets)"
      using 2(2) by (auto simp: dict_get_def split: option.splits)
    obtain ns' where "migrate_assets py_str cat_id lookup assets' = Inr (0, ns', assets')"
      using migrate_assets_once(1)[OF 2(4)] by blast
    then show ?thesis
      using 2 a migrate_assets_once(2)[OF 2(4)] by (auto simp: migrate_data_def bind_r_def dict_get_update update_triv)
  qed
qed

text \<open>Only the manifest itself is looked at and written.\<close>

lemma migrate_manifest_cases:
  assumes "migrate_manifest py_str save lookup dry_run path files = (Inr (n, ns), files')"
  obtains v v' where "files path = Some (Some v)" "migrate_data py_str (last (butlast path)) lookup v = Inr (n, ns, v')"
    "files' = (if n \<noteq> 0 \<and> \<not> dry_run then files(path \<mapsto> Some v') else files)"
  using assms
  by (auto simp: migrate_manifest_def split: option.splits sum.splits prod.splits saved.splits if_splits)

lemma migrate_manifest_again:
  assumes "migrate_manifest py_str save lookup False path files = (Inr (n, ns), files')"
    and "files'' path = files' path"
  shows "\<exists>ns'. migrate_manifest py_str save' lookup dry_run path files'' = (Inr (0, ns'), files'')"
proof -
  obtain v v' where v: "files path = Some (Some v)" and m: "migrate_data py_str (last (butlast path)) lookup v = Inr (n, ns, v')"
    and f: "files' = (if n \<noteq> 0 then files(path \<mapsto> Some v') else files)"
    using assms(1) by (rule migrate_manifest_cases) simp
  have "files'' path = Some (Some v')"
    using migrate_data_once[OF m] f v assms(2) by auto
  then show ?thesis
    using migrate_data_once[OF m] by (auto simp: migrate_manifest_def)
qed

lemma migrate_manifest_others:
  "migrate_manifest py_str save lookup dry_run path files = (r, files') \<Longrightarrow> p \<noteq> path \<Longrightarrow> files' p = files p"
  by (auto simp: migrate_manifest_def split: option.splits sum.splits prod.splits saved.splits if_splits)

lemma migrate_all_others:
  "migrate_all py_str save lookup dry_run paths files = (r, files') \<Longrightarrow> p \<notin> set paths \<Longrightarrow> files' p = files p"
proof (induction paths arbitrary: files r)
  case (Cons path paths)
  show ?case
  proof (cases "''.bak'' \<in> set path")
    case False
    obtain r1 c where m: "migrate_manifest py_str save lookup dry_run path files = (r1, c)"
      by fastforce
    have "files' = c \<or> (\<exists>r2. migrate_all py_str save lookup dry_run paths c = (r2, files'))"
      using Cons.prems(1) m False by (auto split: sum.splits prod.splits)
    then have "files' p = c p"
      using Cons.IH Cons.prems(2) by auto
    then show ?thesis
      using migrate_manifest_others[OF m] Cons.prems(2) by simp
  qed (use Cons in auto)
qed simp

lemma migrate_all_Cons:
  assumes "migrate_all py_str save lookup dry_run (path # paths) files = (Inr (n, ns), files')" and "''.bak'' \<notin> set path"
  obtains ch ns1 c n2 ns2 where "migrate_manifest py_str save lookup dry_run path files = (Inr (ch, ns1), c)"
    "migrate_all py_str save lookup dry_run paths c = (Inr (n2, ns2), files')" "n = ch + n2" "ns = ns1 @ ns2"
  using assms by (auto split: sum.splits prod.splits)

text \<open>A later run over the same files has nothing left to change.\<close>

lemma migrate_all_again:
  assumes "migrate_all py_str save lookup False paths files = (Inr (n, ns), files')" and "distinct paths"
    and "\<And>p. p \<in> set paths \<Longrightarrow> files'' p = files' p"
  shows "\<exists>ns'. migrate_all py_str save' lookup dry_run paths files'' = (Inr (0, ns'), files'')"
  using assms
proof (induction paths arbitrary: files n ns)
  case (Cons path paths)
  show ?case
  proof (cases "''.bak'' \<in> set path")
    case False
    obtain ch ns1 c n2 ns2 where m: "migrate_manifest py_str save lookup False path files = (Inr (ch, ns1), c)"
      and r: "migrate_all py_str save lookup False paths c = (Inr (n2, ns2), files')" "n = ch + n2" "ns = ns1 @ ns2"
      by (rule migrate_all_Cons[OF Cons.prems(1) False])
    have "files'' path = c path"
      using Cons.prems(2,3) migrate_all_others[OF r(1)] by simp
    then obtain ns1' where "migrate_manifest py_str save' lookup dry_run path files'' = (Inr (0, ns1'), files'')"
      using migrate_manifest_again[OF m] by blast
    moreover obtain ns2' where "migrate_all py_str save' lookup dry_run paths files'' = (Inr (0, ns2'), files'')"
      using Cons.IH[OF r(1)] Cons.prems(2,3) by auto
    ultimately show ?thesis
      using False by simp
  qed (use Cons in auto)
qed auto

theorem migration_happens_once:
  assumes "migration_main py_str save False bundle_root (Some paths) files = (Inr (code, n, ns), files')"
    and "distinct paths" and "bundle_root @ [''asset_categories.json''] \<notin> set paths"
  shows "\<exists>ns'. migration_main py_str save' dry_run bundle_root (Some paths) files' = (Inr (0, 0, ns'), files')"
proof -
  obtain lookup where l: "load_category_lookup (files (bundle_root @ [''asset_categories.json''])) = Inr lookup"
    and r: "migrate_all py_str save lookup False paths files = (Inr (n, ns), files')"
    using assms(1) by (auto simp: migration_main_def split: sum.splits prod.splits)
  have "files' (bundle_root @ [''asset_categories.json'']) = files (bundle_root @ [''asset_categories.json''])"
    by (rule migrate_all_others[OF r assms(3)])
  then show ?thesis
    using l migrate_all_again[OF r assms(2), of files' save' dry_run] by (auto simp: migration_main_def)
qed

text \<open>A dry run changes nothing and foretells the numbers of the live one.\<close>

lemma migrate_manifest_dry:
  assumes "migrate_manifest py_str save lookup False path files = (Inr (n, ns), files')" and "files'' path = files path"
  shows "migrate_manifest py_str save lookup True path files'' = (Inr (n, ns), files'')"
  using assms(1) by (rule migrate_manifest_cases) (simp add: migrate_manifest_def assms(2))

lemma migrate_all_dry:
  assumes "migrate_all py_str save lookup False paths files = (Inr (n, ns), files')" and "distinct paths"
    and "\<And>p. p \<in> set paths \<Longrightarrow> files'' p = files p"
  shows "migrate_all py_str save lookup True paths files'' = (Inr (n, ns), files'')"
  using assms
proof (induction paths arbitrary: files n ns)
  case (Cons path paths)
  show ?case
  proof (cases "''.bak'' \<in> set path")
    case False
    obtain ch ns1 c n2 ns2 where m: "migrate_manifest py_str save lookup False path files = (Inr (ch, ns1), c)"
      and r: "migrate_all py_str save lookup False paths c = (Inr (n2, ns2), files')" and n: "n = ch + n2" "ns = ns1 @ ns2"
      by (rule migrate_all_Cons[OF Cons.prems(1) False])
    have "\<And>p. p \<in> set paths \<Longrightarrow> files'' p = c p"
      using Cons.prems(2,3) migrate_manifest_others[OF m] by (metis distinct.simps(2) list.set_intros(2))
    then have "migrate_all py_str save lookup True paths files'' = (Inr (n2, ns2), files'')"
      using Cons.IH[OF r] Cons.prems(2) by simp
    then show ?thesis
      using migrate_manifest_dry[OF m, of files''] Cons.prems(3) n False by simp
  qed (use Cons in auto)
qed auto

lemma migration_dry_run_foretells:
  assumes "migration_main py_str save False bundle_root (Some paths) files = (Inr r, files')" and "distinct paths"
  shows "migration_main py_str save True bundle_root (Some paths) files = (Inr r, files)"
proof -
  obtain lookup n ns where l: "load_category_lookup (files (bundle_root @ [''asset_categories.json''])) = Inr lookup"
    and r: "migrate_all py_str save lookup False paths files = (Inr (n, ns), files')" "r = (0, n, ns)"
    using assms(1) by (auto simp: migration_main_def split: sum.splits prod.splits)
  show ?thesis
    using l migrate_all_dry[OF r(1) assms(2)] r(2) by (simp add: migration_main_def)
qed

text \<open>
  When the base is short the whole cleaned prompt becomes the base, and its camera phrase is in the
  suffix as well.
\<close>

lemma short_base_repeats_camera:
  "migrate_asset demo_py_str (VStr ''hats'') [] (VDict [(''id'', VStr ''h1''), (''prompt'', VStr ''hat, Change the camera angle to low'')])
   = Inr (True, [ShortBase (VStr ''h1'')],
       VDict [(''id'', VStr ''h1''), (''prompt_base'', VStr ''hat, Change the camera angle to low''),
         (''prompt_suffix'', VStr ''Change the camera angle to low'')])"
  by code_simp

lemma preclean_example:
  "regex_preclean ''red hat, isolated object,  Isolated Object, isolated on white,clean edges''
   = ''red hat, isolated object''"
  by code_simp

definition demo_map_files :: map_files where
  "demo_map_files = [[''b'', ''asset_categories.json''] \<mapsto> Some (VDict []),
     [''b'', ''locations'', ''hats'', ''manifest.json''] \<mapsto> Some (VDict [(''assets'', VList
       [VDict [(''id'', VStr ''h1''), (''prompt'', VStr ''a tall red felt hat, white background'')]])])]"

theorem migration_happens_once_witness:
  "\<exists>ns'. migration_main demo_py_str (\<lambda>_. Saved) True [''b''] (Some [[''b'', ''locations'', ''hats'', ''manifest.json'']])
     (snd (migration_main demo_py_str (\<lambda>_. Saved) False [''b''] (Some [[''b'', ''locations'', ''hats'', ''manifest.json'']]) demo_map_files))
   = (Inr (0, 0, ns'),
     snd (migration_main demo_py_str (\<lambda>_. Saved) False [''b''] (Some [[''b'', ''locations'', ''hats'', ''manifest.json'']]) demo_map_files))"
proof (rule migration_happens_once)
  have "fst (migration_main demo_py_str (\<lambda>_. Saved) False [''b''] (Some [[''b'', ''locations'', ''hats'', ''manifest.json'']]) demo_map_files)
    = Inr (0, 1, [])"
    by code_simp
  then show "migration_main demo_py_str (\<lambda>_. Saved) False [''b''] (Some [[''b'', ''locations'', ''hats'', ''manifest.json'']]) demo_map_files
    = (Inr (0, 1, []),
     snd (migration_main demo_py_str (\<lambda>_. Saved) False [''b''] (Some [[''b'', ''locations'', ''hats'', ''manifest.json'']]) demo_map_files))"
    by (simp add: prod_eq_iff)
qed simp_all

end
