(* ===== verification/Checkpoint_Index.thy ===== *)
theory Checkpoint_Index
  imports Batch_Engine "HOL-Library.Word"
begin

text \<open>
  \<open>tools/inspect_checkpoint.py\<close>: what the header of a Safetensors file says of its tensors. A file is its
  bytes; decoding and parsing the header are parameters. The report is the value that \<open>--json\<close>
  prints; the other form, which shows the same numbers, is left out.
\<close>

section \<open>The index\<close>

record tensor_entry =
  te_name :: string
  te_dtype :: string
  te_shape :: "int list"
  te_nbytes :: int

datatype index_error = TooSmall | Implausible nat | TruncatedHeader nat | BadHeader

type_synonym bytes = "8 word list"

text \<open>\<open>struct.unpack("<Q", _)\<close>: the last byte counts most.\<close>

definition unpack_le :: "bytes \<Rightarrow> nat" where
  "unpack_le bs = foldr (\<lambda>b n. unat b + 256 * n) bs 0"

definition HEADER_CAP :: nat where
  "HEADER_CAP = 256 * 1024 * 1024"

definition read_header :: "bytes \<Rightarrow> index_error + bytes" where
  "read_header content =
     (let header_len = unpack_le (take 8 content); header_buf = take header_len (drop 8 content) in
      bind_r (check (8 \<le> length (take 8 content)) TooSmall) (\<lambda>_.
      bind_r (check (header_len \<le> HEADER_CAP) (Implausible header_len)) (\<lambda>_.
      bind_r (check (header_len \<le> length header_buf) (TruncatedHeader header_len)) (\<lambda>_.
      Inr header_buf))))"

fun int_items :: "pyval list \<Rightarrow> int list option" where
  "int_items [] = Some []"
| "int_items (v # vs) = (case (int_of v, int_items vs) of (Some n, Some ns) \<Rightarrow> Some (n # ns) | _ \<Rightarrow> None)"

definition shape_of :: "pydict \<Rightarrow> int list option" where
  "shape_of spec = (case elements (get_default spec ''shape'' (VList [])) of Inl _ \<Rightarrow> None | Inr vs \<Rightarrow> int_items vs)"

text \<open>One item of the header: an exception is \<open>Inl\<close>, an item passed over \<open>None\<close>.\<close>

definition tensor_of :: "(pyval \<Rightarrow> string) \<Rightarrow> string \<Rightarrow> pyval \<Rightarrow> index_error + tensor_entry option" where
  "tensor_of py_str name v = (case v of
     VDict spec \<Rightarrow>
       (if name = ''__metadata__'' then Inr None
        else (case shape_of spec of
            None \<Rightarrow> Inl BadHeader
          | Some shape \<Rightarrow>
              (case dict_get spec ''data_offsets'' of
                 VList [a, b] \<Rightarrow>
                   (case (int_of a, int_of b) of
                      (Some s, Some e) \<Rightarrow>
                        Inr (Some \<lparr>te_name = name, te_dtype = py_str (get_default spec ''dtype'' (VStr ''unknown'')),
                          te_shape = shape, te_nbytes = max 0 (e - s)\<rparr>)
                    | _ \<Rightarrow> Inl BadHeader)
               | _ \<Rightarrow> Inr None)))
   | _ \<Rightarrow> Inr None)"

fun tensors_of :: "(pyval \<Rightarrow> string) \<Rightarrow> pydict \<Rightarrow> index_error + tensor_entry list" where
  "tensors_of py_str [] = Inr []"
| "tensors_of py_str ((name, v) # items) =
     bind_r (tensor_of py_str name v) (\<lambda>t.
     bind_r (tensors_of py_str items) (\<lambda>ts. Inr (case t of Some e \<Rightarrow> e # ts | None \<Rightarrow> ts)))"

text \<open>\<open>parse\<close> is \<open>json.loads\<close> of the decoded bytes.\<close>

definition read_safetensors_index :: "(pyval \<Rightarrow> string) \<Rightarrow> (bytes \<Rightarrow> json_text) \<Rightarrow> bytes
    \<Rightarrow> index_error + (string \<times> string) list option \<times> tensor_entry list" where
  "read_safetensors_index py_str parse content =
     bind_r (read_header content) (\<lambda>header_buf. case parse header_buf of
       Some (VDict header) \<Rightarrow>
         (let metadata = (case dict_get header ''__metadata__'' of
              VDict raw \<Rightarrow> Some (map (\<lambda>(k, v). (k, py_str v)) raw) | _ \<Rightarrow> None)
          in bind_r (tensors_of py_str header) (\<lambda>entries. Inr (metadata, entries)))
     | _ \<Rightarrow> Inl BadHeader)"

section \<open>The report\<close>

definition names_any :: "string list \<Rightarrow> string \<Rightarrow> bool" where
  "names_any needles s \<longleftrightarrow> list_ex (\<lambda>x. contains x s) needles"

definition bucket_tensor :: "string \<Rightarrow> string" where
  "bucket_tensor name =
     (let l = lower name in
      if contains ''first_stage'' l \<or> (contains ''decoder'' l \<and> contains ''vae'' l) then ''vae-ish''
      else if contains ''vae'' l \<and> \<not> contains ''loss'' l then ''vae-ish''
      else if names_any [''cond_stage'', ''text_enc'', ''text_encoder'', ''te.'', ''.te.''] l then ''text/cond''
      else if names_any [''clip'', ''open_clip'', ''openclip'', ''t5xxl'', ''t5_model'', ''transformer.resblocks''] l then ''text/cond''
      else if contains ''qwen'' l \<or> contains ''vl_'' l \<or> (contains ''vision'' l \<and> contains ''model'' l) then ''text/cond''
      else if contains ''diffusion'' l \<or> contains ''unet'' l \<or> contains ''model.diffusion'' l then ''diffusion''
      else ''other/unclassified'')"

text \<open>Adding to an entry of a \<open>Counter\<close> or \<open>defaultdict(int)\<close>, which starts at 0; new keys go to the end.\<close>

definition add_to :: "string \<Rightarrow> int \<Rightarrow> (string \<times> int) list \<Rightarrow> (string \<times> int) list" where
  "add_to k n d = AList.update k ((case map_of d k of Some m \<Rightarrow> m | None \<Rightarrow> 0) + n) d"

definition by_dtype :: "tensor_entry list \<Rightarrow> (string \<times> int) list" where
  "by_dtype entries = fold (\<lambda>e. add_to (te_dtype e) 1) entries []"

definition by_bucket :: "tensor_entry list \<Rightarrow> (string \<times> int) list" where
  "by_bucket entries = fold (\<lambda>e. add_to (bucket_tensor (te_name e)) (te_nbytes e)) entries []"

definition total_payload :: "tensor_entry list \<Rightarrow> int" where
  "total_payload entries = sum_list (map te_nbytes entries)"

text \<open>\<open>xs[:n]\<close>, which counts from the end when \<open>n\<close> is negative.\<close>

definition slice_to :: "int \<Rightarrow> 'a list \<Rightarrow> 'a list" where
  "slice_to n xs = take (nat (if n < 0 then int (length xs) + n else n)) xs"

definition largest_tensors :: "int \<Rightarrow> tensor_entry list \<Rightarrow> tensor_entry list" where
  "largest_tensors top_n entries = slice_to top_n (sort_key (\<lambda>e. - te_nbytes e) entries)"

definition counts_dict :: "(string \<times> int) list \<Rightarrow> pyval" where
  "counts_dict d = VDict (map (\<lambda>(k, n). (k, VInt n)) d)"

definition tensor_dict :: "tensor_entry \<Rightarrow> pyval" where
  "tensor_dict e = VDict [(''name'', VStr (te_name e)), (''dtype'', VStr (te_dtype e)),
     (''shape'', VList (map VInt (te_shape e))), (''nbytes'', VInt (te_nbytes e))]"

definition report_inspect :: "(pyval \<Rightarrow> string) \<Rightarrow> (bytes \<Rightarrow> json_text) \<Rightarrow> int \<Rightarrow> string \<Rightarrow> bytes \<Rightarrow> index_error + pydict" where
  "report_inspect py_str parse top_n path content =
     bind_r (read_safetensors_index py_str parse content) (\<lambda>(meta, entries).
     Inr [(''path'', VStr path), (''disk_bytes'', VInt (int (length content))), (''tensor_count'', VInt (int (length entries))),
       (''payload_bytes_sum'', VInt (total_payload entries)),
       (''metadata'', case meta of Some m \<Rightarrow> VDict (map (\<lambda>(k, s). (k, VStr s)) m) | None \<Rightarrow> VNone),
       (''by_dtype'', counts_dict (by_dtype entries)), (''by_bucket_bytes'', counts_dict (by_bucket entries)),
       (''largest_tensors'', VList (map tensor_dict (largest_tensors top_n entries)))])"

text \<open>\<open>main\<close> for \<open>inspect\<close>: the exit code with the reports, in order. Paths are resolved; \<open>None\<close> is no file.\<close>

datatype inspect_exit = UsageError | Raised index_error

fun inspect_paths :: "(string \<Rightarrow> bytes \<Rightarrow> index_error + pydict) \<Rightarrow> (string \<Rightarrow> bytes option) \<Rightarrow> string list
    \<Rightarrow> (index_error option \<times> nat) \<times> pydict list" where
  "inspect_paths report files [] = ((None, 0), [])"
| "inspect_paths report files (p # ps) = (case files p of
     None \<Rightarrow> (let ((e, rc), rs) = inspect_paths report files ps in ((e, 1), rs))
   | Some content \<Rightarrow>
       (case report p content of
          Inl e \<Rightarrow> ((Some e, 0), [])
        | Inr r \<Rightarrow> (let (er, rs) = inspect_paths report files ps in (er, r # rs))))"

definition inspect_main :: "(pyval \<Rightarrow> string) \<Rightarrow> (bytes \<Rightarrow> json_text) \<Rightarrow> bool \<Rightarrow> int \<Rightarrow> (string \<Rightarrow> bytes option) \<Rightarrow> string list
    \<Rightarrow> (inspect_exit + nat) \<times> pydict list" where
  "inspect_main py_str parse as_json top_n files paths =
     (if as_json \<and> length paths \<noteq> 1 then (Inl UsageError, [])
      else (case inspect_paths (report_inspect py_str parse top_n) files paths of
          ((Some e, rc), rs) \<Rightarrow> (Inl (Raised e), rs)
        | ((None, rc), rs) \<Rightarrow> (Inr rc, rs)))"

section \<open>What the report shows\<close>

lemma unpack_le_bound: "unpack_le bs < 256 ^ length bs"
proof (induction bs)
  case (Cons b bs)
  have "unat b < 256"
    using unsigned_less[of b, where ?'a = nat] by simp
  moreover have "unpack_le bs + 1 \<le> 256 ^ length bs"
    using Cons.IH by simp
  then have "256 * (unpack_le bs + 1) \<le> 256 * 256 ^ length bs"
    by (rule mult_le_mono2)
  ultimately show ?case
    by (simp add: unpack_le_def)
qed (simp add: unpack_le_def)

text \<open>\<open>struct.pack("<Q", _)\<close>, to say what a writer puts in front of the header.\<close>

fun pack_le :: "nat \<Rightarrow> nat \<Rightarrow> bytes" where
  "pack_le 0 n = []"
| "pack_le (Suc k) n = of_nat (n mod 256) # pack_le k (n div 256)"

lemma length_pack_le [simp]: "length (pack_le k n) = k"
  by (induction k arbitrary: n) auto

lemma unpack_pack_le: "n < 256 ^ k \<Longrightarrow> unpack_le (pack_le k n) = n"
proof (induction k arbitrary: n)
  case (Suc k)
  then have "n div 256 < 256 ^ k"
    by (simp add: less_mult_imp_div_less mult.commute)
  then show ?case
    using Suc.IH[of "n div 256"] by (simp add: unpack_le_def unat_of_nat take_bit_eq_mod)
qed (simp add: unpack_le_def)

text \<open>A header that was written is the one that is read, and what follows it is not looked at.\<close>

lemma read_header_written:
  assumes "length header \<le> HEADER_CAP"
  shows "read_header (pack_le 8 (length header) @ header @ weights) = Inr header"
proof -
  have "length header < 256 ^ 8"
    using assms by (simp add: HEADER_CAP_def)
  then show ?thesis
    using assms by (simp add: read_header_def unpack_pack_le check_def bind_r_def)
qed

lemma weights_unread:
  assumes "length header \<le> HEADER_CAP"
  shows "read_safetensors_index py_str parse (pack_le 8 (length header) @ header @ weights) =
    read_safetensors_index py_str parse (pack_le 8 (length header) @ header)"
  using read_header_written[OF assms, of weights] read_header_written[OF assms, of "[]"]
  by (simp add: read_safetensors_index_def)

lemma read_header_bounded:
  "read_header content = Inr header \<Longrightarrow> length header \<le> HEADER_CAP \<and> length header + 8 \<le> length content"
  by (auto simp: read_header_def bind_r_Inr Let_def check_def split: if_splits)

text \<open>The buckets and the dtypes share out all there is.\<close>

lemma sum_update: "distinct (map fst d) \<Longrightarrow> (\<Sum>(k, n) \<leftarrow> add_to k' m d. n) = (\<Sum>(k, n) \<leftarrow> d. n) + m"
  by (induction d) (auto simp: add_to_def)

lemma distinct_add_to: "distinct (map fst d) \<Longrightarrow> distinct (map fst (add_to k m d))"
  by (simp add: add_to_def distinct_update)

lemma sum_fold_add:
  assumes "distinct (map fst d)"
  shows "(\<Sum>(k, n) \<leftarrow> fold (\<lambda>e. add_to (f e) (g e)) es d. n) = (\<Sum>(k, n) \<leftarrow> d. n) + sum_list (map g es)"
  using assms by (induction es arbitrary: d) (simp_all add: sum_update distinct_add_to)

lemma buckets_share_payload: "(\<Sum>(k, n) \<leftarrow> by_bucket entries. n) = total_payload entries"
  by (simp add: by_bucket_def total_payload_def sum_fold_add)

lemma dtypes_count_tensors: "(\<Sum>(k, n) \<leftarrow> by_dtype entries. n) = int (length entries)"
  by (simp add: by_dtype_def sum_fold_add sum_list_triv)

text \<open>The largest tensors: in falling order, and none left out is larger.\<close>

lemma largest_sorted: "sorted (map (\<lambda>e. - te_nbytes e) (largest_tensors top_n entries))"
  by (simp add: largest_tensors_def slice_to_def sorted_wrt_take take_map[symmetric])

lemma largest_first:
  assumes "e \<in> set (largest_tensors top_n entries)"
    and "e' \<in> set (drop (length (largest_tensors top_n entries)) (sort_key (\<lambda>e. - te_nbytes e) entries))"
  shows "te_nbytes e' \<le> te_nbytes e"
proof -
  define xs where "xs = sort_key (\<lambda>e. - te_nbytes e) entries"
  obtain m where m: "largest_tensors top_n entries = take m xs"
    by (simp add: largest_tensors_def slice_to_def xs_def)
  have "sorted (map (\<lambda>e. - te_nbytes e) (take m xs @ drop m xs))"
    by (simp add: xs_def)
  moreover have "set (drop (length (take m xs)) xs) \<subseteq> set (drop m xs)"
    by (cases "m \<le> length xs") (simp_all add: min_def)
  ultimately show ?thesis
    using assms unfolding m xs_def[symmetric] map_append sorted_append by fastforce
qed

text \<open>
  The needle \<open>te.\<close> is meant for a text encoder but is in every name with a part that ends in these
  letters.
\<close>

lemma gate_is_text: "bucket_tensor ''model.diffusion_model.blocks.0.gate.weight'' = ''text/cond''"
  "bucket_tensor ''model.diffusion_model.blocks.0.proj.weight'' = ''diffusion''"
  by code_simp+

end
