(* ===== verification/Wan_Editor.thy ===== *)
theory Wan_Editor
  imports Litegraph
begin

text \<open>
  \<open>scripts/gen_wan22_i2v_ui.py\<close>, which writes the LiteGraph file of the image-to-video workflow for the
  editor: the calls of \<open>reg\<close> and \<open>add_link\<close> in \<open>main\<close> as a list of commands, the state they build and the
  file. Records hold the entries of the dictionaries that differ; the rendering \<open>node_dict\<close> adds the
  others. The id of the file and its note, which is prose, are parameters.
\<close>

section \<open>Building a graph\<close>

record ui_input =
  ui_name :: string
  ui_shape :: "int option"
  ui_type :: pyval
  ui_widget :: bool
  ui_link :: "int option"

record ui_output =
  uo_name :: string
  uo_type :: string
  uo_slot_index :: "int option"
  uo_links :: "int list option"

record ui_node =
  un_id :: int
  un_type :: string
  un_title :: string
  un_pos :: "int \<times> int"
  un_size :: "int \<times> int"
  un_inputs :: "ui_input list"
  un_outputs :: "ui_output list"
  un_widgets :: lg_widgets
  un_properties :: pydict

text \<open>A link: its id, where it comes from with the slot, where it goes with the slot, and its type.\<close>

type_synonym ui_link_row = "int \<times> int \<times> nat \<times> int \<times> nat \<times> string"

record ui_state =
  us_seq :: int
  us_nodes :: "ui_node list"
  us_links :: "ui_link_row list"

text \<open>No node is registered twice, so \<open>nodes_by_id\<close> and \<open>nodes\<close> are one list.\<close>

definition ui_node_at :: "ui_node list \<Rightarrow> int \<Rightarrow> ui_node option" where
  "ui_node_at nodes i = List.find (\<lambda>n. un_id n = i) nodes"

definition update_node :: "int \<Rightarrow> (ui_node \<Rightarrow> ui_node) \<Rightarrow> ui_node list \<Rightarrow> ui_node list" where
  "update_node i f nodes = map (\<lambda>n. if un_id n = i then f n else n) nodes"

definition attach_output :: "int \<Rightarrow> ui_output \<Rightarrow> ui_output" where
  "attach_output lid sout =
     sout\<lparr>uo_links := Some ((case uo_links sout of None \<Rightarrow> [] | Some ls \<Rightarrow> ls) @ [lid])\<rparr>"

text \<open>\<open>None\<close> is an \<open>IndexError\<close> or a \<open>KeyError\<close>.\<close>

definition has_output :: "ui_node list \<Rightarrow> int \<Rightarrow> nat \<Rightarrow> bool" where
  "has_output nodes i k = (case ui_node_at nodes i of None \<Rightarrow> False | Some n \<Rightarrow> k < length (un_outputs n))"

definition has_input :: "ui_node list \<Rightarrow> int \<Rightarrow> nat \<Rightarrow> bool" where
  "has_input nodes i k = (case ui_node_at nodes i of None \<Rightarrow> False | Some n \<Rightarrow> k < length (un_inputs n))"

definition add_link :: "int \<Rightarrow> nat \<Rightarrow> int \<Rightarrow> nat \<Rightarrow> string \<Rightarrow> ui_state \<Rightarrow> ui_state option" where
  "add_link src src_slot dst dst_slot typ s =
     (let lid = us_seq s + 1 in
      if has_output (us_nodes s) src src_slot \<and> has_input (us_nodes s) dst dst_slot then
        Some \<lparr>us_seq = lid,
          us_nodes =
            update_node dst (\<lambda>n. n\<lparr>un_inputs := (un_inputs n)[dst_slot := (un_inputs n ! dst_slot)\<lparr>ui_link := Some lid\<rparr>]\<rparr>)
              (update_node src (\<lambda>n. n\<lparr>un_outputs := (un_outputs n)[src_slot := attach_output lid (un_outputs n ! src_slot)]\<rparr>)
                (us_nodes s)),
          us_links = us_links s @ [(lid, src, src_slot, dst, dst_slot, typ)]\<rparr>
      else None)"

definition reg :: "ui_node \<Rightarrow> ui_state \<Rightarrow> ui_state" where
  "reg n s = s\<lparr>us_nodes := us_nodes s @ [n]\<rparr>"

datatype ui_command = Reg ui_node | Link int nat int nat string

fun run_command :: "ui_command \<Rightarrow> ui_state \<Rightarrow> ui_state option" where
  "run_command (Reg n) s = Some (reg n s)"
| "run_command (Link src src_slot dst dst_slot typ) s = add_link src src_slot dst dst_slot typ s"

fun run_commands :: "ui_command list \<Rightarrow> ui_state \<Rightarrow> ui_state option" where
  "run_commands [] s = Some s"
| "run_commands (c # cs) s = (case run_command c s of None \<Rightarrow> None | Some s' \<Rightarrow> run_commands cs s')"

definition empty_ui :: ui_state where
  "empty_ui = \<lparr>us_seq = 0, us_nodes = [], us_links = []\<rparr>"

section \<open>The nodes\<close>

definition socket :: "string \<Rightarrow> string \<Rightarrow> ui_input" where
  "socket name typ = \<lparr>ui_name = name, ui_shape = None, ui_type = VStr typ, ui_widget = False, ui_link = None\<rparr>"

definition optional_socket :: "string \<Rightarrow> string \<Rightarrow> ui_input" where
  "optional_socket name typ = (socket name typ)\<lparr>ui_shape := Some 7\<rparr>"

definition widget :: "string \<Rightarrow> string \<Rightarrow> ui_input" where
  "widget name typ = (socket name typ)\<lparr>ui_widget := True\<rparr>"

definition shaped_widget :: "string \<Rightarrow> string \<Rightarrow> ui_input" where
  "shaped_widget name typ = (widget name typ)\<lparr>ui_shape := Some 7\<rparr>"

definition choice_widget :: "string \<Rightarrow> string list \<Rightarrow> ui_input" where
  "choice_widget name values = (widget name [])\<lparr>ui_type := VList (map VStr values)\<rparr>"

definition outlet :: "string \<Rightarrow> string \<Rightarrow> int option \<Rightarrow> int list option \<Rightarrow> ui_output" where
  "outlet name typ slot_index links = \<lparr>uo_name = name, uo_type = typ, uo_slot_index = slot_index, uo_links = links\<rparr>"

definition wan_node_1 :: ui_node where
  "wan_node_1 = \<lparr>un_id = 1, un_type = ''CLIPLoader'', un_title = ''T5 CLIP'', un_pos = (80, 80), un_size = (400, 110),
     un_inputs = [widget ''clip_name'' ''COMBO'', widget ''type'' ''COMBO'', shaped_widget ''device'' ''COMBO''],
     un_outputs = [outlet ''CLIP'' ''CLIP'' (Some 0) (Some [])],
     un_widgets = WList [VStr ''umt5_xxl_fp8_e4m3fn_scaled.safetensors'', VStr ''wan'', VStr ''cpu''],
     un_properties = [(''cnr_id'', VStr ''comfy-core''), (''ver'', VStr ''0.3.46''), (''Node name for S&R'', VStr ''CLIPLoader'')]\<rparr>"

definition wan_node_2 :: ui_node where
  "wan_node_2 = \<lparr>un_id = 2, un_type = ''CLIPTextEncode'', un_title = ''Positive prompt'', un_pos = (80, 240), un_size = (420, 170),
     un_inputs = [socket ''clip'' ''CLIP'', widget ''text'' ''STRING''],
     un_outputs = [outlet ''CONDITIONING'' ''CONDITIONING'' None (Some [])],
     un_widgets = WList [VStr ''''],
     un_properties = [(''cnr_id'', VStr ''comfy-core''), (''ver'', VStr ''0.3.46''), (''Node name for S&R'', VStr ''CLIPTextEncode'')]\<rparr>"

definition wan_node_3 :: ui_node where
  "wan_node_3 = \<lparr>un_id = 3, un_type = ''CLIPTextEncode'', un_title = ''Negative prompt'', un_pos = (80, 450), un_size = (420, 170),
     un_inputs = [socket ''clip'' ''CLIP'', widget ''text'' ''STRING''],
     un_outputs = [outlet ''CONDITIONING'' ''CONDITIONING'' None (Some [])],
     un_widgets = WList [VStr ''''],
     un_properties = [(''cnr_id'', VStr ''comfy-core''), (''ver'', VStr ''0.3.46''), (''Node name for S&R'', VStr ''CLIPTextEncode'')]\<rparr>"

definition wan_node_4 :: ui_node where
  "wan_node_4 = \<lparr>un_id = 4, un_type = ''LoadImage'', un_title = ''Start image'', un_pos = (80, 680), un_size = (320, 330),
     un_inputs = [widget ''image'' ''COMBO'', widget ''upload'' ''IMAGEUPLOAD''],
     un_outputs = [outlet ''IMAGE'' ''IMAGE'' (Some 0) (Some []), outlet ''MASK'' ''MASK'' None None],
     un_widgets = WList [VStr ''placeholder.png'', VStr ''image''],
     un_properties = [(''cnr_id'', VStr ''comfy-core''), (''ver'', VStr ''0.17.0''), (''Node name for S&R'', VStr ''LoadImage'')]\<rparr>"

definition wan_node_5 :: ui_node where
  "wan_node_5 = \<lparr>un_id = 5, un_type = ''UNETLoader'', un_title = ''WAN diffusion (UNET weights)'', un_pos = (560, 80), un_size = (360, 90),
     un_inputs = [widget ''unet_name'' ''COMBO'', widget ''weight_dtype'' ''COMBO''],
     un_outputs = [outlet ''MODEL'' ''MODEL'' (Some 0) (Some [])],
     un_widgets = WList [VStr ''SmoothMix_I2V_v2_High.safetensors'', VStr ''fp8_e4m3fn''],
     un_properties = [(''cnr_id'', VStr ''comfy-core''), (''ver'', VStr ''0.3.46''), (''Node name for S&R'', VStr ''UNETLoader'')]\<rparr>"

definition wan_node_6 :: ui_node where
  "wan_node_6 = \<lparr>un_id = 6, un_type = ''LoraLoaderModelOnly'', un_title = ''LoRA on UNet'', un_pos = (560, 210), un_size = (420, 90),
     un_inputs = [socket ''model'' ''MODEL'', widget ''lora_name'' ''COMBO'', widget ''strength_model'' ''FLOAT''],
     un_outputs = [outlet ''MODEL'' ''MODEL'' (Some 0) (Some [])],
     un_widgets = WList [VStr ''put_a_wan_lora_here.safetensors'', VFloat 0],
     un_properties = [(''cnr_id'', VStr ''comfy-core''), (''ver'', VStr ''0.3.46''), (''Node name for S&R'', VStr ''LoraLoaderModelOnly'')]\<rparr>"

definition wan_node_7 :: ui_node where
  "wan_node_7 = \<lparr>un_id = 7, un_type = ''ModelSamplingSD3'', un_title = ''WAN shift'', un_pos = (560, 340), un_size = (320, 90),
     un_inputs = [socket ''model'' ''MODEL'', widget ''shift'' ''FLOAT''],
     un_outputs = [outlet ''MODEL'' ''MODEL'' (Some 0) (Some [])],
     un_widgets = WList [VFloat 8],
     un_properties = [(''cnr_id'', VStr ''comfy-core''), (''ver'', VStr ''0.3.46''), (''Node name for S&R'', VStr ''ModelSamplingSD3'')]\<rparr>"

definition wan_node_8 :: ui_node where
  "wan_node_8 = \<lparr>un_id = 8, un_type = ''VAELoader'', un_title = ''WAN VAE'', un_pos = (560, 470), un_size = (320, 60),
     un_inputs = [widget ''vae_name'' ''COMBO''],
     un_outputs = [outlet ''VAE'' ''VAE'' (Some 0) (Some [])],
     un_widgets = WList [VStr ''Wan2_1_VAE_fp32.safetensors''],
     un_properties = [(''cnr_id'', VStr ''comfy-core''), (''ver'', VStr ''0.3.46''), (''Node name for S&R'', VStr ''VAELoader'')]\<rparr>"

definition wan_node_9 :: ui_node where
  "wan_node_9 = \<lparr>un_id = 9, un_type = ''easy float'', un_title = ''Duration (seconds)'', un_pos = (1040, 80), un_size = (280, 60),
     un_inputs = [widget ''value'' ''FLOAT''],
     un_outputs = [outlet ''float'' ''FLOAT'' (Some 0) (Some [])],
     un_widgets = WList [VFloat 5],
     un_properties = [(''Node name for S&R'', VStr ''easy float'')]\<rparr>"

definition wan_node_10 :: ui_node where
  "wan_node_10 = \<lparr>un_id = 10, un_type = ''easy float'', un_title = ''Frames per second (video)'', un_pos = (1040, 170), un_size = (280, 60),
     un_inputs = [widget ''value'' ''FLOAT''],
     un_outputs = [outlet ''float'' ''FLOAT'' (Some 0) (Some [])],
     un_widgets = WList [VFloat 16],
     un_properties = [(''Node name for S&R'', VStr ''easy float'')]\<rparr>"

definition wan_node_11 :: ui_node where
  "wan_node_11 = \<lparr>un_id = 11, un_type = ''MathExpression|pysssss'', un_title = (''Wan latent frames: int(seconds'' @ [CHR 0xD7] @ ''FPS)+1''), un_pos = (1040, 280), un_size = (380, 200),
     un_inputs = [widget ''expression'' ''STRING'', optional_socket ''a'' ''*'', optional_socket ''b'' ''*'',
       optional_socket ''c'' ''*''],
     un_outputs = [outlet ''INT'' ''INT'' (Some 0) (Some []), outlet ''FLOAT'' ''FLOAT'' (Some 1) (Some [])],
     un_widgets = WList [VStr ''int(a*b)+1''],
     un_properties = [(''Node name for S&R'', VStr ''MathExpression|pysssss'')]\<rparr>"

definition wan_node_13 :: ui_node where
  "wan_node_13 = \<lparr>un_id = 13, un_type = ''WanImageToVideo'', un_title = ''Wan I2V (width/height/batch here; length from math)'', un_pos = (1440, 300), un_size = (360, 280),
     un_inputs = [socket ''positive'' ''CONDITIONING'', socket ''negative'' ''CONDITIONING'', socket ''vae'' ''VAE'',
       optional_socket ''clip_vision_output'' ''CLIP_VISION_OUTPUT'',
       optional_socket ''start_image'' ''IMAGE'', widget ''width'' ''INT'', widget ''height'' ''INT'',
       widget ''length'' ''INT'', widget ''batch_size'' ''INT''],
     un_outputs = [outlet ''positive'' ''CONDITIONING'' (Some 0) (Some []),
       outlet ''negative'' ''CONDITIONING'' (Some 1) (Some []),
       outlet ''latent'' ''LATENT'' (Some 2) (Some [])],
     un_widgets = WList [VInt 832, VInt 480, VInt 81, VInt 1],
     un_properties = [(''cnr_id'', VStr ''comfy-core''), (''ver'', VStr ''0.3.46''), (''Node name for S&R'', VStr ''WanImageToVideo'')]\<rparr>"

definition wan_node_14 :: ui_node where
  "wan_node_14 = \<lparr>un_id = 14, un_type = ''KSamplerAdvanced'', un_title = ''Pass 1 (noise to step 3)'', un_pos = (1860, 280), un_size = (320, 480),
     un_inputs = [socket ''model'' ''MODEL'', socket ''positive'' ''CONDITIONING'',
       socket ''negative'' ''CONDITIONING'', socket ''latent_image'' ''LATENT'',
       widget ''add_noise'' ''COMBO'', widget ''noise_seed'' ''INT'', widget ''steps'' ''INT'',
       widget ''cfg'' ''FLOAT'', widget ''sampler_name'' ''COMBO'', widget ''scheduler'' ''COMBO'',
       widget ''start_at_step'' ''INT'', widget ''end_at_step'' ''INT'',
       widget ''return_with_leftover_noise'' ''COMBO''],
     un_outputs = [outlet ''LATENT'' ''LATENT'' None (Some [])],
     un_widgets = WList [VStr ''enable'', VInt 0, VStr ''fixed'', VInt 6, VFloat 1, VStr ''euler'', VStr ''simple'', VInt 0, VInt 3, VStr ''enable''],
     un_properties = [(''cnr_id'', VStr ''comfy-core''), (''ver'', VStr ''0.3.46''), (''Node name for S&R'', VStr ''KSamplerAdvanced'')]\<rparr>"

definition wan_node_15 :: ui_node where
  "wan_node_15 = \<lparr>un_id = 15, un_type = ''KSamplerWithNAG (Advanced)'', un_title = ''Pass 2 (NAG from step 3)'', un_pos = (2220, 280), un_size = (320, 520),
     un_inputs = [socket ''model'' ''MODEL'', socket ''positive'' ''CONDITIONING'',
       socket ''negative'' ''CONDITIONING'', socket ''nag_negative'' ''CONDITIONING'',
       socket ''latent_image'' ''LATENT'', widget ''add_noise'' ''COMBO'', widget ''noise_seed'' ''INT'',
       widget ''steps'' ''INT'', widget ''cfg'' ''FLOAT'', widget ''nag_scale'' ''FLOAT'',
       widget ''nag_tau'' ''FLOAT'', widget ''nag_alpha'' ''FLOAT'', widget ''nag_sigma_end'' ''FLOAT'',
       widget ''sampler_name'' ''COMBO'', widget ''scheduler'' ''COMBO'',
       widget ''start_at_step'' ''INT'', widget ''end_at_step'' ''INT'',
       widget ''return_with_leftover_noise'' ''COMBO''],
     un_outputs = [outlet ''LATENT'' ''LATENT'' None (Some [])],
     un_widgets = WList [VStr ''disable'', VInt 0, VStr ''fixed'', VInt 6, VFloat 1, VInt 30, VFloat (5 / 2), VFloat (1 / 4), VFloat 1, VStr ''euler'', VStr ''simple'', VInt 3, VInt 10000, VStr ''disable''],
     un_properties = [(''aux_id'', VStr ''scottmudge/ComfyUI-NAG''), (''ver'', VStr ''c6f27116a8259f5b501d498a09e51c82fa72e35f''), (''Node name for S&R'', VStr ''KSamplerWithNAG (Advanced)'')]\<rparr>"

definition wan_node_16 :: ui_node where
  "wan_node_16 = \<lparr>un_id = 16, un_type = ''VAEDecode'', un_title = ''Decode'', un_pos = (2580, 360), un_size = (220, 46),
     un_inputs = [socket ''samples'' ''LATENT'', socket ''vae'' ''VAE''],
     un_outputs = [outlet ''IMAGE'' ''IMAGE'' (Some 0) (Some [])],
     un_widgets = WList [],
     un_properties = [(''cnr_id'', VStr ''comfy-core''), (''ver'', VStr ''0.3.46''), (''Node name for S&R'', VStr ''VAEDecode'')]\<rparr>"

definition vhs_widgets :: pydict where
  "vhs_widgets = [(''frame_rate'', VFloat 16), (''loop_count'', VInt 0), (''filename_prefix'', VStr ''wan22_i2v_ui''), (''format'', VStr ''video/h264-mp4''), (''pix_fmt'', VStr ''yuv420p''), (''crf'', VInt 19), (''save_metadata'', VBool True), (''trim_to_audio'', VBool False), (''pingpong'', VBool False), (''save_output'', VBool True), (''videopreview'', VDict [(''hidden'', VBool False), (''paused'', VBool False), (''params'', VDict [])])]"

definition wan_node_17 :: ui_node where
  "wan_node_17 = \<lparr>un_id = 17, un_type = ''VHS_VideoCombine'', un_title = ''MP4 (FPS from slider wires in)'', un_pos = (2860, 320), un_size = (520, 360),
     un_inputs = [socket ''images'' ''IMAGE'', optional_socket ''audio'' ''AUDIO'',
       optional_socket ''meta_batch'' ''VHS_BatchManager'', optional_socket ''vae'' ''VAE'',
       widget ''frame_rate'' ''FLOAT'', widget ''loop_count'' ''INT'',
       widget ''filename_prefix'' ''STRING'', widget ''format'' ''COMBO'',
       widget ''pingpong'' ''BOOLEAN'', widget ''save_output'' ''BOOLEAN'',
       choice_widget ''pix_fmt'' [''yuv420p'', ''yuv420p10le''], widget ''crf'' ''INT'',
       widget ''save_metadata'' ''BOOLEAN'', widget ''trim_to_audio'' ''BOOLEAN''],
     un_outputs = [outlet ''Filenames'' ''VHS_FILENAMES'' None None],
     un_widgets = WDict vhs_widgets,
     un_properties = [(''cnr_id'', VStr ''comfyui-videohelpersuite''), (''ver'', VStr ''8923bd836bdab8b7bbdf4ed104b7d045e70c66e2''), (''Node name for S&R'', VStr ''VHS_VideoCombine'')]\<rparr>"

definition wan_commands :: "ui_command list" where
  "wan_commands =
     [Reg wan_node_1, Reg wan_node_2, Reg wan_node_3, Link 1 0 2 0 ''CLIP'', Link 1 0 3 0 ''CLIP'',
      Reg wan_node_4, Reg wan_node_5, Reg wan_node_6, Link 5 0 6 0 ''MODEL'', Reg wan_node_7,
      Link 6 0 7 0 ''MODEL'', Reg wan_node_8, Reg wan_node_9, Reg wan_node_10, Reg wan_node_11,
      Link 9 0 11 1 ''*'', Link 10 0 11 2 ''*'', Reg wan_node_13, Link 2 0 13 0 ''CONDITIONING'',
      Link 3 0 13 1 ''CONDITIONING'', Link 8 0 13 2 ''VAE'', Link 4 0 13 4 ''IMAGE'',
      Link 11 0 13 7 ''INT'', Reg wan_node_14, Link 7 0 14 0 ''MODEL'',
      Link 13 0 14 1 ''CONDITIONING'', Link 13 1 14 2 ''CONDITIONING'', Link 13 2 14 3 ''LATENT'',
      Reg wan_node_15, Link 7 0 15 0 ''MODEL'', Link 13 0 15 1 ''CONDITIONING'',
      Link 13 1 15 2 ''CONDITIONING'', Link 13 1 15 3 ''CONDITIONING'', Link 14 0 15 4 ''LATENT'',
      Reg wan_node_16, Link 15 0 16 0 ''LATENT'', Link 8 0 16 1 ''VAE'', Reg wan_node_17,
      Link 16 0 17 0 ''IMAGE'', Link 10 0 17 4 ''FLOAT'']"

section \<open>The file\<close>

definition opt_key :: "string \<Rightarrow> 'a option \<Rightarrow> ('a \<Rightarrow> pyval) \<Rightarrow> pydict" where
  "opt_key k x f = (case x of None \<Rightarrow> [] | Some y \<Rightarrow> [(k, f y)])"

definition input_dict :: "ui_input \<Rightarrow> pyval" where
  "input_dict i = VDict ([(''localized_name'', VStr (ui_name i)), (''name'', VStr (ui_name i))] @
     opt_key ''shape'' (ui_shape i) VInt @ [(''type'', ui_type i)] @
     (if ui_widget i then [(''widget'', VDict [(''name'', VStr (ui_name i))])] else []) @
     [(''link'', case ui_link i of None \<Rightarrow> VNone | Some l \<Rightarrow> VInt l)])"

definition output_dict :: "ui_output \<Rightarrow> pyval" where
  "output_dict x = VDict ([(''localized_name'', VStr (uo_name x)), (''name'', VStr (uo_name x)), (''type'', VStr (uo_type x))] @
     opt_key ''slot_index'' (uo_slot_index x) VInt @
     [(''links'', case uo_links x of None \<Rightarrow> VNone | Some ls \<Rightarrow> VList (map VInt ls))])"

definition pair_list :: "int \<times> int \<Rightarrow> pyval" where
  "pair_list p = VList [VInt (fst p), VInt (snd p)]"

definition node_dict :: "ui_node \<Rightarrow> pydict" where
  "node_dict n = [(''id'', VInt (un_id n)), (''type'', VStr (un_type n)), (''title'', VStr (un_title n)),
     (''pos'', pair_list (un_pos n)), (''size'', pair_list (un_size n)), (''flags'', VDict []), (''order'', VInt 0),
     (''mode'', VInt 0), (''inputs'', VList (map input_dict (un_inputs n))),
     (''outputs'', VList (map output_dict (un_outputs n))),
     (''widgets_values'', case un_widgets n of WList vs \<Rightarrow> VList vs | WDict d \<Rightarrow> VDict d),
     (''properties'', VDict (un_properties n))]"

definition link_row :: "ui_link_row \<Rightarrow> pyval" where
  "link_row l = (case l of (lid, src, src_slot, dst, dst_slot, typ) \<Rightarrow>
     VList [VInt lid, VInt src, VInt (int src_slot), VInt dst, VInt (int dst_slot), VStr typ])"

text \<open>\<open>max\<close> of an empty list raises.\<close>

definition greatest :: "int list \<Rightarrow> int option" where
  "greatest xs = (case xs of [] \<Rightarrow> None | x # ys \<Rightarrow> Some (fold max ys x))"

definition ui_file :: "string \<Rightarrow> string \<Rightarrow> ui_state \<Rightarrow> pydict option" where
  "ui_file file_id note s =
     (case (greatest (map un_id (us_nodes s)), greatest (map fst (us_links s))) of
        (Some last_node, Some last_link) \<Rightarrow> Some
          [(''id'', VStr file_id), (''revision'', VInt 0), (''last_node_id'', VInt last_node), (''last_link_id'', VInt last_link),
           (''nodes'', VList (map (\<lambda>n. VDict (node_dict n)) (sort_key un_id (us_nodes s)))),
           (''links'', VList (map link_row (us_links s))), (''groups'', VList []),
           (''definitions'', VDict [(''subgraphs'', VList [])]), (''config'', VDict []),
           (''extra'', VDict [(''workflowRendererVersion'', VStr ''LG''),
              (''ds'', VDict [(''scale'', VFloat (18 / 25)), (''offset'', VList [VInt (- 40), VInt (- 20)])]),
              (''note'', VStr note)]),
           (''version'', VFloat (2 / 5))]
      | _ \<Rightarrow> None)"

definition gen_wan_ui :: "string \<Rightarrow> string \<Rightarrow> pydict option" where
  "gen_wan_ui file_id note = (case run_commands wan_commands empty_ui of None \<Rightarrow> None | Some s \<Rightarrow> ui_file file_id note s)"

section \<open>Links agree at both ends\<close>

definition in_link :: "ui_node list \<Rightarrow> int \<Rightarrow> nat \<Rightarrow> int option" where
  "in_link nodes i k = (case ui_node_at nodes i of None \<Rightarrow> None
     | Some n \<Rightarrow> if k < length (un_inputs n) then ui_link (un_inputs n ! k) else None)"

definition out_links :: "ui_node list \<Rightarrow> int \<Rightarrow> nat \<Rightarrow> int list" where
  "out_links nodes i k = (case ui_node_at nodes i of None \<Rightarrow> []
     | Some n \<Rightarrow> if k < length (un_outputs n) then (case uo_links (un_outputs n ! k) of None \<Rightarrow> [] | Some ls \<Rightarrow> ls) else [])"

text \<open>
  The link ids count from 1; an input carries a link exactly when a row leads there, and an
  output lists exactly the rows that start there, each once.
\<close>

definition well_linked :: "ui_state \<Rightarrow> bool" where
  "well_linked s \<longleftrightarrow> us_seq s = int (length (us_links s)) \<and>
     map fst (us_links s) = map int [1..<Suc (length (us_links s))] \<and>
     (\<forall>i k l. in_link (us_nodes s) i k = Some l \<longleftrightarrow> (\<exists>src src_slot typ. (l, src, src_slot, i, k, typ) \<in> set (us_links s))) \<and>
     (\<forall>i k. out_links (us_nodes s) i k =
        map fst (filter (\<lambda>(l, src, src_slot, _). src = i \<and> src_slot = k) (us_links s)))"

text \<open>Nodes come without links under new ids, and no input is linked twice.\<close>

definition blank_node :: "ui_node \<Rightarrow> bool" where
  "blank_node n \<longleftrightarrow> list_all (\<lambda>i. ui_link i = None) (un_inputs n) \<and>
     list_all (\<lambda>x. uo_links x = None \<or> uo_links x = Some []) (un_outputs n)"

fun tidy_commands :: "int list \<Rightarrow> (int \<times> nat) list \<Rightarrow> ui_command list \<Rightarrow> bool" where
  "tidy_commands ids ends [] = True"
| "tidy_commands ids ends (Reg n # cs) \<longleftrightarrow> blank_node n \<and> un_id n \<notin> set ids \<and> tidy_commands (un_id n # ids) ends cs"
| "tidy_commands ids ends (Link src src_slot dst dst_slot typ # cs) \<longleftrightarrow>
     (dst, dst_slot) \<notin> set ends \<and> tidy_commands ids ((dst, dst_slot) # ends) cs"

lemma ui_node_at_update:
  assumes "\<And>n. un_id (f n) = un_id n"
  shows "ui_node_at (update_node j f nodes) i = (if i = j then map_option f (ui_node_at nodes i) else ui_node_at nodes i)"
  unfolding ui_node_at_def update_node_def by (induction nodes) (auto simp: assms)

lemma update_node_ids:
  assumes "\<And>n. un_id (f n) = un_id n"
  shows "un_id ` set (update_node j f nodes) = un_id ` set nodes"
  unfolding update_node_def set_map image_image by (rule image_cong) (simp_all add: assms)

lemma ui_node_at_append: "ui_node_at (nodes @ [n]) i =
    (case ui_node_at nodes i of Some m \<Rightarrow> Some m | None \<Rightarrow> if un_id n = i then Some n else None)"
  unfolding ui_node_at_def by (induction nodes) auto

lemma ui_node_at_id: "ui_node_at nodes i = Some n \<Longrightarrow> i \<in> un_id ` set nodes"
  unfolding ui_node_at_def by (induction nodes) (auto split: if_splits)

lemma add_link_nodes:
  assumes "add_link src ss dst ds typ s = Some s'"
  shows "has_output (us_nodes s) src ss \<and> has_input (us_nodes s) dst ds"
    and "ui_node_at (us_nodes s') i = map_option (\<lambda>n.
      let n = (if i = src then n\<lparr>un_outputs := (un_outputs n)[ss := attach_output (us_seq s + 1) (un_outputs n ! ss)]\<rparr> else n)
      in if i = dst then n\<lparr>un_inputs := (un_inputs n)[ds := (un_inputs n ! ds)\<lparr>ui_link := Some (us_seq s + 1)\<rparr>]\<rparr> else n)
      (ui_node_at (us_nodes s) i)"
  using assms by (auto simp: add_link_def Let_def ui_node_at_update option.map_comp comp_def option.map_ident split: if_splits)

lemma add_link_in:
  assumes a: "add_link src ss dst ds typ s = Some s'"
  shows "in_link (us_nodes s') i k = (if (i, k) = (dst, ds) then Some (us_seq s + 1) else in_link (us_nodes s) i k)"
proof (cases "ui_node_at (us_nodes s) i")
  case None
  then show ?thesis
    using add_link_nodes(1)[OF a] by (auto simp: in_link_def add_link_nodes(2)[OF a] has_input_def)
next
  case (Some n)
  then show ?thesis
    using add_link_nodes(1)[OF a]
    by (simp add: in_link_def add_link_nodes(2)[OF a] has_input_def nth_list_update) (auto simp: nth_list_update)
qed

lemma add_link_out:
  assumes a: "add_link src ss dst ds typ s = Some s'"
  shows "out_links (us_nodes s') i k = out_links (us_nodes s) i k @ (if (i, k) = (src, ss) then [us_seq s + 1] else [])"
proof (cases "ui_node_at (us_nodes s) i")
  case None
  then show ?thesis
    using add_link_nodes(1)[OF a] by (auto simp: out_links_def add_link_nodes(2)[OF a] has_output_def)
next
  case (Some n)
  then show ?thesis
    using add_link_nodes(1)[OF a]
    by (simp add: out_links_def add_link_nodes(2)[OF a] has_output_def) (auto simp: nth_list_update attach_output_def)
qed

lemma add_link_rows:
  assumes "add_link src ss dst ds typ s = Some s'"
  shows "us_links s' = us_links s @ [(us_seq s + 1, src, ss, dst, ds, typ)]" "us_seq s' = us_seq s + 1"
    "un_id ` set (us_nodes s') = un_id ` set (us_nodes s)"
  using assms by (simp_all add: add_link_def Let_def split: if_splits) (clarsimp simp: update_node_ids)+

lemma add_link_well:
  assumes a: "add_link src ss dst ds typ s = Some s'" and w: "well_linked s" and free: "in_link (us_nodes s) dst ds = None"
  shows "well_linked s'"
proof -
  note rows = add_link_rows[OF a]
  have n: "us_seq s = int (length (us_links s))"
    using w by (simp add: well_linked_def)
  have "in_link (us_nodes s') i k = Some l \<longleftrightarrow> (\<exists>src src_slot typ. (l, src, src_slot, i, k, typ) \<in> set (us_links s'))" for i k l
  proof (cases "(i, k) = (dst, ds)")
    case True
    have "\<not> (\<exists>src src_slot typ. (l, src, src_slot, dst, ds, typ) \<in> set (us_links s))" for l
      using w free unfolding well_linked_def by (metis option.distinct(1))
    then show ?thesis
      using True by (auto simp: add_link_in[OF a] rows(1))
  next
    case False
    then show ?thesis
      using w unfolding well_linked_def by (auto simp: add_link_in[OF a] rows(1))
  qed
  then show ?thesis
    using w n unfolding well_linked_def by (simp add: add_link_out[OF a] rows(1,2))
qed

lemma reg_well:
  assumes w: "well_linked s" and b: "blank_node n" and new: "un_id n \<notin> un_id ` set (us_nodes s)"
  shows "well_linked (reg n s)"
proof -
  have none: "ui_node_at (us_nodes s) (un_id n) = None"
    using new ui_node_at_id by fastforce
  have "in_link (us_nodes (reg n s)) i k = in_link (us_nodes s) i k" for i k
    using b none by (auto simp: in_link_def reg_def ui_node_at_append blank_node_def list_all_length split: option.splits)
  moreover have "out_links (us_nodes (reg n s)) i k = out_links (us_nodes s) i k" for i k
    using b none by (auto simp: out_links_def reg_def ui_node_at_append blank_node_def list_all_length split: option.splits)
  moreover have "us_seq (reg n s) = us_seq s" "us_links (reg n s) = us_links s"
    by (simp_all add: reg_def)
  ultimately show ?thesis
    using w unfolding well_linked_def by (simp only: simp_thms)
qed

lemma run_commands_well:
  assumes "run_commands cs s = Some s'" and "tidy_commands ids ends cs" and "well_linked s"
    and "un_id ` set (us_nodes s) \<subseteq> set ids" and "\<And>i k. in_link (us_nodes s) i k \<noteq> None \<Longrightarrow> (i, k) \<in> set ends"
  shows "well_linked s'"
  using assms
proof (induction cs arbitrary: s ids ends)
  case (Cons c cs)
  show ?case
  proof (cases c)
    case (Reg n)
    have new: "un_id n \<notin> un_id ` set (us_nodes s)"
      using Cons.prems(2,4) Reg by auto
    have ends: "in_link (us_nodes (reg n s)) i k \<noteq> None \<Longrightarrow> (i, k) \<in> set ends" for i k
      using Cons.prems(2,5) Reg ui_node_at_id[of "us_nodes s" "un_id n"] new
      by (auto simp: in_link_def reg_def ui_node_at_append blank_node_def list_all_length split: option.splits if_splits)
    show ?thesis
    proof (rule Cons.IH[of "reg n s" "un_id n # ids" ends])
      show "well_linked (reg n s)"
        using reg_well[OF Cons.prems(3) _ new] Cons.prems(2) Reg by simp
      show "in_link (us_nodes (reg n s)) i k \<noteq> None \<Longrightarrow> (i, k) \<in> set ends" for i k
        using ends .
    qed (use Cons.prems Reg in \<open>auto simp: reg_def\<close>)
  next
    case (Link src ss dst ds ty)
    then obtain s1 where a: "add_link src ss dst ds ty s = Some s1" and r: "run_commands cs s1 = Some s'"
      using Cons.prems(1) by (auto split: option.splits)
    have "in_link (us_nodes s) dst ds = None"
      using Cons.prems(2,5) Link by fastforce
    then have "well_linked s1"
      by (rule add_link_well[OF a Cons.prems(3)])
    moreover have "in_link (us_nodes s1) i k \<noteq> None \<Longrightarrow> (i, k) \<in> set ((dst, ds) # ends)" for i k
      using Cons.prems(5) by (auto simp: add_link_in[OF a] split: if_splits)
    ultimately show ?thesis
      using Cons.IH[OF r, of ids "(dst, ds) # ends"] Cons.prems(2,4) Link add_link_rows(3)[OF a] by simp
  qed
qed simp

lemma empty_well: "well_linked empty_ui"
  by (simp add: well_linked_def empty_ui_def in_link_def out_links_def ui_node_at_def)

theorem tidy_commands_link_well:
  assumes "run_commands cs empty_ui = Some s" and "tidy_commands [] [] cs"
  shows "well_linked s"
  using run_commands_well[OF assms empty_well] by (simp add: empty_ui_def in_link_def ui_node_at_def)

section \<open>The workflow\<close>

definition wan_ui :: "ui_state option" where
  "wan_ui = run_commands wan_commands empty_ui"

lemma wan_ui_built: "wan_ui \<noteq> None" "tidy_commands [] [] wan_commands"
  by code_simp+

text \<open>The generated graph is linked as its rows say, with 16 nodes and 24 links.\<close>

theorem tidy_commands_link_well_witness: "\<exists>s. wan_ui = Some s \<and> well_linked s"
proof -
  obtain s where "wan_ui = Some s"
    using wan_ui_built(1) by blast
  then show ?thesis
    using tidy_commands_link_well[of wan_commands s] wan_ui_built(2) by (simp add: wan_ui_def)
qed

text \<open>What the converter of \<open>Litegraph\<close> reads of the file.\<close>

definition read_node :: "ui_node \<Rightarrow> lg_node" where
  "read_node n = \<lparr>ln_id = show_int (un_id n), ln_type = un_type n, ln_title = Some (un_title n), ln_mode = 0,
     ln_inputs = map (\<lambda>i. \<lparr>li_name = ui_name i, li_link = ui_link i, li_widget = ui_widget i\<rparr>) (un_inputs n),
     ln_widgets = un_widgets n\<rparr>"

definition convert_ui :: "ui_state \<Rightarrow> unit + api_graph" where
  "convert_ui s = convert (map (\<lambda>(lid, src, src_slot, _). (lid, show_int src, int src_slot)) (us_links s))
     (map read_node (sort_key un_id (us_nodes s))) []"

definition api_input :: "api_graph \<Rightarrow> int \<Rightarrow> string \<Rightarrow> pyval" where
  "api_input g i k = (case map_of g (show_int i) of None \<Rightarrow> VNone | Some n \<Rightarrow> dict_get (an_inputs n) k)"

definition row_arrives :: "ui_state \<Rightarrow> api_graph \<Rightarrow> ui_link_row \<Rightarrow> bool" where
  "row_arrives s g l = (case l of (lid, src, src_slot, dst, dst_slot, typ) \<Rightarrow>
     (case ui_node_at (us_nodes s) dst of None \<Rightarrow> False
      | Some n \<Rightarrow> api_input g dst (ui_name (un_inputs n ! dst_slot)) = link (show_int src) (int src_slot)))"

text \<open>
  Converted for the service every link is a reference, no node is lost, the length of the clip comes
  from the expression, and the second pass starts at the step where the first one ends.
\<close>

lemma wan_ui_converts:
  "case wan_ui of None \<Rightarrow> False | Some s \<Rightarrow> (case convert_ui s of Inl _ \<Rightarrow> False | Inr g \<Rightarrow>
     length g = 16 \<and> list_all (row_arrives s g) (us_links s) \<and>
     api_input g 13 ''length'' = link ''11'' 0 \<and> api_input g 13 ''batch_size'' = VInt 1 \<and>
     api_input g 14 ''end_at_step'' = api_input g 15 ''start_at_step'' \<and> api_input g 14 ''steps'' = api_input g 15 ''steps'')"
  by code_simp

end
