(* ===== verification/Review_Scores.thy ===== *)
theory Review_Scores
  imports Batch_Engine
begin

text \<open>
  The scores that reviewers give to generated assets: \<open>scripts/terrain-review-tracker.py\<close>, which keeps
  them in a JSON file, and \<open>scripts/score-genre-review.py\<close>, which keeps them in a table. A table is the list
  of its lines, each a list of cells; splitting a text into cells is left out.
\<close>

section \<open>What both have\<close>

definition SCORE_FIELDS :: "string list" where
  "SCORE_FIELDS = [''genre_fit_0_2'', ''readability_0_2'', ''consistency_0_2'', ''artifact_severity_0_2'',
     ''prompt_responsiveness_0_2'']"

datatype score_error = NotInteger string | OutOfRange string | MissingColumns | NoTable | NoHeader | NotReadable

definition decision_of :: "int \<Rightarrow> string" where
  "decision_of n = (if 8 \<le> n then ''approved_candidate'' else if 6 \<le> n then ''reviewed'' else ''rejected'')"

definition in_range :: "string \<Rightarrow> int \<Rightarrow> score_error + int" where
  "in_range fld n = bind_r (check (0 \<le> n \<and> n \<le> 2) (OutOfRange fld)) (\<lambda>_. Inr n)"

fun sum_scores :: "(string \<Rightarrow> score_error + int) \<Rightarrow> string list \<Rightarrow> score_error + int" where
  "sum_scores score [] = Inr 0"
| "sum_scores score (f # fs) = bind_r (score f) (\<lambda>n. bind_r (sum_scores score fs) (\<lambda>m. Inr (n + m)))"

text \<open>A total of five scores that are each in range.\<close>

lemma in_range_bounds: "in_range fld n = Inr k \<Longrightarrow> 0 \<le> k \<and> k \<le> 2"
  by (auto simp: in_range_def bind_r_Inr check_def split: if_splits)

lemma sum_scores_bounds:
  assumes "\<And>f n. score f = Inr n \<Longrightarrow> 0 \<le> n \<and> n \<le> 2"
  shows "sum_scores score fs = Inr n \<Longrightarrow> 0 \<le> n \<and> n \<le> 2 * int (length fs)"
proof (induction fs arbitrary: n)
  case (Cons f fs)
  then obtain a b where "score f = Inr a" "sum_scores score fs = Inr b" "n = a + b"
    by (auto simp: bind_r_Inr)
  then show ?case
    using assms[of f a] Cons.IH[of b] by simp
qed simp

lemma sum_scores_cong:
  "(\<And>f. f \<in> set fs \<Longrightarrow> score f = score' f) \<Longrightarrow> sum_scores score fs = sum_scores score' fs"
  by (induction fs) simp_all

section \<open>The tracker\<close>

definition tracker_score :: "pydict \<Rightarrow> string \<Rightarrow> score_error + int" where
  "tracker_score row fld = (case dict_get row fld of
     VStr s \<Rightarrow> if strip s = [] then Inr 0
       else (case py_int (strip s) of None \<Rightarrow> Inl (NotInteger fld) | Some n \<Rightarrow> in_range fld n)
   | v \<Rightarrow> (case as_int v of Some n \<Rightarrow> in_range fld n | None \<Rightarrow> Inr 0))"

definition untouched_score :: "pyval \<Rightarrow> bool" where
  "untouched_score v \<longleftrightarrow> v = VNone \<or> v = VStr [] \<or> v = VStr ''null''"

text \<open>One row: whether it is updated, and what it is then.\<close>

definition score_row :: "pyval \<Rightarrow> score_error + bool \<times> pyval" where
  "score_row v = (case v of
     VDict row \<Rightarrow>
       if list_all (\<lambda>f. untouched_score (dict_get row f)) SCORE_FIELDS then Inr (False, v)
       else bind_r (sum_scores (tracker_score row) SCORE_FIELDS) (\<lambda>n.
         Inr (\<not> eq_int (dict_get row ''total_score_0_10'') n \<or> dict_get row ''decision'' \<noteq> VStr (decision_of n),
           VDict (dict_set ''decision'' (VStr (decision_of n)) (dict_set ''total_score_0_10'' (VInt n) row))))
   | _ \<Rightarrow> Inl NotReadable)"

fun score_rows :: "pyval list \<Rightarrow> score_error + nat \<times> pyval list" where
  "score_rows [] = Inr (0, [])"
| "score_rows (v # vs) =
     bind_r (score_row v) (\<lambda>(u, v'). bind_r (score_rows vs) (\<lambda>(n, vs'). Inr ((if u then 1 else 0) + n, v' # vs')))"

text \<open>\<open>cmd_score\<close>: the number of updated rows, and the value that is written.\<close>

definition cmd_score :: "json_text \<Rightarrow> score_error + nat \<times> pyval" where
  "cmd_score t = (case t of
     Some (VDict data) \<Rightarrow>
       (case get_default data ''scores'' (VList []) of
          VList rows \<Rightarrow>
            bind_r (score_rows rows) (\<lambda>(n, rows').
            Inr (n, VDict (if map_of data ''scores'' = None then data else dict_set ''scores'' (VList rows') data)))
        | v \<Rightarrow> (case elements v of Inr [] \<Rightarrow> Inr (0, VDict data) | _ \<Rightarrow> Inl NotReadable))
   | _ \<Rightarrow> Inl NotReadable)"

text \<open>Membership in a set compares numbers across their types.\<close>

fun number :: "pyval \<Rightarrow> rat option" where
  "number (VInt i) = Some (of_int i)"
| "number (VBool b) = Some (if b then 1 else 0)"
| "number (VFloat f) = Some f"
| "number _ = None"

definition same_value :: "pyval \<Rightarrow> pyval \<Rightarrow> bool" where
  "same_value a b \<longleftrightarrow> a = b \<or> (number a \<noteq> None \<and> number a = number b)"

definition in_set :: "pyval \<Rightarrow> pyval list \<Rightarrow> score_error + bool" where
  "in_set v vs = bind_r (check (hashable v) NotReadable) (\<lambda>_. Inr (list_ex (same_value v) vs))"

fun candidate_ids :: "pyval list \<Rightarrow> score_error + pyval list" where
  "candidate_ids [] = Inr []"
| "candidate_ids (c # cs) = (case c of
     VDict d \<Rightarrow>
       bind_r (check (hashable (dict_get d ''candidate_id'')) NotReadable) (\<lambda>_.
       bind_r (candidate_ids cs) (\<lambda>vs. Inr (if dict_get d ''candidate_id'' = VNone then vs else dict_get d ''candidate_id'' # vs)))
   | _ \<Rightarrow> Inl NotReadable)"

datatype run_issue = UnknownCandidate pyval | UnknownTerrain pyval | NoOutputPath

fun run_issues :: "pyval list \<Rightarrow> pyval list \<Rightarrow> pyval list \<Rightarrow> score_error + run_issue list" where
  "run_issues candidates terrains [] = Inr []"
| "run_issues candidates terrains (r # rs) = (case r of
     VDict d \<Rightarrow>
       bind_r (in_set (dict_get d ''candidate_id'') candidates) (\<lambda>c.
       bind_r (in_set (dict_get d ''terrain_family'') terrains) (\<lambda>t.
       bind_r (run_issues candidates terrains rs) (\<lambda>more.
       Inr ((if c then [] else [UnknownCandidate (dict_get d ''candidate_id'')]) @
            (if t then [] else [UnknownTerrain (dict_get d ''terrain_family'')]) @
            (if truthy (dict_get d ''output_path'') then [] else [NoOutputPath]) @ more))))
   | _ \<Rightarrow> Inl NotReadable)"

definition listed :: "pydict \<Rightarrow> string \<Rightarrow> score_error + pyval list" where
  "listed data k = (case elements (get_default data k (VList [])) of Inl _ \<Rightarrow> Inl NotReadable | Inr vs \<Rightarrow> Inr vs)"

text \<open>\<open>cmd_validate\<close>: the exit code and what is wrong.\<close>

definition cmd_validate :: "json_text \<Rightarrow> score_error + nat \<times> run_issue list" where
  "cmd_validate t = (case t of
     Some (VDict data) \<Rightarrow>
       bind_r (bind_r (listed data ''candidates'') candidate_ids) (\<lambda>candidates.
       bind_r (listed data ''terrainFamilies'') (\<lambda>terrains.
       bind_r (check (list_all hashable terrains) NotReadable) (\<lambda>_.
       bind_r (bind_r (listed data ''runs'') (run_issues candidates terrains)) (\<lambda>issues.
       Inr (if issues \<noteq> [] then 1 else 0, issues)))))
   | _ \<Rightarrow> Inl NotReadable)"

text \<open>A total is in range, and the decision follows from it.\<close>

lemma tracker_score_bounds: "tracker_score row fld = Inr n \<Longrightarrow> 0 \<le> n \<and> n \<le> 2"
  by (auto simp: tracker_score_def dest: in_range_bounds split: pyval.splits option.splits if_splits)

lemma scored_total: "sum_scores (tracker_score row) SCORE_FIELDS = Inr n \<Longrightarrow> 0 \<le> n \<and> n \<le> 10"
  using sum_scores_bounds[where score = "tracker_score row" and fs = SCORE_FIELDS and n = n, OF tracker_score_bounds] by (simp add: SCORE_FIELDS_def)

text \<open>Scoring a scored file again updates nothing.\<close>

lemma score_fields_apart:
  "f \<in> set SCORE_FIELDS \<Longrightarrow> f \<noteq> ''total_score_0_10'' \<and> f \<noteq> ''decision''"
  by (auto simp: SCORE_FIELDS_def)

lemma score_row_again:
  assumes "score_row v = Inr (u, v')"
  shows "score_row v' = Inr (False, v')"
proof (cases v)
  case (VDict row)
  show ?thesis
  proof (cases "list_all (\<lambda>f. untouched_score (dict_get row f)) SCORE_FIELDS")
    case False
    then obtain n where n: "sum_scores (tracker_score row) SCORE_FIELDS = Inr n"
      and v': "v' = VDict (dict_set ''decision'' (VStr (decision_of n)) (dict_set ''total_score_0_10'' (VInt n) row))"
      using assms VDict by (auto simp: score_row_def bind_r_Inr)
    define row' where "row' = dict_set ''decision'' (VStr (decision_of n)) (dict_set ''total_score_0_10'' (VInt n) row)"
    have same: "dict_get row' f = dict_get row f" if "f \<in> set SCORE_FIELDS" for f
      using score_fields_apart[OF that] by (simp add: row'_def dict_get_update)
    have "sum_scores (tracker_score row') SCORE_FIELDS = Inr n"
      using n sum_scores_cong[of SCORE_FIELDS "tracker_score row'" "tracker_score row"] same by (simp add: tracker_score_def)
    moreover have "\<not> list_all (\<lambda>f. untouched_score (dict_get row' f)) SCORE_FIELDS"
      using False same by (simp add: list_all_iff)
    moreover have "dict_get row' ''total_score_0_10'' = VInt n" "dict_get row' ''decision'' = VStr (decision_of n)"
      by (simp_all add: row'_def dict_get_update)
    moreover have "dict_set ''decision'' (VStr (decision_of n)) (dict_set ''total_score_0_10'' (VInt n) row') = row'"
      by (simp add: row'_def update_swap update_triv)
    ultimately show ?thesis
      unfolding v' row'_def[symmetric] by (simp add: score_row_def bind_r_def)
  qed (use assms VDict in \<open>auto simp: score_row_def\<close>)
qed (use assms in \<open>auto simp: score_row_def\<close>)

lemma score_rows_again: "score_rows vs = Inr (n, vs') \<Longrightarrow> score_rows vs' = Inr (0, vs')"
proof (induction vs arbitrary: n vs')
  case (Cons v vs)
  then obtain u v' n2 vs2 where v: "score_row v = Inr (u, v')" and vs: "score_rows vs = Inr (n2, vs2)" and r: "vs' = v' # vs2"
    by (auto simp: bind_r_Inr)
  show ?case
    using score_row_again[OF v] Cons.IH[OF vs] r by (simp add: bind_r_def)
qed simp

lemma cmd_score_again:
  assumes "cmd_score t = Inr (n, v)"
  shows "cmd_score (Some v) = Inr (0, v)"
proof -
  obtain data where t: "t = Some (VDict data)"
    using assms by (auto simp: cmd_score_def split: option.splits pyval.splits)
  show ?thesis
  proof (cases "map_of data ''scores''")
    case None
    then show ?thesis
      using assms t by (auto simp: cmd_score_def get_default_def bind_r_def)
  next
    case (Some sc)
    show ?thesis
    proof (cases sc)
      case (VList rows)
      then obtain rows' where r: "score_rows rows = Inr (n, rows')" and v: "v = VDict (dict_set ''scores'' (VList rows') data)"
        using assms t Some by (auto simp: cmd_score_def get_default_def bind_r_Inr)
      have "dict_set ''scores'' (VList rows') (dict_set ''scores'' (VList rows') data) = dict_set ''scores'' (VList rows') data"
        by (simp add: update_triv)
      then show ?thesis
        using score_rows_again[OF r] v by (simp add: cmd_score_def get_default_def bind_r_def)
    qed (use assms t Some in \<open>auto simp: cmd_score_def get_default_def elements_def split: list.splits\<close>)
  qed
qed

text \<open>A score that is a float counts as 0, and the text that marks an untouched field is rejected beside a score.\<close>

lemma float_score_lost: "tracker_score [(''genre_fit_0_2'', VFloat 2)] ''genre_fit_0_2'' = Inr 0"
  "score_row (VDict [(''genre_fit_0_2'', VStr ''2''), (''readability_0_2'', VStr ''null'')]) = Inl (NotInteger ''readability_0_2'')"
  by code_simp+

text \<open>A validated file names known candidates and terrains only, and every run has its output.\<close>

lemma run_issues_none:
  assumes "run_issues candidates terrains rs = Inr []"
  shows "list_all (\<lambda>r. case r of VDict d \<Rightarrow> list_ex (same_value (dict_get d ''candidate_id'')) candidates \<and>
      list_ex (same_value (dict_get d ''terrain_family'')) terrains \<and> truthy (dict_get d ''output_path'') | _ \<Rightarrow> False) rs"
  using assms
proof (induction rs)
  case (Cons r rs)
  then show ?case
    by (cases r) (auto simp: bind_r_Inr in_set_def split: if_splits)
qed simp

section \<open>The table\<close>

text \<open>A cell that a short line lacks is \<open>None\<close>; the cells a long line has too many stand under a key of their own.\<close>

record table_row =
  tr_cells :: "(string \<times> string option) list"
  tr_extra :: bool

definition read_row :: "string list \<Rightarrow> string list \<Rightarrow> table_row" where
  "read_row fieldnames line =
     \<lparr>tr_cells = fold (\<lambda>(k, v). dict_set k v) (zip fieldnames (map Some line @ replicate (length fieldnames - length line) None)) [],
      tr_extra = (length fieldnames < length line)\<rparr>"

definition cell_text :: "table_row \<Rightarrow> string \<Rightarrow> string" where
  "cell_text row fld = (case map_of (tr_cells row) fld of Some (Some s) \<Rightarrow> s | _ \<Rightarrow> [])"

definition table_score :: "table_row \<Rightarrow> string \<Rightarrow> score_error + int" where
  "table_score row fld =
     (let v = strip (cell_text row fld) in
      if v = [] then Inr 0 else (case py_int v of None \<Rightarrow> Inl (NotInteger fld) | Some n \<Rightarrow> in_range fld n))"

definition score_line :: "table_row \<Rightarrow> score_error + bool \<times> table_row" where
  "score_line row =
     bind_r (sum_scores (table_score row) SCORE_FIELDS) (\<lambda>n.
     Inr (strip (cell_text row ''total_score_0_10'') \<noteq> show_int n \<or> strip (cell_text row ''decision'') \<noteq> decision_of n,
       row\<lparr>tr_cells := dict_set ''decision'' (Some (decision_of n)) (dict_set ''total_score_0_10'' (Some (show_int n)) (tr_cells row))\<rparr>))"

fun score_lines :: "table_row list \<Rightarrow> score_error + nat \<times> table_row list" where
  "score_lines [] = Inr (0, [])"
| "score_lines (r # rs) =
     bind_r (score_line r) (\<lambda>(u, r'). bind_r (score_lines rs) (\<lambda>(n, rs'). Inr ((if u then 1 else 0) + n, r' # rs')))"

text \<open>
  Writing: the file is emptied first, and a row with a cell too many raises, with the lines before it
  written.
\<close>

fun write_lines :: "string list \<Rightarrow> table_row list \<Rightarrow> bool \<times> string list list" where
  "write_lines fieldnames [] = (True, [])"
| "write_lines fieldnames (r # rs) =
     (if tr_extra r then (False, [])
      else (let (ok, ls) = write_lines fieldnames rs in (ok, map (cell_text r) fieldnames # ls)))"

text \<open>\<open>main\<close>: the number of updated rows, and the table afterwards. Empty lines are skipped.\<close>

definition genre_main :: "string list list option \<Rightarrow> (score_error + nat) \<times> string list list option" where
  "genre_main table = (case table of
     None \<Rightarrow> (Inl NoTable, None)
   | Some [] \<Rightarrow> (Inl NoHeader, Some [])
   | Some (fieldnames # ls) \<Rightarrow>
       (if \<not> set (SCORE_FIELDS @ [''total_score_0_10'', ''decision'']) \<subseteq> set fieldnames then (Inl MissingColumns, table)
        else (case score_lines (map (read_row fieldnames) (filter (\<lambda>l. l \<noteq> []) ls)) of
            Inl e \<Rightarrow> (Inl e, table)
          | Inr (n, rows) \<Rightarrow>
              (let (ok, out) = write_lines fieldnames rows
               in (if ok then Inr n else Inl NotReadable, Some (fieldnames # out))))))"

text \<open>A score out of range leaves the table alone; a line that is too long costs the lines behind it.\<close>

lemma unscored_table_kept:
  assumes "score_lines (map (read_row fieldnames) (filter (\<lambda>l. l \<noteq> []) ls)) = Inl e"
  shows "snd (genre_main (Some (fieldnames # ls))) = Some (fieldnames # ls)"
  using assms by (simp add: genre_main_def)

definition demo_header :: "string list" where
  "demo_header = SCORE_FIELDS @ [''total_score_0_10'', ''decision'']"

lemma long_line_truncates:
  "genre_main (Some [demo_header, [''2'', ''2'', ''2'', ''2'', [], [], [], ''extra''], [''1'', ''1'', ''1'', ''1'', ''1'', [], []]])
   = (Inl NotReadable, Some [demo_header])"
  by code_simp

text \<open>What a row says is what its written line says.\<close>

lemma fold_set_distinct:
  "distinct (map fst kvs) \<Longrightarrow> map_of (fold (\<lambda>(k, v). dict_set k v) kvs d) k =
    (case map_of kvs k of Some v \<Rightarrow> Some v | None \<Rightarrow> map_of d k)"
proof (induction kvs arbitrary: d)
  case (Cons kv kvs)
  obtain a b where "kv = (a, b)"
    by fastforce
  moreover from this Cons.prems have "map_of kvs a = None"
    by (simp add: map_of_eq_None_iff)
  ultimately show ?case
    using Cons by (simp split: option.split)
qed simp

lemma cell_read:
  assumes "distinct fieldnames" and "fld \<in> set fieldnames"
  shows "cell_text (read_row fieldnames (map f fieldnames)) fld = f fld"
proof -
  have "map_of (zip fieldnames (map (\<lambda>x. Some (f x)) fieldnames)) fld = Some (Some (f fld))"
    using assms by (simp add: map_of_zip_map)
  moreover have "map fst (zip fieldnames (map (\<lambda>x. Some (f x)) fieldnames)) = fieldnames"
    by simp
  ultimately show ?thesis
    using assms(1) by (simp add: cell_text_def read_row_def fold_set_distinct comp_def)
qed

text \<open>Scoring a scored table again updates nothing and writes the same lines.\<close>

lemma table_score_bounds: "table_score row fld = Inr n \<Longrightarrow> 0 \<le> n \<and> n \<le> 2"
  by (auto simp: table_score_def Let_def dest: in_range_bounds split: option.splits if_splits)

lemma shown_total:
  assumes "sum_scores (table_score row) SCORE_FIELDS = Inr n"
  shows "strip (show_int n) = show_int n"
proof -
  have "0 \<le> n" "n \<le> 10"
    using sum_scores_bounds[where score = "table_score row" and fs = SCORE_FIELDS and n = n, OF table_score_bounds] assms
    by (simp_all add: SCORE_FIELDS_def)
  then obtain k where "n = int k" "k \<le> 10"
    by (metis int_nat_eq nat_le_iff of_nat_numeral)
  then have "n \<in> set [0, 1, 2, 3, 4, 5, 6, 7, 8, 9, 10]"
    by (auto simp: numeral_eq_Suc le_Suc_eq)
  moreover have "list_all (\<lambda>n. strip (show_int n) = show_int n) [0, 1, 2, 3, 4, 5, 6, 7, 8, 9, 10]"
    by code_simp
  ultimately show ?thesis
    by (simp only: list_all_iff)
qed

lemma shown_decision: "strip (decision_of n) = decision_of n"
proof -
  have "strip ''approved_candidate'' = ''approved_candidate''" "strip ''reviewed'' = ''reviewed''" "strip ''rejected'' = ''rejected''"
    by code_simp+
  then show ?thesis
    by (simp add: decision_of_def)
qed

lemma cell_scored:
  "cell_text (row\<lparr>tr_cells := dict_set ''decision'' (Some d) (dict_set ''total_score_0_10'' (Some t) (tr_cells row))\<rparr>) k =
    (if k = ''decision'' then d else if k = ''total_score_0_10'' then t else cell_text row k)"
  by (simp add: cell_text_def)

lemma score_line_again:
  assumes s: "score_line row = Inr (u, row')" and d: "distinct fieldnames"
    and h: "set (SCORE_FIELDS @ [''total_score_0_10'', ''decision'']) \<subseteq> set fieldnames"
  shows "\<exists>r. score_line (read_row fieldnames (map (cell_text row') fieldnames)) = Inr (False, r) \<and> \<not> tr_extra r \<and>
    map (cell_text r) fieldnames = map (cell_text row') fieldnames"
proof -
  define again where "again = read_row fieldnames (map (cell_text row') fieldnames)"
  obtain n where n: "sum_scores (table_score row) SCORE_FIELDS = Inr n"
    and row': "row' = row\<lparr>tr_cells := dict_set ''decision'' (Some (decision_of n)) (dict_set ''total_score_0_10'' (Some (show_int n)) (tr_cells row))\<rparr>"
    using s by (auto simp: score_line_def bind_r_Inr)
  have c: "cell_text again f = cell_text row' f" if "f \<in> set fieldnames" for f
    using cell_read[OF d that] by (simp add: again_def)
  have "table_score again f = table_score row f" if "f \<in> set SCORE_FIELDS" for f
    using c[of f] h that score_fields_apart[OF that] by (simp add: table_score_def row' cell_scored subset_iff)
  then have "sum_scores (table_score again) SCORE_FIELDS = Inr n"
    using n sum_scores_cong[of SCORE_FIELDS "table_score again" "table_score row"] by simp
  moreover have "cell_text again ''total_score_0_10'' = show_int n" "cell_text again ''decision'' = decision_of n"
    using c h by (simp_all add: row' cell_scored)
  ultimately have "score_line again = Inr (False,
      again\<lparr>tr_cells := dict_set ''decision'' (Some (decision_of n)) (dict_set ''total_score_0_10'' (Some (show_int n)) (tr_cells again))\<rparr>)"
    using shown_total[OF n] shown_decision by (simp add: score_line_def)
  moreover have "\<not> tr_extra again"
    by (simp add: again_def read_row_def)
  moreover have "map (cell_text (again\<lparr>tr_cells := dict_set ''decision'' (Some (decision_of n))
      (dict_set ''total_score_0_10'' (Some (show_int n)) (tr_cells again))\<rparr>)) fieldnames = map (cell_text row') fieldnames"
    using c by (simp add: cell_scored) (simp add: row' cell_scored)
  ultimately show ?thesis
    unfolding again_def[symmetric] by force
qed

lemma score_lines_again:
  assumes "score_lines rows = Inr (n, rows')" and "write_lines fieldnames rows' = (True, out)" and d: "distinct fieldnames"
    and h: "set (SCORE_FIELDS @ [''total_score_0_10'', ''decision'']) \<subseteq> set fieldnames"
  shows "list_all (\<lambda>l. l \<noteq> []) out \<and>
    (\<exists>rs. score_lines (map (read_row fieldnames) out) = Inr (0, rs) \<and> write_lines fieldnames rs = (True, out))"
  using assms(1,2)
proof (induction rows arbitrary: n rows' out)
  case (Cons row rows)
  then obtain u row' n2 rows2 where r: "score_line row = Inr (u, row')" and rs: "score_lines rows = Inr (n2, rows2)"
    and e: "rows' = row' # rows2"
    by (auto simp: bind_r_Inr)
  obtain out2 where w: "write_lines fieldnames rows2 = (True, out2)" and out: "out = map (cell_text row') fieldnames # out2"
    using Cons.prems(2) e by (auto split: if_splits prod.splits)
  have "fieldnames \<noteq> []"
    using h by auto
  then show ?case
    using score_line_again[OF r d h] Cons.IH[OF rs w] out by auto
qed simp

theorem genre_scoring_settles:
  assumes "genre_main (Some (fieldnames # ls)) = (Inr n, Some t)" and "distinct fieldnames"
  shows "genre_main (Some t) = (Inr 0, Some t)"
proof -
  have h: "set (SCORE_FIELDS @ [''total_score_0_10'', ''decision'']) \<subseteq> set fieldnames"
    using assms(1) by (auto simp: genre_main_def split: if_splits)
  obtain rows out where r: "score_lines (map (read_row fieldnames) (filter (\<lambda>l. l \<noteq> []) ls)) = Inr (n, rows)"
    and w: "write_lines fieldnames rows = (True, out)" and t: "t = fieldnames # out"
    using assms(1) by (auto simp: genre_main_def Let_def split: if_splits sum.splits prod.splits)
  have out: "list_all (\<lambda>l. l \<noteq> []) out"
    and "\<exists>rs. score_lines (map (read_row fieldnames) out) = Inr (0, rs) \<and> write_lines fieldnames rs = (True, out)"
    using score_lines_again[OF r w assms(2) h] by auto
  moreover have "filter (\<lambda>l. l \<noteq> []) out = out"
    using out by (simp add: filter_id_conv list_all_iff)
  ultimately show ?thesis
    using h t by (auto simp: genre_main_def)
qed

theorem genre_scoring_settles_witness:
  "genre_main (Some [demo_header, [''2'', ''2'', ''1'', ''2'', ''1'', ''8'', ''approved_candidate'']]) =
    (Inr 0, Some [demo_header, [''2'', ''2'', ''1'', ''2'', ''1'', ''8'', ''approved_candidate'']])"
proof (rule genre_scoring_settles)
  show "genre_main (Some (demo_header # [[''2'', ''2'', ''1'', ''2'', ''1'', [], []]])) =
      (Inr 1, Some [demo_header, [''2'', ''2'', ''1'', ''2'', ''1'', ''8'', ''approved_candidate'']])"
    by code_simp
  show "distinct demo_header"
    by code_simp
qed

end
