(* ===== verification/Gap_Fill.thy ===== *)
theory Gap_Fill
  imports Batch_Engine
begin

text \<open>
  \<open>scripts/parse_gap_fill.py\<close>: the code blocks of a document become assets, which are added to the manifests
  of their categories. The script has no arguments; the document, the manifests by category and
  \<open>json.loads\<close> are parameters here. A category is the name of a directory; writing is taken to succeed.
\<close>

section \<open>The document\<close>

text \<open>
  The text between the fences; \<open>cur\<close> is the part so far, \<open>skip\<close> what is left of a fence. A block without
  a closing fence is none.
\<close>

definition fence :: string where
  "fence = [CHR 0x60, CHR 0x60, CHR 0x60]"

fun split_fence :: "nat \<Rightarrow> string \<Rightarrow> string \<Rightarrow> string list" where
  "split_fence skip cur [] = [cur]"
| "split_fence (Suc skip) cur (c # s) = split_fence skip cur s"
| "split_fence 0 cur (c # s) =
     (if starts_with fence (c # s) then cur # split_fence 2 [] s else split_fence 0 (cur @ [c]) s)"

fun fenced :: "string list \<Rightarrow> string list" where
  "fenced (a # b # c # rest) = b # fenced (c # rest)"
| "fenced _ = []"

definition code_blocks :: "string \<Rightarrow> string list" where
  "code_blocks content = fenced (split_fence 0 [] content)"

record block_state =
  bs_asset :: pydict
  bs_in_prompt :: bool
  bs_prompt_lines :: "string list"

definition after_colon :: "string \<Rightarrow> string" where
  "after_colon line = strip (snd (partition_on (CHR '':'') line))"

definition put_text :: "string \<Rightarrow> string \<Rightarrow> block_state \<Rightarrow> block_state" where
  "put_text k line s = s\<lparr>bs_asset := dict_set k (VStr (after_colon line)) (bs_asset s)\<rparr>"

definition tag_list :: "string \<Rightarrow> pyval" where
  "tag_list line = VList (map (\<lambda>t. VStr (strip t)) (split_on (CHR '','')
     (strip_by (\<lambda>c. c = CHR ''['' \<or> c = CHR '']'') (after_colon line))))"

definition read_line :: "(string \<Rightarrow> json_text) \<Rightarrow> string \<Rightarrow> block_state \<Rightarrow> block_state" where
  "read_line loads raw s =
     (let line = strip raw in
      if line = [] then s
      else if starts_with ''ID:'' line then put_text ''id'' line s
      else if starts_with ''Name:'' line then put_text ''name'' line s
      else if starts_with ''Category:'' line then put_text ''category'' line s
      else if starts_with ''Format:'' line then put_text ''format'' line s
      else if starts_with ''Description:'' line then put_text ''description'' line s
      else if starts_with ''Prompt:'' line then s\<lparr>bs_in_prompt := True\<rparr>
      else if starts_with ''Negative:'' line then put_text ''negative_prompt'' line (s\<lparr>bs_in_prompt := False\<rparr>)
      else if starts_with ''Color Palette:'' line then
        (let s = s\<lparr>bs_in_prompt := False\<rparr> in
         case loads (after_colon line) of
           Some v \<Rightarrow> s\<lparr>bs_asset := dict_set ''color_palette'' v (bs_asset s)\<rparr> | None \<Rightarrow> s)
      else if starts_with ''Tags:'' line then
        s\<lparr>bs_in_prompt := False, bs_asset := dict_set ''tags'' (tag_list line) (bs_asset s)\<rparr>
      else if starts_with ''Priority:'' line then put_text ''priority'' line (s\<lparr>bs_in_prompt := False\<rparr>)
      else if bs_in_prompt s then s\<lparr>bs_prompt_lines := bs_prompt_lines s @ [line]\<rparr>
      else s)"

definition read_block :: "(string \<Rightarrow> json_text) \<Rightarrow> string \<Rightarrow> pydict" where
  "read_block loads block =
     (let s = fold (read_line loads) (split_on (CHR 0x0A) (strip block)) \<lparr>bs_asset = [], bs_in_prompt = False, bs_prompt_lines = []\<rparr>
      in if bs_prompt_lines s \<noteq> [] then dict_set ''prompt'' (VStr (join_on (CHR '' '') (bs_prompt_lines s))) (bs_asset s)
         else bs_asset s)"

definition square :: "int \<Rightarrow> pyval" where
  "square n = VDict [(''width'', VInt n), (''height'', VInt n)]"

definition with_dimensions :: "pydict \<Rightarrow> pydict" where
  "with_dimensions a =
     (let (n, tile) = (if dict_get a ''format'' = VStr ''orthographic_top_down'' then (1024, ''2x2'') else (512, ''1x1''))
      in dict_set ''seamless'' (VBool False) (dict_set ''tile_size'' (VStr tile) (dict_set ''dimensions'' (square n) a)))"

text \<open>The assets by category, in the order in which the categories come up. Ids and categories are texts.\<close>

definition add_asset :: "pydict \<Rightarrow> (string \<times> pydict list) list \<Rightarrow> (string \<times> pydict list) list" where
  "add_asset a by_cat = (case (map_of a ''id'', map_of a ''category'') of
     (Some _, Some (VStr cat)) \<Rightarrow>
       AList.update cat ((case map_of by_cat cat of None \<Rightarrow> [] | Some xs \<Rightarrow> xs) @ [with_dimensions a]) by_cat
   | _ \<Rightarrow> by_cat)"

definition assets_by_category :: "(string \<Rightarrow> json_text) \<Rightarrow> string \<Rightarrow> (string \<times> pydict list) list" where
  "assets_by_category loads content = fold (\<lambda>b. add_asset (read_block loads b)) (code_blocks content) []"

section \<open>The manifests\<close>

type_synonym manifests = "string \<Rightarrow> json_text option"

definition new_manifest :: "string \<Rightarrow> pydict" where
  "new_manifest cat = [(''location'', VStr ''zhaoge/decadent_capital''), (''category'', VStr cat),
     (''biome_id'', VStr ''shang_capital''), (''assets'', VList [])]"

definition load_manifest :: "manifests \<Rightarrow> string \<Rightarrow> script_error + pydict" where
  "load_manifest files cat = (case files cat of
     None \<Rightarrow> Inr (new_manifest cat)
   | Some (Some (VDict m)) \<Rightarrow> Inr m
   | Some _ \<Rightarrow> Inl Uncaught)"

text \<open>\<open>{a["id"] for a in assets}\<close>.\<close>

fun asset_ids :: "pyval list \<Rightarrow> script_error + pyval list" where
  "asset_ids [] = Inr []"
| "asset_ids (v # vs) =
     bind_r (or_uncaught (case v of VDict d \<Rightarrow> map_of d ''id'' | _ \<Rightarrow> None)) (\<lambda>i.
     bind_r (check (hashable i) Uncaught) (\<lambda>_. bind_r (asset_ids vs) (\<lambda>is. Inr (i # is))))"

definition fresh_assets :: "pyval list \<Rightarrow> pydict list \<Rightarrow> pyval list" where
  "fresh_assets ids assets =
     map (\<lambda>a. VDict (AList.delete ''category'' a)) (filter (\<lambda>a. dict_get a ''id'' \<notin> set ids) assets)"

text \<open>A manifest with the missing assets; \<open>append\<close> is there on lists only.\<close>

definition fill_manifest :: "pydict \<Rightarrow> pydict list \<Rightarrow> script_error + pydict" where
  "fill_manifest m assets = (case map_of m ''assets'' of
     Some (VList old) \<Rightarrow>
       bind_r (asset_ids old) (\<lambda>ids. Inr (dict_set ''assets'' (VList (old @ fresh_assets ids assets)) m))
   | _ \<Rightarrow> Inl Uncaught)"

fun fill_all :: "(string \<times> pydict list) list \<Rightarrow> manifests \<Rightarrow> script_error option \<times> manifests" where
  "fill_all [] files = (None, files)"
| "fill_all ((cat, assets) # rest) files =
     (case bind_r (load_manifest files cat) (\<lambda>m. fill_manifest m assets) of
        Inl e \<Rightarrow> (Some e, files)
      | Inr m \<Rightarrow> fill_all rest (files(cat := Some (Some (VDict m)))))"

definition gap_fill :: "(string \<Rightarrow> json_text) \<Rightarrow> string \<Rightarrow> manifests \<Rightarrow> script_error option \<times> manifests" where
  "gap_fill loads content files = fill_all (assets_by_category loads content) files"

section \<open>Filling once is enough\<close>

text \<open>Assets that came from the document have an id that is a text.\<close>

definition text_ids :: "pydict list \<Rightarrow> bool" where
  "text_ids assets \<longleftrightarrow> list_all (\<lambda>a. case map_of a ''id'' of Some (VStr _) \<Rightarrow> True | _ \<Rightarrow> False) assets"

lemma asset_ids_append:
  "asset_ids (xs @ ys) = bind_r (asset_ids xs) (\<lambda>is. bind_r (asset_ids ys) (\<lambda>js. Inr (is @ js)))"
proof (induction xs)
  case Nil
  then show ?case
    by (cases "asset_ids ys") simp_all
next
  case (Cons v vs)
  then show ?case
    by (cases "or_uncaught (case v of VDict d \<Rightarrow> map_of d ''id'' | _ \<Rightarrow> None)"; cases "asset_ids vs"; cases "asset_ids ys")
      (auto simp: bind_r_def check_def)
qed

lemma fresh_ids:
  assumes "text_ids assets"
  shows "asset_ids (fresh_assets ids assets) = Inr (map (\<lambda>a. dict_get a ''id'') (filter (\<lambda>a. dict_get a ''id'' \<notin> set ids) assets))"
  using assms
  by (induction assets)
    (auto simp: text_ids_def fresh_assets_def or_uncaught_def delete_conv' dict_get_def hashable_def check_def split: option.splits pyval.splits)

lemma fill_manifest_again:
  assumes f: "fill_manifest m assets = Inr m'" and t: "text_ids assets"
  shows "fill_manifest m' assets = Inr m'"
proof -
  obtain old ids where old: "map_of m ''assets'' = Some (VList old)" and ids: "asset_ids old = Inr ids"
    and m': "m' = dict_set ''assets'' (VList (old @ fresh_assets ids assets)) m"
    using f by (auto simp: fill_manifest_def bind_r_Inr split: option.splits pyval.splits)
  define ids' where "ids' = ids @ map (\<lambda>a. dict_get a ''id'') (filter (\<lambda>a. dict_get a ''id'' \<notin> set ids) assets)"
  have "asset_ids (old @ fresh_assets ids assets) = Inr ids'"
    by (simp add: asset_ids_append ids fresh_ids[OF t] ids'_def)
  moreover have "fresh_assets ids' assets = []"
    by (auto simp: fresh_assets_def ids'_def filter_empty_conv)
  ultimately show ?thesis
    by (simp add: fill_manifest_def m' update_triv)
qed

lemma fill_all_others: "fill_all rest files = (e, files') \<Longrightarrow> cat \<notin> fst ` set rest \<Longrightarrow> files' cat = files cat"
  by (induction rest arbitrary: files) (auto split: sum.splits)

lemma fill_all_again:
  assumes "fill_all by_cat files = (None, files')" and "distinct (map fst by_cat)"
    and "list_all (\<lambda>(cat, assets). text_ids assets) by_cat"
    and "\<And>cat. cat \<in> fst ` set by_cat \<Longrightarrow> files'' cat = files' cat"
  shows "fill_all by_cat files'' = (None, files'')"
  using assms
proof (induction by_cat arbitrary: files)
  case (Cons x rest)
  obtain cat assets where x: "x = (cat, assets)"
    by fastforce
  obtain m m' where m: "load_manifest files cat = Inr m" "fill_manifest m assets = Inr m'"
    and r: "fill_all rest (files(cat := Some (Some (VDict m')))) = (None, files')"
    using Cons.prems(1) x by (auto simp: bind_r_def split: sum.splits)
  have "files'' cat = Some (Some (VDict m'))"
    using Cons.prems(2,4) x fill_all_others[OF r, of cat] by simp
  moreover from this have "files''(cat := Some (Some (VDict m'))) = files''"
    by (simp add: fun_upd_idem)
  moreover have "fill_all rest files'' = (None, files'')"
    using Cons.IH[OF r] Cons.prems(2,3,4) x by simp
  ultimately show ?case
    using fill_manifest_again[OF m(2)] Cons.prems(3) x by (simp add: load_manifest_def)
qed simp

text \<open>The document gives assets with text ids only, each category once.\<close>

definition id_text :: "pydict \<Rightarrow> bool" where
  "id_text a \<longleftrightarrow> (case map_of a ''id'' of None \<Rightarrow> True | Some v \<Rightarrow> (case v of VStr _ \<Rightarrow> True | _ \<Rightarrow> False))"

lemma id_text_set: "id_text a \<Longrightarrow> k \<noteq> ''id'' \<Longrightarrow> id_text (dict_set k v a)" "id_text (dict_set k (VStr t) a) = (k = ''id'' \<or> id_text a)"
  by (simp_all add: id_text_def)

lemma read_line_id: "id_text (bs_asset s) \<Longrightarrow> id_text (bs_asset (read_line loads raw s))"
  by (simp add: read_line_def Let_def put_text_def id_text_set split: option.splits)

lemma read_block_id: "id_text (read_block loads block)"
proof -
  have "id_text (bs_asset (fold (read_line loads) ls s))" if "id_text (bs_asset s)" for ls s
    using that by (induction ls arbitrary: s) (simp_all add: read_line_id)
  then show ?thesis
    by (simp add: read_block_def Let_def id_text_set) (simp add: id_text_def)
qed

definition grouped :: "(string \<times> pydict list) list \<Rightarrow> bool" where
  "grouped by_cat \<longleftrightarrow> distinct (map fst by_cat) \<and> list_all (\<lambda>(cat, assets). text_ids assets) by_cat"

lemma dimensions_id: "map_of (with_dimensions a) ''id'' = map_of a ''id''"
  by (simp add: with_dimensions_def Let_def split: prod.splits)

lemma add_asset_grouped:
  assumes "grouped by_cat" and "id_text a"
  shows "grouped (add_asset a by_cat)"
proof (cases "\<exists>i cat. map_of a ''id'' = Some i \<and> map_of a ''category'' = Some (VStr cat)")
  case True
  then obtain i cat where a: "map_of a ''id'' = Some i" "map_of a ''category'' = Some (VStr cat)"
    by blast
  obtain t where i: "i = VStr t"
    using assms(2) a(1) by (cases i) (auto simp: id_text_def)
  define xs where "xs = (case map_of by_cat cat of None \<Rightarrow> [] | Some xs \<Rightarrow> xs)"
  have g: "list_all (\<lambda>(cat, assets). text_ids assets) by_cat"
    using assms(1) by (simp add: grouped_def)
  have "text_ids xs"
  proof (cases "map_of by_cat cat")
    case (Some ys)
    then show ?thesis
      using g map_of_SomeD[OF Some] by (auto simp: xs_def list_all_iff)
  qed (simp add: xs_def text_ids_def)
  then have "text_ids (xs @ [with_dimensions a])"
    using a(1) i by (simp add: text_ids_def dimensions_id)
  moreover have "set (dict_set cat v by_cat) \<subseteq> insert (cat, v) (set by_cat)" for v
    by (induction by_cat) auto
  moreover have "add_asset a by_cat = dict_set cat (xs @ [with_dimensions a]) by_cat"
    using a by (simp add: add_asset_def xs_def)
  ultimately show ?thesis
    using assms(1) g unfolding grouped_def by (simp add: distinct_update) (force simp: list_all_iff)
next
  case False
  then show ?thesis
    using assms(1) by (auto simp: add_asset_def split: option.splits pyval.splits)
qed

lemma by_category_grouped: "grouped (assets_by_category loads content)"
proof -
  have "grouped (fold (\<lambda>b. add_asset (read_block loads b)) bs g)" if "grouped g" for bs g
    using that by (induction bs arbitrary: g) (simp_all add: add_asset_grouped read_block_id)
  then show ?thesis
    by (simp add: assets_by_category_def grouped_def)
qed

text \<open>The script run twice over a document leaves the manifests as the first run did.\<close>

theorem gap_fill_settles:
  assumes "gap_fill loads content files = (None, files')"
  shows "gap_fill loads content files' = (None, files')"
  using fill_all_again[OF assms[unfolded gap_fill_def], of files'] by_category_grouped[of loads content]
  by (simp add: gap_fill_def grouped_def)

text \<open>Two blocks of one id in a document both become assets; what stands behind \<open>Prompt:\<close> is lost.\<close>

definition demo_gaps :: string where
  "demo_gaps = fence @ [CHR 0x0A] @ ''ID: a1'' @ [CHR 0x0A] @ ''Category: hats'' @ [CHR 0x0A] @ ''Prompt: red hat'' @ [CHR 0x0A] @ fence @
     fence @ [CHR 0x0A] @ ''ID: a1'' @ [CHR 0x0A] @ ''Category: hats'' @ [CHR 0x0A] @ fence"

lemma repeated_id_added_twice:
  "(case snd (gap_fill (\<lambda>_. None) demo_gaps (\<lambda>_. None)) ''hats'' of
     Some (Some (VDict m)) \<Rightarrow> (case dict_get m ''assets'' of
       VList [VDict a, VDict b] \<Rightarrow> dict_get a ''id'' = VStr ''a1'' \<and> dict_get b ''id'' = VStr ''a1'' \<and> dict_get a ''prompt'' = VNone
     | _ \<Rightarrow> False)
   | _ \<Rightarrow> False)"
  by code_simp

theorem gap_fill_settles_witness:
  "gap_fill (\<lambda>_. None) demo_gaps (snd (gap_fill (\<lambda>_. None) demo_gaps (\<lambda>_. None))) =
    (None, snd (gap_fill (\<lambda>_. None) demo_gaps (\<lambda>_. None)))"
proof (rule gap_fill_settles)
  have "fst (gap_fill (\<lambda>_. None) demo_gaps (\<lambda>_. None)) = None"
    by code_simp
  then show "gap_fill (\<lambda>_. None) demo_gaps (\<lambda>_. None) = (None, snd (gap_fill (\<lambda>_. None) demo_gaps (\<lambda>_. None)))"
    by (simp add: prod_eq_iff)
qed

end
