(* ===== verification/Terrain_Export.thy ===== *)
theory Terrain_Export
  imports Batch_Engine
begin

text \<open>
  \<open>scripts/terrain-export-results.py\<close>: the images of a tracking file are downloaded into folders, and the
  file and an index are written behind the loop. The answers of the servers are a parameter; creating
  directories and writing are taken to succeed. \<open>export_main\<close> is \<open>main\<close> after the arguments are parsed.
\<close>

section \<open>One run of the file\<close>

text \<open>Here \<open>_safe\<close> keeps capitals.\<close>

definition safe_part :: "string \<Rightarrow> string" where
  "safe_part value = strip_by (\<lambda>c. c = CHR ''_'') (sub_runs (\<lambda>c. \<not> (is_alnum c \<or> c \<in> set ''._-'')) False value)"

record export_args =
  xa_out_dir :: string
  xa_api_key :: string
  xa_candidate :: string

record export_state =
  xs_files :: "string \<Rightarrow> string option"
  xs_requests :: "(string \<times> string option) list"
  xs_downloaded :: nat
  xs_skipped :: nat

definition named_or :: "(pyval \<Rightarrow> string) \<Rightarrow> pydict \<Rightarrow> string \<Rightarrow> string \<Rightarrow> string" where
  "named_or py_str d k dflt = safe_part (py_str (py_or (dict_get d k) (VStr dflt)))"

definition export_target :: "(pyval \<Rightarrow> string) \<Rightarrow> export_args \<Rightarrow> pydict \<Rightarrow> string" where
  "export_target py_str args d =
     path_join [xa_out_dir args, named_or py_str d ''candidate_id'' ''unknown_candidate'',
       named_or py_str d ''terrain_family'' ''unknown_terrain'',
       ''s'' @ py_str (dict_get d ''seed'') @ ''__'' @ named_or py_str d ''job_id'' ''no_job'' @ ''.png'']"

text \<open>\<open>strip\<close> is there on texts only.\<close>

definition export_url :: "pydict \<Rightarrow> string option" where
  "export_url d = (case py_or (dict_get d ''output_path'') (VStr []) of VStr s \<Rightarrow> Some (strip s) | _ \<Rightarrow> None)"

definition selected :: "export_args \<Rightarrow> pydict \<Rightarrow> bool" where
  "selected args d \<longleftrightarrow> xa_candidate args = [] \<or> dict_get d ''candidate_id'' = VStr (xa_candidate args)"

text \<open>The run afterwards; \<open>fetch\<close> is what a URL gives, \<open>None\<close> an exception.\<close>

definition export_run :: "(pyval \<Rightarrow> string) \<Rightarrow> (string \<Rightarrow> string option) \<Rightarrow> export_args \<Rightarrow> pyval \<Rightarrow> export_state
    \<Rightarrow> (script_error + pyval) \<times> export_state" where
  "export_run py_str fetch args v s = (case v of
     VDict d \<Rightarrow>
       if \<not> selected args d then (Inr v, s)
       else (case export_url d of
           None \<Rightarrow> (Inl Uncaught, s)
         | Some url \<Rightarrow>
             (let target = export_target py_str args d; d' = dict_set ''local_output_path'' (VStr target) d in
              if url = [] then (Inr v, s\<lparr>xs_skipped := xs_skipped s + 1\<rparr>)
              else if xs_files s target \<noteq> None then (Inr (VDict d'), s\<lparr>xs_skipped := xs_skipped s + 1\<rparr>)
              else
                (let s = s\<lparr>xs_requests := xs_requests s @
                       [(url, if xa_api_key args \<noteq> [] then Some (''Bearer '' @ xa_api_key args) else None)]\<rparr> in
                 case fetch url of
                   None \<Rightarrow> (Inl Uncaught, s)
                 | Some content \<Rightarrow>
                     (Inr (VDict d'), s\<lparr>xs_files := (xs_files s)(target \<mapsto> content), xs_downloaded := xs_downloaded s + 1\<rparr>))))
   | _ \<Rightarrow> (Inl Uncaught, s))"

fun export_runs :: "(pyval \<Rightarrow> string) \<Rightarrow> (string \<Rightarrow> string option) \<Rightarrow> export_args \<Rightarrow> pyval list \<Rightarrow> export_state
    \<Rightarrow> (script_error + pyval list) \<times> export_state" where
  "export_runs py_str fetch args [] s = (Inr [], s)"
| "export_runs py_str fetch args (v # vs) s =
     (case export_run py_str fetch args v s of
        (Inl e, s) \<Rightarrow> (Inl e, s)
      | (Inr v', s) \<Rightarrow>
          (case export_runs py_str fetch args vs s of
             (Inl e, s) \<Rightarrow> (Inl e, s)
           | (Inr vs', s) \<Rightarrow> (Inr (v' # vs'), s)))"

section \<open>The file and the index\<close>

definition index_line :: "(pyval \<Rightarrow> string) \<Rightarrow> pydict \<Rightarrow> string" where
  "index_line py_str d = ''- `'' @ py_str (dict_get d ''candidate_id'') @ ''` | `'' @ py_str (dict_get d ''terrain_family'') @ ''` | '' @
     ''`seed='' @ py_str (dict_get d ''seed'') @ ''` | `'' @ py_str (dict_get d ''local_output_path'') @ ''`''"

definition index_lines :: "(pyval \<Rightarrow> string) \<Rightarrow> pyval list \<Rightarrow> string list" where
  "index_lines py_str runs = [''# Terrain Review Export Index'', []] @
     concat (map (\<lambda>v. if truthy (dict_get (dict_of v) ''local_output_path'') then [index_line py_str (dict_of v)] else []) runs) @ [[]]"

text \<open>\<open>data.setdefault("meta", {})["last_updated"] = now\<close>.\<close>

definition stamp_meta :: "string \<Rightarrow> pydict \<Rightarrow> script_error + pydict" where
  "stamp_meta now data = (case get_default data ''meta'' (VDict []) of
     VDict m \<Rightarrow> Inr (dict_set ''meta'' (VDict (dict_set ''last_updated'' (VStr now) m)) data)
   | _ \<Rightarrow> Inl Uncaught)"

text \<open>The tracking file and the index that are written; nothing is written when there are no runs.\<close>

definition export_main :: "(pyval \<Rightarrow> string) \<Rightarrow> (string \<Rightarrow> string option) \<Rightarrow> string \<Rightarrow> export_args \<Rightarrow> json_text \<Rightarrow> export_state
    \<Rightarrow> (script_error + (pydict \<times> string) option) \<times> export_state" where
  "export_main py_str fetch now args t s = (case t of
     Some (VDict data) \<Rightarrow>
       (let runs = get_default data ''runs'' (VList []) in
        if \<not> truthy runs then (Inr None, s)
        else (case runs of
            VList vs \<Rightarrow>
              (case export_runs py_str fetch args vs s of
                 (Inl e, s) \<Rightarrow> (Inl e, s)
               | (Inr vs', s) \<Rightarrow>
                   (bind_r (stamp_meta now (dict_set ''runs'' (VList vs') data)) (\<lambda>d.
                      Inr (Some (d, join_on (CHR 0x0A) (index_lines py_str vs')))), s))
          | _ \<Rightarrow> (Inl Uncaught, s)))
   | _ \<Rightarrow> (Inl Uncaught, s))"

section \<open>What an export leaves\<close>

text \<open>A selected run with a URL names a file that is there.\<close>

definition exported :: "(pyval \<Rightarrow> string) \<Rightarrow> export_args \<Rightarrow> (string \<Rightarrow> string option) \<Rightarrow> pyval \<Rightarrow> pyval \<Rightarrow> bool" where
  "exported py_str args files v v' = (case v of
     VDict d \<Rightarrow>
       if selected args d \<and> export_url d \<noteq> Some [] then
         v' = VDict (dict_set ''local_output_path'' (VStr (export_target py_str args d)) d) \<and>
         files (export_target py_str args d) \<noteq> None
       else v' = v
   | _ \<Rightarrow> False)"

definition keeps_files :: "export_state \<Rightarrow> export_state \<Rightarrow> bool" where
  "keeps_files s s' \<longleftrightarrow> (\<forall>p. xs_files s p \<noteq> None \<longrightarrow> xs_files s' p = xs_files s p)"

lemma export_run_ok:
  assumes "export_run py_str fetch args v s = (r, s')"
  shows "keeps_files s s'" and "r = Inr v' \<Longrightarrow> exported py_str args (xs_files s') v v'"
  using assms
  by (auto simp: export_run_def exported_def keeps_files_def Let_def split: pyval.splits if_splits option.splits)

lemma exported_later:
  "exported py_str args (xs_files s) v v' \<Longrightarrow> keeps_files s s' \<Longrightarrow> exported py_str args (xs_files s') v v'"
  by (auto simp: exported_def keeps_files_def split: pyval.splits if_splits)

lemma export_runs_keeps: "export_runs py_str fetch args vs s = (r, s') \<Longrightarrow> keeps_files s s'"
proof (induction vs arbitrary: s r s')
  case (Cons v vs)
  obtain r1 s1 where v: "export_run py_str fetch args v s = (r1, s1)"
    by fastforce
  obtain r2 s2 where vs: "export_runs py_str fetch args vs s1 = (r2, s2)"
    by fastforce
  have "keeps_files s s1" "keeps_files s1 s2"
    using export_run_ok(1)[OF v] Cons.IH[OF vs] by simp_all
  moreover have "s' = s1 \<or> s' = s2"
    using Cons.prems v vs by (auto split: sum.splits)
  ultimately show ?case
    by (auto simp: keeps_files_def)
qed (simp add: keeps_files_def)

lemma export_runs_ok:
  "export_runs py_str fetch args vs s = (Inr vs', s') \<Longrightarrow> list_all2 (exported py_str args (xs_files s')) vs vs'"
proof (induction vs arbitrary: s vs')
  case (Cons v vs)
  then obtain v1 s1 vs1 where v: "export_run py_str fetch args v s = (Inr v1, s1)"
    and vs: "export_runs py_str fetch args vs s1 = (Inr vs1, s')" and r: "vs' = v1 # vs1"
    by (auto split: prod.splits sum.splits)
  then show ?case
    using exported_later[OF export_run_ok(2)[OF v refl] export_runs_keeps[OF vs]] Cons.IH[OF vs] by simp
qed simp

text \<open>No image that was there is fetched again, and a finished export fetches nothing the second time.\<close>

lemma local_path_ignored:
  "export_target py_str args (dict_set ''local_output_path'' x d) = export_target py_str args d"
  "export_url (dict_set ''local_output_path'' x d) = export_url d"
  "selected args (dict_set ''local_output_path'' x d) = selected args d"
  by (simp_all add: export_target_def named_or_def export_url_def selected_def dict_get_update)

lemma exported_again:
  assumes "export_run py_str fetch args v s = (Inr v', s')" and "keeps_files s' s2"
  shows "xs_requests (snd (export_run py_str fetch' args v' s2)) = xs_requests s2"
  using assms
  by (auto simp: export_run_def keeps_files_def Let_def local_path_ignored split: pyval.splits if_splits option.splits)

text \<open>The token goes wherever the file points.\<close>

lemma token_goes_anywhere:
  "xs_requests (snd (export_run demo_py_str (\<lambda>_. None) \<lparr>xa_out_dir = ''out'', xa_api_key = ''k1'', xa_candidate = []\<rparr>
     (VDict [(''output_path'', VStr ''http://elsewhere/x.png''), (''seed'', VInt 1)])
     \<lparr>xs_files = (\<lambda>_. None), xs_requests = [], xs_downloaded = 0, xs_skipped = 0\<rparr>)) =
   [(''http://elsewhere/x.png'', Some ''Bearer k1'')]"
  by code_simp

end
