(* ===== verification/Spec2Isabelle.thy ===== *)
theory Spec2Isabelle
  imports Recovery Webhook Registry Civitai_Fetch Comfyui Lora_Api Worker_Loop Monitoring Logging Migrations Startup Admin Transparency Litegraph Wan_Options Fetch_Tasks Background_Loops Batch_Suite Bundle_Batch Review_Batch Prompt_Migration Checkpoint_Index Wan_Editor Review_Scores Gap_Fill Terrain_Export
begin

text \<open>
  A verification development of the local image generation service, a FastAPI application
  (\<open>src/app/\<close>) that takes requests for images and videos, queues them in SQLite, runs them
  one at a time on a ComfyUI sidecar, stores the outputs in S3 and serves them through a
  gateway, tells clients about finished jobs by webhooks, and manages a directory of LoRA
  files fetched from Civitai.

  \<^bold>\<open>How the parts interact.\<close> A request passes authentication (\<open>auth.py\<close>), is validated against
  the model registry (\<open>validation.py\<close>, \<open>registry/\<close>), admitted below the queue limit and stored
  as a queued row (\<open>api/images.py\<close>, \<open>api/videos.py\<close>, \<open>queue/jobs.py\<close>). The worker
  (\<open>queue/worker.py\<close>) takes the row, validates it again, patches a workflow graph
  (\<open>registry/workflows.py\<close>, \<open>registry/wan_advanced.py\<close>), drives the backend
  (\<open>backends/comfyui.py\<close>), uploads the outputs (\<open>storage/s3.py\<close>) and completes or fails the
  row. A synchronous request waits for that; an asynchronous one polls, or is told by the
  webhook dispatcher (\<open>webhooks/\<close>), which also takes over rows whose client is gone. At boot,
  rows left non-terminal are failed and handed over (\<open>queue/recovery.py\<close>); the reaper
  (\<open>queue/reaper.py\<close>) deletes outputs nobody fetched. LoRA fetches have a table of their own
  (\<open>queue/fetches.py\<close>), a background task each (\<open>loras/civitai.py\<close>) that checks URLs
  (\<open>loras/civitai_url.py\<close>) and makes room (\<open>loras/eviction.py\<close>), and a listing
  (\<open>loras/scanner.py\<close>, \<open>api/loras.py\<close>).

  \<^bold>\<open>Theories and the code they model.\<close> Definitions carry the names of the functions they
  translate, without leading underscores; where two functions share a name, or a name clashes
  with one of HOL, a word is added.
  \<^item> \<open>Prelude\<close>: Python values (\<open>pyval\<close>), dictionaries, strings and \<open>bind_r\<close> for fallible steps;
    the locale \<open>row_store\<close> (a table keyed by a unique column) and the locale \<open>status_machine\<close>
    (a finite status graph with a rank), which the stores interpret on their own operations.
  \<^item> \<open>Job_Store\<close>: \<open>queue/jobs.py\<close>. Records \<open>job\<close> and \<open>attempt\<close> for the two tables, one
    definition per operation, the step relation \<open>job_step\<close> of all writes, and its invariants.
  \<^item> \<open>Fetch_Store\<close>: \<open>queue/fetches.py\<close> and \<open>queue/fetches_recovery.py\<close>, with the partial
    unique index on active versions; the step relation \<open>fetch_step\<close>.
  \<^item> \<open>Recovery\<close>: \<open>queue/recovery.py\<close> and one pass of \<open>queue/reaper.py\<close>.
  \<^item> \<open>Url\<close>: \<open>urlsplit\<close>, \<open>int()\<close>, \<open>float()\<close> and base64 as the service uses them.
  \<^item> \<open>Webhook\<close>: \<open>webhooks/dispatcher.py\<close>, \<open>retry.py\<close>, \<open>signing.py\<close>: one pass over the candidate
    rows with policy, request, answer and bookkeeping.
  \<^item> \<open>Workflow_Graph\<close>, \<open>Video_Graph\<close>: \<open>registry/workflows.py\<close>, \<open>registry/wan_advanced.py\<close>. A graph
    is an association list of nodes, in the order of the JSON object.
  \<^item> \<open>Registry\<close>: \<open>registry/models.py\<close> and \<open>registry/presets.py\<close> on the parsed YAML values.
  \<^item> \<open>Validation\<close>: \<open>validation.py\<close>: the Pydantic models as records with their field checks,
    \<open>resolve_and_validate\<close> and \<open>resolve_and_validate_video\<close> with every limit, and the sidecar
    time stamps.
  \<^item> \<open>Queue_Worker\<close>: \<open>queue/worker.py\<close>: \<open>process_item\<close> over the three pipelines, as effects on
    the record \<open>worker\<close> (job table, last model, log of calls, sidecars, and \<open>wk_events\<close>, what was
    reported to the collector), with the answers of backend, storage and clock in the record
    \<open>backend_world\<close>. The rules \<open>ensures_*\<close> and
    \<open>keeps_*\<close> and the locale \<open>run_invariant\<close> carry an assertion through a pipeline.
  \<^item> \<open>Worker_Loop\<close>: the bounded queue of jobs and the worker's task: putting an id, taking one,
    one turn of the loop, and the ways the task dies.
  \<^item> \<open>Comfyui\<close>: \<open>backends/comfyui.py\<close>: the adapter over the answers of ComfyUI and the clock, and
    \<open>adapter_world\<close>, the \<open>backend_world\<close> it gives the worker.
  \<^item> \<open>Eviction\<close>: \<open>loras/eviction.py\<close>. \<open>Civitai_Url\<close>, \<open>Civitai_Fetch\<close>: \<open>loras/civitai_url.py\<close> and
    \<open>loras/civitai.py\<close>, one fetch from its row to its final row with every error path.
  \<^item> \<open>Object_Storage\<close>: \<open>storage/s3.py\<close>, with the locale \<open>blob_store\<close>. \<open>Init_Image\<close>:
    \<open>api/init_image_multipart.py\<close>. \<open>Auth\<close>: \<open>auth.py\<close> and \<open>errors.py\<close>.
  \<^item> \<open>Gateway\<close>: the reading endpoints of \<open>api/images.py\<close> and \<open>api/videos.py\<close>. \<open>Api\<close>: their
    generating endpoints. \<open>Sync_Wait\<close>: a synchronous request between them, where handler,
    disconnect watcher, worker and flush interleave as the steps \<open>sync_step\<close>, and what the binary
    endpoint reports to the collector. \<open>Background_Loops\<close>: the endless loops of dispatcher and reaper as
    lists of rounds, with the jobs changing between them.
    \<open>Lora_Api\<close>: \<open>loras/scanner.py\<close> and \<open>api/loras.py\<close>.
  \<^item> \<open>Migrations\<close>: \<open>queue/store.py\<close>, over an arbitrary schema and its scripts. \<open>Startup\<close>:
    \<open>startup/checks.py\<close>, \<open>startup/smoke_test.py\<close> and the \<open>lifespan\<close> of \<open>main.py\<close>, as a list of steps
    on the record \<open>boot\<close> of what the process holds.
  \<^item> \<open>Monitoring\<close>: \<open>monitoring/metrics.py\<close>, \<open>api/monitoring.py\<close>, \<open>api/health.py\<close>. \<open>Logging\<close>:
    \<open>logging_config.py\<close> and \<open>middleware/logging.py\<close>, where the locale \<open>scrub_pass\<close> is the contract
    of a redacting pattern and \<open>scrub_target\<close> says what a pass keeps of an earlier one.
  \<^item> \<open>Admin\<close>: \<open>api/models.py\<close> (the catalog) and \<open>api/admin.py\<close> (re-reading the registry, listing
    failed deliveries). \<open>Transparency\<close>: \<open>postprocess/transparency.py\<close> on lists of pixels.
  \<^item> \<open>Wan_Options\<close>: the option models of \<open>validation.py\<close> for the expert settings of a video, with their
    field checks, and what \<open>registry/wan_advanced.py\<close> makes of them. \<open>Fetch_Tasks\<close>: the tasks, the
    semaphore and the locks of \<open>loras/civitai.py\<close> as the step relation \<open>pool_step\<close>.
  \<^item> \<open>Litegraph\<close>: \<open>scripts/convert_litegraph_to_api.py\<close>, which makes the workflow templates.
    \<open>Wan_Editor\<close>: \<open>scripts/gen_wan22_i2v_ui.py\<close>, which writes such a file for the editor; the converter
    is run on its result.
  \<^item> \<open>Batch_Engine\<close>: what the batch clients share: plan, loop and one turn, on the record \<open>batch\<close> of files,
    requests and rows of the log. The locale \<open>batch_loop\<close> is what a turn promises to the loop,
    \<open>batch_script\<close> adds dry and resumed runs, \<open>image_writer\<close> and \<open>record_keeper\<close> are what a script
    promises of its writing. \<open>Biome_Batch\<close>, \<open>Tree_Batch\<close>, \<open>Bundle_Batch\<close>, \<open>Review_Batch\<close>:
    \<open>scripts/homm3-biome-bundle-batch.py\<close>, \<open>tree-environment-batch.py\<close>, \<open>generic-bundle-batch.py\<close>,
    \<open>asset-review-batch.py\<close>. \<open>Batch_Suite\<close>: \<open>run-homm3-tree-bundle.py\<close>, which runs two of them.
  \<^item> \<open>Prompt_Migration\<close>: \<open>scripts/migrate-investiture-prompts.py\<close>. \<open>Review_Scores\<close>:
    \<open>scripts/terrain-review-tracker.py\<close> and \<open>score-genre-review.py\<close>. \<open>Checkpoint_Index\<close>:
    \<open>tools/inspect_checkpoint.py\<close> on the bytes of a file. \<open>Gap_Fill\<close>: \<open>scripts/parse_gap_fill.py\<close>.
    \<open>Terrain_Export\<close>: \<open>scripts/terrain-export-results.py\<close>.

  \<^bold>\<open>Conventions.\<close> A raised exception is the \<open>Inl\<close> of a sum; a coroutine is a function from its
  state to its result and new state, and what happens between two of its steps is an argument
  (\<open>before\<close>, the worker's \<open>turn\<close>) or a step relation. Texts and bytes are lists of characters;
  texts are taken to be ASCII, except in \<open>Auth\<close>, where the difference matters. A Python float
  is an exact rational, so rounding, infinities and NaN are outside the model; time stamps are
  integers. Messages of exceptions that format floats or repeat other exceptions are shortened.
  The response of an environment (Pydantic's field parsing, YAML, SHA-256 and HMAC, DNS, SQLite's
  acceptance of a write, HTTP, S3, the file system, clocks and random ids) is a parameter; what
  the theorems need of it is a named hypothesis.

  \<^bold>\<open>What the lemmas show.\<close> For the stores: which writes are possible, that terminal rows are
  final and reachable rows consistent, and that at most one fetch of a version is active. For
  the worker: every item settles its row as long as the backend raises what the pipelines
  provide for (\<open>backend_contract\<close>), no submitted prompt is lost, and no model swap happens
  without head room. For the adapter: its loops end, success has a cause, and it meets
  \<open>backend_contract\<close> except in named cases, one of which strands the job. For the graphs: LoRA
  chains are threaded and every consumer rerouted. For validation and the registry: what passes
  is within every limit. For webhooks: bounded attempts, only allowed public hosts, service
  headers win, accepted deliveries are final. For the HTTP interface: answers agree with
  polling, outputs are served back byte for byte, every error has the envelope, the queue limit
  holds up to the requests in flight, a synchronous result is counted as sent or left to the webhook alone.
  For LoRAs: fetches settle, fetched bytes are verified,
  names stay inside the directory, eviction spares what is in use. For start-up: a started
  service has passed its checks, a failed start it reports leaves nothing open, every migration
  runs once. For operation: the scrape reports exactly the events, log records are redacted. For
  the fetch tasks: the slots bound the fetches that run, and pruning locks costs the exclusion of
  two tasks of one version. For the scripts: a batch that ends with 0 has made every planned image
  and recorded it, a resumed one touches no image that is there and asks for none, migrations and
  scores have nothing left to do the second time, the editor's links agree at both ends and arrive
  in the converted graph.

  \<^bold>\<open>Bounds.\<close> No definition takes fuel. Retries are structural: three metadata requests, three
  uploads per object, five deliveries per webhook. The loops of the adapter are
  \<open>partial_function (option)\<close>, and \<open>wait_always_returns\<close> and \<open>unload_verified\<close> show that they
  return and after how many requests.

  \<^bold>\<open>Not modelled.\<close> The scheduler of asyncio: the fetch tasks are steps of \<open>pool_step\<close>, but what one
  of them does in its slot (\<open>run_fetch\<close>) is not interleaved with the others, and other tasks are cancelled
  only where a definition says so. The calls that write to the log;
  opening SQLite's connection; the construction of the FastAPI object; decoding and encoding of
  images; and of the scripts the parsing of arguments, printing, the operator scripts not named
  above and the experiments.
\<close>

end
